(* ===== verification/QS_Prelude.thy ===== *)
theory QS_Prelude
  imports Main "HOL-Library.Word"
begin

text \<open>
  Shared vocabulary of the development: byte strings, Rust strings, the checked and
  saturating integer operations of the standard library the sources use, big-endian
  words, decimal rendering, and the generic lemmas the component theories rely on.

  \<^item> A Rust \<open>String\<close> is the list of its UTF-8 bytes, which is what \<open>len\<close>, \<open>as_bytes\<close>
    and the wire formats see.
  \<^item> A signed machine integer is an \<open>int\<close> with its range written out (\<open>in_i64\<close>), an
    unsigned one a \<open>nat\<close>; where the code wraps, a \<open>word\<close> is used.
  \<^item> A Rust \<open>Result<T, E>\<close> is \<open>E + T\<close>, with \<open>Inl\<close> for \<open>Err\<close> and \<open>Inr\<close> for \<open>Ok\<close>.
\<close>

type_synonym byte = "8 word"
type_synonym bytes = "byte list"
type_synonym rstring = "byte list"

named_theorems be_simps "big-endian and integer conversions"
named_theorems range_defs "ranges of the fixed-width integers"

subsection \<open>Integer ranges\<close>

definition i32_min :: int where [range_defs]: "i32_min = - 2147483648"
definition i32_max :: int where [range_defs]: "i32_max = 2147483647"
definition i64_min :: int where [range_defs]: "i64_min = - 9223372036854775808"
definition i64_max :: int where [range_defs]: "i64_max = 9223372036854775807"
definition u16_max :: nat where [range_defs]: "u16_max = 65535"
definition u32_max :: nat where [range_defs]: "u32_max = 4294967295"
definition u64_max :: nat where [range_defs]: "u64_max = 18446744073709551615"

definition in_i32 :: "int \<Rightarrow> bool" where
  [range_defs]: "in_i32 x \<longleftrightarrow> i32_min \<le> x \<and> x \<le> i32_max"

definition in_i64 :: "int \<Rightarrow> bool" where
  [range_defs]: "in_i64 x \<longleftrightarrow> i64_min \<le> x \<and> x \<le> i64_max"

definition checked_add_i32 :: "int \<Rightarrow> int \<Rightarrow> int option" where
  "checked_add_i32 a b = (if in_i32 (a + b) then Some (a + b) else None)"

definition checked_add_i64 :: "int \<Rightarrow> int \<Rightarrow> int option" where
  "checked_add_i64 a b = (if in_i64 (a + b) then Some (a + b) else None)"

definition checked_add_u64 :: "nat \<Rightarrow> nat \<Rightarrow> nat option" where
  "checked_add_u64 a b = (if a + b \<le> u64_max then Some (a + b) else None)"

definition saturating_add_u64 :: "nat \<Rightarrow> nat \<Rightarrow> nat" where
  "saturating_add_u64 a b = min (a + b) u64_max"

text \<open>\<open>usize\<close> is 64 bits wide on the supported targets.\<close>

definition i64_of_usize :: "nat \<Rightarrow> int option" where
  "i64_of_usize n = (if int n \<le> i64_max then Some (int n) else None)"

definition i64_of_u64 :: "nat \<Rightarrow> int option" where
  "i64_of_u64 n = (if int n \<le> i64_max then Some (int n) else None)"

definition u64_of_i64 :: "int \<Rightarrow> nat option" where
  "u64_of_i64 x = (if 0 \<le> x then Some (nat x) else None)"

definition u16_of_i32 :: "int \<Rightarrow> nat option" where
  "u16_of_i32 x = (if 0 \<le> x \<and> x \<le> int u16_max then Some (nat x) else None)"

lemma checked_add_i64_Some [simp]:
  "checked_add_i64 a b = Some c \<longleftrightarrow> c = a + b \<and> in_i64 (a + b)"
  by (auto simp: checked_add_i64_def)

lemma checked_add_i64_None [simp]: "checked_add_i64 a b = None \<longleftrightarrow> \<not> in_i64 (a + b)"
  by (simp add: checked_add_i64_def)

lemma checked_add_i32_Some [simp]:
  "checked_add_i32 a b = Some c \<longleftrightarrow> c = a + b \<and> in_i32 (a + b)"
  by (auto simp: checked_add_i32_def)

lemma checked_add_i32_None [simp]: "checked_add_i32 a b = None \<longleftrightarrow> \<not> in_i32 (a + b)"
  by (simp add: checked_add_i32_def)

lemma saturating_add_u64_bound: "saturating_add_u64 a b \<le> u64_max"
  by (simp add: saturating_add_u64_def)

lemma saturating_add_u64_less: "a < u64_max \<Longrightarrow> saturating_add_u64 a 1 = a + 1"
  by (simp add: saturating_add_u64_def)

subsection \<open>Big-endian 32-bit words\<close>

definition u32_to_be_bytes :: "nat \<Rightarrow> bytes" where
  "u32_to_be_bytes n =
     [word_of_nat (n div 16777216), word_of_nat (n div 65536), word_of_nat (n div 256), word_of_nat n]"

fun u32_from_be_bytes :: "bytes \<Rightarrow> nat" where
  "u32_from_be_bytes [a, b, c, d] =
     unat a * 16777216 + unat b * 65536 + unat c * 256 + unat d"
| "u32_from_be_bytes _ = 0"

lemma unat_byte_of_nat [be_simps]: "unat (word_of_nat n :: byte) = n mod 256"
  by (simp add: unat_of_nat)

lemma unat_byte_less: "unat (b :: byte) < 256"
  using unsigned_less [of b] by simp

lemma length_u32_to_be_bytes [simp]: "length (u32_to_be_bytes n) = 4"
  by (simp add: u32_to_be_bytes_def)

lemma u32_from_to_be_bytes [simp]:
  assumes "n \<le> u32_max"
  shows "u32_from_be_bytes (u32_to_be_bytes n) = n"
proof -
  have n: "n div 16777216 mod 256 = n div 16777216"
    using assms by (simp add: u32_max_def)
  have "n div 65536 = n div 16777216 * 256 + n div 65536 mod 256"
    and "n div 256 = n div 65536 * 256 + n div 256 mod 256"
    and "n = n div 256 * 256 + n mod 256"
    using div_mult2_eq [of n 65536 256] div_mult2_eq [of n 256 256] by simp_all
  then have "n div 16777216 * 16777216 + n div 65536 mod 256 * 65536 + n div 256 mod 256 * 256 + n mod 256 = n"
    by linarith
  then show ?thesis
    using n by (simp add: u32_to_be_bytes_def unat_byte_of_nat)
qed


lemma byte_eqI: "unat (a :: byte) = n mod 256 \<Longrightarrow> word_of_nat n = a"
  by (metis unat_byte_of_nat word_unat_eq_iff)

lemma be_digits:
  fixes a b c d :: nat
  assumes "b < 256" "c < 256" "d < 256"
  shows "(a * 16777216 + b * 65536 + c * 256 + d) div 16777216 = a"
    and "(a * 16777216 + b * 65536 + c * 256 + d) div 65536 = a * 256 + b"
    and "(a * 16777216 + b * 65536 + c * 256 + d) div 256 = a * 65536 + b * 256 + c"
  using assms by (auto intro!: div_nat_eqI)

lemma mod_256_drop:
  fixes b c d :: nat
  assumes "d < 256"
  shows "(k * 16777216 + b * 65536 + c * 256 + d) mod 256 = d"
    and "(k * 65536 + b * 256 + d) mod 256 = d"
    and "(k * 256 + d) mod 256 = d"
proof -
  have *: "(256 * q + d) mod 256 = d" for q
    using assms by simp
  show "(k * 16777216 + b * 65536 + c * 256 + d) mod 256 = d"
    using * [of "k * 65536 + b * 256 + c"] by (simp add: algebra_simps)
  show "(k * 65536 + b * 256 + d) mod 256 = d"
    using * [of "k * 256 + b"] by (simp add: algebra_simps)
  show "(k * 256 + d) mod 256 = d"
    using * [of k] by (simp add: algebra_simps)
qed

lemma u32_to_from_be_bytes:
  assumes "length bs = 4"
  shows "u32_to_be_bytes (u32_from_be_bytes bs) = bs"
proof -
  obtain a b c d where bs: "bs = [a, b, c, d]"
    using assms by (auto simp: numeral_eq_Suc length_Suc_conv)
  have l: "unat a < 256" "unat b < 256" "unat c < 256" "unat d < 256"
    by (rule unat_byte_less)+
  show ?thesis
    unfolding bs u32_to_be_bytes_def u32_from_be_bytes.simps list.inject
    using l by (intro conjI byte_eqI) (simp_all only: be_digits mod_256_drop mod_less simp_thms)
qed

lemma u32_from_be_bytes_max: "u32_from_be_bytes bs \<le> u32_max"
proof (cases "length bs = 4")
  case True
  then obtain a b c d where bs: "bs = [a, b, c, d]"
    by (auto simp: numeral_eq_Suc length_Suc_conv)
  show ?thesis
    using unat_byte_less [of a] unat_byte_less [of b] unat_byte_less [of c] unat_byte_less [of d]
    by (simp add: bs u32_max_def)
next
  case False
  then have "u32_from_be_bytes bs = 0"
    by (cases bs rule: u32_from_be_bytes.cases) auto
  then show ?thesis by simp
qed

subsection \<open>Runs of a deterministic component\<close>

text \<open>
  Several components are a state with a set of operations. A run is a list of operations
  applied in order, and a safety property is an invariant that the start state has and
  every operation keeps.
\<close>

definition run :: "('op \<Rightarrow> 's \<Rightarrow> 's) \<Rightarrow> 'op list \<Rightarrow> 's \<Rightarrow> 's" where
  "run step ops s = fold step ops s"

lemma run_Nil [simp]: "run step [] s = s"
  and run_Cons [simp]: "run step (x # xs) s = run step xs (step x s)"
  and run_append [simp]: "run step (xs @ ys) s = run step ys (run step xs s)"
  by (simp_all add: run_def)

fun allowed_run :: "('op \<Rightarrow> 's \<Rightarrow> 's) \<Rightarrow> ('op \<Rightarrow> 's \<Rightarrow> bool) \<Rightarrow> 'op list \<Rightarrow> 's \<Rightarrow> bool" where
  "allowed_run step ok [] s = True"
| "allowed_run step ok (x # xs) s = (ok x s \<and> allowed_run step ok xs (step x s))"

lemma allowed_run_all: "(\<And>x s. ok x s) \<Longrightarrow> allowed_run step ok xs s"
  by (induction xs arbitrary: s) auto

text \<open>
  Invariants of a step relation between the states of several threads: what holds at the start
  and is kept by every step holds in every reachable state.
\<close>

locale transition_invariant =
  fixes step :: "'s \<Rightarrow> 's \<Rightarrow> bool"
    and start :: "'s \<Rightarrow> bool"
    and inv :: "'s \<Rightarrow> bool"
  assumes holds_start: "start s \<Longrightarrow> inv s"
    and holds_step: "inv s \<Longrightarrow> step s s' \<Longrightarrow> inv s'"
begin

lemma holds_steps: "step\<^sup>*\<^sup>* s s' \<Longrightarrow> inv s \<Longrightarrow> inv s'"
  by (induction rule: rtranclp_induct) (auto intro: holds_step)

lemma holds_reachable: "start s \<Longrightarrow> step\<^sup>*\<^sup>* s s' \<Longrightarrow> inv s'"
  using holds_start holds_steps by blast

end

locale step_invariant =
  fixes step :: "'op \<Rightarrow> 's \<Rightarrow> 's"
    and init :: 's
    and inv :: "'s \<Rightarrow> bool"
    and allowed :: "'op \<Rightarrow> 's \<Rightarrow> bool"
  assumes inv_init: "inv init"
    and inv_step: "inv s \<Longrightarrow> allowed x s \<Longrightarrow> inv (step x s)"
begin

lemma inv_run_from: "inv s \<Longrightarrow> allowed_run step allowed xs s \<Longrightarrow> inv (run step xs s)"
  by (induction xs arbitrary: s) (auto intro: inv_step)

lemma inv_run: "allowed_run step allowed xs init \<Longrightarrow> inv (run step xs init)"
  by (rule inv_run_from [OF inv_init])

end

subsection \<open>Decimal rendering and ASCII\<close>

definition ascii :: "string \<Rightarrow> rstring" where
  "ascii s = map (\<lambda>c. word_of_nat (of_char c)) s"

definition digit :: "nat \<Rightarrow> byte" where
  "digit d = word_of_nat (48 + d)"

fun decimal :: "nat \<Rightarrow> rstring" where
  "decimal n = (if n < 10 then [digit n] else decimal (n div 10) @ [digit (n mod 10)])"

declare decimal.simps [simp del]

definition is_ascii_digit :: "byte \<Rightarrow> bool" where
  "is_ascii_digit b \<longleftrightarrow> 48 \<le> unat b \<and> unat b \<le> 57"

text \<open>The inverse of \<open>decimal\<close>, as \<open>str::parse\<close> reads plain digits.\<close>

definition undecimal :: "rstring \<Rightarrow> nat" where
  "undecimal s = foldl (\<lambda>acc b. acc * 10 + (unat b - 48)) 0 s"

lemma unat_digit: "d < 10 \<Longrightarrow> unat (digit d) = 48 + d"
  unfolding digit_def by (subst unat_byte_of_nat) simp

lemma is_ascii_digit_digit [simp]: "d < 10 \<Longrightarrow> is_ascii_digit (digit d)"
  by (simp add: is_ascii_digit_def unat_digit)

lemma decimal_digits: "\<forall>b \<in> set (decimal n). is_ascii_digit b"
proof (induction n rule: decimal.induct)
  case (1 n)
  then show ?case by (subst decimal.simps) (auto split: if_splits)
qed

lemma undecimal_decimal [simp]: "undecimal (decimal n) = n"
proof (induction n rule: decimal.induct)
  case (1 n)
  have d: "unat (digit k) - 48 = k" if "k < 10" for k
    using that by (simp add: unat_digit)
  show ?case
  proof (cases "n < 10")
    case True
    then show ?thesis by (subst decimal.simps) (simp add: undecimal_def d)
  next
    case False
    have "undecimal (decimal n) = undecimal (decimal (n div 10)) * 10 + n mod 10"
      using False by (subst decimal.simps) (simp add: undecimal_def d)
    then show ?thesis using 1 False by simp
  qed
qed

lemma decimal_inj: "decimal m = decimal n \<longleftrightarrow> m = n"
  by (metis undecimal_decimal)

end
