(* ===== verification/Wire_Framing.thy ===== *)
theory Wire_Framing
  imports QS_Prelude
begin

text \<open>
  The bounded length-prefix codec of \<open>crates/core/wire/src/framing.rs\<close>: a payload is sent
  behind its four-byte big-endian length, and both directions enforce the caller's limit.
  The codec is exact: the frames it accepts are precisely the frames it produces.
\<close>

subsection \<open>The codec\<close>

datatype framing_error = Incomplete | LimitExceeded

definition PREFIX_LENGTH :: nat where
  "PREFIX_LENGTH = 4"

definition framing_encode :: "bytes \<Rightarrow> nat \<Rightarrow> framing_error + bytes" where
  "framing_encode payload limit =
     (if length payload > u32_max then Inl LimitExceeded
      else if length payload > limit then Inl LimitExceeded
      else if PREFIX_LENGTH + length payload > u64_max then Inl LimitExceeded
      else Inr (u32_to_be_bytes (length payload) @ payload))"

definition framing_decode :: "bytes \<Rightarrow> nat \<Rightarrow> framing_error + bytes" where
  "framing_decode frame limit =
     (if length frame < PREFIX_LENGTH then Inl Incomplete
      else
        let payload_length = u32_from_be_bytes (take PREFIX_LENGTH frame);
            payload = drop PREFIX_LENGTH frame
        in if payload_length > limit then Inl LimitExceeded
           else if length payload \<noteq> payload_length then Inl Incomplete
           else Inr payload)"

subsection \<open>The interface of an exact bounded codec\<close>

text \<open>
  What a client of a bounded framing layer relies on: encoding and decoding are inverse
  to each other under the same limit, and nothing above the limit passes.
\<close>

locale bounded_codec =
  fixes enc :: "bytes \<Rightarrow> nat \<Rightarrow> 'e + bytes"
    and dec :: "bytes \<Rightarrow> nat \<Rightarrow> 'e + bytes"
  assumes dec_enc: "enc p l = Inr f \<Longrightarrow> dec f l = Inr p"
    and enc_dec: "dec f l = Inr p \<Longrightarrow> enc p l = Inr f"
    and enc_bound: "enc p l = Inr f \<Longrightarrow> length p \<le> l"
begin

lemma exact: "dec f l = Inr p \<longleftrightarrow> enc p l = Inr f"
  using dec_enc enc_dec by blast

lemma enc_inj: "enc p l = Inr f \<Longrightarrow> enc q l = Inr f \<Longrightarrow> p = q"
  by (metis dec_enc sum.inject(2))

lemma dec_inj: "dec f l = Inr p \<Longrightarrow> dec g l = Inr p \<Longrightarrow> f = g"
  by (metis enc_dec sum.inject(2))

lemma dec_bound: "dec f l = Inr p \<Longrightarrow> length p \<le> l"
  using enc_bound enc_dec by blast

end

lemma framing_encode_Inr:
  "framing_encode p l = Inr f \<longleftrightarrow>
     length p \<le> u32_max \<and> length p \<le> l \<and> f = u32_to_be_bytes (length p) @ p"
  by (auto simp: framing_encode_def PREFIX_LENGTH_def u32_max_def u64_max_def)

lemma framing_decode_Inr:
  "framing_decode f l = Inr p \<longleftrightarrow>
     length p \<le> u32_max \<and> length p \<le> l \<and> f = u32_to_be_bytes (length p) @ p"
proof
  assume d: "framing_decode f l = Inr p"
  then have f: "4 \<le> length f" and p: "p = drop 4 f"
    and len: "length p = u32_from_be_bytes (take 4 f)" and lim: "length p \<le> l"
    by (auto simp: framing_decode_def PREFIX_LENGTH_def Let_def split: if_splits)
  have "take 4 f = u32_to_be_bytes (length p)"
    unfolding len using f by (simp add: u32_to_from_be_bytes)
  then show "length p \<le> u32_max \<and> length p \<le> l \<and> f = u32_to_be_bytes (length p) @ p"
    using lim len p u32_from_be_bytes_max [of "take 4 f"] by (metis append_take_drop_id)
next
  assume "length p \<le> u32_max \<and> length p \<le> l \<and> f = u32_to_be_bytes (length p) @ p"
  then show "framing_decode f l = Inr p"
    by (simp add: framing_decode_def PREFIX_LENGTH_def)
qed

interpretation framing: bounded_codec framing_encode framing_decode
  by unfold_locales (auto simp: framing_encode_Inr framing_decode_Inr)

subsection \<open>Properties\<close>

text \<open>
  C30. The framing codec is exact: \<open>decode\<close> accepts a byte string with payload \<open>p\<close> under
  a limit if and only if \<open>encode\<close> produces that byte string from \<open>p\<close> under the same limit.
\<close>

theorem framing_exact: "framing_decode f l = Inr p \<longleftrightarrow> framing_encode p l = Inr f"
  by (rule framing.exact)

text \<open>
  The errors of \<open>decode\<close>: a frame shorter than its prefix, or whose body is not
  exactly the declared length, is incomplete; a declared length above the limit is reported
  as such whatever the body is; and nothing else is rejected.
\<close>

theorem framing_decode_errors:
  "(framing_decode f l = Inl LimitExceeded \<longleftrightarrow>
      4 \<le> length f \<and> l < u32_from_be_bytes (take 4 f)) \<and>
   (framing_decode f l = Inl Incomplete \<longleftrightarrow>
      length f < 4 \<or>
      u32_from_be_bytes (take 4 f) \<le> l \<and> length f \<noteq> 4 + u32_from_be_bytes (take 4 f))"
  by (auto simp: framing_decode_def PREFIX_LENGTH_def Let_def split: if_splits)

end
