(* ===== verification/Conn_Stream.thy ===== *)
theory Conn_Stream
  imports Wire_Framing
begin

text \<open>
  The byte-stream layer of \<open>crates/core/connections/src/session/protocol/io.rs\<close>: frames with a
  four-byte big-endian length, read from and written to a \<open>ConnectionIo\<close>.

  A stream is its pending input, the error a read reports once that input is used up
  (\<open>UnexpectedEof\<close> after the peer has closed, a timeout for an idle peer, as the deadline
  reader reports it), the output accepted so far, how many more bytes the write half takes
  before it fails, and the outcomes of \<open>flush\<close> and \<open>shutdown\<close>.
\<close>

subsection \<open>Errors\<close>

text \<open>
  The kinds of \<open>std::io::Error\<close> the sources distinguish. \<open>ICancelled\<close> is the error \<open>io.rs\<close>
  builds with \<open>io::Error::other(Cancelled)\<close>, recognised again by \<open>map_cancelled\<close>.
\<close>

datatype io_kind =
    INotFound | IPermissionDenied | IConnectionRefused | IConnectionReset | IConnectionAborted
  | INotConnected | IAddrInUse | IAddrNotAvailable | IBrokenPipe | IAlreadyExists | IWouldBlock
  | IInvalidInput | IInvalidData | ITimedOut | IWriteZero | IInterrupted | IUnexpectedEof
  | IOutOfMemory | IOther | ICancelled

datatype conn_error =
    EIo io_kind | EWire | EFrameTooLarge | EUnexpectedFrame | ERejected | EHandshake | ECrypto
  | EInvalidPayload | ECancelled

definition map_cancelled :: "conn_error \<Rightarrow> conn_error" where
  "map_cancelled e = (if e = EIo ICancelled then ECancelled else e)"

fun other_io_error_kind :: "io_kind \<Rightarrow> string" where
  "other_io_error_kind IAlreadyExists = ''already_exists''"
| "other_io_error_kind IWouldBlock = ''would_block''"
| "other_io_error_kind IInvalidInput = ''invalid_input''"
| "other_io_error_kind IInvalidData = ''invalid_data''"
| "other_io_error_kind ITimedOut = ''timed_out''"
| "other_io_error_kind IWriteZero = ''write_zero''"
| "other_io_error_kind IInterrupted = ''interrupted''"
| "other_io_error_kind IUnexpectedEof = ''unexpected_eof''"
| "other_io_error_kind IOutOfMemory = ''out_of_memory''"
| "other_io_error_kind _ = ''other''"

fun io_error_kind :: "io_kind \<Rightarrow> string" where
  "io_error_kind INotFound = ''not_found''"
| "io_error_kind IPermissionDenied = ''permission_denied''"
| "io_error_kind IConnectionRefused = ''connection_refused''"
| "io_error_kind IConnectionReset = ''connection_reset''"
| "io_error_kind IConnectionAborted = ''connection_aborted''"
| "io_error_kind INotConnected = ''not_connected''"
| "io_error_kind IAddrInUse = ''address_in_use''"
| "io_error_kind IAddrNotAvailable = ''address_not_available''"
| "io_error_kind IBrokenPipe = ''broken_pipe''"
| "io_error_kind k = other_io_error_kind k"

subsection \<open>Streams\<close>

record stream =
  s_in :: bytes
  s_end :: io_kind
  s_out :: bytes
  s_room :: "nat option"
  s_werr :: io_kind
  s_flush :: "io_kind option"
  s_shutdown :: "io_kind option"
  s_open :: bool

definition stream_read_exact :: "nat \<Rightarrow> stream \<Rightarrow> (io_kind + bytes) \<times> stream" where
  "stream_read_exact n s =
     (if n \<le> length (s_in s) then (Inr (take n (s_in s)), s\<lparr>s_in := drop n (s_in s)\<rparr>)
      else (Inl (s_end s), s\<lparr>s_in := []\<rparr>))"

definition stream_write_all :: "bytes \<Rightarrow> stream \<Rightarrow> (io_kind + unit) \<times> stream" where
  "stream_write_all bs s =
     (if \<not> s_open s then (Inl IBrokenPipe, s)
      else case s_room s of
        None \<Rightarrow> (Inr (), s\<lparr>s_out := s_out s @ bs\<rparr>)
      | Some n \<Rightarrow>
          if length bs \<le> n
          then (Inr (), s\<lparr>s_out := s_out s @ bs, s_room := Some (n - length bs)\<rparr>)
          else (Inl (s_werr s), s\<lparr>s_out := s_out s @ take n bs, s_room := Some 0\<rparr>))"

definition stream_flush :: "stream \<Rightarrow> (io_kind + unit) \<times> stream" where
  "stream_flush s = (case s_flush s of None \<Rightarrow> (Inr (), s) | Some e \<Rightarrow> (Inl e, s))"

definition stream_shutdown_write :: "stream \<Rightarrow> (io_kind + unit) \<times> stream" where
  "stream_shutdown_write s =
     (case s_shutdown s of None \<Rightarrow> (Inr (), s\<lparr>s_open := False\<rparr>) | Some e \<Rightarrow> (Inl e, s))"

text \<open>
  \<open>read_ready\<close>: a read can make progress, or observe that the peer has closed; an idle
  stream, whose reads would time out, is not ready.
\<close>

definition stream_read_ready :: "stream \<Rightarrow> bool" where
  "stream_read_ready s \<longleftrightarrow> s_in s \<noteq> [] \<or> s_end s \<notin> {ITimedOut, IWouldBlock, ICancelled}"

subsection \<open>Framing on a stream\<close>

definition MAX_FRAME_LENGTH :: nat where "MAX_FRAME_LENGTH = 1024 * 1024"

definition io_write :: "bytes \<Rightarrow> stream \<Rightarrow> (conn_error + unit) \<times> stream" where
  "io_write bs s =
     (if length bs > MAX_FRAME_LENGTH then (Inl EFrameTooLarge, s)
      else if length bs > u32_max then (Inl EFrameTooLarge, s)
      else
        (case stream_write_all (u32_to_be_bytes (length bs)) s of
           (Inl e, s1) \<Rightarrow> (Inl (EIo e), s1)
         | (Inr _, s1) \<Rightarrow>
           (case stream_write_all bs s1 of
              (Inl e, s2) \<Rightarrow> (Inl (EIo e), s2)
            | (Inr _, s2) \<Rightarrow>
              (case stream_flush s2 of
                 (Inl e, s3) \<Rightarrow> (Inl (EIo e), s3)
               | (Inr _, s3) \<Rightarrow> (Inr (), s3)))))"

definition read_frame_remainder :: "nat \<Rightarrow> stream \<Rightarrow> (conn_error + bytes) \<times> stream" where
  "read_frame_remainder n s =
     (case stream_read_exact n s of
        (Inl e, s1) \<Rightarrow> (Inl (EIo (if e = IUnexpectedEof then IInvalidData else e)), s1)
      | (Inr bs, s1) \<Rightarrow> (Inr bs, s1))"

definition frame_size :: "bytes \<Rightarrow> conn_error + nat" where
  "frame_size prefix =
     (let sz = u32_from_be_bytes prefix in if sz > MAX_FRAME_LENGTH then Inl EFrameTooLarge else Inr sz)"

definition io_read :: "stream \<Rightarrow> (conn_error + bytes) \<times> stream" where
  "io_read s =
     (case stream_read_exact 1 s of
        (Inl e, s1) \<Rightarrow> (Inl (EIo e), s1)
      | (Inr p0, s1) \<Rightarrow>
        (case read_frame_remainder 3 s1 of
           (Inl e, s2) \<Rightarrow> (Inl e, s2)
         | (Inr p1, s2) \<Rightarrow>
           (case frame_size (p0 @ p1) of
              Inl e \<Rightarrow> (Inl e, s2)
            | Inr n \<Rightarrow> read_frame_remainder n s2)))"

subsection \<open>What a frame looks like on the wire\<close>

definition frame_bytes :: "bytes \<Rightarrow> bytes" where
  "frame_bytes bs = u32_to_be_bytes (length bs) @ bs"

lemma max_frame_u32: "n \<le> MAX_FRAME_LENGTH \<Longrightarrow> n \<le> u32_max"
  by (simp add: MAX_FRAME_LENGTH_def u32_max_def)

lemma length_frame_bytes [simp]: "length (frame_bytes bs) = 4 + length bs"
  by (simp add: frame_bytes_def)

text \<open>A write that succeeds appends exactly one frame and keeps everything else but the room.\<close>

lemma stream_write_all_Inr:
  "stream_write_all bs s = (Inr u, s') \<Longrightarrow>
     s_open s \<and> s_out s' = s_out s @ bs \<and> s_in s' = s_in s \<and> s_end s' = s_end s \<and> s_open s' = s_open s \<and>
     s_flush s' = s_flush s \<and> s_shutdown s' = s_shutdown s \<and> s_werr s' = s_werr s \<and>
     (s_room s = None \<longrightarrow> s_room s' = None)"
  by (auto simp: stream_write_all_def split: option.splits if_splits)

lemma io_write_Inr:
  assumes "io_write bs s = (Inr (), s')"
  shows "length bs \<le> MAX_FRAME_LENGTH \<and> s_out s' = s_out s @ frame_bytes bs \<and>
     s_in s' = s_in s \<and> s_end s' = s_end s"
  using assms
  by (auto simp: io_write_def stream_flush_def frame_bytes_def dest!: stream_write_all_Inr
      split: if_splits prod.splits sum.splits option.splits)

lemma io_write_keeps_input: "s_in (snd (io_write bs s)) = s_in s \<and> s_end (snd (io_write bs s)) = s_end s"
  by (auto simp: io_write_def stream_write_all_def stream_flush_def split: option.splits)

text \<open>A write half without a limit and without a flush error takes every frame up to the bound.\<close>

definition s_healthy :: "stream \<Rightarrow> bool" where
  "s_healthy s \<longleftrightarrow> s_open s \<and> s_room s = None \<and> s_flush s = None"

lemma io_write_healthy:
  assumes "s_healthy s" and "length bs \<le> MAX_FRAME_LENGTH"
  shows "io_write bs s = (Inr (), s\<lparr>s_out := s_out s @ frame_bytes bs\<rparr>)"
  using assms max_frame_u32 [of "length bs"]
  by (simp add: io_write_def s_healthy_def stream_write_all_def stream_flush_def frame_bytes_def)

lemma s_healthy_update [simp]:
  "s_healthy (s\<lparr>s_out := x\<rparr>) = s_healthy s" "s_healthy (s\<lparr>s_in := x\<rparr>) = s_healthy s"
  by (simp_all add: s_healthy_def)

lemma io_read_frame:
  assumes "s_in s = frame_bytes bs @ r" and "length bs \<le> MAX_FRAME_LENGTH"
  shows "io_read s = (Inr bs, s\<lparr>s_in := r\<rparr>)"
proof -
  obtain a b c d where p: "u32_to_be_bytes (length bs) = [a, b, c, d]"
    by (simp add: u32_to_be_bytes_def)
  have n: "u32_from_be_bytes [a, b, c, d] = length bs"
    using u32_from_to_be_bytes [OF max_frame_u32 [OF assms(2)]] p by simp
  have i: "s_in s = a # b # c # d # bs @ r"
    using assms(1) by (simp add: frame_bytes_def p)
  have f: "frame_size [a, b, c, d] = Inr (length bs)"
    using assms(2) n by (simp add: frame_size_def del: u32_from_be_bytes.simps)
  show ?thesis
    by (simp add: io_read_def read_frame_remainder_def stream_read_exact_def i f)
qed

lemma stream_read_exact_Inr:
  "stream_read_exact n s = (Inr bs, s') \<Longrightarrow>
     s_in s = bs @ s_in s' \<and> length bs = n \<and> s' = s\<lparr>s_in := s_in s'\<rparr>"
  by (auto simp: stream_read_exact_def split: if_splits)

lemma read_frame_remainder_Inr:
  "read_frame_remainder n s = (Inr bs, s') \<Longrightarrow>
     s_in s = bs @ s_in s' \<and> length bs = n \<and> s' = s\<lparr>s_in := s_in s'\<rparr>"
  by (auto simp: read_frame_remainder_def dest!: stream_read_exact_Inr split: sum.splits prod.splits)

lemma io_read_Inr:
  assumes "io_read s = (Inr bs, s')"
  shows "length bs \<le> MAX_FRAME_LENGTH \<and> s_in s = frame_bytes bs @ s_in s' \<and> s' = s\<lparr>s_in := s_in s'\<rparr>"
proof -
  from assms obtain p0 s1 p1 s2 n where
    r: "stream_read_exact 1 s = (Inr p0, s1)" "read_frame_remainder 3 s1 = (Inr p1, s2)"
      "frame_size (p0 @ p1) = Inr n" "read_frame_remainder n s2 = (Inr bs, s')"
    by (auto simp: io_read_def split: prod.splits sum.splits)
  note q = stream_read_exact_Inr [OF r(1)] read_frame_remainder_Inr [OF r(2)]
    read_frame_remainder_Inr [OF r(4)]
  then have i: "s_in s = p0 @ p1 @ bs @ s_in s'" and l: "length p0 = 1" "length p1 = 3" "length bs = n"
    by auto
  from q have s': "s' = s\<lparr>s_in := s_in s'\<rparr>"
    by (metis stream.update_convs(1) stream.select_convs(1) stream.surjective)
  from r(3) have "u32_from_be_bytes (p0 @ p1) = n" "n \<le> MAX_FRAME_LENGTH"
    by (auto simp: frame_size_def Let_def split: if_splits)
  moreover from this l have "u32_to_be_bytes n = p0 @ p1"
    using u32_to_from_be_bytes [of "p0 @ p1"] by simp
  ultimately show ?thesis using i l s' by (simp add: frame_bytes_def)
qed

subsection \<open>Streams of frames\<close>

fun write_frames :: "bytes list \<Rightarrow> stream \<Rightarrow> (conn_error + unit) \<times> stream" where
  "write_frames [] s = (Inr (), s)"
| "write_frames (b # bs) s =
     (case io_write b s of (Inl e, s1) \<Rightarrow> (Inl e, s1) | (Inr _, s1) \<Rightarrow> write_frames bs s1)"

fun read_frames :: "nat \<Rightarrow> stream \<Rightarrow> (conn_error + bytes list) \<times> stream" where
  "read_frames 0 s = (Inr [], s)"
| "read_frames (Suc n) s =
     (case io_read s of
        (Inl e, s1) \<Rightarrow> (Inl e, s1)
      | (Inr b, s1) \<Rightarrow>
        (case read_frames n s1 of (Inl e, s2) \<Rightarrow> (Inl e, s2) | (Inr bs, s2) \<Rightarrow> (Inr (b # bs), s2)))"

lemma write_frames_healthy:
  "s_healthy s \<Longrightarrow> \<forall>b \<in> set bs. length b \<le> MAX_FRAME_LENGTH \<Longrightarrow>
     write_frames bs s = (Inr (), s\<lparr>s_out := s_out s @ concat (map frame_bytes bs)\<rparr>)"
  by (induction bs arbitrary: s) (simp_all add: io_write_healthy)

lemma read_frames_concat:
  "s_in s = concat (map frame_bytes bs) @ r \<Longrightarrow> \<forall>b \<in> set bs. length b \<le> MAX_FRAME_LENGTH \<Longrightarrow>
     read_frames (length bs) s = (Inr bs, s\<lparr>s_in := r\<rparr>)"
proof (induction bs arbitrary: s)
  case (Cons b bs)
  have "io_read s = (Inr b, s\<lparr>s_in := concat (map frame_bytes bs) @ r\<rparr>)"
    using Cons.prems by (intro io_read_frame) simp_all
  then show ?case using Cons.IH [of "s\<lparr>s_in := concat (map frame_bytes bs) @ r\<rparr>"] Cons.prems by simp
qed simp

text \<open>
  Frames survive the stream: any list of frames of at most 1 MiB written to a working
  stream is accepted, and a reader of the written bytes obtains exactly those frames, in order,
  and stops exactly where they end.
\<close>

theorem stream_frames_roundtrip:
  assumes "s_healthy a" and "s_out a = []" and "\<forall>b \<in> set bs. length b \<le> MAX_FRAME_LENGTH"
  shows "\<exists>a'. write_frames bs a = (Inr (), a') \<and>
     (\<forall>c r. s_in c = s_out a' @ r \<longrightarrow> read_frames (length bs) c = (Inr bs, c\<lparr>s_in := r\<rparr>))"
  using write_frames_healthy [OF assms(1,3)] read_frames_concat [OF _ assms(3)] assms(2) by simp

definition idle_stream :: stream where
  "idle_stream = \<lparr>s_in = [], s_end = ITimedOut, s_out = [], s_room = None, s_werr = IBrokenPipe,
     s_flush = None, s_shutdown = None, s_open = True\<rparr>"

lemma idle_stream_healthy [simp]: "s_healthy idle_stream"
  by (simp add: idle_stream_def s_healthy_def)

lemma idle_stream_out [simp]: "s_out idle_stream = []"
  by (simp add: idle_stream_def)

theorem stream_frames_roundtrip_witness:
  "\<exists>a'. write_frames [[1, 2, 3], [], [9]] idle_stream = (Inr (), a') \<and>
     read_frames 3 (idle_stream\<lparr>s_in := s_out a' @ [7]\<rparr>) =
       (Inr [[1, 2, 3], [], [9]], idle_stream\<lparr>s_in := [7]\<rparr>)"
proof -
  obtain a' where a: "write_frames [[1, 2, 3], [], [9]] idle_stream = (Inr (), a')"
    and r: "\<And>c r. s_in c = s_out a' @ r \<Longrightarrow> read_frames 3 c = (Inr [[1, 2, 3], [], [9]], c\<lparr>s_in := r\<rparr>)"
    using stream_frames_roundtrip [of idle_stream "[[1, 2, 3], [], [9]]"]
    by (auto simp: MAX_FRAME_LENGTH_def numeral_3_eq_3 simp del: write_frames.simps read_frames.simps)
  have "read_frames 3 (idle_stream\<lparr>s_in := s_out a' @ [7]\<rparr>) =
      (Inr [[1, 2, 3], [], [9]], idle_stream\<lparr>s_in := s_out a' @ [7]\<rparr>\<lparr>s_in := [7]\<rparr>)"
    by (rule r) simp
  with a show ?thesis by simp
qed

lemma four_or_more: "4 \<le> length xs \<Longrightarrow> \<exists>a b c d r. xs = a # b # c # d # r"
  by (auto simp: numeral_eq_Suc Suc_le_length_iff)

lemma io_read_eq:
  "io_read s =
     (let truncated = EIo (if s_end s = IUnexpectedEof then IInvalidData else s_end s);
          n = u32_from_be_bytes (take 4 (s_in s)) in
      if s_in s = [] then (Inl (EIo (s_end s)), s)
      else if length (s_in s) < 4 then (Inl truncated, s\<lparr>s_in := []\<rparr>)
      else if n > 1048576 then (Inl EFrameTooLarge, s\<lparr>s_in := drop 4 (s_in s)\<rparr>)
      else if length (s_in s) < 4 + n then (Inl truncated, s\<lparr>s_in := []\<rparr>)
      else (Inr (take n (drop 4 (s_in s))), s\<lparr>s_in := drop (4 + n) (s_in s)\<rparr>))"
proof (cases "length (s_in s) < 4")
  case True
  then show ?thesis
    by (cases "s_in s") (auto simp: io_read_def read_frame_remainder_def stream_read_exact_def Let_def)
next
  case False
  then obtain a b c d r where i: "s_in s = a # b # c # d # r"
    by (metis (no_types) linorder_not_less four_or_more)
  have dr: "drop (4 + n) (s_in s) = drop n r" for n
    by (simp add: i numeral_eq_Suc)
  show ?thesis
    unfolding Let_def dr
    by (simp add: i io_read_def read_frame_remainder_def stream_read_exact_def
        frame_size_def MAX_FRAME_LENGTH_def del: u32_from_be_bytes.simps)
qed

text \<open>
  Every outcome of reading a frame: a stream that ends between frames gives its own
  error, so a clean close is \<open>UnexpectedEof\<close>; one that ends inside the prefix or the body gives
  \<open>InvalidData\<close> instead of \<open>UnexpectedEof\<close>; a declared length above 1 MiB is refused before
  any body byte is read; otherwise the result is the declared number of bytes.
\<close>

theorem io_read_outcomes:
  "io_read s =
     (let truncated = EIo (if s_end s = IUnexpectedEof then IInvalidData else s_end s);
          n = u32_from_be_bytes (take 4 (s_in s)) in
      if s_in s = [] then (Inl (EIo (s_end s)), s)
      else if length (s_in s) < 4 then (Inl truncated, s\<lparr>s_in := []\<rparr>)
      else if n > 1048576 then (Inl EFrameTooLarge, s\<lparr>s_in := drop 4 (s_in s)\<rparr>)
      else if length (s_in s) < 4 + n then (Inl truncated, s\<lparr>s_in := []\<rparr>)
      else (Inr (take n (drop 4 (s_in s))), s\<lparr>s_in := drop (4 + n) (s_in s)\<rparr>))"
  by (rule io_read_eq)

text \<open>
  C31. The stream layer and the stand-alone codec of \<open>crates/core/wire\<close> are the same codec under the limit
  of 1 MiB, in both directions. A write to a working stream appends exactly the frame that \<open>encode\<close> produces and is
  refused exactly when \<open>encode\<close> refuses; on any stream, a write that succeeds has appended that frame. A
  read succeeds exactly when the input begins with a byte string that \<open>decode\<close> accepts, with its payload as
  the result and the rest of the input left; and it is refused as too large exactly when \<open>decode\<close> refuses
  the length in the prefix.
\<close>

theorem stream_matches_codec:
  "(s_healthy s \<longrightarrow> io_write bs s =
      (case framing_encode bs 1048576 of Inl e \<Rightarrow> (Inl EFrameTooLarge, s) | Inr f \<Rightarrow> (Inr (), s\<lparr>s_out := s_out s @ f\<rparr>))) \<and>
   (io_write bs s = (Inr (), s') \<longrightarrow>
      (\<exists>f. framing_encode bs 1048576 = Inr f \<and> s_out s' = s_out s @ f)) \<and>
   (io_read s = (Inr bs, s') \<longleftrightarrow>
      (\<exists>f. framing_decode f 1048576 = Inr bs \<and> s_in s = f @ s_in s' \<and> s' = s\<lparr>s_in := s_in s'\<rparr>)) \<and>
   (fst (io_read s) = Inl EFrameTooLarge \<longleftrightarrow>
      4 \<le> length (s_in s) \<and> framing_decode (take 4 (s_in s)) 1048576 = Inl LimitExceeded)"
proof (intro conjI impI)
  have e: "framing_encode bs 1048576 =
      (if length bs \<le> MAX_FRAME_LENGTH then Inr (frame_bytes bs) else Inl LimitExceeded)"
    by (simp add: framing_encode_def frame_bytes_def MAX_FRAME_LENGTH_def PREFIX_LENGTH_def u32_max_def u64_max_def)
  have d: "framing_decode f 1048576 = Inr bs \<longleftrightarrow> length bs \<le> MAX_FRAME_LENGTH \<and> f = frame_bytes bs" for f
    by (auto simp: framing_decode_Inr frame_bytes_def MAX_FRAME_LENGTH_def u32_max_def)
  show "io_write bs s = (case framing_encode bs 1048576 of
      Inl e \<Rightarrow> (Inl EFrameTooLarge, s) | Inr f \<Rightarrow> (Inr (), s\<lparr>s_out := s_out s @ f\<rparr>))" if "s_healthy s"
    using io_write_healthy [OF that] unfolding e by (simp add: io_write_def)
  show "\<exists>f. framing_encode bs 1048576 = Inr f \<and> s_out s' = s_out s @ f" if "io_write bs s = (Inr (), s')"
    using io_write_Inr [OF that] unfolding e by simp
  show "io_read s = (Inr bs, s') \<longleftrightarrow>
      (\<exists>f. framing_decode f 1048576 = Inr bs \<and> s_in s = f @ s_in s' \<and> s' = s\<lparr>s_in := s_in s'\<rparr>)"
    unfolding d using io_read_Inr [of s bs s'] io_read_frame [of s bs "s_in s'"] by auto
  show "fst (io_read s) = Inl EFrameTooLarge \<longleftrightarrow>
      4 \<le> length (s_in s) \<and> framing_decode (take 4 (s_in s)) 1048576 = Inl LimitExceeded"
    unfolding io_read_eq
    by (auto simp: Let_def framing_decode_def PREFIX_LENGTH_def simp del: u32_from_be_bytes.simps)
qed

theorem stream_matches_codec_witness:
  "\<exists>f s'. framing_encode [5, 6] 1048576 = Inr f \<and>
     io_write [5, 6] idle_stream = (Inr (), idle_stream\<lparr>s_out := f\<rparr>) \<and>
     io_read (idle_stream\<lparr>s_in := f @ [7]\<rparr>) = (Inr [5, 6], s') \<and> s_in s' = [7]"
proof -
  have e: "framing_encode [5, 6] 1048576 = Inr [0, 0, 0, 2, 5, 6]"
    by (simp add: framing_encode_def PREFIX_LENGTH_def u32_max_def u64_max_def u32_to_be_bytes_def)
  then have d: "framing_decode [0, 0, 0, 2, 5, 6] 1048576 = Inr [5, 6]" using framing.dec_enc by blast
  have "io_write [5, 6] idle_stream = (Inr (), idle_stream\<lparr>s_out := [0, 0, 0, 2, 5, 6]\<rparr>)"
    using stream_matches_codec [of idle_stream "[5, 6]" idle_stream] e by simp
  moreover have "io_read (idle_stream\<lparr>s_in := [0, 0, 0, 2, 5, 6] @ [7]\<rparr>) = (Inr [5, 6], idle_stream\<lparr>s_in := [7]\<rparr>)"
    using stream_matches_codec [of "idle_stream\<lparr>s_in := [0, 0, 0, 2, 5, 6] @ [7]\<rparr>" "[5, 6]" "idle_stream\<lparr>s_in := [7]\<rparr>"] d
    by (simp add: append_eq_conv_conj)
  ultimately show ?thesis using e by auto
qed

end
