(* ===== verification/Storage_Staging.thy ===== *)
theory Storage_Staging
  imports Conn_Stream
begin

text \<open>
  Inbound files on disk (\<open>crates/platform/storage/src\<close>: \<open>lib.rs\<close>, \<open>path.rs\<close>, \<open>quota.rs\<close>,
  \<open>staging.rs\<close>). A received file is written under a hidden unique name in the receive directory and
  published by a hard link, which never replaces an entry.

  The receive directory is a map from names to entries; a regular file is an inode with its
  bytes, and two names may share an inode. System calls may fail: the state carries the outcomes of the
  coming calls, and a call with no outcome left does what its documentation says.
\<close>

subsection \<open>The receive directory\<close>

datatype storage_error =
    SCollision | SInterrupted | SInvalidName | SInvalidSource | SIo io_kind | SMutation | SQuota | SSizeMismatch

text \<open>A symbolic link records whether its target exists.\<close>

datatype dir_entry = DFile nat | DDirectory | DLink bool

record disk =
  dk_names :: "rstring \<Rightarrow> dir_entry option"
  dk_data :: "nat \<Rightarrow> bytes option"
  dk_next :: nat
  dk_faults :: "io_kind option list"
  dk_writes :: "(io_kind + nat) list"
  dk_reserved :: "rstring list"
  dk_serial :: nat
  dk_pid :: nat

definition syscall :: "disk \<Rightarrow> io_kind option \<times> disk" where
  "syscall d = (case dk_faults d of [] \<Rightarrow> (None, d) | f # fs \<Rightarrow> (f, d\<lparr>dk_faults := fs\<rparr>))"

text \<open>\<open>Path::exists\<close> follows links and is false on an error.\<close>

definition path_exists :: "rstring \<Rightarrow> disk \<Rightarrow> bool \<times> disk" where
  "path_exists name d =
     (case syscall d of
        (Some _, d) \<Rightarrow> (False, d)
      | (None, d) \<Rightarrow>
          (case dk_names d name of
             None \<Rightarrow> False
           | Some (DLink target) \<Rightarrow> target
           | Some _ \<Rightarrow> True, d))"

text \<open>\<open>OpenOptions::create_new\<close>: exclusive creation, which also refuses a dangling link.\<close>

definition create_new :: "rstring \<Rightarrow> disk \<Rightarrow> (io_kind + nat) \<times> disk" where
  "create_new name d =
     (case syscall d of
        (Some e, d) \<Rightarrow> (Inl e, d)
      | (None, d) \<Rightarrow>
          if dk_names d name \<noteq> None then (Inl IAlreadyExists, d)
          else (Inr (dk_next d),
                d\<lparr>dk_names := (dk_names d)(name \<mapsto> DFile (dk_next d)),
                  dk_data := (dk_data d)(dk_next d \<mapsto> []), dk_next := Suc (dk_next d)\<rparr>))"

definition hard_link :: "rstring \<Rightarrow> rstring \<Rightarrow> disk \<Rightarrow> (io_kind + unit) \<times> disk" where
  "hard_link original link d =
     (case syscall d of
        (Some e, d) \<Rightarrow> (Inl e, d)
      | (None, d) \<Rightarrow>
          (case dk_names d original of
             None \<Rightarrow> (Inl INotFound, d)
           | Some DDirectory \<Rightarrow> (Inl IPermissionDenied, d)
           | Some entry \<Rightarrow>
               if dk_names d link \<noteq> None then (Inl IAlreadyExists, d)
               else (Inr (), d\<lparr>dk_names := (dk_names d)(link \<mapsto> entry)\<rparr>)))"

definition remove_file :: "rstring \<Rightarrow> disk \<Rightarrow> (io_kind + unit) \<times> disk" where
  "remove_file name d =
     (case syscall d of
        (Some e, d) \<Rightarrow> (Inl e, d)
      | (None, d) \<Rightarrow>
          (case dk_names d name of
             None \<Rightarrow> (Inl INotFound, d)
           | Some DDirectory \<Rightarrow> (Inl IOther, d)
           | Some _ \<Rightarrow> (Inr (), d\<lparr>dk_names := (dk_names d)(name := None)\<rparr>)))"

text \<open>\<open>File::write\<close> appends what the kernel accepts; \<open>write_all\<close> is its loop in the
  standard library. An interruption takes an outcome off the list, which ends the loop.\<close>

definition file_append :: "nat \<Rightarrow> bytes \<Rightarrow> disk \<Rightarrow> disk" where
  "file_append inode bs d = d\<lparr>dk_data := (dk_data d)(inode \<mapsto> the (dk_data d inode) @ bs)\<rparr>"

definition file_write :: "nat \<Rightarrow> bytes \<Rightarrow> disk \<Rightarrow> (io_kind + nat) \<times> disk" where
  "file_write inode bs d =
     (case dk_writes d of
        [] \<Rightarrow> (Inr (length bs), file_append inode bs d)
      | Inl e # ws \<Rightarrow> (Inl e, d\<lparr>dk_writes := ws\<rparr>)
      | Inr n # ws \<Rightarrow> (Inr (min n (length bs)), file_append inode (take n bs) (d\<lparr>dk_writes := ws\<rparr>)))"

lemma file_write_writes:
  "file_write i bs d = (r, d') \<Longrightarrow> dk_writes d' = tl (dk_writes d)"
  by (auto simp: file_write_def file_append_def split: list.splits sum.splits)

lemma file_write_count:
  "file_write i bs d = (Inr n, d') \<Longrightarrow> n \<le> length bs"
  by (auto simp: file_write_def split: list.splits sum.splits)

function file_write_all :: "nat \<Rightarrow> bytes \<Rightarrow> disk \<Rightarrow> (io_kind + unit) \<times> disk" where
  "file_write_all inode bs d =
     (if bs = [] then (Inr (), d)
      else case file_write inode bs d of
        (Inr 0, d1) \<Rightarrow> (Inl IWriteZero, d1)
      | (Inr (Suc n), d1) \<Rightarrow> file_write_all inode (drop (Suc n) bs) d1
      | (Inl e, d1) \<Rightarrow>
          (if e = IInterrupted \<and> length (dk_writes d1) < length (dk_writes d)
           then file_write_all inode bs d1 else (Inl e, d1)))"
  by pat_completeness auto
termination
  by (relation "measures [\<lambda>(i, bs, d). length bs, \<lambda>(i, bs, d). length (dk_writes d)]") auto

declare file_write_all.simps [simp del]

subsection \<open>Names\<close>

definition NAME_MAX :: nat where "NAME_MAX = 255"

definition is_ascii_control :: "byte \<Rightarrow> bool" where
  "is_ascii_control b \<longleftrightarrow> b < 32 \<or> b = 127"

datatype path_component = RootDir | CurDir | ParentDir | Normal rstring

text \<open>\<open>Path::components\<close> on Unix: empty parts vanish, and so does \<open>.\<close> except at the beginning.\<close>

fun split_slash :: "rstring \<Rightarrow> rstring \<Rightarrow> rstring list" where
  "split_slash part [] = [part]"
| "split_slash part (b # bs) = (if b = 47 then part # split_slash [] bs else split_slash (part @ [b]) bs)"

definition part_component :: "rstring \<Rightarrow> path_component list" where
  "part_component part =
     (if part = [] \<or> part = [46] then [] else if part = [46, 46] then [ParentDir] else [Normal part])"

definition path_components :: "rstring \<Rightarrow> path_component list" where
  "path_components path =
     (let parts = split_slash [] path
      in (if path \<noteq> [] \<and> hd path = 47 then [RootDir] else if hd parts = [46] then [CurDir] else []) @
         concat (map part_component parts))"

definition safe_file_name :: "rstring \<Rightarrow> storage_error + rstring" where
  "safe_file_name name =
     (if name = [] \<or> length name > NAME_MAX then Inl SInvalidName
      else if name = [46] \<or> name = [46, 46] \<or> take 12 name = ascii ''.quickshare-'' then Inl SInvalidName
      else if list_ex (\<lambda>b. b = 47 \<or> b = 92 \<or> is_ascii_control b) name then Inl SInvalidName
      else case path_components name of
        [Normal component] \<Rightarrow> (if component = name then Inr name else Inl SInvalidName)
      | _ \<Rightarrow> Inl SInvalidName)"

subsection \<open>Free space\<close>

definition available_from_stat :: "nat \<Rightarrow> nat \<Rightarrow> nat" where
  "available_from_stat blocks fragment_size =
     (if blocks * fragment_size \<le> u64_max then blocks * fragment_size else u64_max)"

text \<open>\<open>statvfs\<close> is its outcome: an error, or the free blocks and the fragment size.\<close>

definition available_bytes :: "io_kind + nat \<times> nat \<Rightarrow> storage_error + nat" where
  "available_bytes statvfs =
     (case statvfs of Inl e \<Rightarrow> Inl (SIo e) | Inr (bavail, frsize) \<Rightarrow> Inr (available_from_stat bavail frsize))"

definition quota_preflight :: "io_kind + nat \<times> nat \<Rightarrow> nat \<Rightarrow> storage_error + unit" where
  "quota_preflight statvfs bs =
     (if bs = 0 then Inr ()
      else case available_bytes statvfs of
        Inl e \<Rightarrow> Inl e
      | Inr n \<Rightarrow> if n < bs then Inl SQuota else Inr ())"

text \<open>\<open>ReceiveTarget::preflight\<close> only adds tracing: every error is passed on.\<close>

definition target_preflight :: "io_kind + nat \<times> nat \<Rightarrow> nat \<Rightarrow> storage_error + unit" where
  "target_preflight statvfs bs =
     (case quota_preflight statvfs bs of
        Inr u \<Rightarrow> Inr u
      | Inl SQuota \<Rightarrow> Inl SQuota
      | Inl (SIo e) \<Rightarrow> Inl (SIo e)
      | Inl e \<Rightarrow> Inl e)"

text \<open>
  \<open>ReceiveTarget::downloads\<close> and \<open>open\<close>: the environment variables, and the outcomes of creating,
  resolving and inspecting the directory.
\<close>

definition path_join :: "rstring \<Rightarrow> rstring \<Rightarrow> rstring" where
  "path_join base part =
     (if part \<noteq> [] \<and> hd part = 47 then part
      else if base = [] \<or> last base = 47 then base @ part else base @ [47] @ part)"

definition target_open :: "io_kind option \<Rightarrow> io_kind + rstring \<Rightarrow> io_kind + bool \<Rightarrow> storage_error + rstring" where
  "target_open create canonical is_dir =
     (case create of
        Some e \<Rightarrow> Inl (SIo e)
      | None \<Rightarrow>
          (case canonical of
             Inl e \<Rightarrow> Inl (SIo e)
           | Inr resolved \<Rightarrow>
               (case is_dir of
                  Inl e \<Rightarrow> Inl (SIo e)
                | Inr b \<Rightarrow> if b then Inr resolved else Inl SInvalidSource)))"

definition downloads_directory :: "rstring option \<Rightarrow> rstring option \<Rightarrow> storage_error + rstring" where
  "downloads_directory xdg_download_dir home =
     (case (case xdg_download_dir of
              Some d \<Rightarrow> Some d
            | None \<Rightarrow> map_option (\<lambda>h. path_join h (ascii ''Downloads'')) home) of
        None \<Rightarrow> Inl SInvalidSource
      | Some d \<Rightarrow> Inr (path_join d (ascii ''omarchy-quickshare'')))"

subsection \<open>Staged files\<close>

record staged_file =
  sf_committed :: bool
  sf_declared_size :: nat
  sf_destination :: rstring
  sf_inode :: nat
  sf_name :: rstring
  sf_staging :: rstring
  sf_written :: nat

definition STAGING_ATTEMPTS :: nat where "STAGING_ATTEMPTS = 64"

definition unreserve :: "rstring \<Rightarrow> disk \<Rightarrow> disk" where
  "unreserve name d = d\<lparr>dk_reserved := removeAll name (dk_reserved d)\<rparr>"

definition reserve :: "rstring \<Rightarrow> disk \<Rightarrow> (storage_error + unit) \<times> disk" where
  "reserve name d =
     (case path_exists name d of
        (True, d) \<Rightarrow> (Inl SCollision, d)
      | (False, d) \<Rightarrow>
          if name \<in> set (dk_reserved d) then (Inl SCollision, d)
          else (Inr (), d\<lparr>dk_reserved := name # dk_reserved d\<rparr>))"

definition staging_name :: "nat \<Rightarrow> nat \<Rightarrow> rstring" where
  "staging_name pid serial = ascii ''.quickshare-'' @ decimal pid @ [45] @ decimal serial @ ascii ''.part''"

text \<open>The serial number is an atomic counter that wraps.\<close>

fun create_attempts :: "nat \<Rightarrow> disk \<Rightarrow> (storage_error + nat \<times> rstring) \<times> disk" where
  "create_attempts 0 d = (Inl (SIo IAlreadyExists), d)"
| "create_attempts (Suc n) d =
     (let staging = staging_name (dk_pid d) (dk_serial d);
          d = d\<lparr>dk_serial := Suc (dk_serial d) mod (u64_max + 1)\<rparr>
      in case create_new staging d of
           (Inr inode, d) \<Rightarrow> (Inr (inode, staging), d)
         | (Inl e, d) \<Rightarrow> (if e = IAlreadyExists then create_attempts n d else (Inl (SIo e), d)))"

definition create_staging_file :: "disk \<Rightarrow> (storage_error + nat \<times> rstring) \<times> disk" where
  "create_staging_file d = create_attempts STAGING_ATTEMPTS d"

definition stage :: "rstring \<Rightarrow> nat \<Rightarrow> disk \<Rightarrow> (storage_error + staged_file) \<times> disk" where
  "stage name declared_size d =
     (case safe_file_name name of
        Inl e \<Rightarrow> (Inl e, d)
      | Inr safe \<Rightarrow>
          (case reserve safe d of
             (Inl e, d) \<Rightarrow> (Inl e, d)
           | (Inr _, d) \<Rightarrow>
               (case create_staging_file d of
                  (Inl e, d) \<Rightarrow> (Inl e, unreserve safe d)
                | (Inr (inode, staging), d) \<Rightarrow>
                    (Inr \<lparr>sf_committed = False, sf_declared_size = declared_size, sf_destination = safe,
                       sf_inode = inode, sf_name = safe, sf_staging = staging, sf_written = 0\<rparr>, d))))"

definition add_written :: "nat \<Rightarrow> nat \<Rightarrow> io_kind + nat" where
  "add_written written additional =
     (case checked_add_u64 written additional of None \<Rightarrow> Inl IInvalidData | Some n \<Rightarrow> Inr n)"

definition reject_overflow :: "nat \<Rightarrow> nat \<Rightarrow> nat \<Rightarrow> io_kind + unit" where
  "reject_overflow written declared_size additional =
     (case add_written written additional of
        Inl e \<Rightarrow> Inl e
      | Inr amount \<Rightarrow> if amount > declared_size then Inl IInvalidData else Inr ())"

definition counted :: "nat \<Rightarrow> staged_file \<Rightarrow> disk \<Rightarrow> (io_kind + nat) \<times> staged_file \<times> disk" where
  "counted wrote s d =
     (case add_written (sf_written s) wrote of
        Inl e \<Rightarrow> (Inl e, s, d)
      | Inr n \<Rightarrow> (Inr wrote, s\<lparr>sf_written := n\<rparr>, d))"

definition staged_write :: "bytes \<Rightarrow> staged_file \<Rightarrow> disk \<Rightarrow> (io_kind + nat) \<times> staged_file \<times> disk" where
  "staged_write buf s d =
     (case reject_overflow (sf_written s) (sf_declared_size s) (length buf) of
        Inl e \<Rightarrow> (Inl e, s, d)
      | Inr _ \<Rightarrow>
          (case file_write (sf_inode s) buf d of
             (Inl e, d) \<Rightarrow> (Inl e, s, d)
           | (Inr wrote, d) \<Rightarrow> counted wrote s d))"

definition staged_write_all :: "bytes \<Rightarrow> staged_file \<Rightarrow> disk \<Rightarrow> (io_kind + unit) \<times> staged_file \<times> disk" where
  "staged_write_all buf s d =
     (case reject_overflow (sf_written s) (sf_declared_size s) (length buf) of
        Inl e \<Rightarrow> (Inl e, s, d)
      | Inr _ \<Rightarrow>
          (case file_write_all (sf_inode s) buf d of
             (Inl e, d) \<Rightarrow> (Inl e, s, d)
           | (Inr _, d) \<Rightarrow> (case counted (length buf) s d of (r, s, d) \<Rightarrow> (map_sum id (\<lambda>_. ()) r, s, d))))"

text \<open>\<open>write_vectored\<close> hands the buffers to one system call.\<close>

definition staged_write_vectored :: "bytes list \<Rightarrow> staged_file \<Rightarrow> disk \<Rightarrow> (io_kind + nat) \<times> staged_file \<times> disk" where
  "staged_write_vectored bufs s d =
     (if sum_list (map length bufs) > u64_max then (Inl IInvalidData, s, d)
      else case reject_overflow (sf_written s) (sf_declared_size s) (sum_list (map length bufs)) of
        Inl e \<Rightarrow> (Inl e, s, d)
      | Inr _ \<Rightarrow>
          (case file_write (sf_inode s) (concat bufs) d of
             (Inl e, d) \<Rightarrow> (Inl e, s, d)
           | (Inr wrote, d) \<Rightarrow> counted wrote s d))"

text \<open>\<open>Drop\<close>: the staging entry is removed unless it was published, and the name is free again.\<close>

definition staged_drop :: "staged_file \<Rightarrow> disk \<Rightarrow> disk" where
  "staged_drop s d =
     unreserve (sf_name s) (if sf_committed s then d else snd (remove_file (sf_staging s) d))"

text \<open>\<open>commit\<close> consumes the file, so \<open>Drop\<close> runs on every path out of it.\<close>

definition staged_commit :: "staged_file \<Rightarrow> disk \<Rightarrow> (storage_error + rstring) \<times> disk" where
  "staged_commit s d =
     (case syscall d of
        (Some e, d) \<Rightarrow> (Inl (SIo e), staged_drop s d)
      | (None, d) \<Rightarrow>
          if sf_written s < sf_declared_size s then (Inl SInterrupted, staged_drop s d)
          else if sf_written s \<noteq> sf_declared_size s then (Inl SSizeMismatch, staged_drop s d)
          else (case hard_link (sf_staging s) (sf_destination s) d of
            (Inl e, d) \<Rightarrow> (Inl (if e = IAlreadyExists then SCollision else SIo e), staged_drop s d)
          | (Inr _, d) \<Rightarrow>
              let s = s\<lparr>sf_committed := True\<rparr>
              in case remove_file (sf_staging s) d of
                   (Inl e, d) \<Rightarrow> (Inl (SIo e), staged_drop s d)
                 | (Inr _, d) \<Rightarrow> (Inr (sf_destination s), staged_drop s d)))"

subsection \<open>Accepted names\<close>

lemma split_slash_no_slash: "47 \<notin> set bs \<Longrightarrow> split_slash part bs = [part @ bs]"
  by (induction part bs rule: split_slash.induct) auto

lemma path_components_plain:
  "47 \<notin> set name \<Longrightarrow> name \<noteq> [] \<Longrightarrow> name \<noteq> [46] \<Longrightarrow> name \<noteq> [46, 46] \<Longrightarrow> path_components name = [Normal name]"
  by (cases name) (auto simp: path_components_def split_slash_no_slash part_component_def Let_def)

lemma safe_file_name_Inr:
  "safe_file_name name = Inr n \<longleftrightarrow>
     n = name \<and> name \<noteq> [] \<and> length name \<le> 255 \<and> name \<noteq> [46] \<and> name \<noteq> [46, 46] \<and>
     take 12 name \<noteq> ascii ''.quickshare-'' \<and> list_all (\<lambda>b. b \<noteq> 47 \<and> b \<noteq> 92 \<and> \<not> is_ascii_control b) name"
proof (cases "list_ex (\<lambda>b. b = 47 \<or> b = 92 \<or> is_ascii_control b) name")
  case True
  then show ?thesis by (auto simp: safe_file_name_def list_ex_iff list_all_iff)
next
  case False
  then have "47 \<notin> set name" by (auto simp: list_ex_iff)
  then show ?thesis
    using False path_components_plain [of name]
    by (auto simp: safe_file_name_def NAME_MAX_def list_ex_iff list_all_iff)
qed

lemma staging_name_prefix: "take 12 (staging_name pid serial) = ascii ''.quickshare-''"
  by (simp add: staging_name_def ascii_def)

definition is_staging_name :: "rstring \<Rightarrow> bool" where
  "is_staging_name name \<longleftrightarrow> (\<exists>pid serial. name = staging_name pid serial)"

lemma is_staging_nameI [simp]: "is_staging_name (staging_name pid serial)"
  unfolding is_staging_name_def by blast

lemma safe_not_staging: "safe_file_name name = Inr n \<Longrightarrow> \<not> is_staging_name n"
  by (auto simp: safe_file_name_Inr staging_name_prefix is_staging_name_def)

subsection \<open>What each call does to the directory\<close>

lemma syscall_same:
  assumes "syscall d = (f, d')"
  shows "dk_names d' = dk_names d \<and> dk_data d' = dk_data d \<and> dk_next d' = dk_next d \<and>
    dk_reserved d' = dk_reserved d \<and> dk_writes d' = dk_writes d"
  using assms by (auto simp: syscall_def split: list.splits)

lemma syscall_cases:
  obtains f d' where "syscall d = (f, d')" "dk_names d' = dk_names d" "dk_data d' = dk_data d"
    "dk_next d' = dk_next d" "dk_reserved d' = dk_reserved d"
  using syscall_same by (metis surj_pair)

lemma create_new_Inr:
  assumes "create_new name d = (Inr i, d')"
  shows "i = dk_next d \<and> dk_names d name = None \<and> dk_names d' = (dk_names d)(name \<mapsto> DFile i) \<and>
    dk_data d' = (dk_data d)(i \<mapsto> []) \<and> dk_next d' = Suc i \<and> dk_reserved d' = dk_reserved d"
  using assms by (cases "syscall d") (auto simp: create_new_def dest!: syscall_same split: option.splits if_splits)

lemma create_new_Inl:
  "create_new name d = (Inl e, d') \<Longrightarrow>
     dk_names d' = dk_names d \<and> dk_data d' = dk_data d \<and> dk_next d' = dk_next d \<and> dk_reserved d' = dk_reserved d"
  by (cases "syscall d") (auto simp: create_new_def dest!: syscall_same split: option.splits if_splits)

text \<open>Two states with the same directory, contents and reservations.\<close>

definition same_disk :: "disk \<Rightarrow> disk \<Rightarrow> bool" where
  "same_disk d d' \<longleftrightarrow> dk_names d' = dk_names d \<and> dk_data d' = dk_data d \<and> dk_next d' = dk_next d \<and>
     dk_reserved d' = dk_reserved d"

lemma same_disk_refl [simp]: "same_disk d d"
  by (simp add: same_disk_def)

lemma same_disk_trans: "same_disk a b \<Longrightarrow> same_disk b c \<Longrightarrow> same_disk a c"
  by (simp add: same_disk_def)

lemma syscall_same_disk: "syscall d = (f, d') \<Longrightarrow> same_disk d d'"
  using syscall_same by (auto simp: same_disk_def)

lemma path_exists_same: "path_exists n d = (b, d') \<Longrightarrow> same_disk d d'"
  by (auto simp: path_exists_def split: prod.splits option.splits dest!: syscall_same_disk)

text \<open>What a successful exclusive creation does.\<close>

definition created :: "rstring \<Rightarrow> nat \<Rightarrow> disk \<Rightarrow> disk \<Rightarrow> bool" where
  "created name i d d' \<longleftrightarrow> i = dk_next d \<and> dk_names d name = None \<and>
     dk_names d' = (dk_names d)(name \<mapsto> DFile i) \<and> dk_data d' = (dk_data d)(i \<mapsto> []) \<and>
     dk_next d' = Suc i \<and> dk_reserved d' = dk_reserved d"

lemma create_attempts_effect:
  "create_attempts n d = (r, d') \<Longrightarrow>
     (case r of
        Inl e \<Rightarrow> same_disk d d'
      | Inr (i, staging) \<Rightarrow> created staging i d d' \<and> is_staging_name staging)"
proof (induction n arbitrary: d)
  case (Suc n)
  let ?staging = "staging_name (dk_pid d) (dk_serial d)"
  let ?d = "d\<lparr>dk_serial := Suc (dk_serial d) mod (u64_max + 1)\<rparr>"
  obtain r1 d1 where c: "create_new ?staging ?d = (r1, d1)" by fastforce
  show ?case
  proof (cases r1)
    case (Inl e)
    then have same: "same_disk d d1" using create_new_Inl [of ?staging ?d e d1] c by (simp add: same_disk_def)
    show ?thesis
    proof (cases "e = IAlreadyExists")
      case True
      then have "create_attempts n d1 = (r, d')" using Suc.prems c Inl by (simp add: Let_def)
      from Suc.IH [OF this] show ?thesis
        using same by (auto simp: same_disk_def created_def split: sum.splits)
    next
      case False
      then show ?thesis using Suc.prems c Inl same by (auto simp: Let_def)
    qed
  next
    case (Inr i)
    then show ?thesis
      using Suc.prems c create_new_Inr [of ?staging ?d i d1] by (auto simp: Let_def created_def)
  qed
qed (auto split: sum.splits)

lemma reserve_effect:
  assumes "reserve name d = (r, d')"
  shows "dk_names d' = dk_names d \<and> dk_data d' = dk_data d \<and> dk_next d' = dk_next d \<and>
    (case r of
       Inl e \<Rightarrow> e = SCollision \<and> dk_reserved d' = dk_reserved d
     | Inr _ \<Rightarrow> name \<notin> set (dk_reserved d) \<and> dk_reserved d' = name # dk_reserved d)"
  using assms
  by (auto simp: reserve_def same_disk_def split: prod.splits bool.splits if_splits dest!: path_exists_same)

lemma stage_effect:
  assumes "stage name len d = (r, d')"
  shows "case r of
      Inl e \<Rightarrow> dk_names d' = dk_names d \<and> dk_data d' = dk_data d \<and> dk_next d' = dk_next d \<and>
        set (dk_reserved d') = set (dk_reserved d)
    | Inr s \<Rightarrow> \<not> sf_committed s \<and> sf_declared_size s = len \<and> sf_destination s = name \<and>
        sf_inode s = dk_next d \<and> sf_name s = name \<and> sf_written s = 0 \<and>
        created (sf_staging s) (dk_next d) (d\<lparr>dk_reserved := name # dk_reserved d\<rparr>) d' \<and>
        name \<notin> set (dk_reserved d) \<and> safe_file_name name = Inr name \<and>
        is_staging_name (sf_staging s)"
proof (cases "safe_file_name name")
  case (Inl e)
  then show ?thesis using assms by (auto simp: stage_def)
next
  case (Inr safe)
  then have safe: "safe = name" by (simp add: safe_file_name_Inr)
  obtain r1 d1 where r1: "reserve name d = (r1, d1)" by fastforce
  note effect = reserve_effect [OF r1]
  show ?thesis
  proof (cases r1)
    case (Inl e)
    then show ?thesis using assms r1 \<open>safe_file_name name = Inr safe\<close> safe effect by (auto simp: stage_def)
  next
    case (Inr u)
    obtain r2 d2 where r2: "create_staging_file d1 = (r2, d2)" by fastforce
    note made = create_attempts_effect [OF r2 [unfolded create_staging_file_def]]
    show ?thesis
      using assms r1 r2 effect made \<open>safe_file_name name = Inr safe\<close> safe Inr
      by (auto simp: stage_def unreserve_def same_disk_def created_def split: sum.splits)
  qed
qed

text \<open>Writing touches only the bytes of the staged inode, and only appends.\<close>

definition appended :: "nat \<Rightarrow> bytes \<Rightarrow> disk \<Rightarrow> disk \<Rightarrow> bool" where
  "appended i bs d d' \<longleftrightarrow> dk_names d' = dk_names d \<and> dk_next d' = dk_next d \<and> dk_reserved d' = dk_reserved d \<and>
     dk_data d' = (dk_data d)(i \<mapsto> the (dk_data d i) @ bs)"

lemma file_write_effect:
  assumes "file_write i bs d = (r, d')" "dk_data d i = Some old"
  shows "case r of Inl e \<Rightarrow> appended i [] d d' | Inr n \<Rightarrow> n \<le> length bs \<and> appended i (take n bs) d d'"
  using assms
  by (auto simp: file_write_def file_append_def appended_def map_upd_triv min_def split: list.splits sum.splits)

lemma appended_trans:
  "appended i xs a b \<Longrightarrow> appended i ys b c \<Longrightarrow> appended i (xs @ ys) a c"
  by (simp add: appended_def)

lemma appended_data: "appended i bs d d' \<Longrightarrow> \<exists>new. dk_data d' i = Some new"
  by (simp add: appended_def)

lemma file_write_all_effect:
  assumes "file_write_all i bs d = (r, d')" "dk_data d i = Some old"
  shows "\<exists>k. appended i (take k bs) d d' \<and> (\<forall>u. r = Inr u \<longrightarrow> take k bs = bs)"
  using assms
proof (induction i bs d arbitrary: old rule: file_write_all.induct)
  case (1 i bs d)
  show ?case
  proof (cases "bs = []")
    case True
    then show ?thesis
      using "1.prems" by (subst (asm) file_write_all.simps) (auto simp: appended_def map_upd_triv)
  next
    case False
    obtain o1 d1 where w: "file_write i bs d = (o1, d1)" by fastforce
    note effect = file_write_effect [OF w "1.prems"(2)]
    consider e where "o1 = Inl e" | "o1 = Inr 0" | n where "o1 = Inr (Suc n)"
      by (metis not0_implies_Suc sum.exhaust)
    then show ?thesis
    proof cases
      case (1 e)
      then have ap: "appended i [] d d1" using effect by simp
      show ?thesis
      proof (cases "e = IInterrupted \<and> length (dk_writes d1) < length (dk_writes d)")
        case True
        then have "file_write_all i bs d1 = (r, d')"
          using "1.prems"(1) w 1 False by (subst (asm) file_write_all.simps) simp
        then obtain k where "appended i (take k bs) d1 d'" "\<forall>u. r = Inr u \<longrightarrow> take k bs = bs"
          using "1.IH"(1) [OF False w [symmetric] 1 True] appended_data [OF ap] by blast
        then show ?thesis using appended_trans [OF ap] by auto
      next
        case no: False
        then have "r = Inl e" "d' = d1"
          using "1.prems"(1) w 1 False by (subst (asm) file_write_all.simps, auto split: if_splits)+
        then show ?thesis using ap by (intro exI [of _ 0]) simp
      qed
    next
      case 2
      then have "r = Inl IWriteZero" "d' = d1"
        using "1.prems"(1) w False by (subst (asm) file_write_all.simps, simp)+
      then show ?thesis using effect 2 by (intro exI [of _ 0]) simp
    next
      case (3 n)
      then have ap: "appended i (take (Suc n) bs) d d1" using effect by simp
      have "file_write_all i (drop (Suc n) bs) d1 = (r, d')"
        using "1.prems"(1) w 3 False by (subst (asm) file_write_all.simps) simp
      then obtain k where k: "appended i (take k (drop (Suc n) bs)) d1 d'"
        "\<forall>u. r = Inr u \<longrightarrow> take k (drop (Suc n) bs) = drop (Suc n) bs"
        using "1.IH"(2) [OF False w [symmetric] 3 refl] appended_data [OF ap] by blast
      have "take (Suc n) bs @ take k (drop (Suc n) bs) = take (Suc n + k) bs" by (simp only: take_add)
      moreover from this have "\<forall>u. r = Inr u \<longrightarrow> take (Suc n + k) bs = bs"
        using k(2) by (metis append_take_drop_id)
      ultimately show ?thesis using appended_trans [OF ap k(1)] by metis
    qed
  qed
qed

lemma remove_file_effect:
  assumes "remove_file name d = (r, d')"
  shows "dk_data d' = dk_data d \<and> dk_next d' = dk_next d \<and> dk_reserved d' = dk_reserved d \<and>
    (case r of
       Inl e \<Rightarrow> dk_names d' = dk_names d
     | Inr _ \<Rightarrow> dk_names d' = (dk_names d)(name := None))"
  using assms
  by (auto simp: remove_file_def same_disk_def split: prod.splits option.splits dir_entry.splits
      dest!: syscall_same_disk)

lemma hard_link_effect:
  assumes "hard_link original link d = (r, d')"
  shows "dk_data d' = dk_data d \<and> dk_next d' = dk_next d \<and> dk_reserved d' = dk_reserved d \<and>
    (case r of
       Inl e \<Rightarrow> dk_names d' = dk_names d
     | Inr _ \<Rightarrow> dk_names d link = None \<and> dk_names d original \<noteq> None \<and>
         dk_names d' = (dk_names d)(link := dk_names d original))"
  using assms
  by (auto simp: hard_link_def same_disk_def split: prod.splits option.splits dir_entry.splits if_splits
      dest!: syscall_same_disk)

lemma staged_drop_effect:
  "dk_data (staged_drop s d) = dk_data d \<and> dk_next (staged_drop s d) = dk_next d \<and>
   dk_reserved (staged_drop s d) = removeAll (sf_name s) (dk_reserved d) \<and>
   (dk_names (staged_drop s d) = dk_names d \<or>
    \<not> sf_committed s \<and> dk_names (staged_drop s d) = (dk_names d)(sf_staging s := None))"
  using remove_file_effect [of "sf_staging s" d "fst (remove_file (sf_staging s) d)" "snd (remove_file (sf_staging s) d)"]
  by (auto simp: staged_drop_def unreserve_def split: sum.splits)

text \<open>
  The outcomes of \<open>commit\<close>: published under a name that was free, with the staging entry gone or,
  when only its removal failed, still there; or not published at all.
\<close>

lemma staged_commit_effect:
  assumes "staged_commit s d = (r, d')" "\<not> sf_committed s"
  shows "dk_data d' = dk_data d \<and> dk_next d' = dk_next d \<and> dk_reserved d' = removeAll (sf_name s) (dk_reserved d) \<and>
    ((\<exists>e. r = Inl e) \<and> (dk_names d' = dk_names d \<or> dk_names d' = (dk_names d)(sf_staging s := None)) \<or>
     sf_written s = sf_declared_size s \<and> dk_names d (sf_destination s) = None \<and> dk_names d (sf_staging s) \<noteq> None \<and>
     ((\<exists>e. r = Inl e) \<and> dk_names d' = (dk_names d)(sf_destination s := dk_names d (sf_staging s)) \<or>
      r = Inr (sf_destination s) \<and>
      dk_names d' = (dk_names d)(sf_destination s := dk_names d (sf_staging s), sf_staging s := None)))"
proof -
  obtain f d1 where sys: "syscall d = (f, d1)" by fastforce
  note same = syscall_same_disk [OF sys]
  note drop1 = staged_drop_effect [of s d1]
  show ?thesis
  proof (cases "f = None \<and> sf_written s = sf_declared_size s")
    case False
    then show ?thesis
      using assms(1) sys same drop1 by (auto simp: staged_commit_def same_disk_def split: option.splits if_splits)
  next
    case True
    obtain r2 d2 where link: "hard_link (sf_staging s) (sf_destination s) d1 = (r2, d2)" by fastforce
    note linked = hard_link_effect [OF link]
    show ?thesis
    proof (cases r2)
      case (Inl e)
      then show ?thesis
        using assms(1) sys same link linked True staged_drop_effect [of s d2]
        by (auto simp: staged_commit_def same_disk_def)
    next
      case (Inr u)
      let ?s = "s\<lparr>sf_committed := True\<rparr>"
      obtain r3 d3 where rm: "remove_file (sf_staging s) d2 = (r3, d3)" by fastforce
      note removed = remove_file_effect [OF rm]
      have commit: "staged_commit s d = (case r3 of Inl e \<Rightarrow> Inl (SIo e) | Inr _ \<Rightarrow> Inr (sf_destination s), staged_drop ?s d3)"
        using sys link rm True Inr by (simp add: staged_commit_def Let_def split: sum.splits)
      have "dk_names (staged_drop ?s d3) = dk_names d3" using staged_drop_effect [of ?s d3] by simp
      then show ?thesis
        using assms(1) commit same linked removed Inr True staged_drop_effect [of ?s d3]
        by (auto simp: same_disk_def split: sum.splits)
    qed
  qed
qed

end
