(* ===== verification/Storage_Publication.thy ===== *)
theory Storage_Publication
  imports Storage_Staging
begin

text \<open>
  What staging and publication guarantee: a published file is complete, and nothing that was in the
  receive directory is ever replaced, whichever files are in flight and whatever other processes put
  there.
\<close>

subsection \<open>Files in flight\<close>

datatype foreign = FDirectory | FLink bool | FFile bytes

datatype store_op =
    OStage rstring nat | OWrite nat bytes | OWriteAll nat bytes | OWriteVectored nat "bytes list"
  | OCommit nat | ODrop nat | OForeign rstring foreign

type_synonym store = "disk \<times> staged_file list"

text \<open>Another process creates an entry under a free name.\<close>

definition foreign_create :: "rstring \<Rightarrow> foreign \<Rightarrow> disk \<Rightarrow> disk" where
  "foreign_create name f d =
     (if dk_names d name \<noteq> None then d
      else case f of
        FDirectory \<Rightarrow> d\<lparr>dk_names := (dk_names d)(name \<mapsto> DDirectory)\<rparr>
      | FLink b \<Rightarrow> d\<lparr>dk_names := (dk_names d)(name \<mapsto> DLink b)\<rparr>
      | FFile bs \<Rightarrow> d\<lparr>dk_names := (dk_names d)(name \<mapsto> DFile (dk_next d)),
            dk_data := (dk_data d)(dk_next d \<mapsto> bs), dk_next := Suc (dk_next d)\<rparr>)"

definition drop_at :: "nat \<Rightarrow> 'a list \<Rightarrow> 'a list" where
  "drop_at k xs = take k xs @ drop (Suc k) xs"

text \<open>The owner of the files in flight calls one of their methods; \<open>k\<close> is a file in flight.\<close>

fun store_step :: "store_op \<Rightarrow> store \<Rightarrow> store" where
  "store_step (OStage name len) (d, ss) =
     (case stage name len d of (Inl _, d) \<Rightarrow> (d, ss) | (Inr s, d) \<Rightarrow> (d, ss @ [s]))"
| "store_step (OWrite k buf) (d, ss) =
     (if k < length ss then case staged_write buf (ss ! k) d of (_, s, d) \<Rightarrow> (d, ss[k := s]) else (d, ss))"
| "store_step (OWriteAll k buf) (d, ss) =
     (if k < length ss then case staged_write_all buf (ss ! k) d of (_, s, d) \<Rightarrow> (d, ss[k := s]) else (d, ss))"
| "store_step (OWriteVectored k bufs) (d, ss) =
     (if k < length ss then case staged_write_vectored bufs (ss ! k) d of (_, s, d) \<Rightarrow> (d, ss[k := s]) else (d, ss))"
| "store_step (OCommit k) (d, ss) =
     (if k < length ss then case staged_commit (ss ! k) d of (_, d) \<Rightarrow> (d, drop_at k ss) else (d, ss))"
| "store_step (ODrop k) (d, ss) =
     (if k < length ss then (staged_drop (ss ! k) d, drop_at k ss) else (d, ss))"
| "store_step (OForeign name f) (d, ss) = (foreign_create name f d, ss)"

subsection \<open>The invariant\<close>

text \<open>The only name an inode has.\<close>

definition sole_name :: "disk \<Rightarrow> nat \<Rightarrow> rstring \<Rightarrow> bool" where
  "sole_name d i name \<longleftrightarrow> (\<forall>n. dk_names d n = Some (DFile i) \<longleftrightarrow> n = name)"

definition flight_ok :: "disk \<Rightarrow> staged_file \<Rightarrow> bool" where
  "flight_ok d s \<longleftrightarrow> \<not> sf_committed s \<and> sf_written s \<le> sf_declared_size s \<and> sf_destination s = sf_name s \<and>
     \<not> is_staging_name (sf_name s) \<and> is_staging_name (sf_staging s) \<and>
     sole_name d (sf_inode s) (sf_staging s)"

lemma sole_nameD: "sole_name d i name \<Longrightarrow> dk_names d n = Some (DFile i) \<longleftrightarrow> n = name"
  by (simp add: sole_name_def)

definition disk_ok :: "disk \<Rightarrow> bool" where
  "disk_ok d \<longleftrightarrow> (\<forall>n i. dk_names d n = Some (DFile i) \<longrightarrow> i < dk_next d \<and> dk_data d i \<noteq> None)"

definition store_inv :: "store \<Rightarrow> bool" where
  "store_inv st \<longleftrightarrow> (case st of (d, ss) \<Rightarrow>
     disk_ok d \<and> (\<forall>s \<in> set ss. flight_ok d s) \<and> distinct (map sf_staging ss) \<and> distinct (map sf_name ss) \<and>
     set (dk_reserved d) = set (map sf_name ss))"

text \<open>The names and contents that files in flight do not own survive a change of the disk.\<close>

definition keeps :: "rstring set \<Rightarrow> nat set \<Rightarrow> disk \<Rightarrow> disk \<Rightarrow> bool" where
  "keeps own inodes d d' \<longleftrightarrow>
     (\<forall>n e. dk_names d n = Some e \<and> n \<notin> own \<longrightarrow> dk_names d' n = Some e) \<and>
     (\<forall>i bs. i < dk_next d \<and> dk_data d i = Some bs \<and> i \<notin> inodes \<longrightarrow> dk_data d' i = Some bs)"

lemma keeps_mono: "keeps own inodes d d' \<Longrightarrow> own \<subseteq> own' \<Longrightarrow> inodes \<subseteq> inodes' \<Longrightarrow> keeps own' inodes' d d'"
  unfolding keeps_def by blast

subsection \<open>Writing\<close>

lemma reject_overflow_Inr:
  "reject_overflow written declared n = Inr u \<longleftrightarrow> written + n \<le> declared \<and> written + n \<le> u64_max"
  by (auto simp: reject_overflow_def add_written_def checked_add_u64_def)

lemma counted_in_range:
  "sf_written s + n \<le> u64_max \<Longrightarrow> counted n s d = (Inr n, s\<lparr>sf_written := sf_written s + n\<rparr>, d)"
  by (simp add: counted_def add_written_def checked_add_u64_def)

text \<open>One write call: the file grows, and its count grows by no more than was appended.\<close>

definition file_grows :: "staged_file \<Rightarrow> disk \<Rightarrow> staged_file \<Rightarrow> disk \<Rightarrow> bool" where
  "file_grows s d s' d' \<longleftrightarrow> (\<exists>bs n. appended (sf_inode s) bs d d' \<and> s' = s\<lparr>sf_written := sf_written s + n\<rparr> \<and>
     n \<le> length bs \<and> (sf_written s \<le> sf_declared_size s \<longrightarrow> sf_written s + n \<le> sf_declared_size s))"

lemma file_growsI:
  "appended (sf_inode s) bs d d' \<Longrightarrow> n \<le> length bs \<Longrightarrow>
     (sf_written s \<le> sf_declared_size s \<Longrightarrow> sf_written s + n \<le> sf_declared_size s) \<Longrightarrow>
     file_grows s d (s\<lparr>sf_written := sf_written s + n\<rparr>) d'"
  unfolding file_grows_def by blast

lemma file_grows_nothing: "appended (sf_inode s) bs d d' \<Longrightarrow> file_grows s d s d'"
  using file_growsI [of s bs d d' 0] by simp

lemma appended_refl: "dk_data d i = Some old \<Longrightarrow> appended i [] d d"
  by (simp add: appended_def map_upd_triv)

lemma one_write_grows:
  assumes "dk_data d (sf_inode s) = Some old" "reject_overflow (sf_written s) (sf_declared_size s) (length buf) = Inr u"
    and "file_write (sf_inode s) buf d = (r, d1)"
    and "(case r of Inl e \<Rightarrow> (Inl e, s, d1) | Inr n \<Rightarrow> counted n s d1) = (res, s', d')"
  shows "file_grows s d s' d'"
proof (cases r)
  case (Inl e)
  then show ?thesis
    using assms(4) file_write_effect [OF assms(3,1)] by (auto intro: file_grows_nothing)
next
  case (Inr n)
  then have n: "n \<le> length buf" "appended (sf_inode s) (take n buf) d d1"
    using file_write_effect [OF assms(3,1)] by simp_all
  have "sf_written s + n \<le> u64_max" "sf_written s + n \<le> sf_declared_size s"
    using assms(2) n(1) by (simp_all add: reject_overflow_Inr)
  then show ?thesis
    using assms(4) Inr n file_growsI [OF n(2), of n] by (auto simp: counted_in_range)
qed

lemma staged_write_grows:
  assumes "staged_write buf s d = (r, s', d')" "dk_data d (sf_inode s) = Some old"
  shows "file_grows s d s' d'"
proof (cases "reject_overflow (sf_written s) (sf_declared_size s) (length buf)")
  case (Inl e)
  then have "s' = s" "d' = d" using assms(1) by (simp_all add: staged_write_def)
  then show ?thesis using file_grows_nothing [OF appended_refl [OF assms(2)]] by simp
next
  case (Inr u)
  obtain r1 d1 where w: "file_write (sf_inode s) buf d = (r1, d1)" by fastforce
  then have "(case r1 of Inl e \<Rightarrow> (Inl e, s, d1) | Inr n \<Rightarrow> counted n s d1) = (r, s', d')"
    using assms(1) Inr by (simp add: staged_write_def split: sum.splits)
  then show ?thesis by (rule one_write_grows [OF assms(2) Inr w])
qed

lemma staged_write_vectored_grows:
  assumes "staged_write_vectored bufs s d = (r, s', d')" "dk_data d (sf_inode s) = Some old"
  shows "file_grows s d s' d'"
proof -
  have "staged_write_vectored bufs s d = staged_write (concat bufs) s d \<or>
      (\<exists>e. staged_write_vectored bufs s d = (Inl e, s, d))"
    by (auto simp: staged_write_vectored_def staged_write_def length_concat split: sum.splits)
  then show ?thesis
  proof
    assume "staged_write_vectored bufs s d = staged_write (concat bufs) s d"
    then show ?thesis using assms(1) staged_write_grows [OF _ assms(2)] by metis
  next
    assume "\<exists>e. staged_write_vectored bufs s d = (Inl e, s, d)"
    then show ?thesis using assms(1) file_grows_nothing [OF appended_refl [OF assms(2)]] by auto
  qed
qed

lemma staged_write_all_grows:
  assumes "staged_write_all buf s d = (r, s', d')" "dk_data d (sf_inode s) = Some old"
  shows "file_grows s d s' d' \<and> (\<forall>u. r = Inr u \<longrightarrow> appended (sf_inode s) buf d d' \<and>
    s' = s\<lparr>sf_written := sf_written s + length buf\<rparr> \<and> sf_written s' \<le> sf_declared_size s)"
proof (cases "reject_overflow (sf_written s) (sf_declared_size s) (length buf)")
  case (Inl e)
  then show ?thesis
    using assms by (auto simp: staged_write_all_def intro: file_grows_nothing appended_refl)
next
  case (Inr u)
  then have fits: "sf_written s + length buf \<le> u64_max" "sf_written s + length buf \<le> sf_declared_size s"
    by (simp_all add: reject_overflow_Inr)
  obtain r1 d1 where w: "file_write_all (sf_inode s) buf d = (r1, d1)" by fastforce
  obtain k where k: "appended (sf_inode s) (take k buf) d d1" "\<forall>u. r1 = Inr u \<longrightarrow> take k buf = buf"
    using file_write_all_effect [OF w assms(2)] by blast
  show ?thesis
  proof (cases r1)
    case (Inl e)
    then show ?thesis using assms(1) Inr w k(1) by (auto simp: staged_write_all_def intro: file_grows_nothing)
  next
    case done1: (Inr u1)
    then have "appended (sf_inode s) buf d d1" using k by simp
    then show ?thesis
      using assms(1) Inr w done1 fits file_growsI [of s buf d d1 "length buf"]
      by (auto simp: staged_write_all_def counted_in_range)
  qed
qed

subsection \<open>Every call keeps the invariant\<close>

lemma drop_at_distinct:
  assumes "k < length xs" "distinct xs"
  shows "distinct (drop_at k xs) \<and> set (drop_at k xs) = set xs - {xs ! k}"
proof -
  have "xs = take k xs @ xs ! k # drop (Suc k) xs" by (rule id_take_nth_drop [OF assms(1)])
  then have "distinct (take k xs @ xs ! k # drop (Suc k) xs)" "set xs = set (take k xs @ xs ! k # drop (Suc k) xs)"
    using assms(2) by simp_all
  then show ?thesis unfolding drop_at_def by auto
qed

lemma drop_at_map: "map f (drop_at k xs) = drop_at k (map f xs)"
  by (simp add: drop_at_def take_map drop_map)

lemma drop_at_subset: "set (drop_at k xs) \<subseteq> set xs"
  unfolding drop_at_def by (auto dest: in_set_takeD in_set_dropD)

lemma drop_at_others:
  assumes "k < length xs" "distinct (map f xs)" "x \<in> set (drop_at k xs)"
  shows "x \<in> set xs \<and> f x \<noteq> f (xs ! k)"
proof -
  have "f x \<in> set (drop_at k (map f xs))" using assms(3) by (simp flip: drop_at_map)
  moreover have "set (drop_at k (map f xs)) = set (map f xs) - {f (xs ! k)}"
    using drop_at_distinct [of k "map f xs"] assms(1,2) by simp
  ultimately show ?thesis using subsetD [OF drop_at_subset assms(3)] by blast
qed

lemma store_inv_disk: "store_inv (d, ss) \<Longrightarrow> dk_names d n = Some (DFile i) \<Longrightarrow> i < dk_next d \<and> dk_data d i \<noteq> None"
  by (simp add: store_inv_def disk_ok_def)

lemma store_inv_member: "store_inv (d, ss) \<Longrightarrow> s \<in> set ss \<Longrightarrow> flight_ok d s"
  by (simp add: store_inv_def)

lemma flight_sole: "flight_ok d s \<Longrightarrow> sole_name d (sf_inode s) (sf_staging s)"
  by (simp add: flight_ok_def)

lemma flight_name: "flight_ok d s \<Longrightarrow> dk_names d (sf_staging s) = Some (DFile (sf_inode s))"
  using sole_nameD [OF flight_sole] by blast

lemma store_inv_flight:
  assumes "store_inv (d, ss)" "k < length ss"
  shows "flight_ok d (ss ! k)" "\<exists>old. dk_data d (sf_inode (ss ! k)) = Some old"
proof -
  show ok: "flight_ok d (ss ! k)" using store_inv_member [OF assms(1)] assms(2) by simp
  show "\<exists>old. dk_data d (sf_inode (ss ! k)) = Some old"
    using store_inv_disk [OF assms(1) flight_name [OF ok]] by blast
qed

lemma flight_same_names: "dk_names d' = dk_names d \<Longrightarrow> flight_ok d' s = flight_ok d s"
  by (simp add: flight_ok_def sole_name_def)

lemma file_grows_inv:
  assumes inv: "store_inv (d, ss)" and k: "k < length ss" and g: "file_grows (ss ! k) d s' d'"
  shows "store_inv (d', ss[k := s'])" and "keeps {} (sf_inode ` set ss) d d'"
proof -
  obtain bs n where ap: "appended (sf_inode (ss ! k)) bs d d'"
    and s': "s' = (ss ! k)\<lparr>sf_written := sf_written (ss ! k) + n\<rparr>"
    and fits: "sf_written (ss ! k) \<le> sf_declared_size (ss ! k) \<longrightarrow>
      sf_written (ss ! k) + n \<le> sf_declared_size (ss ! k)"
    using g unfolding file_grows_def by blast
  have maps: "map sf_staging (ss[k := s']) = map sf_staging ss" "map sf_name (ss[k := s']) = map sf_name ss"
    using k by (simp_all add: map_update s' list_update_same_conv)
  have "flight_ok d s'" using store_inv_flight(1) [OF inv k] fits by (simp add: flight_ok_def s')
  then have "\<forall>x \<in> set (ss[k := s']). flight_ok d x"
    using store_inv_member [OF inv] set_update_subset_insert [of ss k s'] by blast
  moreover have "disk_ok d'" using inv ap by (simp add: store_inv_def disk_ok_def appended_def)
  moreover have "dk_names d' = dk_names d" "dk_reserved d' = dk_reserved d" using ap by (simp_all add: appended_def)
  ultimately show "store_inv (d', ss[k := s'])"
    using inv unfolding store_inv_def prod.case maps using flight_same_names [of d' d] by simp
  have "sf_inode (ss ! k) \<in> sf_inode ` set ss" using k by simp
  then show "keeps {} (sf_inode ` set ss) d d'"
    using ap unfolding keeps_def appended_def by (metis fun_upd_other)
qed

lemma stage_inv:
  assumes inv: "store_inv (d, ss)" and st: "stage name len d = (r, d')"
  shows "store_inv (d', case r of Inl _ \<Rightarrow> ss | Inr s \<Rightarrow> ss @ [s])" and "keeps {} {} d d'"
proof -
  note effect = stage_effect [OF st]
  have fresh: "dk_names d n \<noteq> Some (DFile (dk_next d))" for n
    using store_inv_disk [OF inv] by blast
  show "store_inv (d', case r of Inl _ \<Rightarrow> ss | Inr s \<Rightarrow> ss @ [s])"
  proof (cases r)
    case (Inl e)
    then show ?thesis
      using inv effect flight_same_names [of d' d] by (simp add: store_inv_def disk_ok_def)
  next
    case (Inr s)
    then have s: "\<not> sf_committed s" "sf_written s = 0" "sf_destination s = name" "sf_name s = name"
      "sf_inode s = dk_next d" and safe: "\<not> is_staging_name name" "is_staging_name (sf_staging s)"
      and free: "dk_names d (sf_staging s) = None" "name \<notin> set (dk_reserved d)"
      and d': "dk_names d' = (dk_names d)(sf_staging s \<mapsto> DFile (dk_next d))"
        "dk_data d' = (dk_data d)(dk_next d \<mapsto> [])" "dk_next d' = Suc (dk_next d)"
        "dk_reserved d' = name # dk_reserved d"
      using effect safe_not_staging [of name name] by (simp_all add: created_def)
    have "i < dk_next d' \<and> dk_data d' i \<noteq> None" if "dk_names d' n = Some (DFile i)" for n i
      using that store_inv_disk [OF inv, of n i] d' by (cases "n = sf_staging s") (simp_all add: less_Suc_eq)
    then have disk: "disk_ok d'" by (simp add: disk_ok_def)
    have new: "flight_ok d' s" using s safe d'(1) fresh by (simp add: flight_ok_def sole_name_def)
    have old: "flight_ok d' x" if "x \<in> set ss" for x
    proof -
      have x: "flight_ok d x" by (rule store_inv_member [OF inv that])
      have "sf_inode x \<noteq> dk_next d" using fresh flight_name [OF x] by metis
      moreover have "sf_staging x \<noteq> sf_staging s" using free(1) flight_name [OF x] by auto
      ultimately have "sole_name d' (sf_inode x) (sf_staging x)"
        using flight_sole [OF x] d'(1) by (simp add: sole_name_def)
      then show ?thesis using x by (simp add: flight_ok_def)
    qed
    have "sf_staging s \<notin> sf_staging ` set ss"
      using flight_name [OF store_inv_member [OF inv]] free(1) by fastforce
    moreover have "name \<notin> sf_name ` set ss" "distinct (map sf_staging ss)" "distinct (map sf_name ss)"
      "set (dk_reserved d) = sf_name ` set ss"
      using inv free(2) by (simp_all add: store_inv_def)
    ultimately show ?thesis
      using Inr disk new old d'(4) s(4) by (simp add: store_inv_def)
  qed
  show "keeps {} {} d d'"
    using effect fresh by (cases r) (simp_all add: keeps_def created_def)
qed

text \<open>
  Ending the life of a file in flight, as \<open>commit\<close> and \<open>Drop\<close> do: its staging entry may go, and its
  inode may get the destination as a name.
\<close>

lemma ending_inv:
  assumes inv: "store_inv (d, ss)" and k: "k < length ss"
    and d': "dk_data d' = dk_data d" "dk_next d' = dk_next d"
      "dk_reserved d' = removeAll (sf_name (ss ! k)) (dk_reserved d)"
    and names: "\<And>n. dk_names d' n = dk_names d n \<or> n = sf_staging (ss ! k) \<and> dk_names d' n = None \<or>
        n = sf_name (ss ! k) \<and> dk_names d n = None \<and> dk_names d' n = dk_names d (sf_staging (ss ! k))"
  shows "store_inv (d', drop_at k ss)" and "keeps (sf_staging ` set ss) {} d d'"
proof -
  let ?s = "ss ! k"
  have s: "flight_ok d ?s" by (rule store_inv_flight(1) [OF inv k])
  have source: "dk_names d' n = Some (DFile i) \<Longrightarrow>
      dk_names d n = Some (DFile i) \<or> i = sf_inode ?s" for n i
    using names [of n] flight_name [OF s] by auto
  have "i < dk_next d' \<and> dk_data d' i \<noteq> None" if "dk_names d' n = Some (DFile i)" for n i
    using source [OF that] store_inv_disk [OF inv, of n i] store_inv_disk [OF inv flight_name [OF s]] d'(1,2) by auto
  then have "disk_ok d'" by (simp add: disk_ok_def)
  moreover have "flight_ok d' x" if "x \<in> set (drop_at k ss)" for x
  proof -
    have dist: "distinct (map sf_staging ss)" using inv by (simp add: store_inv_def)
    have other: "x \<in> set ss" "sf_staging x \<noteq> sf_staging ?s" using drop_at_others [OF k dist that] by simp_all
    have x: "flight_ok d x" by (rule store_inv_member [OF inv other(1)])
    have inode: "sf_inode x \<noteq> sf_inode ?s"
      using flight_name [OF x] sole_nameD [OF flight_sole [OF s]] other(2) by metis
    have "sf_staging x \<noteq> sf_name ?s" using x s unfolding flight_ok_def by metis
    then have "dk_names d' (sf_staging x) = dk_names d (sf_staging x)"
      using names [of "sf_staging x"] other(2) by blast
    moreover have "n = sf_staging x" if "dk_names d' n = Some (DFile (sf_inode x))" for n
      using source [OF that] inode sole_nameD [OF flight_sole [OF x]] by blast
    ultimately have "sole_name d' (sf_inode x) (sf_staging x)"
      using flight_name [OF x] unfolding sole_name_def by metis
    then show ?thesis using x by (simp add: flight_ok_def)
  qed
  moreover have "distinct (map sf_staging (drop_at k ss))" "distinct (map sf_name (drop_at k ss))"
    "set (map sf_name (drop_at k ss)) = set (map sf_name ss) - {sf_name ?s}"
    using drop_at_distinct [of k "map sf_staging ss"] drop_at_distinct [of k "map sf_name ss"] inv k
    by (simp_all add: store_inv_def drop_at_map)
  ultimately show "store_inv (d', drop_at k ss)"
    using inv d'(3) by (simp add: store_inv_def)
  show "keeps (sf_staging ` set ss) {} d d'"
    unfolding keeps_def
  proof (intro conjI allI impI)
    fix n e
    assume n: "dk_names d n = Some e \<and> n \<notin> sf_staging ` set ss"
    then have "n \<noteq> sf_staging ?s" using k by auto
    then show "dk_names d' n = Some e" using names [of n] n by auto
  next
    fix i bs
    assume "i < dk_next d \<and> dk_data d i = Some bs \<and> i \<notin> {}"
    then show "dk_data d' i = Some bs" using d'(1) by simp
  qed
qed

lemma commit_inv:
  assumes inv: "store_inv (d, ss)" and k: "k < length ss" and c: "staged_commit (ss ! k) d = (r, d')"
  shows "store_inv (d', drop_at k ss)" and "keeps (sf_staging ` set ss) {} d d'"
proof -
  let ?s = "ss ! k"
  have s: "\<not> sf_committed ?s" "sf_destination ?s = sf_name ?s" "sf_staging ?s \<noteq> sf_name ?s"
    using store_inv_flight(1) [OF inv k] unfolding flight_ok_def by metis+
  note effect = staged_commit_effect [OF c s(1), unfolded s(2)]
  have names: "dk_names d' n = dk_names d n \<or> n = sf_staging ?s \<and> dk_names d' n = None \<or>
      n = sf_name ?s \<and> dk_names d n = None \<and> dk_names d' n = dk_names d (sf_staging ?s)" for n
    using effect s(3) by (elim conjE disjE; simp)
  show "store_inv (d', drop_at k ss)" "keeps (sf_staging ` set ss) {} d d'"
    using ending_inv [OF inv k _ _ _ names] effect by simp_all
qed

lemma drop_inv:
  assumes inv: "store_inv (d, ss)" and k: "k < length ss"
  shows "store_inv (staged_drop (ss ! k) d, drop_at k ss)" and "keeps (sf_staging ` set ss) {} d (staged_drop (ss ! k) d)"
proof -
  let ?s = "ss ! k"
  let ?d = "staged_drop ?s d"
  note effect = staged_drop_effect [of ?s d]
  have names: "dk_names ?d n = dk_names d n \<or> n = sf_staging ?s \<and> dk_names ?d n = None \<or>
      n = sf_name ?s \<and> dk_names d n = None \<and> dk_names ?d n = dk_names d (sf_staging ?s)" for n
    using effect by (elim conjE disjE; simp)
  show "store_inv (?d, drop_at k ss)" "keeps (sf_staging ` set ss) {} d ?d"
    using ending_inv [OF inv k _ _ _ names] effect by simp_all
qed

lemma foreign_create_effect:
  "foreign_create name f d = d \<or>
   dk_names d name = None \<and> dk_reserved (foreign_create name f d) = dk_reserved d \<and>
   ((\<exists>e. (\<forall>i. e \<noteq> DFile i) \<and> dk_names (foreign_create name f d) = (dk_names d)(name \<mapsto> e) \<and>
       dk_data (foreign_create name f d) = dk_data d \<and> dk_next (foreign_create name f d) = dk_next d) \<or>
    (\<exists>bs. dk_names (foreign_create name f d) = (dk_names d)(name \<mapsto> DFile (dk_next d)) \<and>
       dk_data (foreign_create name f d) = (dk_data d)(dk_next d \<mapsto> bs) \<and>
       dk_next (foreign_create name f d) = Suc (dk_next d)))"
  by (cases f) (simp_all add: foreign_create_def, blast+)

lemma foreign_inv:
  assumes inv: "store_inv (d, ss)"
  shows "store_inv (foreign_create name f d, ss)" and "keeps {} {} d (foreign_create name f d)"
proof -
  let ?d = "foreign_create name f d"
  have fresh: "dk_names d n \<noteq> Some (DFile (dk_next d))" for n
    using store_inv_disk [OF inv] by blast
  have same: "?d = d \<Longrightarrow> store_inv (?d, ss) \<and> keeps {} {} d ?d" using inv by (simp add: keeps_def)
  have new: "store_inv (?d, ss) \<and> keeps {} {} d ?d"
    if free: "dk_names d name = None" and res: "dk_reserved ?d = dk_reserved d"
      and names: "dk_names ?d = (dk_names d)(name \<mapsto> e)" and e: "\<And>i. e = DFile i \<Longrightarrow> i = dk_next d \<and> i < dk_next ?d \<and> dk_data ?d i \<noteq> None"
      and data: "\<And>i. i < dk_next d \<Longrightarrow> dk_data ?d i = dk_data d i" "dk_next d \<le> dk_next ?d" for e
  proof
    have "i < dk_next ?d \<and> dk_data ?d i \<noteq> None" if "dk_names ?d n = Some (DFile i)" for n i
      using that e [of i] names store_inv_disk [OF inv, of n i] data(1) [of i] data(2)
      by (cases "n = name") auto
    then have "disk_ok ?d" by (simp add: disk_ok_def)
    moreover have "flight_ok ?d x" if "x \<in> set ss" for x
    proof -
      have x: "flight_ok d x" by (rule store_inv_member [OF inv that])
      have "e \<noteq> DFile (sf_inode x)" using e [of "sf_inode x"] fresh flight_name [OF x] by metis
      moreover have "sf_staging x \<noteq> name" using free flight_name [OF x] by auto
      ultimately have "sole_name ?d (sf_inode x) (sf_staging x)"
        using flight_sole [OF x] names by (simp add: sole_name_def)
      then show ?thesis using x by (simp add: flight_ok_def)
    qed
    ultimately show "store_inv (?d, ss)" using inv res by (simp add: store_inv_def)
    show "keeps {} {} d ?d" using names free data(1) by (simp add: keeps_def)
  qed
  have "store_inv (?d, ss) \<and> keeps {} {} d ?d"
    using foreign_create_effect [of name f d] same new by (elim disjE conjE exE) (simp_all, force+)
  then show "store_inv (?d, ss)" "keeps {} {} d ?d" by simp_all
qed

text \<open>One step of the store, whichever call it is.\<close>

lemma store_step_summary:
  assumes inv: "store_inv (d, ss)" and step: "store_step op (d, ss) = (d', ss')"
  shows "store_inv (d', ss') \<and> keeps (sf_staging ` set ss) (sf_inode ` set ss) d d' \<and>
    (\<forall>s \<in> set ss'. sf_staging s \<in> sf_staging ` set ss \<or> dk_names d (sf_staging s) = None)"
proof -
  let ?own = "sf_staging ` set ss" and ?inodes = "sf_inode ` set ss"
  have idle: "(d', ss') = (d, ss) \<Longrightarrow> ?thesis" using inv by (simp add: keeps_def)
  have written: ?thesis
    if "k < length ss" "file_grows (ss ! k) d s1 d1" "(d', ss') = (d1, ss[k := s1])" for k s1 d1
  proof -
    have "sf_staging s1 = sf_staging (ss ! k)" using that(2) by (auto simp: file_grows_def)
    then have "sf_staging s1 \<in> ?own" using that(1) by simp
    then have "\<forall>s \<in> set (ss[k := s1]). sf_staging s \<in> ?own"
      using set_update_subset_insert [of ss k s1] by blast
    then show ?thesis
      using that(3) file_grows_inv [OF inv that(1,2)] keeps_mono [of "{}" ?inodes d d1 ?own ?inodes] by simp
  qed
  have ended: ?thesis
    if "store_inv (d1, drop_at k ss)" "keeps ?own {} d d1" "(d', ss') = (d1, drop_at k ss)" for k d1
    using that drop_at_subset [of k ss] keeps_mono [of ?own "{}" d d1 ?own ?inodes] by auto
  show ?thesis
  proof (cases op)
    case (OStage name len)
    obtain r d1 where st: "stage name len d = (r, d1)" by fastforce
    have free: "\<forall>s. r = Inr s \<longrightarrow> dk_names d (sf_staging s) = None"
      using stage_effect [OF st] by (auto simp: created_def)
    have "(d', ss') = (d1, case r of Inl _ \<Rightarrow> ss | Inr s \<Rightarrow> ss @ [s])"
      using step OStage st by (simp split: sum.splits)
    then show ?thesis
      using stage_inv [OF inv st] free keeps_mono [of "{}" "{}" d d1 ?own ?inodes] by (auto split: sum.splits)
  next
    case (OWrite k buf)
    obtain r s1 d1 where w: "staged_write buf (ss ! k) d = (r, s1, d1)" by (metis prod_cases3)
    show ?thesis
    proof (cases "k < length ss")
      case True
      obtain old where old: "dk_data d (sf_inode (ss ! k)) = Some old" using store_inv_flight(2) [OF inv True] by blast
      have "(d', ss') = (d1, ss[k := s1])" using step OWrite True w by simp
      then show ?thesis by (rule written [OF True staged_write_grows [OF w old]])
    qed (use idle step OWrite in simp)
  next
    case (OWriteAll k buf)
    obtain r s1 d1 where w: "staged_write_all buf (ss ! k) d = (r, s1, d1)" by (metis prod_cases3)
    show ?thesis
    proof (cases "k < length ss")
      case True
      obtain old where old: "dk_data d (sf_inode (ss ! k)) = Some old" using store_inv_flight(2) [OF inv True] by blast
      have "(d', ss') = (d1, ss[k := s1])" using step OWriteAll True w by simp
      then show ?thesis by (rule written [OF True conjunct1 [OF staged_write_all_grows [OF w old]]])
    qed (use idle step OWriteAll in simp)
  next
    case (OWriteVectored k bufs)
    obtain r s1 d1 where w: "staged_write_vectored bufs (ss ! k) d = (r, s1, d1)" by (metis prod_cases3)
    show ?thesis
    proof (cases "k < length ss")
      case True
      obtain old where old: "dk_data d (sf_inode (ss ! k)) = Some old" using store_inv_flight(2) [OF inv True] by blast
      have "(d', ss') = (d1, ss[k := s1])" using step OWriteVectored True w by simp
      then show ?thesis by (rule written [OF True staged_write_vectored_grows [OF w old]])
    qed (use idle step OWriteVectored in simp)
  next
    case (OCommit k)
    obtain r d1 where c: "staged_commit (ss ! k) d = (r, d1)" by fastforce
    show ?thesis
    proof (cases "k < length ss")
      case True
      then have "(d', ss') = (d1, drop_at k ss)" using step OCommit c by simp
      then show ?thesis by (rule ended [OF commit_inv [OF inv True c]])
    qed (use idle step OCommit in simp)
  next
    case (ODrop k)
    show ?thesis
    proof (cases "k < length ss")
      case True
      then have "(d', ss') = (staged_drop (ss ! k) d, drop_at k ss)" using step ODrop by simp
      then show ?thesis by (rule ended [OF drop_inv [OF inv True]])
    qed (use idle step ODrop in simp)
  next
    case (OForeign name f)
    then have "d' = foreign_create name f d" "ss' = ss" using step by simp_all
    then show ?thesis
      using foreign_inv [OF inv, of name f] keeps_mono [of "{}" "{}" d d' ?own ?inodes] by simp
  qed
qed

definition empty_store :: store where
  "empty_store = (\<lparr>dk_names = \<lambda>_. None, dk_data = \<lambda>_. None, dk_next = 0, dk_faults = [], dk_writes = [],
     dk_reserved = [], dk_serial = 0, dk_pid = 0\<rparr>, [])"

interpretation store: step_invariant store_step empty_store store_inv "\<lambda>_ _. True"
proof unfold_locales
  show "store_inv empty_store" by (simp add: empty_store_def store_inv_def disk_ok_def)
next
  fix op and st :: store
  assume "store_inv st"
  then show "store_inv (store_step op st)"
    using store_step_summary [of "fst st" "snd st" op] by (metis prod.collapse)
qed

text \<open>An entry that no file in flight owns, with its content when it is a regular file.\<close>

definition undisturbed :: "rstring \<Rightarrow> dir_entry \<Rightarrow> bytes \<Rightarrow> store \<Rightarrow> bool" where
  "undisturbed n e c st \<longleftrightarrow> dk_names (fst st) n = Some e \<and> n \<notin> sf_staging ` set (snd st) \<and>
     (\<forall>i. e = DFile i \<longrightarrow> dk_data (fst st) i = Some c)"

lemma undisturbed_step:
  assumes inv: "store_inv st" and here: "undisturbed n e c st"
  shows "undisturbed n e c (store_step op st)"
proof -
  obtain d ss where st: "st = (d, ss)" by fastforce
  obtain d' ss' where step: "store_step op (d, ss) = (d', ss')" by fastforce
  note summary = store_step_summary [OF inv [unfolded st] step]
  have n: "dk_names d n = Some e" "n \<notin> sf_staging ` set ss" using here by (simp_all add: undisturbed_def st)
  have "dk_data d' i = Some c" if e: "e = DFile i" for i
  proof -
    have i: "dk_data d i = Some c" "i < dk_next d"
      using here e store_inv_disk [OF inv [unfolded st], of n i] by (simp_all add: undisturbed_def st)
    have "i \<noteq> sf_inode s" if "s \<in> set ss" for s
      using n e that sole_nameD [OF flight_sole [OF store_inv_member [OF inv [unfolded st] that]]] by blast
    then have "i \<notin> sf_inode ` set ss" by blast
    then show ?thesis using summary i unfolding keeps_def by blast
  qed
  moreover have "dk_names d' n = Some e" using summary n unfolding keeps_def by blast
  moreover have "n \<notin> sf_staging ` set ss'" using summary n by auto
  ultimately show ?thesis unfolding st step by (simp add: undisturbed_def)
qed

lemma store_inv_run: "store_inv st \<Longrightarrow> store_inv (run store_step ops st)"
  by (induction ops arbitrary: st) (simp_all add: store.inv_step)

lemma undisturbed_run: "store_inv st \<Longrightarrow> undisturbed n e c st \<Longrightarrow> undisturbed n e c (run store_step ops st)"
  by (induction ops arbitrary: st) (simp_all add: undisturbed_step store.inv_step)

subsection \<open>One file from staging to publication\<close>

text \<open>The receiver writes each chunk with \<open>write_all\<close> and stops at the first error.\<close>

fun write_chunks :: "bytes list \<Rightarrow> staged_file \<Rightarrow> disk \<Rightarrow> (io_kind + unit) \<times> staged_file \<times> disk" where
  "write_chunks [] s d = (Inr (), s, d)"
| "write_chunks (c # cs) s d =
     (case staged_write_all c s d of
        (Inl e, s, d) \<Rightarrow> (Inl e, s, d)
      | (Inr _, s, d) \<Rightarrow> write_chunks cs s d)"

lemma write_chunks_effect:
  assumes "write_chunks cs s d = (Inr u, s', d')" "dk_data d (sf_inode s) = Some old"
  shows "appended (sf_inode s) (concat cs) d d' \<and> s' = s\<lparr>sf_written := sf_written s + length (concat cs)\<rparr>"
  using assms
proof (induction cs arbitrary: s d old)
  case Nil
  then show ?case by (simp add: appended_refl)
next
  case (Cons c cs)
  obtain r s1 d1 where w: "staged_write_all c s d = (r, s1, d1)" by (metis prod_cases3)
  then obtain v where r: "r = Inr v" using Cons.prems(1) by (auto split: sum.splits)
  have one: "appended (sf_inode s) c d d1" "s1 = s\<lparr>sf_written := sf_written s + length c\<rparr>"
    using staged_write_all_grows [OF w Cons.prems(2)] r by simp_all
  have "write_chunks cs s1 d1 = (Inr u, s', d')" using Cons.prems(1) w r by simp
  moreover obtain mid where "dk_data d1 (sf_inode s) = Some mid" using appended_data [OF one(1)] by blast
  then have "dk_data d1 (sf_inode s1) = Some mid" using one(2) by simp
  ultimately have rest: "appended (sf_inode s1) (concat cs) d1 d'"
    "s' = s1\<lparr>sf_written := sf_written s1 + length (concat cs)\<rparr>"
    using Cons.IH by blast+
  show ?case
    using appended_trans [OF one(1), of "concat cs" d'] rest one(2) by simp
qed

lemma published_file:
  assumes st: "stage name len d = (Inr s, d1)" and w: "write_chunks chunks s d1 = (Inr (), s', d2)"
    and c: "staged_commit s' d2 = (Inr path, d3)"
  shows "path = name \<and> dk_names d name = None \<and> length (concat chunks) = len \<and>
    dk_names d3 = (dk_names d)(name \<mapsto> DFile (dk_next d)) \<and>
    dk_data d3 = (dk_data d)(dk_next d \<mapsto> concat chunks) \<and> dk_reserved d3 = dk_reserved d"
proof -
  have s: "\<not> sf_committed s" "sf_declared_size s = len" "sf_destination s = name" "sf_inode s = dk_next d"
    "sf_name s = name" "sf_written s = 0" and safe: "safe_file_name name = Inr name" "is_staging_name (sf_staging s)"
    and new: "name \<notin> set (dk_reserved d)" "dk_names d (sf_staging s) = None"
      "dk_names d1 = (dk_names d)(sf_staging s \<mapsto> DFile (dk_next d))"
      "dk_data d1 = (dk_data d)(dk_next d \<mapsto> [])" "dk_reserved d1 = name # dk_reserved d"
    using stage_effect [OF st] by (simp_all add: created_def)
  have apart: "sf_staging s \<noteq> name" using safe_not_staging [OF safe(1)] safe(2) by metis
  have ap: "appended (dk_next d) (concat chunks) d1 d2" and s': "s' = s\<lparr>sf_written := length (concat chunks)\<rparr>"
    using write_chunks_effect [OF w, of "[]"] s(4,6) new(4) by simp_all
  have names: "dk_names d2 = (dk_names d)(sf_staging s \<mapsto> DFile (dk_next d))"
    and data: "dk_data d2 = (dk_data d)(dk_next d \<mapsto> concat chunks)" "dk_reserved d2 = name # dk_reserved d"
    using ap new(3,4,5) by (simp_all add: appended_def)
  have "\<not> sf_committed s'" using s s' by simp
  note commit = staged_commit_effect [OF c this]
  then have done3: "sf_written s' = sf_declared_size s'" "dk_names d2 (sf_destination s') = None" "path = sf_destination s'"
    "dk_names d3 = (dk_names d2)(sf_destination s' := dk_names d2 (sf_staging s'), sf_staging s' := None)"
    and kept: "dk_data d3 = dk_data d2" "dk_reserved d3 = removeAll (sf_name s') (dk_reserved d2)"
    by auto
  have "dk_names d3 = (dk_names d)(name \<mapsto> DFile (dk_next d))"
    using done3(4) names new(2) apart s(3) unfolding s' by (auto simp: fun_eq_iff)
  moreover have "dk_names d name = None" using done3(2) names apart s(3) unfolding s' by simp
  moreover have "removeAll name (dk_reserved d) = dk_reserved d" using new(1) by simp
  ultimately show ?thesis using done3(1,3) kept data s unfolding s' by simp
qed

text \<open>The same calls as a run of the store.\<close>

lemma run_write_chunks:
  "write_chunks chunks s d = (Inr u, s', d') \<Longrightarrow> run store_step (map (OWriteAll 0) chunks) (d, [s]) = (d', [s'])"
  by (induction chunks arbitrary: s d) (auto split: prod.splits sum.splits)

lemma run_publication:
  assumes "stage name len d = (Inr s, d1)" "write_chunks chunks s d1 = (Inr (), s', d2)"
    "staged_commit s' d2 = (Inr path, d3)"
  shows "run store_step (OStage name len # map (OWriteAll 0) chunks @ [OCommit 0]) (d, []) = (d3, [])"
  using assms run_write_chunks [OF assms(2)] by (simp add: drop_at_def)

subsection \<open>Publication succeeds\<close>

text \<open>A state in which no coming system call fails or writes short.\<close>

definition healthy :: "disk \<Rightarrow> bool" where
  "healthy d \<longleftrightarrow> dk_faults d = [] \<and> dk_writes d = []"

lemma healthy_syscall: "healthy d \<Longrightarrow> syscall d = (None, d)"
  by (simp add: healthy_def syscall_def)

lemma create_attempts_succeeds:
  assumes "healthy d" "k < n" "dk_serial d + k \<le> u64_max"
    and "dk_names d (staging_name (dk_pid d) (dk_serial d + k)) = None"
  shows "\<exists>i staging d'. create_attempts n d = (Inr (i, staging), d') \<and> healthy d'"
  using assms
proof (induction n arbitrary: d k)
  case (Suc n)
  let ?staging = "staging_name (dk_pid d) (dk_serial d)"
  let ?d = "d\<lparr>dk_serial := Suc (dk_serial d) mod (u64_max + 1)\<rparr>"
  have healthy: "healthy ?d" using Suc.prems(1) by (simp add: healthy_def)
  show ?case
  proof (cases "dk_names d ?staging = None")
    case True
    then show ?thesis
      using healthy_syscall [OF healthy] healthy by (simp add: Let_def create_new_def healthy_def)
  next
    case False
    then have retry: "create_attempts (Suc n) d = create_attempts n ?d"
      using healthy_syscall [OF healthy] by (auto simp: Let_def create_new_def)
    obtain j where j: "k = Suc j" using False Suc.prems(4) by (cases k) auto
    then have "dk_serial ?d = Suc (dk_serial d)" using Suc.prems(3) by simp
    then show ?thesis
      using Suc.IH [OF healthy, of j] Suc.prems j retry by simp
  qed
qed simp

lemma stage_succeeds:
  assumes "healthy d" "safe_file_name name = Inr name" "dk_names d name = None" "name \<notin> set (dk_reserved d)"
    and "k < STAGING_ATTEMPTS" "dk_serial d + k \<le> u64_max"
      "dk_names d (staging_name (dk_pid d) (dk_serial d + k)) = None"
  shows "\<exists>s d'. stage name len d = (Inr s, d') \<and> healthy d'"
proof -
  let ?d = "d\<lparr>dk_reserved := name # dk_reserved d\<rparr>"
  have "reserve name d = (Inr (), ?d)"
    using assms(3,4) healthy_syscall [OF assms(1)] by (simp add: reserve_def path_exists_def)
  moreover have "\<exists>i staging d'. create_staging_file ?d = (Inr (i, staging), d') \<and> healthy d'"
    unfolding create_staging_file_def
    using create_attempts_succeeds [of ?d k STAGING_ATTEMPTS] assms by (simp add: healthy_def)
  ultimately show ?thesis using assms(2) by (auto simp: stage_def)
qed

lemma healthy_append: "healthy (file_append i bs d) = healthy d"
  by (simp add: healthy_def file_append_def)

lemma healthy_write_all: "healthy d \<Longrightarrow> \<exists>d'. file_write_all i bs d = (Inr (), d') \<and> healthy d'"
proof (cases bs)
  case (Cons b rest)
  assume h: "healthy d"
  then have "file_write i bs d = (Inr (Suc (length rest)), file_append i bs d)"
    using Cons by (simp add: file_write_def healthy_def)
  then have "file_write_all i bs d = (Inr (), file_append i bs d)"
    using Cons by (subst file_write_all.simps) (simp add: file_write_all.simps [of i "[]"])
  then show ?thesis using h by (simp add: healthy_append)
qed (simp add: file_write_all.simps [of i "[]"])

lemma write_chunks_succeeds:
  assumes "healthy d" "sf_written s + length (concat cs) \<le> sf_declared_size s" "sf_declared_size s \<le> u64_max"
  shows "\<exists>s' d'. write_chunks cs s d = (Inr (), s', d') \<and> healthy d'"
  using assms
proof (induction cs arbitrary: s d)
  case (Cons c cs)
  obtain d1 where w: "file_write_all (sf_inode s) c d = (Inr (), d1)" "healthy d1"
    using healthy_write_all [OF Cons.prems(1)] by blast
  let ?s = "s\<lparr>sf_written := sf_written s + length c\<rparr>"
  have fits: "sf_written s + length c \<le> sf_declared_size s" "sf_written s + length c \<le> u64_max"
    using Cons.prems by simp_all
  then have "\<exists>u. reject_overflow (sf_written s) (sf_declared_size s) (length c) = Inr u"
    by (simp add: reject_overflow_Inr)
  then have "staged_write_all c s d = (Inr (), ?s, d1)"
    using w fits by (auto simp: staged_write_all_def counted_in_range)
  then show ?case using Cons.IH [OF w(2), of ?s] Cons.prems by simp
qed auto

lemma commit_succeeds:
  assumes "healthy d" "sf_written s = sf_declared_size s" "dk_names d (sf_staging s) = Some (DFile i)"
    "dk_names d (sf_destination s) = None"
  shows "fst (staged_commit s d) = Inr (sf_destination s)"
proof -
  let ?d = "d\<lparr>dk_names := (dk_names d)(sf_destination s \<mapsto> DFile i)\<rparr>"
  have "sf_staging s \<noteq> sf_destination s" using assms(3,4) by auto
  moreover have "syscall d = (None, d)" "syscall ?d = (None, ?d)"
    using assms(1) by (simp_all add: healthy_syscall healthy_def)
  ultimately have "hard_link (sf_staging s) (sf_destination s) d = (Inr (), ?d)"
    "\<exists>d'. remove_file (sf_staging s) ?d = (Inr (), d')"
    using assms(3,4) by (simp_all add: hard_link_def remove_file_def)
  then show ?thesis using assms(2) \<open>syscall d = (None, d)\<close> by (auto simp: staged_commit_def)
qed

lemma publication_succeeds:
  assumes "healthy d" "safe_file_name name = Inr name" "dk_names d name = None" "name \<notin> set (dk_reserved d)"
    and "k < STAGING_ATTEMPTS" "dk_serial d + k \<le> u64_max"
      "dk_names d (staging_name (dk_pid d) (dk_serial d + k)) = None"
    and len: "length (concat chunks) = len" "len \<le> u64_max"
  shows "\<exists>s d1 s' d2 d3. stage name len d = (Inr s, d1) \<and> write_chunks chunks s d1 = (Inr (), s', d2) \<and>
    staged_commit s' d2 = (Inr name, d3)"
proof -
  obtain s d1 where st: "stage name len d = (Inr s, d1)" and h1: "healthy d1"
    using stage_succeeds [OF assms(1-7)] by blast
  have s: "sf_declared_size s = len" "sf_destination s = name" "sf_inode s = dk_next d" "sf_written s = 0"
    and safe: "is_staging_name (sf_staging s)"
    and d1: "dk_names d1 = (dk_names d)(sf_staging s \<mapsto> DFile (dk_next d))" "dk_data d1 (dk_next d) = Some []"
    using stage_effect [OF st] by (simp_all add: created_def)
  obtain s' d2 where w: "write_chunks chunks s d1 = (Inr (), s', d2)" and h2: "healthy d2"
    using write_chunks_succeeds [OF h1, of s chunks] s len by auto
  have ap: "appended (dk_next d) (concat chunks) d1 d2" and s': "s' = s\<lparr>sf_written := length (concat chunks)\<rparr>"
    using write_chunks_effect [OF w] s d1(2) by simp_all
  have "sf_staging s \<noteq> name" using safe_not_staging [OF assms(2)] safe by metis
  then have "dk_names d2 (sf_staging s) = Some (DFile (dk_next d))" "dk_names d2 name = None"
    using ap d1(1) assms(3) by (simp_all add: appended_def)
  then have "fst (staged_commit s' d2) = Inr name"
    using commit_succeeds [OF h2, of s' "dk_next d"] s len(1) unfolding s' by simp
  then show ?thesis using st w by (metis prod.collapse)
qed

subsection \<open>Properties\<close>

text \<open>
  C21. Nothing that is in the receive directory is ever replaced, altered or removed. Start from any
  consistent directory, whichever of the coming system calls fail or write short: after any sequence of
  staging, writing, committing and dropping files and of entries created by other processes, every entry
  that is not the staging file of a file still in flight survives every further such sequence with
  the same content.
\<close>

theorem storage_never_replaces:
  assumes "disk_ok d" "dk_reserved d = []" and "st = run store_step ops (d, [])"
    and "\<not> (\<exists>s \<in> set (snd st). sf_staging s = n)" "dk_names (fst st) n = Some e"
  shows "dk_names (fst (run store_step later st)) n = Some e \<and>
    (\<forall>i. e = DFile i \<longrightarrow> dk_data (fst st) i \<noteq> None \<and>
       dk_data (fst (run store_step later st)) i = dk_data (fst st) i)"
proof -
  have "store_inv (d, [])" using assms(1,2) by (simp add: store_inv_def)
  then have inv: "store_inv st" unfolding assms(3) by (rule store_inv_run)
  define c where "c = (case e of DFile i \<Rightarrow> the (dk_data (fst st) i) | _ \<Rightarrow> [])"
  have data: "dk_data (fst st) i = Some c" if "e = DFile i" for i
    using store_inv_disk [of "fst st" "snd st" n i] inv assms(5) that by (auto simp: c_def)
  then have "undisturbed n e c st" using assms(4,5) by (auto simp: undisturbed_def)
  then have "undisturbed n e c (run store_step later st)" by (rule undisturbed_run [OF inv])
  then show ?thesis using data by (simp add: undisturbed_def)
qed

text \<open>
  C22. Publication is all or nothing: a file that was staged, written chunk by chunk without an error and
  committed with success appears under the requested name, which was free, as a new file whose content
  is the concatenation of the chunks and whose length is the declared size; the staging entry is gone,
  the name is no longer reserved, and nothing else in the directory differs.
\<close>

theorem staged_file_published:
  assumes "stage name len d = (Inr s, d1)" "write_chunks chunks s d1 = (Inr (), s', d2)"
    "staged_commit s' d2 = (Inr path, d3)"
  shows "path = name \<and> dk_names d name = None \<and> length (concat chunks) = len \<and>
    dk_names d3 = (dk_names d)(name \<mapsto> DFile (dk_next d)) \<and>
    dk_data d3 = (dk_data d)(dk_next d \<mapsto> concat chunks) \<and> dk_reserved d3 = dk_reserved d"
  by (rule published_file [OF assms])

text \<open>
  C23. Publication succeeds: when no system call fails, a file with an acceptable name that is neither
  taken nor reserved, for which one of the 64 coming staging names is free, is staged, takes chunks that
  add up to the declared size, and is committed under its name.
\<close>

theorem healthy_publication:
  assumes "healthy d" "safe_file_name name = Inr name" "dk_names d name = None" "name \<notin> set (dk_reserved d)"
    and "k < STAGING_ATTEMPTS" "dk_serial d + k \<le> u64_max"
      "dk_names d (staging_name (dk_pid d) (dk_serial d + k)) = None"
    and "length (concat chunks) = len" "len \<le> u64_max"
  shows "\<exists>s d1 s' d2 d3. stage name len d = (Inr s, d1) \<and> write_chunks chunks s d1 = (Inr (), s', d2) \<and>
    staged_commit s' d2 = (Inr name, d3)"
  by (rule publication_succeeds [OF assms])

text \<open>
  Received files stay in the receive directory: the names that are accepted are exactly the
  non-empty names of at most 255 bytes without a slash, a backslash or a control character that are
  neither \<open>.\<close> nor \<open>..\<close> and do not begin like a staging name, and they are used unchanged.
\<close>

theorem accepted_file_names:
  "safe_file_name name = Inr safe \<longleftrightarrow>
     safe = name \<and> name \<noteq> [] \<and> length name \<le> 255 \<and> name \<noteq> [46] \<and> name \<noteq> [46, 46] \<and>
     take 12 name \<noteq> ascii ''.quickshare-'' \<and> list_all (\<lambda>b. b \<noteq> 47 \<and> b \<noteq> 92 \<and> \<not> is_ascii_control b) name"
  by (rule safe_file_name_Inr)

subsection \<open>Concrete files\<close>

lemma demo_publication:
  "\<exists>s d1 s' d2 d3. stage [97] 3 (fst empty_store) = (Inr s, d1) \<and>
     write_chunks [[1, 2], [3]] s d1 = (Inr (), s', d2) \<and> staged_commit s' d2 = (Inr [97], d3)"
  by (rule publication_succeeds [of _ _ 0])
    (simp_all add: healthy_def empty_store_def STAGING_ATTEMPTS_def u64_max_def safe_file_name_Inr ascii_def
      is_ascii_control_def)

text \<open>
  A directory with a file \<open>b\<close>, in which the link of the first commit is refused by the system.
\<close>

definition faulty_disk :: disk where
  "faulty_disk = (fst empty_store)\<lparr>dk_names := [[98] \<mapsto> DFile 0], dk_data := [0 \<mapsto> [9]], dk_next := 1,
     dk_faults := [None, None, None, Some IPermissionDenied]\<rparr>"

lemma faulty_fields [simp]:
  "dk_names faulty_disk = [[98] \<mapsto> DFile 0]" "dk_data faulty_disk = [0 \<mapsto> [9]]" "dk_next faulty_disk = 1"
  "dk_faults faulty_disk = [None, None, None, Some IPermissionDenied]" "dk_writes faulty_disk = []"
  "dk_reserved faulty_disk = []" "dk_serial faulty_disk = 0" "dk_pid faulty_disk = 0"
  by (simp_all add: faulty_disk_def empty_store_def)

lemma faulty_commit:
  "\<exists>s d1 e d2. stage [97] 0 faulty_disk = (Inr s, d1) \<and> staged_commit s d1 = (Inl e, d2) \<and>
     run store_step [OStage [97] 0, OCommit 0] (faulty_disk, []) = (d2, [])"
proof -
  let ?staging = "staging_name 0 0"
  let ?d = "faulty_disk\<lparr>dk_faults := [None, None, Some IPermissionDenied], dk_reserved := [[97]]\<rparr>"
  have safe: "safe_file_name [97] = Inr [97]" by (simp add: safe_file_name_Inr ascii_def is_ascii_control_def)
  have apart: "?staging \<noteq> [98]" "?staging \<noteq> [97]" by (simp_all add: staging_name_def ascii_def)
  have attempt: "\<exists>d1. create_attempts (Suc 63) ?d = (Inr (1, ?staging), d1) \<and> dk_faults d1 = [None, Some IPermissionDenied]"
    using apart by (simp only: create_attempts.simps) (simp add: create_new_def syscall_def Let_def)
  then obtain d1 where d1: "create_staging_file ?d = (Inr (1, ?staging), d1)" "dk_faults d1 = [None, Some IPermissionDenied]"
    by (auto simp: create_staging_file_def STAGING_ATTEMPTS_def)
  have r: "reserve [97] faulty_disk = (Inr (), ?d)"
    by (simp add: reserve_def path_exists_def syscall_def)
  obtain s where s: "stage [97] 0 faulty_disk = (Inr s, d1)" "sf_written s = 0" "sf_declared_size s = 0"
    using safe r d1(1) by (simp add: stage_def)
  have "\<exists>e d2. staged_commit s d1 = (Inl e, d2)"
    using s(2,3) d1(2) by (simp add: staged_commit_def syscall_def hard_link_def)
  then obtain e d2 where c: "staged_commit s d1 = (Inl e, d2)" by blast
  have "run store_step [OStage [97] 0, OCommit 0] (faulty_disk, []) = (d2, [])"
    using s(1) c by (simp add: drop_at_def)
  then show ?thesis using s(1) c by blast
qed

theorem storage_never_replaces_witness:
  "\<exists>s d1 e d2. stage [97] 0 faulty_disk = (Inr s, d1) \<and> staged_commit s d1 = (Inl e, d2) \<and>
     run store_step [OStage [97] 0, OCommit 0] (faulty_disk, []) = (d2, []) \<and>
     dk_names d2 [98] = Some (DFile 0) \<and> dk_data d2 0 = Some [9]"
proof -
  obtain s d1 e d2 where c: "stage [97] 0 faulty_disk = (Inr s, d1)" "staged_commit s d1 = (Inl e, d2)"
    "run store_step [OStage [97] 0, OCommit 0] (faulty_disk, []) = (d2, [])" using faulty_commit by blast
  have "disk_ok faulty_disk" by (simp add: disk_ok_def)
  then have "dk_names (fst (run store_step [OStage [97] 0, OCommit 0] (faulty_disk, []))) [98] = Some (DFile 0) \<and>
      dk_data (fst (run store_step [OStage [97] 0, OCommit 0] (faulty_disk, []))) 0 = Some [9]"
    using storage_never_replaces [of faulty_disk "(faulty_disk, [])" "[]" "[98]" "DFile 0" "[OStage [97] 0, OCommit 0]"] by simp
  then show ?thesis using c by auto
qed

theorem healthy_publication_witness:
  "\<exists>s d1 s' d2 d3. stage [97] 3 (fst empty_store) = (Inr s, d1) \<and>
     write_chunks [[1, 2], [3]] s d1 = (Inr (), s', d2) \<and> staged_commit s' d2 = (Inr [97], d3)"
  by (rule healthy_publication [of _ _ 0])
    (simp_all add: healthy_def empty_store_def STAGING_ATTEMPTS_def u64_max_def safe_file_name_Inr ascii_def
      is_ascii_control_def)

theorem staged_file_published_witness:
  "\<exists>s d1 s' d2 path d3. stage [97] 3 (fst empty_store) = (Inr s, d1) \<and>
     write_chunks [[1, 2], [3]] s d1 = (Inr (), s', d2) \<and> staged_commit s' d2 = (Inr path, d3) \<and>
     path = [97] \<and> dk_names d3 [97] = Some (DFile 0) \<and> dk_data d3 0 = Some [1, 2, 3]"
proof -
  obtain s d1 s' d2 d3 where steps: "stage [97] 3 (fst empty_store) = (Inr s, d1)"
    "write_chunks [[1, 2], [3]] s d1 = (Inr (), s', d2)" "staged_commit s' d2 = (Inr [97], d3)"
    using demo_publication by blast
  have "dk_next (fst empty_store) = 0" by (simp add: empty_store_def)
  then show ?thesis using steps staged_file_published [OF steps] by (intro exI conjI) auto
qed

end
