(* ===== verification/Storage_Source.thy ===== *)
theory Storage_Source
  imports Storage_Staging
begin

text \<open>
  Outbound files (\<open>crates/platform/storage/src/source.rs\<close>). A file is opened when the share is
  queued and read later through the retained descriptor. Other processes may change the file system
  between any two system calls: the state holds the view each coming call has of it.
\<close>

subsection \<open>What the system calls see\<close>

datatype node_kind = NRegular | NDirectory | NSymlink | NSpecial

record node =
  nd_kind :: node_kind
  nd_device :: nat
  nd_inode :: nat

text \<open>A view may make the call fail, and bounds what one read returns.\<close>

record fs_view =
  fv_lookup :: "rstring \<Rightarrow> node option"
  fv_data :: "nat \<times> nat \<Rightarrow> bytes"
  fv_fault :: "io_kind option"
  fv_limit :: "nat option"

type_synonym fs_world = "fs_view \<times> fs_view list"

definition next_view :: "fs_world \<Rightarrow> fs_view \<times> fs_world" where
  "next_view w = (case w of (v, []) \<Rightarrow> (v, v, []) | (v, u # us) \<Rightarrow> (v, u, us))"

record metadata =
  md_kind :: node_kind
  md_dev :: nat
  md_ino :: nat
  md_len :: nat

definition node_metadata :: "fs_view \<Rightarrow> node \<Rightarrow> metadata" where
  "node_metadata v n =
     \<lparr>md_kind = nd_kind n, md_dev = nd_device n, md_ino = nd_inode n,
      md_len = length (fv_data v (nd_device n, nd_inode n))\<rparr>"

definition symlink_metadata :: "rstring \<Rightarrow> fs_world \<Rightarrow> (io_kind + metadata) \<times> fs_world" where
  "symlink_metadata path w =
     (case next_view w of (v, w) \<Rightarrow>
        (case fv_fault v of
           Some e \<Rightarrow> Inl e
         | None \<Rightarrow>
             (case fv_lookup v path of
                None \<Rightarrow> Inl INotFound
              | Some n \<Rightarrow> Inr (node_metadata v n)), w))"

text \<open>Opening with \<open>O_NOFOLLOW\<close>; the descriptor is the node itself.\<close>

datatype open_error = OpenLoop | OpenIo io_kind

definition open_nofollow :: "rstring \<Rightarrow> fs_world \<Rightarrow> (open_error + node) \<times> fs_world" where
  "open_nofollow path w =
     (case next_view w of (v, w) \<Rightarrow>
        (case fv_fault v of
           Some e \<Rightarrow> Inl (OpenIo e)
         | None \<Rightarrow>
             (case fv_lookup v path of
                None \<Rightarrow> Inl (OpenIo INotFound)
              | Some n \<Rightarrow> if nd_kind n = NSymlink then Inl OpenLoop else Inr n), w))"

definition fd_metadata :: "node \<Rightarrow> fs_world \<Rightarrow> (io_kind + metadata) \<times> fs_world" where
  "fd_metadata file w =
     (case next_view w of (v, w) \<Rightarrow>
        (case fv_fault v of Some e \<Rightarrow> Inl e | None \<Rightarrow> Inr (node_metadata v file), w))"

text \<open>\<open>FileExt::read_at\<close> into a buffer of \<open>n\<close> bytes: some bytes whenever there are any.\<close>

definition read_at :: "node \<Rightarrow> nat \<Rightarrow> nat \<Rightarrow> fs_world \<Rightarrow> (io_kind + bytes) \<times> fs_world" where
  "read_at file n position w =
     (case next_view w of (v, w) \<Rightarrow>
        (case fv_fault v of
           Some e \<Rightarrow> Inl e
         | None \<Rightarrow>
             Inr (take (case fv_limit v of None \<Rightarrow> n | Some l \<Rightarrow> min n (max 1 l))
                    (drop position (fv_data v (nd_device file, nd_inode file)))), w))"

definition path_file_name :: "rstring \<Rightarrow> rstring option" where
  "path_file_name path =
     (case rev (path_components path) of Normal part # _ \<Rightarrow> Some part | _ \<Rightarrow> None)"

subsection \<open>Sources and readers\<close>

record outbound_source =
  os_device :: nat
  os_file :: node
  os_inode :: nat
  os_length :: nat
  os_name :: rstring
  os_path :: rstring

record source_reader =
  sr_file :: node
  sr_position :: nat

definition map_open_error :: "open_error \<Rightarrow> storage_error" where
  "map_open_error e = (case e of OpenLoop \<Rightarrow> SInvalidSource | OpenIo k \<Rightarrow> SIo k)"

definition source_open :: "rstring \<Rightarrow> fs_world \<Rightarrow> (storage_error + outbound_source) \<times> fs_world" where
  "source_open path w =
     (case symlink_metadata path w of
        (Inl e, w) \<Rightarrow> (Inl (SIo e), w)
      | (Inr listed, w) \<Rightarrow>
          if md_kind listed \<noteq> NRegular then (Inl SInvalidSource, w)
          else case open_nofollow path w of
            (Inl e, w) \<Rightarrow> (Inl (map_open_error e), w)
          | (Inr file, w) \<Rightarrow>
              (case fd_metadata file w of
                 (Inl e, w) \<Rightarrow> (Inl (SIo e), w)
               | (Inr meta, w) \<Rightarrow>
                   (case path_file_name path of
                      None \<Rightarrow> (Inl SInvalidSource, w)
                    | Some name \<Rightarrow>
                        if md_kind meta \<noteq> NRegular then (Inl SInvalidSource, w)
                        else (Inr \<lparr>os_device = md_dev meta, os_file = file, os_inode = md_ino meta,
                                   os_length = md_len meta, os_name = name, os_path = path\<rparr>, w))))"

definition source_is_empty :: "outbound_source \<Rightarrow> bool" where
  "source_is_empty s \<longleftrightarrow> os_length s = 0"

definition same_identity :: "metadata \<Rightarrow> outbound_source \<Rightarrow> bool" where
  "same_identity meta s \<longleftrightarrow> md_len meta = os_length s \<and> md_dev meta = os_device s \<and> md_ino meta = os_inode s"

definition reject_mutation :: "outbound_source \<Rightarrow> fs_world \<Rightarrow> (storage_error + unit) \<times> fs_world" where
  "reject_mutation s w =
     (case fd_metadata (os_file s) w of
        (Inl e, w) \<Rightarrow> (Inl (SIo e), w)
      | (Inr fd_meta, w) \<Rightarrow>
          if \<not> same_identity fd_meta s then (Inl SMutation, w)
          else case symlink_metadata (os_path s) w of
            (Inl e, w) \<Rightarrow> (Inl (SIo e), w)
          | (Inr path_meta, w) \<Rightarrow>
              if md_kind path_meta = NSymlink then (Inl SMutation, w)
              else if \<not> same_identity path_meta s then (Inl SMutation, w)
              else (Inr (), w))"

text \<open>Duplicating the descriptor looks at no file.\<close>

definition source_reader_of :: "outbound_source \<Rightarrow> fs_world \<Rightarrow> (storage_error + source_reader) \<times> fs_world" where
  "source_reader_of s w =
     (case reject_mutation s w of
        (Inl e, w) \<Rightarrow> (Inl e, w)
      | (Inr _, w) \<Rightarrow>
          (case next_view w of (v, w) \<Rightarrow>
             (case fv_fault v of
                Some e \<Rightarrow> Inl (SIo e)
              | None \<Rightarrow> Inr \<lparr>sr_file = os_file s, sr_position = 0\<rparr>, w)))"

definition source_read ::
  "nat \<Rightarrow> source_reader \<Rightarrow> fs_world \<Rightarrow> (io_kind + bytes) \<times> source_reader \<times> fs_world" where
  "source_read n r w =
     (case read_at (sr_file r) n (sr_position r) w of
        (Inl e, w) \<Rightarrow> (Inl e, r, w)
      | (Inr bs, w) \<Rightarrow>
          (case checked_add_u64 (sr_position r) (length bs) of
             None \<Rightarrow> (Inl IInvalidData, r, w)
           | Some position \<Rightarrow> (Inr bs, r\<lparr>sr_position := position\<rparr>, w)))"

subsection \<open>Acceptance\<close>

lemma md_kind_node [simp]: "md_kind (node_metadata v n) = nd_kind n"
  by (simp add: node_metadata_def)

lemma symlink_metadata_Inr:
  "symlink_metadata path w = (Inr m, w') \<longleftrightarrow>
     (\<exists>v n. next_view w = (v, w') \<and> fv_fault v = None \<and> fv_lookup v path = Some n \<and> m = node_metadata v n)"
  by (auto simp: symlink_metadata_def split: prod.splits option.splits)

lemma fd_metadata_Inr:
  "fd_metadata file w = (Inr m, w') \<longleftrightarrow>
     (\<exists>v. next_view w = (v, w') \<and> fv_fault v = None \<and> m = node_metadata v file)"
  by (auto simp: fd_metadata_def split: prod.splits option.splits)

lemma open_nofollow_Inr:
  "open_nofollow path w = (Inr n, w') \<longleftrightarrow>
     (\<exists>v. next_view w = (v, w') \<and> fv_fault v = None \<and> fv_lookup v path = Some n \<and> nd_kind n \<noteq> NSymlink)"
  by (auto simp: open_nofollow_def split: prod.splits option.splits if_splits)

text \<open>What is recorded of an accepted source.\<close>

definition source_ok :: "outbound_source \<Rightarrow> bool" where
  "source_ok s \<longleftrightarrow> nd_kind (os_file s) = NRegular \<and> nd_device (os_file s) = os_device s \<and>
     nd_inode (os_file s) = os_inode s \<and> path_file_name (os_path s) = Some (os_name s)"

lemma source_open_Inr:
  assumes "source_open path w = (Inr s, w')"
  shows "source_ok s \<and> os_path s = path \<and>
    (\<exists>v1 w1 v2 w2 v3 n. next_view w = (v1, w1) \<and> fv_lookup v1 path = Some n \<and> nd_kind n = NRegular \<and>
       next_view w1 = (v2, w2) \<and> fv_lookup v2 path = Some (os_file s) \<and>
       next_view w2 = (v3, w') \<and> os_length s = length (fv_data v3 (os_device s, os_inode s)))"
  using assms
  by (auto simp: source_open_def source_ok_def symlink_metadata_Inr open_nofollow_Inr fd_metadata_Inr
      node_metadata_def split: prod.splits sum.splits if_splits option.splits)

lemma reject_mutation_Inr:
  "reject_mutation s w = (Inr u, w') \<longleftrightarrow>
     (\<exists>v1 w1 v2 n. next_view w = (v1, w1) \<and> fv_fault v1 = None \<and> same_identity (node_metadata v1 (os_file s)) s \<and>
        next_view w1 = (v2, w') \<and> fv_fault v2 = None \<and> fv_lookup v2 (os_path s) = Some n \<and>
        nd_kind n \<noteq> NSymlink \<and> same_identity (node_metadata v2 n) s)"
  by (auto simp: reject_mutation_def symlink_metadata_def fd_metadata_def
      split: prod.splits sum.splits if_splits option.splits)

subsection \<open>Reading\<close>

text \<open>Consecutive reads with buffers of the given sizes.\<close>

fun read_sizes :: "nat list \<Rightarrow> source_reader \<Rightarrow> fs_world \<Rightarrow> (io_kind + bytes) \<times> source_reader \<times> fs_world" where
  "read_sizes [] r w = (Inr [], r, w)"
| "read_sizes (n # ns) r w =
     (case source_read n r w of
        (Inl e, r, w) \<Rightarrow> (Inl e, r, w)
      | (Inr bs, r, w) \<Rightarrow>
          (case read_sizes ns r w of
             (Inl e, r, w) \<Rightarrow> (Inl e, r, w)
           | (Inr cs, r, w) \<Rightarrow> (Inr (bs @ cs), r, w)))"

text \<open>Every coming call succeeds and sees the same content of a file.\<close>

definition steady :: "node \<Rightarrow> bytes \<Rightarrow> fs_world \<Rightarrow> bool" where
  "steady file content w \<longleftrightarrow>
     (\<forall>v \<in> set (fst w # snd w). fv_fault v = None \<and> fv_data v (nd_device file, nd_inode file) = content)"

lemma steady_next:
  "steady file content w \<Longrightarrow> next_view w = (v, w') \<Longrightarrow>
     steady file content w' \<and> fv_fault v = None \<and> fv_data v (nd_device file, nd_inode file) = content"
  by (auto simp: steady_def next_view_def split: prod.splits list.splits)

lemma source_read_steady:
  assumes "steady (sr_file r) content w" "sr_position r \<le> length content" "length content \<le> u64_max" "0 < n"
  shows "\<exists>k w'. source_read n r w = (Inr (take k (drop (sr_position r) content)), r\<lparr>sr_position := sr_position r + k\<rparr>, w') \<and>
    sr_position r + k \<le> length content \<and> (sr_position r < length content \<longrightarrow> 0 < k) \<and> steady (sr_file r) content w'"
proof -
  obtain v w' where nv: "next_view w = (v, w')" by (metis surj_pair)
  note same = steady_next [OF assms(1) nv]
  let ?l = "case fv_limit v of None \<Rightarrow> n | Some l \<Rightarrow> min n (max 1 l)"
  let ?k = "min ?l (length content - sr_position r)"
  have l: "0 < ?l" using assms(4) by (auto split: option.splits)
  have bs: "take ?l (drop (sr_position r) content) = take ?k (drop (sr_position r) content)"
    by (metis length_drop min.commute take_all_iff min_def nle_le)
  have "read_at (sr_file r) n (sr_position r) w = (Inr (take ?k (drop (sr_position r) content)), w')"
    using nv same bs by (simp add: read_at_def)
  moreover have "length (take ?k (drop (sr_position r) content)) = ?k" by simp
  moreover have "sr_position r + ?k \<le> length content" using assms(2) by simp
  ultimately have "source_read n r w =
      (Inr (take ?k (drop (sr_position r) content)), r\<lparr>sr_position := sr_position r + ?k\<rparr>, w')"
    using assms(3) by (simp add: source_read_def checked_add_u64_def)
  then show ?thesis using l same \<open>sr_position r + ?k \<le> length content\<close> by (intro exI conjI) auto
qed

lemma read_sizes_steady:
  assumes "steady (sr_file r) content w" "sr_position r \<le> length content" "length content \<le> u64_max"
    and "list_all (\<lambda>n. 0 < n) ns" "length content - sr_position r \<le> length ns"
  shows "\<exists>r' w'. read_sizes ns r w = (Inr (drop (sr_position r) content), r', w')"
  using assms
proof (induction ns arbitrary: r w)
  case Nil
  then show ?case by simp
next
  case (Cons n ns)
  obtain k w1 where step: "source_read n r w =
      (Inr (take k (drop (sr_position r) content)), r\<lparr>sr_position := sr_position r + k\<rparr>, w1)"
    and k: "sr_position r + k \<le> length content" "sr_position r < length content \<longrightarrow> 0 < k"
    and st: "steady (sr_file r) content w1"
    using source_read_steady [OF Cons.prems(1-3), of n] Cons.prems(4) by auto
  let ?r = "r\<lparr>sr_position := sr_position r + k\<rparr>"
  have "\<exists>r' w'. read_sizes ns ?r w1 = (Inr (drop (sr_position ?r) content), r', w')"
  proof (rule Cons.IH)
    show "length content - sr_position ?r \<le> length ns"
      using Cons.prems(5) k(2) by (cases "sr_position r < length content") auto
  qed (use st k Cons.prems in simp_all)
  moreover have "take k (drop (sr_position r) content) @ drop (sr_position r + k) content = drop (sr_position r) content"
    by (metis add.commute append_take_drop_id drop_drop)
  ultimately show ?case using step by auto
qed

subsection \<open>Properties\<close>

text \<open>
  A reader is handed out exactly when, at that moment, the descriptor that was opened and the path
  it was opened by still have the recorded device, inode and length and the path is no symbolic link.
  Nothing else is compared: a change of the content that keeps the length goes unnoticed.
\<close>

theorem reader_checks_identity:
  "(\<exists>r w'. source_reader_of s w = (Inr r, w')) \<longleftrightarrow>
     (\<exists>v1 w1 v2 w2 v3 w3 n. next_view w = (v1, w1) \<and> next_view w1 = (v2, w2) \<and> next_view w2 = (v3, w3) \<and>
        fv_fault v1 = None \<and> fv_fault v2 = None \<and> fv_fault v3 = None \<and>
        same_identity (node_metadata v1 (os_file s)) s \<and>
        fv_lookup v2 (os_path s) = Some n \<and> nd_kind n \<noteq> NSymlink \<and> same_identity (node_metadata v2 n) s)"
proof -
  have "(\<exists>r w'. source_reader_of s w = (Inr r, w')) \<longleftrightarrow>
      (\<exists>u w2 v3 w3. reject_mutation s w = (Inr u, w2) \<and> next_view w2 = (v3, w3) \<and> fv_fault v3 = None)"
    by (auto simp: source_reader_of_def split: prod.splits sum.splits option.splits)
  then show ?thesis unfolding reject_mutation_Inr by blast
qed

text \<open>
  An accepted source is sent whole: when a file was accepted and a reader handed out, and the
  content stays as it then was while it is read, consecutive reads with any buffer sizes, however short
  the reads are, return exactly that content, which has the length announced to the peer.
\<close>

theorem source_sent_whole:
  assumes "source_open path w = (Inr s, w1)" "source_reader_of s w2 = (Inr r, w3)"
    and "steady (os_file s) content w2" "steady (os_file s) content w3"
    and "length content \<le> u64_max" "list_all (\<lambda>n. 0 < n) ns" "length content \<le> length ns"
  shows "fst (read_sizes ns r w3) = Inr content \<and> length content = os_length s"
proof -
  have r: "r = \<lparr>sr_file = os_file s, sr_position = 0\<rparr>" and u: "\<exists>u w'. reject_mutation s w2 = (Inr u, w')"
    using assms(2) by (auto simp: source_reader_of_def split: prod.splits sum.splits option.splits)
  have ok: "source_ok s" using source_open_Inr [OF assms(1)] by simp
  obtain v1 w' where v1: "next_view w2 = (v1, w')" "same_identity (node_metadata v1 (os_file s)) s"
    using u unfolding reject_mutation_Inr by blast
  then have "length content = os_length s"
    using steady_next [OF assms(3) v1(1)] by (simp add: same_identity_def node_metadata_def)
  moreover have "\<exists>r' w'. read_sizes ns r w3 = (Inr (drop (sr_position r) content), r', w')"
    using assms(4-7) r by (intro read_sizes_steady) simp_all
  ultimately show ?thesis using r by auto
qed

subsection \<open>A concrete file\<close>

definition ex_node :: node where "ex_node = \<lparr>nd_kind = NRegular, nd_device = 1, nd_inode = 7\<rparr>"

definition ex_view :: fs_view where
  "ex_view = \<lparr>fv_lookup = \<lambda>p. if p = [47, 97] then Some ex_node else None, fv_data = \<lambda>_. [1, 2, 3], fv_fault = None,
     fv_limit = Some 2\<rparr>"

definition ex_source :: outbound_source where
  "ex_source = \<lparr>os_device = 1, os_file = ex_node, os_inode = 7, os_length = 3, os_name = [97], os_path = [47, 97]\<rparr>"

lemma ex_source_opened:
  "source_open [47, 97] (ex_view, []) = (Inr ex_source, ex_view, [])"
  "source_reader_of ex_source (ex_view, []) = (Inr \<lparr>sr_file = ex_node, sr_position = 0\<rparr>, ex_view, [])"
  "steady ex_node [1, 2, 3] (ex_view, [])"
  by (simp_all add: source_open_def symlink_metadata_def open_nofollow_def fd_metadata_def next_view_def
      node_metadata_def ex_view_def ex_node_def ex_source_def path_file_name_def path_components_def part_component_def
      source_reader_of_def reject_mutation_def same_identity_def steady_def)

theorem source_sent_whole_witness:
  "fst (read_sizes [8, 8, 8] \<lparr>sr_file = ex_node, sr_position = 0\<rparr> (ex_view, [])) = Inr [1, 2, 3] \<and>
   length [1 :: byte, 2, 3] = os_length ex_source"
proof (rule source_sent_whole [OF ex_source_opened(1,2)])
  show "steady (os_file ex_source) [1, 2, 3] (ex_view, [])" "steady (os_file ex_source) [1, 2, 3] (ex_view, [])"
    using ex_source_opened(3) by (simp_all add: ex_source_def)
qed (simp_all add: u64_max_def)

end
