(* ===== verification/Sharing_Types.thy ===== *)
theory Sharing_Types
  imports Conn_Stream
begin

text \<open>
  The vocabulary of the Sharing protocol: its errors (\<open>protocol/error.rs\<close>), the offers and
  attachment kinds (\<open>protocol/types.rs\<close>), and UTF-8 validity, which \<open>String::from_utf8\<close> checks.
\<close>

subsection \<open>Errors\<close>

datatype protocol_error =
    PConnection conn_error | PDecode | PIo io_kind | PCancelled | PInvalidAdvertisement
  | PInvalidMdnsInstance | PInvalidFrame | PInvalidOffer string | PRejected | PInvalidPayload
  | PDisconnected | PTimedOut | PUnsupported

fun reason :: "protocol_error \<Rightarrow> string" where
  "reason (PConnection source) =
     (case source of
        EIo _ \<Rightarrow> ''connection_io''
      | EWire \<Rightarrow> ''connection_wire''
      | EFrameTooLarge \<Rightarrow> ''connection_frame_too_large''
      | EUnexpectedFrame \<Rightarrow> ''connection_unexpected_frame''
      | ERejected \<Rightarrow> ''connection_rejected''
      | EHandshake \<Rightarrow> ''connection_handshake''
      | ECrypto \<Rightarrow> ''connection_crypto''
      | EInvalidPayload \<Rightarrow> ''connection_invalid_payload''
      | _ \<Rightarrow> ''connection_unknown'')"
| "reason PDecode = ''sharing_decode''"
| "reason (PIo _) = ''sharing_io''"
| "reason PCancelled = ''cancelled''"
| "reason PInvalidAdvertisement = ''invalid_advertisement''"
| "reason PInvalidMdnsInstance = ''invalid_mdns_instance''"
| "reason PInvalidFrame = ''invalid_frame''"
| "reason (PInvalidOffer _) = ''invalid_offer''"
| "reason PRejected = ''rejected''"
| "reason PInvalidPayload = ''invalid_payload''"
| "reason PDisconnected = ''disconnected''"
| "reason PTimedOut = ''timed_out''"
| "reason PUnsupported = ''unsupported''"

datatype pairing_step = SendEncryption | ReceiveEncryption | SendResult | ReceiveResult

fun as_str :: "pairing_step \<Rightarrow> string" where
  "as_str SendEncryption = ''send_encryption''"
| "as_str ReceiveEncryption = ''receive_encryption''"
| "as_str SendResult = ''send_result''"
| "as_str ReceiveResult = ''receive_result''"

record pairing_error =
  pe_step :: pairing_step
  pe_source :: protocol_error

definition pairing_error_new :: "pairing_step \<Rightarrow> protocol_error \<Rightarrow> pairing_error" where
  "pairing_error_new step source = \<lparr>pe_step = step, pe_source = source\<rparr>"

subsection \<open>Offers\<close>

datatype pairing_status = Unable

datatype offer_kind = OFile | OText | OUrl | OAndroidApp

definition persists_as_file :: "offer_kind \<Rightarrow> bool" where
  "persists_as_file k \<longleftrightarrow> k = OFile \<or> k = OAndroidApp"

record offered_file =
  fi_name :: rstring
  fi_payload_id :: int
  fi_size_bytes :: int

record incoming_offer =
  of_files :: "offered_file list"
  of_kind :: offer_kind
  of_package_name :: "rstring option"
  of_size_bytes :: int

definition offered_file_new :: "rstring \<Rightarrow> int \<Rightarrow> int \<Rightarrow> offered_file" where
  "offered_file_new name size_bytes payload_id =
     \<lparr>fi_name = name, fi_payload_id = payload_id, fi_size_bytes = size_bytes\<rparr>"

definition offer_new :: "offer_kind \<Rightarrow> rstring \<Rightarrow> int \<Rightarrow> int \<Rightarrow> incoming_offer" where
  "offer_new kind name size_bytes payload_id =
     \<lparr>of_files = [\<lparr>fi_name = name, fi_payload_id = payload_id, fi_size_bytes = size_bytes\<rparr>],
      of_kind = kind, of_package_name = None, of_size_bytes = size_bytes\<rparr>"

definition with_files :: "offer_kind \<Rightarrow> offered_file list \<Rightarrow> int \<Rightarrow> incoming_offer" where
  "with_files kind files size_bytes =
     \<lparr>of_files = files, of_kind = kind, of_package_name = None, of_size_bytes = size_bytes\<rparr>"

definition with_package_name :: "rstring \<Rightarrow> incoming_offer \<Rightarrow> incoming_offer" where
  "with_package_name package_name offer = offer\<lparr>of_package_name := Some package_name\<rparr>"

text \<open>One payload of an offer as an offer of its own.\<close>

definition offer_file :: "nat \<Rightarrow> incoming_offer \<Rightarrow> incoming_offer option" where
  "offer_file index offer =
     (if index < length (of_files offer) then
        let file = of_files offer ! index in
        Some \<lparr>of_files = [file], of_kind = of_kind offer, of_package_name = of_package_name offer,
              of_size_bytes = fi_size_bytes file\<rparr>
      else None)"

definition file_count :: "incoming_offer \<Rightarrow> nat" where
  "file_count offer = length (of_files offer)"

definition offer_name :: "incoming_offer \<Rightarrow> rstring" where
  "offer_name offer = (case of_files offer of [] \<Rightarrow> [] | f # _ \<Rightarrow> fi_name f)"

definition offer_payload_id :: "incoming_offer \<Rightarrow> int" where
  "offer_payload_id offer = (case of_files offer of [] \<Rightarrow> 0 | f # _ \<Rightarrow> fi_payload_id f)"

lemma offer_new_simps [simp]:
  "of_files (offer_new k n s i) = [\<lparr>fi_name = n, fi_payload_id = i, fi_size_bytes = s\<rparr>]"
  "of_kind (offer_new k n s i) = k" "of_size_bytes (offer_new k n s i) = s"
  "offer_name (offer_new k n s i) = n" "offer_payload_id (offer_new k n s i) = i"
  by (simp_all add: offer_new_def offer_name_def offer_payload_id_def)

subsection \<open>UTF-8\<close>

text \<open>The well-formed byte sequences of the Unicode standard, table 3-7.\<close>

definition in_range :: "nat \<Rightarrow> nat \<Rightarrow> byte \<Rightarrow> bool" where
  "in_range lo hi b \<longleftrightarrow> lo \<le> unat b \<and> unat b \<le> hi"

definition utf8_cont :: "byte \<Rightarrow> bool" where
  "utf8_cont b \<longleftrightarrow> in_range 128 191 b"

definition utf8_second :: "byte \<Rightarrow> byte \<Rightarrow> bool" where
  "utf8_second b c \<longleftrightarrow>
     (if unat b = 224 then in_range 160 191 c
      else if unat b = 237 then in_range 128 159 c
      else if unat b = 240 then in_range 144 191 c
      else if unat b = 244 then in_range 128 143 c
      else utf8_cont c)"

fun utf8_valid :: "bytes \<Rightarrow> bool" where
  "utf8_valid [] = True"
| "utf8_valid (b # r) =
     (if in_range 0 127 b then utf8_valid r
      else if in_range 194 223 b then (case r of c # r1 \<Rightarrow> utf8_cont c \<and> utf8_valid r1 | _ \<Rightarrow> False)
      else if in_range 224 239 b then
        (case r of c # d # r2 \<Rightarrow> utf8_second b c \<and> utf8_cont d \<and> utf8_valid r2 | _ \<Rightarrow> False)
      else if in_range 240 244 b then
        (case r of c # d # e # r3 \<Rightarrow> utf8_second b c \<and> utf8_cont d \<and> utf8_cont e \<and> utf8_valid r3 | _ \<Rightarrow> False)
      else False)"

lemma utf8_valid_ascii: "list_all (in_range 0 127) bs \<Longrightarrow> utf8_valid bs"
  by (induction bs) auto

text \<open>\<open>String::from_utf8\<close>.\<close>

definition from_utf8 :: "bytes \<Rightarrow> rstring option" where
  "from_utf8 bs = (if utf8_valid bs then Some bs else None)"

end
