(* ===== verification/Daemon_Config.thy ===== *)
theory Daemon_Config
  imports Storage_Staging Sharing_Types
begin

text \<open>
  The settings of the endpoint (\<open>crates/app/src/config.rs\<close>): validation of a TOML document, the
  conversion of a setting given as text, and the patch of one setting as a transaction on
  \<open>config.toml\<close>.

  A document is the list of its entries in order. Paths are the bytes of their names: turning one into
  text is the identity, as it is for every name that is valid UTF-8. The TOML parser and printer are
  parameters. The
  environment variables are parameters too, and the outcomes of the system calls are scripted.
\<close>

subsection \<open>Settings\<close>

record config =
  cf_consent_timeout_secs :: nat
  cf_device_name :: "rstring option"
  cf_discoverable :: bool
  cf_discovery_timeout_secs :: nat
  cf_pinned_peer_id :: "rstring option"
  cf_read_clipboard_on_select :: bool
  cf_receive_directory :: rstring
  cf_transfer_timeout_secs :: nat

definition DEFAULT_DISCOVERY_TIMEOUT_SECS :: nat where "DEFAULT_DISCOVERY_TIMEOUT_SECS = 15"
definition DEFAULT_CONSENT_TIMEOUT_SECS :: nat where "DEFAULT_CONSENT_TIMEOUT_SECS = 300"
definition DEFAULT_TRANSFER_TIMEOUT_SECS :: nat where "DEFAULT_TRANSFER_TIMEOUT_SECS = 120"

text \<open>The environment variables \<open>HOME\<close>, \<open>XDG_DOWNLOAD_DIR\<close> and \<open>XDG_CONFIG_HOME\<close>.\<close>

record environment =
  ev_home :: "rstring option"
  ev_download_dir :: "rstring option"
  ev_config_home :: "rstring option"

definition strip_prefix :: "rstring \<Rightarrow> rstring \<Rightarrow> rstring option" where
  "strip_prefix prefix s = (if take (length prefix) s = prefix then Some (drop (length prefix) s) else None)"

definition expand_user :: "environment \<Rightarrow> rstring \<Rightarrow> rstring" where
  "expand_user env path =
     (case ev_home env of
        None \<Rightarrow> path
      | Some home \<Rightarrow>
          if path = ascii ''~'' then home
          else case strip_prefix (ascii ''~/'') path of
            Some rest \<Rightarrow> path_join home rest
          | None \<Rightarrow> path)"

definition default_receive_directory :: "environment \<Rightarrow> rstring" where
  "default_receive_directory env =
     (case (case ev_download_dir env of None \<Rightarrow> None | Some v \<Rightarrow> if v = [] then None else Some v) of
        Some root \<Rightarrow> path_join root (ascii ''omarchy-quickshare'')
      | None \<Rightarrow> expand_user env (ascii ''~/Downloads/omarchy-quickshare''))"

definition config_default :: "environment \<Rightarrow> config" where
  "config_default env =
     \<lparr>cf_consent_timeout_secs = DEFAULT_CONSENT_TIMEOUT_SECS, cf_device_name = None, cf_discoverable = False,
      cf_discovery_timeout_secs = DEFAULT_DISCOVERY_TIMEOUT_SECS, cf_pinned_peer_id = None,
      cf_read_clipboard_on_select = False, cf_receive_directory = default_receive_directory env,
      cf_transfer_timeout_secs = DEFAULT_TRANSFER_TIMEOUT_SECS\<rparr>"

definition config_path :: "environment \<Rightarrow> io_kind + rstring" where
  "config_path env =
     (case (case ev_config_home env of
              Some root \<Rightarrow> Some root
            | None \<Rightarrow> map_option (\<lambda>home. path_join home (ascii ''.config'')) (ev_home env)) of
        None \<Rightarrow> Inl INotFound
      | Some root \<Rightarrow> Inr (path_join root (ascii ''omarchy-quickshare/config.toml'')))"

subsection \<open>Text values\<close>

text \<open>\<open>str::trim\<close>: the UTF-8 encodings of the characters with the Unicode property White_Space.\<close>

definition white_space :: "rstring list" where
  "white_space =
     map (\<lambda>b. [b]) [9, 10, 11, 12, 13, 32] @ [[194, 133], [194, 160], [225, 154, 128]] @
     map (\<lambda>b. [226, 128, b]) [128, 129, 130, 131, 132, 133, 134, 135, 136, 137, 138, 168, 169, 175] @
     [[226, 129, 159], [227, 128, 128]]"

text \<open>Strips encodings of the list from the front.\<close>

definition leading :: "rstring list \<Rightarrow> rstring \<Rightarrow> nat" where
  "leading ws s = (case filter (\<lambda>w. w \<noteq> [] \<and> take (length w) s = w) ws of [] \<Rightarrow> 0 | w # _ \<Rightarrow> length w)"

function trim_front :: "rstring list \<Rightarrow> rstring \<Rightarrow> rstring" where
  "trim_front ws s =
     (if s = [] \<or> leading ws s = 0 then s else trim_front ws (drop (leading ws s) s))"
  by pat_completeness auto
termination
  by (relation "measure (\<lambda>(ws, s). length s)") auto

declare trim_front.simps [simp del]

definition trim :: "rstring \<Rightarrow> rstring" where
  "trim s = rev (trim_front (map rev white_space) (rev (trim_front white_space s)))"

definition non_empty :: "rstring \<Rightarrow> rstring option" where
  "non_empty value = (let trimmed = trim value in if trimmed = [] then None else Some trimmed)"

definition parse_device_name :: "rstring \<Rightarrow> io_kind + rstring option" where
  "parse_device_name value =
     (let name = non_empty value
      in if (case name of None \<Rightarrow> False | Some n \<Rightarrow> length n > 255) then Inl IInvalidInput else Inr name)"

text \<open>\<open>str::parse\<close> for \<open>u64\<close> accepts one leading plus sign, for \<open>bool\<close> two words.\<close>

definition parse_u64 :: "rstring \<Rightarrow> nat option" where
  "parse_u64 value =
     (let digits = (case value of b # rest \<Rightarrow> if b = 43 then rest else value | [] \<Rightarrow> [])
      in if digits = [] \<or> \<not> list_all is_ascii_digit digits \<or> undecimal digits > u64_max then None
         else Some (undecimal digits))"

definition parse_bool :: "rstring \<Rightarrow> bool option" where
  "parse_bool value =
     (if value = ascii ''true'' then Some True else if value = ascii ''false'' then Some False else None)"

definition parse_timeout :: "rstring \<Rightarrow> io_kind + nat" where
  "parse_timeout value = (case parse_u64 value of None \<Rightarrow> Inl IInvalidInput | Some n \<Rightarrow> Inr n)"

subsection \<open>Documents\<close>

datatype toml_item = TString rstring | TInteger int | TBool bool | TOther nat

type_synonym document = "(rstring \<times> toml_item) list"

definition as_str :: "toml_item \<Rightarrow> rstring option" where
  "as_str item = (case item of TString s \<Rightarrow> Some s | _ \<Rightarrow> None)"

definition as_bool :: "toml_item \<Rightarrow> bool option" where
  "as_bool item = (case item of TBool b \<Rightarrow> Some b | _ \<Rightarrow> None)"

definition as_integer :: "toml_item \<Rightarrow> int option" where
  "as_integer item = (case item of TInteger i \<Rightarrow> Some i | _ \<Rightarrow> None)"

definition contains_key :: "rstring \<Rightarrow> document \<Rightarrow> bool" where
  "contains_key key doc \<longleftrightarrow> key \<in> fst ` set doc"

text \<open>Assignment by key replaces the entry in place or appends one.\<close>

definition set_item :: "rstring \<Rightarrow> toml_item \<Rightarrow> document \<Rightarrow> document" where
  "set_item key item doc =
     (if contains_key key doc then map (\<lambda>e. (fst e, if fst e = key then item else snd e)) doc else doc @ [(key, item)])"

definition k_device :: rstring where "k_device = ascii ''device_name''"
definition k_pinned :: rstring where "k_pinned = ascii ''pinned_peer_id''"
definition k_receive :: rstring where "k_receive = ascii ''receive_directory''"
definition k_discoverable :: rstring where "k_discoverable = ascii ''discoverable''"
definition k_clipboard :: rstring where "k_clipboard = ascii ''read_clipboard_on_select''"
definition k_consent :: rstring where "k_consent = ascii ''consent_timeout_secs''"
definition k_discovery :: rstring where "k_discovery = ascii ''discovery_timeout_secs''"
definition k_visibility :: rstring where "k_visibility = ascii ''visibility_timeout_secs''"
definition k_transfer :: rstring where "k_transfer = ascii ''transfer_timeout_secs''"

definition require :: "'a option \<Rightarrow> io_kind + 'a" where
  "require x = (case x of None \<Rightarrow> Inl IInvalidData | Some y \<Rightarrow> Inr y)"

definition document_timeout :: "toml_item \<Rightarrow> io_kind + nat" where
  "document_timeout item =
     (case as_integer item of
        None \<Rightarrow> Inl IInvalidData
      | Some i \<Rightarrow> if i < 0 then Inl IInvalidData else Inr (nat i))"

definition apply_entry :: "environment \<Rightarrow> document \<Rightarrow> rstring \<times> toml_item \<Rightarrow> config \<Rightarrow> io_kind + config" where
  "apply_entry env doc entry c =
     (case entry of (key, item) \<Rightarrow>
        if key = k_device then
          (case require (as_str item) of
             Inl e \<Rightarrow> Inl e
           | Inr s \<Rightarrow> map_sum id (\<lambda>name. c\<lparr>cf_device_name := name\<rparr>) (parse_device_name s))
        else if key = k_pinned then
          map_sum id (\<lambda>s. c\<lparr>cf_pinned_peer_id := non_empty s\<rparr>) (require (as_str item))
        else if key = k_receive then
          (case require (as_str item) of
             Inl e \<Rightarrow> Inl e
           | Inr s \<Rightarrow> if s = [] then Inl IInvalidInput else Inr (c\<lparr>cf_receive_directory := expand_user env s\<rparr>))
        else if key = k_discoverable then
          map_sum id (\<lambda>b. c\<lparr>cf_discoverable := b\<rparr>) (require (as_bool item))
        else if key = k_clipboard then
          map_sum id (\<lambda>b. c\<lparr>cf_read_clipboard_on_select := b\<rparr>) (require (as_bool item))
        else if key \<in> {k_consent, k_discovery, k_visibility, k_transfer} then
          (case document_timeout item of
             Inl e \<Rightarrow> Inl e
           | Inr n \<Rightarrow> Inr
               (if key = k_consent then c\<lparr>cf_consent_timeout_secs := n\<rparr>
                else if key = k_discovery then c\<lparr>cf_discovery_timeout_secs := n\<rparr>
                else if key = k_visibility then
                  (if contains_key k_consent doc then c else c\<lparr>cf_consent_timeout_secs := n\<rparr>)
                else c\<lparr>cf_transfer_timeout_secs := n\<rparr>))
        else Inl IInvalidInput)"

fun apply_entries :: "environment \<Rightarrow> document \<Rightarrow> document \<Rightarrow> config \<Rightarrow> io_kind + config" where
  "apply_entries env doc [] c = Inr c"
| "apply_entries env doc (entry # rest) c =
     (case apply_entry env doc entry c of Inl e \<Rightarrow> Inl e | Inr c \<Rightarrow> apply_entries env doc rest c)"

definition from_document :: "environment \<Rightarrow> document \<Rightarrow> io_kind + config" where
  "from_document env doc = apply_entries env doc doc (config_default env)"

text \<open>\<open>patch_value\<close>\<close>

definition or_empty :: "rstring option \<Rightarrow> rstring" where
  "or_empty s = (case s of None \<Rightarrow> [] | Some x \<Rightarrow> x)"

definition patch_value :: "environment \<Rightarrow> rstring \<Rightarrow> rstring \<Rightarrow> io_kind + toml_item" where
  "patch_value env key value =
     (if key = k_device then map_sum id (\<lambda>n. TString (or_empty n)) (parse_device_name value)
      else if key = k_pinned then Inr (TString (or_empty (non_empty value)))
      else if key = k_receive then Inr (TString (expand_user env value))
      else if key \<in> {k_discoverable, k_clipboard} then
        (case parse_bool value of None \<Rightarrow> Inl IInvalidInput | Some b \<Rightarrow> Inr (TBool b))
      else if key \<in> {k_consent, k_discovery, k_transfer} then
        (case parse_timeout value of
           Inl e \<Rightarrow> Inl e
         | Inr n \<Rightarrow> (case i64_of_u64 n of None \<Rightarrow> Inl IInvalidInput | Some i \<Rightarrow> Inr (TInteger i)))
      else Inl IInvalidInput)"

text \<open>\<open>to_toml\<close>, as the entries it renders.\<close>

definition to_toml :: "config \<Rightarrow> document" where
  "to_toml c =
     [(k_consent, TInteger (int (cf_consent_timeout_secs c))), (k_discoverable, TBool (cf_discoverable c)),
      (k_clipboard, TBool (cf_read_clipboard_on_select c)),
      (k_discovery, TInteger (int (cf_discovery_timeout_secs c))),
      (k_receive, TString (cf_receive_directory c)), (k_transfer, TInteger (int (cf_transfer_timeout_secs c)))] @
     (case cf_device_name c of None \<Rightarrow> [] | Some n \<Rightarrow> [(k_device, TString n)]) @
     (case cf_pinned_peer_id c of None \<Rightarrow> [] | Some i \<Rightarrow> [(k_pinned, TString i)])"

subsection \<open>The file\<close>

text \<open>
  \<open>config.toml\<close> and the temporary files beside it. Before each call an editor may have replaced the
  document, and each call may fail.
\<close>

record config_files =
  cs_body :: "bytes option"
  cs_temporaries :: "rstring list"
  cs_edits :: "bytes option option list"
  cs_faults :: "io_kind option list"
  cs_serial :: nat
  cs_pid :: nat

definition edited :: "config_files \<Rightarrow> config_files" where
  "edited c =
     (case cs_edits c of
        [] \<Rightarrow> c
      | None # es \<Rightarrow> c\<lparr>cs_edits := es\<rparr>
      | Some body # es \<Rightarrow> c\<lparr>cs_edits := es, cs_body := body\<rparr>)"

definition file_call :: "config_files \<Rightarrow> io_kind option \<times> config_files" where
  "file_call c =
     (case cs_faults c of [] \<Rightarrow> (None, edited c) | f # fs \<Rightarrow> (f, edited (c\<lparr>cs_faults := fs\<rparr>)))"

definition read_document :: "config_files \<Rightarrow> (io_kind + bytes option) \<times> config_files" where
  "read_document c =
     (case file_call c of
        (Some e, c) \<Rightarrow> (if e = INotFound then Inr None else Inl e, c)
      | (None, c) \<Rightarrow>
          (case cs_body c of
             None \<Rightarrow> Inr None
           | Some body \<Rightarrow> if utf8_valid body then Inr (Some body) else Inl IInvalidData, c))"

definition parse_document :: "(bytes \<Rightarrow> document option) \<Rightarrow> bytes \<Rightarrow> io_kind + document" where
  "parse_document parse body = require (parse body)"

definition config_load :: "(bytes \<Rightarrow> document option) \<Rightarrow> environment \<Rightarrow> config_files \<Rightarrow> (io_kind + config) \<times> config_files" where
  "config_load parse env c =
     (case config_path env of
        Inl e \<Rightarrow> (Inl e, c)
      | Inr _ \<Rightarrow>
          (case read_document c of
             (Inl e, c) \<Rightarrow> (Inl e, c)
           | (Inr original, c) \<Rightarrow>
               (case parse_document parse (case original of None \<Rightarrow> [] | Some b \<Rightarrow> b) of
                  Inl e \<Rightarrow> (Inl e, c)
                | Inr doc \<Rightarrow> (from_document env doc, c))))"

text \<open>The document that a patch writes, and the settings it stands for.\<close>

definition patched :: "environment \<Rightarrow> rstring \<Rightarrow> rstring \<Rightarrow> document \<Rightarrow> io_kind + document \<times> config" where
  "patched env key value doc =
     (case from_document env doc of
        Inl e \<Rightarrow> Inl e
      | Inr current \<Rightarrow>
          (case (if contains_key k_consent doc then Inr doc
                 else case i64_of_u64 (cf_consent_timeout_secs current) of
                   None \<Rightarrow> Inl IInvalidData
                 | Some consent \<Rightarrow> Inr (set_item k_consent (TInteger consent) doc)) of
             Inl e \<Rightarrow> Inl e
           | Inr doc \<Rightarrow>
               (case patch_value env key value of
                  Inl e \<Rightarrow> Inl e
                | Inr replacement \<Rightarrow>
                    let doc = set_item key replacement doc
                    in map_sum id (\<lambda>candidate. (doc, candidate)) (from_document env doc))))"

definition temporary_name :: "nat \<Rightarrow> nat \<Rightarrow> rstring" where
  "temporary_name pid serial = ascii ''.config-'' @ decimal pid @ [45] @ decimal serial @ ascii ''.tmp''"

text \<open>
  The loop skips the names that are taken, which the script reports; each report takes an outcome off
  the script.
\<close>

function create_temporary :: "config_files \<Rightarrow> (io_kind + rstring) \<times> config_files" where
  "create_temporary c =
     (let name = temporary_name (cs_pid c) (cs_serial c)
      in case file_call (c\<lparr>cs_serial := Suc (cs_serial c) mod (u64_max + 1)\<rparr>) of
           (Some e, c1) \<Rightarrow>
             if e = IAlreadyExists \<and> length (cs_faults c1) < length (cs_faults c) then create_temporary c1
             else (Inl e, c1)
         | (None, c1) \<Rightarrow> (Inr name, c1\<lparr>cs_temporaries := name # cs_temporaries c1\<rparr>))"
  by pat_completeness auto
termination
  by (relation "measure (\<lambda>c. length (cs_faults c))") auto

declare create_temporary.simps [simp del]

text \<open>Writing, synchronising, the check for a concurrent edit, and the replacement.\<close>

definition replace_document ::
  "bytes \<Rightarrow> bytes option \<Rightarrow> rstring \<Rightarrow> config_files \<Rightarrow> (io_kind + unit) \<times> config_files" where
  "replace_document text original temporary c =
     (case file_call c of
        (Some e, c) \<Rightarrow> (Inl e, c)
      | (None, c) \<Rightarrow>
          (case file_call c of
             (Some e, c) \<Rightarrow> (Inl e, c)
           | (None, c) \<Rightarrow>
               (case read_document c of
                  (Inl e, c) \<Rightarrow> (Inl e, c)
                | (Inr now, c) \<Rightarrow>
                    if now \<noteq> original then (Inl IWouldBlock, c)
                    else case file_call c of
                      (Some e, c) \<Rightarrow> (Inl e, c)
                    | (None, c) \<Rightarrow> (Inr (), c\<lparr>cs_body := Some text, cs_temporaries := removeAll temporary (cs_temporaries c)\<rparr>))))"

definition remove_temporary :: "rstring \<Rightarrow> config_files \<Rightarrow> config_files" where
  "remove_temporary temporary c =
     (case file_call c of
        (Some e, c) \<Rightarrow> c
      | (None, c) \<Rightarrow> c\<lparr>cs_temporaries := removeAll temporary (cs_temporaries c)\<rparr>)"

text \<open>The directory, the lock file and the lock come first.\<close>

fun file_calls :: "nat \<Rightarrow> config_files \<Rightarrow> io_kind option \<times> config_files" where
  "file_calls 0 c = (None, c)"
| "file_calls (Suc n) c = (case file_call c of (Some e, c) \<Rightarrow> (Some e, c) | (None, c) \<Rightarrow> file_calls n c)"

definition config_patch ::
  "(bytes \<Rightarrow> document option) \<Rightarrow> (document \<Rightarrow> bytes) \<Rightarrow> environment \<Rightarrow> rstring \<Rightarrow> rstring \<Rightarrow> config_files \<Rightarrow>
     (io_kind + config) \<times> config_files" where
  "config_patch parse print env key value c =
     (case config_path env of
        Inl e \<Rightarrow> (Inl e, c)
      | Inr _ \<Rightarrow>
          (case file_calls 3 c of
             (Some e, c) \<Rightarrow> (Inl e, c)
           | (None, c) \<Rightarrow>
               (case read_document c of
                  (Inl e, c) \<Rightarrow> (Inl e, c)
                | (Inr original, c) \<Rightarrow>
                    (case parse_document parse (case original of None \<Rightarrow> [] | Some b \<Rightarrow> b) of
                       Inl e \<Rightarrow> (Inl e, c)
                     | Inr doc \<Rightarrow>
                         (case patched env key value doc of
                            Inl e \<Rightarrow> (Inl e, c)
                          | Inr (doc, candidate) \<Rightarrow>
                              (case create_temporary c of
                                 (Inl e, c) \<Rightarrow> (Inl e, c)
                               | (Inr temporary, c) \<Rightarrow>
                                   (case replace_document (print doc) original temporary c of
                                      (Inl e, c) \<Rightarrow> (Inl e, remove_temporary temporary c)
                                    | (Inr _, c) \<Rightarrow> (Inr candidate, c))))))))"

subsection \<open>Keys and entries\<close>

lemmas key_defs = k_device_def k_pinned_def k_receive_def k_discoverable_def k_clipboard_def k_consent_def
  k_discovery_def k_visibility_def k_transfer_def

lemma keys_distinct:
  "distinct [k_device, k_pinned, k_receive, k_discoverable, k_clipboard, k_consent, k_discovery, k_visibility, k_transfer]"
  "distinct [k_transfer, k_visibility, k_discovery, k_consent, k_clipboard, k_discoverable, k_receive, k_pinned, k_device]"
  by (simp_all add: key_defs ascii_def)

lemmas keys_differ [simp] = keys_distinct [simplified]

lemma replaced_keys: "map fst (map (\<lambda>e. (fst e, if fst e = key then item else snd e)) doc) = map fst doc"
  by (induction doc) simp_all

lemma map_of_replaced:
  "map_of (map (\<lambda>e. (fst e, if fst e = key then item else snd e)) doc) k =
     (if k = key \<and> key \<in> fst ` set doc then Some item else map_of doc k)"
  by (induction doc) (cases "k = key"; simp)+

lemma map_of_set_item: "map_of (set_item key item doc) = (map_of doc)(key \<mapsto> item)"
proof (rule ext)
  fix k
  show "map_of (set_item key item doc) k = ((map_of doc)(key \<mapsto> item)) k"
  proof (cases "contains_key key doc")
    case True
    then show ?thesis unfolding set_item_def using map_of_replaced [of key item doc k] by (simp add: contains_key_def)
  next
    case False
    then have "map_of doc key = None" by (simp add: contains_key_def map_of_eq_None_iff)
    then show ?thesis using False by (simp add: set_item_def map_add_def split: option.splits)
  qed
qed

lemma set_item_keys: "map fst (set_item key item doc) = (if contains_key key doc then map fst doc else map fst doc @ [key])"
  unfolding set_item_def using replaced_keys [of key item doc] by (simp del: map_map)

lemma set_item_distinct: "distinct (map fst doc) \<Longrightarrow> distinct (map fst (set_item key item doc))"
  unfolding set_item_keys by (simp add: contains_key_def)

lemma contains_key_set_item: "contains_key k (set_item key item doc) \<longleftrightarrow> k = key \<or> contains_key k doc"
proof -
  have keys: "contains_key k d \<longleftrightarrow> k \<in> set (map fst d)" for d by (simp add: contains_key_def)
  show ?thesis unfolding keys set_item_keys by (auto simp: contains_key_def)
qed

definition setting :: "(toml_item \<Rightarrow> 'a option) \<Rightarrow> toml_item option \<Rightarrow> 'a \<Rightarrow> 'a" where
  "setting get x d = (case Option.bind x get of None \<Rightarrow> d | Some v \<Rightarrow> v)"

lemma setting_None [simp]: "setting get None d = d"
  by (simp add: setting_def)

lemma setting_Some: "setting get (Some item) d = (case get item of None \<Rightarrow> d | Some v \<Rightarrow> v)"
  by (simp add: setting_def)

definition as_timeout :: "toml_item \<Rightarrow> nat option" where
  "as_timeout item = map_option nat (as_integer item)"

text \<open>The settings a document with the entries \<open>m\<close> stands for, over the settings \<open>c\<close>.\<close>

definition reading :: "environment \<Rightarrow> bool \<Rightarrow> (rstring \<Rightarrow> toml_item option) \<Rightarrow> config \<Rightarrow> config" where
  "reading env explicit m c =
     \<lparr>cf_consent_timeout_secs = setting as_timeout (m k_consent)
        (if explicit then cf_consent_timeout_secs c else setting as_timeout (m k_visibility) (cf_consent_timeout_secs c)),
      cf_device_name = setting (map_option non_empty \<circ> as_str) (m k_device) (cf_device_name c),
      cf_discoverable = setting as_bool (m k_discoverable) (cf_discoverable c),
      cf_discovery_timeout_secs = setting as_timeout (m k_discovery) (cf_discovery_timeout_secs c),
      cf_pinned_peer_id = setting (map_option non_empty \<circ> as_str) (m k_pinned) (cf_pinned_peer_id c),
      cf_read_clipboard_on_select = setting as_bool (m k_clipboard) (cf_read_clipboard_on_select c),
      cf_receive_directory = setting (map_option (expand_user env) \<circ> as_str) (m k_receive) (cf_receive_directory c),
      cf_transfer_timeout_secs = setting as_timeout (m k_transfer) (cf_transfer_timeout_secs c)\<rparr>"

lemma reading_empty [simp]: "reading env x (\<lambda>_. None) c = c"
  by (simp add: reading_def)

lemma apply_entry_reading:
  assumes "apply_entry env doc (key, item) c = Inr c'" "m key = None" "key = k_consent \<Longrightarrow> contains_key k_consent doc"
  shows "reading env (contains_key k_consent doc) m c' = reading env (contains_key k_consent doc) (m(key \<mapsto> item)) c"
proof -
  consider "key = k_device" | "key = k_pinned" | "key = k_receive" | "key = k_discoverable" | "key = k_clipboard"
    | "key = k_consent" | "key = k_discovery" | "key = k_visibility" | "key = k_transfer"
    using assms(1) by (auto simp: apply_entry_def split: if_splits)
  then show ?thesis
    by cases (use assms in \<open>cases item;
        auto simp: apply_entry_def as_str_def as_bool_def as_integer_def as_timeout_def require_def document_timeout_def
          parse_device_name_def Let_def reading_def setting_Some split: if_splits\<close>)+
qed

lemma apply_entries_reading:
  assumes "apply_entries env doc es c = Inr c'" "distinct (map fst es)" "set es \<subseteq> set doc"
  shows "c' = reading env (contains_key k_consent doc) (map_of es) c"
  using assms
proof (induction es arbitrary: c)
  case Nil
  then show ?case by simp
next
  case (Cons e es)
  obtain key item where e: "e = (key, item)" by fastforce
  obtain c1 where c1: "apply_entry env doc (key, item) c = Inr c1" "apply_entries env doc es c1 = Inr c'"
    using Cons.prems(1) e by (auto split: sum.splits)
  have "map_of es key = None" using Cons.prems(2) e by (simp add: map_of_eq_None_iff)
  moreover have "key = k_consent \<Longrightarrow> contains_key k_consent doc"
    using Cons.prems(3) e by (force simp: contains_key_def)
  ultimately have "reading env (contains_key k_consent doc) (map_of es) c1 =
      reading env (contains_key k_consent doc) (map_of (e # es)) c"
    using apply_entry_reading [OF c1(1)] e by (simp only: map_of.simps fst_conv snd_conv)
  moreover have "c' = reading env (contains_key k_consent doc) (map_of es) c1"
    using Cons.IH [OF c1(2)] Cons.prems(2,3) by simp
  ultimately show ?case by (simp only:)
qed

lemma from_document_reading:
  "from_document env doc = Inr c \<Longrightarrow> distinct (map fst doc) \<Longrightarrow>
     c = reading env (contains_key k_consent doc) (map_of doc) (config_default env)"
  unfolding from_document_def by (rule apply_entries_reading) simp_all

subsection \<open>Trimming\<close>

lemma leading_zero: "leading ws s = 0 \<longleftrightarrow> (\<forall>w \<in> set ws. w = [] \<or> take (length w) s \<noteq> w)"
proof (cases "filter (\<lambda>w. w \<noteq> [] \<and> take (length w) s = w) ws")
  case Nil
  then show ?thesis by (auto simp: leading_def filter_empty_conv)
next
  case (Cons w rest)
  then have "w \<in> set (filter (\<lambda>w. w \<noteq> [] \<and> take (length w) s = w) ws)" by simp
  then have "w \<in> set ws" "w \<noteq> []" "take (length w) s = w" by simp_all
  then show ?thesis using Cons by (auto simp: leading_def)
qed

lemma trim_front_stops: "trim_front ws s = [] \<or> leading ws (trim_front ws s) = 0"
  by (induction ws s rule: trim_front.induct) (subst (1 2) trim_front.simps, simp)

lemma trim_front_suffix: "\<exists>n. trim_front ws s = drop n s"
proof (induction ws s rule: trim_front.induct)
  case (1 ws s)
  show ?case
  proof (cases "s = [] \<or> leading ws s = 0")
    case True
    then show ?thesis by (subst trim_front.simps) (auto intro: exI [of _ 0])
  next
    case False
    then obtain n where "trim_front ws (drop (leading ws s) s) = drop n (drop (leading ws s) s)"
      using "1.IH" [OF False] by (elim exE)
    then show ?thesis using False by (subst trim_front.simps) (auto intro: exI [of _ "n + leading ws s"])
  qed
qed

lemma trim_front_fixed: "leading ws s = 0 \<Longrightarrow> trim_front ws s = s"
  by (subst trim_front.simps) simp

lemma leading_take: "leading ws s = 0 \<Longrightarrow> leading ws (take n s) = 0"
  unfolding leading_zero by (metis length_take min.absorb2 min.cobounded2 take_take linear take_all)

lemma trim_idem: "trim (trim s) = trim s"
proof -
  let ?front = "trim_front white_space s"
  let ?ws = "map rev white_space"
  obtain n where n: "trim_front ?ws (rev ?front) = drop n (rev ?front)" using trim_front_suffix by blast
  then have t: "trim s = take (length ?front - n) ?front" by (simp add: trim_def rev_drop)
  have "trim s = [] \<or> leading white_space (trim s) = 0"
    using trim_front_stops [of white_space s] leading_take t by (cases "?front = []") auto
  then have front: "trim_front white_space (trim s) = trim s"
    using trim_front_fixed by (cases "trim s = []") (auto simp: trim_front.simps [of _ "[]"])
  have "rev (trim s) = trim_front ?ws (rev ?front)" by (simp add: trim_def)
  then have "rev (trim s) = [] \<or> leading ?ws (rev (trim s)) = 0" using trim_front_stops by metis
  then have "trim_front ?ws (rev (trim s)) = rev (trim s)"
    using trim_front_fixed by (cases "rev (trim s) = []") (auto simp: trim_front.simps [of _ "[]"])
  then show ?thesis unfolding trim_def [of "trim s"] front by simp
qed

lemma trim_nil: "trim [] = []"
  by (simp add: trim_def trim_front.simps [of _ "[]"])

lemma non_empty_or_empty: "non_empty (or_empty (non_empty v)) = non_empty v"
  by (simp add: non_empty_def or_empty_def Let_def trim_idem trim_nil)

subsection \<open>Patching one setting\<close>

text \<open>The settings after one of them was set from a text.\<close>

definition updated :: "environment \<Rightarrow> rstring \<Rightarrow> rstring \<Rightarrow> config \<Rightarrow> config" where
  "updated env key value c =
     (if key = k_device then c\<lparr>cf_device_name := non_empty value\<rparr>
      else if key = k_pinned then c\<lparr>cf_pinned_peer_id := non_empty value\<rparr>
      else if key = k_receive then c\<lparr>cf_receive_directory := expand_user env (expand_user env value)\<rparr>
      else if key = k_discoverable then c\<lparr>cf_discoverable := parse_bool value = Some True\<rparr>
      else if key = k_clipboard then c\<lparr>cf_read_clipboard_on_select := parse_bool value = Some True\<rparr>
      else if key = k_consent then c\<lparr>cf_consent_timeout_secs := the (parse_u64 value)\<rparr>
      else if key = k_discovery then c\<lparr>cf_discovery_timeout_secs := the (parse_u64 value)\<rparr>
      else c\<lparr>cf_transfer_timeout_secs := the (parse_u64 value)\<rparr>)"

lemma patch_value_timeout:
  "key = k_consent \<or> key = k_discovery \<or> key = k_transfer \<Longrightarrow> patch_value env key value = Inr item \<Longrightarrow>
     item = TInteger (int (the (parse_u64 value)))"
  by (auto simp: patch_value_def parse_timeout_def i64_of_u64_def split: option.splits if_splits)

lemma patch_value_bool:
  "key = k_discoverable \<or> key = k_clipboard \<Longrightarrow> patch_value env key value = Inr item \<Longrightarrow>
     item = TBool (parse_bool value = Some True)"
  by (auto simp: patch_value_def split: option.splits)

lemma patch_value_key:
  "patch_value env key value = Inr item \<Longrightarrow>
     key \<in> {k_device, k_pinned, k_receive, k_discoverable, k_clipboard, k_consent, k_discovery, k_transfer}"
  by (auto simp: patch_value_def split: if_splits)

lemma updated_reading:
  assumes "patch_value env key value = Inr item" "m k_consent \<noteq> None"
  shows "reading env True (m(key \<mapsto> item)) c = updated env key value (reading env True m c)"
proof -
  consider "key = k_device" | "key = k_pinned" | "key = k_receive" | "key = k_discoverable" | "key = k_clipboard"
    | "key = k_consent" | "key = k_discovery" | "key = k_transfer"
    using patch_value_key [OF assms(1)] by auto
  then show ?thesis
  proof cases
    case 1
    then have "item = TString (or_empty (non_empty value))"
      using assms(1) by (auto simp: patch_value_def parse_device_name_def Let_def split: if_splits)
    then show ?thesis using 1 by (simp add: reading_def updated_def setting_Some as_str_def non_empty_or_empty)
  next
    case 2
    then have "item = TString (or_empty (non_empty value))" using assms(1) by (simp add: patch_value_def)
    then show ?thesis using 2 by (simp add: reading_def updated_def setting_Some as_str_def non_empty_or_empty)
  next
    case 3
    then have "item = TString (expand_user env value)" using assms(1) by (simp add: patch_value_def)
    then show ?thesis using 3 by (simp add: reading_def updated_def setting_Some as_str_def)
  qed (use assms patch_value_bool [OF _ assms(1)] patch_value_timeout [OF _ assms(1)] in
      \<open>simp add: reading_def updated_def setting_Some as_bool_def as_timeout_def as_integer_def\<close>)+
qed

lemma explicit_reading:
  "m k_consent = Some (TInteger i) \<Longrightarrow> reading env x m c = reading env True m c"
  by (simp add: reading_def setting_Some as_timeout_def as_integer_def)

lemma map_sum_Inr: "map_sum f g x = Inr y \<longleftrightarrow> (\<exists>z. x = Inr z \<and> y = g z)"
  by (cases x) auto

lemma patched_updates:
  assumes "patched env key value doc = Inr (doc', cfg)" "distinct (map fst doc)"
  shows "from_document env doc' = Inr cfg \<and> distinct (map fst doc') \<and>
    (\<exists>current. from_document env doc = Inr current \<and> cfg = updated env key value current)"
proof -
  obtain current where cur: "from_document env doc = Inr current"
    using assms(1) by (auto simp: patched_def split: sum.splits)
  obtain doc1 item where doc1: "doc1 = (if contains_key k_consent doc then doc
      else set_item k_consent (TInteger (int (cf_consent_timeout_secs current))) doc)"
    and item: "patch_value env key value = Inr item" and doc': "doc' = set_item key item doc1"
    and cfg: "from_document env doc' = Inr cfg"
    using assms(1) cur
    by (auto simp: patched_def i64_of_u64_def Let_def map_sum_Inr split: sum.splits if_splits option.splits)
  have dist: "distinct (map fst doc1)" "distinct (map fst doc')"
    using assms(2) set_item_distinct unfolding doc' doc1 by auto
  note reads = from_document_reading [OF cur assms(2)] from_document_reading [OF cfg dist(2)]
  have has: "contains_key k_consent doc1" "contains_key k_consent doc'"
    unfolding doc' doc1 by (simp_all add: contains_key_set_item)
  have "reading env True (map_of doc1) (config_default env) = current"
  proof (cases "contains_key k_consent doc")
    case True
    then show ?thesis using reads(1) doc1 by simp
  next
    case False
    then have none: "map_of doc k_consent = None" by (simp add: contains_key_def map_of_eq_None_iff)
    have d1: "map_of doc1 = (map_of doc)(k_consent \<mapsto> TInteger (int (cf_consent_timeout_secs current)))"
      using False doc1 by (simp add: map_of_set_item)
    have "reading env True (map_of doc1) (config_default env) =
        (reading env False (map_of doc) (config_default env))
          \<lparr>cf_consent_timeout_secs := cf_consent_timeout_secs current\<rparr>"
      unfolding d1 by (simp add: reading_def setting_Some as_timeout_def as_integer_def none)
    then show ?thesis using reads(1) False by simp
  qed
  moreover have "map_of doc1 k_consent \<noteq> None"
    using has(1) by (simp add: contains_key_def map_of_eq_None_iff)
  moreover have "cfg = reading env True ((map_of doc1)(key \<mapsto> item)) (config_default env)"
    using reads(2) has(2) doc' by (simp add: map_of_set_item)
  ultimately show ?thesis using updated_reading [OF item] cfg dist cur by auto
qed

subsection \<open>The transaction\<close>

text \<open>
  The document the editors have made by the \<open>n\<close>th file call from a state on, and the states that file
  calls lead to while nobody but the editors changes the document.
\<close>

definition document_at :: "config_files \<Rightarrow> nat \<Rightarrow> bytes option" where
  "document_at c n = fold (\<lambda>e body. case e of None \<Rightarrow> body | Some b \<Rightarrow> b) (take n (cs_edits c)) (cs_body c)"

definition after_calls :: "nat \<Rightarrow> config_files \<Rightarrow> config_files \<Rightarrow> bool" where
  "after_calls n c c' \<longleftrightarrow> cs_edits c' = drop n (cs_edits c) \<and> cs_body c' = document_at c n \<and>
     set (cs_faults c') \<subseteq> set (cs_faults c)"

definition by_editors :: "config_files \<Rightarrow> config_files \<Rightarrow> bool" where
  "by_editors c c' \<longleftrightarrow> (\<exists>n. after_calls n c c')"

text \<open>A read that is the \<open>n\<close>th call returns that document, or none when the system reports its absence.\<close>

definition found_at :: "config_files \<Rightarrow> nat \<Rightarrow> bytes option \<Rightarrow> bool" where
  "found_at c n body \<longleftrightarrow> body = document_at c n \<or> body = None \<and> Some INotFound \<in> set (cs_faults c)"

lemma after_calls_refl: "after_calls 0 c c"
  by (simp add: after_calls_def document_at_def)

lemma document_at_add: "after_calls m c c1 \<Longrightarrow> document_at c1 n = document_at c (m + n)"
  by (simp add: after_calls_def document_at_def take_add)

lemma after_calls_trans:
  assumes "after_calls m a b" "after_calls n b c"
  shows "after_calls (m + n) a c"
  using assms document_at_add [OF assms(1), of n] by (auto simp: after_calls_def add.commute)

lemma found_at_add: "after_calls m c c1 \<Longrightarrow> found_at c1 n body \<Longrightarrow> found_at c (m + n) body"
  using document_at_add [of m c c1 n] by (auto simp: found_at_def after_calls_def)

lemma by_editorsI: "after_calls n c c' \<Longrightarrow> by_editors c c'"
  by (auto simp: by_editors_def)

lemma by_editors_refl [simp]: "by_editors c c"
  using after_calls_refl by (rule by_editorsI)

lemma by_editors_trans: "by_editors a b \<Longrightarrow> by_editors b c \<Longrightarrow> by_editors a c"
  unfolding by_editors_def using after_calls_trans by blast

lemma file_call_once: "file_call c = (f, c') \<Longrightarrow> after_calls 1 c c'"
  by (auto simp: file_call_def edited_def after_calls_def document_at_def split: list.splits option.splits)

lemmas file_call_editors = by_editorsI [OF file_call_once]

lemma file_calls_once: "file_calls n c = (None, c') \<Longrightarrow> after_calls n c c'"
proof (induction n arbitrary: c)
  case (Suc n)
  obtain g c1 where call: "file_call c = (g, c1)" by fastforce
  then have "file_calls n c1 = (None, c')" using Suc.prems by (cases g) auto
  from after_calls_trans [OF file_call_once [OF call] Suc.IH [OF this]] show ?case by simp
qed (simp add: after_calls_refl)

lemma file_calls_editors: "file_calls n c = (f, c') \<Longrightarrow> by_editors c c'"
proof (induction n arbitrary: c)
  case (Suc n)
  obtain g c1 where call: "file_call c = (g, c1)" by fastforce
  show ?case
    using Suc call file_call_editors [OF call] by_editors_trans [of c c1 c'] by (cases g) auto
qed simp

lemma read_document_once:
  assumes "read_document c = (r, c')"
  shows "after_calls 1 c c'" "r = Inr body \<Longrightarrow> found_at c 1 body"
proof -
  obtain f c1 where call: "file_call c = (f, c1)" by fastforce
  then have "c' = c1" using assms by (auto simp: read_document_def split: option.splits)
  then show once: "after_calls 1 c c'" using file_call_once [OF call] by simp
  have "Some INotFound \<in> set (cs_faults c)" if "f = Some INotFound"
    using call that by (auto simp: file_call_def split: list.splits)
  then show "found_at c 1 body" if "r = Inr body"
    using that assms call once
    by (auto simp: read_document_def found_at_def after_calls_def split: option.splits if_splits)
qed

lemmas read_document_editors = by_editorsI [OF read_document_once(1)]

lemma by_editors_fields [simp]:
  "by_editors (c\<lparr>cs_serial := n\<rparr>) c' = by_editors c c'" "by_editors c (c'\<lparr>cs_temporaries := ts\<rparr>) = by_editors c c'"
  by (simp_all add: by_editors_def after_calls_def document_at_def)

lemma create_temporary_editors: "create_temporary c = (r, c') \<Longrightarrow> by_editors c c'"
proof (induction c rule: create_temporary.induct)
  case (1 c)
  let ?c = "c\<lparr>cs_serial := Suc (cs_serial c) mod (u64_max + 1)\<rparr>"
  obtain f c1 where call: "file_call ?c = (f, c1)" by fastforce
  have c1: "by_editors c c1" using file_call_editors [OF call] by (simp add: by_editors_fields)
  show ?case
  proof (cases f)
    case None
    then show ?thesis
      using "1.prems" call c1 by (subst (asm) create_temporary.simps) (auto simp: Let_def by_editors_fields)
  next
    case (Some e)
    show ?thesis
    proof (cases "e = IAlreadyExists \<and> length (cs_faults c1) < length (cs_faults c)")
      case True
      then have "create_temporary c1 = (r, c')"
        using "1.prems" call Some by (subst (asm) create_temporary.simps) (simp add: Let_def)
      then show ?thesis
        using "1.IH" [OF refl call [symmetric] Some True] by_editors_trans [OF c1] by blast
    next
      case False
      then show ?thesis
        using "1.prems" call Some c1 by (subst (asm) create_temporary.simps) (auto simp: Let_def split: if_splits)
    qed
  qed
qed

lemma replace_document_effect:
  assumes "replace_document text original temporary c = (r, c')"
  shows "case r of Inl e \<Rightarrow> by_editors c c'
    | Inr _ \<Rightarrow> cs_body c' = Some text \<and> found_at c 3 original \<and> cs_edits c' = drop 4 (cs_edits c)"
proof -
  obtain f1 c1 where c1: "file_call c = (f1, c1)" by fastforce
  obtain f2 c2 where c2: "file_call c1 = (f2, c2)" by fastforce
  obtain rd c3 where c3: "read_document c2 = (rd, c3)" by fastforce
  obtain f4 c4 where c4: "file_call c3 = (f4, c4)" by fastforce
  have a2: "after_calls 2 c c2" using after_calls_trans [OF file_call_once [OF c1] file_call_once [OF c2]] by (simp add: numeral_2_eq_2)
  have a3: "after_calls 3 c c3" using after_calls_trans [OF a2 read_document_once(1) [OF c3]] by simp
  have a4: "after_calls 4 c c4" using after_calls_trans [OF a3 file_call_once [OF c4]] by simp
  have rd: "found_at c 3 body" if "rd = Inr body" for body
    using found_at_add [OF a2 read_document_once(2) [OF c3 that]] by simp
  have edits: "cs_edits c4 = drop 4 (cs_edits c)" using a4 by (simp add: after_calls_def)
  show ?thesis
    using assms c1 c2 c3 c4 file_call_editors [OF c1] by_editorsI [OF a2] by_editorsI [OF a3] by_editorsI [OF a4] rd edits
    by (auto simp: replace_document_def split: option.splits sum.splits if_splits)
qed

lemma remove_temporary_editors: "by_editors c (remove_temporary temporary c)"
proof -
  obtain f c1 where c1: "file_call c = (f, c1)" by fastforce
  then show ?thesis
    using file_call_editors [OF c1] by (auto simp: remove_temporary_def split: option.splits)
qed

definition body_text :: "bytes option \<Rightarrow> bytes" where
  "body_text body = (case body of None \<Rightarrow> [] | Some b \<Rightarrow> b)"

lemma config_patch_effect:
  assumes "config_patch parse print env key value c = (r, c')"
  shows "(\<exists>e. r = Inl e) \<and> by_editors c c' \<or>
    (\<exists>n original doc doc' cfg. r = Inr cfg \<and> found_at c 4 original \<and> 4 < n \<and> found_at c n original \<and>
       cs_edits c' = drop (Suc n) (cs_edits c) \<and> parse (body_text original) = Some doc \<and>
       patched env key value doc = Inr (doc', cfg) \<and> cs_body c' = Some (print doc'))"
proof (cases "config_path env")
  case (Inl e)
  then show ?thesis using assms by (auto simp: config_patch_def)
next
  case path: (Inr p)
  obtain f c1 where c1: "file_calls 3 c = (f, c1)" by fastforce
  note e1 = file_calls_editors [OF c1]
  obtain rd c2 where c2: "read_document c1 = (rd, c2)" by fastforce
  note e2 = by_editors_trans [OF e1 read_document_editors [OF c2]]
  show ?thesis
  proof (cases "f = None \<and> (\<exists>original doc doc' cfg. rd = Inr original \<and> parse (body_text original) = Some doc \<and>
      patched env key value doc = Inr (doc', cfg))")
    case False
    then have "(\<exists>e. r = Inl e) \<and> (c' = c1 \<or> c' = c2)"
      using assms path c1 c2
      by (auto simp: config_patch_def parse_document_def require_def body_text_def
          split: option.splits sum.splits prod.splits)
    then show ?thesis using e1 e2 by auto
  next
    case True
    then obtain original doc doc' cfg where ok: "f = None" "rd = Inr original" "parse (body_text original) = Some doc"
      "patched env key value doc = Inr (doc', cfg)" by blast
    obtain t c3 where c3: "create_temporary c2 = (t, c3)" by fastforce
    note e3 = by_editors_trans [OF e2 create_temporary_editors [OF c3]]
    have a1: "after_calls 3 c c1" using c1 ok(1) file_calls_once by blast
    have a2: "after_calls 4 c c2" using after_calls_trans [OF a1 read_document_once(1) [OF c2]] by simp
    have seen: "found_at c 4 original" using found_at_add [OF a1 read_document_once(2) [OF c2 ok(2)]] by simp
    obtain k where a3: "after_calls k c2 c3" using create_temporary_editors [OF c3] by (auto simp: by_editors_def)
    have patch: "config_patch parse print env key value c =
        (case t of Inl e \<Rightarrow> (Inl e, c3)
         | Inr temporary \<Rightarrow> (case replace_document (print doc') original temporary c3 of
             (Inl e, c) \<Rightarrow> (Inl e, remove_temporary temporary c) | (Inr _, c) \<Rightarrow> (Inr cfg, c)))"
      using path c1 c2 c3 ok by (simp add: config_patch_def parse_document_def require_def body_text_def)
    show ?thesis
    proof (cases t)
      case (Inl e)
      then show ?thesis using patch assms e3 by auto
    next
      case (Inr temporary)
      obtain r4 c4 where c4: "replace_document (print doc') original temporary c3 = (r4, c4)" by fastforce
      note effect = replace_document_effect [OF c4]
      show ?thesis
      proof (cases r4)
        case failed: (Inl e)
        then have "r = Inl e" "c' = remove_temporary temporary c4" using patch assms Inr c4 by simp_all
        then show ?thesis
          using by_editors_trans [OF by_editors_trans [OF e3, of c4] remove_temporary_editors] effect failed by simp
      next
        case (Inr u)
        then have "r = Inr cfg" "c' = c4" using patch assms \<open>t = Inr temporary\<close> c4 by simp_all
        moreover have "found_at c (k + 7) original" "cs_edits c4 = drop (Suc (k + 7)) (cs_edits c)"
          using effect Inr a3 found_at_add [OF after_calls_trans [OF a2 a3], of 3 original] a2
          by (simp_all add: after_calls_def add.commute)
        ultimately show ?thesis using effect Inr ok(3,4) seen by (intro disjI2 exI [of _ "k + 7"]) auto
      qed
    qed
  qed
qed

lemma config_load_body:
  assumes "config_path env = Inr p" "cs_faults c = []" "cs_edits c = []" "cs_body c = Some body" "utf8_valid body"
    and "parse body = Some doc"
  shows "fst (config_load parse env c) = from_document env doc"
  using assms by (simp add: config_load_def read_document_def file_call_def edited_def parse_document_def require_def)

subsection \<open>Properties\<close>

text \<open>
  C38. Changing a setting is a transaction: when it fails, at whatever step, the document holds exactly
  what the editors made of it; when it succeeds, the document that was read at the fourth file call stood
  for valid settings, exactly the requested setting differs in the result, the document written stands
  for the settings that were returned, and the last call before the replacement found the document that
  was read first: an edit made in between is never lost, only one between that last look and the
  replacement.
\<close>

theorem config_patch_atomic:
  assumes "\<forall>b doc. parse b = Some doc \<longrightarrow> distinct (map fst doc)"
    and "config_patch parse print env key value c = (r, c')"
  shows "case r of
      Inl e \<Rightarrow> by_editors c c'
    | Inr cfg \<Rightarrow> \<exists>n original doc doc' current. found_at c 4 original \<and> 4 < n \<and> found_at c n original \<and>
        cs_edits c' = drop (Suc n) (cs_edits c) \<and>
        parse (body_text original) = Some doc \<and> from_document env doc = Inr current \<and>
        cfg = updated env key value current \<and> cs_body c' = Some (print doc') \<and> from_document env doc' = Inr cfg"
proof -
  consider e where "r = Inl e" "by_editors c c'" | n original doc doc' cfg where "r = Inr cfg" "found_at c 4 original"
    "4 < n" "found_at c n original" "cs_edits c' = drop (Suc n) (cs_edits c)" "parse (body_text original) = Some doc"
    "patched env key value doc = Inr (doc', cfg)" "cs_body c' = Some (print doc')"
    using config_patch_effect [OF assms(2)] by blast
  then show ?thesis
  proof cases
    case 1
    then show ?thesis by simp
  next
    case 2
    then show ?thesis using patched_updates [OF 2(7)] assms(1) by fastforce
  qed
qed

lemma non_empty_normal: "non_empty v = Some n \<Longrightarrow> non_empty n = Some n"
  using non_empty_or_empty [of v] by (simp add: or_empty_def)

lemma from_document_normal:
  assumes "from_document env doc = Inr c"
  shows "\<forall>n. cf_device_name c = Some n \<longrightarrow> non_empty n = Some n \<and> length n \<le> 255"
    and "\<forall>i. cf_pinned_peer_id c = Some i \<longrightarrow> non_empty i = Some i"
proof -
  let ?ok = "\<lambda>c. (\<forall>n. cf_device_name c = Some n \<longrightarrow> non_empty n = Some n \<and> length n \<le> 255) \<and>
      (\<forall>i. cf_pinned_peer_id c = Some i \<longrightarrow> non_empty i = Some i)"
  have step: "?ok c1" if "apply_entry env doc e c0 = Inr c1" "?ok c0" for e c0 c1
    using that
    by (cases e) (auto simp: apply_entry_def require_def parse_device_name_def Let_def map_sum_Inr
        split: if_splits option.splits sum.splits intro: non_empty_normal)
  have "?ok c1" if "apply_entries env doc es c0 = Inr c1" "?ok c0" for es c0 c1
    using that
  proof (induction es arbitrary: c0)
    case (Cons e es)
    obtain cm where cm: "apply_entry env doc e c0 = Inr cm" "apply_entries env doc es cm = Inr c1"
      using Cons.prems(1) by (auto split: sum.splits)
    show ?case by (rule Cons.IH [OF cm(2) step [OF cm(1) Cons.prems(2)]])
  qed simp
  from this [OF assms [unfolded from_document_def]] show
    "\<forall>n. cf_device_name c = Some n \<longrightarrow> non_empty n = Some n \<and> length n \<le> 255"
    "\<forall>i. cf_pinned_peer_id c = Some i \<longrightarrow> non_empty i = Some i"
    by (simp_all add: config_default_def)
qed

lemma to_toml_read_back:
  assumes "\<forall>n. cf_device_name c = Some n \<longrightarrow> non_empty n = Some n \<and> length n \<le> 255"
    and "\<forall>i. cf_pinned_peer_id c = Some i \<longrightarrow> non_empty i = Some i"
    and "cf_receive_directory c \<noteq> []" "expand_user env (cf_receive_directory c) = cf_receive_directory c"
  shows "from_document env (to_toml c) = Inr c"
proof -
  have fixed: "apply_entries env doc [(k_consent, TInteger (int (cf_consent_timeout_secs c))), (k_discoverable, TBool (cf_discoverable c)),
      (k_clipboard, TBool (cf_read_clipboard_on_select c)), (k_discovery, TInteger (int (cf_discovery_timeout_secs c))),
      (k_receive, TString (cf_receive_directory c)), (k_transfer, TInteger (int (cf_transfer_timeout_secs c)))]
      (config_default env) = Inr (c\<lparr>cf_device_name := None, cf_pinned_peer_id := None\<rparr>)" for doc
    using assms(3,4)
    by (simp add: apply_entry_def require_def as_bool_def as_str_def as_integer_def document_timeout_def config_default_def)
  have app: "apply_entries env doc (xs @ ys) c0 =
      (case apply_entries env doc xs c0 of Inl e \<Rightarrow> Inl e | Inr c1 \<Rightarrow> apply_entries env doc ys c1)" for doc xs ys c0
    by (induction xs arbitrary: c0) (simp_all split: sum.splits)
  show ?thesis
    unfolding from_document_def using assms(1,2)
    by (subst (2) to_toml_def, unfold app fixed)
      (cases "cf_device_name c"; cases "cf_pinned_peer_id c";
        simp add: apply_entry_def require_def as_str_def parse_device_name_def Let_def)
qed

text \<open>
  The settings are printed so that they are read back: whenever the receive directory is not subject
  to the expansion of the home directory, the entries printed for settings that came from a document
  stand for the same settings.
\<close>

theorem settings_read_back:
  assumes "from_document env doc = Inr c"
    and "cf_receive_directory c \<noteq> []" "expand_user env (cf_receive_directory c) = cf_receive_directory c"
  shows "from_document env (to_toml c) = Inr c"
  by (rule to_toml_read_back [OF from_document_normal [OF assms(1)] assms(2,3)])

subsection \<open>A concrete change\<close>

definition ex_env :: environment where
  "ex_env = \<lparr>ev_home = Some (ascii ''/h''), ev_download_dir = None, ev_config_home = None\<rparr>"

definition ex_files :: config_files where
  "ex_files = \<lparr>cs_body = Some [50], cs_temporaries = [], cs_edits = [None, Some None], cs_faults = [], cs_serial = 0, cs_pid = 1\<rparr>"

definition ex_parse :: "bytes \<Rightarrow> document option" where
  "ex_parse b = (if b = [] then Some [] else None)"

definition ex_changed :: config where
  "ex_changed = (config_default ex_env)\<lparr>cf_discoverable := True\<rparr>"

lemma ex_patch:
  "\<exists>c'. config_patch ex_parse (\<lambda>_. [49]) ex_env k_discoverable (ascii ''true'') ex_files = (Inr ex_changed, c')"
  by (simp add: config_patch_def ex_files_def ex_parse_def ex_env_def config_path_def file_call_def edited_def
      read_document_def parse_document_def require_def patched_def from_document_def contains_key_def i64_of_u64_def
      i64_max_def set_item_def patch_value_def parse_bool_def apply_entry_def as_bool_def as_integer_def document_timeout_def
      create_temporary.simps replace_document_def ex_changed_def config_default_def DEFAULT_CONSENT_TIMEOUT_SECS_def
      numeral_3_eq_3 Let_def)

theorem config_patch_atomic_witness:
  "\<exists>c' n doc' current. config_patch ex_parse (\<lambda>_. [49]) ex_env k_discoverable (ascii ''true'') ex_files = (Inr ex_changed, c') \<and>
     4 < n \<and> found_at ex_files n None \<and> cs_edits c' = drop (Suc n) (cs_edits ex_files) \<and>
     ex_changed = updated ex_env k_discoverable (ascii ''true'') current \<and> cs_body c' = Some [49] \<and>
     from_document ex_env doc' = Inr ex_changed"
proof -
  obtain c' where p: "config_patch ex_parse (\<lambda>_. [49]) ex_env k_discoverable (ascii ''true'') ex_files = (Inr ex_changed, c')"
    using ex_patch by blast
  have "\<forall>b doc. ex_parse b = Some doc \<longrightarrow> distinct (map fst doc)" by (simp add: ex_parse_def)
  from config_patch_atomic [OF this p] obtain n original doc' current where
    found: "found_at ex_files 4 original" "4 < n" "found_at ex_files n original" "cs_edits c' = drop (Suc n) (cs_edits ex_files)"
      "ex_changed = updated ex_env k_discoverable (ascii ''true'') current" "cs_body c' = Some [49]"
      "from_document ex_env doc' = Inr ex_changed"
    by auto
  have "original = None" using found(1) by (simp add: found_at_def document_at_def ex_files_def)
  then show ?thesis using p found by blast
qed

theorem settings_read_back_witness:
  "from_document ex_env [(k_device, TString (ascii ''PC''))] = Inr ((config_default ex_env)\<lparr>cf_device_name := Some (ascii ''PC'')\<rparr>) \<and>
   from_document ex_env (to_toml ((config_default ex_env)\<lparr>cf_device_name := Some (ascii ''PC'')\<rparr>)) =
     Inr ((config_default ex_env)\<lparr>cf_device_name := Some (ascii ''PC'')\<rparr>)"
proof -
  have trimmed: "trim (ascii ''PC'') = ascii ''PC''" by code_simp
  have doc: "from_document ex_env [(k_device, TString (ascii ''PC''))] =
      Inr ((config_default ex_env)\<lparr>cf_device_name := Some (ascii ''PC'')\<rparr>)"
    using trimmed by (simp add: from_document_def apply_entry_def require_def as_str_def parse_device_name_def non_empty_def
        ascii_def)
  show ?thesis
    using doc settings_read_back [OF doc]
    by (simp add: config_default_def default_receive_directory_def ex_env_def expand_user_def strip_prefix_def path_join_def
        ascii_def)
qed

end
