(* ===== verification/Sharing_State.thy ===== *)
theory Sharing_State
  imports QS_Prelude
begin

text \<open>
  The user-visible state of the endpoint, from \<open>crates/core/sharing/src\<close>: attachments
  (\<open>attachment.rs\<close>), observed peers (\<open>peer.rs\<close>), the active share (\<open>snapshot/share.rs\<close>)
  and the endpoint snapshot with its operations (\<open>snapshot.rs\<close>). Every method that changes
  state is one definition that returns the new state, together with the Boolean the method
  returns.
\<close>

subsection \<open>Attachments\<close>

datatype attachment =
    AFile (file_name: rstring) (size_bytes: nat)
  | AText (text_value: rstring)
  | AUrl (url_value: rstring)

definition u64_of_len :: "rstring \<Rightarrow> nat" where
  "u64_of_len v = (if length v \<le> u64_max then length v else u64_max)"

fun byte_len :: "attachment \<Rightarrow> nat" where
  "byte_len (AFile name sz) = sz"
| "byte_len (AText v) = u64_of_len v"
| "byte_len (AUrl v) = u64_of_len v"

subsection \<open>Peers\<close>

record peer_snapshot =
  p_id :: rstring
  p_name :: rstring
  p_pinned :: bool

definition peer_new :: "rstring \<Rightarrow> rstring \<Rightarrow> peer_snapshot" where
  "peer_new i n = \<lparr>p_id = i, p_name = n, p_pinned = False\<rparr>"

definition peer_rename :: "rstring \<Rightarrow> peer_snapshot \<Rightarrow> peer_snapshot" where
  "peer_rename n p = p\<lparr>p_name := n\<rparr>"

definition peer_set_pinned :: "bool \<Rightarrow> peer_snapshot \<Rightarrow> peer_snapshot" where
  "peer_set_pinned b p = p\<lparr>p_pinned := b\<rparr>"

subsection \<open>Enumerations of the public state\<close>

datatype direction = Inbound | Outbound

datatype discovery_state = DiscoveryIdle | Searching | DiscoveryTimedOut

datatype phase =
    AwaitingLocalConsent | AwaitingPeerConsent | Cancelled | Completed | Failed | Rejected
  | Transferring | WaitingForPeer

datatype visibility_state = VClosed | VOpen | VStarting | VUnavailable

record visibility_status =
  discoverable :: bool
  requested :: bool
  temporary :: bool
  remaining_secs :: "nat option"
  available_media :: "rstring list"
  v_error :: "rstring option"

definition is_terminal :: "phase \<Rightarrow> bool" where
  "is_terminal p \<longleftrightarrow> p \<in> {Cancelled, Completed, Failed, Rejected}"

definition consent_phase :: "phase \<Rightarrow> bool" where
  "consent_phase p \<longleftrightarrow> p = AwaitingLocalConsent \<or> p = AwaitingPeerConsent"

subsection \<open>The active share\<close>

record share_snapshot =
  sh_attachment :: attachment
  sh_direction :: direction
  sh_id :: nat
  sh_id_string :: rstring
  sh_medium :: "rstring option"
  sh_peer :: "peer_snapshot option"
  sh_phase :: phase
  sh_recovery_guidance :: "rstring option"
  sh_remaining_seconds :: "nat option"
  sh_terminal_reason :: "rstring option"
  sh_total_bytes :: nat
  sh_transferred_bytes :: nat
  sh_verification_code :: "rstring option"

definition share_new :: "attachment \<Rightarrow> direction \<Rightarrow> nat \<Rightarrow> phase \<Rightarrow> nat \<Rightarrow> share_snapshot" where
  "share_new att dir i ph tot =
     \<lparr>sh_attachment = att, sh_direction = dir, sh_id = i, sh_id_string = decimal i,
      sh_medium = None, sh_peer = None, sh_phase = ph, sh_recovery_guidance = None,
      sh_remaining_seconds = None, sh_terminal_reason = None, sh_total_bytes = tot,
      sh_transferred_bytes = 0, sh_verification_code = None\<rparr>"

definition share_record_progress :: "nat \<Rightarrow> share_snapshot \<Rightarrow> bool \<times> share_snapshot" where
  "share_record_progress n s =
     (if sh_phase s \<noteq> Transferring \<or> n < sh_transferred_bytes s \<or> n > sh_total_bytes s
      then (False, s)
      else (True, s\<lparr>sh_transferred_bytes := n\<rparr>))"

definition share_record_verification_code :: "rstring \<Rightarrow> share_snapshot \<Rightarrow> bool \<times> share_snapshot" where
  "share_record_verification_code code s =
     (if \<not> consent_phase (sh_phase s) \<or> length code \<noteq> 4 \<or> \<not> list_all is_ascii_digit code
      then (False, s)
      else (True, s\<lparr>sh_verification_code := Some code\<rparr>))"

definition share_replace_attachment :: "attachment \<Rightarrow> share_snapshot \<Rightarrow> share_snapshot" where
  "share_replace_attachment att s = s\<lparr>sh_total_bytes := byte_len att, sh_attachment := att\<rparr>"

definition share_select_peer :: "peer_snapshot \<Rightarrow> phase \<Rightarrow> share_snapshot \<Rightarrow> share_snapshot" where
  "share_select_peer p ph s = s\<lparr>sh_peer := Some p, sh_phase := ph\<rparr>"

definition or_keep :: "'a option \<Rightarrow> 'a option \<Rightarrow> 'a option" where
  "or_keep new old = (case new of Some v \<Rightarrow> Some v | None \<Rightarrow> old)"

definition share_set_observation ::
  "rstring option \<Rightarrow> nat option \<Rightarrow> rstring option \<Rightarrow> rstring option \<Rightarrow> share_snapshot \<Rightarrow> share_snapshot" where
  "share_set_observation medium remaining reason guidance s =
     s\<lparr>sh_medium := or_keep medium (sh_medium s),
       sh_remaining_seconds := remaining,
       sh_terminal_reason := or_keep reason (sh_terminal_reason s),
       sh_recovery_guidance := or_keep guidance (sh_recovery_guidance s)\<rparr>"

definition share_set_phase :: "phase \<Rightarrow> share_snapshot \<Rightarrow> share_snapshot" where
  "share_set_phase ph s =
     (let s' = s\<lparr>sh_phase := ph\<rparr>
      in if \<not> consent_phase ph then s'\<lparr>sh_verification_code := None\<rparr> else s')"

subsection \<open>The endpoint\<close>

record endpoint_snapshot =
  active_share :: "share_snapshot option"
  discovery :: discovery_state
  peers :: "peer_snapshot list"
  visibility :: visibility_state
  visibility_stat :: visibility_status

definition endpoint_idle :: endpoint_snapshot where
  "endpoint_idle =
     \<lparr>active_share = None, discovery = DiscoveryIdle, peers = [], visibility = VClosed,
      visibility_stat = \<lparr>discoverable = False, requested = False, temporary = False,
        remaining_secs = None, available_media = [], v_error = None\<rparr>\<rparr>"

definition endpoint_cancel :: "nat \<Rightarrow> endpoint_snapshot \<Rightarrow> bool \<times> endpoint_snapshot" where
  "endpoint_cancel i e =
     (case active_share e of
        None \<Rightarrow> (False, e)
      | Some a \<Rightarrow>
          if sh_id a \<noteq> i \<or> is_terminal (sh_phase a) then (False, e)
          else (True, e\<lparr>active_share := Some (share_set_phase Cancelled a)\<rparr>))"

definition endpoint_discovery_timed_out :: "endpoint_snapshot \<Rightarrow> bool \<times> endpoint_snapshot" where
  "endpoint_discovery_timed_out e =
     (if discovery e \<noteq> Searching then (False, e)
      else (True, e\<lparr>discovery := DiscoveryTimedOut\<rparr>))"

definition endpoint_dismiss :: "nat \<Rightarrow> endpoint_snapshot \<Rightarrow> bool \<times> endpoint_snapshot" where
  "endpoint_dismiss i e =
     (case active_share e of
        None \<Rightarrow> (False, e)
      | Some a \<Rightarrow>
          if sh_id a \<noteq> i \<or> \<not> is_terminal (sh_phase a) then (False, e)
          else (True, e\<lparr>active_share := None\<rparr>))"

definition endpoint_fail :: "nat \<Rightarrow> endpoint_snapshot \<Rightarrow> bool \<times> endpoint_snapshot" where
  "endpoint_fail i e =
     (case active_share e of
        None \<Rightarrow> (False, e)
      | Some a \<Rightarrow>
          if sh_id a \<noteq> i \<or> is_terminal (sh_phase a) then (False, e)
          else (True, e\<lparr>active_share := Some (share_set_phase Failed a)\<rparr>))"

text \<open>\<open>iter_mut().find\<close> updates the first peer with the identifier, in place.\<close>

fun update_first :: "('a \<Rightarrow> bool) \<Rightarrow> ('a \<Rightarrow> 'a) \<Rightarrow> 'a list \<Rightarrow> 'a list option" where
  "update_first P f [] = None"
| "update_first P f (x # xs) =
     (if P x then Some (f x # xs) else map_option ((#) x) (update_first P f xs))"

fun remove_first :: "('a \<Rightarrow> bool) \<Rightarrow> 'a list \<Rightarrow> 'a list option" where
  "remove_first P [] = None"
| "remove_first P (x # xs) =
     (if P x then Some xs else map_option ((#) x) (remove_first P xs))"

definition endpoint_observe_peer :: "rstring \<Rightarrow> rstring \<Rightarrow> endpoint_snapshot \<Rightarrow> endpoint_snapshot" where
  "endpoint_observe_peer i n e =
     (case update_first (\<lambda>p. p_id p = i) (peer_rename n) (peers e) of
        Some ps \<Rightarrow> e\<lparr>peers := ps\<rparr>
      | None \<Rightarrow> e\<lparr>peers := peers e @ [peer_new i n]\<rparr>)"

definition endpoint_peer :: "rstring \<Rightarrow> endpoint_snapshot \<Rightarrow> peer_snapshot option" where
  "endpoint_peer i e = find (\<lambda>p. p_id p = i) (peers e)"

definition endpoint_pin_peer :: "rstring \<Rightarrow> endpoint_snapshot \<Rightarrow> bool \<times> endpoint_snapshot" where
  "endpoint_pin_peer i e =
     (if endpoint_peer i e = None then (False, e)
      else (True, e\<lparr>peers := map (\<lambda>p. peer_set_pinned (p_id p = i) p) (peers e)\<rparr>))"

definition endpoint_unpin_peers :: "endpoint_snapshot \<Rightarrow> endpoint_snapshot" where
  "endpoint_unpin_peers e = e\<lparr>peers := map (peer_set_pinned False) (peers e)\<rparr>"

definition endpoint_pinned_peer :: "endpoint_snapshot \<Rightarrow> peer_snapshot option" where
  "endpoint_pinned_peer e = find p_pinned (peers e)"

definition endpoint_remove_peer :: "rstring \<Rightarrow> endpoint_snapshot \<Rightarrow> bool \<times> endpoint_snapshot" where
  "endpoint_remove_peer i e =
     (case remove_first (\<lambda>p. p_id p = i) (peers e) of
        None \<Rightarrow> (False, e)
      | Some ps \<Rightarrow> (True, e\<lparr>peers := ps\<rparr>))"

definition endpoint_set_active :: "share_snapshot \<Rightarrow> endpoint_snapshot \<Rightarrow> endpoint_snapshot" where
  "endpoint_set_active s e = e\<lparr>active_share := Some s\<rparr>"

definition endpoint_start_discovery :: "endpoint_snapshot \<Rightarrow> endpoint_snapshot" where
  "endpoint_start_discovery e = e\<lparr>discovery := Searching\<rparr>"

definition endpoint_stop_discovery :: "endpoint_snapshot \<Rightarrow> endpoint_snapshot" where
  "endpoint_stop_discovery e = e\<lparr>discovery := DiscoveryIdle\<rparr>"

definition endpoint_set_visibility_status ::
  "visibility_state \<Rightarrow> visibility_status \<Rightarrow> endpoint_snapshot \<Rightarrow> endpoint_snapshot" where
  "endpoint_set_visibility_status st status e = e\<lparr>visibility := st, visibility_stat := status\<rparr>"

subsection \<open>Lemmas on the list helpers\<close>

lemma update_first_None: "update_first P f xs = None \<longleftrightarrow> (\<forall>x \<in> set xs. \<not> P x)"
  by (induction xs) auto

lemma update_first_map:
  "update_first P f xs = Some ys \<Longrightarrow> (\<And>x. g (f x) = g x) \<Longrightarrow> map g ys = map g xs"
  by (induction xs arbitrary: ys) (auto split: if_splits)

lemma remove_first_Some:
  "remove_first P xs = Some ys \<Longrightarrow>
     \<exists>us x vs. xs = us @ x # vs \<and> ys = us @ vs \<and> P x \<and> (\<forall>u \<in> set us. \<not> P u)"
proof (induction xs arbitrary: ys)
  case Nil
  then show ?case by simp
next
  case (Cons a xs)
  show ?case
  proof (cases "P a")
    case True
    then show ?thesis using Cons.prems by (intro exI [of _ "[]"]) auto
  next
    case False
    then obtain zs where z: "remove_first P xs = Some zs" "ys = a # zs"
      using Cons.prems by auto
    from Cons.IH [OF z(1)] obtain us x vs where
      "xs = us @ x # vs" "zs = us @ vs" "P x" "\<forall>u \<in> set us. \<not> P u"
      by blast
    then show ?thesis
      using False z(2) by (intro exI [of _ "a # us"] exI [of _ x] exI [of _ vs]) auto
  qed
qed

lemma remove_first_None: "remove_first P xs = None \<longleftrightarrow> (\<forall>x \<in> set xs. \<not> P x)"
  by (induction xs) auto

lemma find_None: "find P xs = None \<longleftrightarrow> (\<forall>x \<in> set xs. \<not> P x)"
  by (auto simp: find_None_iff)

lemma find_Some_set: "find P xs = Some x \<Longrightarrow> x \<in> set xs \<and> P x"
  by (auto simp: find_Some_iff)

end
