(* ===== verification/Sharing_Coordinator.thy ===== *)
theory Sharing_Coordinator
  imports Sharing_State
begin

text \<open>
  The coordinator of \<open>crates/core/sharing/src/coordinator.rs\<close>, which owns the endpoint
  snapshot and the share identifiers, one definition per public method. The second half
  states what the coordinator promises: a well-formedness invariant of every reachable
  state, the lifecycle a share can follow, fresh identifiers, and the progress accounting.
\<close>

record coordinator =
  next_share_id :: nat
  snapshot :: endpoint_snapshot

definition coordinator_new :: coordinator where
  "coordinator_new = \<lparr>next_share_id = 1, snapshot = endpoint_idle\<rparr>"

definition next_id :: "coordinator \<Rightarrow> nat \<times> coordinator" where
  "next_id c =
     (next_share_id c, c\<lparr>next_share_id := saturating_add_u64 (next_share_id c) 1\<rparr>)"

text \<open>\<open>active_share_mut\<close> with the new value written back.\<close>

definition put_active :: "share_snapshot \<Rightarrow> coordinator \<Rightarrow> coordinator" where
  "put_active s c = c\<lparr>snapshot := (snapshot c)\<lparr>active_share := Some s\<rparr>\<rparr>"

definition on_snapshot ::
  "(endpoint_snapshot \<Rightarrow> endpoint_snapshot) \<Rightarrow> coordinator \<Rightarrow> coordinator" where
  "on_snapshot f c = c\<lparr>snapshot := f (snapshot c)\<rparr>"

definition transition ::
  "nat \<Rightarrow> direction \<Rightarrow> phase \<Rightarrow> phase \<Rightarrow> coordinator \<Rightarrow> bool \<times> coordinator" where
  "transition i dir from to c =
     (case active_share (snapshot c) of
        None \<Rightarrow> (False, c)
      | Some a \<Rightarrow>
          if sh_id a \<noteq> i \<or> sh_direction a \<noteq> dir \<or> sh_phase a \<noteq> from then (False, c)
          else (True, put_active (share_set_phase to a) c))"

definition accept_by_peer :: "nat \<Rightarrow> coordinator \<Rightarrow> bool \<times> coordinator" where
  "accept_by_peer i = transition i Outbound AwaitingPeerConsent Transferring"

definition accept_inbound :: "nat \<Rightarrow> coordinator \<Rightarrow> bool \<times> coordinator" where
  "accept_inbound i = transition i Inbound AwaitingLocalConsent Transferring"

definition reject_by_peer :: "nat \<Rightarrow> coordinator \<Rightarrow> bool \<times> coordinator" where
  "reject_by_peer i = transition i Outbound AwaitingPeerConsent Rejected"

definition reject_inbound :: "nat \<Rightarrow> coordinator \<Rightarrow> bool \<times> coordinator" where
  "reject_inbound i = transition i Inbound AwaitingLocalConsent Rejected"

definition cancel :: "nat \<Rightarrow> coordinator \<Rightarrow> bool \<times> coordinator" where
  "cancel i c =
     (let (cancelled, e) = endpoint_cancel i (snapshot c);
          e' = (if cancelled then endpoint_stop_discovery e else e)
      in (cancelled, c\<lparr>snapshot := e'\<rparr>))"

definition complete :: "nat \<Rightarrow> coordinator \<Rightarrow> bool \<times> coordinator" where
  "complete i c =
     (case active_share (snapshot c) of
        None \<Rightarrow> (False, c)
      | Some a \<Rightarrow>
          if sh_id a \<noteq> i \<or> sh_phase a \<noteq> Transferring
             \<or> sh_transferred_bytes a \<noteq> sh_total_bytes a
          then (False, c)
          else (True, put_active (share_set_phase Completed a) c))"

definition discovery_timed_out :: "coordinator \<Rightarrow> bool \<times> coordinator" where
  "discovery_timed_out c =
     (let (b, e) = endpoint_discovery_timed_out (snapshot c) in (b, c\<lparr>snapshot := e\<rparr>))"

definition dismiss :: "nat \<Rightarrow> coordinator \<Rightarrow> bool \<times> coordinator" where
  "dismiss i c = (let (b, e) = endpoint_dismiss i (snapshot c) in (b, c\<lparr>snapshot := e\<rparr>))"

definition fail :: "nat \<Rightarrow> coordinator \<Rightarrow> bool \<times> coordinator" where
  "fail i c =
     (let (failed, e) = endpoint_fail i (snapshot c);
          e' = (if failed then endpoint_stop_discovery e else e)
      in (failed, c\<lparr>snapshot := e'\<rparr>))"

definition observe_peer :: "rstring \<Rightarrow> rstring \<Rightarrow> coordinator \<Rightarrow> coordinator" where
  "observe_peer i n = on_snapshot (endpoint_observe_peer i n)"

definition offer_inbound_sized ::
  "attachment \<Rightarrow> rstring \<Rightarrow> nat option \<Rightarrow> coordinator \<Rightarrow> nat option \<times> coordinator" where
  "offer_inbound_sized att pid tot c =
     (case endpoint_peer pid (snapshot c) of
        None \<Rightarrow> (None, c)
      | Some peer \<Rightarrow>
          let (i, c') = next_id c;
              declared = (case tot of Some t \<Rightarrow> t | None \<Rightarrow> byte_len att);
              share = share_new att Inbound i AwaitingLocalConsent declared;
              share' = share_select_peer peer AwaitingLocalConsent share
          in (Some i, on_snapshot (endpoint_set_active share') c'))"

definition offer_inbound :: "attachment \<Rightarrow> rstring \<Rightarrow> coordinator \<Rightarrow> nat option \<times> coordinator" where
  "offer_inbound att pid = offer_inbound_sized att pid None"

definition pin_peer :: "rstring \<Rightarrow> coordinator \<Rightarrow> bool \<times> coordinator" where
  "pin_peer i c = (let (b, e) = endpoint_pin_peer i (snapshot c) in (b, c\<lparr>snapshot := e\<rparr>))"

definition unpin_peers :: "coordinator \<Rightarrow> coordinator" where
  "unpin_peers = on_snapshot endpoint_unpin_peers"

definition queue_outbound_with_preference ::
  "attachment \<Rightarrow> bool \<Rightarrow> coordinator \<Rightarrow> nat \<times> coordinator" where
  "queue_outbound_with_preference att use_preference c =
     (let (i, c1) = next_id c;
          tot = byte_len att;
          pinned = (if use_preference then endpoint_pinned_peer (snapshot c1) else None);
          share = share_new att Outbound i WaitingForPeer tot;
          (share', c2) =
            (case pinned of
               Some peer \<Rightarrow> (share_select_peer peer AwaitingPeerConsent share, c1)
             | None \<Rightarrow> (share, on_snapshot endpoint_start_discovery c1))
      in (i, on_snapshot (endpoint_set_active share') c2))"

definition queue_outbound :: "attachment \<Rightarrow> coordinator \<Rightarrow> nat \<times> coordinator" where
  "queue_outbound att = queue_outbound_with_preference att True"

definition queue_outbound_unpinned :: "attachment \<Rightarrow> coordinator \<Rightarrow> nat \<times> coordinator" where
  "queue_outbound_unpinned att = queue_outbound_with_preference att False"

definition record_progress :: "nat \<Rightarrow> nat \<Rightarrow> coordinator \<Rightarrow> bool \<times> coordinator" where
  "record_progress i n c =
     (case active_share (snapshot c) of
        None \<Rightarrow> (False, c)
      | Some a \<Rightarrow>
          if sh_id a = i
          then (let (b, a') = share_record_progress n a in (b, put_active a' c))
          else (False, c))"

definition record_observation ::
  "nat \<Rightarrow> rstring option \<Rightarrow> nat option \<Rightarrow> rstring option \<Rightarrow> rstring option \<Rightarrow>
   coordinator \<Rightarrow> bool \<times> coordinator" where
  "record_observation i medium remaining reason guidance c =
     (case active_share (snapshot c) of
        None \<Rightarrow> (False, c)
      | Some a \<Rightarrow>
          if sh_id a \<noteq> i then (False, c)
          else (True, put_active (share_set_observation medium remaining reason guidance a) c))"

definition replace_attachment :: "nat \<Rightarrow> attachment \<Rightarrow> coordinator \<Rightarrow> bool \<times> coordinator" where
  "replace_attachment i att c =
     (case active_share (snapshot c) of
        None \<Rightarrow> (False, c)
      | Some a \<Rightarrow>
          if sh_id a \<noteq> i then (False, c)
          else (True, put_active (share_replace_attachment att a) c))"

definition record_verification_code :: "nat \<Rightarrow> rstring \<Rightarrow> coordinator \<Rightarrow> bool \<times> coordinator" where
  "record_verification_code i code c =
     (case active_share (snapshot c) of
        None \<Rightarrow> (False, c)
      | Some a \<Rightarrow>
          if sh_id a = i
          then (let (b, a') = share_record_verification_code code a in (b, put_active a' c))
          else (False, c))"

definition remove_peer :: "rstring \<Rightarrow> coordinator \<Rightarrow> bool \<times> coordinator" where
  "remove_peer i c = (let (b, e) = endpoint_remove_peer i (snapshot c) in (b, c\<lparr>snapshot := e\<rparr>))"

definition select_peer :: "nat \<Rightarrow> rstring \<Rightarrow> coordinator \<Rightarrow> bool \<times> coordinator" where
  "select_peer i pid c =
     (case endpoint_peer pid (snapshot c) of
        None \<Rightarrow> (False, c)
      | Some peer \<Rightarrow>
        (case active_share (snapshot c) of
           None \<Rightarrow> (False, c)
         | Some a \<Rightarrow>
             if sh_id a \<noteq> i \<or> sh_direction a \<noteq> Outbound \<or> sh_phase a \<noteq> WaitingForPeer
             then (False, c)
             else (True, on_snapshot endpoint_stop_discovery
                           (put_active (share_select_peer peer AwaitingPeerConsent a) c))))"

definition set_visibility_status ::
  "visibility_state \<Rightarrow> visibility_status \<Rightarrow> coordinator \<Rightarrow> coordinator" where
  "set_visibility_status st status = on_snapshot (endpoint_set_visibility_status st status)"

definition start_discovery :: "coordinator \<Rightarrow> coordinator" where
  "start_discovery = on_snapshot endpoint_start_discovery"

definition stop_discovery :: "coordinator \<Rightarrow> coordinator" where
  "stop_discovery = on_snapshot endpoint_stop_discovery"

subsection \<open>Operations as data\<close>

datatype coord_op =
    OpAcceptByPeer nat | OpAcceptInbound nat | OpRejectByPeer nat | OpRejectInbound nat
  | OpCancel nat | OpComplete nat | OpDiscoveryTimedOut | OpDismiss nat | OpFail nat
  | OpObservePeer rstring rstring | OpOfferInbound attachment rstring "nat option"
  | OpPinPeer rstring | OpUnpinPeers | OpQueueOutbound attachment | OpQueueUnpinned attachment
  | OpRecordProgress nat nat
  | OpRecordObservation nat "rstring option" "nat option" "rstring option" "rstring option"
  | OpReplaceAttachment nat attachment | OpRecordCode nat rstring | OpRemovePeer rstring
  | OpSelectPeer nat rstring | OpSetVisibility visibility_state visibility_status
  | OpStartDiscovery | OpStopDiscovery

fun coord_step :: "coord_op \<Rightarrow> coordinator \<Rightarrow> coordinator" where
  "coord_step (OpAcceptByPeer i) c = snd (accept_by_peer i c)"
| "coord_step (OpAcceptInbound i) c = snd (accept_inbound i c)"
| "coord_step (OpRejectByPeer i) c = snd (reject_by_peer i c)"
| "coord_step (OpRejectInbound i) c = snd (reject_inbound i c)"
| "coord_step (OpCancel i) c = snd (cancel i c)"
| "coord_step (OpComplete i) c = snd (complete i c)"
| "coord_step OpDiscoveryTimedOut c = snd (discovery_timed_out c)"
| "coord_step (OpDismiss i) c = snd (dismiss i c)"
| "coord_step (OpFail i) c = snd (fail i c)"
| "coord_step (OpObservePeer i n) c = observe_peer i n c"
| "coord_step (OpOfferInbound a p t) c = snd (offer_inbound_sized a p t c)"
| "coord_step (OpPinPeer i) c = snd (pin_peer i c)"
| "coord_step OpUnpinPeers c = unpin_peers c"
| "coord_step (OpQueueOutbound a) c = snd (queue_outbound a c)"
| "coord_step (OpQueueUnpinned a) c = snd (queue_outbound_unpinned a c)"
| "coord_step (OpRecordProgress i n) c = snd (record_progress i n c)"
| "coord_step (OpRecordObservation i m r t g) c = snd (record_observation i m r t g c)"
| "coord_step (OpReplaceAttachment i a) c = snd (replace_attachment i a c)"
| "coord_step (OpRecordCode i code) c = snd (record_verification_code i code c)"
| "coord_step (OpRemovePeer i) c = snd (remove_peer i c)"
| "coord_step (OpSelectPeer i p) c = snd (select_peer i p c)"
| "coord_step (OpSetVisibility st v) c = set_visibility_status st v c"
| "coord_step OpStartDiscovery c = start_discovery c"
| "coord_step OpStopDiscovery c = stop_discovery c"

lemmas coord_op_defs =
  accept_by_peer_def accept_inbound_def reject_by_peer_def reject_inbound_def transition_def
  cancel_def endpoint_cancel_def complete_def discovery_timed_out_def
  endpoint_discovery_timed_out_def dismiss_def endpoint_dismiss_def fail_def endpoint_fail_def
  observe_peer_def endpoint_observe_peer_def offer_inbound_sized_def pin_peer_def
  endpoint_pin_peer_def unpin_peers_def endpoint_unpin_peers_def queue_outbound_def
  queue_outbound_unpinned_def queue_outbound_with_preference_def record_progress_def
  share_record_progress_def record_observation_def replace_attachment_def
  record_verification_code_def share_record_verification_code_def remove_peer_def
  endpoint_remove_peer_def select_peer_def set_visibility_status_def start_discovery_def
  stop_discovery_def endpoint_start_discovery_def endpoint_stop_discovery_def
  endpoint_set_active_def endpoint_set_visibility_status_def on_snapshot_def put_active_def
  next_id_def

lemmas share_defs =
  share_new_def share_select_peer_def share_set_phase_def share_replace_attachment_def
  share_set_observation_def consent_phase_def is_terminal_def

lemmas coord_splits = option.splits if_splits prod.splits

subsection \<open>The abstract lifecycle\<close>

text \<open>
  What the coordinator promises about shares, without peers, bytes or observations: the
  next identifier, and the active share as its identifier, direction and phase.
\<close>

inductive phase_edge :: "direction \<Rightarrow> phase \<Rightarrow> phase \<Rightarrow> bool" where
  pe_select: "phase_edge Outbound WaitingForPeer AwaitingPeerConsent"
| pe_peer_accepts: "phase_edge Outbound AwaitingPeerConsent Transferring"
| pe_peer_rejects: "phase_edge Outbound AwaitingPeerConsent Rejected"
| pe_local_accepts: "phase_edge Inbound AwaitingLocalConsent Transferring"
| pe_local_rejects: "phase_edge Inbound AwaitingLocalConsent Rejected"
| pe_completes: "phase_edge d Transferring Completed"
| pe_cancels: "\<not> is_terminal p \<Longrightarrow> phase_edge d p Cancelled"
| pe_fails: "\<not> is_terminal p \<Longrightarrow> phase_edge d p Failed"

type_synonym life = "nat \<times> (nat \<times> direction \<times> phase) option"

inductive life_step :: "life \<Rightarrow> life \<Rightarrow> bool" where
  ls_stutter: "life_step x x"
| ls_move: "phase_edge d p q \<Longrightarrow> life_step (n, Some (i, d, p)) (n, Some (i, d, q))"
| ls_dismiss: "is_terminal p \<Longrightarrow> life_step (n, Some (i, d, p)) (n, None)"
| ls_offer: "life_step (n, x) (saturating_add_u64 n 1, Some (n, Inbound, AwaitingLocalConsent))"
| ls_queue: "life_step (n, x) (saturating_add_u64 n 1, Some (n, Outbound, WaitingForPeer))"
| ls_queue_pinned:
    "life_step (n, x) (saturating_add_u64 n 1, Some (n, Outbound, AwaitingPeerConsent))"

inductive_cases phase_edge_to_transferring: "phase_edge d p Transferring"
inductive_cases phase_edge_to_completed: "phase_edge d p Completed"
inductive_simps phase_edge_from_terminal [simp]:
  "phase_edge d Cancelled q" "phase_edge d Completed q" "phase_edge d Failed q"
  "phase_edge d Rejected q"

definition share_life :: "share_snapshot \<Rightarrow> nat \<times> direction \<times> phase" where
  "share_life a = (sh_id a, sh_direction a, sh_phase a)"

definition life_of :: "coordinator \<Rightarrow> life" where
  "life_of c = (next_share_id c, map_option share_life (active_share (snapshot c)))"

lemma coord_step_sim: "life_step (life_of c) (life_of (coord_step op c))"
proof (cases op)
  case (OpOfferInbound a p t)
  then show ?thesis
    by (auto simp: coord_op_defs share_defs life_of_def share_life_def Let_def
        intro: life_step.intros split: coord_splits simp del: One_nat_def)
next
  case (OpQueueOutbound a)
  then show ?thesis
    by (auto simp: coord_op_defs share_defs life_of_def share_life_def Let_def
        intro: life_step.intros split: coord_splits simp del: One_nat_def)
next
  case (OpQueueUnpinned a)
  then show ?thesis
    by (auto simp: coord_op_defs share_defs life_of_def share_life_def Let_def
        intro: life_step.intros split: coord_splits simp del: One_nat_def)
qed (auto simp: coord_op_defs share_set_phase_def share_select_peer_def share_replace_attachment_def
    share_set_observation_def life_of_def share_life_def Let_def
    intro: life_step.intros phase_edge.intros split: coord_splits)

subsection \<open>The state invariant\<close>

definition code_ok :: "rstring \<Rightarrow> bool" where
  "code_ok c \<longleftrightarrow> length c = 4 \<and> list_all is_ascii_digit c"

definition share_ok :: "nat \<Rightarrow> share_snapshot \<Rightarrow> bool" where
  "share_ok n a \<longleftrightarrow>
     sh_id a \<le> n \<and> (n < u64_max \<longrightarrow> sh_id a < n) \<and>
     sh_id_string a = decimal (sh_id a) \<and>
     pred_option code_ok (sh_verification_code a) \<and>
     (sh_verification_code a \<noteq> None \<longrightarrow> consent_phase (sh_phase a)) \<and>
     (sh_phase a = AwaitingLocalConsent \<longrightarrow> sh_direction a = Inbound) \<and>
     (sh_phase a \<in> {AwaitingPeerConsent, WaitingForPeer} \<longrightarrow> sh_direction a = Outbound) \<and>
     (sh_phase a \<in> {AwaitingLocalConsent, AwaitingPeerConsent, Transferring, Completed, Rejected}
        \<longrightarrow> sh_peer a \<noteq> None)"

definition peers_ok :: "peer_snapshot list \<Rightarrow> bool" where
  "peers_ok ps \<longleftrightarrow> distinct (map p_id ps) \<and> length (filter p_pinned ps) \<le> 1"

definition coord_inv :: "coordinator \<Rightarrow> bool" where
  "coord_inv c \<longleftrightarrow>
     next_share_id c \<le> u64_max \<and> peers_ok (peers (snapshot c)) \<and>
     (\<forall>a. active_share (snapshot c) = Some a \<longrightarrow> share_ok (next_share_id c) a)"

lemma peers_ok_observe:
  assumes "peers_ok ps" "update_first (\<lambda>p. p_id p = i) (peer_rename n) ps = Some qs"
  shows "peers_ok qs"
proof -
  have "map p_id qs = map p_id ps" "map p_pinned qs = map p_pinned ps"
    using assms(2) by (rule update_first_map, simp add: peer_rename_def)+
  moreover have "length (filter p_pinned xs) = length (filter id (map p_pinned xs))"
    for xs :: "peer_snapshot list"
    by (simp add: filter_map o_def)
  ultimately show ?thesis
    using assms(1) unfolding peers_ok_def by metis
qed

lemma peers_ok_new:
  "peers_ok ps \<Longrightarrow> \<forall>p \<in> set ps. p_id p \<noteq> i \<Longrightarrow> peers_ok (ps @ [peer_new i n])"
  by (auto simp: peers_ok_def peer_new_def)

lemma peers_ok_unpin: "peers_ok ps \<Longrightarrow> peers_ok (map (peer_set_pinned False) ps)"
  by (simp add: peers_ok_def peer_set_pinned_def filter_map o_def)

lemma filter_unique_id:
  "distinct (map p_id ps) \<Longrightarrow> length (filter (\<lambda>p. p_id p = i) ps) \<le> 1"
proof (induction ps)
  case (Cons p ps)
  show ?case
  proof (cases "p_id p = i")
    case True
    then have "filter (\<lambda>p. p_id p = i) ps = []"
      using Cons.prems by (auto simp: filter_empty_conv image_iff)
    then show ?thesis by simp
  qed (use Cons in simp)
qed simp

lemma peers_ok_pin:
  "peers_ok ps \<Longrightarrow> peers_ok (map (\<lambda>p. peer_set_pinned (p_id p = i) p) ps)"
  using filter_unique_id [of ps i] by (simp add: peers_ok_def peer_set_pinned_def filter_map o_def)

lemma peers_ok_remove:
  assumes "peers_ok ps" "remove_first P ps = Some qs"
  shows "peers_ok qs"
proof -
  from remove_first_Some [OF assms(2)] obtain us x vs where "ps = us @ x # vs" "qs = us @ vs"
    by blast
  then show ?thesis
    using assms(1) by (auto simp: peers_ok_def split: if_splits)
qed

lemma coord_inv_new: "coord_inv coordinator_new"
  by (simp add: coord_inv_def coordinator_new_def endpoint_idle_def peers_ok_def u64_max_def)

lemmas peers_ok_intros = peers_ok_observe peers_ok_new peers_ok_unpin peers_ok_pin peers_ok_remove

lemma share_ok_new:
  assumes "n \<le> u64_max"
  shows "share_ok (saturating_add_u64 n 1) (share_new att Outbound n WaitingForPeer t)"
    and "share_ok (saturating_add_u64 n 1)
           (share_select_peer p AwaitingPeerConsent (share_new att Outbound n WaitingForPeer t))"
    and "share_ok (saturating_add_u64 n 1)
           (share_select_peer p AwaitingLocalConsent (share_new att Inbound n AwaitingLocalConsent t))"
  using assms by (auto simp: share_ok_def share_new_def share_select_peer_def saturating_add_u64_def)


lemma coord_inv_activeD:
  "coord_inv c \<Longrightarrow> active_share (snapshot c) = Some a \<Longrightarrow> share_ok (next_share_id c) a"
  by (simp add: coord_inv_def)

lemma coord_inv_put: "coord_inv c \<Longrightarrow> share_ok (next_share_id c) a \<Longrightarrow> coord_inv (put_active a c)"
  by (simp add: coord_inv_def put_active_def)

lemma coord_inv_frame:
  assumes "coord_inv c" "next_share_id d = next_share_id c"
    "active_share (snapshot d) = active_share (snapshot c)" "peers (snapshot d) = peers (snapshot c)"
  shows "coord_inv d"
  using assms by (simp add: coord_inv_def)

lemma share_ok_set_phase:
  assumes "share_ok n a"
    "q \<in> {Cancelled, Failed} \<or> (q \<in> {Transferring, Rejected, Completed} \<and> sh_peer a \<noteq> None)"
  shows "share_ok n (share_set_phase q a)"
  using assms by (cases q) (simp_all add: share_ok_def share_set_phase_def consent_phase_def)

lemma share_ok_record_progress:
  "share_ok n a \<Longrightarrow> share_ok n (snd (share_record_progress k a))"
  by (auto simp: share_ok_def share_record_progress_def)

lemma share_ok_record_code:
  "share_ok n a \<Longrightarrow> share_ok n (snd (share_record_verification_code code a))"
  by (simp add: share_ok_def share_record_verification_code_def code_ok_def)

lemma share_ok_observe: "share_ok n a \<Longrightarrow> share_ok n (share_set_observation m r t g a)"
  by (simp add: share_ok_def share_set_observation_def)

lemma share_ok_replace: "share_ok n a \<Longrightarrow> share_ok n (share_replace_attachment att a)"
  by (simp add: share_ok_def share_replace_attachment_def)

lemma share_ok_select:
  "share_ok n a \<Longrightarrow> sh_direction a = Outbound \<Longrightarrow> sh_phase a = WaitingForPeer \<Longrightarrow>
   share_ok n (share_select_peer p AwaitingPeerConsent a)"
  by (simp add: share_ok_def share_select_peer_def consent_phase_def)

lemma share_ok_peer:
  "share_ok n a \<Longrightarrow> sh_phase a \<in> {AwaitingLocalConsent, AwaitingPeerConsent, Transferring} \<Longrightarrow>
   sh_peer a \<noteq> None"
  unfolding share_ok_def by auto

lemma coord_inv_transition:
  assumes "coord_inv c" "from \<in> {AwaitingLocalConsent, AwaitingPeerConsent}"
    "to \<in> {Transferring, Rejected}"
  shows "coord_inv (snd (transition i d from to c))"
  using assms
  by (auto simp: transition_def split: option.splits
      intro!: coord_inv_put share_ok_set_phase dest: coord_inv_activeD share_ok_peer)

lemma coord_inv_stop:
  "coord_inv c \<Longrightarrow> coord_inv (on_snapshot endpoint_stop_discovery c)"
  by (erule coord_inv_frame) (simp_all add: on_snapshot_def endpoint_stop_discovery_def)

lemma coord_inv_abort:
  assumes "coord_inv c"
  shows "coord_inv (snd (cancel i c))" and "coord_inv (snd (fail i c))"
proof -
  have *: "coord_inv (c\<lparr>snapshot := (snapshot c)\<lparr>active_share := Some (share_set_phase q a), discovery := d\<rparr>\<rparr>)"
    if "active_share (snapshot c) = Some a" "q \<in> {Cancelled, Failed}" for a q d
    using assms that share_ok_set_phase [of "next_share_id c" a q] by (auto simp: coord_inv_def)
  show "coord_inv (snd (cancel i c))" "coord_inv (snd (fail i c))"
    using assms * by (auto simp: cancel_def fail_def endpoint_cancel_def endpoint_fail_def
        endpoint_stop_discovery_def split: option.splits)
qed

lemma coord_inv_start_share:
  assumes "coord_inv c"
    "share_ok (saturating_add_u64 (next_share_id c) 1) a"
  shows "coord_inv (c\<lparr>next_share_id := saturating_add_u64 (next_share_id c) 1,
                      snapshot := (snapshot c)\<lparr>active_share := Some a\<rparr>\<rparr>)"
    and "coord_inv (c\<lparr>next_share_id := saturating_add_u64 (next_share_id c) 1,
                      snapshot := (snapshot c)\<lparr>active_share := Some a, discovery := d\<rparr>\<rparr>)"
  using assms by (auto simp: coord_inv_def saturating_add_u64_bound)

lemma coord_inv_peers:
  "coord_inv c \<Longrightarrow> peers_ok ps \<Longrightarrow> coord_inv (c\<lparr>snapshot := (snapshot c)\<lparr>peers := ps\<rparr>\<rparr>)"
  by (simp add: coord_inv_def)

lemma coord_inv_peersD: "coord_inv c \<Longrightarrow> peers_ok (peers (snapshot c))"
  by (simp add: coord_inv_def)

lemma coord_inv_queue: 
  assumes "coord_inv c"
  shows "coord_inv (snd (queue_outbound_with_preference att b c))"
    and "coord_inv (snd (offer_inbound_sized att pid t c))"
  using assms coord_inv_start_share [OF assms] share_ok_new [of "next_share_id c"]
  by (auto simp: queue_outbound_with_preference_def offer_inbound_sized_def next_id_def Let_def
      on_snapshot_def endpoint_set_active_def endpoint_start_discovery_def coord_inv_def
      saturating_add_u64_bound split: option.splits simp del: One_nat_def)

lemma coord_inv_peer_ops:
  assumes "coord_inv c"
  shows "coord_inv (observe_peer i n c)" and "coord_inv (snd (pin_peer i c))"
    and "coord_inv (unpin_peers c)" and "coord_inv (snd (remove_peer i c))"
  using assms coord_inv_peersD [OF assms]
  by (auto simp: observe_peer_def pin_peer_def unpin_peers_def remove_peer_def on_snapshot_def
      endpoint_observe_peer_def endpoint_pin_peer_def endpoint_unpin_peers_def
      endpoint_remove_peer_def update_first_None split: option.splits
      intro!: coord_inv_peers intro: peers_ok_intros)


lemma coord_inv_share_ops:
  assumes "coord_inv c"
  shows "coord_inv (snd (record_progress i k c))"
    and "coord_inv (snd (record_observation i m r t g c))"
    and "coord_inv (snd (replace_attachment i att c))"
    and "coord_inv (snd (record_verification_code i code c))"
    and "coord_inv (snd (complete i c))"
    and "coord_inv (snd (select_peer i pid c))"
    and "coord_inv (snd (dismiss i c))"
proof -
  note D = coord_inv_activeD [OF assms]
  show "coord_inv (snd (record_progress i k c))"
    using assms D share_ok_record_progress
    by (auto simp: record_progress_def split_beta Let_def split: option.splits intro!: coord_inv_put)
  show "coord_inv (snd (record_verification_code i code c))"
    using assms D share_ok_record_code
    by (auto simp: record_verification_code_def split_beta Let_def split: option.splits intro!: coord_inv_put)
  show "coord_inv (snd (record_observation i m r t g c))"
    using assms D by (auto simp: record_observation_def split: option.splits intro!: coord_inv_put share_ok_observe)
  show "coord_inv (snd (replace_attachment i att c))"
    using assms D by (auto simp: replace_attachment_def split: option.splits intro!: coord_inv_put share_ok_replace)
  show "coord_inv (snd (complete i c))"
    using assms D share_ok_peer
    by (fastforce simp: complete_def split: option.splits intro!: coord_inv_put share_ok_set_phase)
  show "coord_inv (snd (select_peer i pid c))"
    using assms D
    by (auto simp: select_peer_def split: option.splits
        intro!: coord_inv_stop coord_inv_put share_ok_select)
  show "coord_inv (snd (dismiss i c))"
    using assms by (auto simp: dismiss_def endpoint_dismiss_def coord_inv_def split: option.splits)
qed

lemma coord_inv_misc:
  assumes "coord_inv c"
  shows "coord_inv (snd (discovery_timed_out c))" and "coord_inv (set_visibility_status st v c)"
    and "coord_inv (start_discovery c)" and "coord_inv (stop_discovery c)"
  using assms
  by (auto simp: coord_inv_def discovery_timed_out_def endpoint_discovery_timed_out_def
      set_visibility_status_def endpoint_set_visibility_status_def start_discovery_def
      stop_discovery_def on_snapshot_def endpoint_start_discovery_def endpoint_stop_discovery_def)

lemmas coord_inv_ops =
  coord_inv_transition coord_inv_abort coord_inv_queue coord_inv_peer_ops coord_inv_share_ops
  coord_inv_misc

lemma coord_inv_step: "coord_inv c \<Longrightarrow> coord_inv (coord_step op c)"
  by (cases op) (simp_all add: coord_inv_ops accept_by_peer_def accept_inbound_def
      reject_by_peer_def reject_inbound_def queue_outbound_def queue_outbound_unpinned_def)

interpretation coord: step_invariant coord_step coordinator_new coord_inv "\<lambda>_ _. True"
  by unfold_locales (auto intro: coord_inv_new coord_inv_step)

lemma step_to_moving:
  assumes "active_share (snapshot (coord_step op c)) = Some a"
    "sh_phase a = Transferring \<or> sh_phase a = Completed"
  shows "op \<in> {OpAcceptByPeer (sh_id a), OpAcceptInbound (sh_id a)} \<or>
    (\<exists>b. active_share (snapshot c) = Some b \<and> sh_id b = sh_id a \<and>
      (sh_phase b = Transferring \<or> sh_phase b = Completed))"
  using assms
  by (cases op) (auto simp: coord_op_defs share_defs Let_def split: coord_splits)

subsection \<open>Progress accounting\<close>

definition progress_ok :: "share_snapshot \<Rightarrow> bool" where
  "progress_ok a \<longleftrightarrow>
     sh_transferred_bytes a \<le> sh_total_bytes a \<and>
     (sh_phase a \<in> {AwaitingLocalConsent, AwaitingPeerConsent, WaitingForPeer, Rejected}
        \<longrightarrow> sh_transferred_bytes a = 0) \<and>
     (sh_phase a = Completed \<longrightarrow> sh_transferred_bytes a = sh_total_bytes a)"

definition coord_progress :: "coordinator \<Rightarrow> bool" where
  "coord_progress c \<longleftrightarrow> pred_option progress_ok (active_share (snapshot c))"

fun replace_in_time :: "coord_op \<Rightarrow> coordinator \<Rightarrow> bool" where
  "replace_in_time (OpReplaceAttachment i att) c =
     pred_option (\<lambda>a. sh_id a = i \<longrightarrow>
         sh_phase a \<noteq> Completed \<and> sh_transferred_bytes a \<le> byte_len att)
       (active_share (snapshot c))"
| "replace_in_time _ c = True"

lemma coord_progress_step:
  "coord_progress c \<Longrightarrow> replace_in_time op c \<Longrightarrow> coord_progress (coord_step op c)"
  by (cases op) (auto simp: coord_progress_def progress_ok_def coord_op_defs share_defs Let_def
      split: coord_splits)

interpretation coord_bytes: step_invariant coord_step coordinator_new coord_progress replace_in_time
proof unfold_locales
  show "coord_progress coordinator_new"
    by (simp add: coord_progress_def coordinator_new_def endpoint_idle_def)
qed (rule coord_progress_step)

lemma life_step_from_terminal:
  assumes "life_step x y" "is_terminal p" "x = (n, Some (i, d, p)) \<or> (\<exists>z. x = (n, z) \<and> (\<forall>d q. z \<noteq> Some (i, d, q)))" "i < n" "n \<le> u64_max"
  shows "i < fst y \<and> fst y \<le> u64_max \<and> (\<forall>d' q. snd y = Some (i, d', q) \<longrightarrow> q = p)"
  using assms
  by (induction rule: life_step.induct)
    (auto simp: saturating_add_u64_def is_terminal_def)

definition settled :: "nat \<Rightarrow> phase \<Rightarrow> coordinator \<Rightarrow> bool" where
  "settled i p c \<longleftrightarrow>
     i < next_share_id c \<and> next_share_id c \<le> u64_max \<and>
     pred_option (\<lambda>b. sh_id b = i \<longrightarrow> sh_phase b = p) (active_share (snapshot c))"

lemma settled_step:
  assumes "settled i p c" "is_terminal p"
  shows "settled i p (coord_step op c)"
proof -
  have "life_step (life_of c) (life_of (coord_step op c))"
    by (rule coord_step_sim)
  from life_step_from_terminal [OF this assms(2), of "next_share_id c" i]
  show ?thesis
    using assms(1)
    by (cases "active_share (snapshot c)"; cases "active_share (snapshot (coord_step op c))")
      (auto simp: settled_def life_of_def share_life_def)
qed

lemma settled_run: "settled i p c \<Longrightarrow> is_terminal p \<Longrightarrow> settled i p (run coord_step ops c)"
  by (induction ops arbitrary: c) (auto intro: settled_step)

fun issued :: "coord_op \<Rightarrow> coordinator \<Rightarrow> nat option" where
  "issued (OpOfferInbound a p t) c = fst (offer_inbound_sized a p t c)"
| "issued (OpQueueOutbound a) c = Some (fst (queue_outbound a c))"
| "issued (OpQueueUnpinned a) c = Some (fst (queue_outbound_unpinned a c))"
| "issued _ c = None"

fun issued_ids :: "coord_op list \<Rightarrow> coordinator \<Rightarrow> nat list" where
  "issued_ids [] c = []"
| "issued_ids (x # xs) c =
     (case issued x c of None \<Rightarrow> [] | Some i \<Rightarrow> [i]) @ issued_ids xs (coord_step x c)"

lemma issued_step:
  "(case issued x c of
      None \<Rightarrow> next_share_id (coord_step x c) = next_share_id c
    | Some i \<Rightarrow> i = next_share_id c \<and>
        next_share_id (coord_step x c) = saturating_add_u64 (next_share_id c) 1)"
  by (cases x) (auto simp: coord_op_defs Let_def split: coord_splits simp del: One_nat_def)

lemma next_share_id_step:
  "next_share_id c \<le> u64_max \<Longrightarrow>
   next_share_id c \<le> next_share_id (coord_step x c) \<and> next_share_id (coord_step x c) \<le> u64_max"
  using issued_step [of x c] by (auto simp: saturating_add_u64_def split: option.splits)

lemma next_share_id_run:
  "next_share_id c \<le> u64_max \<Longrightarrow> next_share_id c \<le> next_share_id (run coord_step xs c)"
proof (induction xs arbitrary: c)
  case (Cons x xs)
  then show ?case
    using next_share_id_step [OF Cons.prems, of x] Cons.IH [of "coord_step x c"] by force
qed simp

lemma issued_ids_upt:
  "next_share_id c \<le> u64_max \<Longrightarrow> next_share_id (run coord_step xs c) < u64_max \<Longrightarrow>
   issued_ids xs c = [next_share_id c ..< next_share_id (run coord_step xs c)]"
proof (induction xs arbitrary: c)
  case (Cons x xs)
  let ?d = "coord_step x c" and ?n = "next_share_id c"
  have d: "?n \<le> next_share_id ?d" "next_share_id ?d \<le> u64_max"
    using next_share_id_step [OF Cons.prems(1)] by auto
  have le: "next_share_id ?d \<le> next_share_id (run coord_step xs ?d)"
    using next_share_id_run [OF d(2)] .
  have IH: "issued_ids xs ?d = [next_share_id ?d ..< next_share_id (run coord_step xs ?d)]"
    using Cons.IH [OF d(2)] Cons.prems(2) by simp
  show ?case
  proof (cases "issued x c")
    case None
    then show ?thesis using issued_step [of x c] IH by simp
  next
    case (Some i)
    then have "i = ?n" "next_share_id ?d = saturating_add_u64 ?n 1"
      using issued_step [of x c] by auto
    moreover from this have "next_share_id ?d = Suc ?n"
      using le Cons.prems(2) by (simp add: saturating_add_u64_def min_def split: if_splits)
    ultimately show ?thesis using Some IH le by (simp add: upt_conv_Cons)
  qed
qed simp

lemma pin_peer_pins:
  assumes "fst (pin_peer pid c)"
  shows "\<exists>p. endpoint_pinned_peer (snapshot (snd (pin_peer pid c))) = Some p \<and> p_id p = pid"
proof -
  let ?f = "\<lambda>p. peer_set_pinned (p_id p = pid) p"
  have ps: "peers (snapshot (snd (pin_peer pid c))) = map ?f (peers (snapshot c))"
    and "endpoint_peer pid (snapshot c) \<noteq> None"
    using assms by (auto simp: pin_peer_def endpoint_pin_peer_def split: if_splits)
  then obtain q where q: "q \<in> set (peers (snapshot c))" "p_id q = pid"
    by (auto simp: endpoint_peer_def find_None)
  have "p_pinned (?f q)" "?f q \<in> set (map ?f (peers (snapshot c)))"
    using q by (simp add: peer_set_pinned_def, unfold set_map, intro imageI)
  then obtain p where p: "find p_pinned (map ?f (peers (snapshot c))) = Some p"
    by (cases "find p_pinned (map ?f (peers (snapshot c)))") (auto simp: find_None)
  from find_Some_set [OF p] have "p_id p = pid"
    by (auto simp: peer_set_pinned_def)
  with p ps show ?thesis by (simp add: endpoint_pinned_peer_def)
qed

text \<open>A complete inbound share, used to exercise the properties on a concrete run.\<close>

definition demo_ops :: "coord_op list" where
  "demo_ops =
     [OpObservePeer [65] [66], OpOfferInbound (AText [104, 105]) [65] None,
      OpRecordCode 1 [48, 49, 50, 51], OpAcceptInbound 1, OpRecordProgress 1 2, OpComplete 1]"

lemmas demo_simps =
  demo_ops_def coord_op_defs share_defs coordinator_new_def endpoint_idle_def peer_new_def
  u64_of_len_def endpoint_peer_def saturating_add_u64_def u64_max_def is_ascii_digit_def

lemma demo_completes:
  "\<exists>a. active_share (snapshot (run coord_step demo_ops coordinator_new)) = Some a \<and>
       sh_phase a = Completed \<and> sh_id a = 1 \<and> sh_transferred_bytes a = 2"
  by (simp add: demo_simps)

lemma demo_next_id: "next_share_id (run coord_step demo_ops coordinator_new) = 2"
  by (simp add: demo_simps)

subsection \<open>Properties\<close>

text \<open>
  C6. Every state the coordinator can reach is well formed: peer identifiers are distinct
  and at most one peer is pinned; the active share carries the decimal form of its own
  identifier, has the direction its phase belongs to and a peer whenever it is past peer
  selection; and a verification code is shown only while consent is pending and consists
  of four digits.
\<close>

theorem coord_reachable_inv: "coord_inv (run coord_step ops coordinator_new)"
  by (rule coord.inv_run) (simp add: allowed_run_all)

text \<open>
  C7. The coordinator implements the abstract share lifecycle: every operation, in every
  state, is a stutter, one edge of the phase diagram, the dismissal of a finished share, or
  the start of a share under the next identifier.
\<close>

theorem coordinator_refines_lifecycle: "life_step (life_of c) (life_of (coord_step op c))"
  by (rule coord_step_sim)

text \<open>
  C5. No bytes move without consent: if a run ends with a share that is transferring or
  completed, the run contains the peer's or the local user's acceptance of that very share.
\<close>

theorem transfer_requires_consent:
  assumes "active_share (snapshot (run coord_step ops coordinator_new)) = Some a"
    and "sh_phase a = Transferring \<or> sh_phase a = Completed"
  shows "OpAcceptByPeer (sh_id a) \<in> set ops \<or> OpAcceptInbound (sh_id a) \<in> set ops"
  using assms
proof (induction ops arbitrary: a rule: rev_induct)
  case Nil
  then show ?case by (simp add: coordinator_new_def endpoint_idle_def)
next
  case (snoc op ops)
  then show ?case
    using step_to_moving [of op "run coord_step ops coordinator_new" a] by fastforce
qed

theorem transfer_requires_consent_witness:
  "\<exists>a. active_share (snapshot (run coord_step demo_ops coordinator_new)) = Some a \<and>
       sh_phase a = Completed \<and>
       (OpAcceptByPeer (sh_id a) \<in> set demo_ops \<or> OpAcceptInbound (sh_id a) \<in> set demo_ops)"
  using demo_completes transfer_requires_consent [of demo_ops] by blast

text \<open>
  A finished share stays as it finished: once a share is cancelled, completed, failed or
  rejected, no later sequence of operations shows that share in another phase (short of an
  identifier at the very end of the 64-bit range).
\<close>

theorem terminal_is_final:
  assumes "coord_inv c" "active_share (snapshot c) = Some a" "is_terminal (sh_phase a)"
    and "sh_id a < u64_max"
    and "active_share (snapshot (run coord_step ops c)) = Some b" "sh_id b = sh_id a"
  shows "sh_phase b = sh_phase a"
proof -
  have "sh_id a < next_share_id c" "next_share_id c \<le> u64_max"
    using assms(1,2,4) by (auto simp: coord_inv_def share_ok_def)
  then have "settled (sh_id a) (sh_phase a) c"
    using assms(2) by (simp add: settled_def)
  from settled_run [OF this assms(3), of ops] show ?thesis
    using assms(5,6) by (simp add: settled_def)
qed

theorem terminal_is_final_witness:
  "\<exists>a. active_share (snapshot (run coord_step [OpCancel 1, OpFail 1, OpAcceptInbound 1]
            (run coord_step demo_ops coordinator_new))) = Some a \<and> sh_phase a = Completed"
proof -
  let ?c = "run coord_step demo_ops coordinator_new" and ?ops = "[OpCancel 1, OpFail 1, OpAcceptInbound 1]"
  obtain a where a: "active_share (snapshot ?c) = Some a" "sh_phase a = Completed" "sh_id a = 1"
    using demo_completes by blast
  have inv: "coord_inv ?c"
    by (rule coord.inv_run) (simp add: allowed_run_all)
  obtain b where b: "active_share (snapshot (run coord_step ?ops ?c)) = Some b" "sh_id b = sh_id a"
    using a by (simp add: coord_op_defs share_defs)
  have "sh_phase b = sh_phase a"
    by (rule terminal_is_final [OF inv a(1) _ _ b]) (simp_all add: a is_terminal_def u64_max_def)
  with a b show ?thesis by simp
qed

text \<open>
  Progress accounting: as long as an attachment is only replaced before completion by
  one that is not shorter than what has arrived, a share never reports more bytes than it
  declares, reports none before consent, and is completed only when every declared byte
  has been transferred.
\<close>

theorem coord_reachable_progress:
  assumes "allowed_run coord_step replace_in_time ops coordinator_new"
  shows "coord_progress (run coord_step ops coordinator_new)"
  using assms by (rule coord_bytes.inv_run)

theorem coord_reachable_progress_witness:
  "coord_progress (run coord_step demo_ops coordinator_new)"
  by (rule coord_reachable_progress) (simp add: demo_ops_def)

text \<open>
  Share identifiers are never reused: the identifiers a run hands out are consecutive
  from 1, in order, as long as the 64-bit counter has not saturated.
\<close>

theorem issued_ids_consecutive:
  assumes "next_share_id (run coord_step ops coordinator_new) < u64_max"
  shows "issued_ids ops coordinator_new = [1 ..< next_share_id (run coord_step ops coordinator_new)]"
  using issued_ids_upt [of coordinator_new ops] assms by (simp add: coordinator_new_def u64_max_def)

theorem issued_ids_consecutive_witness: "issued_ids demo_ops coordinator_new = [1]"
  using issued_ids_consecutive [of demo_ops] by (simp add: demo_next_id u64_max_def upt_conv_Cons)

text \<open>
  A pinned peer is preferred: after a successful pin, the next queued share goes to that
  peer and waits for its consent, without starting a search.
\<close>

theorem pinned_peer_is_used:
  assumes "fst (pin_peer pid c)"
  shows "\<exists>a p. active_share (snapshot (snd (queue_outbound att (snd (pin_peer pid c))))) = Some a \<and>
     sh_peer a = Some p \<and> p_id p = pid \<and> sh_phase a = AwaitingPeerConsent \<and>
     discovery (snapshot (snd (queue_outbound att (snd (pin_peer pid c))))) = discovery (snapshot c)"
proof -
  let ?d = "snd (pin_peer pid c)"
  obtain p where p: "endpoint_pinned_peer (snapshot ?d) = Some p" "p_id p = pid"
    using pin_peer_pins [OF assms] by blast
  have "discovery (snapshot ?d) = discovery (snapshot c)"
    by (simp add: pin_peer_def endpoint_pin_peer_def)
  then show ?thesis
    using p by (simp add: queue_outbound_def queue_outbound_with_preference_def next_id_def Let_def
        on_snapshot_def endpoint_set_active_def share_select_peer_def)
qed

theorem pinned_peer_is_used_witness:
  "\<exists>a p. active_share (snapshot (snd (queue_outbound (AText [104])
        (snd (pin_peer [65] (observe_peer [65] [66] coordinator_new)))))) = Some a \<and>
      sh_peer a = Some p \<and> p_id p = [65] \<and> sh_phase a = AwaitingPeerConsent"
  using pinned_peer_is_used [of "[65]" "observe_peer [65] [66] coordinator_new" "AText [104]"]
  by (auto simp: pin_peer_def endpoint_pin_peer_def endpoint_peer_def observe_peer_def
      on_snapshot_def endpoint_observe_peer_def coordinator_new_def endpoint_idle_def peer_new_def)

text \<open>
  \<open>replace_attachment\<close> checks neither direction nor phase: it also replaces the content of
  an outbound share, and can leave a share reporting more bytes transferred than declared.
\<close>

theorem replace_attachment_unguarded:
  "let ops = [OpObservePeer [65] [66], OpPinPeer [65], OpQueueOutbound (AText [104, 105]),
              OpAcceptByPeer 1, OpRecordProgress 1 2, OpReplaceAttachment 1 (AText [])]
   in \<exists>a. active_share (snapshot (run coord_step ops coordinator_new)) = Some a \<and>
          sh_direction a = Outbound \<and> sh_attachment a = AText [] \<and>
          sh_total_bytes a < sh_transferred_bytes a"
  by (simp add: demo_simps endpoint_pinned_peer_def peer_set_pinned_def)

end
