(* ===== verification/Conn_Messages.thy ===== *)
theory Conn_Messages
  imports Conn_Stream
begin

text \<open>
  The Nearby Connections messages as records: the generated structs of
  \<open>crates/core/wire/src/generated/location.nearby.connections.rs\<close> with the fields that the
  repository reads or sets. The enumeration values are the wire numbers of the generated
  enums, written as constants.
\<close>

record payload_header_msg =
  ph_id :: "int option"
  ph_type :: "int option"
  ph_total_size :: "int option"
  ph_file_name :: "rstring option"

record payload_chunk =
  pc_flags :: "int option"
  pc_offset :: "int option"
  pc_body :: "bytes option"

record control_message =
  cm_event :: "int option"
  cm_offset :: "int option"

record payload_transfer_frame =
  pt_packet_type :: "int option"
  pt_header :: "payload_header_msg option"
  pt_chunk :: "payload_chunk option"
  pt_control :: "control_message option"

record keep_alive_frame =
  ka_ack :: "bool option"
  ka_seq_num :: "nat option"

record disconnection_frame =
  df_request_safe :: "bool option"
  df_ack_safe :: "bool option"

record connection_request_frame =
  cr_endpoint_id :: "rstring option"
  cr_endpoint_name :: "bytes option"
  cr_handshake_data :: "bytes option"
  cr_endpoint_info :: "bytes option"

record connection_response_frame =
  cs_response :: "int option"
  cs_handshake_data :: "bytes option"

record service_address =
  sa_ip_address :: "bytes option"
  sa_port :: "int option"

record wifi_hotspot_credentials =
  wh_ssid :: "rstring option"
  wh_password :: "rstring option"
  wh_port :: "int option"
  wh_gateway :: "rstring option"
  wh_frequency :: "int option"
  wh_address_candidates :: "service_address list"

record wifi_lan_socket =
  wl_ip_address :: "bytes option"
  wl_wifi_port :: "int option"
  wl_address_candidates :: "service_address list"

record wifi_direct_credentials =
  wd_ssid :: "rstring option"
  wd_password :: "rstring option"
  wd_port :: "int option"
  wd_frequency :: "int option"
  wd_gateway :: "rstring option"
  wd_device_name :: "rstring option"
  wd_pin :: "rstring option"

record upgrade_path_request_msg =
  pr_mediums :: "int list"

record upgrade_path_info =
  up_medium :: "int option"
  up_wifi_hotspot :: "wifi_hotspot_credentials option"
  up_wifi_lan :: "wifi_lan_socket option"
  up_wifi_direct :: "wifi_direct_credentials option"
  up_supports_ack :: "bool option"
  up_request :: "upgrade_path_request_msg option"

record safe_to_close_msg =
  sc_sta_frequency :: "int option"

record client_introduction_msg =
  ci_endpoint_id :: "rstring option"
  ci_supports_disabling_encryption :: "bool option"
  ci_last_endpoint_id :: "rstring option"

record upgrade_negotiation_frame =
  un_event_type :: "int option"
  un_path_info :: "upgrade_path_info option"
  un_client_introduction :: "client_introduction_msg option"
  un_client_introduction_ack :: "unit option"
  un_safe_to_close :: "safe_to_close_msg option"

record v1_frame =
  v1_type :: "int option"
  v1_connection_request :: "connection_request_frame option"
  v1_connection_response :: "connection_response_frame option"
  v1_payload_transfer :: "payload_transfer_frame option"
  v1_upgrade :: "upgrade_negotiation_frame option"
  v1_keep_alive :: "keep_alive_frame option"
  v1_disconnection :: "disconnection_frame option"

record offline_frame =
  of_version :: "int option"
  of_v1 :: "v1_frame option"

subsection \<open>Wire numbers\<close>

named_theorems wire_numbers "the numeric values of the wire enumerations"

definition V1 :: int where [wire_numbers]: "V1 = 1"

definition CONNECTION_REQUEST :: int where [wire_numbers]: "CONNECTION_REQUEST = 1"
definition CONNECTION_RESPONSE :: int where [wire_numbers]: "CONNECTION_RESPONSE = 2"
definition PAYLOAD_TRANSFER :: int where [wire_numbers]: "PAYLOAD_TRANSFER = 3"
definition BANDWIDTH_UPGRADE_NEGOTIATION :: int where [wire_numbers]: "BANDWIDTH_UPGRADE_NEGOTIATION = 4"
definition KEEP_ALIVE :: int where [wire_numbers]: "KEEP_ALIVE = 5"
definition DISCONNECTION :: int where [wire_numbers]: "DISCONNECTION = 6"

text \<open>The frame types \<open>v1_event\<close> ignores: paired key, authentication, auto-resume and retry.\<close>

definition EXTENSIONS :: "int list" where [wire_numbers]: "EXTENSIONS = [7, 8, 9, 10, 11, 12]"

definition RESPONSE_ACCEPT :: int where [wire_numbers]: "RESPONSE_ACCEPT = 1"

definition TYPE_BYTES :: int where [wire_numbers]: "TYPE_BYTES = 1"
definition TYPE_FILE :: int where [wire_numbers]: "TYPE_FILE = 2"
definition LAST_CHUNK :: int where [wire_numbers]: "LAST_CHUNK = 1"

definition PACKET_DATA :: int where [wire_numbers]: "PACKET_DATA = 1"
definition PACKET_CONTROL :: int where [wire_numbers]: "PACKET_CONTROL = 2"
definition PACKET_PAYLOAD_ACK :: int where [wire_numbers]: "PACKET_PAYLOAD_ACK = 3"

definition PAYLOAD_ERROR :: int where [wire_numbers]: "PAYLOAD_ERROR = 1"
definition PAYLOAD_CANCELED :: int where [wire_numbers]: "PAYLOAD_CANCELED = 2"
definition PAYLOAD_RECEIVED_ACK :: int where [wire_numbers]: "PAYLOAD_RECEIVED_ACK = 3"

definition UPGRADE_PATH_AVAILABLE :: int where [wire_numbers]: "UPGRADE_PATH_AVAILABLE = 1"
definition LAST_WRITE :: int where [wire_numbers]: "LAST_WRITE = 2"
definition SAFE_TO_CLOSE :: int where [wire_numbers]: "SAFE_TO_CLOSE = 3"
definition CLIENT_INTRODUCTION :: int where [wire_numbers]: "CLIENT_INTRODUCTION = 4"
definition UPGRADE_FAILURE :: int where [wire_numbers]: "UPGRADE_FAILURE = 5"
definition CLIENT_INTRODUCTION_ACK :: int where [wire_numbers]: "CLIENT_INTRODUCTION_ACK = 6"
definition UPGRADE_PATH_REQUEST :: int where [wire_numbers]: "UPGRADE_PATH_REQUEST = 7"

subsection \<open>Defaults\<close>

definition v1_default :: v1_frame where
  "v1_default = \<lparr>v1_type = None, v1_connection_request = None, v1_connection_response = None,
     v1_payload_transfer = None, v1_upgrade = None, v1_keep_alive = None, v1_disconnection = None\<rparr>"

definition path_info_default :: upgrade_path_info where
  "path_info_default = \<lparr>up_medium = None, up_wifi_hotspot = None, up_wifi_lan = None,
     up_wifi_direct = None, up_supports_ack = None, up_request = None\<rparr>"

definition negotiation_default :: upgrade_negotiation_frame where
  "negotiation_default = \<lparr>un_event_type = None, un_path_info = None, un_client_introduction = None,
     un_client_introduction_ack = None, un_safe_to_close = None\<rparr>"

end
