(* ===== verification/Conn_Upgrade.thy ===== *)
theory Conn_Upgrade
  imports Conn_Messages
begin

text \<open>
  The bandwidth-upgrade vocabulary of \<open>crates/core/connections/src/session/upgrade.rs\<close>: media and
  their wire numbers and ranks, the upgrade decision, and the credentials with both directions
  of their wire encoding. \<open>Ipv4Addr\<close> of the standard library is its four octets, with the
  dotted-decimal text \<open>to_string\<close> prints and \<open>parse\<close> accepts.
\<close>

datatype medium = Ble | Bluetooth | WifiLan | WifiHotspot | WifiDirect

datatype upgrade_decision = Stay | Upgrade medium | Fallback medium

datatype upgrade_state = UpIdle | UpOffered medium | UpAccepted medium | UpFailed medium medium

fun from_wire :: "int \<Rightarrow> medium option" where
  "from_wire v =
     (if v = 4 then Some Ble else if v = 2 then Some Bluetooth else if v = 5 then Some WifiLan
      else if v = 3 then Some WifiHotspot else if v = 8 then Some WifiDirect else None)"

fun rank :: "medium \<Rightarrow> nat" where
  "rank Ble = 1"
| "rank Bluetooth = 2"
| "rank WifiLan = 3"
| "rank WifiHotspot = 4"
| "rank WifiDirect = 4"

fun to_wire :: "medium \<Rightarrow> int" where
  "to_wire Ble = 4"
| "to_wire Bluetooth = 2"
| "to_wire WifiLan = 5"
| "to_wire WifiHotspot = 3"
| "to_wire WifiDirect = 8"

definition from_media :: "medium \<Rightarrow> medium \<Rightarrow> upgrade_decision" where
  "from_media current offered = (if rank offered > rank current then Upgrade offered else Stay)"

lemma from_to_wire [simp]: "from_wire (to_wire m) = Some m"
  by (cases m) simp_all

lemma to_from_wire: "from_wire v = Some m \<Longrightarrow> to_wire m = v"
  by (auto split: if_splits)

subsection \<open>IPv4 addresses\<close>

type_synonym ipv4 = "byte \<times> byte \<times> byte \<times> byte"

fun ipv4_octets :: "ipv4 \<Rightarrow> bytes" where
  "ipv4_octets (a, b, c, d) = [a, b, c, d]"

definition DOT :: byte where "DOT = 46"

fun ipv4_to_string :: "ipv4 \<Rightarrow> rstring" where
  "ipv4_to_string (a, b, c, d) =
     decimal (unat a) @ DOT # decimal (unat b) @ DOT # decimal (unat c) @ DOT # decimal (unat d)"

fun split_dot :: "rstring \<Rightarrow> rstring list" where
  "split_dot [] = [[]]"
| "split_dot (b # bs) =
     (if b = DOT then [] # split_dot bs
      else case split_dot bs of [] \<Rightarrow> [[b]] | p # ps \<Rightarrow> (b # p) # ps)"

text \<open>One octet: one to three decimal digits, no superfluous leading zero, at most 255.\<close>

definition parse_octet :: "rstring \<Rightarrow> byte option" where
  "parse_octet p =
     (if p = [] \<or> length p > 3 \<or> \<not> list_all is_ascii_digit p \<or> (length p > 1 \<and> hd p = digit 0) \<or>
         undecimal p > 255
      then None else Some (word_of_nat (undecimal p)))"

definition ipv4_parse :: "rstring \<Rightarrow> ipv4 option" where
  "ipv4_parse s =
     (case map parse_octet (split_dot s) of
        [Some a, Some b, Some c, Some d] \<Rightarrow> Some (a, b, c, d)
      | _ \<Rightarrow> None)"

lemma split_dot_append:
  "DOT \<notin> set p \<Longrightarrow> split_dot (p @ DOT # r) = p # split_dot r"
  by (induction p) auto

lemma split_dot_last: "DOT \<notin> set p \<Longrightarrow> split_dot p = [p]"
  by (induction p) auto

lemma DOT_not_decimal [simp]: "DOT \<notin> set (decimal n)"
  using decimal_digits [of n] by (auto simp: DOT_def is_ascii_digit_def)

lemma decimal_nonempty [simp]: "decimal n \<noteq> []"
  by (subst decimal.simps) simp

lemma digit_inj: "a < 10 \<Longrightarrow> b < 10 \<Longrightarrow> digit a = digit b \<Longrightarrow> a = b"
  by (metis add_left_cancel unat_digit)

lemma decimal_no_leading_zero: "0 < n \<Longrightarrow> hd (decimal n) \<noteq> digit 0"
proof (induction n rule: decimal.induct)
  case (1 n)
  then show ?case
    using digit_inj [of n 0] by (subst decimal.simps) auto
qed

lemma length_decimal_byte: "n < 256 \<Longrightarrow> length (decimal n) \<le> 3"
  by (subst decimal.simps, subst decimal.simps, subst decimal.simps, subst decimal.simps) auto

lemma parse_octet_decimal [simp]: "parse_octet (decimal (unat b)) = Some b"
proof -
  have "unat b < 256" by (rule unat_byte_less)
  moreover have "hd (decimal (unat b)) \<noteq> digit 0 \<or> length (decimal (unat b)) \<le> 1"
    using decimal_no_leading_zero [of "unat b"] by (cases "unat b = 0") (simp_all add: decimal.simps)
  ultimately show ?thesis
    using length_decimal_byte [of "unat b"] decimal_digits [of "unat b"]
    by (auto simp: parse_octet_def list_all_iff)
qed

lemma ipv4_parse_to_string [simp]: "ipv4_parse (ipv4_to_string a) = Some a"
  by (cases a) (simp add: ipv4_parse_def split_dot_append split_dot_last)

subsection \<open>Credentials\<close>

record upgrade_credentials =
  uc_frequency :: "int option"
  uc_gateway :: "ipv4 option"
  uc_ip_address :: "ipv4 option"
  uc_password :: "rstring option"
  uc_port :: "nat option"
  uc_ssid :: "rstring option"
  uc_device_name :: "rstring option"
  uc_pin :: "rstring option"

datatype upgrade_event =
    PathRequest "medium list"
  | PathAvailable medium upgrade_credentials
  | LastWriteToPriorChannel
  | SafeToClosePriorChannel "int option"
  | ClientIntroduction rstring
  | ClientIntroductionAck
  | UpgradeFailed medium

definition credentials_default :: upgrade_credentials where
  "credentials_default = \<lparr>uc_frequency = None, uc_gateway = None, uc_ip_address = None,
     uc_password = None, uc_port = None, uc_ssid = None, uc_device_name = None, uc_pin = None\<rparr>"

definition ipv4_addr :: "bytes option \<Rightarrow> ipv4 option" where
  "ipv4_addr v =
     (case v of Some [a, b, c, d] \<Rightarrow> Some (a, b, c, d) | _ \<Rightarrow> None)"

fun find_map :: "('a \<Rightarrow> 'b option) \<Rightarrow> 'a list \<Rightarrow> 'b option" where
  "find_map f [] = None"
| "find_map f (x # xs) = (case f x of None \<Rightarrow> find_map f xs | Some y \<Rightarrow> Some y)"

definition or_else :: "'a option \<Rightarrow> 'a option \<Rightarrow> 'a option" where
  "or_else x y = (case x of None \<Rightarrow> y | Some v \<Rightarrow> Some v)"

definition from_direct :: "wifi_direct_credentials \<Rightarrow> upgrade_credentials" where
  "from_direct w =
     (let gateway = Option.bind (wd_gateway w) ipv4_parse in
      \<lparr>uc_frequency = wd_frequency w, uc_gateway = gateway, uc_ip_address = gateway,
       uc_password = wd_password w, uc_port = Option.bind (wd_port w) u16_of_i32,
       uc_ssid = wd_ssid w, uc_device_name = wd_device_name w, uc_pin = wd_pin w\<rparr>)"

definition from_hotspot :: "wifi_hotspot_credentials \<Rightarrow> upgrade_credentials" where
  "from_hotspot w =
     \<lparr>uc_frequency = wh_frequency w,
      uc_gateway = Option.bind (wh_gateway w) ipv4_parse,
      uc_ip_address = find_map (\<lambda>e. ipv4_addr (sa_ip_address e)) (wh_address_candidates w),
      uc_password = wh_password w,
      uc_port = or_else (find_map (\<lambda>e. Option.bind (sa_port e) u16_of_i32) (wh_address_candidates w))
                  (Option.bind (wh_port w) u16_of_i32),
      uc_ssid = wh_ssid w, uc_device_name = None, uc_pin = None\<rparr>"

definition from_lan :: "wifi_lan_socket \<Rightarrow> upgrade_credentials" where
  "from_lan w =
     \<lparr>uc_frequency = None, uc_gateway = None,
      uc_ip_address = or_else (find_map (\<lambda>e. ipv4_addr (sa_ip_address e)) (wl_address_candidates w))
                        (ipv4_addr (wl_ip_address w)),
      uc_password = None,
      uc_port = or_else (find_map (\<lambda>e. Option.bind (sa_port e) u16_of_i32) (wl_address_candidates w))
                  (Option.bind (wl_wifi_port w) u16_of_i32),
      uc_ssid = None, uc_device_name = None, uc_pin = None\<rparr>"

definition from_path_info :: "upgrade_path_info \<Rightarrow> upgrade_credentials" where
  "from_path_info info =
     (case up_wifi_hotspot info of
        Some w \<Rightarrow> from_hotspot w
      | None \<Rightarrow>
        (case up_wifi_direct info of
           Some w \<Rightarrow> from_direct w
         | None \<Rightarrow>
           (case up_wifi_lan info of
              Some w \<Rightarrow> from_lan w
            | None \<Rightarrow> credentials_default)))"

definition address_candidates :: "upgrade_credentials \<Rightarrow> service_address list" where
  "address_candidates c =
     (let port = map_option int (uc_port c) in
      (case uc_ip_address c of
         None \<Rightarrow> []
       | Some a \<Rightarrow> [\<lparr>sa_ip_address = Some (ipv4_octets a), sa_port = port\<rparr>]) @
      (case uc_gateway c of
         None \<Rightarrow> []
       | Some g \<Rightarrow>
           if uc_ip_address c \<noteq> Some g
           then [\<lparr>sa_ip_address = Some (ipv4_octets g), sa_port = port\<rparr>] else []))"

definition into_path_info :: "upgrade_credentials \<Rightarrow> medium \<Rightarrow> upgrade_path_info" where
  "into_path_info c m =
     (let tcp_ip = or_else (uc_gateway c) (uc_ip_address c);
          candidates = address_candidates c;
          info = path_info_default\<lparr>up_medium := Some (to_wire m), up_supports_ack := Some True\<rparr>
      in case m of
           WifiHotspot \<Rightarrow> info\<lparr>up_wifi_hotspot := Some
             \<lparr>wh_ssid = uc_ssid c, wh_password = uc_password c, wh_port = map_option int (uc_port c),
              wh_gateway = map_option ipv4_to_string tcp_ip, wh_frequency = uc_frequency c,
              wh_address_candidates = candidates\<rparr>\<rparr>
         | WifiDirect \<Rightarrow> info\<lparr>up_wifi_direct := Some
             \<lparr>wd_ssid = uc_ssid c, wd_password = uc_password c, wd_port = map_option int (uc_port c),
              wd_frequency = uc_frequency c, wd_gateway = map_option ipv4_to_string tcp_ip,
              wd_device_name = uc_device_name c, wd_pin = uc_pin c\<rparr>\<rparr>
         | WifiLan \<Rightarrow> info\<lparr>up_wifi_lan := Some
             \<lparr>wl_ip_address = map_option ipv4_octets (uc_ip_address c),
              wl_wifi_port = map_option int (uc_port c), wl_address_candidates = candidates\<rparr>\<rparr>
         | Ble \<Rightarrow> info
         | Bluetooth \<Rightarrow> info)"

subsection \<open>What the peer recovers\<close>

lemma ipv4_addr_octets [simp]: "ipv4_addr (Some (ipv4_octets a)) = Some a"
  by (cases a) (simp add: ipv4_addr_def)

lemma u16_of_port [simp]: "n \<le> u16_max \<Longrightarrow> u16_of_i32 (int n) = Some n"
  by (simp add: u16_of_i32_def)

lemma candidates_ip: "find_map (\<lambda>e. ipv4_addr (sa_ip_address e)) (address_candidates c) =
    or_else (uc_ip_address c) (uc_gateway c)"
  by (cases "uc_ip_address c"; cases "uc_gateway c")
    (simp_all add: address_candidates_def or_else_def Let_def del: ipv4_octets.simps)

lemma candidates_port:
  assumes "uc_ip_address c \<noteq> None \<or> uc_gateway c \<noteq> None" and "pred_option (\<lambda>n. n \<le> u16_max) (uc_port c)"
  shows "find_map (\<lambda>e. Option.bind (sa_port e) u16_of_i32) (address_candidates c) = uc_port c"
  using assms by (cases "uc_port c"; cases "uc_ip_address c"; cases "uc_gateway c")
    (simp_all add: address_candidates_def Let_def del: ipv4_octets.simps)

lemma candidates_empty: "uc_ip_address c = None \<Longrightarrow> uc_gateway c = None \<Longrightarrow> address_candidates c = []"
  by (simp add: address_candidates_def)

lemma candidates_port_or:
  assumes "pred_option (\<lambda>n. n \<le> u16_max) (uc_port c)"
  shows "or_else (find_map (\<lambda>e. Option.bind (sa_port e) u16_of_i32) (address_candidates c))
     (Option.bind (map_option int (uc_port c)) u16_of_i32) = uc_port c"
proof (cases "uc_ip_address c \<noteq> None \<or> uc_gateway c \<noteq> None")
  case True
  then show ?thesis using candidates_port [OF _ assms] assms
    by (cases "uc_port c") (simp_all add: or_else_def)
next
  case False
  then have "address_candidates c = []" using candidates_empty [of c] by blast
  then show ?thesis using assms by (cases "uc_port c") (simp_all add: or_else_def)
qed

text \<open>The credentials as the other side reads them, for each medium that carries them.\<close>

definition received_credentials :: "medium \<Rightarrow> upgrade_credentials \<Rightarrow> upgrade_credentials" where
  "received_credentials m c =
     (let route = or_else (uc_gateway c) (uc_ip_address c) in
      case m of
        WifiHotspot \<Rightarrow> c\<lparr>uc_gateway := route, uc_ip_address := or_else (uc_ip_address c) (uc_gateway c),
                         uc_device_name := None, uc_pin := None\<rparr>
      | WifiDirect \<Rightarrow> c\<lparr>uc_gateway := route, uc_ip_address := route\<rparr>
      | WifiLan \<Rightarrow> credentials_default\<lparr>
            uc_ip_address := or_else (uc_ip_address c) (uc_gateway c), uc_port := uc_port c\<rparr>
      | _ \<Rightarrow> credentials_default)"

text \<open>
  Credentials of an upgrade path survive the wire: decoding what \<open>into_path_info\<close> encodes
  for a medium gives the same network name, passphrase, frequency and port (for the media that
  have them), an address whenever either the address or the gateway was known, and the medium
  itself. With both known, a hotspot keeps both, a LAN path keeps the address, and a Wi-Fi
  Direct path keeps the gateway.
\<close>

theorem credentials_roundtrip:
  assumes "pred_option (\<lambda>n. n \<le> u16_max) (uc_port c)"
  shows "from_path_info (into_path_info c m) = received_credentials m c \<and>
     Option.bind (up_medium (into_path_info c m)) from_wire = Some m"
proof -
  have g: "Option.bind (map_option ipv4_to_string x) ipv4_parse = x" for x
    by (cases x) simp_all
  have p: "Option.bind (map_option int (uc_port c)) u16_of_i32 = uc_port c"
    using assms by (cases "uc_port c") simp_all
  have i: "or_else (or_else (uc_ip_address c) (uc_gateway c)) (ipv4_addr (map_option ipv4_octets (uc_ip_address c))) =
      or_else (uc_ip_address c) (uc_gateway c)"
    by (cases "uc_ip_address c"; cases "uc_gateway c") (simp_all add: or_else_def ipv4_addr_def)
  show ?thesis
    using candidates_port_or [OF assms]
    by (cases m)
      (simp_all add: into_path_info_def from_path_info_def received_credentials_def Let_def
        from_hotspot_def from_direct_def from_lan_def path_info_default_def credentials_default_def
        candidates_ip g p i del: bind_map_option)
qed

theorem credentials_roundtrip_witness:
  "let c = credentials_default\<lparr>uc_gateway := Some (192, 168, 49, 1), uc_port := Some 4242,
         uc_ssid := Some (ascii ''DIRECT-qs'')\<rparr> in
   from_path_info (into_path_info c WifiDirect) = c\<lparr>uc_ip_address := Some (192, 168, 49, 1)\<rparr>"
  using credentials_roundtrip [of "credentials_default\<lparr>uc_gateway := Some (192, 168, 49, 1),
      uc_port := Some 4242, uc_ssid := Some (ascii ''DIRECT-qs'')\<rparr>" WifiDirect]
  by (simp add: credentials_default_def received_credentials_def or_else_def u16_max_def Let_def)

text \<open>The media a connection moves through when it is offered \<open>ms\<close> in turn.\<close>

fun follow_upgrades :: "medium \<Rightarrow> medium list \<Rightarrow> medium list" where
  "follow_upgrades current [] = []"
| "follow_upgrades current (m # ms) =
     (case from_media current m of
        Upgrade m' \<Rightarrow> m' # follow_upgrades m' ms
      | _ \<Rightarrow> follow_upgrades current ms)"

lemma follow_upgrades_bound: "rank m + length (follow_upgrades m ms) \<le> 4"
proof (induction ms arbitrary: m)
  case Nil
  then show ?case by (cases m) simp_all
next
  case (Cons x xs)
  from Cons.IH [of x] Cons.IH [of m] show ?case by (auto simp: from_media_def)
qed

text \<open>
  An upgrade is only ever chosen towards a strictly higher-ranked medium, never as a
  downgrade or sideways, so that a connection can move at most three times.
\<close>

theorem upgrades_only_rise:
  "(from_media current offered = Upgrade m \<longleftrightarrow> m = offered \<and> rank current < rank offered) \<and>
   sorted_wrt (<) (map rank (current # follow_upgrades current ms)) \<and>
   length (follow_upgrades current ms) \<le> 3"
proof -
  have s: "sorted_wrt (<) (map rank (c # follow_upgrades c xs))" for c xs
    by (induction xs arbitrary: c) (auto simp: from_media_def intro: less_trans)
  have "1 \<le> rank current" by (cases current) simp_all
  then have "length (follow_upgrades current ms) \<le> 3"
    using follow_upgrades_bound [of current ms] by simp
  with s show ?thesis by (auto simp: from_media_def)
qed

end
