(* ===== verification/Conn_Frames.thy ===== *)
theory Conn_Frames
  imports Conn_Upgrade
begin

unbundle bit_operations_syntax

text \<open>
  The frame builders and validators of \<open>protocol/frames.rs\<close> and \<open>session/frame.rs\<close>. Every
  builder sets the fields the source sets and leaves the rest at their defaults; every
  validator returns the source's error on each of its branches.
\<close>

definition MAX_PAYLOAD_LENGTH :: int where "MAX_PAYLOAD_LENGTH = 1024 * 1024 * 1024"

datatype payload_kind = KBytes | KFile

record connection_options =
  co_id :: rstring
  co_info :: bytes
  co_medium :: medium
  co_name :: rstring

definition connection_options_new :: "rstring \<Rightarrow> rstring \<Rightarrow> connection_options" where
  "connection_options_new i n = \<lparr>co_id = i, co_info = [], co_medium = WifiLan, co_name = n\<rparr>"

definition with_endpoint_info :: "bytes \<Rightarrow> connection_options \<Rightarrow> connection_options" where
  "with_endpoint_info i opts = opts\<lparr>co_info := i\<rparr>"

definition with_medium :: "medium \<Rightarrow> connection_options \<Rightarrow> connection_options" where
  "with_medium m opts = opts\<lparr>co_medium := m\<rparr>"

subsection \<open>Builders\<close>

definition offline :: "v1_frame \<Rightarrow> offline_frame" where
  "offline v = \<lparr>of_version = Some V1, of_v1 = Some v\<rparr>"

definition request :: "connection_options \<Rightarrow> offline_frame" where
  "request opts = offline (v1_default\<lparr>v1_type := Some CONNECTION_REQUEST,
     v1_connection_request := Some
       \<lparr>cr_endpoint_id = Some (co_id opts), cr_endpoint_name = Some (co_name opts),
        cr_handshake_data = None,
        cr_endpoint_info = (if co_info opts = [] then None else Some (co_info opts))\<rparr>\<rparr>)"

definition response :: offline_frame where
  "response = offline (v1_default\<lparr>v1_type := Some CONNECTION_RESPONSE,
     v1_connection_response := Some \<lparr>cs_response = Some RESPONSE_ACCEPT, cs_handshake_data = None\<rparr>\<rparr>)"

definition payload_header ::
  "int \<Rightarrow> payload_kind \<Rightarrow> int \<Rightarrow> rstring option \<Rightarrow> conn_error + payload_header_msg" where
  "payload_header i kind sz name =
     (if \<not> (0 \<le> sz \<and> sz \<le> MAX_PAYLOAD_LENGTH) then Inl EInvalidPayload
      else Inr \<lparr>ph_id = Some i,
                ph_type = Some (case kind of KBytes \<Rightarrow> TYPE_BYTES | KFile \<Rightarrow> TYPE_FILE),
                ph_total_size = Some sz, ph_file_name = name\<rparr>)"

definition data_frame :: "payload_header_msg \<Rightarrow> int \<Rightarrow> bytes \<Rightarrow> bool \<Rightarrow> offline_frame" where
  "data_frame header offset bs is_last = offline (v1_default\<lparr>v1_type := Some PAYLOAD_TRANSFER,
     v1_payload_transfer := Some
       \<lparr>pt_packet_type = Some PACKET_DATA, pt_header = Some header,
        pt_chunk = Some \<lparr>pc_flags = Some (if is_last then LAST_CHUNK else 0), pc_offset = Some offset,
                         pc_body = Some bs\<rparr>,
        pt_control = None\<rparr>\<rparr>)"

definition keepalive :: "bool \<Rightarrow> nat \<Rightarrow> offline_frame" where
  "keepalive ack sequence = offline (v1_default\<lparr>v1_type := Some KEEP_ALIVE,
     v1_keep_alive := Some \<lparr>ka_ack = Some ack, ka_seq_num = Some sequence\<rparr>\<rparr>)"

definition disconnect_frame :: offline_frame where
  "disconnect_frame = offline (v1_default\<lparr>v1_type := Some DISCONNECTION,
     v1_disconnection := Some \<lparr>df_request_safe = None, df_ack_safe = None\<rparr>\<rparr>)"

definition upgrade_path_available :: "int \<Rightarrow> upgrade_credentials \<Rightarrow> offline_frame" where
  "upgrade_path_available m creds =
     (let info = (case from_wire m of
                    None \<Rightarrow> path_info_default\<lparr>up_medium := Some m\<rparr>
                  | Some v \<Rightarrow> into_path_info creds v)
      in offline (v1_default\<lparr>v1_type := Some BANDWIDTH_UPGRADE_NEGOTIATION,
           v1_upgrade := Some (negotiation_default\<lparr>un_event_type := Some UPGRADE_PATH_AVAILABLE,
             un_path_info := Some info\<rparr>)\<rparr>))"

definition upgrade_negotiation :: "int \<Rightarrow> upgrade_negotiation_frame \<Rightarrow> offline_frame" where
  "upgrade_negotiation ev frame = offline (v1_default\<lparr>v1_type := Some BANDWIDTH_UPGRADE_NEGOTIATION,
     v1_upgrade := Some (frame\<lparr>un_event_type := Some ev\<rparr>)\<rparr>)"

definition upgrade_failure :: "int \<Rightarrow> offline_frame" where
  "upgrade_failure m = upgrade_negotiation UPGRADE_FAILURE
     (negotiation_default\<lparr>un_path_info := Some (path_info_default\<lparr>up_medium := Some m\<rparr>)\<rparr>)"

definition upgrade_path_request :: "int list \<Rightarrow> offline_frame" where
  "upgrade_path_request ms = upgrade_negotiation UPGRADE_PATH_REQUEST
     (negotiation_default\<lparr>un_path_info :=
        Some (path_info_default\<lparr>up_request := Some \<lparr>pr_mediums = ms\<rparr>\<rparr>)\<rparr>)"

definition last_write_to_prior_channel :: offline_frame where
  "last_write_to_prior_channel = upgrade_negotiation LAST_WRITE negotiation_default"

definition safe_to_close_prior_channel :: offline_frame where
  "safe_to_close_prior_channel = upgrade_negotiation SAFE_TO_CLOSE
     (negotiation_default\<lparr>un_safe_to_close := Some \<lparr>sc_sta_frequency = None\<rparr>\<rparr>)"

definition client_introduction :: "rstring \<Rightarrow> offline_frame" where
  "client_introduction i = upgrade_negotiation CLIENT_INTRODUCTION
     (negotiation_default\<lparr>un_client_introduction := Some
        \<lparr>ci_endpoint_id = Some i, ci_supports_disabling_encryption = Some False,
         ci_last_endpoint_id = None\<rparr>\<rparr>)"

definition client_introduction_ack :: offline_frame where
  "client_introduction_ack = upgrade_negotiation CLIENT_INTRODUCTION_ACK
     (negotiation_default\<lparr>un_client_introduction_ack := Some ()\<rparr>)"

subsection \<open>Validators\<close>

definition request_data :: "offline_frame \<Rightarrow> conn_error + unit" where
  "request_data f =
     (case of_v1 f of
        None \<Rightarrow> Inl EUnexpectedFrame
      | Some v \<Rightarrow>
          if v1_type v \<noteq> Some CONNECTION_REQUEST then Inl EUnexpectedFrame
          else case v1_connection_request v of
                 None \<Rightarrow> Inl EUnexpectedFrame
               | Some r \<Rightarrow> if cr_handshake_data r \<noteq> None then Inl EUnexpectedFrame else Inr ())"

definition response_data :: "offline_frame \<Rightarrow> conn_error + unit" where
  "response_data f =
     (case of_v1 f of
        None \<Rightarrow> Inl EUnexpectedFrame
      | Some v \<Rightarrow>
          if v1_type v \<noteq> Some CONNECTION_RESPONSE then Inl EUnexpectedFrame
          else case v1_connection_response v of
                 None \<Rightarrow> Inl EUnexpectedFrame
               | Some r \<Rightarrow>
                   (case cs_response r of
                      None \<Rightarrow> Inl ERejected
                    | Some status \<Rightarrow>
                        if status \<noteq> RESPONSE_ACCEPT then Inl ERejected
                        else if cs_handshake_data r \<noteq> None then Inl EUnexpectedFrame
                        else Inr ()))"

definition decoded :: "payload_chunk \<Rightarrow> conn_error + int \<times> bytes \<times> bool" where
  "decoded chunk =
     (let offset = (case pc_offset chunk of None \<Rightarrow> - 1 | Some v \<Rightarrow> v) in
      case pc_flags chunk of
        None \<Rightarrow> Inl EInvalidPayload
      | Some flags \<Rightarrow>
          let is_last = (flags AND LAST_CHUNK \<noteq> 0) in
          (case (case pc_body chunk of Some b \<Rightarrow> Some b | None \<Rightarrow> if is_last then Some [] else None) of
             None \<Rightarrow> Inl EInvalidPayload
           | Some bs \<Rightarrow>
               if offset < 0 then Inl EInvalidPayload
               else if length bs > MAX_FRAME_LENGTH then Inl EInvalidPayload
               else Inr (offset, bs, is_last)))"

definition payload_header_data :: "payload_header_msg \<Rightarrow> conn_error + int \<times> int \<times> payload_kind" where
  "payload_header_data h =
     (case ph_id h of
        None \<Rightarrow> Inl EInvalidPayload
      | Some i \<Rightarrow>
        (case ph_total_size h of
           None \<Rightarrow> Inl EInvalidPayload
         | Some sz \<Rightarrow>
             if \<not> (0 \<le> sz \<and> sz \<le> MAX_PAYLOAD_LENGTH) then Inl EInvalidPayload
             else if ph_type h = Some TYPE_BYTES then Inr (i, sz, KBytes)
             else if ph_type h = Some TYPE_FILE then Inr (i, sz, KFile)
             else Inl EInvalidPayload))"

subsection \<open>What is built is accepted\<close>

lemma request_accepted [simp]: "request_data (request opts) = Inr ()"
  by (simp add: request_data_def request_def offline_def v1_default_def)

lemma response_accepted [simp]: "response_data response = Inr ()"
  by (simp add: response_data_def response_def offline_def v1_default_def)

lemma payload_header_Inr:
  "payload_header i kind sz name = Inr h \<Longrightarrow>
     0 \<le> sz \<and> sz \<le> MAX_PAYLOAD_LENGTH \<and> ph_file_name h = name \<and> payload_header_data h = Inr (i, sz, kind)"
  by (cases kind)
    (auto simp: payload_header_def payload_header_data_def wire_numbers split: if_splits)

lemma and_last_chunk: "(n AND LAST_CHUNK \<noteq> 0) = odd n"
  by (simp add: LAST_CHUNK_def and_one_eq odd_iff_mod_2_eq_one)

lemma decoded_Inr:
  "decoded c = Inr (offset, bs, is_last) \<Longrightarrow>
     0 \<le> offset \<and> length bs \<le> MAX_FRAME_LENGTH \<and> pc_offset c = Some offset"
  by (auto simp: decoded_def Let_def split: option.splits if_splits)

lemma decoded_chunk:
  "0 \<le> offset \<Longrightarrow> length bs \<le> MAX_FRAME_LENGTH \<Longrightarrow>
     decoded \<lparr>pc_flags = Some (if is_last then LAST_CHUNK else 0), pc_offset = Some offset, pc_body = Some bs\<rparr> =
       Inr (offset, bs, is_last)"
  by (simp add: decoded_def LAST_CHUNK_def Let_def)

lemma payload_header_data_bounds:
  "payload_header_data h = Inr (i, sz, k) \<Longrightarrow> 0 \<le> sz \<and> sz \<le> MAX_PAYLOAD_LENGTH"
  by (auto simp: payload_header_data_def split: option.splits if_splits)

end
