(* ===== verification/Crypto_Primitives.thy ===== *)
theory Crypto_Primitives
  imports QS_Prelude
begin

text \<open>
  The messages and primitives of \<open>crates/core/crypto\<close>. The cryptographic crates (SHA-2,
  HKDF, HMAC, AES-CBC, P-256) and the protobuf codec are third-party code: they are the
  fields of the record \<open>crypto\<close>, an argument of every definition that calls them, and the
  documented behaviour the code relies on is the predicates \<open>sym_ok\<close> and
  \<open>ukey2_ok\<close>. The functions of
  \<open>primitives.rs\<close> themselves are translated in full.
\<close>

subsection \<open>Wire messages of the secure layers\<close>

record device_to_device_message =
  d2d_message :: "bytes option"
  d2d_sequence_number :: "int option"

record gcm_metadata =
  gm_type :: int
  gm_version :: "int option"

record sm_header =
  signature_scheme :: int
  encryption_scheme :: int
  verification_key_id :: "bytes option"
  decryption_key_id :: "bytes option"
  h_iv :: "bytes option"
  public_metadata :: "bytes option"
  associated_data_length :: "nat option"

record header_and_body_internal =
  hb_header :: bytes
  hb_body :: bytes

record secure_message =
  sm_header_and_body :: bytes
  sm_signature :: bytes

record ec_p256_public_key =
  ec_x :: bytes
  ec_y :: bytes

record simple_rsa_public_key =
  rsa_n :: bytes
  rsa_e :: "int option"

record generic_public_key =
  gpk_type :: int
  ec_p256 :: "ec_p256_public_key option"
  rsa2048 :: "simple_rsa_public_key option"
  dh2048 :: "bytes option"

record cipher_commitment =
  cc_handshake_cipher :: "int option"
  cc_commitment :: "bytes option"

record ukey2_message =
  um_message_type :: "int option"
  um_message_data :: "bytes option"

record ukey2_client_init =
  ci_version :: "int option"
  ci_random :: "bytes option"
  ci_cipher_commitments :: "cipher_commitment list"
  ci_next_protocol :: "rstring option"

record ukey2_server_init =
  si_version :: "int option"
  si_random :: "bytes option"
  si_handshake_cipher :: "int option"
  si_public_key :: "bytes option"

record ukey2_client_finished =
  cf_public_key :: "bytes option"

subsection \<open>Third-party code as a parameter\<close>

record ('sk, 'pk) crypto =
  sha256 :: "bytes \<Rightarrow> bytes"
  sha512 :: "bytes \<Rightarrow> bytes"
  hkdf_sha256 :: "bytes \<Rightarrow> bytes \<Rightarrow> bytes \<Rightarrow> nat \<Rightarrow> bytes option"
  hmac_sha256 :: "bytes \<Rightarrow> bytes \<Rightarrow> bytes"
  aes_cbc_encrypt :: "bytes \<Rightarrow> bytes \<Rightarrow> bytes \<Rightarrow> bytes option"
  aes_cbc_decrypt :: "bytes \<Rightarrow> bytes \<Rightarrow> bytes \<Rightarrow> bytes option"
  ec_secret :: "bytes \<Rightarrow> 'sk option"
  ec_point :: "'sk \<Rightarrow> bytes"
  ec_public :: "bytes \<Rightarrow> 'pk option"
  ec_dh :: "'sk \<Rightarrow> 'pk \<Rightarrow> bytes"
  enc_d2d :: "device_to_device_message \<Rightarrow> bytes"
  dec_d2d :: "bytes \<Rightarrow> device_to_device_message option"
  enc_metadata :: "gcm_metadata \<Rightarrow> bytes"
  dec_metadata :: "bytes \<Rightarrow> gcm_metadata option"
  enc_header :: "sm_header \<Rightarrow> bytes"
  dec_header :: "bytes \<Rightarrow> sm_header option"
  enc_hab :: "header_and_body_internal \<Rightarrow> bytes"
  dec_hab :: "bytes \<Rightarrow> header_and_body_internal option"
  enc_secure :: "secure_message \<Rightarrow> bytes"
  dec_secure :: "bytes \<Rightarrow> secure_message option"
  enc_pubkey :: "generic_public_key \<Rightarrow> bytes"
  dec_pubkey :: "bytes \<Rightarrow> generic_public_key option"
  enc_ukey2 :: "ukey2_message \<Rightarrow> bytes"
  dec_ukey2 :: "bytes \<Rightarrow> ukey2_message option"
  enc_client_init :: "ukey2_client_init \<Rightarrow> bytes"
  dec_client_init :: "bytes \<Rightarrow> ukey2_client_init option"
  enc_server_init :: "ukey2_server_init \<Rightarrow> bytes"
  dec_server_init :: "bytes \<Rightarrow> ukey2_server_init option"
  enc_client_finished :: "ukey2_client_finished \<Rightarrow> bytes"
  dec_client_finished :: "bytes \<Rightarrow> ukey2_client_finished option"

text \<open>
  The documented behaviour relied upon. A protobuf message decodes to itself; HKDF-SHA256
  yields any requested output up to 255 blocks; AES-CBC with PKCS\#7 padding encrypts every
  plaintext (the code reserves a whole block for the padding) and decrypts what it encrypted
  under the same key and IV; an uncompressed P-256 point is the byte 4 and two coordinates of
  32 bytes, and Diffie-Hellman agrees. The integer fields stand for the \<open>i32\<close>, \<open>i64\<close> and
  \<open>u32\<close> fields of the generated structs.
\<close>

definition KEY_LENGTH :: nat where "KEY_LENGTH = 32"
definition IV_LENGTH :: nat where "IV_LENGTH = 16"

definition sym_ok :: "('sk, 'pk) crypto \<Rightarrow> bool" where
  "sym_ok P \<longleftrightarrow>
     (\<forall>m. dec_d2d P (enc_d2d P m) = Some m) \<and>
     (\<forall>m. dec_metadata P (enc_metadata P m) = Some m) \<and>
     (\<forall>m. dec_header P (enc_header P m) = Some m) \<and>
     (\<forall>m. dec_hab P (enc_hab P m) = Some m) \<and>
     (\<forall>m. dec_secure P (enc_secure P m) = Some m) \<and>
     (\<forall>k iv p. length k = KEY_LENGTH \<longrightarrow> length iv = IV_LENGTH \<longrightarrow>
        (\<exists>c. aes_cbc_encrypt P k iv p = Some c)) \<and>
     (\<forall>k iv p c. aes_cbc_encrypt P k iv p = Some c \<longrightarrow> aes_cbc_decrypt P k iv c = Some p)"

definition ukey2_ok :: "('sk, 'pk) crypto \<Rightarrow> bool" where
  "ukey2_ok P \<longleftrightarrow>
     (\<forall>m. dec_pubkey P (enc_pubkey P m) = Some m) \<and>
     (\<forall>m. dec_ukey2 P (enc_ukey2 P m) = Some m) \<and>
     (\<forall>m. dec_client_init P (enc_client_init P m) = Some m) \<and>
     (\<forall>m. dec_server_init P (enc_server_init P m) = Some m) \<and>
     (\<forall>m. dec_client_finished P (enc_client_finished P m) = Some m) \<and>
     (\<forall>k salt info. \<exists>out. hkdf_sha256 P k salt info 32 = Some out \<and> length out = 32) \<and>
     (\<forall>b. sha512 P b \<noteq> []) \<and>
     (\<forall>sk. \<exists>xy. ec_point P sk = 4 # xy \<and> length xy = 64 \<and> ec_public P (ec_point P sk) \<noteq> None) \<and>
     (\<forall>a b pa pb. ec_public P (ec_point P a) = Some pa \<longrightarrow> ec_public P (ec_point P b) = Some pb \<longrightarrow>
        ec_dh P a pb = ec_dh P b pa)"

subsection \<open>Errors and constants\<close>

datatype handshake_error =
    HInvalidMessage | HInvalidField | HInvalidState | HUnsupported | HCommitment | HPublicKey
  | HKeyAgreement

datatype crypto_error =
    CInvalidMessage | CUnsupported | CAuthentication | CDecryption | CSequence
  | CSequenceExhausted

definition D2D_SALT :: bytes where "D2D_SALT = ascii ''D2D''"
definition SECURE_MESSAGE_SALT :: bytes where "SECURE_MESSAGE_SALT = ascii ''SecureMessage''"

subsection \<open>Key derivation\<close>

definition derive :: "('sk, 'pk) crypto \<Rightarrow> bytes \<Rightarrow> bytes \<Rightarrow> bytes \<Rightarrow> bytes option" where
  "derive P key salt info = hkdf_sha256 P key salt info KEY_LENGTH"

definition d2d_key :: "('sk, 'pk) crypto \<Rightarrow> bytes \<Rightarrow> bytes \<Rightarrow> bytes option" where
  "d2d_key P master purpose = derive P master (sha256 P D2D_SALT) purpose"

record keys =
  k_encryption :: bytes
  k_signing :: bytes
  k_master :: bytes

text \<open>\<open>None\<close> is the panic of \<open>expect("fixed HKDF length")\<close>.\<close>

definition keys_of :: "('sk, 'pk) crypto \<Rightarrow> bytes \<Rightarrow> keys option" where
  "keys_of P master =
     (case derive P master (sha256 P SECURE_MESSAGE_SALT) (ascii ''ENC:2'') of
        None \<Rightarrow> None
      | Some e \<Rightarrow>
        (case derive P master (sha256 P SECURE_MESSAGE_SALT) (ascii ''SIG:1'') of
           None \<Rightarrow> None
         | Some s \<Rightarrow> Some \<lparr>k_encryption = e, k_signing = s, k_master = master\<rparr>))"

definition hmac :: "('sk, 'pk) crypto \<Rightarrow> bytes \<Rightarrow> bytes \<Rightarrow> bytes" where
  "hmac P key data = hmac_sha256 P key data"

definition prim_encrypt :: "('sk, 'pk) crypto \<Rightarrow> bytes \<Rightarrow> bytes \<Rightarrow> bytes \<Rightarrow> crypto_error + bytes" where
  "prim_encrypt P key iv plain =
     (case aes_cbc_encrypt P key iv plain of None \<Rightarrow> Inl CDecryption | Some c \<Rightarrow> Inr c)"

definition prim_decrypt :: "('sk, 'pk) crypto \<Rightarrow> bytes \<Rightarrow> bytes \<Rightarrow> bytes \<Rightarrow> crypto_error + bytes" where
  "prim_decrypt P key iv cipher =
     (case aes_cbc_decrypt P key iv cipher of None \<Rightarrow> Inl CDecryption | Some p \<Rightarrow> Inr p)"

subsection \<open>Java's \<open>Arrays.hashCode\<close>\<close>

text \<open>\<open>i32\<close> arithmetic that wraps; a byte is sign-extended before it is added.\<close>

definition java_hash :: "bytes \<Rightarrow> 32 word" where
  "java_hash bs = foldl (\<lambda>v b. v * 31 + scast b) 1 bs"

subsection \<open>P-256 coordinates\<close>

text \<open>
  A coordinate is sent as a positive big-endian integer: 32 bytes, with a zero byte in front
  when its top bit is set.
\<close>

definition positive :: "bytes \<Rightarrow> handshake_error + bytes" where
  "positive v =
     (if length v \<noteq> KEY_LENGTH then Inl HPublicKey
      else case v of
             [] \<Rightarrow> Inr v
           | b # _ \<Rightarrow> if 128 \<le> unat b then Inr (0 # v) else Inr v)"

definition coordinate :: "bytes \<Rightarrow> handshake_error + bytes" where
  "coordinate v =
     (if length v = KEY_LENGTH then Inr v
      else case v of
             [] \<Rightarrow> Inl HPublicKey
           | b # rest \<Rightarrow>
               if b \<noteq> 0 then Inl HPublicKey
               else if length rest = KEY_LENGTH then Inr rest
               else Inl HPublicKey)"

definition byte_slice :: "nat \<Rightarrow> nat \<Rightarrow> bytes \<Rightarrow> bytes option" where
  "byte_slice i j bs = (if i \<le> j \<and> j \<le> length bs then Some (take (j - i) (drop i bs)) else None)"

definition EC_P256 :: int where "EC_P256 = 1"

definition public_key :: "('sk, 'pk) crypto \<Rightarrow> 'sk \<Rightarrow> handshake_error + generic_public_key" where
  "public_key P sk =
     (let bs = ec_point P sk in
      case byte_slice 1 33 bs of
        None \<Rightarrow> Inl HPublicKey
      | Some xs \<Rightarrow>
        (case positive xs of
           Inl e \<Rightarrow> Inl e
         | Inr x \<Rightarrow>
           (case byte_slice 33 65 bs of
              None \<Rightarrow> Inl HPublicKey
            | Some ys \<Rightarrow>
              (case positive ys of
                 Inl e \<Rightarrow> Inl e
               | Inr y \<Rightarrow>
                   Inr \<lparr>gpk_type = EC_P256, ec_p256 = Some \<lparr>ec_x = x, ec_y = y\<rparr>,
                        rsa2048 = None, dh2048 = None\<rparr>))))"

definition parse_public_key :: "('sk, 'pk) crypto \<Rightarrow> bytes \<Rightarrow> handshake_error + 'pk" where
  "parse_public_key P bs =
     (case dec_pubkey P bs of
        None \<Rightarrow> Inl HPublicKey
      | Some key \<Rightarrow>
          if gpk_type key \<noteq> EC_P256 then Inl HPublicKey
          else
            (case ec_p256 key of
               None \<Rightarrow> Inl HPublicKey
             | Some point \<Rightarrow>
               (case coordinate (ec_x point) of
                  Inl e \<Rightarrow> Inl e
                | Inr x \<Rightarrow>
                  (case coordinate (ec_y point) of
                     Inl e \<Rightarrow> Inl e
                   | Inr y \<Rightarrow>
                     (case ec_public P (4 # x @ y) of
                        None \<Rightarrow> Inl HPublicKey
                      | Some pk \<Rightarrow> Inr pk)))))"

subsection \<open>Lemmas\<close>

lemma positive_Inr: "positive v = Inr w \<Longrightarrow> length v = 32 \<and> (w = v \<or> w = 0 # v)"
  by (auto simp: positive_def KEY_LENGTH_def split: if_splits list.splits)

lemma positive_ok: "length v = 32 \<Longrightarrow> \<exists>w. positive v = Inr w"
  by (auto simp: positive_def KEY_LENGTH_def split: list.splits)

lemma coordinate_positive: "positive v = Inr w \<Longrightarrow> coordinate w = Inr v"
  by (drule positive_Inr) (auto simp: coordinate_def KEY_LENGTH_def)

lemma sym_okD:
  assumes "sym_ok P"
  shows "dec_d2d P (enc_d2d P d) = Some d"
    and "dec_metadata P (enc_metadata P m) = Some m"
    and "dec_header P (enc_header P h) = Some h"
    and "dec_hab P (enc_hab P b) = Some b"
    and "dec_secure P (enc_secure P s) = Some s"
    and "prim_encrypt P k iv p = Inr c \<Longrightarrow> prim_decrypt P k iv c = Inr p"
    and "length k = KEY_LENGTH \<Longrightarrow> length iv = IV_LENGTH \<Longrightarrow> \<exists>c. prim_encrypt P k iv p = Inr c"
proof -
  show "dec_d2d P (enc_d2d P d) = Some d" "dec_metadata P (enc_metadata P m) = Some m"
    "dec_header P (enc_header P h) = Some h" "dec_hab P (enc_hab P b) = Some b"
    "dec_secure P (enc_secure P s) = Some s"
    using assms by (simp_all add: sym_ok_def)
  show "prim_encrypt P k iv p = Inr c \<Longrightarrow> prim_decrypt P k iv c = Inr p"
    using assms by (auto simp: sym_ok_def prim_encrypt_def prim_decrypt_def split: option.splits)
  show "\<exists>c. prim_encrypt P k iv p = Inr c" if "length k = KEY_LENGTH" "length iv = IV_LENGTH"
  proof -
    from assms that obtain c where "aes_cbc_encrypt P k iv p = Some c"
      unfolding sym_ok_def by blast
    then show ?thesis by (simp add: prim_encrypt_def)
  qed
qed

lemma ukey2_okD:
  assumes "ukey2_ok P"
  shows "dec_pubkey P (enc_pubkey P k) = Some k"
    and "dec_ukey2 P (enc_ukey2 P m) = Some m"
    and "dec_client_init P (enc_client_init P ci) = Some ci"
    and "dec_server_init P (enc_server_init P si) = Some si"
    and "dec_client_finished P (enc_client_finished P cf) = Some cf"
    and "sha512 P b \<noteq> []"
    and "\<exists>out. derive P key salt info = Some out \<and> length out = 32"
  using assms by (simp_all add: ukey2_ok_def derive_def KEY_LENGTH_def)

text \<open>What one side announces as its public key is what the other side parses.\<close>

lemma parse_public_key_of:
  assumes "ukey2_ok P"
  shows "\<exists>k pk. public_key P sk = Inr k \<and> ec_public P (ec_point P sk) = Some pk \<and>
           parse_public_key P (enc_pubkey P k) = Inr pk"
proof -
  obtain xy pk where xy: "ec_point P sk = 4 # xy" "length xy = 64"
    and pk: "ec_public P (ec_point P sk) = Some pk"
    using assms unfolding ukey2_ok_def by blast
  let ?x = "take 32 xy" and ?y = "drop 32 xy"
  obtain x y where x: "positive ?x = Inr x" and y: "positive ?y = Inr y"
    using positive_ok [of ?x] positive_ok [of ?y] xy(2) by auto
  have s: "byte_slice 1 33 (4 # xy) = Some ?x" "byte_slice 33 65 (4 # xy) = Some ?y"
    using xy(2) by (simp_all add: byte_slice_def)
  have "public_key P sk = Inr \<lparr>gpk_type = EC_P256, ec_p256 = Some \<lparr>ec_x = x, ec_y = y\<rparr>,
          rsa2048 = None, dh2048 = None\<rparr>"
    by (simp add: public_key_def Let_def xy(1) s x y del: One_nat_def)
  moreover have "4 # ?x @ ?y = ec_point P sk"
    by (simp add: xy(1))
  ultimately show ?thesis
    using pk by (simp add: parse_public_key_def ukey2_okD [OF assms] coordinate_positive [OF x]
        coordinate_positive [OF y])
qed

end
