(* ===== verification/Example_Codec.thy ===== *)
theory Example_Codec
  imports Crypto_Primitives
begin

text \<open>
  A concrete instance of the third-party parameters, used by the witnesses: a small
  self-delimiting codec for the wire records and stand-ins for the cryptographic functions
  that satisfy the laws the development assumes of them. Nothing here models code of the
  repository; it shows that the hypotheses of the theorems can hold together.
\<close>

subsection \<open>Self-delimiting codecs\<close>

type_synonym 'a enc = "'a \<Rightarrow> bytes"
type_synonym 'a dec = "bytes \<Rightarrow> ('a \<times> bytes) option"

definition codec :: "'a enc \<Rightarrow> 'a dec \<Rightarrow> bool" where
  "codec e d \<longleftrightarrow> (\<forall>x r. d (e x @ r) = Some (x, r))"

named_theorems codec_intros "closure properties of codecs"

lemma codecD: "codec e d \<Longrightarrow> d (e x @ r) = Some (x, r)"
  by (simp add: codec_def)

definition e_nat :: "nat enc" where "e_nat n = decimal n @ [0]"

definition d_nat :: "nat dec" where
  "d_nat bs =
     (case dropWhile is_ascii_digit bs of
        [] \<Rightarrow> None
      | b # r \<Rightarrow> Some (undecimal (takeWhile is_ascii_digit bs), r))"

lemma codec_nat [codec_intros]: "codec e_nat d_nat"
proof -
  have z: "\<not> is_ascii_digit 0" by (simp add: is_ascii_digit_def)
  have "takeWhile is_ascii_digit (decimal n @ 0 # r) = decimal n"
    and "dropWhile is_ascii_digit (decimal n @ 0 # r) = 0 # r" for n r
    using decimal_digits [of n] z by (simp_all add: takeWhile_append2 dropWhile_append2)
  then show ?thesis by (simp add: codec_def e_nat_def d_nat_def)
qed

definition e_bytes :: "bytes enc" where "e_bytes b = e_nat (length b) @ b"

definition d_bytes :: "bytes dec" where
  "d_bytes bs =
     (case d_nat bs of
        None \<Rightarrow> None
      | Some (n, r) \<Rightarrow> if n \<le> length r then Some (take n r, drop n r) else None)"

lemma codec_bytes [codec_intros]: "codec e_bytes d_bytes"
  by (simp add: codec_def e_bytes_def d_bytes_def codecD [OF codec_nat])

definition e_iso :: "('b \<Rightarrow> 'a) \<Rightarrow> 'a enc \<Rightarrow> 'b enc" where "e_iso f e x = e (f x)"

definition d_iso :: "('a \<Rightarrow> 'b) \<Rightarrow> 'a dec \<Rightarrow> 'b dec" where
  "d_iso g d bs = map_option (\<lambda>(x, r). (g x, r)) (d bs)"

lemma codec_iso [codec_intros]:
  "(\<And>x. g (f x) = x) \<Longrightarrow> codec e d \<Longrightarrow> codec (e_iso f e) (d_iso g d)"
  by (simp add: codec_def e_iso_def d_iso_def)

definition e_pair :: "'a enc \<Rightarrow> 'b enc \<Rightarrow> ('a \<times> 'b) enc" where
  "e_pair e e' p = e (fst p) @ e' (snd p)"

definition d_pair :: "'a dec \<Rightarrow> 'b dec \<Rightarrow> ('a \<times> 'b) dec" where
  "d_pair d d' bs =
     (case d bs of
        None \<Rightarrow> None
      | Some (x, r) \<Rightarrow> map_option (\<lambda>(y, r'). ((x, y), r')) (d' r))"

lemma codec_pair [codec_intros]: "codec e d \<Longrightarrow> codec e' d' \<Longrightarrow> codec (e_pair e e') (d_pair d d')"
  by (simp add: codec_def e_pair_def d_pair_def)

fun e_option :: "'a enc \<Rightarrow> 'a option enc" where
  "e_option e None = [0]"
| "e_option e (Some x) = 1 # e x"

fun d_option :: "'a dec \<Rightarrow> 'a option dec" where
  "d_option d [] = None"
| "d_option d (b # r) = (if b = 0 then Some (None, r) else map_option (\<lambda>(x, r'). (Some x, r')) (d r))"

lemma codec_option [codec_intros]: "codec e d \<Longrightarrow> codec (e_option e) (d_option d)"
  by (simp add: codec_def split_option_all)

definition e_list :: "'a enc \<Rightarrow> 'a list enc" where
  "e_list e xs = e_nat (length xs) @ concat (map e xs)"

fun d_many :: "'a dec \<Rightarrow> nat \<Rightarrow> 'a list dec" where
  "d_many d 0 bs = Some ([], bs)"
| "d_many d (Suc n) bs =
     (case d bs of
        None \<Rightarrow> None
      | Some (x, r) \<Rightarrow> map_option (\<lambda>(xs, r'). (x # xs, r')) (d_many d n r))"

definition d_list :: "'a dec \<Rightarrow> 'a list dec" where
  "d_list d bs = (case d_nat bs of None \<Rightarrow> None | Some (n, r) \<Rightarrow> d_many d n r)"

lemma codec_list [codec_intros]:
  assumes "codec e d"
  shows "codec (e_list e) (d_list d)"
proof -
  have "d_many d (length xs) (concat (map e xs) @ r) = Some (xs, r)" for xs r
    by (induction xs) (simp_all add: codecD [OF assms])
  then show ?thesis by (simp add: codec_def e_list_def d_list_def codecD [OF codec_nat])
qed

definition e_int :: "int enc" where
  "e_int = e_iso (\<lambda>x. (if x < 0 then None else Some (), nat \<bar>x\<bar>))
     (e_pair (e_option (\<lambda>_. [])) e_nat)"

definition d_int :: "int dec" where
  "d_int = d_iso (\<lambda>(s, n). if s = None then - int n else int n)
     (d_pair (d_option (\<lambda>r. Some ((), r))) d_nat)"

lemma codec_unit: "codec (\<lambda>_. []) (\<lambda>r. Some ((), r))"
  by (simp add: codec_def)

lemma codec_int [codec_intros]: "codec e_int d_int"
  unfolding e_int_def d_int_def
  by (intro codec_intros codec_unit) simp

definition whole :: "'a dec \<Rightarrow> bytes \<Rightarrow> 'a option" where
  "whole d bs = (case d bs of Some (x, []) \<Rightarrow> Some x | _ \<Rightarrow> None)"

lemma whole_codec: "codec e d \<Longrightarrow> whole d (e x) = Some x"
  using codecD [of e d x "[]"] by (simp add: whole_def)

subsection \<open>The wire records\<close>

definition xe_d2d :: "device_to_device_message enc" where
  "xe_d2d = e_iso (\<lambda>x. (d2d_message x, d2d_sequence_number x))
     (e_pair (e_option e_bytes) (e_option e_int))"

definition xd_d2d :: "device_to_device_message dec" where
  "xd_d2d = d_iso (\<lambda>(a, b). \<lparr>d2d_message = a, d2d_sequence_number = b\<rparr>)
     (d_pair (d_option d_bytes) (d_option d_int))"

lemma codec_d2d [codec_intros]: "codec xe_d2d xd_d2d"
  unfolding xe_d2d_def xd_d2d_def by (intro codec_intros) simp

definition xe_metadata :: "gcm_metadata enc" where
  "xe_metadata = e_iso (\<lambda>x. (gm_type x, gm_version x))
     (e_pair e_int (e_option e_int))"

definition xd_metadata :: "gcm_metadata dec" where
  "xd_metadata = d_iso (\<lambda>(a, b). \<lparr>gm_type = a, gm_version = b\<rparr>)
     (d_pair d_int (d_option d_int))"

lemma codec_metadata [codec_intros]: "codec xe_metadata xd_metadata"
  unfolding xe_metadata_def xd_metadata_def by (intro codec_intros) simp

definition xe_header :: "sm_header enc" where
  "xe_header = e_iso (\<lambda>x. (signature_scheme x, encryption_scheme x, verification_key_id x, decryption_key_id x, h_iv x, public_metadata x, associated_data_length x))
     (e_pair e_int (e_pair e_int (e_pair (e_option e_bytes) (e_pair (e_option e_bytes) (e_pair (e_option e_bytes) (e_pair (e_option e_bytes) (e_option e_nat)))))))"

definition xd_header :: "sm_header dec" where
  "xd_header = d_iso (\<lambda>(a, b, c, d, e, f, g). \<lparr>signature_scheme = a, encryption_scheme = b, verification_key_id = c, decryption_key_id = d, h_iv = e, public_metadata = f, associated_data_length = g\<rparr>)
     (d_pair d_int (d_pair d_int (d_pair (d_option d_bytes) (d_pair (d_option d_bytes) (d_pair (d_option d_bytes) (d_pair (d_option d_bytes) (d_option d_nat)))))))"

lemma codec_header [codec_intros]: "codec xe_header xd_header"
  unfolding xe_header_def xd_header_def by (intro codec_intros) simp

definition xe_hab :: "header_and_body_internal enc" where
  "xe_hab = e_iso (\<lambda>x. (hb_header x, hb_body x))
     (e_pair e_bytes e_bytes)"

definition xd_hab :: "header_and_body_internal dec" where
  "xd_hab = d_iso (\<lambda>(a, b). \<lparr>hb_header = a, hb_body = b\<rparr>)
     (d_pair d_bytes d_bytes)"

lemma codec_hab [codec_intros]: "codec xe_hab xd_hab"
  unfolding xe_hab_def xd_hab_def by (intro codec_intros) simp

definition xe_secure :: "secure_message enc" where
  "xe_secure = e_iso (\<lambda>x. (sm_header_and_body x, sm_signature x))
     (e_pair e_bytes e_bytes)"

definition xd_secure :: "secure_message dec" where
  "xd_secure = d_iso (\<lambda>(a, b). \<lparr>sm_header_and_body = a, sm_signature = b\<rparr>)
     (d_pair d_bytes d_bytes)"

lemma codec_secure [codec_intros]: "codec xe_secure xd_secure"
  unfolding xe_secure_def xd_secure_def by (intro codec_intros) simp

definition xe_ecp :: "ec_p256_public_key enc" where
  "xe_ecp = e_iso (\<lambda>x. (ec_x x, ec_y x))
     (e_pair e_bytes e_bytes)"

definition xd_ecp :: "ec_p256_public_key dec" where
  "xd_ecp = d_iso (\<lambda>(a, b). \<lparr>ec_x = a, ec_y = b\<rparr>)
     (d_pair d_bytes d_bytes)"

lemma codec_ecp [codec_intros]: "codec xe_ecp xd_ecp"
  unfolding xe_ecp_def xd_ecp_def by (intro codec_intros) simp

definition xe_rsa :: "simple_rsa_public_key enc" where
  "xe_rsa = e_iso (\<lambda>x. (rsa_n x, rsa_e x))
     (e_pair e_bytes (e_option e_int))"

definition xd_rsa :: "simple_rsa_public_key dec" where
  "xd_rsa = d_iso (\<lambda>(a, b). \<lparr>rsa_n = a, rsa_e = b\<rparr>)
     (d_pair d_bytes (d_option d_int))"

lemma codec_rsa [codec_intros]: "codec xe_rsa xd_rsa"
  unfolding xe_rsa_def xd_rsa_def by (intro codec_intros) simp

definition xe_pubkey :: "generic_public_key enc" where
  "xe_pubkey = e_iso (\<lambda>x. (gpk_type x, ec_p256 x, rsa2048 x, dh2048 x))
     (e_pair e_int (e_pair (e_option xe_ecp) (e_pair (e_option xe_rsa) (e_option e_bytes))))"

definition xd_pubkey :: "generic_public_key dec" where
  "xd_pubkey = d_iso (\<lambda>(a, b, c, d). \<lparr>gpk_type = a, ec_p256 = b, rsa2048 = c, dh2048 = d\<rparr>)
     (d_pair d_int (d_pair (d_option xd_ecp) (d_pair (d_option xd_rsa) (d_option d_bytes))))"

lemma codec_pubkey [codec_intros]: "codec xe_pubkey xd_pubkey"
  unfolding xe_pubkey_def xd_pubkey_def by (intro codec_intros) simp

definition xe_commit :: "cipher_commitment enc" where
  "xe_commit = e_iso (\<lambda>x. (cc_handshake_cipher x, cc_commitment x))
     (e_pair (e_option e_int) (e_option e_bytes))"

definition xd_commit :: "cipher_commitment dec" where
  "xd_commit = d_iso (\<lambda>(a, b). \<lparr>cc_handshake_cipher = a, cc_commitment = b\<rparr>)
     (d_pair (d_option d_int) (d_option d_bytes))"

lemma codec_commit [codec_intros]: "codec xe_commit xd_commit"
  unfolding xe_commit_def xd_commit_def by (intro codec_intros) simp

definition xe_ukey2 :: "ukey2_message enc" where
  "xe_ukey2 = e_iso (\<lambda>x. (um_message_type x, um_message_data x))
     (e_pair (e_option e_int) (e_option e_bytes))"

definition xd_ukey2 :: "ukey2_message dec" where
  "xd_ukey2 = d_iso (\<lambda>(a, b). \<lparr>um_message_type = a, um_message_data = b\<rparr>)
     (d_pair (d_option d_int) (d_option d_bytes))"

lemma codec_ukey2 [codec_intros]: "codec xe_ukey2 xd_ukey2"
  unfolding xe_ukey2_def xd_ukey2_def by (intro codec_intros) simp

definition xe_client_init :: "ukey2_client_init enc" where
  "xe_client_init = e_iso (\<lambda>x. (ci_version x, ci_random x, ci_cipher_commitments x, ci_next_protocol x))
     (e_pair (e_option e_int) (e_pair (e_option e_bytes) (e_pair (e_list xe_commit) (e_option e_bytes))))"

definition xd_client_init :: "ukey2_client_init dec" where
  "xd_client_init = d_iso (\<lambda>(a, b, c, d). \<lparr>ci_version = a, ci_random = b, ci_cipher_commitments = c, ci_next_protocol = d\<rparr>)
     (d_pair (d_option d_int) (d_pair (d_option d_bytes) (d_pair (d_list xd_commit) (d_option d_bytes))))"

lemma codec_client_init [codec_intros]: "codec xe_client_init xd_client_init"
  unfolding xe_client_init_def xd_client_init_def by (intro codec_intros) simp

definition xe_server_init :: "ukey2_server_init enc" where
  "xe_server_init = e_iso (\<lambda>x. (si_version x, si_random x, si_handshake_cipher x, si_public_key x))
     (e_pair (e_option e_int) (e_pair (e_option e_bytes) (e_pair (e_option e_int) (e_option e_bytes))))"

definition xd_server_init :: "ukey2_server_init dec" where
  "xd_server_init = d_iso (\<lambda>(a, b, c, d). \<lparr>si_version = a, si_random = b, si_handshake_cipher = c, si_public_key = d\<rparr>)
     (d_pair (d_option d_int) (d_pair (d_option d_bytes) (d_pair (d_option d_int) (d_option d_bytes))))"

lemma codec_server_init [codec_intros]: "codec xe_server_init xd_server_init"
  unfolding xe_server_init_def xd_server_init_def by (intro codec_intros) simp

definition xe_client_finished :: "ukey2_client_finished enc" where
  "xe_client_finished = e_iso (cf_public_key)
     (e_option e_bytes)"

definition xd_client_finished :: "ukey2_client_finished dec" where
  "xd_client_finished = d_iso (\<lambda>a. \<lparr>cf_public_key = a\<rparr>)
     (d_option d_bytes)"

lemma codec_client_finished [codec_intros]: "codec xe_client_finished xd_client_finished"
  unfolding xe_client_finished_def xd_client_finished_def by (intro codec_intros) simp

subsection \<open>Stand-ins for the cryptographic functions\<close>

definition pad :: "nat \<Rightarrow> bytes \<Rightarrow> bytes" where
  "pad n b = take n (b @ replicate n 0)"

lemma length_pad [simp]: "length (pad n b) = n"
  by (simp add: pad_def)

definition ex_crypto :: "(bytes, bytes) crypto" where
  "ex_crypto =
     \<lparr>sha256 = (\<lambda>b. b), sha512 = (\<lambda>b. 1 # b),
      hkdf_sha256 = (\<lambda>k salt info n. Some (pad n (info @ k))),
      hmac_sha256 = (\<lambda>k b. b),
      aes_cbc_encrypt = (\<lambda>k iv p. Some p), aes_cbc_decrypt = (\<lambda>k iv c. Some c),
      ec_secret = (\<lambda>b. if b = replicate 32 0 then None else Some b),
      ec_point = (\<lambda>sk. 4 # pad 64 sk),
      ec_public = (\<lambda>b. Some (tl b)),
      ec_dh = (\<lambda>sk pk. map2 (+) (pad 64 sk) pk),
      enc_d2d = xe_d2d, dec_d2d = whole xd_d2d,
      enc_metadata = xe_metadata, dec_metadata = whole xd_metadata,
      enc_header = xe_header, dec_header = whole xd_header,
      enc_hab = xe_hab, dec_hab = whole xd_hab,
      enc_secure = xe_secure, dec_secure = whole xd_secure,
      enc_pubkey = xe_pubkey, dec_pubkey = whole xd_pubkey,
      enc_ukey2 = xe_ukey2, dec_ukey2 = whole xd_ukey2,
      enc_client_init = xe_client_init, dec_client_init = whole xd_client_init,
      enc_server_init = xe_server_init, dec_server_init = whole xd_server_init,
      enc_client_finished = xe_client_finished,
      dec_client_finished = whole xd_client_finished\<rparr>"

lemma ex_crypto_sym_ok: "sym_ok ex_crypto"
  by (simp add: sym_ok_def ex_crypto_def whole_codec codec_intros)

lemma map2_plus_commute: "map2 (+) (a :: bytes) b = map2 (+) b a"
  by (induction a b rule: list_induct2') (simp_all add: add.commute)

lemma ex_crypto_ukey2_ok: "ukey2_ok ex_crypto"
  by (auto simp: ukey2_ok_def ex_crypto_def whole_codec codec_intros map2_plus_commute)

end
