(* ===== verification/Secure_Channel.thy ===== *)
theory Secure_Channel
  imports Example_Codec
begin

text \<open>
  The device-to-device channel of \<open>crates/core/crypto/src/secure_channel.rs\<close>: authenticated
  encryption in both directions with a strictly increasing sequence number. The properties
  are the delivery of every message of an ordered stream, the rejection of replayed and
  reordered messages, and the symmetry of the session identifier.
\<close>

record secure_channel =
  sc_send :: keys
  sc_receive :: keys
  send_sequence :: int
  receive_sequence :: int

definition channel_new :: "('sk, 'pk) crypto \<Rightarrow> bytes \<Rightarrow> bytes \<Rightarrow> secure_channel option" where
  "channel_new P send recv =
     (case keys_of P send of
        None \<Rightarrow> None
      | Some s \<Rightarrow>
        (case keys_of P recv of
           None \<Rightarrow> None
         | Some r \<Rightarrow>
             Some \<lparr>sc_send = s, sc_receive = r, send_sequence = 0, receive_sequence = 0\<rparr>))"

definition HMAC_SHA256 :: int where "HMAC_SHA256 = 1"
definition AES_256_CBC :: int where "AES_256_CBC = 2"
definition DEVICE_TO_DEVICE_MESSAGE :: int where "DEVICE_TO_DEVICE_MESSAGE = 13"

definition channel_encrypt ::
  "('sk, 'pk) crypto \<Rightarrow> bytes \<Rightarrow> bytes \<Rightarrow> secure_channel \<Rightarrow> (crypto_error + bytes) \<times> secure_channel" where
  "channel_encrypt P plaintext iv c =
     (case checked_add_i32 (send_sequence c) 1 of
        None \<Rightarrow> (Inl CSequenceExhausted, c)
      | Some n \<Rightarrow>
          let c' = c\<lparr>send_sequence := n\<rparr>;
              payload = enc_d2d P \<lparr>d2d_message = Some plaintext, d2d_sequence_number = Some n\<rparr>;
              metadata = enc_metadata P \<lparr>gm_type = DEVICE_TO_DEVICE_MESSAGE, gm_version = Some 1\<rparr>;
              raw_header = enc_header P
                \<lparr>signature_scheme = HMAC_SHA256, encryption_scheme = AES_256_CBC,
                 verification_key_id = None, decryption_key_id = None, h_iv = Some iv,
                 public_metadata = Some metadata, associated_data_length = None\<rparr>
          in case prim_encrypt P (k_encryption (sc_send c')) iv payload of
               Inl e \<Rightarrow> (Inl e, c')
             | Inr body \<Rightarrow>
                 let hab = enc_hab P \<lparr>hb_header = raw_header, hb_body = body\<rparr>;
                     sig = hmac P (k_signing (sc_send c')) hab
                 in (Inr (enc_secure P \<lparr>sm_header_and_body = hab, sm_signature = sig\<rparr>), c'))"

definition validate_header :: "('sk, 'pk) crypto \<Rightarrow> sm_header \<Rightarrow> crypto_error + unit" where
  "validate_header P h =
     (if signature_scheme h \<noteq> HMAC_SHA256 \<or> encryption_scheme h \<noteq> AES_256_CBC
      then Inl CUnsupported
      else
        (case public_metadata h of
           None \<Rightarrow> Inl CInvalidMessage
         | Some mb \<Rightarrow>
           (case dec_metadata P mb of
              None \<Rightarrow> Inl CInvalidMessage
            | Some md \<Rightarrow>
                if gm_type md \<noteq> DEVICE_TO_DEVICE_MESSAGE \<or> gm_version md \<noteq> Some 1
                then Inl CUnsupported else Inr ())))"

definition decode_payload ::
  "('sk, 'pk) crypto \<Rightarrow> bytes \<Rightarrow> secure_channel \<Rightarrow> (crypto_error + bytes) \<times> secure_channel" where
  "decode_payload P plain c =
     (case dec_d2d P plain of
        None \<Rightarrow> (Inl CInvalidMessage, c)
      | Some packet \<Rightarrow>
        (case checked_add_i32 (receive_sequence c) 1 of
           None \<Rightarrow> (Inl CSequenceExhausted, c)
         | Some expected \<Rightarrow>
             if d2d_sequence_number packet \<noteq> Some expected then (Inl CSequence, c)
             else
               let c' = c\<lparr>receive_sequence := expected\<rparr>
               in case d2d_message packet of
                    None \<Rightarrow> (Inl CInvalidMessage, c')
                  | Some p \<Rightarrow> (Inr p, c')))"

text \<open>Everything \<open>decrypt\<close> does before the sequence check: a pure function of the bytes.\<close>

definition open_frame :: "('sk, 'pk) crypto \<Rightarrow> keys \<Rightarrow> bytes \<Rightarrow> crypto_error + bytes" where
  "open_frame P k msg =
     (case dec_secure P msg of
        None \<Rightarrow> Inl CInvalidMessage
      | Some m \<Rightarrow>
          if hmac P (k_signing k) (sm_header_and_body m) \<noteq> sm_signature m then Inl CAuthentication
          else
            (case dec_hab P (sm_header_and_body m) of
               None \<Rightarrow> Inl CInvalidMessage
             | Some inner \<Rightarrow>
               (case dec_header P (hb_header inner) of
                  None \<Rightarrow> Inl CInvalidMessage
                | Some h \<Rightarrow>
                  (case validate_header P h of
                     Inl e \<Rightarrow> Inl e
                   | Inr _ \<Rightarrow>
                     (case h_iv h of
                        None \<Rightarrow> Inl CInvalidMessage
                      | Some iv \<Rightarrow>
                          if length iv \<noteq> IV_LENGTH then Inl CInvalidMessage
                          else prim_decrypt P (k_encryption k) iv (hb_body inner))))))"

definition channel_decrypt ::
  "('sk, 'pk) crypto \<Rightarrow> bytes \<Rightarrow> secure_channel \<Rightarrow> (crypto_error + bytes) \<times> secure_channel" where
  "channel_decrypt P msg c =
     (case open_frame P (sc_receive c) msg of
        Inl e \<Rightarrow> (Inl e, c)
      | Inr plain \<Rightarrow> decode_payload P plain c)"

definition session_unique :: "('sk, 'pk) crypto \<Rightarrow> secure_channel \<Rightarrow> bytes" where
  "session_unique P c =
     (let (first, second) =
        (if java_hash (k_master (sc_send c)) <s java_hash (k_master (sc_receive c))
         then (k_master (sc_send c), k_master (sc_receive c))
         else (k_master (sc_receive c), k_master (sc_send c)))
      in sha256 P (sha256 P D2D_SALT @ first @ second))"

subsection \<open>The interface of an ordered channel\<close>

text \<open>
  What the connection layer relies on: a sender and a receiver that are in step stay in
  step, and the receiver obtains exactly what was sent.
\<close>

text \<open>Sending and receiving a whole stream, stopping at the first error.\<close>

fun send_all :: "(bytes \<Rightarrow> 'iv \<Rightarrow> 'c \<Rightarrow> ('e + bytes) \<times> 'c) \<Rightarrow> (bytes \<times> 'iv) list \<Rightarrow> 'c \<Rightarrow>
    (bytes list \<times> 'c) option" where
  "send_all enc [] a = Some ([], a)"
| "send_all enc ((p, iv) # xs) a =
     (case enc p iv a of
        (Inl e, a') \<Rightarrow> None
      | (Inr m, a') \<Rightarrow> map_option (\<lambda>(ms, a''). (m # ms, a'')) (send_all enc xs a'))"

fun receive_all :: "(bytes \<Rightarrow> 'c \<Rightarrow> ('e + bytes) \<times> 'c) \<Rightarrow> bytes list \<Rightarrow> 'c \<Rightarrow>
    (bytes list \<times> 'c) option" where
  "receive_all dec [] b = Some ([], b)"
| "receive_all dec (m # ms) b =
     (case dec m b of
        (Inl e, b') \<Rightarrow> None
      | (Inr p, b') \<Rightarrow> map_option (\<lambda>(ps, b''). (p # ps, b'')) (receive_all dec ms b'))"

locale ordered_channel =
  fixes enc :: "bytes \<Rightarrow> 'iv \<Rightarrow> 'c \<Rightarrow> ('e + bytes) \<times> 'c"
    and dec :: "bytes \<Rightarrow> 'c \<Rightarrow> ('e + bytes) \<times> 'c"
    and in_step :: "'c \<Rightarrow> 'c \<Rightarrow> bool"
    and good_iv :: "'iv \<Rightarrow> bool"
  assumes deliver:
    "in_step a b \<Longrightarrow> good_iv iv \<Longrightarrow> enc p iv a = (Inr m, a') \<Longrightarrow>
       \<exists>b'. dec m b = (Inr p, b') \<and> in_step a' b'"
begin

lemma deliver_all:
  "in_step a b \<Longrightarrow> \<forall>x \<in> set xs. good_iv (snd x) \<Longrightarrow> send_all enc xs a = Some (ms, a') \<Longrightarrow>
     \<exists>b'. receive_all dec ms b = Some (map fst xs, b') \<and> in_step a' b'"
proof (induction xs arbitrary: a b ms)
  case Nil
  then show ?case by simp
next
  case (Cons x xs)
  obtain p iv where x: "x = (p, iv)" by (cases x)
  from Cons.prems(3) obtain m a1 ns where
    e: "enc p iv a = (Inr m, a1)" and s: "send_all enc xs a1 = Some (ns, a')" and ms: "ms = m # ns"
    by (auto simp: x split: prod.splits sum.splits)
  from deliver [OF Cons.prems(1) _ e] Cons.prems(2) obtain b1 where
    d: "dec m b = (Inr p, b1)" and st: "in_step a1 b1"
    by (auto simp: x)
  from Cons.IH [OF st _ s] Cons.prems(2) show ?case
    by (auto simp: ms d x)
qed

end

subsection \<open>The channel is an ordered channel\<close>

text \<open>
  Two channels are in step when one sends under the keys the other receives under and the
  last number sent is the last number accepted.
\<close>

definition in_step :: "('sk, 'pk) crypto \<Rightarrow> secure_channel \<Rightarrow> secure_channel \<Rightarrow> bool" where
  "in_step P a b \<longleftrightarrow> sym_ok P \<and> sc_send a = sc_receive b \<and> send_sequence a = receive_sequence b"

definition good_iv :: "bytes \<Rightarrow> bool" where
  "good_iv iv \<longleftrightarrow> length iv = IV_LENGTH"

lemma channel_encrypt_Inr:
  assumes "channel_encrypt P p iv a = (Inr m, a')"
  shows "\<exists>n body. checked_add_i32 (send_sequence a) 1 = Some n \<and> a' = a\<lparr>send_sequence := n\<rparr> \<and>
     prim_encrypt P (k_encryption (sc_send a)) iv
       (enc_d2d P \<lparr>d2d_message = Some p, d2d_sequence_number = Some n\<rparr>) = Inr body \<and>
     (let hab = enc_hab P \<lparr>hb_header = enc_header P
                \<lparr>signature_scheme = HMAC_SHA256, encryption_scheme = AES_256_CBC,
                 verification_key_id = None, decryption_key_id = None, h_iv = Some iv,
                 public_metadata = Some (enc_metadata P
                   \<lparr>gm_type = DEVICE_TO_DEVICE_MESSAGE, gm_version = Some 1\<rparr>),
                 associated_data_length = None\<rparr>, hb_body = body\<rparr>
      in m = enc_secure P \<lparr>sm_header_and_body = hab, sm_signature = hmac P (k_signing (sc_send a)) hab\<rparr>)"
  using assms by (auto simp: channel_encrypt_def Let_def split: option.splits sum.splits)

lemma open_encrypted:
  assumes P: "sym_ok P" and iv: "good_iv iv" and e: "channel_encrypt P p iv a = (Inr m, a')"
  shows "\<exists>n. checked_add_i32 (send_sequence a) 1 = Some n \<and> a' = a\<lparr>send_sequence := n\<rparr> \<and>
     open_frame P (sc_send a) m =
       Inr (enc_d2d P \<lparr>d2d_message = Some p, d2d_sequence_number = Some n\<rparr>)"
proof -
  note D = sym_okD [OF P]
  from channel_encrypt_Inr [OF e] iv show ?thesis
    by (auto simp: open_frame_def validate_header_def Let_def D good_iv_def)
qed

lemma channel_deliver:
  assumes st: "in_step P a b" and iv: "good_iv iv" and e: "channel_encrypt P p iv a = (Inr m, a')"
  shows "\<exists>b'. channel_decrypt P m b = (Inr p, b') \<and> in_step P a' b'"
proof -
  have P: "sym_ok P" using st by (simp add: in_step_def)
  from open_encrypted [OF P iv e] st show ?thesis
    by (auto simp: channel_decrypt_def decode_payload_def in_step_def sym_okD [OF P] checked_add_i32_def
        split: if_splits)
qed

interpretation d2d: ordered_channel "channel_encrypt P" "channel_decrypt P" "in_step P" good_iv
  for P
  by unfold_locales (rule channel_deliver)

subsection \<open>Sequence numbers only grow\<close>

fun decrypt_all :: "('sk, 'pk) crypto \<Rightarrow> bytes list \<Rightarrow> secure_channel \<Rightarrow> secure_channel" where
  "decrypt_all P [] c = c"
| "decrypt_all P (m # ms) c = decrypt_all P ms (snd (channel_decrypt P m c))"

lemma channel_decrypt_mono:
  "receive_sequence c \<le> receive_sequence (snd (channel_decrypt P m c)) \<and>
   sc_receive (snd (channel_decrypt P m c)) = sc_receive c"
  by (auto simp: channel_decrypt_def decode_payload_def Let_def split: sum.splits option.splits)

lemma decrypt_all_mono:
  "receive_sequence c \<le> receive_sequence (decrypt_all P ms c) \<and>
   sc_receive (decrypt_all P ms c) = sc_receive c"
proof (induction ms arbitrary: c)
  case (Cons m ms)
  then show ?case using channel_decrypt_mono [of c P m] by (fastforce intro: order_trans)
qed simp

definition frame_number :: "('sk, 'pk) crypto \<Rightarrow> keys \<Rightarrow> bytes \<Rightarrow> int option" where
  "frame_number P k m =
     (case open_frame P k m of
        Inl _ \<Rightarrow> None
      | Inr plain \<Rightarrow> Option.bind (dec_d2d P plain) d2d_sequence_number)"

lemma channel_decrypt_Inr:
  "channel_decrypt P m c = (Inr p, c') \<Longrightarrow>
     frame_number P (sc_receive c) m = Some (receive_sequence c + 1) \<and>
     receive_sequence c' = receive_sequence c + 1 \<and> sc_receive c' = sc_receive c \<and>
     receive_sequence c + 1 \<le> i32_max"
  by (auto simp: channel_decrypt_def decode_payload_def frame_number_def Let_def in_i32_def
      split: sum.splits option.splits if_splits)

lemma encrypt_succeeds:
  assumes P: "sym_ok P" and k: "length (k_encryption (sc_send a)) = KEY_LENGTH"
    and iv: "good_iv iv" and n: "in_i32 (send_sequence a + 1)"
  shows "\<exists>m. channel_encrypt P p iv a = (Inr m, a\<lparr>send_sequence := send_sequence a + 1\<rparr>)"
proof -
  obtain body where "prim_encrypt P (k_encryption (sc_send a)) iv
      (enc_d2d P \<lparr>d2d_message = Some p, d2d_sequence_number = Some (send_sequence a + 1)\<rparr>) = Inr body"
    using sym_okD(7) [OF P k] iv by (auto simp: good_iv_def)
  then show ?thesis
    using n by (simp add: channel_encrypt_def checked_add_i32_def Let_def)
qed

lemma send_all_succeeds:
  assumes "sym_ok P" and "length (k_encryption (sc_send a)) = KEY_LENGTH"
    and "\<forall>x \<in> set xs. good_iv (snd x)"
    and "0 \<le> send_sequence a" and "send_sequence a + int (length xs) \<le> i32_max"
  shows "\<exists>ms a'. send_all (channel_encrypt P) xs a = Some (ms, a') \<and> length ms = length xs"
  using assms
proof (induction xs arbitrary: a)
  case Nil
  then show ?case by simp
next
  case (Cons x xs)
  obtain p iv where x: "x = (p, iv)" by (cases x)
  let ?a = "a\<lparr>send_sequence := send_sequence a + 1\<rparr>"
  have "in_i32 (send_sequence a + 1)"
    using Cons.prems by (simp add: in_i32_def i32_min_def)
  then obtain m where e: "channel_encrypt P p iv a = (Inr m, ?a)"
    using encrypt_succeeds [of P a iv p] Cons.prems by (auto simp: x)
  obtain ms a' where "send_all (channel_encrypt P) xs ?a = Some (ms, a')" "length ms = length xs"
    using Cons.IH [of ?a] Cons.prems by (auto simp: algebra_simps)
  then show ?case by (simp add: x e)
qed

subsection \<open>Properties\<close>

text \<open>
  C10. Two channels in step, with enough sequence numbers left: every message of any stream
  can be sent, and the other side, given the resulting messages in order, recovers exactly
  the plaintexts and is in step again.
\<close>

theorem channel_stream_delivered:
  assumes st: "in_step P a b" and k: "length (k_encryption (sc_send a)) = KEY_LENGTH"
    and iv: "\<forall>x \<in> set xs. length (snd x) = IV_LENGTH"
    and n: "0 \<le> send_sequence a" "send_sequence a + int (length xs) \<le> i32_max"
  shows "\<exists>ms a' b'. send_all (channel_encrypt P) xs a = Some (ms, a') \<and>
     receive_all (channel_decrypt P) ms b = Some (map fst xs, b') \<and> in_step P a' b'"
proof -
  have g: "\<forall>x \<in> set xs. good_iv (snd x)" and P: "sym_ok P"
    using iv st by (simp_all add: good_iv_def in_step_def)
  from send_all_succeeds [OF P k g n] obtain ms a' where
    s: "send_all (channel_encrypt P) xs a = Some (ms, a')" by blast
  from d2d.deliver_all [OF st g s] s show ?thesis by blast
qed

definition ex_channel :: secure_channel where
  "ex_channel = (let k = \<lparr>k_encryption = replicate 32 7, k_signing = [1], k_master = [2]\<rparr>
     in \<lparr>sc_send = k, sc_receive = k, send_sequence = 0, receive_sequence = 0\<rparr>)"

theorem channel_stream_delivered_witness:
  "\<exists>ms a' b'. send_all (channel_encrypt ex_crypto) [([1, 2], replicate 16 0), ([3], replicate 16 9)]
       ex_channel = Some (ms, a') \<and>
     receive_all (channel_decrypt ex_crypto) ms ex_channel = Some ([[1, 2], [3]], b') \<and>
     in_step ex_crypto a' b'"
  using channel_stream_delivered [of ex_crypto ex_channel ex_channel
      "[([1, 2], replicate 16 0), ([3], replicate 16 9)]"]
  by (simp add: in_step_def ex_crypto_sym_ok ex_channel_def Let_def KEY_LENGTH_def IV_LENGTH_def
      i32_max_def)

lemma replay_rejected:
  assumes f: "frame_number P (sc_receive d) m = Some n" and n: "n \<le> receive_sequence d"
  shows "channel_decrypt P m d = (Inl CSequence, d) \<or> channel_decrypt P m d = (Inl CSequenceExhausted, d)"
  using assms
  by (auto simp: channel_decrypt_def decode_payload_def frame_number_def bind_eq_Some_conv
      checked_add_i32_def split: sum.splits option.splits)

text \<open>
  C11. No message is accepted twice: after a message has been accepted, and whatever
  messages arrive after it, the same message is refused with a sequence error and the channel
  is left as it was.
\<close>

theorem channel_no_replay:
  assumes "channel_decrypt P m c = (Inr p, c')"
  shows "channel_decrypt P m (decrypt_all P ms c') = (Inl CSequence, decrypt_all P ms c') \<or>
         channel_decrypt P m (decrypt_all P ms c') = (Inl CSequenceExhausted, decrypt_all P ms c')"
proof -
  let ?d = "decrypt_all P ms c'"
  note c = channel_decrypt_Inr [OF assms] and d = decrypt_all_mono [of c' P ms]
  have "frame_number P (sc_receive ?d) m = Some (receive_sequence c')"
    using c d by simp
  then show ?thesis
    by (rule replay_rejected) (use d in simp)
qed

definition ex_frame :: bytes where
  "ex_frame = projr (fst (channel_encrypt ex_crypto [1, 2] (replicate 16 0) ex_channel))"

lemma ex_frame_accepted:
  "\<exists>c'. channel_decrypt ex_crypto ex_frame ex_channel = (Inr [1, 2], c')"
proof -
  have "\<exists>m. channel_encrypt ex_crypto [1, 2] (replicate 16 0) ex_channel =
     (Inr m, ex_channel\<lparr>send_sequence := send_sequence ex_channel + 1\<rparr>)"
    by (rule encrypt_succeeds)
      (simp_all add: ex_crypto_sym_ok ex_channel_def Let_def KEY_LENGTH_def good_iv_def IV_LENGTH_def
        in_i32_def i32_min_def i32_max_def)
  then obtain m where m: "channel_encrypt ex_crypto [1, 2] (replicate 16 0) ex_channel =
     (Inr m, ex_channel\<lparr>send_sequence := send_sequence ex_channel + 1\<rparr>)" by blast
  have st: "in_step ex_crypto ex_channel ex_channel"
    by (simp add: in_step_def ex_crypto_sym_ok ex_channel_def Let_def)
  show ?thesis
    using channel_deliver [OF st _ m] by (simp add: ex_frame_def m good_iv_def IV_LENGTH_def) blast
qed

theorem channel_no_replay_witness:
  "\<exists>c'. channel_decrypt ex_crypto ex_frame ex_channel = (Inr [1, 2], c') \<and>
     (\<forall>ms. fst (channel_decrypt ex_crypto ex_frame (decrypt_all ex_crypto ms c')) \<noteq> Inr [1, 2])"
proof -
  from ex_frame_accepted obtain c' where
    c': "channel_decrypt ex_crypto ex_frame ex_channel = (Inr [1, 2], c')" by blast
  have "fst (channel_decrypt ex_crypto ex_frame (decrypt_all ex_crypto ms c')) \<noteq> Inr [1, 2]" for ms
    using channel_no_replay [OF c', of ms] by auto
  with c' show ?thesis by blast
qed

text \<open>
  What an accepted message has been through: the signature over the header and body
  verifies under the receiving key, the header names exactly HMAC-SHA256, AES-256-CBC and
  version 1 of a device-to-device message with a 16-byte IV, and the number is the successor
  of the last one; the plaintext is the one carried under that number.
\<close>

theorem channel_accepts_authenticated:
  assumes "channel_decrypt P m c = (Inr p, c')"
  shows "\<exists>s inner h iv plain.
     dec_secure P m = Some s \<and>
     hmac_sha256 P (k_signing (sc_receive c)) (sm_header_and_body s) = sm_signature s \<and>
     dec_hab P (sm_header_and_body s) = Some inner \<and> dec_header P (hb_header inner) = Some h \<and>
     signature_scheme h = 1 \<and> encryption_scheme h = 2 \<and> h_iv h = Some iv \<and> length iv = 16 \<and>
     aes_cbc_decrypt P (k_encryption (sc_receive c)) iv (hb_body inner) = Some plain \<and>
     dec_d2d P plain = Some \<lparr>d2d_message = Some p, d2d_sequence_number = Some (receive_sequence c + 1)\<rparr> \<and>
     c' = c\<lparr>receive_sequence := receive_sequence c + 1\<rparr>"
proof -
  from assms obtain plain where o: "open_frame P (sc_receive c) m = Inr plain"
    and d: "decode_payload P plain c = (Inr p, c')"
    by (auto simp: channel_decrypt_def split: sum.splits)
  from d have "dec_d2d P plain =
      Some \<lparr>d2d_message = Some p, d2d_sequence_number = Some (receive_sequence c + 1)\<rparr> \<and>
      c' = c\<lparr>receive_sequence := receive_sequence c + 1\<rparr>"
    by (auto simp: decode_payload_def Let_def split: option.splits if_splits)
  moreover from o obtain s inner h iv where
    "dec_secure P m = Some s" "hmac P (k_signing (sc_receive c)) (sm_header_and_body s) = sm_signature s"
    "dec_hab P (sm_header_and_body s) = Some inner" "dec_header P (hb_header inner) = Some h"
    "validate_header P h = Inr ()" "h_iv h = Some iv" "length iv = 16"
    "prim_decrypt P (k_encryption (sc_receive c)) iv (hb_body inner) = Inr plain"
    by (auto simp: open_frame_def IV_LENGTH_def split: option.splits if_splits sum.splits)
  ultimately show ?thesis
    by (auto simp: hmac_def prim_decrypt_def validate_header_def HMAC_SHA256_def AES_256_CBC_def
        split: option.splits if_splits)
qed

theorem channel_accepts_authenticated_witness:
  "\<exists>s. dec_secure ex_crypto ex_frame = Some s \<and>
     hmac_sha256 ex_crypto (k_signing (sc_receive ex_channel)) (sm_header_and_body s) = sm_signature s"
  using ex_frame_accepted channel_accepts_authenticated by blast

subsection \<open>The session identifier\<close>

text \<open>
  The two ends of a channel compute the same session identifier whenever the Java
  hashes of the two master keys differ.
\<close>

theorem session_unique_symmetric:
  assumes "sc_send a = sc_receive b" and "sc_receive a = sc_send b"
    and "java_hash (k_master (sc_send a)) \<noteq> java_hash (k_master (sc_receive a))"
  shows "session_unique P a = session_unique P b"
  using assms signed.less_linear [of "java_hash (k_master (sc_send a))" "java_hash (k_master (sc_receive a))"]
  by (auto simp: session_unique_def dest: signed.less_asym)

definition ex_keys :: "bytes \<Rightarrow> keys" where
  "ex_keys m = \<lparr>k_encryption = [], k_signing = [], k_master = m\<rparr>"

definition ex_side :: "bytes \<Rightarrow> bytes \<Rightarrow> secure_channel" where
  "ex_side s r = \<lparr>sc_send = ex_keys s, sc_receive = ex_keys r, send_sequence = 0, receive_sequence = 0\<rparr>"

theorem session_unique_symmetric_witness:
  "session_unique ex_crypto (ex_side [1] [2]) = session_unique ex_crypto (ex_side [2] [1])"
  by (rule session_unique_symmetric) (simp_all add: ex_side_def ex_keys_def java_hash_def)

text \<open>
  The identifier is not symmetric for all keys: two distinct 32-byte master keys can
  have the same Java hash, and then the two ends hash the keys in opposite orders.
\<close>

theorem session_unique_hash_collision:
  "let x = replicate 30 0 @ [0, 31]; y = replicate 30 0 @ [1, 0] in
     length x = 32 \<and> length y = 32 \<and> x \<noteq> y \<and>
     session_unique P (ex_side x y) = sha256 P (sha256 P D2D_SALT @ y @ x) \<and>
     session_unique P (ex_side y x) = sha256 P (sha256 P D2D_SALT @ x @ y)"
proof -
  have "foldl (\<lambda>v b. v * 31 + scast b) h [0, 31 :: byte] =
      foldl (\<lambda>v b. v * 31 + scast b) (h :: 32 word) [1, 0 :: byte]" for h
    by (simp add: algebra_simps)
  then have "java_hash (replicate 30 0 @ [0, 31]) = java_hash (replicate 30 0 @ [1, 0])"
    by (simp only: java_hash_def foldl_append)
  then show ?thesis
    by (simp add: session_unique_def ex_side_def ex_keys_def)
qed

end
