(* ===== verification/Conn_Session.thy ===== *)
theory Conn_Session
  imports Conn_Frames Secure_Channel
begin

text \<open>
  An encrypted connection (\<open>Connection\<close> of \<open>session.rs\<close>) and its transfer operations
  (\<open>protocol/io.rs\<close>, \<open>transfer.rs\<close>, \<open>file.rs\<close> and \<open>upgrade_event\<close> of \<open>upgrade.rs\<close>). Every
  operation takes the connection and returns its result and the connection afterwards, also
  when it fails.

  The protobuf codec of \<open>OfflineFrame\<close> and the operating system's randomness are parameters
  (record \<open>net\<close>): \<open>os_iv\<close> gives the initialisation vector drawn for the send that follows a
  given number of sends. Timeouts appear as the error an idle stream reports; setting them
  always succeeds.
\<close>

record ('sk, 'pk) net =
  n_crypto :: "('sk, 'pk) crypto"
  enc_offline :: "offline_frame \<Rightarrow> bytes"
  dec_offline :: "bytes \<Rightarrow> offline_frame option"
  os_iv :: "int \<Rightarrow> bytes"

definition net_ok :: "('sk, 'pk) net \<Rightarrow> bool" where
  "net_ok N \<longleftrightarrow> sym_ok (n_crypto N) \<and> (\<forall>f. dec_offline N (enc_offline N f) = Some f) \<and>
     (\<forall>n. length (os_iv N n) = IV_LENGTH)"

subsection \<open>State\<close>

datatype event =
    EvBytes int bytes
  | EvFileHeader int int "rstring option"
  | EvFileChunk int int bytes bool
  | EvKeepAlive bool nat
  | EvUpgrade upgrade_event
  | EvPayloadError int int
  | EvPayloadCancelled int int
  | EvDisconnected

record incoming_bytes_state =
  ib_bytes :: bytes
  ib_next_offset :: int
  ib_size :: int

record incoming_file_state =
  if_next_offset :: int
  if_size :: int

record outgoing_file_state =
  og_id :: int
  og_header :: payload_header_msg
  og_started :: bool

record connection =
  c_stream :: stream
  c_channel :: secure_channel
  incoming_bytes :: "int \<rightharpoonup> incoming_bytes_state"
  incoming_files :: "int \<rightharpoonup> incoming_file_state"
  outgoing_file :: "outgoing_file_state option"
  pending_events :: "event list"
  c_medium :: medium
  c_upgrade :: upgrade_state
  upgrade_host :: bool
  c_endpoint_id :: rstring
  c_verification_code :: rstring

type_synonym 'a outcome = "(conn_error + 'a) \<times> connection"

subsection \<open>Encrypted frames\<close>

definition conn_send :: "('sk, 'pk) net \<Rightarrow> offline_frame \<Rightarrow> connection \<Rightarrow> unit outcome" where
  "conn_send N f c =
     (case channel_encrypt (n_crypto N) (enc_offline N f) (os_iv N (send_sequence (c_channel c))) (c_channel c) of
        (Inl _, ch) \<Rightarrow> (Inl ECrypto, c\<lparr>c_channel := ch\<rparr>)
      | (Inr encrypted, ch) \<Rightarrow>
        (case io_write encrypted (c_stream c) of
           (r, s) \<Rightarrow> (r, c\<lparr>c_channel := ch, c_stream := s\<rparr>)))"

definition decode_encrypted :: "('sk, 'pk) net \<Rightarrow> bytes \<Rightarrow> connection \<Rightarrow> offline_frame outcome" where
  "decode_encrypted N encrypted c =
     (case channel_decrypt (n_crypto N) encrypted (c_channel c) of
        (Inl _, ch) \<Rightarrow> (Inl ECrypto, c\<lparr>c_channel := ch\<rparr>)
      | (Inr bs, ch) \<Rightarrow>
        (case dec_offline N bs of
           None \<Rightarrow> (Inl EWire, c\<lparr>c_channel := ch\<rparr>)
         | Some f \<Rightarrow> (Inr f, c\<lparr>c_channel := ch\<rparr>)))"

definition conn_recv :: "('sk, 'pk) net \<Rightarrow> connection \<Rightarrow> offline_frame outcome" where
  "conn_recv N c =
     (case io_read (c_stream c) of
        (Inl e, s) \<Rightarrow> (Inl e, c\<lparr>c_stream := s\<rparr>)
      | (Inr encrypted, s) \<Rightarrow> decode_encrypted N encrypted (c\<lparr>c_stream := s\<rparr>))"

definition recv_during :: "('sk, 'pk) net \<Rightarrow> connection \<Rightarrow> offline_frame outcome" where
  "recv_during N c =
     (case io_read (c_stream c) of
        (Inl e, s) \<Rightarrow> (Inl (map_cancelled e), c\<lparr>c_stream := s\<rparr>)
      | (Inr encrypted, s) \<Rightarrow> decode_encrypted N encrypted (c\<lparr>c_stream := s\<rparr>))"

definition recv_if_ready :: "('sk, 'pk) net \<Rightarrow> connection \<Rightarrow> offline_frame option outcome" where
  "recv_if_ready N c =
     (if \<not> stream_read_ready (c_stream c) then (Inr None, c)
      else case recv_during N c of
        (Inl e, c1) \<Rightarrow> (Inl e, c1)
      | (Inr f, c1) \<Rightarrow> (Inr (Some f), c1))"

definition send_during :: "('sk, 'pk) net \<Rightarrow> offline_frame \<Rightarrow> connection \<Rightarrow> unit outcome" where
  "send_during N f c =
     (case conn_send N f c of
        (Inl e, c1) \<Rightarrow> (Inl (map_cancelled e), c1)
      | (Inr u, c1) \<Rightarrow> (Inr u, c1))"

subsection \<open>Outgoing payloads\<close>

definition conn_data :: "('sk, 'pk) net \<Rightarrow> payload_header_msg \<Rightarrow> int \<Rightarrow> bytes \<Rightarrow> bool \<Rightarrow> connection \<Rightarrow> unit outcome" where
  "conn_data N header offset bs is_last c =
     (if offset < 0 then (Inl EInvalidPayload, c)
      else if length bs > MAX_FRAME_LENGTH then (Inl EInvalidPayload, c)
      else conn_send N (data_frame header offset bs is_last) c)"

definition send_bytes :: "('sk, 'pk) net \<Rightarrow> int \<Rightarrow> bytes \<Rightarrow> connection \<Rightarrow> unit outcome" where
  "send_bytes N i bs c =
     (case i64_of_usize (length bs) of
        None \<Rightarrow> (Inl EInvalidPayload, c)
      | Some sz \<Rightarrow>
        (case payload_header i KBytes sz None of
           Inl e \<Rightarrow> (Inl e, c)
         | Inr header \<Rightarrow>
             if bs = [] then conn_data N header 0 bs True c
             else case conn_data N header 0 bs False c of
                    (Inl e, c1) \<Rightarrow> (Inl e, c1)
                  | (Inr _, c1) \<Rightarrow> conn_data N header sz [] True c1))"

definition send_file_header :: "int \<Rightarrow> int \<Rightarrow> rstring option \<Rightarrow> connection \<Rightarrow> unit outcome" where
  "send_file_header i sz name c =
     (case payload_header i KFile sz name of
        Inl e \<Rightarrow> (Inl e, c)
      | Inr header \<Rightarrow>
          (Inr (), c\<lparr>outgoing_file := Some \<lparr>og_id = i, og_header = header, og_started = False\<rparr>\<rparr>))"

definition send_keepalive :: "('sk, 'pk) net \<Rightarrow> nat \<Rightarrow> connection \<Rightarrow> unit outcome" where
  "send_keepalive N sequence c = conn_send N (keepalive False sequence) c"

definition conn_disconnect :: "('sk, 'pk) net \<Rightarrow> connection \<Rightarrow> unit outcome" where
  "conn_disconnect N c =
     (case conn_send N disconnect_frame c of
        (Inl e, c1) \<Rightarrow> (Inl e, c1)
      | (Inr _, c1) \<Rightarrow>
        (case stream_shutdown_write (c_stream c1) of
           (Inl e, s) \<Rightarrow> (Inl (EIo e), c1\<lparr>c_stream := s\<rparr>)
         | (Inr _, s) \<Rightarrow> (Inr (), c1\<lparr>c_stream := s\<rparr>)))"

subsection \<open>Incoming payloads\<close>

definition clear_payload :: "int \<Rightarrow> connection \<Rightarrow> connection" where
  "clear_payload i c =
     c\<lparr>incoming_bytes := (incoming_bytes c)(i := None), incoming_files := (incoming_files c)(i := None)\<rparr>"

definition payload_control_event :: "int \<Rightarrow> int \<Rightarrow> int \<Rightarrow> connection \<Rightarrow> event option outcome" where
  "payload_control_event i offset wire_event c =
     (if wire_event = PAYLOAD_ERROR then (Inr (Some (EvPayloadError i offset)), clear_payload i c)
      else if wire_event = PAYLOAD_CANCELED
        then (Inr (Some (EvPayloadCancelled i offset)), clear_payload i c)
      else if wire_event = PAYLOAD_RECEIVED_ACK then (Inr None, c)
      else (Inl EUnexpectedFrame, c))"

definition control_payload :: "payload_transfer_frame \<Rightarrow> connection \<Rightarrow> event option outcome" where
  "control_payload t c =
     (case pt_header t of
        None \<Rightarrow> (Inl EInvalidPayload, c)
      | Some header \<Rightarrow>
        (case ph_id header of
           None \<Rightarrow> (Inl EInvalidPayload, c)
         | Some i \<Rightarrow>
           (case pt_control t of
              None \<Rightarrow> (Inl EInvalidPayload, c)
            | Some control \<Rightarrow>
              (case cm_offset control of
                 None \<Rightarrow> (Inl EInvalidPayload, c)
               | Some offset \<Rightarrow>
                 (case ph_total_size header of
                    None \<Rightarrow> (Inl EInvalidPayload, c)
                  | Some total_size \<Rightarrow>
                      if offset < 0 \<or> total_size < - 1 \<or> (total_size \<noteq> - 1 \<and> offset > total_size)
                      then (Inl EInvalidPayload, c)
                      else case cm_event control of
                             None \<Rightarrow> (Inl EUnexpectedFrame, c)
                           | Some ev \<Rightarrow> payload_control_event i offset ev c)))))"

definition finish_bytes_payload :: "int \<Rightarrow> connection \<Rightarrow> event option outcome" where
  "finish_bytes_payload i c =
     (case incoming_bytes c i of
        None \<Rightarrow> (Inl EInvalidPayload, c)
      | Some p \<Rightarrow>
          let c1 = c\<lparr>incoming_bytes := (incoming_bytes c)(i := None)\<rparr> in
          if ib_next_offset p \<noteq> ib_size p then (Inl EInvalidPayload, c1)
          else (Inr (Some (EvBytes i (ib_bytes p))), c1))"

definition bytes_payload :: "int \<Rightarrow> int \<Rightarrow> int \<Rightarrow> bytes \<Rightarrow> bool \<Rightarrow> connection \<Rightarrow> event option outcome" where
  "bytes_payload i sz offset bs is_last c =
     (let p = (case incoming_bytes c i of
                 None \<Rightarrow> \<lparr>ib_bytes = [], ib_next_offset = 0, ib_size = sz\<rparr>
               | Some p \<Rightarrow> p);
          c1 = c\<lparr>incoming_bytes := (incoming_bytes c)(i \<mapsto> p)\<rparr>
      in case i64_of_usize (length bs) of
           None \<Rightarrow> (Inl EInvalidPayload, c1)
         | Some chunk_size \<Rightarrow>
           (case checked_add_i64 offset chunk_size of
              None \<Rightarrow> (Inl EInvalidPayload, c1)
            | Some chunk_end \<Rightarrow>
                if ib_size p \<noteq> sz then (Inl EInvalidPayload, c1)
                else if ib_next_offset p \<noteq> offset then (Inl EInvalidPayload, c1)
                else if chunk_end > sz then (Inl EInvalidPayload, c1)
                else
                  let c2 = c1\<lparr>incoming_bytes := (incoming_bytes c1)(i \<mapsto>
                        p\<lparr>ib_bytes := ib_bytes p @ bs, ib_next_offset := chunk_end\<rparr>)\<rparr>
                  in if \<not> is_last then (Inr None, c2) else finish_bytes_payload i c2))"

definition begin_file :: "int \<Rightarrow> int \<Rightarrow> int \<Rightarrow> connection \<Rightarrow> bool outcome" where
  "begin_file i sz offset c =
     (if incoming_files c i \<noteq> None then (Inr False, c)
      else if offset \<noteq> 0 then (Inl EInvalidPayload, c)
      else (Inr True, c\<lparr>incoming_files := (incoming_files c)(i \<mapsto> \<lparr>if_next_offset = 0, if_size = sz\<rparr>)\<rparr>))"

definition advance_file :: "int \<Rightarrow> int \<Rightarrow> int \<Rightarrow> nat \<Rightarrow> bool \<Rightarrow> connection \<Rightarrow> unit outcome" where
  "advance_file i sz offset byte_count is_last c =
     (case i64_of_usize byte_count of
        None \<Rightarrow> (Inl EInvalidPayload, c)
      | Some chunk_size \<Rightarrow>
        (case checked_add_i64 offset chunk_size of
           None \<Rightarrow> (Inl EInvalidPayload, c)
         | Some chunk_end \<Rightarrow>
           (case incoming_files c i of
              None \<Rightarrow> (Inl EInvalidPayload, c)
            | Some f \<Rightarrow>
                if if_size f \<noteq> sz \<or> if_next_offset f \<noteq> offset \<or> chunk_end > sz \<or> (is_last \<and> chunk_end \<noteq> sz)
                then (Inl EInvalidPayload, c)
                else (Inr (), c\<lparr>incoming_files := (incoming_files c)(i \<mapsto> f\<lparr>if_next_offset := chunk_end\<rparr>)\<rparr>))))"

definition file_payload ::
  "int \<Rightarrow> int \<Rightarrow> rstring option \<Rightarrow> int \<Rightarrow> bytes \<Rightarrow> bool \<Rightarrow> connection \<Rightarrow> event outcome" where
  "file_payload i sz name offset bs is_last c =
     (case begin_file i sz offset c of
        (Inl e, c1) \<Rightarrow> (Inl e, c1)
      | (Inr first_chunk, c1) \<Rightarrow>
        (case advance_file i sz offset (length bs) is_last c1 of
           (Inl e, c2) \<Rightarrow> (Inl e, c2)
         | (Inr _, c2) \<Rightarrow>
             let ev = EvFileChunk i offset bs is_last;
                 c3 = (if is_last then c2\<lparr>incoming_files := (incoming_files c2)(i := None)\<rparr> else c2)
             in if first_chunk
                then (Inr (EvFileHeader i sz name), c3\<lparr>pending_events := pending_events c3 @ [ev]\<rparr>)
                else (Inr ev, c3)))"

definition conn_payload :: "payload_transfer_frame \<Rightarrow> connection \<Rightarrow> event option outcome" where
  "conn_payload t c =
     (if pt_packet_type t = Some PACKET_PAYLOAD_ACK
      then (case pt_header t of
              None \<Rightarrow> (Inl EInvalidPayload, c)
            | Some header \<Rightarrow> if ph_id header = None then (Inl EInvalidPayload, c) else (Inr None, c))
      else if pt_packet_type t = Some PACKET_CONTROL then control_payload t c
      else if pt_packet_type t \<noteq> Some PACKET_DATA then (Inl EUnexpectedFrame, c)
      else
        (case pt_header t of
           None \<Rightarrow> (Inl EInvalidPayload, c)
         | Some header \<Rightarrow>
           (case payload_header_data header of
              Inl e \<Rightarrow> (Inl e, c)
            | Inr (i, sz, kind) \<Rightarrow>
              (case pt_chunk t of
                 None \<Rightarrow> (Inl EInvalidPayload, c)
               | Some chunk \<Rightarrow>
                 (case decoded chunk of
                    Inl e \<Rightarrow> (Inl e, c)
                  | Inr (offset, bs, is_last) \<Rightarrow>
                      if kind = KBytes then bytes_payload i sz offset bs is_last c
                      else case file_payload i sz (ph_file_name header) offset bs is_last c of
                             (Inl e, c1) \<Rightarrow> (Inl e, c1)
                           | (Inr ev, c1) \<Rightarrow> (Inr (Some ev), c1))))))"

subsection \<open>Other events\<close>

definition conn_upgrade_event :: "upgrade_negotiation_frame \<Rightarrow> connection \<Rightarrow> event option outcome" where
  "conn_upgrade_event n c =
     (case un_event_type n of
        None \<Rightarrow> (Inl EUnexpectedFrame, c)
      | Some ty \<Rightarrow>
          if ty = UPGRADE_PATH_REQUEST then
            (let mediums = (case Option.bind (un_path_info n) up_request of
                              None \<Rightarrow> []
                            | Some r \<Rightarrow> List.map_filter from_wire (pr_mediums r))
             in (Inr (Some (EvUpgrade (PathRequest mediums))), c))
          else if ty = UPGRADE_PATH_AVAILABLE then
            (case un_path_info n of
               None \<Rightarrow> (Inl EUnexpectedFrame, c)
             | Some info \<Rightarrow>
               (case Option.bind (up_medium info) from_wire of
                  None \<Rightarrow> (Inl EUnexpectedFrame, c)
                | Some m \<Rightarrow>
                    (Inr (Some (EvUpgrade (PathAvailable m (from_path_info info)))),
                     c\<lparr>c_upgrade := UpOffered m, upgrade_host := False\<rparr>)))
          else if ty = LAST_WRITE then (Inr (Some (EvUpgrade LastWriteToPriorChannel)), c)
          else if ty = SAFE_TO_CLOSE then
            (Inr (Some (EvUpgrade (SafeToClosePriorChannel
               (Option.bind (un_safe_to_close n) sc_sta_frequency)))), c)
          else if ty = CLIENT_INTRODUCTION then
            (Inr (Some (EvUpgrade (ClientIntroduction
               (case Option.bind (un_client_introduction n) ci_endpoint_id of None \<Rightarrow> [] | Some v \<Rightarrow> v)))), c)
          else if ty = CLIENT_INTRODUCTION_ACK then (Inr (Some (EvUpgrade ClientIntroductionAck)), c)
          else if ty = UPGRADE_FAILURE then
            (case Option.bind (Option.bind (un_path_info n) up_medium) from_wire of
               None \<Rightarrow> (Inl EUnexpectedFrame, c)
             | Some m \<Rightarrow>
                 (Inr (Some (EvUpgrade (UpgradeFailed m))),
                  c\<lparr>c_upgrade := UpFailed m (c_medium c), upgrade_host := False\<rparr>))
          else (Inl EUnexpectedFrame, c))"

definition negotiation_event :: "upgrade_negotiation_frame option \<Rightarrow> connection \<Rightarrow> event option outcome" where
  "negotiation_event f c =
     (case f of None \<Rightarrow> (Inl EUnexpectedFrame, c) | Some n \<Rightarrow> conn_upgrade_event n c)"

definition keepalive_event :: "('sk, 'pk) net \<Rightarrow> keep_alive_frame option \<Rightarrow> connection \<Rightarrow> event option outcome" where
  "keepalive_event N f c =
     (case f of
        None \<Rightarrow> (Inl EUnexpectedFrame, c)
      | Some k \<Rightarrow>
          let ack = (ka_ack k = Some True);
              sequence = (case ka_seq_num k of None \<Rightarrow> 0 | Some n \<Rightarrow> n)
          in if ack then (Inr (Some (EvKeepAlive ack sequence)), c)
             else case conn_send N (keepalive True sequence) c of
                    (Inl e, c1) \<Rightarrow> (Inl e, c1)
                  | (Inr _, c1) \<Rightarrow> (Inr (Some (EvKeepAlive ack sequence)), c1))"

definition v1_event :: "('sk, 'pk) net \<Rightarrow> v1_frame \<Rightarrow> connection \<Rightarrow> event option outcome" where
  "v1_event N v c =
     (case v1_type v of
        None \<Rightarrow> (Inl EUnexpectedFrame, c)
      | Some ty \<Rightarrow>
          if ty = DISCONNECTION then (Inr (Some EvDisconnected), c)
          else if ty = KEEP_ALIVE then keepalive_event N (v1_keep_alive v) c
          else if ty = PAYLOAD_TRANSFER then
            (case v1_payload_transfer v of
               None \<Rightarrow> (Inl EUnexpectedFrame, c)
             | Some t \<Rightarrow> conn_payload t c)
          else if ty = BANDWIDTH_UPGRADE_NEGOTIATION then negotiation_event (v1_upgrade v) c
          else if ty \<in> set EXTENSIONS then (Inr None, c)
          else (Inl EUnexpectedFrame, c))"

definition conn_event :: "('sk, 'pk) net \<Rightarrow> offline_frame \<Rightarrow> connection \<Rightarrow> event option outcome" where
  "conn_event N f c =
     (case of_v1 f of None \<Rightarrow> (Inl EUnexpectedFrame, c) | Some v \<Rightarrow> v1_event N v c)"

definition unread :: "event \<Rightarrow> connection \<Rightarrow> connection" where
  "unread ev c = c\<lparr>pending_events := ev # pending_events c\<rparr>"

subsection \<open>Every turn of a receive loop consumes input\<close>

definition input_left :: "connection \<Rightarrow> nat" where
  "input_left c = length (s_in (c_stream c))"

lemma conn_send_stream:
  "s_in (c_stream (snd (conn_send N f c))) = s_in (c_stream c) \<and>
   s_end (c_stream (snd (conn_send N f c))) = s_end (c_stream c)"
  using io_write_keeps_input
  by (auto simp: conn_send_def split: prod.splits sum.splits) (metis snd_conv)+

lemma clear_payload_stream [simp]: "c_stream (clear_payload i c) = c_stream c"
  by (simp add: clear_payload_def)

lemma payload_control_event_stream: "c_stream (snd (payload_control_event i offset ev c)) = c_stream c"
  by (simp add: payload_control_event_def)

lemma control_payload_stream: "c_stream (snd (control_payload t c)) = c_stream c"
  by (auto simp: control_payload_def payload_control_event_stream split: option.splits)

lemma finish_bytes_payload_stream: "c_stream (snd (finish_bytes_payload i c)) = c_stream c"
  by (auto simp: finish_bytes_payload_def Let_def split: option.splits)

lemma bytes_payload_stream: "c_stream (snd (bytes_payload i sz offset bs is_last c)) = c_stream c"
  by (auto simp: bytes_payload_def Let_def finish_bytes_payload_stream split: option.splits)

lemma file_payload_stream: "c_stream (snd (file_payload i sz name offset bs is_last c)) = c_stream c"
  by (auto simp: file_payload_def begin_file_def advance_file_def Let_def split: option.splits)

lemma conn_payload_stream: "c_stream (snd (conn_payload t c)) = c_stream c"
proof -
  have "c_stream (snd (case file_payload i sz name offset bs is_last c of
      (Inl e, c1) \<Rightarrow> (Inl e, c1) | (Inr ev, c1) \<Rightarrow> (Inr (Some ev), c1))) = c_stream c"
    for i sz name offset bs is_last
    using file_payload_stream [of i sz name offset bs is_last c] by (auto split: prod.splits sum.splits)
  then show ?thesis
    by (auto simp: conn_payload_def control_payload_stream bytes_payload_stream
        split: option.splits sum.splits prod.splits)
qed

lemma conn_upgrade_event_stream: "c_stream (snd (conn_upgrade_event n c)) = c_stream c"
  by (auto simp: conn_upgrade_event_def split: option.splits)

lemma keepalive_event_input: "input_left (snd (keepalive_event N f c)) = input_left c"
  using conn_send_stream [of N _ c]
  by (auto simp: keepalive_event_def input_left_def Let_def split: option.splits prod.splits sum.splits)
    (metis snd_conv)+

lemma conn_event_input: "input_left (snd (conn_event N f c)) = input_left c"
proof -
  have "input_left (snd (v1_event N v c)) = input_left c" for v
    using keepalive_event_input conn_payload_stream conn_upgrade_event_stream
    by (auto simp: v1_event_def negotiation_event_def input_left_def split: option.splits)
  then show ?thesis by (simp add: conn_event_def split: option.splits)
qed

lemma decode_encrypted_stream: "c_stream (snd (decode_encrypted N e c)) = c_stream c"
  by (auto simp: decode_encrypted_def split: prod.splits sum.splits option.splits)

lemma io_read_shorter: "io_read s = (Inr bs, s') \<Longrightarrow> length (s_in s') < length (s_in s)"
  by (drule io_read_Inr) simp

lemma conn_recv_shorter: "conn_recv N c = (Inr f, c') \<Longrightarrow> input_left c' < input_left c"
  using decode_encrypted_stream [of N]
  by (auto simp: conn_recv_def input_left_def dest!: io_read_shorter split: prod.splits sum.splits)
    (metis connection.select_convs(1) connection.surjective connection.update_convs(1) snd_conv)

lemma recv_during_conn_recv:
  "recv_during N c = (case conn_recv N c of (Inl e, c') \<Rightarrow> (Inl (map_cancelled e), c') | r \<Rightarrow> r) \<or>
   (\<exists>e c'. recv_during N c = (Inl e, c') \<and> conn_recv N c = (Inl e, c'))"
  by (auto simp: recv_during_def conn_recv_def split: prod.splits sum.splits)

lemma recv_during_shorter: "recv_during N c = (Inr f, c') \<Longrightarrow> input_left c' < input_left c"
  using conn_recv_shorter [of N c f c']
  by (auto simp: recv_during_def conn_recv_def split: prod.splits sum.splits)

lemma receive_turn_shorter:
  "(Inr f, c1) = conn_recv N c \<Longrightarrow> (r, c2) = conn_event N f c1 \<Longrightarrow> input_left c2 < input_left c"
  using conn_recv_shorter [of N c f c1] conn_event_input [of N f c1] by (metis snd_conv)

subsection \<open>Receiving\<close>

text \<open>
  \<open>receive\<close>: pending events first, then frames until one of them is an event. The loop ends
  because every frame it reads shortens the input.
\<close>

function conn_receive :: "('sk, 'pk) net \<Rightarrow> connection \<Rightarrow> event outcome" where
  "conn_receive N c =
     (case pending_events c of
        ev # evs \<Rightarrow> (Inr ev, c\<lparr>pending_events := evs\<rparr>)
      | [] \<Rightarrow>
        (case conn_recv N c of
           (Inl e, c1) \<Rightarrow> if e = EIo IUnexpectedEof then (Inr EvDisconnected, c1) else (Inl e, c1)
         | (Inr f, c1) \<Rightarrow>
           (case conn_event N f c1 of
              (Inl e, c2) \<Rightarrow> (Inl e, c2)
            | (Inr (Some ev), c2) \<Rightarrow> (Inr ev, c2)
            | (Inr None, c2) \<Rightarrow> conn_receive N c2)))"
  by pat_completeness auto
termination
  by (relation "measure (\<lambda>(N, c). input_left c)") (auto dest: receive_turn_shorter)

declare conn_receive.simps [simp del]

end
