(* ===== verification/Example_Net.thy ===== *)
theory Example_Net
  imports Conn_Session
begin

text \<open>
  The codec of the example instance for the connection layer's messages, and the example
  parameter \<open>ex_net\<close> that the witnesses of the connection theories use.
\<close>

definition e_bool :: "bool enc" where "e_bool = e_iso (\<lambda>b. if b then Some () else None) (e_option (\<lambda>_. []))"
definition d_bool :: "bool dec" where "d_bool = d_iso (\<lambda>x. x \<noteq> None) (d_option (\<lambda>r. Some ((), r)))"
definition e_unit :: "unit enc" where "e_unit = (\<lambda>_. [])"
definition d_unit :: "unit dec" where "d_unit = (\<lambda>r. Some ((), r))"

lemma codec_bool [codec_intros]: "codec e_bool d_bool"
  unfolding e_bool_def d_bool_def by (intro codec_intros codec_unit) simp

lemma codec_unit' [codec_intros]: "codec e_unit d_unit"
  unfolding e_unit_def d_unit_def by (rule codec_unit)

definition xe_ph :: "payload_header_msg enc" where
  "xe_ph = e_iso (\<lambda>x. (ph_id x, ph_type x, ph_total_size x, ph_file_name x))
     (e_pair (e_option e_int)
       (e_pair (e_option e_int)
       (e_pair (e_option e_int)
       (e_option e_bytes))))"

definition xd_ph :: "payload_header_msg dec" where
  "xd_ph = d_iso (\<lambda>(a, b, c, d). \<lparr>ph_id = a, ph_type = b, ph_total_size = c, ph_file_name = d\<rparr>)
     (d_pair (d_option d_int)
       (d_pair (d_option d_int)
       (d_pair (d_option d_int)
       (d_option d_bytes))))"

lemma codec_ph [codec_intros]: "codec xe_ph xd_ph"
  unfolding xe_ph_def xd_ph_def by (intro codec_intros) simp

definition xe_pc :: "payload_chunk enc" where
  "xe_pc = e_iso (\<lambda>x. (pc_flags x, pc_offset x, pc_body x))
     (e_pair (e_option e_int)
       (e_pair (e_option e_int)
       (e_option e_bytes)))"

definition xd_pc :: "payload_chunk dec" where
  "xd_pc = d_iso (\<lambda>(a, b, c). \<lparr>pc_flags = a, pc_offset = b, pc_body = c\<rparr>)
     (d_pair (d_option d_int)
       (d_pair (d_option d_int)
       (d_option d_bytes)))"

lemma codec_pc [codec_intros]: "codec xe_pc xd_pc"
  unfolding xe_pc_def xd_pc_def by (intro codec_intros) simp

definition xe_cm :: "control_message enc" where
  "xe_cm = e_iso (\<lambda>x. (cm_event x, cm_offset x))
     (e_pair (e_option e_int)
       (e_option e_int))"

definition xd_cm :: "control_message dec" where
  "xd_cm = d_iso (\<lambda>(a, b). \<lparr>cm_event = a, cm_offset = b\<rparr>)
     (d_pair (d_option d_int)
       (d_option d_int))"

lemma codec_cm [codec_intros]: "codec xe_cm xd_cm"
  unfolding xe_cm_def xd_cm_def by (intro codec_intros) simp

definition xe_pt :: "payload_transfer_frame enc" where
  "xe_pt = e_iso (\<lambda>x. (pt_packet_type x, pt_header x, pt_chunk x, pt_control x))
     (e_pair (e_option e_int)
       (e_pair (e_option xe_ph)
       (e_pair (e_option xe_pc)
       (e_option xe_cm))))"

definition xd_pt :: "payload_transfer_frame dec" where
  "xd_pt = d_iso (\<lambda>(a, b, c, d). \<lparr>pt_packet_type = a, pt_header = b, pt_chunk = c, pt_control = d\<rparr>)
     (d_pair (d_option d_int)
       (d_pair (d_option xd_ph)
       (d_pair (d_option xd_pc)
       (d_option xd_cm))))"

lemma codec_pt [codec_intros]: "codec xe_pt xd_pt"
  unfolding xe_pt_def xd_pt_def by (intro codec_intros) simp

definition xe_ka :: "keep_alive_frame enc" where
  "xe_ka = e_iso (\<lambda>x. (ka_ack x, ka_seq_num x))
     (e_pair (e_option e_bool)
       (e_option e_nat))"

definition xd_ka :: "keep_alive_frame dec" where
  "xd_ka = d_iso (\<lambda>(a, b). \<lparr>ka_ack = a, ka_seq_num = b\<rparr>)
     (d_pair (d_option d_bool)
       (d_option d_nat))"

lemma codec_ka [codec_intros]: "codec xe_ka xd_ka"
  unfolding xe_ka_def xd_ka_def by (intro codec_intros) simp

definition xe_df :: "disconnection_frame enc" where
  "xe_df = e_iso (\<lambda>x. (df_request_safe x, df_ack_safe x))
     (e_pair (e_option e_bool)
       (e_option e_bool))"

definition xd_df :: "disconnection_frame dec" where
  "xd_df = d_iso (\<lambda>(a, b). \<lparr>df_request_safe = a, df_ack_safe = b\<rparr>)
     (d_pair (d_option d_bool)
       (d_option d_bool))"

lemma codec_df [codec_intros]: "codec xe_df xd_df"
  unfolding xe_df_def xd_df_def by (intro codec_intros) simp

definition xe_cr :: "connection_request_frame enc" where
  "xe_cr = e_iso (\<lambda>x. (cr_endpoint_id x, cr_endpoint_name x, cr_handshake_data x, cr_endpoint_info x))
     (e_pair (e_option e_bytes)
       (e_pair (e_option e_bytes)
       (e_pair (e_option e_bytes)
       (e_option e_bytes))))"

definition xd_cr :: "connection_request_frame dec" where
  "xd_cr = d_iso (\<lambda>(a, b, c, d). \<lparr>cr_endpoint_id = a, cr_endpoint_name = b, cr_handshake_data = c, cr_endpoint_info = d\<rparr>)
     (d_pair (d_option d_bytes)
       (d_pair (d_option d_bytes)
       (d_pair (d_option d_bytes)
       (d_option d_bytes))))"

lemma codec_cr [codec_intros]: "codec xe_cr xd_cr"
  unfolding xe_cr_def xd_cr_def by (intro codec_intros) simp

definition xe_cs :: "connection_response_frame enc" where
  "xe_cs = e_iso (\<lambda>x. (cs_response x, cs_handshake_data x))
     (e_pair (e_option e_int)
       (e_option e_bytes))"

definition xd_cs :: "connection_response_frame dec" where
  "xd_cs = d_iso (\<lambda>(a, b). \<lparr>cs_response = a, cs_handshake_data = b\<rparr>)
     (d_pair (d_option d_int)
       (d_option d_bytes))"

lemma codec_cs [codec_intros]: "codec xe_cs xd_cs"
  unfolding xe_cs_def xd_cs_def by (intro codec_intros) simp

definition xe_sa :: "service_address enc" where
  "xe_sa = e_iso (\<lambda>x. (sa_ip_address x, sa_port x))
     (e_pair (e_option e_bytes)
       (e_option e_int))"

definition xd_sa :: "service_address dec" where
  "xd_sa = d_iso (\<lambda>(a, b). \<lparr>sa_ip_address = a, sa_port = b\<rparr>)
     (d_pair (d_option d_bytes)
       (d_option d_int))"

lemma codec_sa [codec_intros]: "codec xe_sa xd_sa"
  unfolding xe_sa_def xd_sa_def by (intro codec_intros) simp

definition xe_wh :: "wifi_hotspot_credentials enc" where
  "xe_wh = e_iso (\<lambda>x. (wh_ssid x, wh_password x, wh_port x, wh_gateway x, wh_frequency x, wh_address_candidates x))
     (e_pair (e_option e_bytes)
       (e_pair (e_option e_bytes)
       (e_pair (e_option e_int)
       (e_pair (e_option e_bytes)
       (e_pair (e_option e_int)
       (e_list xe_sa))))))"

definition xd_wh :: "wifi_hotspot_credentials dec" where
  "xd_wh = d_iso (\<lambda>(a, b, c, d, e, f). \<lparr>wh_ssid = a, wh_password = b, wh_port = c, wh_gateway = d, wh_frequency = e, wh_address_candidates = f\<rparr>)
     (d_pair (d_option d_bytes)
       (d_pair (d_option d_bytes)
       (d_pair (d_option d_int)
       (d_pair (d_option d_bytes)
       (d_pair (d_option d_int)
       (d_list xd_sa))))))"

lemma codec_wh [codec_intros]: "codec xe_wh xd_wh"
  unfolding xe_wh_def xd_wh_def by (intro codec_intros) simp

definition xe_wl :: "wifi_lan_socket enc" where
  "xe_wl = e_iso (\<lambda>x. (wl_ip_address x, wl_wifi_port x, wl_address_candidates x))
     (e_pair (e_option e_bytes)
       (e_pair (e_option e_int)
       (e_list xe_sa)))"

definition xd_wl :: "wifi_lan_socket dec" where
  "xd_wl = d_iso (\<lambda>(a, b, c). \<lparr>wl_ip_address = a, wl_wifi_port = b, wl_address_candidates = c\<rparr>)
     (d_pair (d_option d_bytes)
       (d_pair (d_option d_int)
       (d_list xd_sa)))"

lemma codec_wl [codec_intros]: "codec xe_wl xd_wl"
  unfolding xe_wl_def xd_wl_def by (intro codec_intros) simp

definition xe_wd :: "wifi_direct_credentials enc" where
  "xe_wd = e_iso (\<lambda>x. (wd_ssid x, wd_password x, wd_port x, wd_frequency x, wd_gateway x, wd_device_name x, wd_pin x))
     (e_pair (e_option e_bytes)
       (e_pair (e_option e_bytes)
       (e_pair (e_option e_int)
       (e_pair (e_option e_int)
       (e_pair (e_option e_bytes)
       (e_pair (e_option e_bytes)
       (e_option e_bytes)))))))"

definition xd_wd :: "wifi_direct_credentials dec" where
  "xd_wd = d_iso (\<lambda>(a, b, c, d, e, f, g). \<lparr>wd_ssid = a, wd_password = b, wd_port = c, wd_frequency = d, wd_gateway = e, wd_device_name = f, wd_pin = g\<rparr>)
     (d_pair (d_option d_bytes)
       (d_pair (d_option d_bytes)
       (d_pair (d_option d_int)
       (d_pair (d_option d_int)
       (d_pair (d_option d_bytes)
       (d_pair (d_option d_bytes)
       (d_option d_bytes)))))))"

lemma codec_wd [codec_intros]: "codec xe_wd xd_wd"
  unfolding xe_wd_def xd_wd_def by (intro codec_intros) simp

definition xe_pr :: "upgrade_path_request_msg enc" where
  "xe_pr = e_iso (pr_mediums)
     (e_list e_int)"

definition xd_pr :: "upgrade_path_request_msg dec" where
  "xd_pr = d_iso (\<lambda>a. \<lparr>pr_mediums = a\<rparr>)
     (d_list d_int)"

lemma codec_pr [codec_intros]: "codec xe_pr xd_pr"
  unfolding xe_pr_def xd_pr_def by (intro codec_intros) simp

definition xe_up :: "upgrade_path_info enc" where
  "xe_up = e_iso (\<lambda>x. (up_medium x, up_wifi_hotspot x, up_wifi_lan x, up_wifi_direct x, up_supports_ack x, up_request x))
     (e_pair (e_option e_int)
       (e_pair (e_option xe_wh)
       (e_pair (e_option xe_wl)
       (e_pair (e_option xe_wd)
       (e_pair (e_option e_bool)
       (e_option xe_pr))))))"

definition xd_up :: "upgrade_path_info dec" where
  "xd_up = d_iso (\<lambda>(a, b, c, d, e, f). \<lparr>up_medium = a, up_wifi_hotspot = b, up_wifi_lan = c, up_wifi_direct = d, up_supports_ack = e, up_request = f\<rparr>)
     (d_pair (d_option d_int)
       (d_pair (d_option xd_wh)
       (d_pair (d_option xd_wl)
       (d_pair (d_option xd_wd)
       (d_pair (d_option d_bool)
       (d_option xd_pr))))))"

lemma codec_up [codec_intros]: "codec xe_up xd_up"
  unfolding xe_up_def xd_up_def by (intro codec_intros) simp

definition xe_stc :: "safe_to_close_msg enc" where
  "xe_stc = e_iso (sc_sta_frequency)
     (e_option e_int)"

definition xd_stc :: "safe_to_close_msg dec" where
  "xd_stc = d_iso (\<lambda>a. \<lparr>sc_sta_frequency = a\<rparr>)
     (d_option d_int)"

lemma codec_stc [codec_intros]: "codec xe_stc xd_stc"
  unfolding xe_stc_def xd_stc_def by (intro codec_intros) simp

definition xe_cin :: "client_introduction_msg enc" where
  "xe_cin = e_iso (\<lambda>x. (ci_endpoint_id x, ci_supports_disabling_encryption x, ci_last_endpoint_id x))
     (e_pair (e_option e_bytes)
       (e_pair (e_option e_bool)
       (e_option e_bytes)))"

definition xd_cin :: "client_introduction_msg dec" where
  "xd_cin = d_iso (\<lambda>(a, b, c). \<lparr>ci_endpoint_id = a, ci_supports_disabling_encryption = b, ci_last_endpoint_id = c\<rparr>)
     (d_pair (d_option d_bytes)
       (d_pair (d_option d_bool)
       (d_option d_bytes)))"

lemma codec_cin [codec_intros]: "codec xe_cin xd_cin"
  unfolding xe_cin_def xd_cin_def by (intro codec_intros) simp

definition xe_un :: "upgrade_negotiation_frame enc" where
  "xe_un = e_iso (\<lambda>x. (un_event_type x, un_path_info x, un_client_introduction x, un_client_introduction_ack x, un_safe_to_close x))
     (e_pair (e_option e_int)
       (e_pair (e_option xe_up)
       (e_pair (e_option xe_cin)
       (e_pair (e_option e_unit)
       (e_option xe_stc)))))"

definition xd_un :: "upgrade_negotiation_frame dec" where
  "xd_un = d_iso (\<lambda>(a, b, c, d, e). \<lparr>un_event_type = a, un_path_info = b, un_client_introduction = c, un_client_introduction_ack = d, un_safe_to_close = e\<rparr>)
     (d_pair (d_option d_int)
       (d_pair (d_option xd_up)
       (d_pair (d_option xd_cin)
       (d_pair (d_option d_unit)
       (d_option xd_stc)))))"

lemma codec_un [codec_intros]: "codec xe_un xd_un"
  unfolding xe_un_def xd_un_def by (intro codec_intros) simp

definition xe_v1 :: "v1_frame enc" where
  "xe_v1 = e_iso (\<lambda>x. (v1_type x, v1_connection_request x, v1_connection_response x, v1_payload_transfer x, v1_upgrade x, v1_keep_alive x, v1_disconnection x))
     (e_pair (e_option e_int)
       (e_pair (e_option xe_cr)
       (e_pair (e_option xe_cs)
       (e_pair (e_option xe_pt)
       (e_pair (e_option xe_un)
       (e_pair (e_option xe_ka)
       (e_option xe_df)))))))"

definition xd_v1 :: "v1_frame dec" where
  "xd_v1 = d_iso (\<lambda>(a, b, c, d, e, f, g). \<lparr>v1_type = a, v1_connection_request = b, v1_connection_response = c, v1_payload_transfer = d, v1_upgrade = e, v1_keep_alive = f, v1_disconnection = g\<rparr>)
     (d_pair (d_option d_int)
       (d_pair (d_option xd_cr)
       (d_pair (d_option xd_cs)
       (d_pair (d_option xd_pt)
       (d_pair (d_option xd_un)
       (d_pair (d_option xd_ka)
       (d_option xd_df)))))))"

lemma codec_v1 [codec_intros]: "codec xe_v1 xd_v1"
  unfolding xe_v1_def xd_v1_def by (intro codec_intros) simp

definition xe_offline :: "offline_frame enc" where
  "xe_offline = e_iso (\<lambda>x. (of_version x, of_v1 x))
     (e_pair (e_option e_int)
       (e_option xe_v1))"

definition xd_offline :: "offline_frame dec" where
  "xd_offline = d_iso (\<lambda>(a, b). \<lparr>of_version = a, of_v1 = b\<rparr>)
     (d_pair (d_option d_int)
       (d_option xd_v1))"

lemma codec_offline [codec_intros]: "codec xe_offline xd_offline"
  unfolding xe_offline_def xd_offline_def by (intro codec_intros) simp

definition ex_net :: "(bytes, bytes) net" where
  "ex_net = \<lparr>n_crypto = ex_crypto, enc_offline = xe_offline, dec_offline = whole xd_offline,
     os_iv = (\<lambda>n. replicate 16 0)\<rparr>"

lemma ex_net_ok: "net_ok ex_net"
  by (simp add: net_ok_def ex_net_def ex_crypto_sym_ok whole_codec [OF codec_offline] IV_LENGTH_def)

definition ex_connection :: connection where
  "ex_connection = \<lparr>c_stream = idle_stream, c_channel = ex_channel, incoming_bytes = Map.empty,
     incoming_files = Map.empty, outgoing_file = None, pending_events = [], c_medium = WifiLan,
     c_upgrade = UpIdle, upgrade_host = False, c_endpoint_id = ascii ''ABCD'',
     c_verification_code = ascii ''0000''\<rparr>"

subsection \<open>Sending in the example instance\<close>

lemma length_decimal_le: "length (decimal n) \<le> n + 1"
proof (induction n rule: decimal.induct)
  case (1 n)
  then show ?case by (subst decimal.simps) auto
qed

lemma length_e_nat: "length (e_nat n) \<le> n + 2"
  using length_decimal_le [of n] by (simp add: e_nat_def)

lemma length_e_bytes: "length (e_bytes b) \<le> 2 * length b + 2"
  using length_e_nat [of "length b"] by (simp add: e_bytes_def)

lemma length_e_int: "length (e_int n) \<le> nat \<bar>n\<bar> + 3"
  using length_e_nat [of "nat \<bar>n\<bar>"] by (cases "n < 0") (simp_all add: e_int_def e_iso_def e_pair_def)

lemma ex_encrypt_length:
  assumes e: "channel_encrypt ex_crypto p (replicate 16 0) c = (Inr m, c')"
    and n: "0 \<le> send_sequence c" "send_sequence c \<le> 1000"
  shows "length m \<le> 16 * length p + 20000"
proof -
  let ?body = "xe_d2d \<lparr>d2d_message = Some p, d2d_sequence_number = Some (send_sequence c + 1)\<rparr>"
  let ?meta = "xe_metadata \<lparr>gm_type = DEVICE_TO_DEVICE_MESSAGE, gm_version = Some 1\<rparr>"
  let ?header = "xe_header \<lparr>signature_scheme = HMAC_SHA256, encryption_scheme = AES_256_CBC,
     verification_key_id = None, decryption_key_id = None, h_iv = Some (replicate 16 0),
     public_metadata = Some ?meta, associated_data_length = None\<rparr>"
  let ?hab = "xe_hab \<lparr>hb_header = ?header, hb_body = ?body\<rparr>"
  have m: "m = xe_secure \<lparr>sm_header_and_body = ?hab, sm_signature = ?hab\<rparr>"
    using channel_encrypt_Inr [OF e] by (auto simp: ex_crypto_def prim_encrypt_def hmac_def Let_def)
  note defs = e_iso_def e_pair_def
  have b: "length ?body \<le> 2 * length p + 1010"
    using length_e_bytes [of p] length_e_int [of "send_sequence c + 1"] n by (simp add: xe_d2d_def defs)
  have t: "length ?meta \<le> 30"
    using length_e_int [of 13] length_e_int [of 1] by (simp add: xe_metadata_def defs DEVICE_TO_DEVICE_MESSAGE_def)
  have h: "length ?header \<le> 200"
    using length_e_bytes [of ?meta] length_e_bytes [of "replicate 16 0"] t length_e_int [of 1] length_e_int [of 2]
    by (simp add: xe_header_def defs HMAC_SHA256_def AES_256_CBC_def)
  have "length ?hab \<le> 4 * length p + 2424"
    using length_e_bytes [of ?header] length_e_bytes [of ?body] b h by (simp add: xe_hab_def defs)
  then show ?thesis
    using length_e_bytes [of ?hab] by (simp add: m xe_secure_def defs)
qed

text \<open>A sender in working order: healthy stream, keys of the right length, few messages sent.\<close>

definition ex_sender :: "nat \<Rightarrow> connection \<Rightarrow> bool" where
  "ex_sender n a \<longleftrightarrow> s_healthy (c_stream a) \<and> length (k_encryption (sc_send (c_channel a))) = KEY_LENGTH \<and>
     0 \<le> send_sequence (c_channel a) \<and> send_sequence (c_channel a) \<le> int n"

lemma ex_connection_sender [simp]: "ex_sender n ex_connection"
  by (simp add: ex_sender_def ex_connection_def ex_channel_def KEY_LENGTH_def Let_def)

lemma ex_conn_send:
  assumes a: "ex_sender n a" and n: "n \<le> 1000" and f: "length (xe_offline f) \<le> 10000"
  shows "\<exists>ch s. conn_send ex_net f a = (Inr (), a\<lparr>c_channel := ch, c_stream := s\<rparr>) \<and>
     ex_sender (Suc n) (a\<lparr>c_channel := ch, c_stream := s\<rparr>) \<and> s_in s = s_in (c_stream a) \<and> s_end s = s_end (c_stream a)"
proof -
  let ?ch = "(c_channel a)\<lparr>send_sequence := send_sequence (c_channel a) + 1\<rparr>"
  obtain m where m: "channel_encrypt ex_crypto (xe_offline f) (replicate 16 0) (c_channel a) = (Inr m, ?ch)"
    using encrypt_succeeds [OF ex_crypto_sym_ok, of "c_channel a" "replicate 16 0" "xe_offline f"] a n
    by (auto simp: ex_sender_def good_iv_def IV_LENGTH_def range_defs)
  have "length m \<le> MAX_FRAME_LENGTH"
    using ex_encrypt_length [OF m] a n f by (simp add: ex_sender_def MAX_FRAME_LENGTH_def)
  then have w: "io_write m (c_stream a) = (Inr (), (c_stream a)\<lparr>s_out := s_out (c_stream a) @ frame_bytes m\<rparr>)"
    using io_write_healthy a by (simp add: ex_sender_def)
  show ?thesis
    by (rule exI [of _ ?ch], rule exI [of _ "(c_stream a)\<lparr>s_out := s_out (c_stream a) @ frame_bytes m\<rparr>"])
      (use a m w in \<open>simp add: conn_send_def ex_net_def ex_sender_def\<close>)
qed

end
