(* ===== verification/Conn_Transfer.thy ===== *)
theory Conn_Transfer
  imports Example_Net
begin

text \<open>
  Properties of the transfer operations: frames in flight between two connections are received
  in order, a BYTES payload arrives whole, the bounds on reassembly, and the order in which a
  client sees the events of FILE payloads.
\<close>

subsection \<open>Frames in flight\<close>

definition deliver :: "bytes \<Rightarrow> connection \<Rightarrow> connection" where
  "deliver x b = b\<lparr>c_stream := (c_stream b)\<lparr>s_in := s_in (c_stream b) @ x\<rparr>\<rparr>"

text \<open>The bytes a connection has written between two of its states.\<close>

definition written :: "connection \<Rightarrow> connection \<Rightarrow> bytes" where
  "written a a' = drop (length (s_out (c_stream a))) (s_out (c_stream a'))"

fun in_flight :: "('sk, 'pk) net \<Rightarrow> offline_frame list \<Rightarrow> connection \<Rightarrow> connection \<Rightarrow> bool" where
  "in_flight N [] a b \<longleftrightarrow> net_ok N \<and> in_step (n_crypto N) (c_channel a) (c_channel b) \<and> s_in (c_stream b) = []"
| "in_flight N (f # fs) a b \<longleftrightarrow> (\<exists>b'. conn_recv N b = (Inr f, b') \<and> in_flight N fs a b')"

lemma net_okD:
  assumes "net_ok N"
  shows "sym_ok (n_crypto N)" "dec_offline N (enc_offline N f) = Some f" "good_iv (os_iv N n)"
  using assms by (simp_all add: net_ok_def good_iv_def)

lemma conn_send_Inr:
  assumes "conn_send N f a = (Inr (), a')"
  shows "\<exists>m ch. channel_encrypt (n_crypto N) (enc_offline N f) (os_iv N (send_sequence (c_channel a)))
       (c_channel a) = (Inr m, ch) \<and> length m \<le> MAX_FRAME_LENGTH \<and>
     c_channel a' = ch \<and> s_out (c_stream a') = s_out (c_stream a) @ frame_bytes m \<and>
     a' = a\<lparr>c_channel := ch, c_stream := c_stream a'\<rparr>"
  using assms by (auto simp: conn_send_def dest!: io_write_Inr split: prod.splits sum.splits)

lemma io_read_append:
  assumes "io_read s = (Inr bs, s')"
  shows "io_read (s\<lparr>s_in := s_in s @ x\<rparr>) = (Inr bs, s'\<lparr>s_in := s_in s' @ x\<rparr>)"
proof -
  note r = io_read_Inr [OF assms]
  then have "io_read (s\<lparr>s_in := s_in s @ x\<rparr>) =
      (Inr bs, s\<lparr>s_in := s_in s @ x\<rparr>\<lparr>s_in := s_in s' @ x\<rparr>)"
    by (intro io_read_frame) simp_all
  also have "s\<lparr>s_in := s_in s @ x\<rparr>\<lparr>s_in := s_in s' @ x\<rparr> = s'\<lparr>s_in := s_in s' @ x\<rparr>"
    using r by (metis stream.update_convs(1) stream.surjective)
  finally show ?thesis .
qed

lemma decode_encrypted_deliver:
  "decode_encrypted N e (deliver x c) =
     (fst (decode_encrypted N e c), deliver x (snd (decode_encrypted N e c)))"
  by (auto simp: decode_encrypted_def deliver_def split: prod.splits sum.splits option.splits)

lemma conn_recv_deliver:
  assumes "conn_recv N b = (Inr f, b')"
  shows "conn_recv N (deliver x b) = (Inr f, deliver x b')"
proof -
  from assms obtain e s where r: "io_read (c_stream b) = (Inr e, s)"
    and d: "decode_encrypted N e (b\<lparr>c_stream := s\<rparr>) = (Inr f, b')"
    by (auto simp: conn_recv_def split: prod.splits sum.splits)
  have "conn_recv N (deliver x b) = decode_encrypted N e (deliver x (b\<lparr>c_stream := s\<rparr>))"
    using io_read_append [OF r, of x] by (simp add: conn_recv_def deliver_def)
  then show ?thesis by (simp add: decode_encrypted_deliver d)
qed

text \<open>What \<open>conn_recv\<close> may change.\<close>

lemma conn_recv_keeps:
  "conn_recv N b = (r, b') \<Longrightarrow>
     b' = b\<lparr>c_stream := c_stream b', c_channel := c_channel b'\<rparr> \<and> s_out (c_stream b') = s_out (c_stream b)"
  by (auto simp: conn_recv_def decode_encrypted_def io_read_def read_frame_remainder_def
      stream_read_exact_def split: prod.splits sum.splits option.splits if_splits)

lemma in_flight_send:
  assumes "in_flight N fs a b" and "conn_send N f a = (Inr (), a')"
  shows "in_flight N (fs @ [f]) a' (deliver (written a a') b)"
  using assms
proof (induction fs arbitrary: b)
  case Nil
  then have N: "net_ok N" and st: "in_step (n_crypto N) (c_channel a) (c_channel b)"
    and i: "s_in (c_stream b) = []" by simp_all
  from conn_send_Inr [OF Nil.prems(2)] obtain m where
    e: "channel_encrypt (n_crypto N) (enc_offline N f) (os_iv N (send_sequence (c_channel a)))
       (c_channel a) = (Inr m, c_channel a')" and l: "length m \<le> MAX_FRAME_LENGTH"
    and w: "written a a' = frame_bytes m"
    by (auto simp: written_def)
  from channel_deliver [OF st net_okD(3) [OF N] e] obtain ch where
    d: "channel_decrypt (n_crypto N) m (c_channel b) = (Inr (enc_offline N f), ch)"
    and st': "in_step (n_crypto N) (c_channel a') ch" by blast
  have "io_read (c_stream (deliver (written a a') b)) = (Inr m, (c_stream b)\<lparr>s_in := []\<rparr>)"
    using io_read_frame [of "c_stream (deliver (written a a') b)" m "[]"] w i l
    by (simp add: deliver_def)
  then show ?case
    using d st' N by (simp add: conn_recv_def decode_encrypted_def net_okD deliver_def)
next
  case (Cons g fs)
  then obtain b1 where r: "conn_recv N b = (Inr g, b1)" and fl: "in_flight N fs a b1" by auto
  from Cons.IH [OF fl Cons.prems(2)] conn_recv_deliver [OF r, of "written a a'"] show ?case by auto
qed

lemma written_trans:
  assumes "\<exists>x. s_out (c_stream b) = s_out (c_stream a) @ x" and "\<exists>y. s_out (c_stream c) = s_out (c_stream b) @ y"
  shows "written a c = written a b @ written b c"
  using assms by (auto simp: written_def)

lemma deliver_deliver [simp]: "deliver y (deliver x b) = deliver (x @ y) b"
  by (simp add: deliver_def)

lemma deliver_fields [simp]:
  "pending_events (deliver x b) = pending_events b" "incoming_bytes (deliver x b) = incoming_bytes b"
  "incoming_files (deliver x b) = incoming_files b" "c_channel (deliver x b) = c_channel b"
  by (simp_all add: deliver_def)

subsection \<open>A BYTES payload arrives whole\<close>

lemma conn_event_data:
  assumes "payload_header_data h = Inr (i, sz, KBytes)" and "0 \<le> offset" and "length bs \<le> MAX_FRAME_LENGTH"
  shows "conn_event N (data_frame h offset bs is_last) c = bytes_payload i sz offset bs is_last c"
  using assms
  by (simp add: conn_event_def v1_event_def data_frame_def offline_def v1_default_def conn_payload_def
      decoded_chunk wire_numbers)

lemma len_i64: "length bs \<le> MAX_FRAME_LENGTH \<Longrightarrow> i64_of_usize (length bs) = Some (int (length bs))"
  by (simp add: i64_of_usize_def i64_max_def MAX_FRAME_LENGTH_def)

lemma bytes_payload_first:
  assumes "incoming_bytes c i = None" and "length bs \<le> MAX_FRAME_LENGTH" and "int (length bs) = sz"
  shows "bytes_payload i sz 0 bs False c =
     (Inr None, c\<lparr>incoming_bytes := (incoming_bytes c)(i \<mapsto> \<lparr>ib_bytes = bs, ib_next_offset = sz, ib_size = sz\<rparr>)\<rparr>)"
  using assms
  by (auto simp: bytes_payload_def len_i64 checked_add_i64_def range_defs MAX_FRAME_LENGTH_def Let_def)

lemma bytes_payload_last:
  assumes "incoming_bytes c i = Some \<lparr>ib_bytes = bs, ib_next_offset = sz, ib_size = sz\<rparr>"
    and "0 \<le> sz" "sz \<le> MAX_PAYLOAD_LENGTH"
  shows "bytes_payload i sz sz [] True c =
     (Inr (Some (EvBytes i bs)), c\<lparr>incoming_bytes := (incoming_bytes c)(i := None)\<rparr>)"
  using assms
  by (auto simp: bytes_payload_def i64_of_usize_def checked_add_i64_def range_defs MAX_PAYLOAD_LENGTH_def
      finish_bytes_payload_def Let_def)

lemma bytes_payload_empty:
  assumes "incoming_bytes c i = None"
  shows "bytes_payload i 0 0 [] True c =
     (Inr (Some (EvBytes i [])), c\<lparr>incoming_bytes := (incoming_bytes c)(i := None)\<rparr>)"
  using assms
  by (auto simp: bytes_payload_def i64_of_usize_def checked_add_i64_def range_defs
      finish_bytes_payload_def Let_def)

lemma conn_data_Inr:
  "conn_data N h offset bs is_last a = (Inr (), a') \<Longrightarrow>
     0 \<le> offset \<and> length bs \<le> MAX_FRAME_LENGTH \<and> conn_send N (data_frame h offset bs is_last) a = (Inr (), a')"
  by (auto simp: conn_data_def split: if_splits)

lemma conn_send_appends: "conn_send N f a = (Inr (), a') \<Longrightarrow> \<exists>x. s_out (c_stream a') = s_out (c_stream a) @ x"
  by (drule conn_send_Inr) auto

definition bytes_frames :: "payload_header_msg \<Rightarrow> bytes \<Rightarrow> offline_frame list" where
  "bytes_frames h bs =
     (if bs = [] then [data_frame h 0 [] True]
      else [data_frame h 0 bs False, data_frame h (int (length bs)) [] True])"

lemma send_bytes_in_flight:
  assumes fl: "in_flight N fs a b" and s: "send_bytes N i bs a = (Inr (), a')"
  shows "\<exists>h. payload_header i KBytes (int (length bs)) None = Inr h \<and> length bs \<le> MAX_FRAME_LENGTH \<and>
     in_flight N (fs @ bytes_frames h bs) a' (deliver (written a a') b)"
proof -
  from s obtain h where h: "payload_header i KBytes (int (length bs)) None = Inr h"
    and d: "(if bs = [] then conn_data N h 0 bs True a
        else case conn_data N h 0 bs False a of
               (Inl e, c1) \<Rightarrow> (Inl e, c1)
             | (Inr _, c1) \<Rightarrow> conn_data N h (int (length bs)) [] True c1) = (Inr (), a')"
    by (auto simp: send_bytes_def i64_of_usize_def split: if_splits sum.splits)
  show ?thesis
  proof (cases "bs = []")
    case True
    with d have "conn_send N (data_frame h 0 [] True) a = (Inr (), a')"
      by (auto dest: conn_data_Inr)
    from in_flight_send [OF fl this] h True show ?thesis by (simp add: bytes_frames_def)
  next
    case False
    with d obtain a1 where "conn_data N h 0 bs False a = (Inr (), a1)"
      "conn_data N h (int (length bs)) [] True a1 = (Inr (), a')"
      by (auto split: prod.splits sum.splits)
    then have c: "conn_send N (data_frame h 0 bs False) a = (Inr (), a1)" "length bs \<le> MAX_FRAME_LENGTH"
      "conn_send N (data_frame h (int (length bs)) [] True) a1 = (Inr (), a')"
      by (auto dest: conn_data_Inr)
    have w: "written a a' = written a a1 @ written a1 a'"
      using written_trans conn_send_appends c(1,3) by blast
    from in_flight_send [OF in_flight_send [OF fl c(1)] c(3)] h c(2) False w show ?thesis
      by (auto simp: bytes_frames_def)
  qed
qed

lemma receive_event:
  assumes "pending_events c = []" and "conn_recv N c = (Inr f, c1)" and "conn_event N f c1 = (Inr r, c2)"
  shows "conn_receive N c = (case r of None \<Rightarrow> conn_receive N c2 | Some ev \<Rightarrow> (Inr ev, c2))"
  using assms by (subst conn_receive.simps) (simp split: option.splits)

lemma decode_encrypted_incoming:
  "decode_encrypted N e (c\<lparr>incoming_bytes := m\<rparr>) =
     (fst (decode_encrypted N e c), (snd (decode_encrypted N e c))\<lparr>incoming_bytes := m\<rparr>)"
  by (auto simp: decode_encrypted_def split: prod.splits sum.splits option.splits)

lemma conn_recv_incoming:
  "conn_recv N c = (Inr f, c') \<Longrightarrow>
     conn_recv N (c\<lparr>incoming_bytes := m\<rparr>) = (Inr f, c'\<lparr>incoming_bytes := m\<rparr>)"
proof -
  assume "conn_recv N c = (Inr f, c')"
  then obtain e s where r: "io_read (c_stream c) = (Inr e, s)"
    and d: "decode_encrypted N e (c\<lparr>c_stream := s\<rparr>) = (Inr f, c')"
    by (auto simp: conn_recv_def split: prod.splits sum.splits)
  have "conn_recv N (c\<lparr>incoming_bytes := m\<rparr>) = decode_encrypted N e ((c\<lparr>c_stream := s\<rparr>)\<lparr>incoming_bytes := m\<rparr>)"
    using r by (cases c) (simp add: conn_recv_def)
  then show ?thesis by (simp add: decode_encrypted_incoming d)
qed

lemma receive_bytes_frames:
  assumes fl: "in_flight N (bytes_frames h bs) a b" and h: "payload_header i KBytes (int (length bs)) None = Inr h"
    and len: "length bs \<le> MAX_FRAME_LENGTH" and p: "pending_events b = []" and nb: "incoming_bytes b i = None"
  shows "\<exists>b'. conn_receive N b = (Inr (EvBytes i bs), b') \<and> in_flight N [] a b' \<and> pending_events b' = [] \<and>
     incoming_bytes b' = incoming_bytes b \<and> incoming_files b' = incoming_files b"
proof -
  note hd = payload_header_Inr [OF h]
  show ?thesis
  proof (cases "bs = []")
    case True
    with fl obtain b1 where r: "conn_recv N b = (Inr (data_frame h 0 [] True), b1)" and f: "in_flight N [] a b1"
      by (auto simp: bytes_frames_def)
    note k = conn_recv_keeps [OF r]
    have i1: "incoming_bytes b1 = incoming_bytes b" "pending_events b1 = []" "incoming_files b1 = incoming_files b"
      using p by (subst conjunct1 [OF k], simp)+
    have "conn_event N (data_frame h 0 [] True) b1 =
        (Inr (Some (EvBytes i [])), b1\<lparr>incoming_bytes := (incoming_bytes b1)(i := None)\<rparr>)"
      using conn_event_data [of h i 0 0 "[]" N True b1] hd True bytes_payload_empty [of b1 i] i1 nb
      by (simp add: MAX_FRAME_LENGTH_def)
    from receive_event [OF p r this] f i1 nb True show ?thesis by (simp add: fun_upd_idem)
  next
    case False
    with fl obtain b1 b2 where r1: "conn_recv N b = (Inr (data_frame h 0 bs False), b1)"
      and r2: "conn_recv N b1 = (Inr (data_frame h (int (length bs)) [] True), b2)"
      and f: "in_flight N [] a b2"
      by (auto simp: bytes_frames_def)
    note k1 = conn_recv_keeps [OF r1] and k2 = conn_recv_keeps [OF r2]
    have i1: "incoming_bytes b1 = incoming_bytes b" "pending_events b1 = []" "incoming_files b1 = incoming_files b"
      using p by (subst conjunct1 [OF k1], simp)+
    have i2: "incoming_bytes b2 = incoming_bytes b" "pending_events b2 = []" "incoming_files b2 = incoming_files b"
      using i1 by (subst conjunct1 [OF k2], simp)+
    let ?p = "\<lparr>ib_bytes = bs, ib_next_offset = int (length bs), ib_size = int (length bs)\<rparr>"
    let ?m = "(incoming_bytes b)(i \<mapsto> ?p)"
    have e1: "conn_event N (data_frame h 0 bs False) b1 = (Inr None, b1\<lparr>incoming_bytes := ?m\<rparr>)"
      using conn_event_data [of h i "int (length bs)" 0 bs N False b1] hd len nb i1
        bytes_payload_first [of b1 i bs "int (length bs)"] by simp
    have r2': "conn_recv N (b1\<lparr>incoming_bytes := ?m\<rparr>) =
        (Inr (data_frame h (int (length bs)) [] True), b2\<lparr>incoming_bytes := ?m\<rparr>)"
      by (rule conn_recv_incoming [OF r2])
    have e2: "conn_event N (data_frame h (int (length bs)) [] True) (b2\<lparr>incoming_bytes := ?m\<rparr>) =
        (Inr (Some (EvBytes i bs)), b2\<lparr>incoming_bytes := incoming_bytes b\<rparr>)"
      using conn_event_data [of h i "int (length bs)" "int (length bs)" "[]" N True "b2\<lparr>incoming_bytes := ?m\<rparr>"]
        hd nb bytes_payload_last [of "b2\<lparr>incoming_bytes := ?m\<rparr>" i bs "int (length bs)"]
      by (simp add: MAX_FRAME_LENGTH_def fun_upd_idem)
    have "conn_receive N b = conn_receive N (b1\<lparr>incoming_bytes := ?m\<rparr>)"
      using receive_event [OF p r1 e1] by simp
    also have "\<dots> = (Inr (EvBytes i bs), b2\<lparr>incoming_bytes := incoming_bytes b\<rparr>)"
      using receive_event [OF _ r2' e2] i1 by simp
    finally show ?thesis using f i2 by simp
  qed
qed

text \<open>
  A BYTES payload arrives whole. If a connection whose channel is in step with its peer's
  sends a payload and the call succeeds, then the peer's next \<open>receive\<close>, given the bytes written,
  returns exactly that payload under the same identifier, and the two are in step again with
  nothing left over.
\<close>

theorem bytes_payload_delivered:
  assumes "in_flight N [] a b" and "pending_events b = []" and "incoming_bytes b i = None"
    and "send_bytes N i bs a = (Inr (), a')"
  shows "\<exists>b'. conn_receive N (deliver (written a a') b) = (Inr (EvBytes i bs), b') \<and>
     in_flight N [] a' b' \<and> pending_events b' = [] \<and> incoming_bytes b' = incoming_bytes b"
proof -
  from send_bytes_in_flight [OF assms(1,4)] obtain h where
    "payload_header i KBytes (int (length bs)) None = Inr h" "length bs \<le> MAX_FRAME_LENGTH"
    "in_flight N (bytes_frames h bs) a' (deliver (written a a') b)" by auto
  from receive_bytes_frames [OF this(3,1,2)] assms(2,3) show ?thesis by auto
qed

lemma ex_in_flight: "in_flight ex_net [] ex_connection ex_connection"
  by (simp add: ex_net_ok in_step_def ex_connection_def ex_channel_def idle_stream_def ex_net_def
      ex_crypto_sym_ok Let_def) (simp add: ex_net_def [symmetric] ex_net_ok)

lemmas ex_codec_defs =
  xe_offline_def xe_v1_def xe_pt_def xe_ph_def xe_pc_def e_iso_def e_pair_def e_int_def e_nat_def
  e_bytes_def decimal.simps data_frame_def offline_def v1_default_def wire_numbers

lemma ex_conn_data:
  assumes "ex_sender n a" "n \<le> 1000" "0 \<le> offset" "length bs \<le> 1000"
    and "length (xe_offline (data_frame h offset bs is_last)) \<le> 10000"
  shows "\<exists>a'. conn_data ex_net h offset bs is_last a = (Inr (), a') \<and> ex_sender (Suc n) a'"
  using ex_conn_send [OF assms(1,2,5)] assms(3,4) by (auto simp: conn_data_def MAX_FRAME_LENGTH_def)

lemma ex_send_bytes: "\<exists>a'. send_bytes ex_net 7 [1, 2, 3] ex_connection = (Inr (), a')"
proof -
  let ?h = "\<lparr>ph_id = Some 7, ph_type = Some TYPE_BYTES, ph_total_size = Some 3, ph_file_name = None\<rparr>"
  have "\<exists>a1. conn_data ex_net ?h 0 [1, 2, 3] False ex_connection = (Inr (), a1) \<and> ex_sender (Suc 0) a1"
    by (rule ex_conn_data) (simp_all add: ex_codec_defs)
  then obtain a1 where 1: "conn_data ex_net ?h 0 [1, 2, 3] False ex_connection = (Inr (), a1)"
    and a1: "ex_sender (Suc 0) a1" by blast
  have "\<exists>a2. conn_data ex_net ?h 3 [] True a1 = (Inr (), a2) \<and> ex_sender (Suc (Suc 0)) a2"
    by (rule ex_conn_data [OF a1]) (simp_all add: ex_codec_defs)
  with 1 show ?thesis
    by (auto simp: send_bytes_def i64_of_usize_def i64_max_def payload_header_def MAX_PAYLOAD_LENGTH_def)
qed

theorem bytes_payload_delivered_witness:
  "\<exists>a' b'. send_bytes ex_net 7 [1, 2, 3] ex_connection = (Inr (), a') \<and>
     conn_receive ex_net (deliver (written ex_connection a') ex_connection) = (Inr (EvBytes 7 [1, 2, 3]), b')"
proof -
  obtain a' where a: "send_bytes ex_net 7 [1, 2, 3] ex_connection = (Inr (), a')"
    using ex_send_bytes by blast
  then show ?thesis
    using bytes_payload_delivered [OF ex_in_flight _ _ a] by (auto simp: ex_connection_def)
qed

subsection \<open>Bounds on reassembly\<close>

definition bytes_ok :: "incoming_bytes_state \<Rightarrow> bool" where
  "bytes_ok p \<longleftrightarrow> int (length (ib_bytes p)) = ib_next_offset p \<and> ib_next_offset p \<le> ib_size p \<and>
     ib_size p \<le> MAX_PAYLOAD_LENGTH"

definition file_ok :: "incoming_file_state \<Rightarrow> bool" where
  "file_ok f \<longleftrightarrow> 0 \<le> if_next_offset f \<and> if_next_offset f \<le> if_size f \<and> if_size f \<le> MAX_PAYLOAD_LENGTH"

definition reassembly_inv :: "connection \<Rightarrow> bool" where
  "reassembly_inv c \<longleftrightarrow>
     (\<forall>i. pred_option bytes_ok (incoming_bytes c i)) \<and> (\<forall>i. pred_option file_ok (incoming_files c i))"

lemma reassembly_inv_cong:
  "incoming_bytes c' = incoming_bytes c \<Longrightarrow> incoming_files c' = incoming_files c \<Longrightarrow>
     reassembly_inv c \<Longrightarrow> reassembly_inv c'"
  by (simp add: reassembly_inv_def)

lemma reassembly_inv_bytes:
  "reassembly_inv c \<Longrightarrow> pred_option bytes_ok x \<Longrightarrow>
     reassembly_inv (c\<lparr>incoming_bytes := (incoming_bytes c)(i := x)\<rparr>)"
  by (simp add: reassembly_inv_def)

lemma reassembly_inv_files:
  "reassembly_inv c \<Longrightarrow> pred_option file_ok x \<Longrightarrow>
     reassembly_inv (c\<lparr>incoming_files := (incoming_files c)(i := x)\<rparr>)"
  by (simp add: reassembly_inv_def)

lemma reassembly_inv_clear: "reassembly_inv c \<Longrightarrow> reassembly_inv (clear_payload i c)"
  by (simp add: reassembly_inv_def clear_payload_def)

lemma reassembly_inv_finish: "reassembly_inv c \<Longrightarrow> reassembly_inv (snd (finish_bytes_payload i c))"
  by (auto simp: finish_bytes_payload_def Let_def reassembly_inv_bytes split: option.splits)

lemma bytes_ok_new: "0 \<le> sz \<Longrightarrow> sz \<le> MAX_PAYLOAD_LENGTH \<Longrightarrow>
    bytes_ok \<lparr>ib_bytes = [], ib_next_offset = 0, ib_size = sz\<rparr>"
  by (simp add: bytes_ok_def)

lemma reassembly_inv_bytes_payload:
  assumes inv: "reassembly_inv c" and sz: "0 \<le> sz" "sz \<le> MAX_PAYLOAD_LENGTH"
  shows "reassembly_inv (snd (bytes_payload i sz offset bs is_last c))"
proof -
  define p where "p = (case incoming_bytes c i of
      None \<Rightarrow> \<lparr>ib_bytes = [], ib_next_offset = 0, ib_size = sz\<rparr> | Some p \<Rightarrow> p)"
  have p: "bytes_ok p"
    using inv sz by (auto simp: p_def reassembly_inv_def bytes_ok_new split: option.splits)
      (metis option.pred_inject(2))
  define c1 where "c1 = c\<lparr>incoming_bytes := (incoming_bytes c)(i \<mapsto> p)\<rparr>"
  have c1: "reassembly_inv c1" using inv p by (simp add: c1_def reassembly_inv_bytes)
  have q: "reassembly_inv (c1\<lparr>incoming_bytes := (incoming_bytes c1)(i \<mapsto>
        p\<lparr>ib_bytes := ib_bytes p @ bs, ib_next_offset := offset + int (length bs)\<rparr>)\<rparr>)"
    if "ib_next_offset p = offset" "offset + int (length bs) \<le> sz" "ib_size p = sz"
    using that p c1 by (intro reassembly_inv_bytes) (simp_all add: bytes_ok_def)
  show ?thesis
    unfolding bytes_payload_def p_def [symmetric] Let_def c1_def [symmetric]
    using c1 q reassembly_inv_finish [OF q]
    by (auto simp: i64_of_usize_def split: option.splits)
qed

lemma reassembly_inv_file_payload:
  assumes inv: "reassembly_inv c" and sz: "0 \<le> sz" "sz \<le> MAX_PAYLOAD_LENGTH" and o: "0 \<le> offset"
  shows "reassembly_inv (snd (file_payload i sz name offset bs is_last c))"
proof -
  have b: "reassembly_inv (snd (begin_file i sz offset c))"
    using inv sz by (auto simp: begin_file_def file_ok_def intro!: reassembly_inv_files)
  have a: "reassembly_inv (snd (advance_file i sz offset n is_last c1))" if "reassembly_inv c1" for c1 n
    using that o
    by (auto simp: advance_file_def file_ok_def reassembly_inv_def i64_of_usize_def pred_option_def
        split: option.splits)
  have p: "reassembly_inv (d\<lparr>pending_events := x\<rparr>) = reassembly_inv d" for d x
    by (simp add: reassembly_inv_def)
  obtain r c1 where 1: "begin_file i sz offset c = (r, c1)" by force
  show ?thesis
  proof (cases r)
    case (Inl e)
    then show ?thesis using b 1 by (simp add: file_payload_def)
  next
    case (Inr first)
    obtain r2 c2 where 2: "advance_file i sz offset (length bs) is_last c1 = (r2, c2)" by force
    have "reassembly_inv c2" using a [of c1 "length bs"] b 1 2 by simp
    then show ?thesis
      using 1 2 Inr by (cases r2) (auto simp: file_payload_def Let_def p intro!: reassembly_inv_files)
  qed
qed

lemma reassembly_inv_control: "reassembly_inv c \<Longrightarrow> reassembly_inv (snd (control_payload t c))"
  by (auto simp: control_payload_def payload_control_event_def reassembly_inv_clear split: option.splits)

lemma reassembly_inv_payload:
  assumes inv: "reassembly_inv c"
  shows "reassembly_inv (snd (conn_payload t c))"
proof -
  have f: "file_payload i sz name offset bs is_last c = (r, c1) \<Longrightarrow> 0 \<le> sz \<Longrightarrow> sz \<le> MAX_PAYLOAD_LENGTH \<Longrightarrow>
      0 \<le> offset \<Longrightarrow> reassembly_inv c1" for i sz name offset bs is_last r c1
    using reassembly_inv_file_payload [OF inv, of sz offset i name bs is_last] by simp
  show ?thesis
    using inv
    by (auto simp: conn_payload_def reassembly_inv_control
        intro!: reassembly_inv_bytes_payload dest!: payload_header_data_bounds decoded_Inr intro: f
        split: option.splits sum.splits prod.splits)
qed

lemma conn_send_keeps:
  "conn_send N f c = (r, c') \<Longrightarrow> c' = c\<lparr>c_channel := c_channel c', c_stream := c_stream c'\<rparr>"
  by (auto simp: conn_send_def split: prod.splits sum.splits)

lemma keepalive_event_keeps:
  assumes "keepalive_event N f c = (r, c')"
  shows "c' = c\<lparr>c_channel := c_channel c', c_stream := c_stream c'\<rparr>"
proof -
  have "c' = c \<or> (\<exists>g r'. conn_send N g c = (r', c'))"
    using assms by (auto simp: keepalive_event_def Let_def split: option.splits if_splits prod.splits sum.splits)
  then show ?thesis using conn_send_keeps by auto
qed

lemma reassembly_inv_event:
  assumes "reassembly_inv c"
  shows "reassembly_inv (snd (conn_event N f c))"
proof -
  have k: "reassembly_inv (snd (keepalive_event N x c))" for x
  proof -
    obtain r c' where e: "keepalive_event N x c = (r, c')" by force
    from keepalive_event_keeps [OF this] have "incoming_bytes c' = incoming_bytes c"
      "incoming_files c' = incoming_files c" by (metis connection.simps connection.surjective connection.update_convs)+
    with e assms show ?thesis by (simp add: reassembly_inv_def)
  qed
  have u: "reassembly_inv (snd (conn_upgrade_event n c))" for n
    using assms by (auto simp: conn_upgrade_event_def reassembly_inv_def split: option.splits)
  show ?thesis
    using assms k u reassembly_inv_payload [OF assms]
    by (auto simp: conn_event_def v1_event_def negotiation_event_def split: option.splits)
qed

interpretation reassembly: step_invariant "\<lambda>f c. snd (conn_event N f c)"
  "c0\<lparr>incoming_bytes := Map.empty, incoming_files := Map.empty\<rparr>" reassembly_inv "\<lambda>_ _. True"
  for N c0
  by unfold_locales (simp_all add: reassembly_inv_def reassembly_inv_event [unfolded reassembly_inv_def])

text \<open>A connection without payloads under reassembly, fed any frames.\<close>

definition fed :: "('sk, 'pk) net \<Rightarrow> offline_frame list \<Rightarrow> connection \<Rightarrow> connection" where
  "fed N fs c0 = run (\<lambda>f c. snd (conn_event N f c)) fs
     (c0\<lparr>incoming_bytes := Map.empty, incoming_files := Map.empty\<rparr>)"

text \<open>
  C13. Whatever frames a peer sends, and whether or not they are accepted, no payload under
  reassembly ever holds more than it declared or more than 1 GiB, its buffer is exactly as long
  as its offset, and the offset of a file under reception stays within its declared size.
\<close>

theorem reassembly_bounded:
  "let c = fed N fs c0 in
    (\<forall>i p. incoming_bytes c i = Some p \<longrightarrow>
      int (length (ib_bytes p)) = ib_next_offset p \<and> ib_next_offset p \<le> ib_size p \<and> ib_size p \<le> 1073741824) \<and>
    (\<forall>i f. incoming_files c i = Some f \<longrightarrow>
      0 \<le> if_next_offset f \<and> if_next_offset f \<le> if_size f \<and> if_size f \<le> 1073741824)"
proof -
  define c where "c = fed N fs c0"
  have "reassembly_inv c"
    unfolding c_def fed_def by (rule reassembly.inv_run) (rule allowed_run_all, rule TrueI)
  then have "bytes_ok p" if "incoming_bytes c i = Some p" for i p
    using that by (metis reassembly_inv_def option.pred_inject(2))
  moreover have "file_ok f" if "incoming_files c i = Some f" for i f
    using that \<open>reassembly_inv c\<close> by (metis reassembly_inv_def option.pred_inject(2))
  ultimately show ?thesis unfolding c_def [symmetric] by (simp add: bytes_ok_def file_ok_def MAX_PAYLOAD_LENGTH_def)
qed

definition ex_chunk_frame :: offline_frame where
  "ex_chunk_frame = data_frame \<lparr>ph_id = Some 7, ph_type = Some TYPE_BYTES, ph_total_size = Some 3,
     ph_file_name = None\<rparr> 0 [1, 2] False"

theorem reassembly_bounded_witness:
  "\<exists>p. incoming_bytes (fed ex_net [ex_chunk_frame] ex_connection) 7 = Some p \<and>
     ib_bytes p = [1, 2] \<and> ib_next_offset p \<le> ib_size p"
proof -
  have "incoming_bytes (fed ex_net [ex_chunk_frame] ex_connection) 7 =
      Some \<lparr>ib_bytes = [1, 2], ib_next_offset = 2, ib_size = 3\<rparr>"
    by (simp add: fed_def ex_chunk_frame_def conn_event_data payload_header_data_def wire_numbers MAX_PAYLOAD_LENGTH_def
        MAX_FRAME_LENGTH_def bytes_payload_def i64_of_usize_def checked_add_i64_def range_defs Let_def)
  then show ?thesis
    using reassembly_bounded [of ex_net "[ex_chunk_frame]" ex_connection] by (simp add: Let_def)
qed

subsection \<open>Reassembly is exact\<close>

definition chunk_body :: "int \<times> bytes \<times> bool \<Rightarrow> bytes" where
  "chunk_body x = fst (snd x)"

lemma chunk_body_simp [simp]: "chunk_body (offset, bs, is_last) = bs"
  by (simp add: chunk_body_def)

fun feed_chunks :: "int \<Rightarrow> int \<Rightarrow> (int \<times> bytes \<times> bool) list \<Rightarrow> connection \<Rightarrow> event option outcome" where
  "feed_chunks i sz [] c = (Inr None, c)"
| "feed_chunks i sz ((offset, bs, is_last) # cs) c =
     (case bytes_payload i sz offset bs is_last c of
        (Inr None, c1) \<Rightarrow> feed_chunks i sz cs c1
      | r \<Rightarrow> r)"

lemma bytes_payload_None:
  assumes "bytes_payload i sz offset bs is_last c = (Inr None, c')"
  shows "\<not> is_last \<and> (\<exists>p. incoming_bytes c' i =
       Some (p\<lparr>ib_bytes := ib_bytes p @ bs, ib_next_offset := offset + int (length bs)\<rparr>) \<and> ib_next_offset p = offset \<and>
     ib_size p = sz \<and> p = (case incoming_bytes c i of
        None \<Rightarrow> \<lparr>ib_bytes = [], ib_next_offset = 0, ib_size = sz\<rparr> | Some p \<Rightarrow> p))"
  using assms
  by (auto simp: bytes_payload_def finish_bytes_payload_def Let_def i64_of_usize_def
      split: option.splits if_splits)

lemma bytes_payload_Some:
  assumes "bytes_payload i sz offset bs is_last c = (Inr (Some ev), c')"
  shows "is_last \<and> (\<exists>p. ev = EvBytes i (ib_bytes p @ bs) \<and> ib_next_offset p = offset \<and> ib_size p = sz \<and>
     offset + int (length bs) = sz \<and> p = (case incoming_bytes c i of
        None \<Rightarrow> \<lparr>ib_bytes = [], ib_next_offset = 0, ib_size = sz\<rparr> | Some p \<Rightarrow> p))"
  using assms
  by (auto simp: bytes_payload_def finish_bytes_payload_def Let_def i64_of_usize_def
      split: option.splits if_splits)

lemma feed_chunks_exact:
  assumes "feed_chunks i sz cs c = (Inr (Some ev), c')"
    and "p = (case incoming_bytes c i of None \<Rightarrow> \<lparr>ib_bytes = [], ib_next_offset = 0, ib_size = sz\<rparr> | Some p \<Rightarrow> p)"
    and "int (length (ib_bytes p)) = ib_next_offset p"
  shows "\<exists>used rest. cs = used @ rest \<and> ev = EvBytes i (ib_bytes p @ concat (map chunk_body used)) \<and>
     ib_next_offset p + int (length (concat (map chunk_body used))) = sz"
  using assms
proof (induction cs arbitrary: c p)
  case Nil
  then show ?case by simp
next
  case (Cons x cs)
  obtain offset bs is_last where x: "x = (offset, bs, is_last)" by (cases x) auto
  obtain r c1 where b: "bytes_payload i sz offset bs is_last c = (r, c1)" by force
  show ?case
  proof (cases "r = Inr None")
    case True
    from bytes_payload_None [OF b [unfolded True]] Cons.prems(2) have
      o: "ib_next_offset p = offset" and i1: "incoming_bytes c1 i =
        Some (p\<lparr>ib_bytes := ib_bytes p @ bs, ib_next_offset := offset + int (length bs)\<rparr>)" by auto
    let ?p = "p\<lparr>ib_bytes := ib_bytes p @ bs, ib_next_offset := offset + int (length bs)\<rparr>"
    have f: "feed_chunks i sz cs c1 = (Inr (Some ev), c')"
      using Cons.prems(1) x b True by simp
    obtain used rest where u: "cs = used @ rest"
      "ev = EvBytes i (ib_bytes ?p @ concat (map chunk_body used))"
      "ib_next_offset ?p + int (length (concat (map chunk_body used))) = sz"
      using Cons.IH [OF f, of ?p] Cons.prems(3) i1 o by auto
    show ?thesis
      by (rule exI [of _ "x # used"], rule exI [of _ rest]) (use u x o in simp)
  next
    case False
    then have "r = Inr (Some ev)"
      using Cons.prems(1) x b by (auto split: sum.splits option.splits)
    from bytes_payload_Some [OF b [unfolded this]] Cons.prems(2) show ?thesis
      by (intro exI [of _ "[x]"] exI [of _ cs]) (auto simp: x)
  qed
qed

text \<open>
  Reassembly is exact: when the chunks of a payload lead to a completed BYTES event, the
  bytes of the event are the concatenation of the chunk bodies up to and including the last
  chunk, and their number is the declared size; no chunk is lost, repeated or reordered.
\<close>

theorem reassembly_exact:
  assumes "incoming_bytes c i = None" and "feed_chunks i sz cs c = (Inr (Some ev), c')"
  shows "\<exists>used rest. cs = used @ rest \<and> ev = EvBytes i (concat (map chunk_body used)) \<and>
     int (length (concat (map chunk_body used))) = sz"
  using feed_chunks_exact [OF assms(2) refl] assms(1) by simp

theorem reassembly_exact_witness:
  "\<exists>c' used rest. feed_chunks 7 3 [(0, [1, 2, 3], False), (3, [], True)] ex_connection =
      (Inr (Some (EvBytes 7 [1, 2, 3])), c') \<and>
     [(0, [1, 2, 3], False), (3, [], True)] = used @ rest \<and>
     EvBytes 7 [1, 2, 3] = EvBytes 7 (concat (map chunk_body used))"
proof -
  have n: "incoming_bytes ex_connection 7 = None" by (simp add: ex_connection_def)
  have "\<exists>c'. feed_chunks 7 3 [(0, [1, 2, 3], False), (3, [], True)] ex_connection =
      (Inr (Some (EvBytes 7 [1, 2, 3])), c')"
    using bytes_payload_first [of ex_connection 7 "[1, 2, 3]" 3] n
      bytes_payload_last [of _ 7 "[1, 2, 3]" 3]
    by (simp add: MAX_FRAME_LENGTH_def MAX_PAYLOAD_LENGTH_def)
  then obtain c' where f: "feed_chunks 7 3 [(0, [1, 2, 3], False), (3, [], True)] ex_connection =
      (Inr (Some (EvBytes 7 [1, 2, 3])), c')" by blast
  from reassembly_exact [OF n f] f show ?thesis by blast
qed

end
