(* ===== verification/Conn_File_Events.thy ===== *)
theory Conn_File_Events
  imports Conn_Transfer
begin

text \<open>
  What a client of \<open>receive\<close> sees of FILE payloads: an abstract protocol of events, and the
  proof that every sequence of events returned by \<open>receive\<close> follows it.
\<close>

subsection \<open>The protocol of file events\<close>

text \<open>
  A file is announced by its header, followed by chunks at contiguous offsets that never pass
  the declared size; the last chunk ends exactly there. A control event for the payload ends
  it early. \<open>None\<close> is a violation of the protocol.
\<close>

definition file_step :: "event \<Rightarrow> (int \<rightharpoonup> incoming_file_state) \<Rightarrow> (int \<rightharpoonup> incoming_file_state) option" where
  "file_step ev q =
     (case ev of
        EvFileHeader i sz name \<Rightarrow>
          if q i = None then Some (q(i \<mapsto> \<lparr>if_next_offset = 0, if_size = sz\<rparr>)) else None
      | EvFileChunk i offset bs is_last \<Rightarrow>
          (case q i of
             None \<Rightarrow> None
           | Some f \<Rightarrow>
               if if_next_offset f = offset \<and> offset + int (length bs) \<le> if_size f \<and>
                  (is_last \<longrightarrow> offset + int (length bs) = if_size f)
               then Some (if is_last then q(i := None)
                          else q(i \<mapsto> f\<lparr>if_next_offset := offset + int (length bs)\<rparr>))
               else None)
      | EvPayloadError i offset \<Rightarrow> Some (q(i := None))
      | EvPayloadCancelled i offset \<Rightarrow> Some (q(i := None))
      | _ \<Rightarrow> Some q)"

fun file_run :: "event list \<Rightarrow> (int \<rightharpoonup> incoming_file_state) \<Rightarrow> (int \<rightharpoonup> incoming_file_state) option" where
  "file_run [] q = Some q"
| "file_run (ev # evs) q = Option.bind (file_step ev q) (file_run evs)"

lemma file_run_append: "file_run (xs @ ys) q = Option.bind (file_run xs q) (file_run ys)"
  by (induction xs arbitrary: q) (auto simp: bind_eq_None_conv split: Option.bind_splits)

text \<open>The client has seen events up to \<open>q\<close>; the pending ones lead to the connection's own table.\<close>

definition follows :: "(int \<rightharpoonup> incoming_file_state) \<Rightarrow> connection \<Rightarrow> bool" where
  "follows q c \<longleftrightarrow> file_run (pending_events c) q = Some (incoming_files c)"

subsection \<open>One frame\<close>

text \<open>
  What one frame does: it may return an event and queue one more, and both together lead from
  the old table to the new one. Without an event the table and the queue are unchanged.
\<close>

definition frame_follows :: "connection \<Rightarrow> event option \<Rightarrow> connection \<Rightarrow> bool" where
  "frame_follows c r c' \<longleftrightarrow>
     (case r of
        None \<Rightarrow> incoming_files c' = incoming_files c \<and> pending_events c' = pending_events c
      | Some ev \<Rightarrow>
          (\<exists>xs q. pending_events c' = pending_events c @ xs \<and> file_step ev (incoming_files c) = Some q \<and>
             file_run xs q = Some (incoming_files c')))"

lemma frame_follows_same:
  "incoming_files c' = incoming_files c \<Longrightarrow> pending_events c' = pending_events c \<Longrightarrow>
     pred_option (\<lambda>ev. file_step ev (incoming_files c) = Some (incoming_files c)) r \<Longrightarrow> frame_follows c r c'"
  by (auto simp: frame_follows_def split: option.splits)

lemma bytes_payload_follows:
  assumes "bytes_payload i sz offset bs is_last c = (Inr r, c')"
  shows "frame_follows c r c'"
  using assms
  by (intro frame_follows_same)
    (auto simp: bytes_payload_def finish_bytes_payload_def Let_def file_step_def
      split: option.splits if_splits)

lemma begin_file_Inr:
  "begin_file i sz offset c = (Inr b, c1) \<Longrightarrow>
     (b \<longleftrightarrow> incoming_files c i = None) \<and> (b \<longrightarrow> offset = 0) \<and> pending_events c1 = pending_events c \<and>
     incoming_files c1 = (if b then (incoming_files c)(i \<mapsto> \<lparr>if_next_offset = 0, if_size = sz\<rparr>)
                          else incoming_files c)"
  by (auto simp: begin_file_def split: if_splits)

lemma advance_file_Inr:
  "advance_file i sz offset n is_last c = (Inr (), c1) \<Longrightarrow>
     \<exists>f. incoming_files c i = Some f \<and> if_size f = sz \<and> if_next_offset f = offset \<and>
       offset + int n \<le> sz \<and> (is_last \<longrightarrow> offset + int n = sz) \<and> pending_events c1 = pending_events c \<and>
       incoming_files c1 = (incoming_files c)(i \<mapsto> f\<lparr>if_next_offset := offset + int n\<rparr>)"
  by (auto simp: advance_file_def i64_of_usize_def split: option.splits if_splits)

lemma file_payload_follows:
  assumes "file_payload i sz name offset bs is_last c = (Inr ev, c')"
  shows "frame_follows c (Some ev) c'"
proof -
  obtain rb c1 where rb: "begin_file i sz offset c = (rb, c1)" by force
  with assms obtain b where b: "begin_file i sz offset c = (Inr b, c1)"
    by (cases rb) (auto simp: file_payload_def)
  obtain ra c2 where ra: "advance_file i sz offset (length bs) is_last c1 = (ra, c2)" by force
  with assms b have a: "advance_file i sz offset (length bs) is_last c1 = (Inr (), c2)"
    by (cases ra) (auto simp: file_payload_def)
  let ?c3 = "if is_last then c2\<lparr>incoming_files := (incoming_files c2)(i := None)\<rparr> else c2"
  have r: "(if b then (Inr (EvFileHeader i sz name),
             ?c3\<lparr>pending_events := pending_events ?c3 @ [EvFileChunk i offset bs is_last]\<rparr>)
           else (Inr (EvFileChunk i offset bs is_last), ?c3)) = ((Inr ev, c') :: event outcome)"
    using assms unfolding file_payload_def Let_def by (simp add: b a)
  note B = begin_file_Inr [OF b]
  from advance_file_Inr [OF a] obtain f where f: "incoming_files c1 i = Some f" "if_size f = sz"
    "if_next_offset f = offset" "offset + int (length bs) \<le> sz" "is_last \<longrightarrow> offset + int (length bs) = sz"
    "pending_events c2 = pending_events c1"
    "incoming_files c2 = (incoming_files c1)(i \<mapsto> f\<lparr>if_next_offset := offset + int (length bs)\<rparr>)"
    by blast
  show ?thesis
    using r B f by (cases b; cases is_last; cases f) (auto simp: frame_follows_def file_step_def)
qed

lemma conn_payload_follows:
  assumes "conn_payload t c = (Inr r, c')"
  shows "frame_follows c r c'"
proof -
  have u: "frame_follows c None c" by (simp add: frame_follows_def)
  have k: "control_payload t c = (Inr r, c') \<Longrightarrow> frame_follows c r c'"
    by (auto simp: control_payload_def payload_control_event_def clear_payload_def frame_follows_def file_step_def
        split: option.splits if_splits)
  show ?thesis
    using assms u k bytes_payload_follows file_payload_follows
    by (auto simp: conn_payload_def split: option.splits if_splits sum.splits prod.splits)
qed

lemma conn_upgrade_event_follows:
  assumes "conn_upgrade_event n c = (Inr r, c')"
  shows "frame_follows c r c'"
  using assms
  by (intro frame_follows_same) (auto simp: conn_upgrade_event_def file_step_def Let_def split: option.splits if_splits)

lemma keepalive_event_follows:
  assumes "keepalive_event N f c = (Inr r, c')"
  shows "frame_follows c r c'"
proof (rule frame_follows_same)
  note k = keepalive_event_keeps [OF assms]
  show "incoming_files c' = incoming_files c" by (subst k) simp
  show "pending_events c' = pending_events c" by (subst k) simp
  show "pred_option (\<lambda>ev. file_step ev (incoming_files c) = Some (incoming_files c)) r"
    using assms by (auto simp: keepalive_event_def file_step_def Let_def
        split: option.splits if_splits prod.splits sum.splits)
qed

lemma conn_event_follows:
  assumes "conn_event N f c = (Inr r, c')"
  shows "frame_follows c r c'"
proof -
  have d: "frame_follows c (Some EvDisconnected) c" and n: "frame_follows c None c"
    by (simp_all add: frame_follows_def file_step_def)
  show ?thesis
    using assms d n conn_payload_follows conn_upgrade_event_follows keepalive_event_follows
    by (auto simp: conn_event_def v1_event_def negotiation_event_def split: option.splits if_splits)
qed

subsection \<open>Whole sequences of receives\<close>

lemma conn_recv_files:
  assumes "conn_recv N c = (r, c')"
  shows "incoming_files c' = incoming_files c \<and> pending_events c' = pending_events c"
  using conn_recv_keeps [OF assms] by (metis connection.select_convs(4,6) connection.surjective connection.update_convs(1,2))

lemma receive_follows:
  "follows q c \<Longrightarrow> conn_receive N c = (Inr ev, c') \<Longrightarrow> \<exists>q'. file_step ev q = Some q' \<and> follows q' c'"
proof (induction N c rule: conn_receive.induct)
  case (1 N c)
  show ?case
  proof (cases "pending_events c")
    case (Cons x xs)
    then have "ev = x" "c' = c\<lparr>pending_events := xs\<rparr>"
      using 1(3) by (subst (asm) conn_receive.simps, simp)+
    then show ?thesis using 1(2) Cons by (auto simp: follows_def bind_eq_Some_conv)
  next
    case Nil
    then have q: "q = incoming_files c" using 1(2) by (simp add: follows_def)
    obtain r c1 where r: "conn_recv N c = (r, c1)" by force
    note k = conn_recv_files [OF r]
    show ?thesis
    proof (cases r)
      case (Inl e)
      then have "ev = EvDisconnected" "c' = c1"
        using 1(3) Nil r by (subst (asm) conn_receive.simps, simp split: if_splits)+
      then show ?thesis using k q Nil by (simp add: follows_def file_step_def)
    next
      case (Inr f)
      obtain x c2 where e: "conn_event N f c1 = (x, c2)" by force
      have "conn_receive N c = (case x of Inl e \<Rightarrow> (Inl e, c2) | Inr None \<Rightarrow> conn_receive N c2 | Inr (Some ev) \<Rightarrow> (Inr ev, c2))"
        using Nil r Inr e by (subst conn_receive.simps) (simp split: sum.splits option.splits)
      then consider "x = Inr None" "conn_receive N c2 = (Inr ev, c')" | "x = Inr (Some ev)" "c' = c2"
        using 1(3) by (auto split: sum.splits option.splits)
      then show ?thesis
      proof cases
        case 1
        have "follows q c2"
          using conn_event_follows [OF e [unfolded 1(1)]] k q Nil by (simp add: frame_follows_def follows_def)
        then show ?thesis using "1.IH" Nil r Inr e 1 by metis
      next
        case 2
        then show ?thesis
          using conn_event_follows [OF e [unfolded 2(1)]] k q Nil by (auto simp: frame_follows_def follows_def)
      qed
    qed
  qed
qed

fun receives :: "('sk, 'pk) net \<Rightarrow> nat \<Rightarrow> connection \<Rightarrow> event list \<times> connection" where
  "receives N 0 c = ([], c)"
| "receives N (Suc n) c =
     (case conn_receive N c of
        (Inl e, c1) \<Rightarrow> ([], c1)
      | (Inr ev, c1) \<Rightarrow> (case receives N n c1 of (evs, c2) \<Rightarrow> (ev # evs, c2)))"

lemma receives_follow: "follows q c \<Longrightarrow> file_run (fst (receives N n c)) q \<noteq> None"
proof (induction n arbitrary: q c)
  case (Suc n)
  show ?case
  proof (cases "conn_receive N c")
    case (Pair r c1)
    show ?thesis
    proof (cases r)
      case (Inl e)
      then show ?thesis using Pair by simp
    next
      case (Inr ev)
      obtain q' where "file_step ev q = Some q'" "follows q' c1"
        using receive_follows [OF Suc.prems] Pair Inr by blast
      then show ?thesis using Suc.IH [of q' c1] Pair Inr by (cases "receives N n c1") simp
    qed
  qed
qed simp

subsection \<open>Complete files\<close>

text \<open>What a client has of a file: the declared size and the bytes since the last header.\<close>

fun file_ledger :: "int \<Rightarrow> event list \<Rightarrow> int \<times> bytes \<Rightarrow> int \<times> bytes" where
  "file_ledger i [] l = l"
| "file_ledger i (EvFileHeader j sz name # evs) l =
     file_ledger i evs (if j = i then (sz, []) else l)"
| "file_ledger i (EvFileChunk j offset bs is_last # evs) l =
     file_ledger i evs (if j = i then (fst l, snd l @ bs) else l)"
| "file_ledger i (_ # evs) l = file_ledger i evs l"

definition ledger_ok :: "int \<Rightarrow> (int \<rightharpoonup> incoming_file_state) \<Rightarrow> int \<times> bytes \<Rightarrow> bool" where
  "ledger_ok i q l \<longleftrightarrow>
     pred_option (\<lambda>f. fst l = if_size f \<and> int (length (snd l)) = if_next_offset f) (q i)"

lemma ledger_step:
  "ledger_ok i q l \<Longrightarrow> file_step ev q = Some q' \<Longrightarrow> ledger_ok i q' (file_ledger i [ev] l)"
  by (cases ev) (auto simp: file_step_def ledger_ok_def split: option.splits if_splits)

lemma file_ledger_Cons: "file_ledger i (ev # evs) l = file_ledger i evs (file_ledger i [ev] l)"
  by (cases ev) simp_all

lemma ledger_run: "ledger_ok i q l \<Longrightarrow> file_run evs q = Some q' \<Longrightarrow> ledger_ok i q' (file_ledger i evs l)"
proof (induction evs arbitrary: q l)
  case (Cons ev evs)
  from Cons.prems(2) obtain q1 where q1: "file_step ev q = Some q1" "file_run evs q1 = Some q'"
    by (auto simp: bind_eq_Some_conv)
  from Cons.IH [OF ledger_step [OF Cons.prems(1) q1(1)] q1(2)] show ?case
    by (subst file_ledger_Cons)
qed simp

lemma file_ledger_append: "file_ledger i (xs @ ys) l = file_ledger i ys (file_ledger i xs l)"
  by (induction xs arbitrary: l) (simp, subst append_Cons, subst (1 2) file_ledger_Cons, simp)

text \<open>
  C28. Files are presented in order. On a connection with nothing pending, whatever the peer
  sends, the events returned by successive \<open>receive\<close> calls follow the file protocol: a header
  first, chunks at contiguous offsets within the declared size. When a chunk is marked last,
  the bytes received since the header are exactly the declared number.
\<close>

theorem file_events_follow_protocol:
  assumes "pending_events c = []" and "incoming_files c = Map.empty" and "receives N n c = (evs, c')"
  shows "file_run evs Map.empty \<noteq> None \<and>
    (\<forall>pre i offset bs post. evs = pre @ EvFileChunk i offset bs True # post \<longrightarrow>
       int (length (snd (file_ledger i (pre @ [EvFileChunk i offset bs True]) (0, [])))) =
       fst (file_ledger i (pre @ [EvFileChunk i offset bs True]) (0, [])))"
proof (intro conjI allI impI)
  show r: "file_run evs Map.empty \<noteq> None"
    using receives_follow [of Map.empty c N n] assms by (simp add: follows_def)
  fix pre i offset bs post
  assume evs: "evs = pre @ EvFileChunk i offset bs True # post"
  from r evs obtain q where q: "file_run pre Map.empty = Some q" and s: "file_step (EvFileChunk i offset bs True) q \<noteq> None"
    by (auto simp: file_run_append split: Option.bind_splits)
  have "ledger_ok i q (file_ledger i pre (0, []))"
    by (rule ledger_run [OF _ q]) (simp add: ledger_ok_def)
  with s show "int (length (snd (file_ledger i (pre @ [EvFileChunk i offset bs True]) (0, [])))) =
       fst (file_ledger i (pre @ [EvFileChunk i offset bs True]) (0, []))"
    by (auto simp: file_ledger_append file_step_def ledger_ok_def split: option.splits if_splits)
qed

definition ex_file_header :: payload_header_msg where
  "ex_file_header = \<lparr>ph_id = Some 7, ph_type = Some TYPE_FILE, ph_total_size = Some 2,
     ph_file_name = Some (ascii ''a.txt'')\<rparr>"

lemma ex_file_event:
  assumes "incoming_files c = Map.empty" and "pending_events c = []"
  shows "\<exists>c'. conn_event ex_net (data_frame ex_file_header 0 [1, 2] True) c =
      (Inr (Some (EvFileHeader 7 2 (Some (ascii ''a.txt'')))), c') \<and>
    pending_events c' = [EvFileChunk 7 0 [1, 2] True]"
  using assms
  by (simp add: conn_event_def v1_event_def data_frame_def offline_def v1_default_def conn_payload_def
      decoded_chunk [of 0 _ True, simplified] payload_header_data_def ex_file_header_def wire_numbers
      MAX_PAYLOAD_LENGTH_def MAX_FRAME_LENGTH_def file_payload_def begin_file_def advance_file_def
      i64_of_usize_def checked_add_i64_def range_defs decoded_def Let_def)

lemma ex_file_received:
  "\<exists>b c'. pending_events b = [] \<and> incoming_files b = Map.empty \<and>
     receives ex_net 2 b = ([EvFileHeader 7 2 (Some (ascii ''a.txt'')), EvFileChunk 7 0 [1, 2] True], c')"
proof -
  let ?f = "data_frame ex_file_header 0 [1, 2] True"
  have "length (xe_offline ?f) \<le> 10000"
    by (simp add: ex_codec_defs ex_file_header_def ascii_def)
  then obtain a' where "conn_send ex_net ?f ex_connection = (Inr (), a')"
    using ex_conn_send [OF ex_connection_sender, of 0] by force
  from in_flight_send [OF ex_in_flight this] obtain b1 where
    r: "conn_recv ex_net (deliver (written ex_connection a') ex_connection) = (Inr ?f, b1)" by auto
  let ?b = "deliver (written ex_connection a') ex_connection"
  have b: "pending_events ?b = []" "incoming_files ?b = Map.empty" by (simp_all add: ex_connection_def)
  with conn_recv_files [OF r] obtain c' where
    e: "conn_event ex_net ?f b1 = (Inr (Some (EvFileHeader 7 2 (Some (ascii ''a.txt'')))), c')"
    and p: "pending_events c' = [EvFileChunk 7 0 [1, 2] True]"
    using ex_file_event [of b1] by auto
  have "conn_receive ex_net ?b = (Inr (EvFileHeader 7 2 (Some (ascii ''a.txt''))), c')"
    using receive_event [OF b(1) r e] by simp
  moreover have "conn_receive ex_net c' = (Inr (EvFileChunk 7 0 [1, 2] True), c'\<lparr>pending_events := []\<rparr>)"
    using p by (subst conn_receive.simps) simp
  ultimately have "receives ex_net 2 ?b =
      ([EvFileHeader 7 2 (Some (ascii ''a.txt'')), EvFileChunk 7 0 [1, 2] True], c'\<lparr>pending_events := []\<rparr>)"
    by (simp add: numeral_2_eq_2)
  with b show ?thesis by blast
qed

theorem file_events_follow_protocol_witness:
  "\<exists>b c'. receives ex_net 2 b = ([EvFileHeader 7 2 (Some (ascii ''a.txt'')), EvFileChunk 7 0 [1, 2] True], c') \<and>
     file_run [EvFileHeader 7 2 (Some (ascii ''a.txt'')), EvFileChunk 7 0 [1, 2] True] Map.empty \<noteq> None"
proof -
  obtain b c' where b: "pending_events b = []" "incoming_files b = Map.empty"
    and r: "receives ex_net 2 b = ([EvFileHeader 7 2 (Some (ascii ''a.txt'')), EvFileChunk 7 0 [1, 2] True], c')"
    using ex_file_received by blast
  show ?thesis using file_events_follow_protocol [OF b r] r by blast
qed

end
