(* ===== verification/Conn_Control.thy ===== *)
theory Conn_Control
  imports Conn_File_Events
begin

text \<open>
  Control traffic around a transfer: \<open>protocol/outgoing_control.rs\<close> (polling while sending),
  \<open>send_file_chunk\<close> of \<open>transfer.rs\<close>, and \<open>protocol/drain.rs\<close> (the wait for the peer to close
  after a transfer). The loops end because every frame read shortens the input.
\<close>

subsection \<open>Polling\<close>

definition poll_event :: "('sk, 'pk) net \<Rightarrow> connection \<Rightarrow> event option outcome" where
  "poll_event N c =
     (case pending_events c of
        ev # evs \<Rightarrow> (Inr (Some ev), c\<lparr>pending_events := evs\<rparr>)
      | [] \<Rightarrow>
        (case recv_if_ready N c of
           (Inl e, c1) \<Rightarrow> if e = EIo IUnexpectedEof then (Inr (Some EvDisconnected), c1) else (Inl e, c1)
         | (Inr None, c1) \<Rightarrow> (Inr None, c1)
         | (Inr (Some f), c1) \<Rightarrow> conn_event N f c1))"

lemma recv_if_ready_shorter: "recv_if_ready N c = (Inr (Some f), c') \<Longrightarrow> input_left c' < input_left c"
  by (auto simp: recv_if_ready_def dest: recv_during_shorter split: if_splits prod.splits sum.splits)

lemma poll_turn_shorter:
  "(Inr (Some f), c1) = recv_if_ready N c \<Longrightarrow> (r, c2) = conn_event N f c1 \<Longrightarrow> input_left c2 < input_left c"
  using recv_if_ready_shorter [of N c f c1] conn_event_input [of N f c1] by (metis snd_conv)

lemma input_left_pending [simp]: "input_left (c\<lparr>pending_events := x\<rparr>) = input_left c"
  by (simp add: input_left_def)

function poll_outgoing_control :: "('sk, 'pk) net \<Rightarrow> int \<Rightarrow> connection \<Rightarrow> unit outcome" where
  "poll_outgoing_control N payload_id c =
     (case recv_if_ready N c of
        (Inl e, c1) \<Rightarrow>
          if e = EIo IUnexpectedEof then (Inl ERejected, c1\<lparr>outgoing_file := None\<rparr>) else (Inl e, c1)
      | (Inr None, c1) \<Rightarrow> (Inr (), c1)
      | (Inr (Some f), c1) \<Rightarrow>
        (case conn_event N f c1 of
           (Inl e, c2) \<Rightarrow> (Inl e, c2)
         | (Inr r, c2) \<Rightarrow>
           (case r of
              None \<Rightarrow> poll_outgoing_control N payload_id c2
            | Some (EvPayloadCancelled i offset) \<Rightarrow>
                if i = payload_id then (Inl ECancelled, c2\<lparr>outgoing_file := None\<rparr>)
                else poll_outgoing_control N payload_id c2
            | Some (EvPayloadError i offset) \<Rightarrow>
                if i = payload_id then (Inl EInvalidPayload, c2\<lparr>outgoing_file := None\<rparr>)
                else poll_outgoing_control N payload_id c2
            | Some (EvKeepAlive ack sequence) \<Rightarrow> poll_outgoing_control N payload_id c2
            | Some EvDisconnected \<Rightarrow> (Inl ERejected, c2\<lparr>outgoing_file := None\<rparr>)
            | Some ev \<Rightarrow>
                poll_outgoing_control N payload_id (c2\<lparr>pending_events := pending_events c2 @ [ev]\<rparr>))))"
  by pat_completeness auto
termination
  by (relation "measure (\<lambda>(N, i, c). input_left c)") (auto dest: poll_turn_shorter)

declare poll_outgoing_control.simps [simp del]

subsection \<open>Sending file chunks\<close>

definition send_file_chunk :: "('sk, 'pk) net \<Rightarrow> int \<Rightarrow> int \<Rightarrow> bytes \<Rightarrow> bool \<Rightarrow> connection \<Rightarrow> unit outcome" where
  "send_file_chunk N i offset bs is_last c =
     (case outgoing_file c of
        None \<Rightarrow> (Inl EInvalidPayload, c)
      | Some file \<Rightarrow>
          if og_id file \<noteq> i then (Inl EInvalidPayload, c)
          else
            (case (if og_started file then poll_outgoing_control N i c else (Inr (), c)) of
               (Inl e, c1) \<Rightarrow> (Inl e, c1)
             | (Inr _, c1) \<Rightarrow>
               (case outgoing_file c1 of
                  None \<Rightarrow> (Inl EInvalidPayload, c1)
                | Some file1 \<Rightarrow>
                  (case conn_data N (og_header file1) offset bs is_last c1 of
                     (Inl e, c2) \<Rightarrow> (Inl e, c2)
                   | (Inr _, c2) \<Rightarrow>
                       if is_last then (Inr (), c2\<lparr>outgoing_file := None\<rparr>)
                       else case outgoing_file c2 of
                              None \<Rightarrow> (Inl EInvalidPayload, c2)
                            | Some file2 \<Rightarrow> (Inr (), c2\<lparr>outgoing_file := Some (file2\<lparr>og_started := True\<rparr>)\<rparr>)))))"

subsection \<open>Draining after a transfer\<close>

definition peer_closed :: "io_kind \<Rightarrow> bool" where
  "peer_closed k \<longleftrightarrow> k = IUnexpectedEof \<or> k = IConnectionReset"

definition confirm_peer_close :: "('sk, 'pk) net \<Rightarrow> conn_error \<Rightarrow> connection \<Rightarrow> unit outcome" where
  "confirm_peer_close N write_error c =
     (case recv_during N c of
        (Inl e, c1) \<Rightarrow>
          (case e of
             EIo k \<Rightarrow>
               if peer_closed k then (Inr (), c1)
               else if k = IInvalidData then (Inl (EIo k), c1)
               else (Inl write_error, c1)
           | ECrypto \<Rightarrow> (Inl e, c1)
           | EWire \<Rightarrow> (Inl e, c1)
           | EFrameTooLarge \<Rightarrow> (Inl e, c1)
           | ECancelled \<Rightarrow> (Inl e, c1)
           | _ \<Rightarrow> (Inl write_error, c1))
      | (Inr f, c1) \<Rightarrow>
        (case of_v1 f of
           None \<Rightarrow> (Inl EUnexpectedFrame, c1)
         | Some v \<Rightarrow> if v1_type v = Some DISCONNECTION then (Inr (), c1) else (Inl write_error, c1)))"

definition drain_keepalive :: "('sk, 'pk) net \<Rightarrow> keep_alive_frame option \<Rightarrow> connection \<Rightarrow> bool outcome" where
  "drain_keepalive N frame c =
     (case frame of
        None \<Rightarrow> (Inl EUnexpectedFrame, c)
      | Some k \<Rightarrow>
          let ack = (ka_ack k = Some True);
              sequence = (case ka_seq_num k of None \<Rightarrow> 0 | Some n \<Rightarrow> n)
          in if ack then (Inr False, c)
             else case send_during N (keepalive True sequence) c of
                    (Inr _, c1) \<Rightarrow> (Inr False, c1)
                  | (Inl e, c1) \<Rightarrow>
                      (case e of
                         EIo kind \<Rightarrow>
                           (case confirm_peer_close N e c1 of
                              (Inl e', c2) \<Rightarrow> (Inl e', c2)
                            | (Inr _, c2) \<Rightarrow> (Inr True, c2))
                       | _ \<Rightarrow> (Inl e, c1)))"

definition drain_frame :: "('sk, 'pk) net \<Rightarrow> v1_frame \<Rightarrow> connection \<Rightarrow> bool outcome" where
  "drain_frame N v c =
     (case v1_type v of
        None \<Rightarrow> (Inl EUnexpectedFrame, c)
      | Some ty \<Rightarrow>
          if ty = DISCONNECTION then (Inr True, c)
          else if ty = KEEP_ALIVE then drain_keepalive N (v1_keep_alive v) c
          else if ty = PAYLOAD_TRANSFER then
            (case v1_payload_transfer v of
               None \<Rightarrow> (Inl EUnexpectedFrame, c)
             | Some t \<Rightarrow>
                 if pt_packet_type t = Some PACKET_DATA then (Inl EInvalidPayload, c)
                 else case conn_payload t c of
                        (Inl e, c1) \<Rightarrow> (Inl e, c1)
                      | (Inr _, c1) \<Rightarrow> (Inr False, c1))
          else if ty \<in> set EXTENSIONS then (Inr False, c)
          else (Inl EUnexpectedFrame, c))"

lemma recv_during_input: "input_left (snd (recv_during N c)) \<le> input_left c"
proof -
  have "length (s_in (snd (io_read s))) \<le> length (s_in s)" for s
    by (auto simp: io_read_def read_frame_remainder_def stream_read_exact_def split: sum.splits)
  then show ?thesis
    using decode_encrypted_stream [of N]
    by (auto simp: recv_during_def input_left_def split: prod.splits sum.splits)
      (metis snd_conv, metis connection.select_convs(1) connection.surjective connection.update_convs(1) snd_conv)
qed

lemma confirm_peer_close_input: "input_left (snd (confirm_peer_close N e c)) \<le> input_left c"
  using recv_during_input [of N c]
  by (auto simp: confirm_peer_close_def split: prod.splits sum.splits conn_error.splits option.splits)

lemma send_during_input: "input_left (snd (send_during N f c)) = input_left c"
  using conn_send_stream [of N f c]
  by (auto simp: send_during_def input_left_def split: prod.splits sum.splits)

lemma drain_frame_input: "input_left (snd (drain_frame N v c)) \<le> input_left c"
proof -
  have k: "input_left (snd (drain_keepalive N x c)) \<le> input_left c" for x
  proof (cases x)
    case None
    then show ?thesis by (simp add: drain_keepalive_def)
  next
    case (Some k)
    define f where "f = keepalive True (case ka_seq_num k of None \<Rightarrow> 0 | Some n \<Rightarrow> n)"
    obtain r c1 where s: "send_during N f c = (r, c1)" by force
    have 1: "input_left c1 = input_left c" using send_during_input [of N f c] s by simp
    have 2: "input_left (snd (confirm_peer_close N e c1)) \<le> input_left c" for e
      using confirm_peer_close_input [of N e c1] 1 by simp
    show ?thesis
      using 1 2 by (auto simp: drain_keepalive_def Some Let_def f_def [symmetric] s
          split: sum.splits conn_error.splits prod.splits) (metis snd_conv)+
  qed
  have p: "input_left (snd (conn_payload t c)) = input_left c" for t
    by (simp add: input_left_def conn_payload_stream)
  show ?thesis
    using k p by (auto simp: drain_frame_def split: option.splits prod.splits sum.splits) (metis snd_conv le_refl)+
qed

lemma drain_turn_shorter:
  "(Inr f, c1) = recv_during N c \<Longrightarrow> (r, c2) = drain_frame N v c1 \<Longrightarrow> input_left c2 < input_left c"
  using recv_during_shorter [of N c f c1] drain_frame_input [of N v c1]
  by (metis le_less_trans snd_conv)

function drain_control_until :: "('sk, 'pk) net \<Rightarrow> connection \<Rightarrow> unit outcome" where
  "drain_control_until N c =
     (case recv_during N c of
        (Inl e, c1) \<Rightarrow>
          (case e of
             EIo k \<Rightarrow> if peer_closed k then (Inr (), c1) else (Inl e, c1)
           | _ \<Rightarrow> (Inl e, c1))
      | (Inr f, c1) \<Rightarrow>
        (case of_v1 f of
           None \<Rightarrow> (Inl EUnexpectedFrame, c1)
         | Some v \<Rightarrow>
           (case drain_frame N v c1 of
              (Inl e, c2) \<Rightarrow> (Inl e, c2)
            | (Inr finished, c2) \<Rightarrow> if finished then (Inr (), c2) else drain_control_until N c2)))"
  by pat_completeness auto
termination
  by (relation "measure (\<lambda>(N, c). input_left c)") (auto dest: drain_turn_shorter)

declare drain_control_until.simps [simp del]

definition close_during :: "('sk, 'pk) net \<Rightarrow> connection \<Rightarrow> connection" where
  "close_during N c =
     (let c1 = snd (send_during N disconnect_frame c)
      in c1\<lparr>c_stream := snd (stream_shutdown_write (c_stream c1))\<rparr>)"

definition drain_post_transfer_control :: "('sk, 'pk) net \<Rightarrow> connection \<Rightarrow> unit outcome" where
  "drain_post_transfer_control N c =
     (case drain_control_until N c of
        (Inl e, c1) \<Rightarrow> (Inl e, close_during N c1)
      | (Inr _, c1) \<Rightarrow> (Inr (), c1))"

subsection \<open>Polling while a file is being sent\<close>

lemma recv_during_Inr: "conn_recv N c = (Inr f, c') \<Longrightarrow> recv_during N c = (Inr f, c')"
  by (auto simp: conn_recv_def recv_during_def split: prod.splits sum.splits)

lemma conn_recv_nonempty: "conn_recv N c = (Inr f, c') \<Longrightarrow> s_in (c_stream c) \<noteq> []"
  by (drule conn_recv_shorter) (auto simp: input_left_def)

lemma recv_if_ready_Inr: "conn_recv N c = (Inr f, c') \<Longrightarrow> recv_if_ready N c = (Inr (Some f), c')"
  using conn_recv_nonempty [of N c f c'] recv_during_Inr [of N c f c']
  by (simp add: recv_if_ready_def stream_read_ready_def)

lemma conn_recv_end:
  assumes "conn_recv N c = (Inr f, c')"
  shows "s_end (c_stream c') = s_end (c_stream c)"
proof -
  from assms obtain e s where r: "io_read (c_stream c) = (Inr e, s)"
    and d: "decode_encrypted N e (c\<lparr>c_stream := s\<rparr>) = (Inr f, c')"
    by (auto simp: conn_recv_def split: prod.splits sum.splits)
  have "c_stream c' = s"
    using decode_encrypted_stream [of N e "c\<lparr>c_stream := s\<rparr>"] d by simp
  moreover have "s = (c_stream c)\<lparr>s_in := s_in s\<rparr>" using io_read_Inr [OF r] by simp
  ultimately show ?thesis by (metis stream.select_convs(2) stream.surjective stream.update_convs(1))
qed

lemma poll_idle:
  "s_in (c_stream c) = [] \<Longrightarrow> s_end (c_stream c) = ITimedOut \<Longrightarrow> poll_outgoing_control N i c = (Inr (), c)"
  by (subst poll_outgoing_control.simps) (simp add: recv_if_ready_def stream_read_ready_def)

lemma poll_queues:
  assumes "conn_recv N c = (Inr f, c1)" and "conn_event N f c1 = (Inr (Some ev), c2)"
    and "\<exists>i sz name. ev = EvFileHeader i sz name"
  shows "poll_outgoing_control N i c =
     poll_outgoing_control N i (c2\<lparr>pending_events := pending_events c2 @ [ev]\<rparr>)"
  using assms recv_if_ready_Inr [OF assms(1)] by (subst poll_outgoing_control.simps) auto

lemma ex_file_event_stream:
  "c_stream (snd (conn_event ex_net (data_frame ex_file_header 0 [1, 2] True) c)) = c_stream c"
  by (simp add: conn_event_def v1_event_def data_frame_def offline_def v1_default_def wire_numbers
      conn_payload_stream)

text \<open>
  Polling for control traffic while a file is being sent queues the events of an incoming
  file in the wrong order: when the first chunk of a file arrives during the poll, its chunk is
  queued before its header, which violates the protocol that \<open>receive\<close> follows.
\<close>

theorem poll_reorders_file_events:
  "\<exists>c c'. pending_events c = [] \<and> incoming_files c = Map.empty \<and>
     poll_outgoing_control ex_net 1 c = (Inr (), c') \<and>
     pending_events c' = [EvFileChunk 7 0 [1, 2] True, EvFileHeader 7 2 (Some (ascii ''a.txt''))] \<and>
     file_run (pending_events c') (incoming_files c) = None"
proof -
  let ?f = "data_frame ex_file_header 0 [1, 2] True"
  have "length (xe_offline ?f) \<le> 10000"
    by (simp add: ex_codec_defs ex_file_header_def ascii_def)
  then obtain a' where "conn_send ex_net ?f ex_connection = (Inr (), a')"
    using ex_conn_send [OF ex_connection_sender, of 0] by force
  let ?b = "deliver (written ex_connection a') ex_connection"
  from in_flight_send [OF ex_in_flight \<open>conn_send ex_net ?f ex_connection = (Inr (), a')\<close>] obtain b1 where
    r: "conn_recv ex_net ?b = (Inr ?f, b1)" and i1: "s_in (c_stream b1) = []" by auto
  have b: "pending_events ?b = []" "incoming_files ?b = Map.empty" "s_end (c_stream ?b) = ITimedOut"
    by (simp_all add: ex_connection_def deliver_def idle_stream_def)
  with conn_recv_files [OF r] obtain c2 where
    e: "conn_event ex_net ?f b1 = (Inr (Some (EvFileHeader 7 2 (Some (ascii ''a.txt'')))), c2)"
    and p: "pending_events c2 = [EvFileChunk 7 0 [1, 2] True]"
    using ex_file_event [of b1] by auto
  let ?c = "c2\<lparr>pending_events := pending_events c2 @ [EvFileHeader 7 2 (Some (ascii ''a.txt''))]\<rparr>"
  have "c_stream c2 = c_stream b1" using ex_file_event_stream [of b1] e by simp
  then have "poll_outgoing_control ex_net 1 ?c = (Inr (), ?c)"
    using i1 conn_recv_end [OF r] b(3) by (intro poll_idle) simp_all
  then have "poll_outgoing_control ex_net 1 ?b = (Inr (), ?c)"
    using poll_queues [OF r e] by simp
  with b p show ?thesis by (intro exI [of _ ?b] exI [of _ ?c]) (simp add: file_step_def)
qed

subsection \<open>A peer that cancels is obeyed\<close>

definition cancel_frame :: "int \<Rightarrow> int \<Rightarrow> int \<Rightarrow> offline_frame" where
  "cancel_frame i total_size offset = offline (v1_default\<lparr>v1_type := Some PAYLOAD_TRANSFER,
     v1_payload_transfer := Some \<lparr>pt_packet_type = Some PACKET_CONTROL,
       pt_header = Some \<lparr>ph_id = Some i, ph_type = Some TYPE_FILE, ph_total_size = Some total_size,
                         ph_file_name = None\<rparr>,
       pt_chunk = None,
       pt_control = Some \<lparr>cm_event = Some PAYLOAD_CANCELED, cm_offset = Some offset\<rparr>\<rparr>\<rparr>)"

lemma cancel_event:
  "0 \<le> offset \<Longrightarrow> offset \<le> total_size \<Longrightarrow>
     conn_event N (cancel_frame i total_size offset) c = (Inr (Some (EvPayloadCancelled i offset)), clear_payload i c)"
  by (simp add: cancel_frame_def conn_event_def v1_event_def offline_def v1_default_def conn_payload_def
      control_payload_def payload_control_event_def wire_numbers)

lemma poll_cancelled:
  assumes "conn_recv N c = (Inr (cancel_frame i total_size at), c1)" and "0 \<le> at" and "at \<le> total_size"
  shows "poll_outgoing_control N i c = (Inl ECancelled, (clear_payload i c1)\<lparr>outgoing_file := None\<rparr>)"
  using recv_if_ready_Inr [OF assms(1)] cancel_event [OF assms(2,3), of N i c1]
  by (subst poll_outgoing_control.simps) simp

text \<open>
  A peer that cancels a file is obeyed before the next chunk: once a file has been
  started and a cancellation for it is the next frame on the stream, \<open>send_file_chunk\<close> returns
  \<open>Cancelled\<close>, writes nothing, and forgets the file, so that a further chunk is refused.
\<close>

theorem peer_cancel_stops_file:
  assumes "outgoing_file c = Some file" and "og_id file = i" and "og_started file"
    and "conn_recv N c = (Inr (cancel_frame i total_size at), c1)" and "0 \<le> at" and "at \<le> total_size"
  shows "\<exists>c'. send_file_chunk N i offset bs is_last c = (Inl ECancelled, c') \<and>
     s_out (c_stream c') = s_out (c_stream c) \<and> outgoing_file c' = None \<and>
     send_file_chunk N i offset' bs' is_last' c' = (Inl EInvalidPayload, c')"
proof -
  let ?c = "(clear_payload i c1)\<lparr>outgoing_file := None\<rparr>"
  have "send_file_chunk N i offset bs is_last c = (Inl ECancelled, ?c)"
    using assms(1-3) poll_cancelled [OF assms(4-6)] by (simp add: send_file_chunk_def)
  moreover have "s_out (c_stream ?c) = s_out (c_stream c)"
    using conn_recv_keeps [OF assms(4)] by simp
  ultimately show ?thesis by (simp add: send_file_chunk_def)
qed

lemma ex_cancel_in_flight:
  "\<exists>c c1. outgoing_file c = Some \<lparr>og_id = 7, og_header = ex_file_header, og_started = True\<rparr> \<and>
     conn_recv ex_net c = (Inr (cancel_frame 7 2 1), c1)"
proof -
  let ?b0 = "ex_connection\<lparr>outgoing_file := Some \<lparr>og_id = 7, og_header = ex_file_header, og_started = True\<rparr>\<rparr>"
  have "length (xe_offline (cancel_frame 7 2 1)) \<le> 10000"
    by (simp add: ex_codec_defs xe_cm_def cancel_frame_def)
  then obtain a' where s: "conn_send ex_net (cancel_frame 7 2 1) ex_connection = (Inr (), a')"
    using ex_conn_send [OF ex_connection_sender, of 0] by force
  have "in_flight ex_net [] ex_connection ?b0"
    using ex_in_flight by simp
  from in_flight_send [OF this s] obtain c1 where
    "conn_recv ex_net (deliver (written ex_connection a') ?b0) = (Inr (cancel_frame 7 2 1), c1)" by auto
  moreover have "outgoing_file (deliver (written ex_connection a') ?b0) =
      Some \<lparr>og_id = 7, og_header = ex_file_header, og_started = True\<rparr>"
    by (simp add: deliver_def)
  ultimately show ?thesis by blast
qed

theorem peer_cancel_stops_file_witness:
  "\<exists>c c'. send_file_chunk ex_net 7 1 [2] True c = (Inl ECancelled, c') \<and> outgoing_file c' = None"
proof -
  obtain c c1 where c: "outgoing_file c = Some \<lparr>og_id = 7, og_header = ex_file_header, og_started = True\<rparr>"
    "conn_recv ex_net c = (Inr (cancel_frame 7 2 1), c1)"
    using ex_cancel_in_flight by blast
  from peer_cancel_stops_file [OF c(1) _ _ c(2)] show ?thesis by fastforce
qed

subsection \<open>A failed drain closes the write half\<close>

abbreviation shutdown_result :: "connection \<Rightarrow> io_kind option" where
  "shutdown_result c \<equiv> s_shutdown (c_stream c)"

lemma io_read_shutdown: "s_shutdown (snd (io_read s)) = s_shutdown s"
  by (auto simp: io_read_def read_frame_remainder_def stream_read_exact_def split: sum.splits)

lemma io_write_shutdown: "s_shutdown (snd (io_write bs s)) = s_shutdown s"
  by (auto simp: io_write_def stream_write_all_def stream_flush_def split: option.splits)

lemma conn_send_shutdown: "shutdown_result (snd (conn_send N f c)) = shutdown_result c"
  using io_write_shutdown [of _ "c_stream c"]
  by (auto simp: conn_send_def split: prod.splits sum.splits) (metis snd_conv)

lemma recv_during_shutdown: "shutdown_result (snd (recv_during N c)) = shutdown_result c"
  using io_read_shutdown [of "c_stream c"]
  by (auto simp: recv_during_def decode_encrypted_stream split: prod.splits sum.splits)

lemma send_during_shutdown: "shutdown_result (snd (send_during N f c)) = shutdown_result c"
  using conn_send_shutdown [of N f c] by (auto simp: send_during_def split: prod.splits sum.splits)

lemma confirm_peer_close_shutdown: "shutdown_result (snd (confirm_peer_close N e c)) = shutdown_result c"
  using recv_during_shutdown [of N c]
  by (auto simp: confirm_peer_close_def split: prod.splits sum.splits conn_error.splits option.splits)

lemma drain_keepalive_shutdown: "shutdown_result (snd (drain_keepalive N x c)) = shutdown_result c"
proof (cases x)
  case None
  then show ?thesis by (simp add: drain_keepalive_def)
next
  case (Some k)
  define f where "f = keepalive True (case ka_seq_num k of None \<Rightarrow> 0 | Some n \<Rightarrow> n)"
  obtain r c1 where s: "send_during N f c = (r, c1)" by force
  have 1: "shutdown_result c1 = shutdown_result c" using send_during_shutdown [of N f c] s by simp
  have 2: "shutdown_result (snd (confirm_peer_close N e c1)) = shutdown_result c" for e
    using confirm_peer_close_shutdown [of N e c1] 1 by simp
  show ?thesis
    using 1 2 by (auto simp: drain_keepalive_def Some Let_def f_def [symmetric] s
        split: sum.splits conn_error.splits prod.splits) (metis snd_conv)+
qed

lemma drain_frame_shutdown: "shutdown_result (snd (drain_frame N v c)) = shutdown_result c"
  using drain_keepalive_shutdown conn_payload_stream
  by (auto simp: drain_frame_def split: option.splits prod.splits sum.splits) (metis snd_conv)+

lemma drain_control_shutdown: "shutdown_result (snd (drain_control_until N c)) = shutdown_result c"
proof (induction N c rule: drain_control_until.induct)
  case (1 N c)
  obtain r c1 where r: "recv_during N c = (r, c1)" by force
  have k1: "shutdown_result c1 = shutdown_result c" using recv_during_shutdown [of N c] r by simp
  show ?case
  proof (cases r)
    case (Inl e)
    then show ?thesis using r k1 by (subst drain_control_until.simps) (simp split: conn_error.splits)
  next
    case (Inr f)
    show ?thesis
    proof (cases "of_v1 f")
      case None
      then show ?thesis using r k1 Inr by (subst drain_control_until.simps) simp
    next
      case (Some v)
      obtain x c2 where d: "drain_frame N v c1 = (x, c2)" by force
      have k2: "shutdown_result c2 = shutdown_result c" using drain_frame_shutdown [of N v c1] d k1 by simp
      have IH: "x = Inr False \<Longrightarrow> shutdown_result (snd (drain_control_until N c2)) = shutdown_result c2"
        using 1 r Inr Some d by metis
      show ?thesis
        using r Inr Some d k2 IH by (subst drain_control_until.simps) (auto split: sum.splits)
    qed
  qed
qed

text \<open>
  The wait for the peer after a transfer always ends, and if it ends with an error,
  whichever it is, the local write half has been shut down afterwards (when the stream lets it
  be); an error is never swallowed.
\<close>

theorem failed_drain_closes:
  assumes "s_shutdown (c_stream c) = None"
  shows "case drain_post_transfer_control N c of
      (Inl e, c') \<Rightarrow> \<not> s_open (c_stream c') \<and> fst (drain_control_until N c) = Inl e
    | (Inr _, c') \<Rightarrow> fst (drain_control_until N c) = Inr ()"
proof -
  obtain r c1 where d: "drain_control_until N c = (r, c1)" by force
  have "shutdown_result (snd (send_during N disconnect_frame c1)) = None"
    using drain_control_shutdown [of N c] send_during_shutdown [of N disconnect_frame c1] d assms by simp
  then have "\<not> s_open (c_stream (close_during N c1))"
    by (simp add: close_during_def stream_shutdown_write_def Let_def)
  then show ?thesis using d by (cases r) (simp_all add: drain_post_transfer_control_def)
qed

theorem failed_drain_closes_witness:
  "\<exists>c'. drain_post_transfer_control ex_net ex_connection = (Inl (EIo ITimedOut), c') \<and> \<not> s_open (c_stream c')"
proof -
  have "drain_control_until ex_net ex_connection = (Inl (EIo ITimedOut), ex_connection)"
    by (subst drain_control_until.simps)
      (simp add: recv_during_def ex_connection_def io_read_def stream_read_exact_def idle_stream_def
        map_cancelled_def peer_closed_def)
  then have "\<exists>c'. drain_post_transfer_control ex_net ex_connection = (Inl (EIo ITimedOut), c')"
    by (simp add: drain_post_transfer_control_def)
  then show ?thesis
    using failed_drain_closes [of ex_connection ex_net] by (auto simp: ex_connection_def idle_stream_def)
qed

end
