(* ===== verification/Conn_Negotiate.thy ===== *)
theory Conn_Negotiate
  imports Conn_Control
begin

text \<open>
  Moving a connection to another medium (\<open>protocol/negotiate.rs\<close>): offers and requests, the
  handshake that moves the session to a new stream as host or as client, and the fall-back.
  Frames of the ordinary session may be interleaved with the handshake on the prior stream;
  they are processed and their events queued, within a budget.
\<close>

subsection \<open>Plain frames\<close>

definition send_plain :: "('sk, 'pk) net \<Rightarrow> offline_frame \<Rightarrow> stream \<Rightarrow> (conn_error + unit) \<times> stream" where
  "send_plain N f s = io_write (enc_offline N f) s"

definition receive_plain :: "('sk, 'pk) net \<Rightarrow> stream \<Rightarrow> (conn_error + offline_frame) \<times> stream" where
  "receive_plain N s =
     (case io_read s of
        (Inl e, s1) \<Rightarrow> (Inl e, s1)
      | (Inr bs, s1) \<Rightarrow> (case dec_offline N bs of None \<Rightarrow> (Inl EWire, s1) | Some f \<Rightarrow> (Inr f, s1)))"

subsection \<open>Offers and fall-back\<close>

definition propose_upgrade_path ::
  "('sk, 'pk) net \<Rightarrow> medium \<Rightarrow> upgrade_credentials \<Rightarrow> connection \<Rightarrow> unit outcome" where
  "propose_upgrade_path N m creds c =
     (case conn_send N (upgrade_path_available (to_wire m) creds) c of
        (Inl e, c1) \<Rightarrow> (Inl e, c1)
      | (Inr _, c1) \<Rightarrow> (Inr (), c1\<lparr>c_upgrade := UpOffered m, upgrade_host := True\<rparr>))"

definition propose_upgrade :: "('sk, 'pk) net \<Rightarrow> medium \<Rightarrow> connection \<Rightarrow> unit outcome" where
  "propose_upgrade N m c = propose_upgrade_path N m credentials_default c"

definition request_upgrade_path :: "('sk, 'pk) net \<Rightarrow> medium list \<Rightarrow> connection \<Rightarrow> unit outcome" where
  "request_upgrade_path N ms c = conn_send N (upgrade_path_request (map to_wire ms)) c"

definition complete_upgrade :: "medium \<Rightarrow> connection \<Rightarrow> connection" where
  "complete_upgrade m c = c\<lparr>c_medium := m, c_upgrade := UpIdle, upgrade_host := False\<rparr>"

definition fail_upgrade :: "('sk, 'pk) net \<Rightarrow> medium \<Rightarrow> connection \<Rightarrow> unit outcome" where
  "fail_upgrade N attempted c =
     (case conn_send N (upgrade_failure (to_wire attempted)) c of
        (Inl e, c1) \<Rightarrow> (Inl e, c1)
      | (Inr _, c1) \<Rightarrow> (Inr (), c1\<lparr>c_upgrade := UpFailed attempted (c_medium c1), upgrade_host := False\<rparr>))"

subsection \<open>The handshake\<close>

definition payload_body_len :: "offline_frame \<Rightarrow> nat" where
  "payload_body_len f =
     (case Option.bind (Option.bind (Option.bind (of_v1 f) v1_payload_transfer) pt_chunk) pc_body of
        None \<Rightarrow> 0
      | Some b \<Rightarrow> length b)"

definition is_upgrade_event_type :: "offline_frame \<Rightarrow> int \<Rightarrow> bool" where
  "is_upgrade_event_type f ev =
     (case of_v1 f of
        None \<Rightarrow> False
      | Some v \<Rightarrow> v1_type v = Some BANDWIDTH_UPGRADE_NEGOTIATION \<and>
          (case v1_upgrade v of None \<Rightarrow> False | Some n \<Rightarrow> un_event_type n = Some ev))"

definition upgrade_event_type :: "offline_frame \<Rightarrow> int \<Rightarrow> conn_error + unit" where
  "upgrade_event_type f ev =
     (case of_v1 f of
        None \<Rightarrow> Inl EUnexpectedFrame
      | Some v \<Rightarrow>
          if v1_type v \<noteq> Some BANDWIDTH_UPGRADE_NEGOTIATION then Inl EUnexpectedFrame
          else case v1_upgrade v of
                 None \<Rightarrow> Inl EUnexpectedFrame
               | Some n \<Rightarrow> if un_event_type n \<noteq> Some ev then Inl EUnexpectedFrame else Inr ())"

definition expect_plain_upgrade :: "('sk, 'pk) net \<Rightarrow> int \<Rightarrow> stream \<Rightarrow> (conn_error + unit) \<times> stream" where
  "expect_plain_upgrade N ev s =
     (case receive_plain N s of
        (Inl e, s1) \<Rightarrow> (Inl e, s1)
      | (Inr f, s1) \<Rightarrow> (upgrade_event_type f ev, s1))"

definition MAX_QUEUED_FRAMES :: nat where "MAX_QUEUED_FRAMES = 64"

definition insert_at :: "nat \<Rightarrow> 'a \<Rightarrow> 'a list \<Rightarrow> 'a list" where
  "insert_at n x xs = take n xs @ x # drop n xs"

function expect_current_upgrade_loop ::
  "('sk, 'pk) net \<Rightarrow> int \<Rightarrow> nat \<Rightarrow> nat \<Rightarrow> connection \<Rightarrow> unit outcome" where
  "expect_current_upgrade_loop N ev queued_frames queued_bytes c =
     (case conn_recv N c of
        (Inl e, c1) \<Rightarrow> (Inl e, c1)
      | (Inr f, c1) \<Rightarrow>
          if is_upgrade_event_type f ev then (upgrade_event_type f ev, c1)
          else
            let frames = min (queued_frames + 1) u64_max;
                total_bytes = min (queued_bytes + payload_body_len f) u64_max
            in if frames > MAX_QUEUED_FRAMES \<or> total_bytes > MAX_FRAME_LENGTH then (Inl EInvalidPayload, c1)
               else
                 let insertion = length (pending_events c1) in
                 (case conn_event N f c1 of
                    (Inl e, c2) \<Rightarrow> (Inl e, c2)
                  | (Inr r, c2) \<Rightarrow>
                    (case r of
                       None \<Rightarrow> expect_current_upgrade_loop N ev frames total_bytes c2
                     | Some EvDisconnected \<Rightarrow> (Inl ERejected, c2)
                     | Some (EvUpgrade (UpgradeFailed m)) \<Rightarrow>
                         (Inl ERejected, c2\<lparr>pending_events :=
                            insert_at insertion (EvUpgrade (UpgradeFailed m)) (pending_events c2)\<rparr>)
                     | Some x \<Rightarrow>
                         expect_current_upgrade_loop N ev frames total_bytes
                           (c2\<lparr>pending_events := insert_at insertion x (pending_events c2)\<rparr>))))"
  by pat_completeness auto
termination
  by (relation "measure (\<lambda>(N, ev, n, b, c). input_left c)") (auto dest: receive_turn_shorter)

declare expect_current_upgrade_loop.simps [simp del]

definition expect_current_upgrade :: "('sk, 'pk) net \<Rightarrow> int \<Rightarrow> connection \<Rightarrow> unit outcome" where
  "expect_current_upgrade N ev c = expect_current_upgrade_loop N ev 0 0 c"

text \<open>Both roles return the new stream as well.\<close>

definition and_then :: "'a outcome \<Rightarrow> (connection \<Rightarrow> 'b outcome) \<Rightarrow> 'b outcome" where
  "and_then r k = (case r of (Inl e, c) \<Rightarrow> (Inl e, c) | (Inr _, c) \<Rightarrow> k c)"

definition complete_upgrade_as_host ::
  "('sk, 'pk) net \<Rightarrow> stream \<Rightarrow> connection \<Rightarrow> unit outcome \<times> stream" where
  "complete_upgrade_as_host N s c =
     (case expect_plain_upgrade N CLIENT_INTRODUCTION s of
        (Inl e, s1) \<Rightarrow> ((Inl e, c), s1)
      | (Inr _, s1) \<Rightarrow>
        (case send_plain N client_introduction_ack s1 of
           (Inl e, s2) \<Rightarrow> ((Inl e, c), s2)
         | (Inr _, s2) \<Rightarrow>
             (and_then (conn_send N last_write_to_prior_channel c) (\<lambda>c1.
              and_then (expect_current_upgrade N LAST_WRITE c1) (\<lambda>c2.
              and_then (conn_send N safe_to_close_prior_channel c2) (\<lambda>c3.
              expect_current_upgrade N SAFE_TO_CLOSE c3))), s2)))"

definition complete_upgrade_as_client ::
  "('sk, 'pk) net \<Rightarrow> stream \<Rightarrow> connection \<Rightarrow> unit outcome \<times> stream" where
  "complete_upgrade_as_client N s c =
     (case send_plain N (client_introduction (c_endpoint_id c)) s of
        (Inl e, s1) \<Rightarrow> ((Inl e, c), s1)
      | (Inr _, s1) \<Rightarrow>
        (case expect_plain_upgrade N CLIENT_INTRODUCTION_ACK s1 of
           (Inl e, s2) \<Rightarrow> ((Inl e, c), s2)
         | (Inr _, s2) \<Rightarrow>
             (and_then (conn_send N last_write_to_prior_channel c) (\<lambda>c1.
              and_then (expect_current_upgrade N LAST_WRITE c1) (\<lambda>c2.
              and_then (expect_current_upgrade N SAFE_TO_CLOSE c2) (\<lambda>c3.
              conn_send N safe_to_close_prior_channel c3))), s2)))"

definition complete_upgrade_io :: "('sk, 'pk) net \<Rightarrow> medium \<Rightarrow> stream \<Rightarrow> connection \<Rightarrow> unit outcome" where
  "complete_upgrade_io N m s c =
     (let c1 = c\<lparr>c_upgrade := UpAccepted m\<rparr> in
      case (if upgrade_host c then complete_upgrade_as_host N s c1 else complete_upgrade_as_client N s c1) of
        ((Inl e, c2), s') \<Rightarrow> (Inl e, c2)
      | ((Inr _, c2), s') \<Rightarrow> (Inr (), complete_upgrade m (c2\<lparr>c_stream := s'\<rparr>)))"

subsection \<open>The prior path survives a failed handshake\<close>

text \<open>
  What the steps of the handshake on the prior stream may do: they append to its output, consume
  a prefix of its input, and leave the medium alone.
\<close>

definition same_path :: "connection \<Rightarrow> connection \<Rightarrow> bool" where
  "same_path c c' \<longleftrightarrow> c_medium c' = c_medium c \<and>
     (\<exists>x. s_out (c_stream c') = s_out (c_stream c) @ x) \<and>
     (\<exists>y. s_in (c_stream c) = y @ s_in (c_stream c')) \<and>
     s_open (c_stream c') = s_open (c_stream c) \<and> s_end (c_stream c') = s_end (c_stream c)"

lemma same_path_refl [simp]: "same_path c c"
  by (simp add: same_path_def)

lemma same_path_trans: "same_path a b \<Longrightarrow> same_path b c \<Longrightarrow> same_path a c"
  by (auto simp: same_path_def)

lemma same_path_cong:
  "c_stream d = c_stream c' \<Longrightarrow> c_medium d = c_medium c' \<Longrightarrow> same_path c c' \<Longrightarrow> same_path c d"
  by (simp add: same_path_def)

lemma io_write_out:
  "(\<exists>x. s_out (snd (io_write bs s)) = s_out s @ x) \<and> s_open (snd (io_write bs s)) = s_open s"
  by (auto simp: io_write_def stream_write_all_def stream_flush_def split: option.splits)

lemma io_read_in:
  "(\<exists>y. s_in s = y @ s_in (snd (io_read s))) \<and> s_out (snd (io_read s)) = s_out s \<and>
   s_open (snd (io_read s)) = s_open s \<and> s_end (snd (io_read s)) = s_end s"
proof -
  have "\<exists>y. xs = y @ drop n xs" for n and xs :: bytes
    by (rule exI [of _ "take n xs"]) simp
  then show ?thesis unfolding io_read_eq [of s] Let_def by auto
qed

lemma conn_send_path: "same_path c (snd (conn_send N f c))"
proof -
  have "same_path c (c\<lparr>c_channel := ch, c_stream := snd (io_write m (c_stream c))\<rparr>)" for m ch
    using io_write_out [of m "c_stream c"] io_write_keeps_input [of m "c_stream c"]
    by (simp add: same_path_def)
  then show ?thesis
    by (auto simp: conn_send_def same_path_def [of c "c\<lparr>c_channel := _\<rparr>"] split: prod.splits sum.splits)
      (metis snd_conv)
qed

lemma conn_recv_path: "same_path c (snd (conn_recv N c))"
proof -
  obtain r s where r: "io_read (c_stream c) = (r, s)" by force
  have m: "c_medium (snd (decode_encrypted N e d)) = c_medium d" for e d
    by (auto simp: decode_encrypted_def split: prod.splits sum.splits option.splits)
  show ?thesis
    using io_read_in [of "c_stream c"] r
    by (cases r) (auto simp: conn_recv_def same_path_def decode_encrypted_stream m)
qed

lemma conn_event_path: "same_path c (snd (conn_event N f c))"
proof -
  have s: "same_path c d" if "c_stream d = c_stream c" "c_medium d = c_medium c" for d
    using that by (simp add: same_path_def)
  have k: "same_path c (snd (keepalive_event N x c))" for x
    using conn_send_path [of c N] by (auto simp: keepalive_event_def Let_def split: option.splits prod.splits sum.splits)
      (metis snd_conv)+
  have f: "c_medium (snd (file_payload i sz name offset bs is_last c)) = c_medium c" for i sz name offset bs is_last
    by (auto simp: file_payload_def begin_file_def advance_file_def Let_def split: option.splits)
  have b: "c_medium (snd (bytes_payload i sz offset bs is_last c)) = c_medium c" for i sz offset bs is_last
    by (auto simp: bytes_payload_def finish_bytes_payload_def Let_def split: option.splits)
  have p: "c_medium (snd (conn_payload t c)) = c_medium c" for t
    using f b by (auto simp: conn_payload_def control_payload_def payload_control_event_def clear_payload_def
        split: option.splits sum.splits prod.splits) (metis snd_conv)+
  have u: "c_medium (snd (conn_upgrade_event n c)) = c_medium c" for n
    by (auto simp: conn_upgrade_event_def split: option.splits)
  show ?thesis
    using k s p u conn_payload_stream conn_upgrade_event_stream
    by (auto simp: conn_event_def v1_event_def negotiation_event_def split: option.splits)
qed

lemma pending_path [simp]: "same_path c (d\<lparr>pending_events := x\<rparr>) = same_path c d"
  by (simp add: same_path_def)

text \<open>One turn of the loop, with the frame that is not the awaited one.\<close>

definition queue_event :: "nat \<Rightarrow> event option \<Rightarrow> connection \<Rightarrow> connection" where
  "queue_event n r c =
     (case r of
        None \<Rightarrow> c
      | Some EvDisconnected \<Rightarrow> c
      | Some ev \<Rightarrow> c\<lparr>pending_events := insert_at n ev (pending_events c)\<rparr>)"

definition ends_wait :: "event option \<Rightarrow> bool" where
  "ends_wait r = (case r of Some EvDisconnected \<Rightarrow> True | Some (EvUpgrade (UpgradeFailed m)) \<Rightarrow> True | _ \<Rightarrow> False)"

lemma expect_loop_eq:
  "expect_current_upgrade_loop N ev n b c =
     (case conn_recv N c of
        (Inl e, c1) \<Rightarrow> (Inl e, c1)
      | (Inr f, c1) \<Rightarrow>
          if is_upgrade_event_type f ev then (upgrade_event_type f ev, c1)
          else if min (n + 1) u64_max > MAX_QUEUED_FRAMES \<or> min (b + payload_body_len f) u64_max > MAX_FRAME_LENGTH
          then (Inl EInvalidPayload, c1)
          else (case conn_event N f c1 of
                  (Inl e, c2) \<Rightarrow> (Inl e, c2)
                | (Inr r, c2) \<Rightarrow>
                    if ends_wait r then (Inl ERejected, queue_event (length (pending_events c1)) r c2)
                    else expect_current_upgrade_loop N ev (min (n + 1) u64_max) (min (b + payload_body_len f) u64_max)
                           (queue_event (length (pending_events c1)) r c2)))"
  by (subst expect_current_upgrade_loop.simps)
    (auto simp: Let_def ends_wait_def queue_event_def split: prod.split sum.split option.split event.split upgrade_event.split)

lemma queue_event_input: "input_left (queue_event n r c) = input_left c"
  by (simp add: queue_event_def split: option.splits event.splits)

lemma expect_loop_induct:
  assumes step: "\<And>n b c. (\<And>f c1 r c2 n' b'. conn_recv N c = (Inr f, c1) \<Longrightarrow> conn_event N f c1 = (Inr r, c2) \<Longrightarrow>
      P n' b' (queue_event (length (pending_events c1)) r c2)) \<Longrightarrow> P n b c"
  shows "P n b (c :: connection)"
proof (induction "input_left c" arbitrary: n b c rule: less_induct)
  case less
  show ?case
    by (rule step, rule less) (metis queue_event_input receive_turn_shorter)
qed

lemma queue_event_path: "same_path x (queue_event k r d) = same_path x d"
  by (simp add: queue_event_def split: option.splits event.splits)

lemma expect_loop_path: "same_path c (snd (expect_current_upgrade_loop N ev n b c))"
proof (induction n b c rule: expect_loop_induct [where N = N])
  case (1 n b c)
  obtain r c1 where r: "conn_recv N c = (r, c1)" by force
  have p1: "same_path c c1" using conn_recv_path [of c N] r by simp
  show ?case
  proof (cases r)
    case (Inl e)
    then show ?thesis using r p1 by (subst expect_loop_eq) simp
  next
    case (Inr f)
    obtain x c2 where e: "conn_event N f c1 = (x, c2)" by force
    have p2: "same_path c (queue_event k y c2)" for k y
      using same_path_trans [OF p1] conn_event_path [of c1 N f] e queue_event_path by simp
    have p3: "same_path c (snd (expect_current_upgrade_loop N ev n' b' (queue_event (length (pending_events c1)) y c2)))"
      if "x = Inr y" for y n' b'
      using 1 [of f c1 y c2 n' b'] that r Inr e p2 same_path_trans by blast
    have p4: "same_path c c2" using p2 queue_event_path by blast
    show ?thesis
      by (subst expect_loop_eq) (simp add: r Inr e p1 p2 p3 p4 split: sum.split)
  qed
qed

lemma and_then_path:
  assumes "same_path c (snd r)" and "\<And>c1. snd r = c1 \<Longrightarrow> same_path c1 (snd (k c1))"
  shows "same_path c (snd (and_then r k))"
  using assms same_path_trans by (auto simp: and_then_def split: prod.splits sum.splits)

lemma handshake_path:
  "same_path c (snd (fst (complete_upgrade_as_host N s c)))"
  "same_path c (snd (fst (complete_upgrade_as_client N s c)))"
  by (auto simp: complete_upgrade_as_host_def complete_upgrade_as_client_def expect_current_upgrade_def
      intro!: and_then_path conn_send_path expect_loop_path split: prod.splits sum.splits)

text \<open>
  A failed move keeps the connection where it was. If the handshake towards a new medium
  fails at any point, the connection still uses its prior stream, to which it has only appended
  output and from which it has only consumed input, and its medium is unchanged; if it succeeds,
  the connection is on the new medium and the negotiation is over.
\<close>

theorem upgrade_moves_or_stays:
  "case complete_upgrade_io N m s c of
     (Inl e, c') \<Rightarrow> c_medium c' = c_medium c \<and> s_open (c_stream c') = s_open (c_stream c) \<and>
        (\<exists>x. s_out (c_stream c') = s_out (c_stream c) @ x) \<and> (\<exists>y. s_in (c_stream c) = y @ s_in (c_stream c'))
   | (Inr _, c') \<Rightarrow> c_medium c' = m \<and> c_upgrade c' = UpIdle \<and> \<not> upgrade_host c'"
proof -
  let ?c = "c\<lparr>c_upgrade := UpAccepted m\<rparr>"
  obtain r c2 s' where h: "(if upgrade_host c then complete_upgrade_as_host N s ?c
      else complete_upgrade_as_client N s ?c) = ((r, c2), s')" by (metis surj_pair)
  have "same_path ?c c2"
    using handshake_path [of ?c N s] h by (auto split: if_splits)
  then show ?thesis
    using h by (cases r) (auto simp: complete_upgrade_io_def complete_upgrade_def same_path_def Let_def)
qed

subsection \<open>Events that arrive during the handshake\<close>

lemma conn_event_pending:
  "conn_event N f c = (Inr r, c') \<Longrightarrow> \<exists>xs. pending_events c' = pending_events c @ xs"
  by (drule conn_event_follows) (auto simp: frame_follows_def split: option.splits)

lemma queue_event_follows:
  assumes "follows q c" and "conn_event N f c = (Inr r, c')"
  shows "follows q (queue_event (length (pending_events c)) r c')"
proof (cases r)
  case None
  then show ?thesis
    using conn_event_follows [OF assms(2)] assms(1) by (simp add: queue_event_def follows_def frame_follows_def)
next
  case (Some ev)
  with conn_event_follows [OF assms(2)] obtain xs q1 where
    p: "pending_events c' = pending_events c @ xs" and s: "file_step ev (incoming_files c) = Some q1"
    and x: "file_run xs q1 = Some (incoming_files c')" by (auto simp: frame_follows_def)
  have "follows q (c'\<lparr>pending_events := insert_at (length (pending_events c)) ev (pending_events c')\<rparr>)"
    using assms(1) s x by (simp add: follows_def insert_at_def p file_run_append)
  moreover have "follows q c'" if "ev = EvDisconnected"
    using that assms(1) s x p by (simp add: follows_def file_run_append file_step_def)
  ultimately show ?thesis
    by (auto simp: Some queue_event_def split: event.splits)
qed

lemma expect_loop_follows:
  "follows q c \<Longrightarrow> expect_current_upgrade_loop N ev n b c = (Inr (), c') \<Longrightarrow> follows q c'"
proof (induction n b c rule: expect_loop_induct [where N = N])
  case (1 n b c)
  from 1(3) obtain f c1 where r: "conn_recv N c = (Inr f, c1)"
    by (subst (asm) expect_loop_eq) (auto split: prod.splits sum.splits)
  have f1: "follows q c1" using conn_recv_files [OF r] 1(2) by (simp add: follows_def)
  obtain x c2 where e: "conn_event N f c1 = (x, c2)" by force
  show ?case
  proof (cases "is_upgrade_event_type f ev")
    case True
    then show ?thesis using 1(3) r f1 by (subst (asm) expect_loop_eq) simp
  next
    case False
    with 1(3) r e obtain y n' b' where y: "x = Inr y"
      "expect_current_upgrade_loop N ev n' b' (queue_event (length (pending_events c1)) y c2) = (Inr (), c')"
      by (subst (asm) expect_loop_eq) (auto split: if_splits sum.splits)
    show ?thesis
      using 1(1) [OF r e [unfolded y(1)] queue_event_follows [OF f1 e [unfolded y(1)]] y(2)] .
  qed
qed

text \<open>
  Events that arrive while the prior path is being closed are not lost or reordered: if
  waiting for a step of the handshake succeeds, the queued events, read in order, still follow
  the file protocol and lead to the connection's own table of files.
\<close>

theorem upgrade_wait_keeps_event_order:
  assumes "pending_events c = []" and "expect_current_upgrade N ev c = (Inr (), c')"
  shows "file_run (pending_events c') (incoming_files c) = Some (incoming_files c')"
  using expect_loop_follows [of "incoming_files c" c N ev 0 0 c'] assms
  by (simp add: expect_current_upgrade_def follows_def)

lemma ex_sent:
  assumes "length (xe_offline f) \<le> 10000"
  shows "\<exists>b b1. conn_recv ex_net b = (Inr f, b1) \<and> pending_events b = [] \<and> incoming_files b = Map.empty"
proof -
  obtain a' where s: "conn_send ex_net f ex_connection = (Inr (), a')"
    using ex_conn_send [OF ex_connection_sender, of 0] assms by force
  from in_flight_send [OF ex_in_flight s] obtain b1 where
    "conn_recv ex_net (deliver (written ex_connection a') ex_connection) = (Inr f, b1)" by auto
  then show ?thesis
    by (intro exI [of _ "deliver (written ex_connection a') ex_connection"] exI [of _ b1])
      (simp add: ex_connection_def)
qed

theorem upgrade_wait_keeps_event_order_witness:
  "\<exists>c c'. expect_current_upgrade ex_net LAST_WRITE c = (Inr (), c') \<and>
     file_run (pending_events c') (incoming_files c) = Some (incoming_files c')"
proof -
  have "length (xe_offline last_write_to_prior_channel) \<le> 10000"
    by (simp add: ex_codec_defs xe_un_def last_write_to_prior_channel_def upgrade_negotiation_def negotiation_default_def)
  then obtain b b1 where r: "conn_recv ex_net b = (Inr last_write_to_prior_channel, b1)"
    and p: "pending_events b = []" using ex_sent by blast
  have "is_upgrade_event_type last_write_to_prior_channel LAST_WRITE"
    "upgrade_event_type last_write_to_prior_channel LAST_WRITE = Inr ()"
    by (simp_all add: is_upgrade_event_type_def upgrade_event_type_def last_write_to_prior_channel_def
        upgrade_negotiation_def offline_def v1_default_def)
  then have e: "expect_current_upgrade ex_net LAST_WRITE b = (Inr (), b1)"
    unfolding expect_current_upgrade_def by (subst expect_loop_eq) (simp add: r)
  from upgrade_wait_keeps_event_order [OF p e] e show ?thesis by blast
qed

end
