(* ===== verification/Sharing_Messages.thy ===== *)
theory Sharing_Messages
  imports Sharing_Types
begin

text \<open>
  The Nearby Sharing messages as records: the generated structs of
  \<open>crates/core/wire/src/generated/nearby.sharing.service.proto.rs\<close> with the fields that the
  repository reads or sets, and the generated enumerations with their wire numbers.
\<close>

subsection \<open>Messages\<close>

record file_metadata =
  fm_name :: "rstring option"
  fm_type :: "int option"
  fm_payload_id :: "int option"
  fm_size :: "int option"
  fm_mime_type :: "rstring option"
  fm_id :: "int option"

record text_metadata =
  tm_text_title :: "rstring option"
  tm_type :: "int option"
  tm_payload_id :: "int option"
  tm_size :: "int option"
  tm_id :: "int option"

record app_metadata =
  am_size :: "int option"
  am_payload_id :: "int list"
  am_file_name :: "rstring list"
  am_file_size :: "int list"
  am_package_name :: "rstring option"

record wifi_credentials_metadata =
  wm_payload_id :: "int option"

record stream_metadata =
  st_payload_id :: "int option"

record introduction_frame =
  in_file_metadata :: "file_metadata list"
  in_text_metadata :: "text_metadata list"
  in_wifi_credentials_metadata :: "wifi_credentials_metadata list"
  in_app_metadata :: "app_metadata list"
  in_start_transfer :: "bool option"
  in_stream_metadata :: "stream_metadata list"

record sharing_response_frame =
  sr_status :: "int option"

record paired_key_encryption_frame =
  pk_signed_data :: "bytes option"
  pk_secret_id_hash :: "bytes option"
  pk_optional_signed_data :: "bytes option"
  pk_qr_code_handshake_data :: "bytes option"

record paired_key_result_frame =
  pr_status :: "int option"
  pr_os_type :: "int option"

record sharing_v1 =
  sv_type :: "int option"
  sv_introduction :: "introduction_frame option"
  sv_connection_response :: "sharing_response_frame option"
  sv_paired_key_encryption :: "paired_key_encryption_frame option"
  sv_paired_key_result :: "paired_key_result_frame option"

record sharing_frame =
  sf_version :: "int option"
  sf_v1 :: "sharing_v1 option"

definition introduction_default :: introduction_frame where
  "introduction_default = \<lparr>in_file_metadata = [], in_text_metadata = [], in_wifi_credentials_metadata = [],
     in_app_metadata = [], in_start_transfer = None, in_stream_metadata = []\<rparr>"

definition sharing_v1_default :: sharing_v1 where
  "sharing_v1_default = \<lparr>sv_type = None, sv_introduction = None, sv_connection_response = None,
     sv_paired_key_encryption = None, sv_paired_key_result = None\<rparr>"

subsection \<open>Enumerations\<close>

datatype frame_type =
    UnknownFrameType | Introduction | Response | PairedKeyEncryption | PairedKeyResult
  | CertificateInfo | Cancel | ProgressUpdate | Bindings

fun frame_type_number :: "frame_type \<Rightarrow> int" where
  "frame_type_number UnknownFrameType = 0"
| "frame_type_number Introduction = 1"
| "frame_type_number Response = 2"
| "frame_type_number PairedKeyEncryption = 3"
| "frame_type_number PairedKeyResult = 4"
| "frame_type_number CertificateInfo = 5"
| "frame_type_number Cancel = 6"
| "frame_type_number ProgressUpdate = 7"
| "frame_type_number Bindings = 8"

definition frame_types :: "frame_type list" where
  "frame_types = [UnknownFrameType, Introduction, Response, PairedKeyEncryption, PairedKeyResult,
     CertificateInfo, Cancel, ProgressUpdate, Bindings]"

definition frame_type_of :: "int \<Rightarrow> frame_type option" where
  "frame_type_of n = List.find (\<lambda>t. frame_type_number t = n) frame_types"

datatype response_status =
    StUnknown | StAccept | StReject | StNotEnoughSpace | StUnsupportedAttachmentType | StTimedOut

fun status_number :: "response_status \<Rightarrow> int" where
  "status_number StUnknown = 0"
| "status_number StAccept = 1"
| "status_number StReject = 2"
| "status_number StNotEnoughSpace = 3"
| "status_number StUnsupportedAttachmentType = 4"
| "status_number StTimedOut = 5"

definition status_of :: "int \<Rightarrow> response_status option" where
  "status_of n = List.find (\<lambda>t. status_number t = n)
     [StUnknown, StAccept, StReject, StNotEnoughSpace, StUnsupportedAttachmentType, StTimedOut]"

datatype text_type = TtUnknown | TtText | TtUrl | TtAddress | TtPhoneNumber

fun text_type_number :: "text_type \<Rightarrow> int" where
  "text_type_number TtUnknown = 0"
| "text_type_number TtText = 1"
| "text_type_number TtUrl = 2"
| "text_type_number TtAddress = 3"
| "text_type_number TtPhoneNumber = 4"

definition text_type_of :: "int \<Rightarrow> text_type option" where
  "text_type_of n = List.find (\<lambda>t. text_type_number t = n) [TtUnknown, TtText, TtUrl, TtAddress, TtPhoneNumber]"

definition FILE_ANDROID_APP :: int where "FILE_ANDROID_APP = 3"
definition FILE_DOCUMENT :: int where "FILE_DOCUMENT = 5"
definition PAIRING_UNABLE :: int where "PAIRING_UNABLE = 3"

lemma frame_type_of_number [simp]: "frame_type_of (frame_type_number t) = Some t"
  by (cases t) (simp_all add: frame_type_of_def frame_types_def)

lemma frame_type_of_Some: "frame_type_of n = Some t \<longleftrightarrow> n = frame_type_number t"
  using frame_type_of_number
  by (auto simp: frame_type_of_def find_Some_iff)

lemma status_of_number [simp]: "status_of (status_number t) = Some t"
  by (cases t) (simp_all add: status_of_def)

lemma text_type_of_number [simp]: "text_type_of (text_type_number t) = Some t"
  by (cases t) (simp_all add: text_type_of_def)

end
