(* ===== verification/Sharing_Offer.thy ===== *)
theory Sharing_Offer
  imports Sharing_Messages
begin

text \<open>
  Validation of an inbound introduction (\<open>protocol/offer.rs\<close>). The protobuf decoder is the
  parameter \<open>dec\<close>.
\<close>

definition MAX_TEXT_BYTES :: int where "MAX_TEXT_BYTES = 1024 * 1024"

definition validate_payload_id :: "int \<Rightarrow> protocol_error + unit" where
  "validate_payload_id payload_id =
     (if payload_id = 0 then Inl (PInvalidOffer ''zero payload identifier'') else Inr ())"

definition safe_name :: "rstring \<Rightarrow> bool" where
  "safe_name name \<longleftrightarrow> name \<noteq> [] \<and> \<not> (47 \<in> set name \<or> 92 \<in> set name) \<and> name \<noteq> [46] \<and> name \<noteq> [46, 46]"

definition decode_file :: "file_metadata \<Rightarrow> protocol_error + incoming_offer" where
  "decode_file file =
     (case (fm_name file, fm_size file, fm_payload_id file) of
        (Some name, Some size_bytes, Some payload_id) \<Rightarrow>
          if size_bytes < 0 then Inl (PInvalidOffer ''negative file size'')
          else (case validate_payload_id payload_id of
                  Inl e \<Rightarrow> Inl e
                | Inr _ \<Rightarrow>
                    if \<not> safe_name name then Inl (PInvalidOffer ''unsafe file name'')
                    else Inr (offer_new (if fm_type file = Some FILE_ANDROID_APP then OAndroidApp else OFile)
                           name size_bytes payload_id))
      | _ \<Rightarrow> Inl (PInvalidOffer ''missing name, size, or payload identifier''))"

text \<open>
  The loop over the payloads of an app: \<open>seen\<close> is the slice of identifiers before the current
  index, and the three lists are the parallel vectors from that index on.
\<close>

fun app_files :: "int list \<Rightarrow> int list \<Rightarrow> int list \<Rightarrow> rstring list \<Rightarrow> offered_file list \<Rightarrow> int \<Rightarrow>
    protocol_error + (offered_file list \<times> int)" where
  "app_files seen (payload_id # ids) (size_bytes # sizes) (name # names) files total_size =
     (if payload_id \<in> set seen then Inl (PInvalidOffer ''duplicate app payload identifier'')
      else if size_bytes < 0 then Inl (PInvalidOffer ''negative file size'')
      else case validate_payload_id payload_id of
        Inl e \<Rightarrow> Inl e
      | Inr _ \<Rightarrow>
          if \<not> safe_name name then Inl (PInvalidOffer ''unsafe file name'')
          else case checked_add_i64 total_size size_bytes of
            None \<Rightarrow> Inl (PInvalidOffer ''invalid app size'')
          | Some total' \<Rightarrow>
              app_files (seen @ [payload_id]) ids sizes names
                (files @ [offered_file_new name size_bytes payload_id]) total')"
| "app_files seen _ _ _ files total_size = Inr (files, total_size)"

definition app_sizes :: "app_metadata \<Rightarrow> protocol_error + int list" where
  "app_sizes app =
     (let count = length (am_payload_id app) in
      if am_file_size app = [] \<and> count = 1 then
        (case am_size app of
           None \<Rightarrow> Inl (PInvalidOffer ''missing name, size, or payload identifier'')
         | Some s \<Rightarrow> Inr [s])
      else if length (am_file_size app) = count then Inr (am_file_size app)
      else Inl (PInvalidOffer ''misaligned app file payloads''))"

definition decode_app :: "app_metadata \<Rightarrow> protocol_error + incoming_offer" where
  "decode_app app =
     (let count = length (am_payload_id app) in
      if count = 0 \<or> length (am_file_name app) \<noteq> count
      then Inl (PInvalidOffer ''misaligned app file payloads'')
      else case app_sizes app of
        Inl e \<Rightarrow> Inl e
      | Inr sizes \<Rightarrow>
        (case app_files [] (am_payload_id app) sizes (am_file_name app) [] 0 of
           Inl e \<Rightarrow> Inl e
         | Inr (files, total_size) \<Rightarrow>
             if am_size app \<noteq> None \<and> am_size app \<noteq> Some total_size
             then Inl (PInvalidOffer ''app size does not match payloads'')
             else
               let offer = with_files OAndroidApp files total_size in
               case am_package_name app of
                 Some package_name \<Rightarrow>
                   Inr (if package_name \<noteq> [] then with_package_name package_name offer else offer)
               | None \<Rightarrow> Inr offer))"

definition decode_text :: "text_metadata \<Rightarrow> protocol_error + incoming_offer" where
  "decode_text t =
     (case (tm_text_title t, tm_size t, tm_payload_id t, tm_type t) of
        (Some title, Some size_bytes, Some payload_id, Some kind) \<Rightarrow>
          if title = [] then Inl (PInvalidOffer ''empty text title'')
          else if \<not> (0 \<le> size_bytes \<and> size_bytes \<le> MAX_TEXT_BYTES) then Inl (PInvalidOffer ''invalid text size'')
          else (case validate_payload_id payload_id of
                  Inl e \<Rightarrow> Inl e
                | Inr _ \<Rightarrow>
                  (case text_type_of kind of
                     Some TtText \<Rightarrow> Inr (offer_new OText title size_bytes payload_id)
                   | Some TtUrl \<Rightarrow> Inr (offer_new OUrl title size_bytes payload_id)
                   | _ \<Rightarrow> Inl (PInvalidOffer ''unsupported text attachment type'')))
      | _ \<Rightarrow> Inl (PInvalidOffer ''missing title, size, type, or payload identifier''))"

definition offer_decode :: "(bytes \<Rightarrow> sharing_frame option) \<Rightarrow> bytes \<Rightarrow> protocol_error + incoming_offer" where
  "offer_decode dec bs =
     (case dec bs of
        None \<Rightarrow> Inl PDecode
      | Some frame \<Rightarrow>
        (case sf_v1 frame of
           None \<Rightarrow> Inl PInvalidFrame
         | Some v1 \<Rightarrow>
           (case sv_introduction v1 of
              None \<Rightarrow> Inl PInvalidFrame
            | Some i \<Rightarrow>
                if in_wifi_credentials_metadata i \<noteq> [] \<or> in_stream_metadata i \<noteq> []
                then Inl (PInvalidOffer ''unsupported attachment kind'')
                else (case (in_file_metadata i, in_text_metadata i, in_app_metadata i) of
                        ([file], [], []) \<Rightarrow> decode_file file
                      | ([], [t], []) \<Rightarrow> decode_text t
                      | ([], [], [app]) \<Rightarrow> decode_app app
                      | _ \<Rightarrow> Inl (PInvalidOffer ''expected exactly one file, text, or app attachment'')))))"

subsection \<open>What an accepted offer satisfies\<close>

text \<open>The contract the rest of the program relies on once an offer has been decoded.\<close>

definition offer_ok :: "incoming_offer \<Rightarrow> bool" where
  "offer_ok offer \<longleftrightarrow>
     of_files offer \<noteq> [] \<and>
     list_all (\<lambda>f. 0 \<le> fi_size_bytes f \<and> fi_payload_id f \<noteq> 0 \<and> fi_name f \<noteq> []) (of_files offer) \<and>
     distinct (map fi_payload_id (of_files offer)) \<and>
     of_size_bytes offer = sum_list (map fi_size_bytes (of_files offer)) \<and>
     (persists_as_file (of_kind offer) \<longrightarrow> list_all (\<lambda>f. safe_name (fi_name f)) (of_files offer)) \<and>
     (\<not> persists_as_file (of_kind offer) \<longrightarrow>
        length (of_files offer) = 1 \<and> of_size_bytes offer \<le> MAX_TEXT_BYTES)"

lemma safe_name_nonempty: "safe_name n \<Longrightarrow> n \<noteq> []"
  by (simp add: safe_name_def)

lemma decode_file_ok: "decode_file f = Inr offer \<Longrightarrow> offer_ok offer"
  by (auto simp: decode_file_def offer_ok_def validate_payload_id_def persists_as_file_def
      dest: safe_name_nonempty split: option.splits if_splits sum.splits)

lemma decode_text_ok: "decode_text t = Inr offer \<Longrightarrow> offer_ok offer"
  by (auto simp: decode_text_def offer_ok_def validate_payload_id_def persists_as_file_def
      split: option.splits if_splits sum.splits text_type.splits)

lemma app_files_Inr:
  assumes "app_files seen ids sizes names files total_size = Inr (files', total')"
    and "length sizes = length ids" and "length names = length ids"
  shows "\<exists>new. files' = files @ new \<and> map fi_payload_id new = ids \<and> map fi_size_bytes new = sizes \<and>
     map fi_name new = names \<and> total' = total_size + sum_list sizes \<and>
     list_all (\<lambda>f. 0 \<le> fi_size_bytes f \<and> fi_payload_id f \<noteq> 0 \<and> safe_name (fi_name f)) new \<and>
     distinct ids \<and> set ids \<inter> set seen = {}"
  using assms
proof (induction seen ids sizes names files total_size rule: app_files.induct)
  case (1 seen payload_id ids size_bytes sizes name names files total_size)
  then have "app_files (seen @ [payload_id]) ids sizes names
      (files @ [offered_file_new name size_bytes payload_id]) (total_size + size_bytes) = Inr (files', total')"
    and g: "payload_id \<notin> set seen" "0 \<le> size_bytes" "payload_id \<noteq> 0" "safe_name name"
      "in_i64 (total_size + size_bytes)"
    by (auto simp: validate_payload_id_def split: if_splits option.splits)
  then obtain new where "files' = (files @ [offered_file_new name size_bytes payload_id]) @ new"
    "map fi_payload_id new = ids" "map fi_size_bytes new = sizes" "map fi_name new = names"
    "total' = total_size + size_bytes + sum_list sizes"
    "list_all (\<lambda>f. 0 \<le> fi_size_bytes f \<and> fi_payload_id f \<noteq> 0 \<and> safe_name (fi_name f)) new"
    "distinct ids" "set ids \<inter> set (seen @ [payload_id]) = {}"
    using 1 g by (auto simp: validate_payload_id_def split: if_splits)
  then show ?case
    using g by (intro exI [of _ "offered_file_new name size_bytes payload_id # new"])
      (auto simp: offered_file_new_def)
qed auto

lemma app_sizes_length: "app_sizes app = Inr sizes \<Longrightarrow> length sizes = length (am_payload_id app)"
  by (auto simp: app_sizes_def Let_def split: if_splits option.splits)

lemma decode_app_ok:
  assumes "decode_app app = Inr offer"
  shows "offer_ok offer"
proof -
  from assms obtain sizes files t where
    s: "app_sizes app = Inr sizes" and n: "length (am_file_name app) = length (am_payload_id app)"
    and ne: "am_payload_id app \<noteq> []"
    and f: "app_files [] (am_payload_id app) sizes (am_file_name app) [] 0 = Inr (files, t)"
    and o: "of_files offer = files" "of_kind offer = OAndroidApp" "of_size_bytes offer = t"
    by (auto simp: decode_app_def Let_def with_files_def with_package_name_def
        split: if_splits sum.splits option.splits)
  from app_files_Inr [OF f app_sizes_length [OF s] n] have
    a: "map fi_payload_id files = am_payload_id app" "map fi_size_bytes files = sizes" "t = sum_list sizes"
    "list_all (\<lambda>f. 0 \<le> fi_size_bytes f \<and> fi_payload_id f \<noteq> 0 \<and> safe_name (fi_name f)) files"
    "distinct (am_payload_id app)" by auto
  then have "files \<noteq> []" using ne by auto
  then show ?thesis
    using a o by (auto simp: offer_ok_def persists_as_file_def list_all_iff dest: safe_name_nonempty)
qed

lemma offer_decode_ok: "offer_decode dec bs = Inr offer \<Longrightarrow> offer_ok offer"
  using decode_file_ok decode_text_ok decode_app_ok
  by (auto simp: offer_decode_def split: option.splits if_splits list.splits)

text \<open>
  C20. Whatever a peer sends, an introduction that is accepted as an offer is safe to act on: it
  has at least one payload; every payload has a non-zero identifier, a non-negative size and a
  non-empty name; the identifiers are pairwise different and the declared total is the sum of the
  sizes; a payload to be stored has a name that is a plain basename (no slash, no backslash, not
  \<open>.\<close> or \<open>..\<close>), and a text has one payload of at most 1 MiB. Every single payload taken out with
  \<open>file\<close> is again such an offer.
\<close>

theorem accepted_offer_safe:
  assumes "offer_decode dec bs = Inr offer"
  shows "offer_ok offer \<and> (\<forall>index < file_count offer. \<exists>o'. offer_file index offer = Some o' \<and> offer_ok o' \<and>
     of_files o' = [of_files offer ! index])"
proof -
  have ok: "offer_ok offer" using assms by (rule offer_decode_ok)
  have "\<exists>o'. offer_file i offer = Some o' \<and> offer_ok o' \<and> of_files o' = [of_files offer ! i]"
    if i: "i < file_count offer" for i
  proof -
    have m: "of_files offer ! i \<in> set (of_files offer)" using i by (simp add: file_count_def)
    have "\<not> persists_as_file (of_kind offer) \<Longrightarrow> fi_size_bytes (of_files offer ! i) = of_size_bytes offer"
      using ok i by (auto simp: offer_ok_def file_count_def length_Suc_conv)
    then show ?thesis
      using ok m i by (auto simp: offer_file_def file_count_def offer_ok_def list_all_iff Let_def)
  qed
  then show ?thesis using ok by blast
qed

definition ex_app :: app_metadata where
  "ex_app = \<lparr>am_size = Some 30, am_payload_id = [7, 8], am_file_name = [ascii ''a.apk'', ascii ''b.apk''],
     am_file_size = [10, 20], am_package_name = Some (ascii ''p'')\<rparr>"

definition ex_app_frame :: sharing_frame where
  "ex_app_frame = \<lparr>sf_version = Some 1, sf_v1 = Some (sharing_v1_default\<lparr>sv_type := Some 1,
     sv_introduction := Some (introduction_default\<lparr>in_app_metadata := [ex_app]\<rparr>)\<rparr>)\<rparr>"

theorem accepted_offer_safe_witness:
  "\<exists>offer. offer_decode (\<lambda>_. Some ex_app_frame) [] = Inr offer \<and> file_count offer = 2 \<and> offer_ok offer"
proof -
  have "\<exists>offer. offer_decode (\<lambda>_. Some ex_app_frame) [] = Inr offer \<and> file_count offer = 2"
    by (simp add: offer_decode_def ex_app_frame_def introduction_default_def decode_app_def app_sizes_def
        ex_app_def validate_payload_id_def safe_name_def ascii_def checked_add_i64_def range_defs
        with_files_def with_package_name_def file_count_def)
  then show ?thesis using accepted_offer_safe by blast
qed

end
