(* ===== verification/Sharing_Frames.thy ===== *)
theory Sharing_Frames
  imports Sharing_Offer
begin

text \<open>
  The Sharing frames the program builds and the validators of those it receives
  (\<open>protocol/frames.rs\<close>). The random bytes of the account-free encryption frame are arguments and
  the protobuf decoder is the parameter \<open>dec\<close>.
\<close>

subsection \<open>Builders\<close>

definition share_frame :: "frame_type \<Rightarrow> sharing_v1 \<Rightarrow> sharing_frame" where
  "share_frame kind v1 = \<lparr>sf_version = Some 1, sf_v1 = Some (v1\<lparr>sv_type := Some (frame_type_number kind)\<rparr>)\<rparr>"

definition account_free_encryption :: "bytes \<Rightarrow> bytes \<Rightarrow> sharing_frame" where
  "account_free_encryption signed_data secret_id_hash =
     share_frame PairedKeyEncryption (sharing_v1_default\<lparr>sv_paired_key_encryption :=
       Some \<lparr>pk_signed_data = Some signed_data, pk_secret_id_hash = Some secret_id_hash,
             pk_optional_signed_data = None, pk_qr_code_handshake_data = None\<rparr>\<rparr>)"

definition account_free_result :: sharing_frame where
  "account_free_result =
     share_frame PairedKeyResult (sharing_v1_default\<lparr>sv_paired_key_result :=
       Some \<lparr>pr_status = Some PAIRING_UNABLE, pr_os_type = Some 0\<rparr>\<rparr>)"

definition FILE_ATTACHMENT_ID :: int where "FILE_ATTACHMENT_ID = 4"
definition FILE_PAYLOAD_ID :: int where "FILE_PAYLOAD_ID = 3"
definition TEXT_ATTACHMENT_ID :: int where "TEXT_ATTACHMENT_ID = 4"
definition TEXT_PAYLOAD_ID :: int where "TEXT_PAYLOAD_ID = 3"

definition introduction :: "rstring \<Rightarrow> int \<Rightarrow> sharing_frame" where
  "introduction name sz =
     share_frame Introduction (sharing_v1_default\<lparr>sv_introduction :=
       Some (introduction_default\<lparr>in_file_metadata :=
         [\<lparr>fm_name = Some name, fm_type = Some FILE_DOCUMENT, fm_payload_id = Some FILE_PAYLOAD_ID,
           fm_size = Some sz, fm_mime_type = Some (ascii ''application/octet-stream''),
           fm_id = Some FILE_ATTACHMENT_ID\<rparr>], in_start_transfer := Some True\<rparr>)\<rparr>)"

definition text_introduction :: "rstring \<Rightarrow> int \<Rightarrow> text_type \<Rightarrow> sharing_frame" where
  "text_introduction title sz kind =
     share_frame Introduction (sharing_v1_default\<lparr>sv_introduction :=
       Some (introduction_default\<lparr>in_text_metadata :=
         [\<lparr>tm_text_title = Some title, tm_type = Some (text_type_number kind),
           tm_payload_id = Some TEXT_PAYLOAD_ID, tm_size = Some sz, tm_id = Some TEXT_ATTACHMENT_ID\<rparr>],
         in_start_transfer := Some True\<rparr>)\<rparr>)"

definition sharing_cancel :: sharing_frame where
  "sharing_cancel = share_frame Cancel sharing_v1_default"

definition status_response :: "response_status \<Rightarrow> sharing_frame" where
  "status_response status =
     share_frame Response (sharing_v1_default\<lparr>sv_connection_response :=
       Some \<lparr>sr_status = Some (status_number status)\<rparr>\<rparr>)"

definition accept_response :: sharing_frame where "accept_response = status_response StAccept"
definition reject_response :: sharing_frame where "reject_response = status_response StReject"
definition timeout_response :: sharing_frame where "timeout_response = status_response StTimedOut"
definition unsupported_response :: sharing_frame where
  "unsupported_response = status_response StUnsupportedAttachmentType"

subsection \<open>Validators\<close>

definition decode_pairing :: "(bytes \<Rightarrow> sharing_frame option) \<Rightarrow> bytes \<Rightarrow> protocol_error + pairing_status" where
  "decode_pairing dec bs =
     (case dec bs of
        None \<Rightarrow> Inl PDecode
      | Some f \<Rightarrow>
        (case sf_v1 f of
           None \<Rightarrow> Inl PInvalidFrame
         | Some v1 \<Rightarrow>
           (case sv_paired_key_result v1 of
              Some result \<Rightarrow>
                if pr_status result = Some PAIRING_UNABLE then Inr Unable else Inl PInvalidFrame
            | None \<Rightarrow>
              (case sv_paired_key_encryption v1 of None \<Rightarrow> Inl PInvalidFrame | Some _ \<Rightarrow> Inr Unable))))"

definition is_cancel :: "(bytes \<Rightarrow> sharing_frame option) \<Rightarrow> bytes \<Rightarrow> protocol_error + bool" where
  "is_cancel dec bs =
     (case dec bs of
        None \<Rightarrow> Inl PDecode
      | Some f \<Rightarrow>
          Inr (sf_version f = Some 1 \<and> Option.bind (sf_v1 f) sv_type = Some (frame_type_number Cancel)))"

fun frame_type_name :: "frame_type \<Rightarrow> string option" where
  "frame_type_name UnknownFrameType = None"
| "frame_type_name Introduction = Some ''introduction''"
| "frame_type_name Response = Some ''response''"
| "frame_type_name PairedKeyEncryption = Some ''paired_key_encryption''"
| "frame_type_name PairedKeyResult = Some ''paired_key_result''"
| "frame_type_name CertificateInfo = Some ''certificate_info''"
| "frame_type_name Cancel = Some ''cancel''"
| "frame_type_name ProgressUpdate = Some ''progress_update''"
| "frame_type_name Bindings = Some ''bindings''"

definition control_event_type :: "(bytes \<Rightarrow> sharing_frame option) \<Rightarrow> bytes \<Rightarrow> string option" where
  "control_event_type dec bs =
     Option.bind (dec bs) (\<lambda>f.
       if sf_version f \<noteq> Some 1 then None
       else Option.bind (sf_v1 f) (\<lambda>v1. Option.bind (sv_type v1) (\<lambda>n.
         Option.bind (frame_type_of n) frame_type_name)))"

definition decode_response ::
  "(bytes \<Rightarrow> sharing_frame option) \<Rightarrow> bytes \<Rightarrow> protocol_error + response_status" where
  "decode_response dec bs =
     (case dec bs of
        None \<Rightarrow> Inl PDecode
      | Some f \<Rightarrow>
        (case (if sf_version f = Some 1 then sf_v1 f else None) of
           None \<Rightarrow> Inl PInvalidFrame
         | Some v1 \<Rightarrow>
             let frame_type = Option.bind (sv_type v1) frame_type_of in
             case (if frame_type = Some Response then sv_connection_response v1 else None) of
               None \<Rightarrow> Inl PInvalidFrame
             | Some response \<Rightarrow>
               (case sr_status response of
                  None \<Rightarrow> Inl PInvalidFrame
                | Some status \<Rightarrow>
                  (case status_of status of None \<Rightarrow> Inl PInvalidFrame | Some s \<Rightarrow> Inr s))))"

fun consent_result :: "response_status \<Rightarrow> protocol_error + unit" where
  "consent_result StAccept = Inr ()"
| "consent_result StTimedOut = Inl PTimedOut"
| "consent_result StUnsupportedAttachmentType = Inl PUnsupported"
| "consent_result _ = Inl PRejected"

subsection \<open>The frames this program builds are the frames it accepts\<close>

lemmas builder_defs = share_frame_def account_free_encryption_def account_free_result_def introduction_def
  text_introduction_def sharing_cancel_def status_response_def sharing_v1_default_def introduction_default_def

lemma decode_introduction:
  assumes "dec bs = Some (introduction name sz)" and "safe_name name" and "0 \<le> sz"
  shows "offer_decode dec bs = Inr (offer_new OFile name sz FILE_PAYLOAD_ID)"
  using assms
  by (simp add: offer_decode_def builder_defs decode_file_def validate_payload_id_def FILE_PAYLOAD_ID_def
      FILE_DOCUMENT_def FILE_ANDROID_APP_def)

definition text_offer_kind :: "text_type \<Rightarrow> offer_kind" where
  "text_offer_kind t = (if t = TtText then OText else OUrl)"

lemma decode_text_introduction:
  assumes "dec bs = Some (text_introduction title sz kind)" and "title \<noteq> []" and "0 \<le> sz" "sz \<le> MAX_TEXT_BYTES"
    and "kind = TtText \<or> kind = TtUrl"
  shows "offer_decode dec bs = Inr (offer_new (text_offer_kind kind) title sz TEXT_PAYLOAD_ID)"
  using assms
  by (auto simp: offer_decode_def builder_defs decode_text_def validate_payload_id_def TEXT_PAYLOAD_ID_def
      text_offer_kind_def text_type_of_def)

lemma decode_status_response:
  "dec bs = Some (status_response s) \<Longrightarrow> decode_response dec bs = Inr s"
  using frame_type_of_number [of Response]
  by (simp add: decode_response_def builder_defs del: frame_type_of_number)

lemma is_cancel_simps:
  "dec bs = Some sharing_cancel \<Longrightarrow> is_cancel dec bs = Inr True"
  "dec bs = Some (status_response s) \<Longrightarrow> is_cancel dec bs = Inr False"
  "dec bs = Some (introduction name sz) \<Longrightarrow> is_cancel dec bs = Inr False"
  "dec bs = Some (text_introduction title sz kind) \<Longrightarrow> is_cancel dec bs = Inr False"
  "dec bs = Some (account_free_encryption d h) \<Longrightarrow> is_cancel dec bs = Inr False"
  "dec bs = Some account_free_result \<Longrightarrow> is_cancel dec bs = Inr False"
  by (simp_all add: is_cancel_def builder_defs)

lemma decode_pairing_simps:
  "dec bs = Some (account_free_encryption d h) \<Longrightarrow> decode_pairing dec bs = Inr Unable"
  "dec bs = Some account_free_result \<Longrightarrow> decode_pairing dec bs = Inr Unable"
  by (simp_all add: decode_pairing_def builder_defs)

text \<open>Consent: only an explicit ACCEPT in a version-1 response frame lets a transfer start.\<close>

lemma consent_only_by_accept:
  "decode_response dec bs = Inr s \<and> consent_result s = Inr () \<longleftrightarrow>
     (\<exists>f v1 r. dec bs = Some f \<and> sf_version f = Some 1 \<and> sf_v1 f = Some v1 \<and>
        sv_type v1 = Some (frame_type_number Response) \<and> sv_connection_response v1 = Some r \<and>
        sr_status r = Some (status_number StAccept) \<and> s = StAccept)"
proof -
  have st: "status_of n = Some StAccept \<longleftrightarrow> n = 1" for n by (simp add: status_of_def)
  have st1: "status_of 1 = Some StAccept" by (simp add: status_of_def)
  have c: "consent_result s = Inr () \<longleftrightarrow> s = StAccept" by (cases s) auto
  show ?thesis
    unfolding c
    by (auto simp: decode_response_def Let_def st st1 bind_eq_Some_conv frame_type_of_Some
        split: option.splits if_splits)
qed

end
