(* ===== verification/Control_Ids.thy ===== *)
theory Control_Ids
  imports Sharing_Frames
begin

text \<open>
  The process-wide counter of control payload identifiers (\<open>NEXT_CONTROL_PAYLOAD_ID\<close> and
  \<open>next_control_payload_id\<close> of \<open>protocol/session.rs\<close>), which every session of the process draws
  from. The function is a load followed by a compare-exchange, repeated until it succeeds; the
  step relation below interleaves any number of threads at that grain.
\<close>

subsection \<open>The counter\<close>

definition next_control_id :: "int \<Rightarrow> int" where
  "next_control_id i = (if i = 2 then 4 else if i = i64_max then 1 else i + 1)"

text \<open>One call that is not interrupted: the identifier it returns and the counter afterwards.\<close>

definition next_control_payload_id :: "int \<Rightarrow> int \<times> int" where
  "next_control_payload_id counter = (counter, next_control_id counter)"

subsection \<open>Any number of threads\<close>

record id_machine =
  im_counter :: int
  im_loaded :: "nat \<Rightarrow> int option"
  im_returned :: "int list"

inductive id_step :: "id_machine \<Rightarrow> id_machine \<Rightarrow> bool" where
  Load: "im_loaded s t = None \<Longrightarrow> id_step s (s\<lparr>im_loaded := (im_loaded s)(t \<mapsto> im_counter s)\<rparr>)"
| Exchange: "im_loaded s t = Some i \<Longrightarrow> im_counter s = i \<Longrightarrow>
    id_step s (s\<lparr>im_counter := next_control_id i, im_loaded := (im_loaded s)(t := None),
      im_returned := im_returned s @ [i]\<rparr>)"
| Retry: "im_loaded s t = Some i \<Longrightarrow> id_step s (s\<lparr>im_loaded := (im_loaded s)(t := None)\<rparr>)"

definition id_start :: id_machine where
  "id_start = \<lparr>im_counter = 1, im_loaded = (\<lambda>_. None), im_returned = []\<rparr>"

inductive_cases id_stepE: "id_step s s'"

subsection \<open>The sequence of identifiers\<close>

definition nth_id :: "nat \<Rightarrow> int" where
  "nth_id k = (next_control_id ^^ k) 1"

lemma nth_id_simps [simp]: "nth_id 0 = 1" "nth_id (Suc k) = next_control_id (nth_id k)"
  by (simp_all add: nth_id_def)

definition ID_PERIOD :: nat where "ID_PERIOD = 9223372036854775806"

lemma nth_id_value: "k < ID_PERIOD \<Longrightarrow> nth_id k = (if k < 2 then int k + 1 else int k + 2)"
  by (induction k) (auto simp: next_control_id_def range_defs ID_PERIOD_def)

lemma nth_id_ok: "1 \<le> nth_id k \<and> nth_id k \<le> i64_max \<and> nth_id k \<noteq> 3"
  by (induction k) (auto simp: next_control_id_def range_defs)

lemma nth_id_inj: "inj_on nth_id {..<ID_PERIOD}"
  by (rule inj_onI) (auto simp: nth_id_value split: if_splits)

lemma id_reachable:
  assumes "id_step\<^sup>*\<^sup>* id_start s"
  shows "im_returned s = map nth_id [0..<length (im_returned s)] \<and> im_counter s = nth_id (length (im_returned s))"
  using assms
proof (induction rule: rtranclp_induct)
  case base
  then show ?case by (simp add: id_start_def)
next
  case (step s s')
  from step.hyps(2) show ?case
    by (cases rule: id_stepE) (use step.IH in auto)
qed

text \<open>
  C33. Control identifiers under concurrency: in every interleaving of any number of threads, the
  identifiers handed out are positive, fit a signed 64-bit integer and are never 3, the identifier
  reserved for the file or text payload; and no identifier is handed out twice among the first
  2^63 - 2 of them, whichever threads receive them.
\<close>

theorem control_ids_unique:
  assumes "id_step\<^sup>*\<^sup>* id_start s"
  shows "(\<forall>i \<in> set (im_returned s). 1 \<le> i \<and> in_i64 i \<and> i \<noteq> FILE_PAYLOAD_ID \<and> i \<noteq> TEXT_PAYLOAD_ID) \<and>
     (length (im_returned s) \<le> ID_PERIOD \<longrightarrow> distinct (im_returned s))"
proof -
  note r = conjunct1 [OF id_reachable [OF assms]]
  have "1 \<le> i \<and> in_i64 i \<and> i \<noteq> 3" if i: "i \<in> set (im_returned s)" for i
  proof -
    from i obtain k where "i = nth_id k" by (subst (asm) r) auto
    then show ?thesis using nth_id_ok [of k] by (simp add: in_i64_def i64_min_def)
  qed
  moreover have "distinct (im_returned s)" if "length (im_returned s) \<le> ID_PERIOD"
    by (subst r) (use that in \<open>auto simp: distinct_map intro: inj_on_subset [OF nth_id_inj]\<close>)
  ultimately show ?thesis by (simp add: FILE_PAYLOAD_ID_def TEXT_PAYLOAD_ID_def)
qed

text \<open>Two threads load the same value; one exchange succeeds, the other must load again.\<close>

definition ex_ids :: id_machine where
  "ex_ids = \<lparr>im_counter = 4, im_loaded = (\<lambda>_. None), im_returned = [1, 2]\<rparr>"

lemma ex_ids_reachable: "id_step\<^sup>*\<^sup>* id_start ex_ids"
proof -
  let ?m = "\<lambda>c l r. \<lparr>im_counter = c, im_loaded = l, im_returned = r\<rparr> :: id_machine"
  let ?n = "\<lambda>_ :: nat. None :: int option"
  have 1: "id_step id_start (?m 1 (?n(0 \<mapsto> 1)) [])"
    using id_step.Load [of id_start 0] by (simp add: id_start_def)
  have 2: "id_step (?m 1 (?n(0 \<mapsto> 1)) []) (?m 1 (?n(0 \<mapsto> 1, 1 \<mapsto> 1)) [])"
    using id_step.Load [of "?m 1 (?n(0 \<mapsto> 1)) []" 1] by simp
  have 3: "id_step (?m 1 (?n(0 \<mapsto> 1, 1 \<mapsto> 1)) []) (?m 2 (?n(1 \<mapsto> 1)) [1])"
    using id_step.Exchange [of "?m 1 (?n(0 \<mapsto> 1, 1 \<mapsto> 1)) []" 0 1]
    by (simp add: next_control_id_def range_defs fun_upd_twist fun_upd_idem)
  have 4: "id_step (?m 2 (?n(1 \<mapsto> 1)) [1]) (?m 2 ?n [1])"
    using id_step.Retry [of "?m 2 (?n(1 \<mapsto> 1)) [1]" 1 1] by (simp add: fun_upd_idem)
  have 5: "id_step (?m 2 ?n [1]) (?m 2 (?n(1 \<mapsto> 2)) [1])"
    using id_step.Load [of "?m 2 ?n [1]" 1] by simp
  have 6: "id_step (?m 2 (?n(1 \<mapsto> 2)) [1]) ex_ids"
    using id_step.Exchange [of "?m 2 (?n(1 \<mapsto> 2)) [1]" 1 2]
    by (simp add: next_control_id_def range_defs ex_ids_def fun_upd_idem)
  show ?thesis
    using 1 2 3 4 5 6 by (meson converse_rtranclp_into_rtranclp rtranclp.rtrancl_refl)
qed

theorem control_ids_unique_witness: "distinct (im_returned ex_ids) \<and> 3 \<notin> set (im_returned ex_ids)"
  using control_ids_unique [OF ex_ids_reachable] by (auto simp: ex_ids_def ID_PERIOD_def FILE_PAYLOAD_ID_def)

end
