(* ===== verification/Sharing_Advertisement.thy ===== *)
theory Sharing_Advertisement
  imports Sharing_Types
begin

unbundle bit_operations_syntax

text \<open>
  The endpoint advertisement and the mDNS instance of \<open>protocol/advertisement.rs\<close>. The base64
  engine (crate \<open>base64\<close>) is a parameter; the code relies on its decoder undoing its encoder.
\<close>

record base64 =
  b64_encode :: "bytes \<Rightarrow> rstring"
  b64_decode :: "rstring \<Rightarrow> bytes option"

definition base64_ok :: "base64 \<Rightarrow> bool" where
  "base64_ok E \<longleftrightarrow> (\<forall>bs. b64_decode E (b64_encode E bs) = Some bs)"

subsection \<open>Endpoint information\<close>

definition MINIMUM_LENGTH :: nat where "MINIMUM_LENGTH = 17"

record endpoint_info =
  ei_version :: byte
  ei_device_type :: byte
  ei_salt :: bytes
  ei_metadata_key :: bytes
  ei_device_name :: "rstring option"
  ei_device_name_length :: byte
  ei_vendor_id :: "byte option"
  ei_capabilities :: bytes
  ei_capabilities_length :: byte

definition u8_of_usize :: "nat \<Rightarrow> byte option" where
  "u8_of_usize n = (if n \<le> 255 then Some (word_of_nat n) else None)"

definition endpoint_info_new ::
  "byte \<Rightarrow> byte \<Rightarrow> bytes \<Rightarrow> bytes \<Rightarrow> rstring option \<Rightarrow> byte option \<Rightarrow> bytes \<Rightarrow> protocol_error + endpoint_info" where
  "endpoint_info_new version device_type salt metadata_key device_name vendor_id capabilities =
     (case u8_of_usize (length capabilities) of
        None \<Rightarrow> Inl PInvalidAdvertisement
      | Some capabilities_length \<Rightarrow>
        (case (case device_name of None \<Rightarrow> Some 0 | Some name \<Rightarrow> u8_of_usize (length name)) of
           None \<Rightarrow> Inl PInvalidAdvertisement
         | Some device_name_length \<Rightarrow>
             if version > 1 \<or> device_type > 6 \<or> (vendor_id \<noteq> None \<and> vendor_id \<noteq> Some 1)
             then Inl PInvalidAdvertisement
             else Inr \<lparr>ei_version = version, ei_device_type = device_type, ei_salt = salt,
               ei_metadata_key = metadata_key, ei_device_name = device_name,
               ei_device_name_length = device_name_length, ei_vendor_id = vendor_id,
               ei_capabilities = capabilities, ei_capabilities_length = capabilities_length\<rparr>))"

definition endpoint_info_encode :: "endpoint_info \<Rightarrow> bytes" where
  "endpoint_info_encode e =
     [push_bit 5 (ei_version e) OR push_bit 4 (if ei_device_name e = None then 1 else 0)
        OR push_bit 1 (ei_device_type e)] @
     ei_salt e @ ei_metadata_key e @
     (case ei_device_name e of None \<Rightarrow> [] | Some name \<Rightarrow> ei_device_name_length e # name) @
     (case ei_vendor_id e of None \<Rightarrow> [] | Some vendor_id \<Rightarrow> [2, 1, vendor_id]) @
     (if ei_capabilities e = [] then [] else [3, ei_capabilities_length e] @ ei_capabilities e)"

text \<open>\<open>bytes.get(offset..offset + length)\<close>.\<close>

definition get_range :: "bytes \<Rightarrow> nat \<Rightarrow> nat \<Rightarrow> bytes option" where
  "get_range bs offset len =
     (if offset + len \<le> length bs then Some (take len (drop offset bs)) else None)"

text \<open>
  The extension loop: \<open>offset\<close> grows by at least two in every turn and never passes the end.
\<close>

function decode_extensions ::
  "bytes \<Rightarrow> nat \<Rightarrow> byte option \<Rightarrow> bytes \<Rightarrow> protocol_error + (byte option \<times> bytes)" where
  "decode_extensions bs offset vendor_id capabilities =
     (if \<not> offset < length bs then Inr (vendor_id, capabilities)
      else if \<not> offset + 1 < length bs then Inl PInvalidAdvertisement
      else
        let kind = bs ! offset; len = unat (bs ! (offset + 1)) in
        case get_range bs (offset + 2) len of
          None \<Rightarrow> Inl PInvalidAdvertisement
        | Some val \<Rightarrow>
            if kind = 2 \<and> length val = 1 then
              decode_extensions bs (offset + 2 + len) (if val ! 0 = 1 then Some 1 else None) capabilities
            else if kind = 2 then Inl PInvalidAdvertisement
            else if kind = 3 then decode_extensions bs (offset + 2 + len) vendor_id val
            else decode_extensions bs (offset + 2 + len) vendor_id capabilities)"
  by pat_completeness auto
termination
  by (relation "measure (\<lambda>(bs, offset, _, _). length bs - offset)") auto

declare decode_extensions.simps [simp del]

definition decode_device_name :: "byte \<Rightarrow> bytes \<Rightarrow> protocol_error + (rstring option \<times> nat)" where
  "decode_device_name first bs =
     (if first AND 16 = 0 then
        (if \<not> MINIMUM_LENGTH < length bs then Inl PInvalidAdvertisement
         else
           let len = unat (bs ! MINIMUM_LENGTH) in
           case get_range bs (MINIMUM_LENGTH + 1) len of
             None \<Rightarrow> Inl PInvalidAdvertisement
           | Some name \<Rightarrow>
               if name = [] then Inl PInvalidAdvertisement
               else case from_utf8 name of
                      None \<Rightarrow> Inl PInvalidAdvertisement
                    | Some s \<Rightarrow> Inr (Some s, MINIMUM_LENGTH + 1 + len))
      else Inr (None, MINIMUM_LENGTH))"

definition endpoint_info_decode :: "bytes \<Rightarrow> protocol_error + endpoint_info" where
  "endpoint_info_decode bs =
     (if length bs < MINIMUM_LENGTH then Inl PInvalidAdvertisement
      else
        let first = bs ! 0; version = drop_bit 5 first; device_type = drop_bit 1 first AND 7 in
        if version > 1 \<or> device_type > 6 then Inl PInvalidAdvertisement
        else
          let salt = take 2 (drop 1 bs); metadata_key = take 14 (drop 3 bs) in
          case decode_device_name first bs of
            Inl e \<Rightarrow> Inl e
          | Inr (device_name, offset) \<Rightarrow>
            (case decode_extensions bs offset None [] of
               Inl e \<Rightarrow> Inl e
             | Inr (vendor_id, capabilities) \<Rightarrow>
                 endpoint_info_new version device_type salt metadata_key device_name vendor_id capabilities))"

definition property :: "base64 \<Rightarrow> endpoint_info \<Rightarrow> rstring" where
  "property E e = b64_encode E (endpoint_info_encode e)"

definition decode_property :: "base64 \<Rightarrow> rstring \<Rightarrow> protocol_error + endpoint_info" where
  "decode_property E v =
     (case b64_decode E v of None \<Rightarrow> Inl PInvalidAdvertisement | Some bs \<Rightarrow> endpoint_info_decode bs)"

subsection \<open>The mDNS instance\<close>

record mdns_instance =
  mi_endpoint_id :: bytes

definition mdns_encode :: "mdns_instance \<Rightarrow> bytes" where
  "mdns_encode i =
     [35, mi_endpoint_id i ! 0, mi_endpoint_id i ! 1, mi_endpoint_id i ! 2, mi_endpoint_id i ! 3,
      252, 159, 94, 0, 0]"

definition mdns_decode :: "bytes \<Rightarrow> protocol_error + mdns_instance" where
  "mdns_decode bs =
     (case bs of
        [t, a, b, c, d, h0, h1, h2, z0, z1] \<Rightarrow>
          if t = 35 \<and> h0 = 252 \<and> h1 = 159 \<and> h2 = 94 \<and> z0 = 0 \<and> z1 = 0
          then Inr \<lparr>mi_endpoint_id = [a, b, c, d]\<rparr>
          else Inl PInvalidMdnsInstance
      | _ \<Rightarrow> Inl PInvalidMdnsInstance)"

definition mdns_label :: "base64 \<Rightarrow> mdns_instance \<Rightarrow> rstring" where
  "mdns_label E i = b64_encode E (mdns_encode i)"

definition decode_label :: "base64 \<Rightarrow> rstring \<Rightarrow> protocol_error + mdns_instance" where
  "decode_label E v =
     (case b64_decode E v of None \<Rightarrow> Inl PInvalidMdnsInstance | Some bs \<Rightarrow> mdns_decode bs)"

subsection \<open>Encoding and decoding agree\<close>

lemma byte_of_unat: "unat b = n \<Longrightarrow> (b :: byte) = word_of_nat n"
  by auto

lemma nat_le_6: "n \<le> (6 :: nat) \<Longrightarrow> n = 0 \<or> n = 1 \<or> n = 2 \<or> n = 3 \<or> n = 4 \<or> n = 5 \<or> n = 6"
  by linarith

lemma byte_le_6: "t \<le> (6 :: byte) \<Longrightarrow> t = 0 \<or> t = 1 \<or> t = 2 \<or> t = 3 \<or> t = 4 \<or> t = 5 \<or> t = 6"
proof -
  assume "t \<le> 6"
  then have "unat t \<le> 6" by (simp add: word_le_nat_alt)
  from nat_le_6 [OF this] show ?thesis by (elim disjE) (drule byte_of_unat, simp)+
qed

lemma byte_le_1: "v \<le> (1 :: byte) \<Longrightarrow> v = 0 \<or> v = 1"
  using byte_of_unat [of v 0] byte_of_unat [of v 1] by (simp add: word_le_nat_alt) linarith

lemma header_bits:
  assumes "v \<le> (1 :: byte)" and "t \<le> (6 :: byte)" and "f = (0 :: byte) \<or> f = 1"
  shows "drop_bit 5 (push_bit 5 v OR push_bit 4 f OR push_bit 1 t) = v"
    and "drop_bit 1 (push_bit 5 v OR push_bit 4 f OR push_bit 1 t) AND 7 = t"
    and "((push_bit 5 v OR push_bit 4 f OR push_bit 1 t) AND 16 = 0) = (f = 0)"
  using byte_le_1 [OF assms(1)] byte_le_6 [OF assms(2)] assms(3) by auto

lemma extensions_end: "decode_extensions bs (length bs) v c = Inr (v, c)"
  by (subst decode_extensions.simps) simp

lemma extensions_vendor:
  "decode_extensions (L @ 2 # 1 # 1 # R) (length L) v c =
     decode_extensions (L @ 2 # 1 # 1 # R) (length L + 3) (Some 1) c"
  by (subst decode_extensions.simps) (simp add: get_range_def nth_append eval_nat_numeral)

lemma extensions_capabilities:
  assumes "length caps \<le> 255"
  shows "decode_extensions (L @ 3 # word_of_nat (length caps) # caps) (length L) v c = Inr (v, caps)"
  using assms extensions_end [of "L @ 3 # word_of_nat (length caps) # caps" v caps]
  by (subst decode_extensions.simps) (simp add: get_range_def nth_append unat_byte_of_nat)

definition extension_bytes :: "byte option \<Rightarrow> bytes \<Rightarrow> bytes" where
  "extension_bytes vendor_id caps =
     (case vendor_id of None \<Rightarrow> [] | Some i \<Rightarrow> [2, 1, i]) @
     (if caps = [] then [] else [3, word_of_nat (length caps)] @ caps)"

lemma extensions_roundtrip:
  assumes "length caps \<le> 255" and "vendor_id = None \<or> vendor_id = Some 1"
  shows "decode_extensions (L @ extension_bytes vendor_id caps) (length L) None [] = Inr (vendor_id, caps)"
proof -
  have c: "decode_extensions (M @ extension_bytes None caps) (length M) v [] = Inr (v, caps)" for M v
    using extensions_capabilities [OF assms(1), of M v] extensions_end [of M v "[]"]
    by (simp add: extension_bytes_def)
  show ?thesis
  proof (cases vendor_id)
    case None
    then show ?thesis using c by simp
  next
    case (Some i)
    then have "extension_bytes vendor_id caps = 2 # 1 # 1 # extension_bytes None caps"
      using assms(2) by (simp add: extension_bytes_def)
    then show ?thesis
      using extensions_vendor [of L "extension_bytes None caps" None "[]"] c [of "L @ [2, 1, 1]" "Some 1"] Some assms(2)
      by (simp add: eval_nat_numeral)
  qed
qed

text \<open>What \<open>new\<close> has accepted.\<close>

lemma endpoint_info_new_Inr:
  "endpoint_info_new v t s k name vid caps = Inr e \<longleftrightarrow>
     v \<le> 1 \<and> t \<le> 6 \<and> (vid = None \<or> vid = Some 1) \<and> length caps \<le> 255 \<and>
     (\<forall>n. name = Some n \<longrightarrow> length n \<le> 255) \<and>
     e = \<lparr>ei_version = v, ei_device_type = t, ei_salt = s, ei_metadata_key = k, ei_device_name = name,
       ei_device_name_length = (case name of None \<Rightarrow> 0 | Some n \<Rightarrow> word_of_nat (length n)), ei_vendor_id = vid,
       ei_capabilities = caps, ei_capabilities_length = word_of_nat (length caps)\<rparr>"
  by (auto simp: endpoint_info_new_def u8_of_usize_def not_less split: option.splits if_splits)

lemma encode_decode_new:
  assumes n: "endpoint_info_new v t s k name vid caps = Inr e" and l: "length s = 2" "length k = 14"
    and u: "\<And>n. name = Some n \<Longrightarrow> n \<noteq> [] \<and> utf8_valid n"
  shows "endpoint_info_decode (endpoint_info_encode e) = Inr e"
proof -
  note i = n [unfolded endpoint_info_new_Inr]
  let ?f = "if name = None then 1 else 0 :: byte"
  let ?h = "push_bit 5 v OR push_bit 4 ?f OR push_bit 1 t"
  let ?name = "case name of None \<Rightarrow> [] | Some n \<Rightarrow> word_of_nat (length n) # n"
  let ?pre = "[?h] @ s @ k @ ?name"
  let ?bs = "?pre @ extension_bytes vid caps"
  have bs: "endpoint_info_encode e = ?bs"
    using i by (simp add: endpoint_info_encode_def extension_bytes_def split: option.splits)
  have hb: "drop_bit 5 ?h = v" "drop_bit 1 ?h AND 7 = t" "(?h AND 16 = 0) = (name \<noteq> None)"
    using header_bits [of v t ?f] i by auto
  have nm: "decode_device_name ?h ?bs = Inr (name, length ?pre)"
  proof (cases name)
    case None
    then show ?thesis using hb(3) l by (simp add: decode_device_name_def MINIMUM_LENGTH_def)
  next
    case (Some n')
    then have "n' \<noteq> []" "utf8_valid n'" "length n' \<le> 255" using u i by auto
    then show ?thesis
      using hb(3) l Some
      by (simp add: decode_device_name_def MINIMUM_LENGTH_def get_range_def nth_append from_utf8_def
          unat_byte_of_nat Let_def)
  qed
  have ext: "decode_extensions ?bs (length ?pre) None [] = Inr (vid, caps)"
    by (rule extensions_roundtrip) (use i in auto)
  have g: "\<not> 1 < v" "\<not> 6 < t" using i by auto
  have "endpoint_info_decode ?bs = endpoint_info_new v t s k name vid caps"
    using hb(1,2) g l nm ext by (simp add: endpoint_info_decode_def MINIMUM_LENGTH_def Let_def)
  then show ?thesis using n bs by simp
qed

lemma decode_InrD:
  assumes "endpoint_info_decode bs = Inr e"
  shows "\<exists>v t s k name vid caps. endpoint_info_new v t s k name vid caps = Inr e \<and> length s = 2 \<and> length k = 14 \<and>
     (\<forall>n. name = Some n \<longrightarrow> n \<noteq> [] \<and> utf8_valid n)"
proof -
  have n: "decode_device_name b bs = Inr (Some n, off) \<Longrightarrow> n \<noteq> [] \<and> utf8_valid n" for b n off
    by (auto simp: decode_device_name_def Let_def from_utf8_def split: if_splits option.splits)
  have l: "17 \<le> length bs" using assms by (auto simp: endpoint_info_decode_def MINIMUM_LENGTH_def split: if_splits)
  from assms obtain name off vid caps where
    d: "decode_device_name (bs ! 0) bs = Inr (name, off)"
    and e: "endpoint_info_new (drop_bit 5 (bs ! 0)) (drop_bit 1 (bs ! 0) AND 7) (take 2 (drop 1 bs))
      (take 14 (drop 3 bs)) name vid caps = Inr e"
    by (auto simp: endpoint_info_decode_def Let_def split: if_splits sum.splits prod.splits)
  show ?thesis
    using e l n d by (intro exI conjI) auto
qed

text \<open>
  C39. An advertisement survives its encoding: whatever \<open>EndpointInfo::new\<close> accepts with a name
  that is absent or non-empty UTF-8 is decoded from its own bytes unchanged, and so is whatever
  \<open>decode\<close> accepts from a peer, also through the DNS-SD property text. In particular the decoder
  never accepts an advertisement that it would not accept again after re-encoding.
\<close>

theorem advertisement_roundtrip:
  assumes "base64_ok E"
    and "(endpoint_info_new v t s k name vid caps = Inr e \<and> length s = 2 \<and> length k = 14 \<and>
         (\<forall>n. name = Some n \<longrightarrow> n \<noteq> [] \<and> utf8_valid n)) \<or>
      endpoint_info_decode bs = Inr e"
  shows "endpoint_info_decode (endpoint_info_encode e) = Inr e \<and> decode_property E (property E e) = Inr e"
proof -
  have "endpoint_info_decode (endpoint_info_encode e) = Inr e"
    using assms(2) encode_decode_new decode_InrD by metis
  then show ?thesis using assms(1) by (simp add: decode_property_def property_def base64_ok_def)
qed

definition ex_base64 :: base64 where
  "ex_base64 = \<lparr>b64_encode = (\<lambda>bs. bs), b64_decode = Some\<rparr>"

lemma ex_base64_ok: "base64_ok ex_base64"
  by (simp add: base64_ok_def ex_base64_def)

theorem advertisement_roundtrip_witness:
  "\<exists>e. endpoint_info_new 1 3 [7, 8] (replicate 14 9) (Some (ascii ''PC'')) (Some 1) [4, 5] = Inr e \<and>
     endpoint_info_decode (endpoint_info_encode e) = Inr e \<and>
     decode_property ex_base64 (property ex_base64 e) = Inr e"
proof -
  obtain e where e: "endpoint_info_new 1 3 [7, 8] (replicate 14 9) (Some (ascii ''PC'')) (Some 1) [4, 5] = Inr e"
    by (simp add: endpoint_info_new_def u8_of_usize_def ascii_def)
  have "\<forall>n. Some (ascii ''PC'') = Some n \<longrightarrow> n \<noteq> [] \<and> utf8_valid n"
    by (simp add: ascii_def in_range_def)
  then show ?thesis
    using advertisement_roundtrip [OF ex_base64_ok, of 1 3 "[7, 8]" "replicate 14 9" "Some (ascii ''PC'')" "Some 1"
      "[4, 5]" e "[]"] e by simp
qed

text \<open>
  The boundary of that statement: \<open>new\<close> accepts an empty device name, whose encoding no decoder
  of the protocol accepts.
\<close>

theorem empty_name_not_decodable:
  assumes "length s = 2" and "length k = 14" and "v \<le> 1" and "t \<le> 6"
  shows "\<exists>e. endpoint_info_new v t s k (Some []) None [] = Inr e \<and>
     endpoint_info_decode (endpoint_info_encode e) = Inl PInvalidAdvertisement"
proof -
  obtain e where e: "endpoint_info_new v t s k (Some []) None [] = Inr e"
    using assms(3,4) by (simp add: endpoint_info_new_Inr)
  have g: "\<not> 1 < v" "\<not> 6 < t" using assms(3,4) by auto
  have "endpoint_info_encode e = [push_bit 5 v OR push_bit 4 0 OR push_bit 1 t] @ s @ k @ [0]"
    using e by (simp add: endpoint_info_new_Inr endpoint_info_encode_def)
  then have "endpoint_info_decode (endpoint_info_encode e) = Inl PInvalidAdvertisement"
    using header_bits [of v t 0] assms g
    by (simp add: endpoint_info_decode_def decode_device_name_def MINIMUM_LENGTH_def get_range_def nth_append Let_def)
  then show ?thesis using e by blast
qed

text \<open>
  The DNS-SD instance label of a four-byte endpoint identifier is decoded to that identifier,
  and the decoder accepts nothing but such labels: bytes it accepts are the encoding of its result.
\<close>

theorem mdns_instance_roundtrip:
  assumes "base64_ok E" and "length i = 4"
  shows "decode_label E (mdns_label E \<lparr>mi_endpoint_id = i\<rparr>) = Inr \<lparr>mi_endpoint_id = i\<rparr> \<and>
     (mdns_decode bs = Inr m \<longrightarrow> bs = mdns_encode m \<and> length (mi_endpoint_id m) = 4)"
proof
  show "decode_label E (mdns_label E \<lparr>mi_endpoint_id = i\<rparr>) = Inr \<lparr>mi_endpoint_id = i\<rparr>"
    using assms
    by (auto simp: decode_label_def mdns_label_def base64_ok_def mdns_decode_def mdns_encode_def
        numeral_eq_Suc length_Suc_conv)
  show "mdns_decode bs = Inr m \<longrightarrow> bs = mdns_encode m \<and> length (mi_endpoint_id m) = 4"
    by (auto simp: mdns_decode_def mdns_encode_def split: list.splits if_splits)
qed

theorem mdns_instance_roundtrip_witness:
  "decode_label ex_base64 (mdns_label ex_base64 \<lparr>mi_endpoint_id = ascii ''ABCD''\<rparr>) =
     Inr \<lparr>mi_endpoint_id = ascii ''ABCD''\<rparr>"
  using mdns_instance_roundtrip [OF ex_base64_ok, of "ascii ''ABCD''" "[]" undefined] by (simp add: ascii_def)

end
