(* ===== verification/Ukey2_Handshake.thy ===== *)
theory Ukey2_Handshake
  imports Secure_Channel
begin

text \<open>
  The three-message UKEY2 exchange of \<open>crates/core/crypto/src/lib.rs\<close> as a state machine:
  \<open>next_message\<close> and \<open>receive\<close> update the exchange, \<open>complete\<close> derives the authentication
  token and the two directions of the secure channel. The main result runs an initiator
  against a responder: both complete, with the same token and with channels in step in both
  directions.
\<close>

datatype role = Initiator | Responder

datatype hs_state = Start | WaitForPeer | SendFinish | Complete

record ('sk, 'pk) handshake =
  hs_role :: role
  hs_random :: bytes
  hs_secret :: 'sk
  hs_phase :: hs_state
  hs_client_init :: "bytes option"
  hs_server_init :: "bytes option"
  hs_commitment :: "bytes option"
  hs_peer_key :: "'pk option"

record completed_handshake =
  authentication_token :: bytes
  ch_channel :: secure_channel

definition AUTH_SALT :: bytes where "AUTH_SALT = ascii ''UKEY2 v1 auth'' @ [0]"
definition NEXT_SALT :: bytes where "NEXT_SALT = ascii ''UKEY2 v1 next''"
definition NEXT_PROTOCOL :: rstring where "NEXT_PROTOCOL = ascii ''AES_256_CBC-HMAC_SHA256''"
definition UKEY2_VERSION :: int where "UKEY2_VERSION = 1"
definition P256_SHA512 :: int where "P256_SHA512 = 100"
definition CLIENT_INIT :: int where "CLIENT_INIT = 2"
definition SERVER_INIT :: int where "SERVER_INIT = 3"
definition CLIENT_FINISH :: int where "CLIENT_FINISH = 4"

text \<open>\<open>None\<close> is the panic of \<open>SecretKey::from_slice(..).expect(..)\<close>.\<close>

definition handshake_new ::
  "('sk, 'pk) crypto \<Rightarrow> role \<Rightarrow> bytes \<Rightarrow> bytes \<Rightarrow> ('sk, 'pk) handshake option" where
  "handshake_new P r random secret =
     (case ec_secret P secret of
        None \<Rightarrow> None
      | Some sk \<Rightarrow>
          Some \<lparr>hs_role = r, hs_random = random, hs_secret = sk, hs_phase = Start,
                hs_client_init = None, hs_server_init = None, hs_commitment = None,
                hs_peer_key = None\<rparr>)"

definition ukey2_wrap :: "('sk, 'pk) crypto \<Rightarrow> int \<Rightarrow> bytes \<Rightarrow> bytes" where
  "ukey2_wrap P kind data =
     enc_ukey2 P \<lparr>um_message_type = Some kind, um_message_data = Some data\<rparr>"

definition ukey2_unwrap :: "('sk, 'pk) crypto \<Rightarrow> bytes \<Rightarrow> int \<Rightarrow> handshake_error + bytes" where
  "ukey2_unwrap P bs expected =
     (case dec_ukey2 P bs of
        None \<Rightarrow> Inl HInvalidMessage
      | Some m \<Rightarrow>
          if um_message_type m \<noteq> Some expected then Inl HInvalidMessage
          else (case um_message_data m of None \<Rightarrow> Inl HInvalidField | Some d \<Rightarrow> Inr d))"

text \<open>The message both \<open>client_init\<close> (to commit to) and \<open>client_finish\<close> (to send) build.\<close>

definition finish_message :: "('sk, 'pk) crypto \<Rightarrow> 'sk \<Rightarrow> handshake_error + bytes" where
  "finish_message P sk =
     (case public_key P sk of
        Inl e \<Rightarrow> Inl e
      | Inr k \<Rightarrow>
          Inr (ukey2_wrap P CLIENT_FINISH
                 (enc_client_finished P \<lparr>cf_public_key = Some (enc_pubkey P k)\<rparr>)))"

definition client_init ::
  "('sk, 'pk) crypto \<Rightarrow> ('sk, 'pk) handshake \<Rightarrow> (handshake_error + bytes) \<times> ('sk, 'pk) handshake" where
  "client_init P h =
     (case finish_message P (hs_secret h) of
        Inl e \<Rightarrow> (Inl e, h)
      | Inr finish \<Rightarrow>
          let body = enc_client_init P
                \<lparr>ci_version = Some UKEY2_VERSION, ci_random = Some (hs_random h),
                 ci_cipher_commitments =
                   [\<lparr>cc_handshake_cipher = Some P256_SHA512, cc_commitment = Some (sha512 P finish)\<rparr>],
                 ci_next_protocol = Some NEXT_PROTOCOL\<rparr>;
              message = ukey2_wrap P CLIENT_INIT body
          in (Inr message, h\<lparr>hs_client_init := Some message, hs_phase := WaitForPeer\<rparr>))"

text \<open>\<open>find_map\<close> over the offered commitments, then the filter on empty ones.\<close>

fun find_commitment :: "cipher_commitment list \<Rightarrow> bytes option" where
  "find_commitment [] = None"
| "find_commitment (c # cs) =
     (if cc_handshake_cipher c = Some P256_SHA512 \<and> cc_commitment c \<noteq> None
      then cc_commitment c else find_commitment cs)"

definition bad_random :: "bytes option \<Rightarrow> bool" where
  "bad_random r = (case r of None \<Rightarrow> True | Some v \<Rightarrow> length v \<noteq> KEY_LENGTH)"

definition receive_client_init ::
  "('sk, 'pk) crypto \<Rightarrow> bytes \<Rightarrow> ('sk, 'pk) handshake \<Rightarrow> (handshake_error + unit) \<times> ('sk, 'pk) handshake" where
  "receive_client_init P bs h =
     (case ukey2_unwrap P bs CLIENT_INIT of
        Inl e \<Rightarrow> (Inl e, h)
      | Inr body \<Rightarrow>
        (case dec_client_init P body of
           None \<Rightarrow> (Inl HInvalidMessage, h)
         | Some init \<Rightarrow>
             if ci_version init \<noteq> Some UKEY2_VERSION \<or> bad_random (ci_random init)
             then (Inl HInvalidField, h)
             else if ci_next_protocol init \<noteq> Some NEXT_PROTOCOL then (Inl HUnsupported, h)
             else
               (case find_commitment (ci_cipher_commitments init) of
                  None \<Rightarrow> (Inl HUnsupported, h)
                | Some com \<Rightarrow>
                    if com = [] then (Inl HUnsupported, h)
                    else (Inr (), h\<lparr>hs_client_init := Some bs, hs_commitment := Some com,
                                    hs_phase := WaitForPeer\<rparr>))))"

definition server_init ::
  "('sk, 'pk) crypto \<Rightarrow> ('sk, 'pk) handshake \<Rightarrow> (handshake_error + bytes) \<times> ('sk, 'pk) handshake" where
  "server_init P h =
     (case public_key P (hs_secret h) of
        Inl e \<Rightarrow> (Inl e, h)
      | Inr k \<Rightarrow>
          let message = ukey2_wrap P SERVER_INIT (enc_server_init P
                \<lparr>si_version = Some UKEY2_VERSION, si_random = Some (hs_random h),
                 si_handshake_cipher = Some P256_SHA512, si_public_key = Some (enc_pubkey P k)\<rparr>)
          in (Inr message, h\<lparr>hs_server_init := Some message\<rparr>))"

definition receive_server_init ::
  "('sk, 'pk) crypto \<Rightarrow> bytes \<Rightarrow> ('sk, 'pk) handshake \<Rightarrow> (handshake_error + unit) \<times> ('sk, 'pk) handshake" where
  "receive_server_init P bs h =
     (case ukey2_unwrap P bs SERVER_INIT of
        Inl e \<Rightarrow> (Inl e, h)
      | Inr body \<Rightarrow>
        (case dec_server_init P body of
           None \<Rightarrow> (Inl HInvalidMessage, h)
         | Some init \<Rightarrow>
             if si_version init \<noteq> Some UKEY2_VERSION \<or> bad_random (si_random init)
             then (Inl HInvalidField, h)
             else if si_handshake_cipher init \<noteq> Some P256_SHA512 then (Inl HUnsupported, h)
             else
               (case si_public_key init of
                  None \<Rightarrow> (Inl HInvalidField, h)
                | Some raw \<Rightarrow>
                  (case parse_public_key P raw of
                     Inl e \<Rightarrow> (Inl e, h)
                   | Inr pk \<Rightarrow>
                       (Inr (), h\<lparr>hs_peer_key := Some pk, hs_server_init := Some bs,
                                  hs_phase := SendFinish\<rparr>)))))"

definition client_finish ::
  "('sk, 'pk) crypto \<Rightarrow> ('sk, 'pk) handshake \<Rightarrow> (handshake_error + bytes) \<times> ('sk, 'pk) handshake" where
  "client_finish P h =
     (case finish_message P (hs_secret h) of
        Inl e \<Rightarrow> (Inl e, h)
      | Inr message \<Rightarrow> (Inr message, h\<lparr>hs_phase := Complete\<rparr>))"

definition receive_client_finish ::
  "('sk, 'pk) crypto \<Rightarrow> bytes \<Rightarrow> ('sk, 'pk) handshake \<Rightarrow> (handshake_error + unit) \<times> ('sk, 'pk) handshake" where
  "receive_client_finish P bs h =
     (case hs_commitment h of
        None \<Rightarrow> (Inl HInvalidState, h)
      | Some com \<Rightarrow>
          if sha512 P bs \<noteq> com then (Inl HCommitment, h)
          else
            (case ukey2_unwrap P bs CLIENT_FINISH of
               Inl e \<Rightarrow> (Inl e, h)
             | Inr body \<Rightarrow>
               (case dec_client_finished P body of
                  None \<Rightarrow> (Inl HInvalidMessage, h)
                | Some finish \<Rightarrow>
                  (case cf_public_key finish of
                     None \<Rightarrow> (Inl HInvalidField, h)
                   | Some raw \<Rightarrow>
                     (case parse_public_key P raw of
                        Inl e \<Rightarrow> (Inl e, h)
                      | Inr pk \<Rightarrow> (Inr (), h\<lparr>hs_peer_key := Some pk, hs_phase := Complete\<rparr>))))))"

definition next_message ::
  "('sk, 'pk) crypto \<Rightarrow> ('sk, 'pk) handshake \<Rightarrow> (handshake_error + bytes) \<times> ('sk, 'pk) handshake" where
  "next_message P h =
     (case (hs_role h, hs_phase h) of
        (Initiator, Start) \<Rightarrow> client_init P h
      | (Responder, WaitForPeer) \<Rightarrow> server_init P h
      | (Initiator, SendFinish) \<Rightarrow> client_finish P h
      | _ \<Rightarrow> (Inl HInvalidState, h))"

definition hs_receive ::
  "('sk, 'pk) crypto \<Rightarrow> bytes \<Rightarrow> ('sk, 'pk) handshake \<Rightarrow> (handshake_error + unit) \<times> ('sk, 'pk) handshake" where
  "hs_receive P bs h =
     (case (hs_role h, hs_phase h) of
        (Responder, Start) \<Rightarrow> receive_client_init P bs h
      | (Initiator, WaitForPeer) \<Rightarrow> receive_server_init P bs h
      | (Responder, WaitForPeer) \<Rightarrow> receive_client_finish P bs h
      | _ \<Rightarrow> (Inl HInvalidState, h))"

text \<open>\<open>None\<close> is the panic inside \<open>SecureChannel::new\<close>.\<close>

definition derive_outputs ::
  "('sk, 'pk) crypto \<Rightarrow> role \<Rightarrow> bytes \<Rightarrow> bytes \<Rightarrow> (handshake_error + completed_handshake) option" where
  "derive_outputs P r shared transcript =
     (case derive P shared AUTH_SALT transcript of
        None \<Rightarrow> Some (Inl HKeyAgreement)
      | Some tok \<Rightarrow>
        (case derive P shared NEXT_SALT transcript of
           None \<Rightarrow> Some (Inl HKeyAgreement)
         | Some master \<Rightarrow>
           (case d2d_key P master (ascii ''client'') of
              None \<Rightarrow> Some (Inl HKeyAgreement)
            | Some client \<Rightarrow>
              (case d2d_key P master (ascii ''server'') of
                 None \<Rightarrow> Some (Inl HKeyAgreement)
               | Some server \<Rightarrow>
                   map_option (\<lambda>c. Inr \<lparr>authentication_token = tok, ch_channel = c\<rparr>)
                     (case r of
                        Initiator \<Rightarrow> channel_new P client server
                      | Responder \<Rightarrow> channel_new P server client)))))"

definition hs_complete ::
  "('sk, 'pk) crypto \<Rightarrow> ('sk, 'pk) handshake \<Rightarrow> (handshake_error + completed_handshake) option" where
  "hs_complete P h =
     (if hs_phase h \<noteq> Complete then Some (Inl HInvalidState)
      else
        (case hs_client_init h of
           None \<Rightarrow> Some (Inl HInvalidState)
         | Some ci \<Rightarrow>
           (case hs_server_init h of
              None \<Rightarrow> Some (Inl HInvalidState)
            | Some si \<Rightarrow>
              (case hs_peer_key h of
                 None \<Rightarrow> Some (Inl HInvalidState)
               | Some pk \<Rightarrow>
                   derive_outputs P (hs_role h) (sha256 P (ec_dh P (hs_secret h) pk)) (ci @ si)))))"

subsection \<open>Runs of one side\<close>

text \<open>One side of the exchange: any sequence of messages received and messages requested.\<close>

datatype hs_op = HsNext | HsReceive bytes

fun hs_step :: "('sk, 'pk) crypto \<Rightarrow> hs_op \<Rightarrow> ('sk, 'pk) handshake \<Rightarrow> ('sk, 'pk) handshake" where
  "hs_step P HsNext h = snd (next_message P h)"
| "hs_step P (HsReceive bs) h = snd (hs_receive P bs h)"

lemmas hs_handler_defs =
  client_init_def receive_client_init_def server_init_def receive_server_init_def
  client_finish_def receive_client_finish_def

lemma next_message_cases:
  "next_message P h =
     (if hs_role h = Initiator \<and> hs_phase h = Start then client_init P h
      else if hs_role h = Responder \<and> hs_phase h = WaitForPeer then server_init P h
      else if hs_role h = Initiator \<and> hs_phase h = SendFinish then client_finish P h
      else (Inl HInvalidState, h))"
  by (cases "hs_role h"; cases "hs_phase h") (simp_all add: next_message_def)

lemma hs_receive_cases:
  "hs_receive P bs h =
     (if hs_role h = Responder \<and> hs_phase h = Start then receive_client_init P bs h
      else if hs_role h = Initiator \<and> hs_phase h = WaitForPeer then receive_server_init P bs h
      else if hs_role h = Responder \<and> hs_phase h = WaitForPeer then receive_client_finish P bs h
      else (Inl HInvalidState, h))"
  by (cases "hs_role h"; cases "hs_phase h") (simp_all add: hs_receive_def)

text \<open>A commitment was announced in \<open>ci\<close>: what \<open>receive_client_init\<close> extracts from it.\<close>

definition announces :: "('sk, 'pk) crypto \<Rightarrow> bytes \<Rightarrow> bytes \<Rightarrow> bool" where
  "announces P ci com \<longleftrightarrow>
     (\<exists>body init. ukey2_unwrap P ci CLIENT_INIT = Inr body \<and> dec_client_init P body = Some init \<and>
        ci_version init = Some UKEY2_VERSION \<and> ci_next_protocol init = Some NEXT_PROTOCOL \<and>
        find_commitment (ci_cipher_commitments init) = Some com \<and> com \<noteq> [])"

definition finish_key :: "('sk, 'pk) crypto \<Rightarrow> bytes \<Rightarrow> 'pk \<Rightarrow> bool" where
  "finish_key P fin pk \<longleftrightarrow>
     (\<exists>body f raw. ukey2_unwrap P fin CLIENT_FINISH = Inr body \<and> dec_client_finished P body = Some f \<and>
        cf_public_key f = Some raw \<and> parse_public_key P raw = Inr pk)"

definition responder_inv :: "('sk, 'pk) crypto \<Rightarrow> ('sk, 'pk) handshake \<Rightarrow> bool" where
  "responder_inv P h \<longleftrightarrow>
     hs_role h = Responder \<and> hs_phase h \<noteq> SendFinish \<and>
     (hs_phase h = Start \<longrightarrow> hs_peer_key h = None \<and> hs_server_init h = None) \<and>
     (hs_phase h \<noteq> Start \<longrightarrow>
        (\<exists>ci com. hs_client_init h = Some ci \<and> hs_commitment h = Some com \<and> announces P ci com)) \<and>
     (hs_phase h = Complete \<longrightarrow>
        (\<exists>fin pk. hs_peer_key h = Some pk \<and> hs_commitment h = Some (sha512 P fin) \<and> finish_key P fin pk))"

lemma receive_client_init_Inr:
  "receive_client_init P bs h = (Inr (), h') \<Longrightarrow>
     \<exists>com. announces P bs com \<and>
       h' = h\<lparr>hs_client_init := Some bs, hs_commitment := Some com, hs_phase := WaitForPeer\<rparr>"
  by (auto simp: receive_client_init_def announces_def split: sum.splits option.splits if_splits)

lemma receive_client_finish_Inr:
  "receive_client_finish P bs h = (Inr (), h') \<Longrightarrow>
     \<exists>pk. hs_commitment h = Some (sha512 P bs) \<and> finish_key P bs pk \<and>
       h' = h\<lparr>hs_peer_key := Some pk, hs_phase := Complete\<rparr>"
  by (auto simp: receive_client_finish_def finish_key_def split: sum.splits option.splits if_splits)

lemma next_message_Inl: "next_message P h = (Inl e, h') \<Longrightarrow> h' = h"
  by (auto simp: next_message_cases hs_handler_defs Let_def split: sum.splits option.splits if_splits)

lemma hs_receive_Inl: "hs_receive P bs h = (Inl e, h') \<Longrightarrow> h' = h"
  by (auto simp: hs_receive_cases hs_handler_defs Let_def split: sum.splits option.splits if_splits)

lemma server_init_state:
  "snd (server_init P h) = h \<or> (\<exists>m. snd (server_init P h) = h\<lparr>hs_server_init := Some m\<rparr>)"
  by (auto simp: server_init_def Let_def split: sum.splits)

lemma responder_inv_next: "responder_inv P h \<Longrightarrow> responder_inv P (snd (next_message P h))"
  using server_init_state [of P h] by (auto simp: next_message_cases responder_inv_def)

lemma responder_inv_receive:
  assumes inv: "responder_inv P h"
  shows "responder_inv P (snd (hs_receive P bs h))"
proof (cases "hs_receive P bs h")
  case (Pair res h')
  show ?thesis
  proof (cases res)
    case (Inl e)
    then show ?thesis using hs_receive_Inl [of P bs h e h'] Pair inv by simp
  next
    case (Inr u)
    then have "receive_client_init P bs h = (Inr (), h') \<and> hs_phase h = Start \<or>
        receive_client_finish P bs h = (Inr (), h') \<and> hs_phase h = WaitForPeer"
      using Pair inv by (auto simp: hs_receive_cases responder_inv_def split: if_splits)
    then show ?thesis
      using inv Pair
      by (auto simp: responder_inv_def dest!: receive_client_init_Inr receive_client_finish_Inr)
  qed
qed

interpretation responder: step_invariant "hs_step P"
  "\<lparr>hs_role = Responder, hs_random = random, hs_secret = sk, hs_phase = Start,
    hs_client_init = None, hs_server_init = None, hs_commitment = None, hs_peer_key = None\<rparr>"
  "responder_inv P" "\<lambda>_ _. True"
  for P random sk
proof unfold_locales
  show "responder_inv P \<lparr>hs_role = Responder, hs_random = random, hs_secret = sk, hs_phase = Start,
    hs_client_init = None, hs_server_init = None, hs_commitment = None, hs_peer_key = None\<rparr>"
    by (simp add: responder_inv_def)
  show "responder_inv P (hs_step P x s)" if "responder_inv P s" for x s
    using that responder_inv_next responder_inv_receive by (cases x) auto
qed

lemma responder_reachable:
  assumes "handshake_new P Responder random secret = Some h0"
  shows "responder_inv P (run (hs_step P) ops h0)"
  using assms responder.inv_run [OF allowed_run_all, of P ops random]
  by (auto simp: handshake_new_def split: option.splits)

text \<open>
  C9. Key commitment. Whatever a peer sends, in whatever order, a responder that reaches
  the end of the exchange has taken its peer key from a message whose SHA-512 digest is the
  commitment that the recorded first message announced.
\<close>

theorem responder_key_committed:
  assumes "handshake_new P Responder random secret = Some h0"
    and "hs_phase (run (hs_step P) ops h0) = Complete"
  shows "\<exists>ci fin pk. hs_client_init (run (hs_step P) ops h0) = Some ci \<and>
     announces P ci (sha512 P fin) \<and> finish_key P fin pk \<and>
     hs_peer_key (run (hs_step P) ops h0) = Some pk"
  using responder_reachable [OF assms(1), of ops] assms(2) by (auto simp: responder_inv_def)

subsection \<open>An initiator against a responder\<close>

lemma finish_message_ok:
  assumes "ukey2_ok P"
  shows "\<exists>fin pk. finish_message P sk = Inr fin \<and> ec_public P (ec_point P sk) = Some pk \<and>
     (\<forall>r. hs_commitment r = Some (sha512 P fin) \<longrightarrow>
        receive_client_finish P fin r = (Inr (), r\<lparr>hs_peer_key := Some pk, hs_phase := Complete\<rparr>))"
  using parse_public_key_of [OF assms, of sk]
  by (auto simp: finish_message_def receive_client_finish_def ukey2_unwrap_def ukey2_wrap_def
      ukey2_okD [OF assms])

lemma client_init_ok:
  assumes P: "ukey2_ok P" and fin: "finish_message P (hs_secret h) = Inr fin"
    and len: "length (hs_random h) = KEY_LENGTH"
  shows "\<exists>m. client_init P h = (Inr m, h\<lparr>hs_client_init := Some m, hs_phase := WaitForPeer\<rparr>) \<and>
     receive_client_init P m r =
       (Inr (), r\<lparr>hs_client_init := Some m, hs_commitment := Some (sha512 P fin), hs_phase := WaitForPeer\<rparr>)"
  using fin len
  by (auto simp: client_init_def receive_client_init_def ukey2_unwrap_def ukey2_wrap_def
      ukey2_okD [OF P] bad_random_def Let_def)

lemma server_init_ok:
  assumes P: "ukey2_ok P" and len: "length (hs_random h) = KEY_LENGTH"
  shows "\<exists>m pk. ec_public P (ec_point P (hs_secret h)) = Some pk \<and>
     server_init P h = (Inr m, h\<lparr>hs_server_init := Some m\<rparr>) \<and>
     receive_server_init P m i =
       (Inr (), i\<lparr>hs_peer_key := Some pk, hs_server_init := Some m, hs_phase := SendFinish\<rparr>)"
  using parse_public_key_of [OF P, of "hs_secret h"] len
  by (auto simp: server_init_def receive_server_init_def ukey2_unwrap_def ukey2_wrap_def
      ukey2_okD [OF P] bad_random_def Let_def)

lemma keys_of_ok:
  assumes "ukey2_ok P"
  shows "\<exists>k. keys_of P master = Some k \<and> length (k_encryption k) = KEY_LENGTH"
proof -
  note d = ukey2_okD(7) [OF assms, of master "sha256 P SECURE_MESSAGE_SALT"]
  obtain e s where "derive P master (sha256 P SECURE_MESSAGE_SALT) (ascii ''ENC:2'') = Some e"
    "length e = 32" "derive P master (sha256 P SECURE_MESSAGE_SALT) (ascii ''SIG:1'') = Some s"
    using d by blast
  then show ?thesis by (simp add: keys_of_def KEY_LENGTH_def)
qed

text \<open>The two ends of an exchange: mirrored channels at sequence number zero.\<close>

definition mirrored :: "('sk, 'pk) crypto \<Rightarrow> secure_channel \<Rightarrow> secure_channel \<Rightarrow> bool" where
  "mirrored P a b \<longleftrightarrow> in_step P a b \<and> in_step P b a \<and>
     send_sequence a = 0 \<and> send_sequence b = 0 \<and>
     length (k_encryption (sc_send a)) = KEY_LENGTH \<and> length (k_encryption (sc_send b)) = KEY_LENGTH"

lemma derive_outputs_ok:
  assumes S: "sym_ok P" and P: "ukey2_ok P"
  shows "\<exists>A B. derive_outputs P Initiator s t = Some (Inr A) \<and>
     derive_outputs P Responder s t = Some (Inr B) \<and>
     authentication_token A = authentication_token B \<and> length (authentication_token A) = 32 \<and>
     mirrored P (ch_channel A) (ch_channel B)"
proof -
  note d = ukey2_okD(7) [OF P]
  obtain tok master where t: "derive P s AUTH_SALT t = Some tok" "length tok = 32"
    and m: "derive P s NEXT_SALT t = Some master"
    using d [of s AUTH_SALT t] d [of s NEXT_SALT t] by blast
  obtain c v where c: "d2d_key P master (ascii ''client'') = Some c"
    and v: "d2d_key P master (ascii ''server'') = Some v"
    using d by (metis d2d_key_def)
  obtain kc kv where "keys_of P c = Some kc" "length (k_encryption kc) = KEY_LENGTH"
    "keys_of P v = Some kv" "length (k_encryption kv) = KEY_LENGTH"
    using keys_of_ok [OF P] by metis
  then show ?thesis
    using S t m c v by (simp add: derive_outputs_def channel_new_def mirrored_def in_step_def)
qed

lemma exchange_completes:
  assumes S: "sym_ok P" and P: "ukey2_ok P"
    and i: "handshake_new P Initiator ra sa = Some i" and ra: "length ra = KEY_LENGTH"
    and r: "handshake_new P Responder rb sb = Some r" and rb: "length rb = KEY_LENGTH"
  shows "\<exists>m1 m2 m3 i1 i2 i3 r1 r2 r3 A B.
     next_message P i = (Inr m1, i1) \<and> hs_receive P m1 r = (Inr (), r1) \<and>
     next_message P r1 = (Inr m2, r2) \<and> hs_receive P m2 i1 = (Inr (), i2) \<and>
     next_message P i2 = (Inr m3, i3) \<and> hs_receive P m3 r2 = (Inr (), r3) \<and>
     hs_complete P i3 = Some (Inr A) \<and> hs_complete P r3 = Some (Inr B) \<and>
     authentication_token A = authentication_token B \<and> length (authentication_token A) = 32 \<and>
     mirrored P (ch_channel A) (ch_channel B)"
proof -
  obtain ka kb where ik: "i = \<lparr>hs_role = Initiator, hs_random = ra, hs_secret = ka, hs_phase = Start,
        hs_client_init = None, hs_server_init = None, hs_commitment = None, hs_peer_key = None\<rparr>"
    and rk: "r = \<lparr>hs_role = Responder, hs_random = rb, hs_secret = kb, hs_phase = Start,
        hs_client_init = None, hs_server_init = None, hs_commitment = None, hs_peer_key = None\<rparr>"
    using i r by (auto simp: handshake_new_def split: option.splits)
  obtain fin pa where fin: "finish_message P ka = Inr fin" and pa: "ec_public P (ec_point P ka) = Some pa"
    and recv: "\<And>r :: ('a, 'b) handshake. hs_commitment r = Some (sha512 P fin) \<Longrightarrow>
        receive_client_finish P fin r = (Inr (), r\<lparr>hs_peer_key := Some pa, hs_phase := Complete\<rparr>)"
    using finish_message_ok [OF P, of ka] by blast
  obtain m1 where m1: "client_init P i = (Inr m1, i\<lparr>hs_client_init := Some m1, hs_phase := WaitForPeer\<rparr>)"
    "receive_client_init P m1 r = (Inr (), r\<lparr>hs_client_init := Some m1,
        hs_commitment := Some (sha512 P fin), hs_phase := WaitForPeer\<rparr>)"
    using client_init_ok [OF P, of i fin r] fin ra ik by auto
  let ?r1 = "r\<lparr>hs_client_init := Some m1, hs_commitment := Some (sha512 P fin), hs_phase := WaitForPeer\<rparr>"
  let ?i1 = "i\<lparr>hs_client_init := Some m1, hs_phase := WaitForPeer\<rparr>"
  obtain m2 pb where pb: "ec_public P (ec_point P kb) = Some pb"
    and m2: "server_init P ?r1 = (Inr m2, ?r1\<lparr>hs_server_init := Some m2\<rparr>)"
      "receive_server_init P m2 ?i1 =
         (Inr (), ?i1\<lparr>hs_peer_key := Some pb, hs_server_init := Some m2, hs_phase := SendFinish\<rparr>)"
    using server_init_ok [OF P, of ?r1 ?i1] rb rk by auto
  have dh: "ec_dh P ka pb = ec_dh P kb pa"
    using P pa pb unfolding ukey2_ok_def by blast
  obtain A B where AB: "derive_outputs P Initiator (sha256 P (ec_dh P ka pb)) (m1 @ m2) = Some (Inr A)"
      "derive_outputs P Responder (sha256 P (ec_dh P ka pb)) (m1 @ m2) = Some (Inr B)"
    and out: "authentication_token A = authentication_token B" "length (authentication_token A) = 32"
      "mirrored P (ch_channel A) (ch_channel B)"
    using derive_outputs_ok [OF S P] by blast
  show ?thesis
    using m1 m2 recv fin AB out dh
    by (simp add: ik rk next_message_def hs_receive_def client_finish_def hs_complete_def)
qed


text \<open>
  C8. An exchange between an initiator and a responder of this implementation, whatever
  their randomness and secrets: all three messages are accepted, both sides complete, they
  hold the same 32-byte authentication token, and their channels mirror each other, so that
  what either sends the other can read.
\<close>

theorem handshake_agreement:
  assumes S: "sym_ok P" and P: "ukey2_ok P"
    and i: "handshake_new P Initiator ra sa = Some i" and ra: "length ra = KEY_LENGTH"
    and r: "handshake_new P Responder rb sb = Some r" and rb: "length rb = KEY_LENGTH"
  shows "\<exists>m1 m2 m3 i1 i2 i3 r1 r2 r3 A B.
     next_message P i = (Inr m1, i1) \<and> hs_receive P m1 r = (Inr (), r1) \<and>
     next_message P r1 = (Inr m2, r2) \<and> hs_receive P m2 i1 = (Inr (), i2) \<and>
     next_message P i2 = (Inr m3, i3) \<and> hs_receive P m3 r2 = (Inr (), r3) \<and>
     hs_complete P i3 = Some (Inr A) \<and> hs_complete P r3 = Some (Inr B) \<and>
     authentication_token A = authentication_token B \<and> length (authentication_token A) = 32 \<and>
     mirrored P (ch_channel A) (ch_channel B)"
  using assms by (rule exchange_completes)

lemma ex_handshakes:
  "\<exists>i r. handshake_new ex_crypto Initiator (replicate 32 1) (replicate 32 2) = Some i \<and>
     handshake_new ex_crypto Responder (replicate 32 3) (replicate 32 4) = Some r"
  by (simp add: handshake_new_def ex_crypto_def)

theorem handshake_agreement_witness:
  "\<exists>i r m1 m2 m3 i1 i2 i3 r1 r2 r3 A B.
     handshake_new ex_crypto Initiator (replicate 32 1) (replicate 32 2) = Some i \<and>
     handshake_new ex_crypto Responder (replicate 32 3) (replicate 32 4) = Some r \<and>
     next_message ex_crypto i = (Inr m1, i1) \<and> hs_receive ex_crypto m1 r = (Inr (), r1) \<and>
     next_message ex_crypto r1 = (Inr m2, r2) \<and> hs_receive ex_crypto m2 i1 = (Inr (), i2) \<and>
     next_message ex_crypto i2 = (Inr m3, i3) \<and> hs_receive ex_crypto m3 r2 = (Inr (), r3) \<and>
     hs_complete ex_crypto i3 = Some (Inr A) \<and> hs_complete ex_crypto r3 = Some (Inr B) \<and>
     mirrored ex_crypto (ch_channel A) (ch_channel B)"
proof -
  obtain i r where h: "handshake_new ex_crypto Initiator (replicate 32 1) (replicate 32 2) = Some i"
    "handshake_new ex_crypto Responder (replicate 32 3) (replicate 32 4) = Some r"
    using ex_handshakes by blast
  show ?thesis
    using handshake_agreement [OF ex_crypto_sym_ok ex_crypto_ukey2_ok h(1) _ h(2)] h
    by (simp add: KEY_LENGTH_def) blast
qed

lemma ex_responder_completes:
  "\<exists>h0 ops. handshake_new ex_crypto Responder (replicate 32 3) (replicate 32 4) = Some h0 \<and>
     hs_phase (run (hs_step ex_crypto) ops h0) = Complete"
proof -
  obtain i r where h: "handshake_new ex_crypto Initiator (replicate 32 1) (replicate 32 2) = Some i"
    "handshake_new ex_crypto Responder (replicate 32 3) (replicate 32 4) = Some r"
    using ex_handshakes by blast
  obtain m1 m2 m3 r1 r2 r3 B where x: "hs_receive ex_crypto m1 r = (Inr (), r1)"
    "next_message ex_crypto r1 = (Inr m2, r2)" "hs_receive ex_crypto m3 r2 = (Inr (), r3)"
    "hs_complete ex_crypto r3 = Some (Inr B)"
    using exchange_completes [OF ex_crypto_sym_ok ex_crypto_ukey2_ok h(1) _ h(2)]
    by (simp add: KEY_LENGTH_def) blast
  have "run (hs_step ex_crypto) [HsReceive m1, HsNext, HsReceive m3] r = r3"
    using x by simp
  moreover have "hs_phase r3 = Complete"
    using x(4) by (simp add: hs_complete_def split: if_splits)
  ultimately show ?thesis using h(2) by blast
qed

theorem responder_key_committed_witness:
  "\<exists>h0 ops ci fin pk.
     handshake_new ex_crypto Responder (replicate 32 3) (replicate 32 4) = Some h0 \<and>
     hs_client_init (run (hs_step ex_crypto) ops h0) = Some ci \<and>
     announces ex_crypto ci (sha512 ex_crypto fin) \<and> finish_key ex_crypto fin pk \<and>
     hs_peer_key (run (hs_step ex_crypto) ops h0) = Some pk"
  using ex_responder_completes responder_key_committed by blast

subsection \<open>Errors and completion\<close>

text \<open>
  A refused call changes nothing: when \<open>next_message\<close> or \<open>receive\<close> returns an error,
  whichever it is, the exchange is exactly as before and can still be continued.
\<close>

theorem handshake_errors_keep_state:
  "(fst (next_message P h) = Inl e \<longrightarrow> snd (next_message P h) = h) \<and>
   (fst (hs_receive P bs h) = Inl e \<longrightarrow> snd (hs_receive P bs h) = h)"
  using next_message_Inl [of P h e] hs_receive_Inl [of P bs h e]
  by (cases "next_message P h"; cases "hs_receive P bs h") auto

theorem handshake_errors_keep_state_witness:
  "\<exists>h. handshake_new ex_crypto Responder (replicate 32 3) (replicate 32 4) = Some h \<and>
     fst (next_message ex_crypto h) = Inl HInvalidState \<and> snd (next_message ex_crypto h) = h"
proof -
  obtain h where h: "handshake_new ex_crypto Responder (replicate 32 3) (replicate 32 4) = Some h"
    using ex_handshakes by blast
  then have "fst (next_message ex_crypto h) = Inl HInvalidState"
    by (auto simp: handshake_new_def next_message_def split: option.splits)
  then show ?thesis
    using h handshake_errors_keep_state [of ex_crypto h HInvalidState] by blast
qed

text \<open>
  Completion: \<open>complete\<close> never panics, and it succeeds exactly when the exchange is in
  its last state and has recorded both initial messages and the peer key; in every other case
  it returns \<open>InvalidState\<close>.
\<close>

theorem complete_succeeds_iff:
  assumes S: "sym_ok P" and P: "ukey2_ok P"
  shows "if hs_phase h = Complete \<and> hs_client_init h \<noteq> None \<and> hs_server_init h \<noteq> None \<and> hs_peer_key h \<noteq> None
     then \<exists>A. hs_complete P h = Some (Inr A) \<and> length (authentication_token A) = 32
     else hs_complete P h = Some (Inl HInvalidState)"
proof -
  have "\<exists>A. derive_outputs P r s t = Some (Inr A) \<and> length (authentication_token A) = 32" for r s t
    using derive_outputs_ok [OF S P, of s t] by (cases r) auto
  then show ?thesis by (auto simp: hs_complete_def split: option.splits)
qed

theorem complete_succeeds_iff_witness:
  "hs_complete ex_crypto
     \<lparr>hs_role = Responder, hs_random = [], hs_secret = [], hs_phase = Complete,
      hs_client_init = Some [1], hs_server_init = None, hs_commitment = Some [1],
      hs_peer_key = Some [2]\<rparr> = Some (Inl HInvalidState)"
  using complete_succeeds_iff [OF ex_crypto_sym_ok ex_crypto_ukey2_ok, of
      "\<lparr>hs_role = Responder, hs_random = [], hs_secret = [], hs_phase = Complete,
      hs_client_init = Some [1], hs_server_init = None, hs_commitment = Some [1],
      hs_peer_key = Some [2]\<rparr>"]
  by simp

end
