(* ===== verification/Conn_Handshake.thy ===== *)
theory Conn_Handshake
  imports Conn_Negotiate Ukey2_Handshake Sharing_State
begin

text \<open>
  Establishing a connection (\<open>protocol/handshake.rs\<close>): the plain request and responses around
  the UKEY2 exchange on both sides, and the four-digit code derived from the authentication
  token.
\<close>

subsection \<open>The verification code\<close>

text \<open>
  \<open>i32\<close> arithmetic with Rust's remainder, which takes the sign of the dividend. The values stay
  far from the bounds of \<open>i32\<close> (lemma \<open>code_step_in_range\<close>).
\<close>

definition HASH_MODULUS :: int where "HASH_MODULUS = 9973"
definition HASH_MULTIPLIER :: int where "HASH_MULTIPLIER = 31"

definition rust_rem :: "int \<Rightarrow> int \<Rightarrow> int" where
  "rust_rem a b = (if 0 \<le> a then a mod b else - ((- a) mod b))"

fun code_hash :: "bytes \<Rightarrow> int \<Rightarrow> int \<Rightarrow> int" where
  "code_hash [] hash multiplier = hash"
| "code_hash (b # bs) hash multiplier =
     code_hash bs (rust_rem (hash + sint b * multiplier) HASH_MODULUS)
       (rust_rem (multiplier * HASH_MULTIPLIER) HASH_MODULUS)"

text \<open>\<open>format!("{:04}", ..)\<close>: decimal digits, padded with zeros to four.\<close>

definition pad4 :: "rstring \<Rightarrow> rstring" where
  "pad4 s = replicate (4 - length s) (digit 0) @ s"

definition verification_code :: "bytes \<Rightarrow> rstring" where
  "verification_code token = pad4 (decimal (nat \<bar>code_hash token 0 1\<bar>))"

subsection \<open>Setup frames\<close>

definition receive_response_frame ::
  "('sk, 'pk) net \<Rightarrow> offline_frame \<Rightarrow> stream \<Rightarrow> ((conn_error + unit) \<times> stream) + stream" where
  "receive_response_frame N f s =
     (case of_v1 f of
        None \<Rightarrow> Inl (Inl EUnexpectedFrame, s)
      | Some v \<Rightarrow>
        (case v1_type v of
           None \<Rightarrow> Inl (Inl EUnexpectedFrame, s)
         | Some ty \<Rightarrow>
             if ty = CONNECTION_RESPONSE then Inl (response_data f, s)
             else if ty = KEEP_ALIVE then
               (case v1_keep_alive v of
                  None \<Rightarrow> Inl (Inl EUnexpectedFrame, s)
                | Some k \<Rightarrow>
                    if ka_ack k = Some True then Inr s
                    else case send_plain N (keepalive True (case ka_seq_num k of None \<Rightarrow> 0 | Some n \<Rightarrow> n)) s of
                           (Inl e, s1) \<Rightarrow> Inl (Inl e, s1)
                         | (Inr _, s1) \<Rightarrow> Inr s1)
             else if ty = DISCONNECTION then Inl (Inl ERejected, s)
             else Inl (Inl EUnexpectedFrame, s)))"

lemma receive_plain_shorter: "receive_plain N s = (Inr f, s') \<Longrightarrow> length (s_in s') < length (s_in s)"
  by (auto simp: receive_plain_def dest!: io_read_shorter split: prod.splits sum.splits option.splits)

lemma receive_response_frame_input: "receive_response_frame N f s = Inr s' \<Longrightarrow> s_in s' = s_in s"
  using io_write_keeps_input
  by (auto simp: receive_response_frame_def send_plain_def split: option.splits if_splits prod.splits sum.splits)
    (metis snd_conv)+

lemma response_turn_shorter:
  "(Inr f, s1) = receive_plain N s \<Longrightarrow> Inr s2 = receive_response_frame N f s1 \<Longrightarrow>
     length (s_in s2) < length (s_in s)"
  "(Inr f, s1) = receive_plain N s \<Longrightarrow> receive_response_frame N f s1 = Inr s2 \<Longrightarrow>
     length (s_in s2) < length (s_in s)"
  using receive_plain_shorter [of N s f s1] receive_response_frame_input [of N f s1 s2] by metis+

function receive_response :: "('sk, 'pk) net \<Rightarrow> stream \<Rightarrow> (conn_error + unit) \<times> stream" where
  "receive_response N s =
     (case receive_plain N s of
        (Inl e, s1) \<Rightarrow> (Inl e, s1)
      | (Inr f, s1) \<Rightarrow>
        (case receive_response_frame N f s1 of
           Inl r \<Rightarrow> r
         | Inr s2 \<Rightarrow> receive_response N s2))"
  by pat_completeness auto
termination
  by (relation "measure (\<lambda>(N, s). length (s_in s))") (auto dest: response_turn_shorter)

declare receive_response.simps [simp del]

subsection \<open>Both sides of the setup\<close>

definition send_ukey2 :: "('sk, 'pk) net \<Rightarrow> ('sk, 'pk) handshake \<Rightarrow> stream \<Rightarrow>
    (conn_error + unit) \<times> ('sk, 'pk) handshake \<times> stream" where
  "send_ukey2 N h s =
     (case next_message (n_crypto N) h of
        (Inl _, h1) \<Rightarrow> (Inl EHandshake, h1, s)
      | (Inr m, h1) \<Rightarrow> (case io_write m s of (r, s1) \<Rightarrow> (r, h1, s1)))"

definition receive_ukey2 :: "('sk, 'pk) net \<Rightarrow> ('sk, 'pk) handshake \<Rightarrow> stream \<Rightarrow>
    (conn_error + unit) \<times> ('sk, 'pk) handshake \<times> stream" where
  "receive_ukey2 N h s =
     (case io_read s of
        (Inl e, s1) \<Rightarrow> (Inl e, h, s1)
      | (Inr m, s1) \<Rightarrow>
        (case hs_receive (n_crypto N) m h of
           (Inl _, h1) \<Rightarrow> (Inl EHandshake, h1, s1)
         | (Inr _, h1) \<Rightarrow> (Inr (), h1, s1)))"

definition connection_new :: "stream \<Rightarrow> completed_handshake \<Rightarrow> medium \<Rightarrow> rstring \<Rightarrow> connection" where
  "connection_new s completed m i =
     \<lparr>c_stream = s, c_channel = ch_channel completed, incoming_bytes = Map.empty, incoming_files = Map.empty,
      outgoing_file = None, pending_events = [], c_medium = m, c_upgrade = UpIdle, upgrade_host = False,
      c_endpoint_id = i, c_verification_code = verification_code (authentication_token completed)\<rparr>"

text \<open>The end both sides share. \<open>None\<close> is the panic inside \<open>complete\<close>.\<close>

definition finish_setup :: "('sk, 'pk) net \<Rightarrow> connection_options \<Rightarrow> ('sk, 'pk) handshake \<Rightarrow> stream \<Rightarrow>
    (conn_error + connection) option" where
  "finish_setup N opts h s =
     (case send_plain N response s of
        (Inl e, _) \<Rightarrow> Some (Inl e)
      | (Inr _, s1) \<Rightarrow>
        (case receive_response N s1 of
           (Inl e, _) \<Rightarrow> Some (Inl e)
         | (Inr _, s2) \<Rightarrow>
           (case hs_complete (n_crypto N) h of
              None \<Rightarrow> None
            | Some (Inl _) \<Rightarrow> Some (Inl EHandshake)
            | Some (Inr completed) \<Rightarrow> Some (Inr (connection_new s2 completed (co_medium opts) (co_id opts))))))"

definition connect_io :: "('sk, 'pk) net \<Rightarrow> stream \<Rightarrow> ('sk, 'pk) handshake \<Rightarrow> connection_options \<Rightarrow>
    (conn_error + connection) option" where
  "connect_io N s h opts =
     (case send_plain N (request opts) s of
        (Inl e, _) \<Rightarrow> Some (Inl e)
      | (Inr _, s1) \<Rightarrow>
        (case send_ukey2 N h s1 of
           (Inl e, _) \<Rightarrow> Some (Inl e)
         | (Inr _, h1, s2) \<Rightarrow>
           (case receive_ukey2 N h1 s2 of
              (Inl e, _) \<Rightarrow> Some (Inl e)
            | (Inr _, h2, s3) \<Rightarrow>
              (case send_ukey2 N h2 s3 of
                 (Inl e, _) \<Rightarrow> Some (Inl e)
               | (Inr _, h3, s4) \<Rightarrow> finish_setup N opts h3 s4))))"

definition accept_io :: "('sk, 'pk) net \<Rightarrow> stream \<Rightarrow> ('sk, 'pk) handshake \<Rightarrow> connection_options \<Rightarrow>
    (conn_error + connection) option" where
  "accept_io N s h opts =
     (case receive_plain N s of
        (Inl e, _) \<Rightarrow> Some (Inl e)
      | (Inr f, s1) \<Rightarrow>
        (case request_data f of
           Inl e \<Rightarrow> Some (Inl e)
         | Inr _ \<Rightarrow>
           (case receive_ukey2 N h s1 of
              (Inl e, _) \<Rightarrow> Some (Inl e)
            | (Inr _, h1, s2) \<Rightarrow>
              (case send_ukey2 N h1 s2 of
                 (Inl e, _) \<Rightarrow> Some (Inl e)
               | (Inr _, h2, s3) \<Rightarrow>
                 (case receive_ukey2 N h2 s3 of
                    (Inl e, _) \<Rightarrow> Some (Inl e)
                  | (Inr _, h3, s4) \<Rightarrow> finish_setup N opts h3 s4)))))"

subsection \<open>The code is always four digits\<close>

lemma rust_rem_bound: "0 < b \<Longrightarrow> \<bar>rust_rem a b\<bar> < b"
  by (simp add: rust_rem_def)

lemma rust_rem_nonneg: "0 \<le> a \<Longrightarrow> 0 < b \<Longrightarrow> 0 \<le> rust_rem a b \<and> rust_rem a b < b"
  by (simp add: rust_rem_def)

lemma code_hash_bound: "\<bar>hash\<bar> < 9973 \<Longrightarrow> \<bar>code_hash bs hash multiplier\<bar> < 9973"
  by (induction bs arbitrary: hash multiplier) (simp_all add: rust_rem_bound HASH_MODULUS_def)

lemma sint_byte_bound: "- 128 \<le> sint (b :: byte)" "sint (b :: byte) \<le> 127"
  using sint_ge [of b] sint_lt [of b] by simp_all

lemma code_step_in_range:
  assumes "\<bar>hash\<bar> < HASH_MODULUS" and "0 \<le> multiplier" and "multiplier < HASH_MODULUS"
  shows "in_i32 (sint (b :: byte) * multiplier) \<and> in_i32 (hash + sint b * multiplier) \<and>
     in_i32 (multiplier * HASH_MULTIPLIER)"
proof -
  have "sint b * multiplier \<le> 127 * multiplier"
    by (rule mult_right_mono) (use sint_byte_bound assms in auto)
  moreover have "- 128 * multiplier \<le> sint b * multiplier"
    by (rule mult_right_mono) (use sint_byte_bound assms in auto)
  ultimately show ?thesis using assms by (simp add: range_defs HASH_MODULUS_def HASH_MULTIPLIER_def) linarith
qed

lemma length_decimal_4: "n < 10000 \<Longrightarrow> length (decimal n) \<le> 4"
  by (subst decimal.simps, subst decimal.simps, subst decimal.simps, subst decimal.simps,
      subst decimal.simps) auto

lemma pad4_digits: "n < 10000 \<Longrightarrow> length (pad4 (decimal n)) = 4 \<and> list_all is_ascii_digit (pad4 (decimal n))"
  using length_decimal_4 [of n] decimal_digits [of n] by (auto simp: pad4_def list_all_iff)

lemma verification_code_digits:
  "length (verification_code token) = 4 \<and> list_all is_ascii_digit (verification_code token)"
  unfolding verification_code_def
  by (rule pad4_digits) (use code_hash_bound [of 0 token 1] in simp)

text \<open>
  The verification code always has exactly four decimal digits, so that a share that is
  waiting for consent always takes it: the state layer's check on codes never refuses one the
  connection layer produced.
\<close>

theorem verification_code_accepted:
  assumes "consent_phase (sh_phase sh)"
  shows "share_record_verification_code (verification_code token) sh =
     (True, sh\<lparr>sh_verification_code := Some (verification_code token)\<rparr>)"
  using assms verification_code_digits [of token] by (simp add: share_record_verification_code_def)

definition ex_share :: share_snapshot where
  "ex_share = share_new (AText (ascii ''hi'')) Inbound 1 AwaitingLocalConsent 2"

theorem verification_code_accepted_witness:
  "fst (share_record_verification_code (verification_code [1, 200]) ex_share) \<and>
   verification_code [1, 200] = ascii ''1735''"
proof -
  have "consent_phase (sh_phase ex_share)" by (simp add: ex_share_def share_new_def consent_phase_def)
  from verification_code_accepted [OF this, of "[1, 200]"]
  have "fst (share_record_verification_code (verification_code [1, 200]) ex_share)" by simp
  moreover have "verification_code [1, 200] = ascii ''1735''"
    by (simp add: verification_code_def pad4_def rust_rem_def HASH_MODULUS_def HASH_MULTIPLIER_def
        decimal.simps digit_def ascii_def)
  ultimately show ?thesis by blast
qed

subsection \<open>Both sides together\<close>

lemma send_plain_healthy:
  "s_healthy s \<Longrightarrow> length (enc_offline N f) \<le> MAX_FRAME_LENGTH \<Longrightarrow>
     send_plain N f s = (Inr (), s\<lparr>s_out := s_out s @ frame_bytes (enc_offline N f)\<rparr>)"
  by (simp add: send_plain_def io_write_healthy)

lemma receive_plain_frame:
  "net_ok N \<Longrightarrow> s_in s = frame_bytes (enc_offline N f) @ r \<Longrightarrow> length (enc_offline N f) \<le> MAX_FRAME_LENGTH \<Longrightarrow>
     receive_plain N s = (Inr f, s\<lparr>s_in := r\<rparr>)"
  by (simp add: receive_plain_def io_read_frame net_okD)

lemma send_ukey2_healthy:
  "s_healthy s \<Longrightarrow> next_message (n_crypto N) h = (Inr m, h1) \<Longrightarrow> length m \<le> MAX_FRAME_LENGTH \<Longrightarrow>
     send_ukey2 N h s = (Inr (), h1, s\<lparr>s_out := s_out s @ frame_bytes m\<rparr>)"
  by (simp add: send_ukey2_def io_write_healthy)

lemma receive_ukey2_frame:
  "s_in s = frame_bytes m @ r \<Longrightarrow> hs_receive (n_crypto N) m h = (Inr (), h1) \<Longrightarrow> length m \<le> MAX_FRAME_LENGTH \<Longrightarrow>
     receive_ukey2 N h s = (Inr (), h1, s\<lparr>s_in := r\<rparr>)"
  by (simp add: receive_ukey2_def io_read_frame)

lemma receive_response_ok:
  assumes "net_ok N" and "s_in s = frame_bytes (enc_offline N response)"
    and "length (enc_offline N response) \<le> MAX_FRAME_LENGTH"
  shows "receive_response N s = (Inr (), s\<lparr>s_in := []\<rparr>)"
proof -
  have "receive_response_frame N response s' = Inl (Inr (), s')" for s'
    using response_accepted
    by (simp add: receive_response_frame_def response_def offline_def v1_default_def wire_numbers)
  then show ?thesis
    using receive_plain_frame [of N s response "[]"] assms by (subst receive_response.simps) simp
qed

text \<open>The bytes each side writes during the setup.\<close>

definition connect_bytes :: "('sk, 'pk) net \<Rightarrow> connection_options \<Rightarrow> bytes \<Rightarrow> bytes \<Rightarrow> bytes" where
  "connect_bytes N opts m1 m3 = frame_bytes (enc_offline N (request opts)) @ frame_bytes m1 @
     frame_bytes m3 @ frame_bytes (enc_offline N response)"

definition accept_bytes :: "('sk, 'pk) net \<Rightarrow> bytes \<Rightarrow> bytes" where
  "accept_bytes N m2 = frame_bytes m2 @ frame_bytes (enc_offline N response)"

text \<open>The messages of the exchange between two fresh sides, when each fits in a frame.\<close>

definition exchange :: "('sk, 'pk) net \<Rightarrow> ('sk, 'pk) handshake \<Rightarrow> ('sk, 'pk) handshake \<Rightarrow> bytes \<Rightarrow> bytes \<Rightarrow> bytes \<Rightarrow>
    completed_handshake \<Rightarrow> completed_handshake \<Rightarrow> bool" where
  "exchange N i r m1 m2 m3 A B \<longleftrightarrow>
     length m1 \<le> MAX_FRAME_LENGTH \<and> length m2 \<le> MAX_FRAME_LENGTH \<and> length m3 \<le> MAX_FRAME_LENGTH \<and>
     (\<exists>i1 i2 i3 r1 r2 r3.
        next_message (n_crypto N) i = (Inr m1, i1) \<and> hs_receive (n_crypto N) m1 r = (Inr (), r1) \<and>
        next_message (n_crypto N) r1 = (Inr m2, r2) \<and> hs_receive (n_crypto N) m2 i1 = (Inr (), i2) \<and>
        next_message (n_crypto N) i2 = (Inr m3, i3) \<and> hs_receive (n_crypto N) m3 r2 = (Inr (), r3) \<and>
        hs_complete (n_crypto N) i3 = Some (Inr A) \<and> hs_complete (n_crypto N) r3 = Some (Inr B))"

lemma setup_completes:
  assumes N: "net_ok N" and x: "exchange N i r m1 m2 m3 A B"
    and a: "s_healthy a" "s_in a = accept_bytes N m2" and b: "s_healthy b" "s_in b = connect_bytes N oa m1 m3"
    and l: "length (enc_offline N (request oa)) \<le> MAX_FRAME_LENGTH" "length (enc_offline N response) \<le> MAX_FRAME_LENGTH"
  shows "connect_io N a i oa = Some (Inr (connection_new
        (a\<lparr>s_out := s_out a @ connect_bytes N oa m1 m3, s_in := []\<rparr>) A (co_medium oa) (co_id oa))) \<and>
     accept_io N b r ob = Some (Inr (connection_new
        (b\<lparr>s_out := s_out b @ accept_bytes N m2, s_in := []\<rparr>) B (co_medium ob) (co_id ob)))"
proof -
  note L = send_plain_healthy receive_plain_frame [OF N] send_ukey2_healthy receive_ukey2_frame
    receive_response_ok [OF N]
  from x obtain i1 i2 i3 r1 r2 r3 where
    "next_message (n_crypto N) i = (Inr m1, i1)" "hs_receive (n_crypto N) m1 r = (Inr (), r1)"
    "next_message (n_crypto N) r1 = (Inr m2, r2)" "hs_receive (n_crypto N) m2 i1 = (Inr (), i2)"
    "next_message (n_crypto N) i2 = (Inr m3, i3)" "hs_receive (n_crypto N) m3 r2 = (Inr (), r3)"
    "hs_complete (n_crypto N) i3 = Some (Inr A)" "hs_complete (n_crypto N) r3 = Some (Inr B)"
    and "length m1 \<le> MAX_FRAME_LENGTH" "length m2 \<le> MAX_FRAME_LENGTH" "length m3 \<le> MAX_FRAME_LENGTH"
    by (auto simp: exchange_def)
  note X = this
  have "connect_io N a i oa = Some (Inr (connection_new
        (a\<lparr>s_out := s_out a @ connect_bytes N oa m1 m3, s_in := []\<rparr>) A (co_medium oa) (co_id oa)))"
    using a l X by (simp add: connect_io_def finish_setup_def L connect_bytes_def accept_bytes_def)
  moreover have "accept_io N b r ob = Some (Inr (connection_new
        (b\<lparr>s_out := s_out b @ accept_bytes N m2, s_in := []\<rparr>) B (co_medium ob) (co_id ob)))"
    using b l X by (simp add: accept_io_def finish_setup_def L connect_bytes_def accept_bytes_def)
  ultimately show ?thesis by blast
qed

text \<open>
  C29. A connection is established. When the two sides run against each other, each reading
  exactly what the other writes, and every message fits in a frame, both calls return a
  connection; neither leaves a byte unread; the channels mirror each other and both sides show
  the same verification code.
\<close>

theorem setup_agrees:
  assumes N: "net_ok N" and P: "ukey2_ok (n_crypto N)"
    and i: "handshake_new (n_crypto N) Initiator ra ka = Some i" "length ra = KEY_LENGTH"
    and r: "handshake_new (n_crypto N) Responder rb kb = Some r" "length rb = KEY_LENGTH"
    and x: "exchange N i r m1 m2 m3 CA CB"
    and a: "s_healthy a" "s_in a = accept_bytes N m2" and b: "s_healthy b" "s_in b = connect_bytes N oa m1 m3"
    and l: "length (enc_offline N (request oa)) \<le> MAX_FRAME_LENGTH" "length (enc_offline N response) \<le> MAX_FRAME_LENGTH"
  shows "\<exists>A B. connect_io N a i oa = Some (Inr A) \<and> accept_io N b r ob = Some (Inr B) \<and>
     s_out (c_stream A) = s_out a @ s_in b \<and> s_out (c_stream B) = s_out b @ s_in a \<and>
     s_in (c_stream A) = [] \<and> s_in (c_stream B) = [] \<and>
     mirrored (n_crypto N) (c_channel A) (c_channel B) \<and> c_verification_code A = c_verification_code B"
proof -
  have "authentication_token CA = authentication_token CB \<and> mirrored (n_crypto N) (ch_channel CA) (ch_channel CB)"
    using exchange_completes [OF net_okD(1) [OF N] P i r] x by (auto simp: exchange_def)
  then show ?thesis
    using setup_completes [OF N x a b l] a(2) b(2) by (simp add: connection_new_def)
qed

subsection \<open>The example instance\<close>

lemma ex_positive: "positive v = Inr w \<Longrightarrow> length w \<le> 33"
  by (drule positive_Inr) auto

lemma ex_public_key: "public_key ex_crypto sk = Inr k \<Longrightarrow> length (xe_pubkey k) \<le> 200"
proof -
  assume "public_key ex_crypto sk = Inr k"
  then obtain x y where k: "k = \<lparr>gpk_type = EC_P256, ec_p256 = Some \<lparr>ec_x = x, ec_y = y\<rparr>, rsa2048 = None, dh2048 = None\<rparr>"
    and "length x \<le> 33" "length y \<le> 33"
    by (auto simp: public_key_def Let_def dest!: ex_positive split: option.splits sum.splits)
  then show ?thesis
    using length_e_bytes [of x] length_e_bytes [of y] length_e_int [of 1]
    by (simp add: xe_pubkey_def xe_ecp_def e_iso_def e_pair_def EC_P256_def)
qed

lemma ex_wrap: "length (ukey2_wrap ex_crypto t d) \<le> 2 * length d + nat \<bar>t\<bar> + 7"
  using length_e_bytes [of d] length_e_int [of t]
  by (simp add: ukey2_wrap_def ex_crypto_def xe_ukey2_def e_iso_def e_pair_def)

lemma ex_finish: "finish_message ex_crypto sk = Inr m \<Longrightarrow> length m \<le> 1000"
proof -
  assume "finish_message ex_crypto sk = Inr m"
  then obtain k where k: "public_key ex_crypto sk = Inr k"
    and m: "m = ukey2_wrap ex_crypto CLIENT_FINISH (xe_client_finished \<lparr>cf_public_key = Some (xe_pubkey k)\<rparr>)"
    by (auto simp: finish_message_def ex_crypto_def split: sum.splits)
  have "length (xe_client_finished \<lparr>cf_public_key = Some (xe_pubkey k)\<rparr>) \<le> 403"
    using ex_public_key [OF k] length_e_bytes [of "xe_pubkey k"] by (simp add: xe_client_finished_def e_iso_def)
  then show ?thesis
    using ex_wrap [of CLIENT_FINISH "xe_client_finished \<lparr>cf_public_key = Some (xe_pubkey k)\<rparr>"]
    by (simp add: m CLIENT_FINISH_def)
qed

lemma ex_client_init:
  assumes "client_init ex_crypto h = (Inr m, h')" and "length (hs_random h) = 32"
  shows "length m \<le> 10000"
proof -
  from assms obtain fin where f: "finish_message ex_crypto (hs_secret h) = Inr fin"
    and m: "m = ukey2_wrap ex_crypto CLIENT_INIT (xe_client_init
       \<lparr>ci_version = Some UKEY2_VERSION, ci_random = Some (hs_random h),
        ci_cipher_commitments = [\<lparr>cc_handshake_cipher = Some P256_SHA512, cc_commitment = Some (1 # fin)\<rparr>],
        ci_next_protocol = Some NEXT_PROTOCOL\<rparr>)" (is "_ = ukey2_wrap _ _ ?b")
    by (auto simp: client_init_def ex_crypto_def Let_def split: sum.splits)
  have "length ?b \<le> 4000"
    using ex_finish [OF f] length_e_bytes [of "1 # fin"] length_e_bytes [of "hs_random h"]
      length_e_int [of 100] length_e_int [of 1] length_e_nat [of 1] length_e_bytes [of NEXT_PROTOCOL] assms(2)
    by (simp add: xe_client_init_def xe_commit_def e_iso_def e_pair_def e_list_def P256_SHA512_def
        UKEY2_VERSION_def NEXT_PROTOCOL_def ascii_def)
  then show ?thesis using ex_wrap [of CLIENT_INIT ?b] by (simp add: m CLIENT_INIT_def)
qed

lemma ex_server_init:
  assumes "server_init ex_crypto h = (Inr m, h')" and "length (hs_random h) = 32"
  shows "length m \<le> 10000"
proof -
  from assms obtain k where k: "public_key ex_crypto (hs_secret h) = Inr k"
    and m: "m = ukey2_wrap ex_crypto SERVER_INIT (xe_server_init
       \<lparr>si_version = Some UKEY2_VERSION, si_random = Some (hs_random h),
        si_handshake_cipher = Some P256_SHA512, si_public_key = Some (xe_pubkey k)\<rparr>)" (is "_ = ukey2_wrap _ _ ?b")
    by (auto simp: server_init_def ex_crypto_def Let_def split: sum.splits)
  have "length ?b \<le> 4000"
    using ex_public_key [OF k] length_e_bytes [of "xe_pubkey k"] length_e_bytes [of "hs_random h"]
      length_e_int [of 100] length_e_int [of 1] assms(2)
    by (simp add: xe_server_init_def e_iso_def e_pair_def P256_SHA512_def UKEY2_VERSION_def)
  then show ?thesis using ex_wrap [of SERVER_INIT ?b] by (simp add: m SERVER_INIT_def)
qed

lemma ex_next_message:
  assumes "next_message ex_crypto h = (Inr m, h')" and "length (hs_random h) = 32"
  shows "length m \<le> MAX_FRAME_LENGTH"
proof -
  from assms(1) consider "client_init ex_crypto h = (Inr m, h')" | "server_init ex_crypto h = (Inr m, h')"
    | "client_finish ex_crypto h = (Inr m, h')"
    by (auto simp: next_message_cases split: if_splits)
  then have "length m \<le> 10000"
  proof cases
    case 3
    then have "finish_message ex_crypto (hs_secret h) = Inr m"
      by (simp add: client_finish_def split: sum.splits)
    then have "length m \<le> 1000" by (rule ex_finish)
    then show ?thesis by simp
  qed (rule ex_client_init [OF _ assms(2)], assumption, rule ex_server_init [OF _ assms(2)], assumption)
  then show ?thesis by (simp add: MAX_FRAME_LENGTH_def)
qed

lemma hs_random_kept:
  "hs_random (snd (hs_receive P m h)) = hs_random h" "hs_random (snd (next_message P h)) = hs_random h"
proof -
  have "hs_random (snd (receive_client_init P m h)) = hs_random h"
    by (simp add: receive_client_init_def split: sum.split option.split)
  moreover have "hs_random (snd (receive_server_init P m h)) = hs_random h"
    by (simp add: receive_server_init_def split: sum.split option.split)
  moreover have "hs_random (snd (receive_client_finish P m h)) = hs_random h"
    by (simp add: receive_client_finish_def split: sum.split option.split)
  ultimately show "hs_random (snd (hs_receive P m h)) = hs_random h"
    by (simp add: hs_receive_cases)
  show "hs_random (snd (next_message P h)) = hs_random h"
    by (simp add: next_message_cases client_init_def server_init_def client_finish_def Let_def split: sum.split)
qed

definition ex_options :: connection_options where
  "ex_options = connection_options_new (ascii ''ABCD'') (ascii ''laptop'')"

lemma ex_exchange:
  "\<exists>i r m1 m2 m3 CA CB. handshake_new ex_crypto Initiator (replicate 32 1) (replicate 32 2) = Some i \<and>
     handshake_new ex_crypto Responder (replicate 32 3) (replicate 32 4) = Some r \<and>
     exchange ex_net i r m1 m2 m3 CA CB"
proof -
  obtain i r where h: "handshake_new ex_crypto Initiator (replicate 32 1) (replicate 32 2) = Some i"
    "handshake_new ex_crypto Responder (replicate 32 3) (replicate 32 4) = Some r"
    using ex_handshakes by blast
  obtain m1 m2 m3 i1 i2 i3 r1 r2 r3 A B where x:
    "next_message ex_crypto i = (Inr m1, i1)" "hs_receive ex_crypto m1 r = (Inr (), r1)"
    "next_message ex_crypto r1 = (Inr m2, r2)" "hs_receive ex_crypto m2 i1 = (Inr (), i2)"
    "next_message ex_crypto i2 = (Inr m3, i3)" "hs_receive ex_crypto m3 r2 = (Inr (), r3)"
    "hs_complete ex_crypto i3 = Some (Inr A)" "hs_complete ex_crypto r3 = Some (Inr B)"
    using exchange_completes [OF ex_crypto_sym_ok ex_crypto_ukey2_ok h(1) _ h(2)]
    by (simp add: KEY_LENGTH_def) blast
  have "length (hs_random i) = 32" "length (hs_random r) = 32"
    using h by (auto simp: handshake_new_def split: option.splits)
  moreover from this have "length (hs_random r1) = 32" "length (hs_random i1) = 32"
    using x(1,2) hs_random_kept by (metis snd_conv)+
  moreover from this have "length (hs_random i2) = 32"
    using x(4) hs_random_kept(1) by (metis snd_conv)
  ultimately have "length m1 \<le> MAX_FRAME_LENGTH" "length m2 \<le> MAX_FRAME_LENGTH" "length m3 \<le> MAX_FRAME_LENGTH"
    using ex_next_message x(1,3,5) by blast+
  then have "exchange ex_net i r m1 m2 m3 A B"
    using x by (auto simp: exchange_def ex_net_def)
  with h show ?thesis by blast
qed

theorem setup_agrees_witness:
  "\<exists>a b i r A B. connect_io ex_net a i ex_options = Some (Inr A) \<and> accept_io ex_net b r ex_options = Some (Inr B) \<and>
     s_out (c_stream A) = s_in b \<and> s_out (c_stream B) = s_in a \<and> c_verification_code A = c_verification_code B"
proof -
  obtain i r m1 m2 m3 CA CB where h: "handshake_new ex_crypto Initiator (replicate 32 1) (replicate 32 2) = Some i"
    "handshake_new ex_crypto Responder (replicate 32 3) (replicate 32 4) = Some r"
    and x: "exchange ex_net i r m1 m2 m3 CA CB" using ex_exchange by blast
  let ?a = "idle_stream\<lparr>s_in := accept_bytes ex_net m2\<rparr>"
  let ?b = "idle_stream\<lparr>s_in := connect_bytes ex_net ex_options m1 m3\<rparr>"
  note codec = xe_offline_def xe_v1_def xe_cr_def xe_cs_def e_iso_def e_pair_def e_int_def e_nat_def
    e_bytes_def decimal.simps offline_def v1_default_def wire_numbers ascii_def MAX_FRAME_LENGTH_def
  have l: "length (enc_offline ex_net (request ex_options)) \<le> MAX_FRAME_LENGTH"
      "length (enc_offline ex_net response) \<le> MAX_FRAME_LENGTH"
    by (simp_all add: ex_net_def request_def response_def ex_options_def connection_options_new_def codec)
  have n: "n_crypto ex_net = ex_crypto" by (simp add: ex_net_def)
  obtain A B where "connect_io ex_net ?a i ex_options = Some (Inr A)" "accept_io ex_net ?b r ex_options = Some (Inr B)"
    "s_out (c_stream A) = s_in ?b" "s_out (c_stream B) = s_in ?a" "c_verification_code A = c_verification_code B"
    using setup_agrees [OF ex_net_ok _ _ _ _ _ x, of "replicate 32 1" "replicate 32 2" "replicate 32 3"
        "replicate 32 4" ?a ?b ex_options ex_options] h l n ex_crypto_ukey2_ok
    by (auto simp: KEY_LENGTH_def)
  then show ?thesis by blast
qed

end
