(* ===== verification/Sharing_Session.thy ===== *)
theory Sharing_Session
  imports Control_Ids Sharing_Advertisement Conn_Control Conn_Handshake
begin

text \<open>
  A Sharing session over an encrypted connection: \<open>protocol/session.rs\<close> (setup, pairing, offers
  and consent) and \<open>protocol/session/transfer/control.rs\<close> (event demultiplexing, cancellation,
  the drain). The protobuf codec of the Sharing frames is a parameter beside the connection's own.

  The state holds what a call can observe and change: the connection, the process-wide counter of
  control identifiers as this thread finds it, the answers the caller's \<open>is_cancelled\<close> will give
  (\<open>False\<close> once they are used up), how often \<open>on_accepted\<close> has run, the values reported to
  \<open>on_progress\<close>, and the order in which the two were called.
\<close>

record ('sk, 'pk) sharing_net =
  s_net :: "('sk, 'pk) net"
  enc_sharing :: "sharing_frame \<Rightarrow> bytes"
  dec_sharing :: "bytes \<Rightarrow> sharing_frame option"

definition sharing_net_ok :: "('sk, 'pk) sharing_net \<Rightarrow> bool" where
  "sharing_net_ok N \<longleftrightarrow> net_ok (s_net N) \<and> (\<forall>f. dec_sharing N (enc_sharing N f) = Some f)"

datatype session_call = CallAccepted | CallProgress nat

record sharing_session =
  sh_conn :: connection
  sh_next :: int
  sh_cancel :: "bool list"
  sh_accepted :: nat
  sh_progress :: "nat list"
  sh_calls :: "session_call list"

type_synonym 'a result = "(protocol_error + 'a) \<times> sharing_session"

text \<open>A connection operation, its error converted by \<open>From<ConnectionError>\<close>.\<close>

definition on_conn :: "(connection \<Rightarrow> 'a outcome) \<Rightarrow> sharing_session \<Rightarrow> 'a result" where
  "on_conn op s =
     (case op (sh_conn s) of
        (Inl e, c) \<Rightarrow> (Inl (PConnection e), s\<lparr>sh_conn := c\<rparr>)
      | (Inr x, c) \<Rightarrow> (Inr x, s\<lparr>sh_conn := c\<rparr>))"

definition is_cancelled :: "sharing_session \<Rightarrow> bool \<times> sharing_session" where
  "is_cancelled s =
     (case sh_cancel s of [] \<Rightarrow> (False, s) | b # bs \<Rightarrow> (b, s\<lparr>sh_cancel := bs\<rparr>))"

definition on_accepted :: "sharing_session \<Rightarrow> sharing_session" where
  "on_accepted s = s\<lparr>sh_accepted := sh_accepted s + 1, sh_calls := sh_calls s @ [CallAccepted]\<rparr>"

definition on_progress :: "nat \<Rightarrow> sharing_session \<Rightarrow> sharing_session" where
  "on_progress n s = s\<lparr>sh_progress := sh_progress s @ [n], sh_calls := sh_calls s @ [CallProgress n]\<rparr>"

definition session_new :: "connection \<Rightarrow> int \<Rightarrow> sharing_session" where
  "session_new c n = \<lparr>sh_conn = c, sh_next = n, sh_cancel = [], sh_accepted = 0, sh_progress = [], sh_calls = []\<rparr>"

subsection \<open>Setup\<close>

definition session_options :: "bytes \<Rightarrow> bytes \<Rightarrow> rstring \<Rightarrow> rstring \<Rightarrow> protocol_error + connection_options" where
  "session_options salt metadata_key endpoint_id endpoint_name =
     (case endpoint_info_new 0 3 salt metadata_key (Some endpoint_name) None [] of
        Inl e \<Rightarrow> Inl e
      | Inr info \<Rightarrow>
          Inr (with_endpoint_info (endpoint_info_encode info) (connection_options_new endpoint_id endpoint_name)))"

text \<open>
  \<open>SharingSession::connect_io\<close> and \<open>accept_io\<close>. The salt, the metadata key and the handshake
  drawn from the operating system's randomness are arguments; \<open>None\<close> is a panic of the setup.
\<close>

definition session_connect_io :: "('sk, 'pk) sharing_net \<Rightarrow> stream \<Rightarrow> ('sk, 'pk) handshake \<Rightarrow> bytes \<Rightarrow> bytes \<Rightarrow>
    rstring \<Rightarrow> rstring \<Rightarrow> int \<Rightarrow> (protocol_error + sharing_session) option" where
  "session_connect_io N s h salt metadata_key endpoint_id endpoint_name counter =
     (case session_options salt metadata_key endpoint_id endpoint_name of
        Inl e \<Rightarrow> Some (Inl e)
      | Inr options \<Rightarrow>
        (case connect_io (s_net N) s h options of
           None \<Rightarrow> None
         | Some (Inl e) \<Rightarrow> Some (Inl (PConnection e))
         | Some (Inr c) \<Rightarrow> Some (Inr (session_new c counter))))"

definition session_accept_io :: "('sk, 'pk) sharing_net \<Rightarrow> stream \<Rightarrow> ('sk, 'pk) handshake \<Rightarrow> bytes \<Rightarrow> bytes \<Rightarrow>
    rstring \<Rightarrow> rstring \<Rightarrow> int \<Rightarrow> (protocol_error + sharing_session) option" where
  "session_accept_io N s h salt metadata_key endpoint_id endpoint_name counter =
     (case session_options salt metadata_key endpoint_id endpoint_name of
        Inl e \<Rightarrow> Some (Inl e)
      | Inr options \<Rightarrow>
        (case accept_io (s_net N) s h options of
           None \<Rightarrow> None
         | Some (Inl e) \<Rightarrow> Some (Inl (PConnection e))
         | Some (Inr c) \<Rightarrow> Some (Inr (session_new c counter))))"

subsection \<open>Control frames\<close>

definition send_sharing_frame :: "('sk, 'pk) sharing_net \<Rightarrow> int \<Rightarrow> sharing_frame \<Rightarrow> connection \<Rightarrow> unit outcome" where
  "send_sharing_frame N i f c = send_bytes (s_net N) i (enc_sharing N f) c"

definition send_control_frame :: "('sk, 'pk) sharing_net \<Rightarrow> sharing_frame \<Rightarrow> sharing_session \<Rightarrow> unit result" where
  "send_control_frame N f s =
     (case next_control_payload_id (sh_next s) of
        (i, n) \<Rightarrow> on_conn (send_sharing_frame N i f) (s\<lparr>sh_next := n\<rparr>))"

definition session_send_keepalive :: "('sk, 'pk) sharing_net \<Rightarrow> nat \<Rightarrow> sharing_session \<Rightarrow> unit result" where
  "session_send_keepalive N sequence s = on_conn (send_keepalive (s_net N) sequence) s"

definition stop_if_cancelled :: "('sk, 'pk) sharing_net \<Rightarrow> sharing_session \<Rightarrow> unit result" where
  "stop_if_cancelled N s =
     (case is_cancelled s of
        (False, s1) \<Rightarrow> (Inr (), s1)
      | (True, s1) \<Rightarrow>
        (case send_control_frame N sharing_cancel s1 of
           (Inl e, s2) \<Rightarrow> (Inl e, s2)
         | (Inr _, s2) \<Rightarrow> (Inl PCancelled, s2)))"

definition send_consent :: "('sk, 'pk) sharing_net \<Rightarrow> sharing_frame \<Rightarrow> sharing_session \<Rightarrow> unit result" where
  "send_consent N f s = send_control_frame N f s"

definition accept_incoming_offer :: "('sk, 'pk) sharing_net \<Rightarrow> sharing_session \<Rightarrow> unit result" where
  "accept_incoming_offer N s = send_consent N accept_response s"

definition reject_incoming_offer :: "('sk, 'pk) sharing_net \<Rightarrow> sharing_session \<Rightarrow> unit result" where
  "reject_incoming_offer N s = send_consent N reject_response s"

definition timeout_incoming_offer :: "('sk, 'pk) sharing_net \<Rightarrow> sharing_session \<Rightarrow> unit result" where
  "timeout_incoming_offer N s = send_consent N timeout_response s"

definition unsupported_incoming_offer :: "('sk, 'pk) sharing_net \<Rightarrow> sharing_session \<Rightarrow> unit result" where
  "unsupported_incoming_offer N s = send_consent N unsupported_response s"

subsection \<open>Every event consumes input\<close>

definition receive_order :: "(connection \<times> connection) set" where
  "receive_order = measures [input_left, \<lambda>c. length (pending_events c)]"

lemma wf_receive_order [simp]: "wf receive_order"
  by (simp add: receive_order_def)

lemma trans_receive_order: "trans receive_order"
  unfolding receive_order_def trans_def by auto

lemma receive_consumes:
  "conn_receive N c = (Inr ev, c') \<Longrightarrow> ev \<noteq> EvDisconnected \<Longrightarrow> (c', c) \<in> receive_order"
proof (induction N c rule: conn_receive.induct)
  case (1 N c)
  show ?case
  proof (cases "pending_events c")
    case (Cons x xs)
    then have "c' = c\<lparr>pending_events := xs\<rparr>" using 1(2) by (subst (asm) conn_receive.simps) simp
    then show ?thesis using Cons by (simp add: receive_order_def)
  next
    case Nil
    obtain r c1 where r: "conn_recv N c = (r, c1)" by force
    show ?thesis
    proof (cases r)
      case (Inl e)
      then have "fst (conn_receive N c) \<in> {Inl e, Inr EvDisconnected}"
        using Nil r by (subst conn_receive.simps) simp
      then show ?thesis using 1(2,3) by simp
    next
      case (Inr f)
      obtain x c2 where e: "conn_event N f c1 = (x, c2)" by force
      have less: "input_left c2 < input_left c" using receive_turn_shorter r Inr e by metis
      have "conn_receive N c = (case x of Inl e \<Rightarrow> (Inl e, c2) | Inr None \<Rightarrow> conn_receive N c2 | Inr (Some ev) \<Rightarrow> (Inr ev, c2))"
        using Nil r Inr e by (subst conn_receive.simps) (simp split: sum.splits option.splits)
      then consider "x = Inr None" "conn_receive N c2 = (Inr ev, c')" | "c' = c2"
        using 1(2) by (auto split: sum.splits option.splits)
      then show ?thesis
      proof cases
        case a: 1
        then have "(c', c2) \<in> receive_order" using "1.IH" Nil r Inr e 1(3) by metis
        moreover have "(c2, c) \<in> receive_order" using less by (simp add: receive_order_def)
        ultimately show ?thesis using trans_receive_order by (metis transD)
      next
        case 2
        then show ?thesis using less by (simp add: receive_order_def)
      qed
    qed
  qed
qed

definition session_order :: "(sharing_session \<times> sharing_session) set" where
  "session_order = inv_image receive_order sh_conn"

lemma wf_session_order [simp]: "wf session_order"
  by (simp add: session_order_def)

definition session_receive :: "('sk, 'pk) sharing_net \<Rightarrow> sharing_session \<Rightarrow> event result" where
  "session_receive N s = on_conn (conn_receive (s_net N)) s"

lemma session_receive_consumes:
  "(Inr ev, s') = session_receive N s \<Longrightarrow> ev \<noteq> EvDisconnected \<Longrightarrow> (s', s) \<in> session_order"
  by (auto simp: session_receive_def on_conn_def session_order_def inv_image_def
      dest: receive_consumes split: prod.splits sum.splits)

subsection \<open>The events of a transfer\<close>

text \<open>
  \<open>next_transfer_event_for\<close>: connection control and the payload control of other payloads are
  skipped. The loop ends because every event it skips consumes input.
\<close>

function next_transfer_event_for :: "('sk, 'pk) sharing_net \<Rightarrow> int \<Rightarrow> sharing_session \<Rightarrow> event result" where
  "next_transfer_event_for N payload_id s =
     (case session_receive N s of
        (Inl e, s1) \<Rightarrow> (Inl e, s1)
      | (Inr ev, s1) \<Rightarrow>
        (case ev of
           EvPayloadCancelled i offset \<Rightarrow>
             if i = payload_id then (Inl PCancelled, s1) else next_transfer_event_for N payload_id s1
         | EvPayloadError i offset \<Rightarrow>
             if i = payload_id then (Inl PInvalidPayload, s1) else next_transfer_event_for N payload_id s1
         | EvKeepAlive ack sequence \<Rightarrow> next_transfer_event_for N payload_id s1
         | EvUpgrade u \<Rightarrow> next_transfer_event_for N payload_id s1
         | _ \<Rightarrow> (Inr ev, s1)))"
  by pat_completeness auto
termination
  by (relation "inv_image session_order (\<lambda>(N, i, s). s)") (auto dest: session_receive_consumes)

declare next_transfer_event_for.simps [simp del]

function next_transfer_event :: "('sk, 'pk) sharing_net \<Rightarrow> sharing_session \<Rightarrow> event result" where
  "next_transfer_event N s =
     (case session_receive N s of
        (Inl e, s1) \<Rightarrow> (Inl e, s1)
      | (Inr ev, s1) \<Rightarrow>
        (case ev of
           EvKeepAlive ack sequence \<Rightarrow> next_transfer_event N s1
         | EvUpgrade u \<Rightarrow> next_transfer_event N s1
         | EvDisconnected \<Rightarrow> (Inl PDisconnected, s1)
         | EvPayloadCancelled i offset \<Rightarrow> (Inl PCancelled, s1)
         | EvPayloadError i offset \<Rightarrow> (Inl PInvalidPayload, s1)
         | _ \<Rightarrow> (Inr ev, s1)))"
  by pat_completeness auto
termination
  by (relation "inv_image session_order (\<lambda>(N, s). s)") (auto dest: session_receive_consumes)

declare next_transfer_event.simps [simp del]

definition receive_bytes :: "('sk, 'pk) sharing_net \<Rightarrow> sharing_session \<Rightarrow> bytes result" where
  "receive_bytes N s =
     (case next_transfer_event N s of
        (Inl e, s1) \<Rightarrow> (Inl e, s1)
      | (Inr ev, s1) \<Rightarrow>
        (case ev of
           EvBytes i bs \<Rightarrow>
             (case is_cancel (dec_sharing N) bs of
                Inl e \<Rightarrow> (Inl e, s1)
              | Inr c \<Rightarrow> if c then (Inl PCancelled, s1) else (Inr bs, s1))
         | _ \<Rightarrow> (Inl PInvalidFrame, s1)))"

text \<open>\<open>poll_pending_consent_control\<close>: one ready event while the local user decides.\<close>

definition poll_pending_consent_control :: "('sk, 'pk) sharing_net \<Rightarrow> sharing_session \<Rightarrow> unit result" where
  "poll_pending_consent_control N s =
     (case on_conn (poll_event (s_net N)) s of
        (Inl e, s1) \<Rightarrow> (Inl e, s1)
      | (Inr None, s1) \<Rightarrow> (Inr (), s1)
      | (Inr (Some ev), s1) \<Rightarrow>
        (case ev of
           EvKeepAlive ack sequence \<Rightarrow> (Inr (), s1)
         | EvDisconnected \<Rightarrow> (Inl PDisconnected, s1)
         | EvPayloadCancelled i offset \<Rightarrow> (Inl PCancelled, s1)
         | EvBytes i bs \<Rightarrow>
             let frame_type = (case control_event_type (dec_sharing N) bs of None \<Rightarrow> ''unknown'' | Some t \<Rightarrow> t) in
             if frame_type = ''cancel'' then (Inl PCancelled, s1)
             else if frame_type = ''response'' then (Inr (), s1)
             else (Inl PInvalidPayload, s1)
         | EvUpgrade (UpgradeFailed m) \<Rightarrow> (Inr (), s1)
         | _ \<Rightarrow> (Inl PInvalidPayload, s1)))"

text \<open>The drain consumes the session; the connection afterwards is returned to show its state.\<close>

definition session_drain :: "('sk, 'pk) sharing_net \<Rightarrow> sharing_session \<Rightarrow> unit result" where
  "session_drain N s =
     (case drain_post_transfer_control (s_net N) (sh_conn s) of
        (Inr _, c) \<Rightarrow> (Inr (), s\<lparr>sh_conn := c\<rparr>)
      | (Inl e, c) \<Rightarrow>
          (Inl (case e of
                  ECancelled \<Rightarrow> PCancelled
                | EIo ITimedOut \<Rightarrow> PTimedOut
                | EIo IWouldBlock \<Rightarrow> PTimedOut
                | _ \<Rightarrow> PConnection e), s\<lparr>sh_conn := c\<rparr>))"

subsection \<open>Pairing, offers\<close>

text \<open>
  \<open>exchange_account_free_pairing\<close>, with the random bytes of the encryption frame as arguments.
\<close>

definition exchange_account_free_pairing ::
  "('sk, 'pk) sharing_net \<Rightarrow> bytes \<Rightarrow> bytes \<Rightarrow> sharing_session \<Rightarrow> (pairing_error + pairing_status) \<times> sharing_session" where
  "exchange_account_free_pairing N signed_data secret_id_hash s =
     (case send_control_frame N (account_free_encryption signed_data secret_id_hash) s of
        (Inl e, s1) \<Rightarrow> (Inl (pairing_error_new SendEncryption e), s1)
      | (Inr _, s1) \<Rightarrow>
        (case receive_bytes N s1 of
           (Inl e, s2) \<Rightarrow> (Inl (pairing_error_new ReceiveEncryption e), s2)
         | (Inr encryption, s2) \<Rightarrow>
           (case decode_pairing (dec_sharing N) encryption of
              Inl e \<Rightarrow> (Inl (pairing_error_new ReceiveEncryption e), s2)
            | Inr _ \<Rightarrow>
              (case send_control_frame N account_free_result s2 of
                 (Inl e, s3) \<Rightarrow> (Inl (pairing_error_new SendResult e), s3)
               | (Inr _, s3) \<Rightarrow>
                 (case receive_bytes N s3 of
                    (Inl e, s4) \<Rightarrow> (Inl (pairing_error_new ReceiveResult e), s4)
                  | (Inr result, s4) \<Rightarrow>
                    (case decode_pairing (dec_sharing N) result of
                       Inl e \<Rightarrow> (Inl (pairing_error_new ReceiveResult e), s4)
                     | Inr status \<Rightarrow> (Inr status, s4)))))))"

definition receive_incoming_offer :: "('sk, 'pk) sharing_net \<Rightarrow> sharing_session \<Rightarrow> incoming_offer result" where
  "receive_incoming_offer N s =
     (case receive_bytes N s of
        (Inl e, s1) \<Rightarrow> (Inl e, s1)
      | (Inr bs, s1) \<Rightarrow> (offer_decode (dec_sharing N) bs, s1))"

text \<open>
  The consent step of both senders: \<open>consent_result(decode_response(receive_bytes()?)?)?\<close>.
\<close>

definition await_consent :: "('sk, 'pk) sharing_net \<Rightarrow> sharing_session \<Rightarrow> unit result" where
  "await_consent N s =
     (case receive_bytes N s of
        (Inl e, s1) \<Rightarrow> (Inl e, s1)
      | (Inr bs, s1) \<Rightarrow>
        (case decode_response (dec_sharing N) bs of
           Inl e \<Rightarrow> (Inl e, s1)
         | Inr status \<Rightarrow> (consent_result status, s1)))"

end
