(* ===== verification/Sharing_Transfer.thy ===== *)
theory Sharing_Transfer
  imports Sharing_Session
begin

text \<open>
  The transfers of a Sharing session: \<open>protocol/session/transfer.rs\<close> with \<open>file.rs\<close> and
  \<open>receive.rs\<close> below it for files, and \<open>protocol/text.rs\<close> for text and addresses.
\<close>

subsection \<open>Readers and writers\<close>

text \<open>
  A \<open>Read\<close> is the list of what its calls will report: bytes that are available (handed out up to
  the length of the buffer, the rest stays) or an error. At the end of the list, and for an empty
  item, \<open>read\<close> returns 0.
\<close>

type_synonym reader = "(io_kind + bytes) list"

definition reader_read :: "nat \<Rightarrow> reader \<Rightarrow> (io_kind + bytes) \<times> reader" where
  "reader_read limit r =
     (case r of
        [] \<Rightarrow> (Inr [], [])
      | Inl e # r1 \<Rightarrow> (Inl e, r1)
      | Inr bs # r1 \<Rightarrow> (Inr (take limit bs), if length bs \<le> limit then r1 else Inr (drop limit bs) # r1))"

text \<open>A \<open>Write\<close> that accepts everything, or only so many more bytes before it reports an error.\<close>

record writer =
  w_out :: bytes
  w_room :: "(nat \<times> io_kind) option"

definition writer_write_all :: "bytes \<Rightarrow> writer \<Rightarrow> (io_kind + unit) \<times> writer" where
  "writer_write_all bs w =
     (case w_room w of
        None \<Rightarrow> (Inr (), w\<lparr>w_out := w_out w @ bs\<rparr>)
      | Some (n, e) \<Rightarrow>
          if length bs \<le> n then (Inr (), w\<lparr>w_out := w_out w @ bs, w_room := Some (n - length bs, e)\<rparr>)
          else (Inl e, w\<lparr>w_out := w_out w @ take n bs, w_room := Some (0, e)\<rparr>))"

subsection \<open>Sending a file\<close>

definition FILE_CHUNK_SIZE :: nat where "FILE_CHUNK_SIZE = 65536"

text \<open>The check that the source holds no more than was declared: one more byte is asked for.\<close>

definition source_ended :: "reader \<Rightarrow> (protocol_error + unit) \<times> reader" where
  "source_ended r =
     (case reader_read 1 r of
        (Inl e, r1) \<Rightarrow> (Inl (PIo e), r1)
      | (Inr extra, r1) \<Rightarrow> (if extra \<noteq> [] then Inl PInvalidPayload else Inr (), r1))"

definition session_send_chunk ::
  "('sk, 'pk) sharing_net \<Rightarrow> int \<Rightarrow> bytes \<Rightarrow> bool \<Rightarrow> sharing_session \<Rightarrow> unit result" where
  "session_send_chunk N offset bs is_last s =
     on_conn (send_file_chunk (s_net N) FILE_PAYLOAD_ID offset bs is_last) s"

text \<open>The \<open>while offset < size\<close> loop; it ends because every turn reads at least one byte.\<close>

function send_chunks :: "('sk, 'pk) sharing_net \<Rightarrow> nat \<Rightarrow> nat \<Rightarrow> reader \<Rightarrow> sharing_session \<Rightarrow>
    (protocol_error + unit) \<times> reader \<times> sharing_session" where
  "send_chunks N sz offset r s =
     (if \<not> offset < sz then (Inr (), r, s)
      else
        (case stop_if_cancelled N s of
           (Inl e, s1) \<Rightarrow> (Inl e, r, s1)
         | (Inr _, s1) \<Rightarrow>
             let read_limit = min (sz - offset) FILE_CHUNK_SIZE in
             (case reader_read read_limit r of
                (Inl e, r1) \<Rightarrow> (Inl (PIo e), r1, s1)
              | (Inr chunk, r1) \<Rightarrow>
                  if chunk = [] then (Inl PInvalidPayload, r1, s1)
                  else
                    (case checked_add_u64 offset (length chunk) of
                       None \<Rightarrow> (Inl PInvalidPayload, r1, s1)
                     | Some next_offset \<Rightarrow>
                       (case (if next_offset = sz then source_ended r1 else (Inr (), r1)) of
                          (Inl e, r2) \<Rightarrow> (Inl e, r2, s1)
                        | (Inr _, r2) \<Rightarrow>
                          (case i64_of_u64 offset of
                             None \<Rightarrow> (Inl PInvalidPayload, r2, s1)
                           | Some wire_offset \<Rightarrow>
                             (case session_send_chunk N wire_offset chunk False s1 of
                                (Inl e, s2) \<Rightarrow> (Inl e, r2, s2)
                              | (Inr _, s2) \<Rightarrow> send_chunks N sz next_offset r2 (on_progress next_offset s2)))))))) "
  by pat_completeness auto
termination
  by (relation "measure (\<lambda>(N, sz, offset, r, s). sz - offset)") (auto simp: checked_add_u64_def intro!: diff_less_mono2 split: if_splits)

declare send_chunks.simps [simp del]

definition send_file_payload :: "('sk, 'pk) sharing_net \<Rightarrow> rstring \<Rightarrow> nat \<Rightarrow> int \<Rightarrow> reader \<Rightarrow> sharing_session \<Rightarrow>
    (protocol_error + unit) \<times> reader \<times> sharing_session" where
  "send_file_payload N name sz wire_size r s =
     (case on_conn (send_file_header FILE_PAYLOAD_ID wire_size (Some name)) s of
        (Inl e, s1) \<Rightarrow> (Inl e, r, s1)
      | (Inr _, s1) \<Rightarrow>
          if sz = 0 then
            (case stop_if_cancelled N s1 of
               (Inl e, s2) \<Rightarrow> (Inl e, r, s2)
             | (Inr _, s2) \<Rightarrow>
               (case source_ended r of
                  (Inl e, r1) \<Rightarrow> (Inl e, r1, s2)
                | (Inr _, r1) \<Rightarrow>
                  (case session_send_chunk N 0 [] True s2 of
                     (Inl e, s3) \<Rightarrow> (Inl e, r1, s3)
                   | (Inr _, s3) \<Rightarrow> (Inr (), r1, on_progress 0 s3))))
          else
            (case send_chunks N sz 0 r s1 of
               (Inl e, r1, s2) \<Rightarrow> (Inl e, r1, s2)
             | (Inr _, r1, s2) \<Rightarrow>
               (case stop_if_cancelled N s2 of
                  (Inl e, s3) \<Rightarrow> (Inl e, r1, s3)
                | (Inr _, s3) \<Rightarrow>
                  (case session_send_chunk N wire_size [] True s3 of
                     (Inl e, s4) \<Rightarrow> (Inl e, r1, s4)
                   | (Inr _, s4) \<Rightarrow> (Inr (), r1, s4)))))"

definition send_outgoing_file :: "('sk, 'pk) sharing_net \<Rightarrow> rstring \<Rightarrow> nat \<Rightarrow> reader \<Rightarrow> sharing_session \<Rightarrow>
    (protocol_error + unit) \<times> reader \<times> sharing_session" where
  "send_outgoing_file N name sz r s =
     (if \<not> safe_name name then (Inl (PInvalidOffer ''unsafe file name''), r, s)
      else
        (case i64_of_u64 sz of
           None \<Rightarrow> (Inl PInvalidPayload, r, s)
         | Some wire_size \<Rightarrow>
           (case is_cancelled s of
              (True, s1) \<Rightarrow> (Inl PCancelled, r, s1)
            | (False, s1) \<Rightarrow>
              (case send_control_frame N (introduction name wire_size) s1 of
                 (Inl e, s2) \<Rightarrow> (Inl e, r, s2)
               | (Inr _, s2) \<Rightarrow>
                 (case await_consent N s2 of
                    (Inl e, s3) \<Rightarrow> (Inl e, r, s3)
                  | (Inr _, s3) \<Rightarrow>
                    (case stop_if_cancelled N (on_accepted s3) of
                       (Inl e, s4) \<Rightarrow> (Inl e, r, s4)
                     | (Inr _, s4) \<Rightarrow>
                       (case send_file_payload N name sz wire_size r s4 of
                          (Inl e, r1, s5) \<Rightarrow> (Inl e, r1, s5)
                        | (Inr _, r1, s5) \<Rightarrow>
                          (case stop_if_cancelled N s5 of (x, s6) \<Rightarrow> (x, r1, s6)))))))))"

subsection \<open>Receiving a file\<close>

text \<open>The events \<open>next_transfer_event_for\<close> skips, and what it does with the others.\<close>

definition skipped_for :: "int \<Rightarrow> event \<Rightarrow> bool" where
  "skipped_for i ev =
     (case ev of
        EvPayloadCancelled j offset \<Rightarrow> j \<noteq> i
      | EvPayloadError j offset \<Rightarrow> j \<noteq> i
      | EvKeepAlive ack sequence \<Rightarrow> True
      | EvUpgrade u \<Rightarrow> True
      | _ \<Rightarrow> False)"

definition event_result :: "event \<Rightarrow> protocol_error + event" where
  "event_result ev =
     (case ev of
        EvPayloadCancelled j offset \<Rightarrow> Inl PCancelled
      | EvPayloadError j offset \<Rightarrow> Inl PInvalidPayload
      | _ \<Rightarrow> Inr ev)"

lemma next_event_for_eq:
  "next_transfer_event_for N i s =
     (case session_receive N s of
        (Inl e, s1) \<Rightarrow> (Inl e, s1)
      | (Inr ev, s1) \<Rightarrow> if skipped_for i ev then next_transfer_event_for N i s1 else (event_result ev, s1))"
  by (subst next_transfer_event_for.simps)
    (auto simp: skipped_for_def event_result_def split: prod.split sum.split event.split)

lemma trans_session_order: "trans session_order"
  using trans_receive_order by (auto simp: session_order_def trans_def inv_image_def)

lemma next_event_for_consumes:
  "next_transfer_event_for N i s = (Inr ev, s') \<Longrightarrow> ev \<noteq> EvDisconnected \<Longrightarrow> (s', s) \<in> session_order"
proof (induction s rule: wf_induct_rule [OF wf_session_order])
  case (1 s)
  obtain r s1 where r: "session_receive N s = (r, s1)" by force
  with 1(2) obtain x where x: "r = Inr x" by (cases r) (auto simp: next_event_for_eq [of N i s])
  have o: "x \<noteq> EvDisconnected \<Longrightarrow> (s1, s) \<in> session_order"
    using session_receive_consumes [of x s1 N s] r x by simp
  show ?case
  proof (cases "skipped_for i x")
    case True
    then have "x \<noteq> EvDisconnected" by (auto simp: skipped_for_def)
    with o have o': "(s1, s) \<in> session_order" by simp
    have "next_transfer_event_for N i s1 = (Inr ev, s')"
      using 1(2) r x True by (simp add: next_event_for_eq [of N i s])
    from 1(1) [OF o' this 1(3)] o' show ?thesis using trans_session_order by (metis transD)
  next
    case False
    then have "event_result x = Inr ev" "s' = s1"
      using 1(2) r x by (simp_all add: next_event_for_eq [of N i s])
    then show ?thesis using o 1(3) by (auto simp: event_result_def split: event.splits)
  qed
qed

text \<open>
  What the receive loops do with a BYTES event that is not the payload: a cancel frame ends the
  transfer, another Sharing frame is skipped, anything else is a violation.
\<close>

datatype control_action = ActCancel | ActSkip | ActReject

definition control_action_of :: "('sk, 'pk) sharing_net \<Rightarrow> bytes \<Rightarrow> control_action" where
  "control_action_of N bs =
     (case control_event_type (dec_sharing N) bs of
        None \<Rightarrow> ActReject
      | Some t \<Rightarrow> if t = ''cancel'' then ActCancel else ActSkip)"

function receive_file_header :: "('sk, 'pk) sharing_net \<Rightarrow> incoming_offer \<Rightarrow> sharing_session \<Rightarrow> (int \<times> nat) result" where
  "receive_file_header N offer s =
     (case next_transfer_event_for N (offer_payload_id offer) s of
        (Inl e, s1) \<Rightarrow> (Inl e, s1)
      | (Inr ev, s1) \<Rightarrow>
        (case ev of
           EvBytes i bs \<Rightarrow>
             (case control_action_of N bs of
                ActCancel \<Rightarrow> (Inl PCancelled, s1)
              | ActSkip \<Rightarrow> receive_file_header N offer s1
              | ActReject \<Rightarrow> (Inl PInvalidPayload, s1))
         | EvFileHeader i total_size name \<Rightarrow>
             if i \<noteq> offer_payload_id offer \<or> total_size \<noteq> of_size_bytes offer \<or> name \<noteq> Some (offer_name offer)
             then (Inl PInvalidPayload, s1)
             else (case u64_of_i64 total_size of
                     None \<Rightarrow> (Inl PInvalidPayload, s1)
                   | Some sz \<Rightarrow> (Inr (i, sz), s1))
         | EvDisconnected \<Rightarrow> (Inl PDisconnected, s1)
         | _ \<Rightarrow> (Inl PInvalidPayload, s1)))"
  by pat_completeness auto
termination
  by (relation "inv_image session_order (\<lambda>(N, offer, s). s)") (auto dest!: next_event_for_consumes [OF sym])

declare receive_file_header.simps [simp del]

text \<open>Asking for a local cancellation reads nothing from the peer.\<close>

lemma stop_if_cancelled_Inr:
  "stop_if_cancelled N s = (Inr (), s1) \<longleftrightarrow> is_cancelled s = (False, s1)"
  by (auto simp: stop_if_cancelled_def split: prod.splits bool.splits sum.splits)

lemma is_cancelled_conn: "is_cancelled s = (b, s1) \<Longrightarrow> sh_conn s1 = sh_conn s"
  by (auto simp: is_cancelled_def split: list.splits)

lemma on_progress_order [simp]: "(on_progress n s', s) \<in> session_order \<longleftrightarrow> (s', s) \<in> session_order"
  by (simp add: session_order_def inv_image_def on_progress_def)

lemma transfer_turn:
  "(Inr (), s1) = stop_if_cancelled N s \<Longrightarrow> (Inr ev, s2) = next_transfer_event_for N i s1 \<Longrightarrow>
     ev \<noteq> EvDisconnected \<Longrightarrow> (s2, s) \<in> session_order"
  using stop_if_cancelled_Inr [of N s s1] is_cancelled_conn [of s False s1] next_event_for_consumes [of N i s1 ev s2]
  by (simp add: session_order_def inv_image_def)

function receive_file_chunks :: "('sk, 'pk) sharing_net \<Rightarrow> int \<Rightarrow> nat \<Rightarrow> nat \<Rightarrow> writer \<Rightarrow> sharing_session \<Rightarrow>
    (protocol_error + unit) \<times> writer \<times> sharing_session" where
  "receive_file_chunks N i sz received w s =
     (case stop_if_cancelled N s of
        (Inl e, s1) \<Rightarrow> (Inl e, w, s1)
      | (Inr _, s1) \<Rightarrow>
        (case next_transfer_event_for N i s1 of
           (Inl e, s2) \<Rightarrow> (Inl e, w, s2)
         | (Inr ev, s2) \<Rightarrow>
           (case ev of
              EvBytes j bs \<Rightarrow>
                (case control_action_of N bs of
                   ActCancel \<Rightarrow> (Inl PCancelled, w, s2)
                 | ActSkip \<Rightarrow> receive_file_chunks N i sz received w s2
                 | ActReject \<Rightarrow> (Inl PInvalidPayload, w, s2))
            | EvFileChunk chunk_id offset chunk is_last \<Rightarrow>
                (case i64_of_u64 received of
                   None \<Rightarrow> (Inl PInvalidPayload, w, s2)
                 | Some expected_offset \<Rightarrow>
                   (case checked_add_u64 received (length chunk) of
                      None \<Rightarrow> (Inl PInvalidPayload, w, s2)
                    | Some next_received \<Rightarrow>
                        if chunk_id \<noteq> i \<or> offset \<noteq> expected_offset \<or> \<not> next_received \<le> sz \<or>
                           (chunk = [] \<and> \<not> is_last)
                        then (Inl PInvalidPayload, w, s2)
                        else
                          (case writer_write_all chunk w of
                             (Inl e, w1) \<Rightarrow> (Inl (PIo e), w1, s2)
                           | (Inr _, w1) \<Rightarrow>
                               let s3 = on_progress next_received s2 in
                               if is_last then
                                 if next_received = sz then (Inr (), w1, s3) else (Inl PInvalidPayload, w1, s3)
                               else receive_file_chunks N i sz next_received w1 s3)))
            | EvDisconnected \<Rightarrow> (Inl PDisconnected, w, s2)
            | _ \<Rightarrow> (Inl PInvalidPayload, w, s2))))"
  by pat_completeness auto
termination
  by (relation "inv_image session_order (\<lambda>(N, i, sz, received, w, s). s)") (auto dest: transfer_turn)

declare receive_file_chunks.simps [simp del]

definition receive_incoming_file :: "('sk, 'pk) sharing_net \<Rightarrow> incoming_offer \<Rightarrow> writer \<Rightarrow> sharing_session \<Rightarrow>
    (protocol_error + unit) \<times> writer \<times> sharing_session" where
  "receive_incoming_file N offer w s =
     (case stop_if_cancelled N s of
        (Inl e, s1) \<Rightarrow> (Inl e, w, s1)
      | (Inr _, s1) \<Rightarrow>
        (case receive_file_header N offer s1 of
           (Inl e, s2) \<Rightarrow> (Inl e, w, s2)
         | (Inr (i, sz), s2) \<Rightarrow> receive_file_chunks N i sz 0 w s2))"

subsection \<open>Text and addresses\<close>

definition send_outgoing_value :: "('sk, 'pk) sharing_net \<Rightarrow> rstring \<Rightarrow> text_type \<Rightarrow> sharing_session \<Rightarrow> unit result" where
  "send_outgoing_value N val kind s =
     (if val = [] then (Inl (PInvalidOffer ''empty text value''), s)
      else
        (case i64_of_usize (length val) of
           None \<Rightarrow> (Inl PInvalidPayload, s)
         | Some wire_size \<Rightarrow>
             if wire_size > MAX_TEXT_BYTES then (Inl PInvalidPayload, s)
             else
               (case is_cancelled s of
                  (True, s1) \<Rightarrow> (Inl PCancelled, s1)
                | (False, s1) \<Rightarrow>
                  (case send_control_frame N (text_introduction val wire_size kind) s1 of
                     (Inl e, s2) \<Rightarrow> (Inl e, s2)
                   | (Inr _, s2) \<Rightarrow>
                     (case await_consent N s2 of
                        (Inl e, s3) \<Rightarrow> (Inl e, s3)
                      | (Inr _, s3) \<Rightarrow>
                        (case stop_if_cancelled N (on_accepted s3) of
                           (Inl e, s4) \<Rightarrow> (Inl e, s4)
                         | (Inr _, s4) \<Rightarrow>
                           (case on_conn (send_bytes (s_net N) TEXT_PAYLOAD_ID val) s4 of
                              (Inl e, s5) \<Rightarrow> (Inl e, s5)
                            | (Inr _, s5) \<Rightarrow> stop_if_cancelled N (on_progress (length val) s5))))))))"

definition send_outgoing_text :: "('sk, 'pk) sharing_net \<Rightarrow> rstring \<Rightarrow> sharing_session \<Rightarrow> unit result" where
  "send_outgoing_text N val s = send_outgoing_value N val TtText s"

definition send_outgoing_url :: "('sk, 'pk) sharing_net \<Rightarrow> rstring \<Rightarrow> sharing_session \<Rightarrow> unit result" where
  "send_outgoing_url N val s = send_outgoing_value N val TtUrl s"

function receive_value_loop :: "('sk, 'pk) sharing_net \<Rightarrow> incoming_offer \<Rightarrow> sharing_session \<Rightarrow> rstring result" where
  "receive_value_loop N offer s =
     (case stop_if_cancelled N s of
        (Inl e, s1) \<Rightarrow> (Inl e, s1)
      | (Inr _, s1) \<Rightarrow>
        (case next_transfer_event_for N (offer_payload_id offer) s1 of
           (Inl e, s2) \<Rightarrow> (Inl e, s2)
         | (Inr ev, s2) \<Rightarrow>
           (case ev of
              EvBytes i bs \<Rightarrow>
                if i = offer_payload_id offer then
                  (case i64_of_usize (length bs) of
                     None \<Rightarrow> (Inl PInvalidPayload, s2)
                   | Some sz \<Rightarrow>
                       if sz \<noteq> of_size_bytes offer then (Inl PInvalidPayload, s2)
                       else (case from_utf8 bs of
                               None \<Rightarrow> (Inl PInvalidPayload, s2)
                             | Some val \<Rightarrow> (Inr val, on_progress (length val) s2)))
                else
                  (case control_action_of N bs of
                     ActCancel \<Rightarrow> (Inl PCancelled, s2)
                   | ActSkip \<Rightarrow> receive_value_loop N offer s2
                   | ActReject \<Rightarrow> (Inl PInvalidPayload, s2))
            | EvDisconnected \<Rightarrow> (Inl PDisconnected, s2)
            | _ \<Rightarrow> (Inl PInvalidPayload, s2))))"
  by pat_completeness auto
termination
  by (relation "inv_image session_order (\<lambda>(N, offer, s). s)") (auto dest: transfer_turn)

declare receive_value_loop.simps [simp del]

definition receive_incoming_value ::
  "('sk, 'pk) sharing_net \<Rightarrow> incoming_offer \<Rightarrow> offer_kind \<Rightarrow> sharing_session \<Rightarrow> rstring result" where
  "receive_incoming_value N offer expected s =
     (if of_kind offer \<noteq> expected then (Inl PInvalidPayload, s) else receive_value_loop N offer s)"

definition receive_incoming_text :: "('sk, 'pk) sharing_net \<Rightarrow> incoming_offer \<Rightarrow> sharing_session \<Rightarrow> rstring result" where
  "receive_incoming_text N offer s = receive_incoming_value N offer OText s"

definition receive_incoming_url :: "('sk, 'pk) sharing_net \<Rightarrow> incoming_offer \<Rightarrow> sharing_session \<Rightarrow> rstring result" where
  "receive_incoming_url N offer s = receive_incoming_value N offer OUrl s"

end
