(* ===== verification/Conn_Link.thy ===== *)
theory Conn_Link
  imports Conn_Control
begin

text \<open>
  Two connections joined by a link that loses nothing: what one side writes is delivered to the
  other. The lemmas here follow whole payloads across such a link, in both directions, and are
  what the Sharing layer's delivery theorems rest on.
\<close>

subsection \<open>What sending and receiving leave alone\<close>

definition same_but_input :: "connection \<Rightarrow> connection \<Rightarrow> bool" where
  "same_but_input b b' \<longleftrightarrow>
     (\<exists>x n. b' = b\<lparr>c_stream := (c_stream b)\<lparr>s_in := x\<rparr>, c_channel := (c_channel b)\<lparr>receive_sequence := n\<rparr>\<rparr>)"

definition same_but_output :: "connection \<Rightarrow> connection \<Rightarrow> bool" where
  "same_but_output a a' \<longleftrightarrow>
     (\<exists>x m n. a' = a\<lparr>c_stream := (c_stream a)\<lparr>s_out := s_out (c_stream a) @ x, s_room := m\<rparr>,
                    c_channel := (c_channel a)\<lparr>send_sequence := n\<rparr>\<rparr>)"

lemma same_but_inputI:
  "s' = (c_stream b)\<lparr>s_in := x\<rparr> \<Longrightarrow> ch = (c_channel b)\<lparr>receive_sequence := n\<rparr> \<Longrightarrow>
     same_but_input b (b\<lparr>c_stream := s', c_channel := ch\<rparr>)"
  by (auto simp: same_but_input_def)

lemma same_but_outputI:
  "s' = (c_stream a)\<lparr>s_out := s_out (c_stream a) @ x, s_room := m\<rparr> \<Longrightarrow>
     ch = (c_channel a)\<lparr>send_sequence := n\<rparr> \<Longrightarrow> same_but_output a (a\<lparr>c_stream := s', c_channel := ch\<rparr>)"
  by (auto simp: same_but_output_def)

lemma same_but_inputE:
  assumes "same_but_input b b'"
  obtains x n where
    "b' = b\<lparr>c_stream := (c_stream b)\<lparr>s_in := x\<rparr>, c_channel := (c_channel b)\<lparr>receive_sequence := n\<rparr>\<rparr>"
  using assms unfolding same_but_input_def by (elim exE)

lemma same_but_outputE:
  assumes "same_but_output a a'"
  obtains x m n where
    "a' = a\<lparr>c_stream := (c_stream a)\<lparr>s_out := s_out (c_stream a) @ x, s_room := m\<rparr>,
            c_channel := (c_channel a)\<lparr>send_sequence := n\<rparr>\<rparr>"
  using assms unfolding same_but_output_def by (elim exE)

lemma same_but_input_refl [simp]: "same_but_input b b"
  using same_but_inputI [where s' = "c_stream b" and b = b and x = "s_in (c_stream b)" and
      ch = "c_channel b" and n = "receive_sequence (c_channel b)"] by simp

lemma same_but_input_trans:
  assumes "same_but_input a b" and "same_but_input b c"
  shows "same_but_input a c"
proof -
  obtain x n where b: "b = a\<lparr>c_stream := (c_stream a)\<lparr>s_in := x\<rparr>, c_channel := (c_channel a)\<lparr>receive_sequence := n\<rparr>\<rparr>"
    using assms(1) by (rule same_but_inputE)
  obtain y m where c: "c = b\<lparr>c_stream := (c_stream b)\<lparr>s_in := y\<rparr>, c_channel := (c_channel b)\<lparr>receive_sequence := m\<rparr>\<rparr>"
    using assms(2) by (rule same_but_inputE)
  have "c = a\<lparr>c_stream := (c_stream a)\<lparr>s_in := y\<rparr>, c_channel := (c_channel a)\<lparr>receive_sequence := m\<rparr>\<rparr>"
    by (simp add: c b)
  then show ?thesis unfolding same_but_input_def by (intro exI)
qed

lemma same_but_output_refl [simp]: "same_but_output a a"
  using same_but_outputI [where s' = "c_stream a" and a = a and x = "[]" and m = "s_room (c_stream a)" and
      ch = "c_channel a" and n = "send_sequence (c_channel a)"] by simp

lemma same_but_output_trans:
  assumes "same_but_output a b" and "same_but_output b c"
  shows "same_but_output a c"
proof -
  obtain x m n where b: "b = a\<lparr>c_stream := (c_stream a)\<lparr>s_out := s_out (c_stream a) @ x, s_room := m\<rparr>,
            c_channel := (c_channel a)\<lparr>send_sequence := n\<rparr>\<rparr>"
    using assms(1) by (rule same_but_outputE)
  obtain y k l where c: "c = b\<lparr>c_stream := (c_stream b)\<lparr>s_out := s_out (c_stream b) @ y, s_room := k\<rparr>,
            c_channel := (c_channel b)\<lparr>send_sequence := l\<rparr>\<rparr>"
    using assms(2) by (rule same_but_outputE)
  have "c = a\<lparr>c_stream := (c_stream a)\<lparr>s_out := s_out (c_stream a) @ (x @ y), s_room := k\<rparr>,
            c_channel := (c_channel a)\<lparr>send_sequence := l\<rparr>\<rparr>"
    by (simp add: c b)
  then show ?thesis unfolding same_but_output_def by (intro exI)
qed

lemma same_but_input_fields:
  assumes "same_but_input b b'"
  shows "pending_events b' = pending_events b" "incoming_bytes b' = incoming_bytes b"
    "incoming_files b' = incoming_files b" "outgoing_file b' = outgoing_file b"
    "s_out (c_stream b') = s_out (c_stream b)" "s_end (c_stream b') = s_end (c_stream b)"
    "sc_send (c_channel b') = sc_send (c_channel b)" "send_sequence (c_channel b') = send_sequence (c_channel b)"
    "sc_receive (c_channel b') = sc_receive (c_channel b)"
  using assms by (elim same_but_inputE, simp)+

lemma same_but_output_fields:
  assumes "same_but_output a a'"
  shows "pending_events a' = pending_events a" "incoming_bytes a' = incoming_bytes a"
    "incoming_files a' = incoming_files a" "outgoing_file a' = outgoing_file a"
    "s_in (c_stream a') = s_in (c_stream a)" "s_end (c_stream a') = s_end (c_stream a)"
    "sc_send (c_channel a') = sc_send (c_channel a)" "sc_receive (c_channel a') = sc_receive (c_channel a)"
    "receive_sequence (c_channel a') = receive_sequence (c_channel a)"
    "\<exists>x. s_out (c_stream a') = s_out (c_stream a) @ x"
  using assms by (elim same_but_outputE, simp)+

lemma channel_decrypt_receives:
  assumes "channel_decrypt P m c = (r, c')"
  shows "\<exists>n. c' = c\<lparr>receive_sequence := n\<rparr>"
proof -
  have "c' = c \<or> (\<exists>n. c' = c\<lparr>receive_sequence := n\<rparr>)"
    using assms by (auto simp: channel_decrypt_def decode_payload_def Let_def split: sum.splits option.splits if_splits)
  moreover have "c = c\<lparr>receive_sequence := receive_sequence c\<rparr>" by simp
  ultimately show ?thesis by blast
qed

lemma io_read_input: "io_read s = (r, s') \<Longrightarrow> \<exists>x. s' = s\<lparr>s_in := x\<rparr>"
  by (auto simp: io_read_def read_frame_remainder_def stream_read_exact_def split: sum.splits if_splits)

lemma decode_encrypted_same:
  assumes "decode_encrypted N e c = (r, c')"
  shows "same_but_input c c'"
proof -
  obtain x ch where d: "channel_decrypt (n_crypto N) e (c_channel c) = (x, ch)" by force
  from channel_decrypt_receives [OF this] obtain n where "ch = (c_channel c)\<lparr>receive_sequence := n\<rparr>" by blast
  then have "same_but_input c (c\<lparr>c_channel := ch\<rparr>)"
    using same_but_inputI [where s' = "c_stream c" and b = c and x = "s_in (c_stream c)" and ch = ch and n = n] by simp
  then show ?thesis
    using assms d by (auto simp: decode_encrypted_def split: sum.splits option.splits)
qed

lemma conn_recv_same:
  assumes "conn_recv N b = (r, b')"
  shows "same_but_input b b'"
proof -
  obtain x s where i: "io_read (c_stream b) = (x, s)" by force
  have 1: "same_but_input b (b\<lparr>c_stream := s\<rparr>)"
    using io_read_input [OF i] same_but_inputI [where s' = s and b = b and ch = "c_channel b" and n = "receive_sequence (c_channel b)"] by auto
  show ?thesis
  proof (cases x)
    case (Inl e)
    then show ?thesis using assms i 1 by (auto simp: conn_recv_def)
  next
    case (Inr e)
    then have "decode_encrypted N e (b\<lparr>c_stream := s\<rparr>) = (r, b')" using assms i by (simp add: conn_recv_def)
    from same_but_input_trans [OF 1 decode_encrypted_same [OF this]] show ?thesis .
  qed
qed

definition grows :: "stream \<Rightarrow> stream \<Rightarrow> bool" where
  "grows s s' \<longleftrightarrow> (\<exists>x m. s' = s\<lparr>s_out := s_out s @ x, s_room := m\<rparr>)"

lemma growsI: "s' = s\<lparr>s_out := s_out s @ x, s_room := m\<rparr> \<Longrightarrow> grows s s'"
  unfolding grows_def by (intro exI)

lemma grows_refl: "grows s s"
  by (rule growsI [where x = "[]" and m = "s_room s"]) simp

lemma grows_trans:
  assumes "grows s t" and "grows t u"
  shows "grows s u"
proof -
  obtain x m where t: "t = s\<lparr>s_out := s_out s @ x, s_room := m\<rparr>" using assms(1) unfolding grows_def by (elim exE)
  obtain y k where u: "u = t\<lparr>s_out := s_out t @ y, s_room := k\<rparr>" using assms(2) unfolding grows_def by (elim exE)
  show ?thesis by (rule growsI [where x = "x @ y" and m = k]) (simp add: u t)
qed

lemma write_all_grows: "grows s (snd (stream_write_all bs s))"
proof -
  have "grows s (s\<lparr>s_out := s_out s @ bs\<rparr>)" by (rule growsI [where x = bs and m = "s_room s"]) simp
  moreover have "grows s (s\<lparr>s_out := s_out s @ x, s_room := m\<rparr>)" for x m by (rule growsI) (rule refl)
  ultimately show ?thesis by (simp add: stream_write_all_def grows_refl split: option.split)
qed

lemma io_write_output: "grows s (snd (io_write bs s))"
proof -
  obtain r1 s1 where 1: "stream_write_all (u32_to_be_bytes (length bs)) s = (r1, s1)" by force
  obtain r2 s2 where 2: "stream_write_all bs s1 = (r2, s2)" by force
  have "grows s s1" "grows s1 s2"
    using write_all_grows [of s "u32_to_be_bytes (length bs)"] write_all_grows [of s1 bs] 1 2 by simp_all
  moreover from this have "grows s s2" by (rule grows_trans)
  moreover have "snd (stream_flush t) = t" for t by (simp add: stream_flush_def split: option.split)
  ultimately show ?thesis
    by (simp add: io_write_def 1 2 grows_refl split: sum.split prod.split) (metis snd_conv)
qed

lemma channel_encrypt_sends:
  assumes "channel_encrypt P p iv c = (r, c')"
  shows "\<exists>n. c' = c\<lparr>send_sequence := n\<rparr>"
proof -
  have "c' = c \<or> (\<exists>n. c' = c\<lparr>send_sequence := n\<rparr>)"
    using assms by (auto simp: channel_encrypt_def Let_def split: sum.splits option.splits)
  moreover have "c = c\<lparr>send_sequence := send_sequence c\<rparr>" by simp
  ultimately show ?thesis by blast
qed

lemma conn_send_same:
  assumes "conn_send N f a = (r, a')"
  shows "same_but_output a a'"
proof -
  obtain x ch where e: "channel_encrypt (n_crypto N) (enc_offline N f)
      (os_iv N (send_sequence (c_channel a))) (c_channel a) = (x, ch)" by force
  from channel_encrypt_sends [OF e] obtain n where c: "ch = (c_channel a)\<lparr>send_sequence := n\<rparr>" by blast
  show ?thesis
  proof (cases x)
    case (Inl _)
    then show ?thesis
      using assms e c same_but_outputI [where s' = "c_stream a" and a = a and x = "[]" and m = "s_room (c_stream a)" and ch = ch and n = n]
      by (auto simp: conn_send_def)
  next
    case (Inr m)
    obtain y s where w: "io_write m (c_stream a) = (y, s)" by force
    from io_write_output [of "c_stream a" m] w have "grows (c_stream a) s" by simp
    then obtain z k where z: "s = (c_stream a)\<lparr>s_out := s_out (c_stream a) @ z, s_room := k\<rparr>"
      unfolding grows_def by (elim exE)
    have "a' = a\<lparr>c_stream := s, c_channel := ch\<rparr>" using assms e w Inr by (cases a) (simp add: conn_send_def)
    then show ?thesis using same_but_outputI [OF z c] by simp
  qed
qed

lemma conn_data_same: "conn_data N h offset bs is_last a = (r, a') \<Longrightarrow> same_but_output a a'"
  by (auto simp: conn_data_def dest: conn_send_same split: if_splits)

lemma send_bytes_same: "send_bytes N i bs a = (r, a') \<Longrightarrow> same_but_output a a'"
  by (auto simp: send_bytes_def dest!: conn_data_same intro: same_but_output_trans
      split: option.splits sum.splits if_splits prod.splits)

subsection \<open>Links\<close>

text \<open>Nothing is in flight in either direction, and no payload is half received.\<close>

definition quiet :: "connection \<Rightarrow> bool" where
  "quiet c \<longleftrightarrow> pending_events c = [] \<and> incoming_bytes c = Map.empty \<and> incoming_files c = Map.empty"

definition linked :: "('sk, 'pk) net \<Rightarrow> connection \<Rightarrow> connection \<Rightarrow> bool" where
  "linked N a b \<longleftrightarrow> in_flight N [] a b \<and> in_flight N [] b a \<and> quiet a \<and> quiet b"

lemma linked_sym: "linked N a b \<Longrightarrow> linked N b a"
  by (simp add: linked_def)

lemma in_flight_cong:
  "c_stream b' = c_stream b \<Longrightarrow> c_channel b' = c_channel b \<Longrightarrow> in_flight N fs a b \<Longrightarrow> in_flight N fs a b'"
proof (induction fs arbitrary: b b')
  case (Cons f fs)
  then obtain b1 where r: "conn_recv N b = (Inr f, b1)" and fl: "in_flight N fs a b1" by auto
  obtain e s where i: "io_read (c_stream b) = (Inr e, s)"
    and d: "decode_encrypted N e (b\<lparr>c_stream := s\<rparr>) = (Inr f, b1)"
    using r by (auto simp: conn_recv_def split: prod.splits sum.splits)
  have c1: "c_stream b1 = s" using decode_encrypted_stream [of N e "b\<lparr>c_stream := s\<rparr>"] d by simp
  have "conn_recv N b' = (Inr f, b'\<lparr>c_stream := s, c_channel := c_channel b1\<rparr>)"
    using i d Cons.prems(1,2)
    by (auto simp: conn_recv_def decode_encrypted_def split: prod.splits sum.splits option.splits)
  moreover have "in_flight N fs a (b'\<lparr>c_stream := s, c_channel := c_channel b1\<rparr>)"
    by (rule Cons.IH [OF _ _ fl]) (simp_all add: c1)
  ultimately show ?case by auto
qed simp

text \<open>Output on one side does not disturb what the other side has sent before.\<close>

lemma in_flight_output: "same_but_output a a' \<Longrightarrow> in_flight N [] b a \<Longrightarrow> in_flight N [] b a'"
  by (simp add: in_step_def same_but_output_fields)

lemma in_flight_input: "same_but_input b b' \<Longrightarrow> in_flight N [] b a \<Longrightarrow> in_flight N [] b' a"
  by (simp add: in_step_def same_but_input_fields)

lemma deliver_in_flight: "in_flight N [] b a \<Longrightarrow> in_flight N [] (deliver x b) a"
  by simp

lemma deliver_Nil [simp]: "deliver [] b = b"
  by (simp add: deliver_def)

lemma deliver_same: "same_but_input b (deliver x b)"
  using same_but_inputI [where s' = "(c_stream b)\<lparr>s_in := s_in (c_stream b) @ x\<rparr>" and b = b and ch = "c_channel b" and
      n = "receive_sequence (c_channel b)"]
  by (simp add: deliver_def)

subsection \<open>Events a connection is about to return\<close>

fun yields :: "('sk, 'pk) net \<Rightarrow> event list \<Rightarrow> connection \<Rightarrow> connection \<Rightarrow> bool" where
  "yields N [] b b' \<longleftrightarrow> b = b'"
| "yields N (ev # evs) b b' \<longleftrightarrow> (\<exists>b1. conn_receive N b = (Inr ev, b1) \<and> yields N evs b1 b')"

lemma receive_bytes_frames_same:
  assumes fl: "in_flight N (bytes_frames h bs) a b" and h: "payload_header i KBytes (int (length bs)) None = Inr h"
    and len: "length bs \<le> MAX_FRAME_LENGTH" and q: "quiet b"
  shows "\<exists>b'. conn_receive N b = (Inr (EvBytes i bs), b') \<and> in_flight N [] a b' \<and> same_but_input b b'"
proof -
  note hd = payload_header_Inr [OF h]
  have p: "pending_events b = []" and nb: "incoming_bytes b = Map.empty" using q by (simp_all add: quiet_def)
  show ?thesis
  proof (cases "bs = []")
    case True
    with fl obtain b1 where r: "conn_recv N b = (Inr (data_frame h 0 [] True), b1)" and f: "in_flight N [] a b1"
      by (auto simp: bytes_frames_def)
    note k = conn_recv_same [OF r]
    note kf = same_but_input_fields [OF k]
    have "conn_event N (data_frame h 0 [] True) b1 = (Inr (Some (EvBytes i [])), b1)"
      using conn_event_data [of h i 0 0 "[]" N True b1] hd True bytes_payload_empty [of b1 i] kf nb
      by (simp add: MAX_FRAME_LENGTH_def fun_upd_idem)
    from receive_event [OF p r this] f k True show ?thesis by simp
  next
    case False
    with fl obtain b1 b2 where r1: "conn_recv N b = (Inr (data_frame h 0 bs False), b1)"
      and r2: "conn_recv N b1 = (Inr (data_frame h (int (length bs)) [] True), b2)"
      and f: "in_flight N [] a b2"
      by (auto simp: bytes_frames_def)
    note k1 = conn_recv_same [OF r1] and k2 = conn_recv_same [OF r2]
    note k = same_but_input_trans [OF k1 k2]
    note f1 = same_but_input_fields [OF k1] and f2 = same_but_input_fields [OF k]
    let ?p = "\<lparr>ib_bytes = bs, ib_next_offset = int (length bs), ib_size = int (length bs)\<rparr>"
    let ?m = "(incoming_bytes b)(i \<mapsto> ?p)"
    have e1: "conn_event N (data_frame h 0 bs False) b1 = (Inr None, b1\<lparr>incoming_bytes := ?m\<rparr>)"
      using conn_event_data [of h i "int (length bs)" 0 bs N False b1] hd len nb f1
        bytes_payload_first [of b1 i bs "int (length bs)"] by simp
    have r2': "conn_recv N (b1\<lparr>incoming_bytes := ?m\<rparr>) =
        (Inr (data_frame h (int (length bs)) [] True), b2\<lparr>incoming_bytes := ?m\<rparr>)"
      by (rule conn_recv_incoming [OF r2])
    have e2: "conn_event N (data_frame h (int (length bs)) [] True) (b2\<lparr>incoming_bytes := ?m\<rparr>) =
        (Inr (Some (EvBytes i bs)), b2)"
      using conn_event_data [of h i "int (length bs)" "int (length bs)" "[]" N True "b2\<lparr>incoming_bytes := ?m\<rparr>"]
        hd nb bytes_payload_last [of "b2\<lparr>incoming_bytes := ?m\<rparr>" i bs "int (length bs)"] f2
      by (simp add: MAX_FRAME_LENGTH_def fun_upd_idem)
    have "conn_receive N b = conn_receive N (b1\<lparr>incoming_bytes := ?m\<rparr>)"
      using receive_event [OF p r1 e1] by simp
    also have "\<dots> = (Inr (EvBytes i bs), b2)"
      using receive_event [OF _ r2' e2] f1 p by simp
    finally show ?thesis using f k by blast
  qed
qed

text \<open>One whole BYTES payload across the link; the link is quiet again afterwards.\<close>

lemma link_bytes:
  assumes l: "linked N a b" and s: "send_bytes N i bs a = (Inr (), a')"
  shows "\<exists>b'. conn_receive N (deliver (written a a') b) = (Inr (EvBytes i bs), b') \<and> linked N a' b' \<and>
     same_but_input b b' \<and> same_but_output a a'"
proof -
  have q: "quiet (deliver (written a a') b)" "in_flight N [] a b" "in_flight N [] b a"
    using l by (simp_all add: linked_def quiet_def)
  note o = send_bytes_same [OF s]
  from send_bytes_in_flight [OF q(2) s] obtain h where
    h: "payload_header i KBytes (int (length bs)) None = Inr h" and len: "length bs \<le> MAX_FRAME_LENGTH"
    and fl: "in_flight N (bytes_frames h bs) a' (deliver (written a a') b)" by auto
  from receive_bytes_frames_same [OF fl h len q(1)] obtain b' where
    r: "conn_receive N (deliver (written a a') b) = (Inr (EvBytes i bs), b')"
    and fl': "in_flight N [] a' b'" and k: "same_but_input (deliver (written a a') b) b'" by blast
  have k': "same_but_input b b'" by (rule same_but_input_trans [OF deliver_same k])
  have "in_flight N [] b' a'" by (rule in_flight_input [OF k' in_flight_output [OF o q(3)]])
  then have "linked N a' b'"
    using fl' l same_but_input_fields [OF k'] same_but_output_fields [OF o]
    by (simp add: linked_def quiet_def)
  then show ?thesis using r k' o by blast
qed

subsection \<open>A FILE payload across the link\<close>

fun chunk_frames :: "payload_header_msg \<Rightarrow> nat \<Rightarrow> bytes list \<Rightarrow> offline_frame list" where
  "chunk_frames h offset [] = [data_frame h (int offset) [] True]"
| "chunk_frames h offset (c # cs) = data_frame h (int offset) c False # chunk_frames h (offset + length c) cs"

fun chunk_events :: "int \<Rightarrow> nat \<Rightarrow> bytes list \<Rightarrow> event list" where
  "chunk_events i offset [] = [EvFileChunk i (int offset) [] True]"
| "chunk_events i offset (c # cs) = EvFileChunk i (int offset) c False # chunk_events i (offset + length c) cs"

lemma conn_event_file:
  assumes "payload_header_data h = Inr (i, sz, KFile)" and "length bs \<le> MAX_FRAME_LENGTH"
  shows "conn_event N (data_frame h (int offset) bs is_last) c =
     (case file_payload i sz (ph_file_name h) (int offset) bs is_last c of
        (Inl e, c1) \<Rightarrow> (Inl e, c1) | (Inr ev, c1) \<Rightarrow> (Inr (Some ev), c1))"
  using assms decoded_chunk [of "int offset" bs is_last]
  by (simp add: conn_event_def v1_event_def data_frame_def offline_def v1_default_def conn_payload_def wire_numbers)

lemma file_payload_next:
  assumes "incoming_files c i = Some \<lparr>if_next_offset = int offset, if_size = sz\<rparr>"
    and "int offset + int (length bs) \<le> sz" and "is_last \<longrightarrow> int offset + int (length bs) = sz"
    and "sz \<le> MAX_PAYLOAD_LENGTH"
  shows "file_payload i sz name (int offset) bs is_last c =
     (Inr (EvFileChunk i (int offset) bs is_last),
      c\<lparr>incoming_files := (incoming_files c)(i := if is_last then None
         else Some \<lparr>if_next_offset = int (offset + length bs), if_size = sz\<rparr>)\<rparr>)"
  using assms
  by (auto simp: file_payload_def begin_file_def advance_file_def i64_of_usize_def checked_add_i64_def range_defs
      MAX_PAYLOAD_LENGTH_def Let_def)

lemma file_payload_first:
  assumes "incoming_files c i = None" and "pending_events c = []"
    and "int (length bs) \<le> sz" and "is_last \<longrightarrow> int (length bs) = sz" and "sz \<le> MAX_PAYLOAD_LENGTH"
  shows "file_payload i sz name 0 bs is_last c =
     (Inr (EvFileHeader i sz name),
      c\<lparr>incoming_files := (incoming_files c)(i := if is_last then None
          else Some \<lparr>if_next_offset = int (length bs), if_size = sz\<rparr>),
        pending_events := [EvFileChunk i 0 bs is_last]\<rparr>)"
  using assms
  by (auto simp: file_payload_def begin_file_def advance_file_def i64_of_usize_def checked_add_i64_def range_defs
      MAX_PAYLOAD_LENGTH_def Let_def)

lemma conn_recv_files_update:
  assumes "conn_recv N c = (Inr f, c')"
  shows "conn_recv N (c\<lparr>incoming_files := m\<rparr>) = (Inr f, c'\<lparr>incoming_files := m\<rparr>)"
proof -
  obtain e s where r: "io_read (c_stream c) = (Inr e, s)"
    and d: "decode_encrypted N e (c\<lparr>c_stream := s\<rparr>) = (Inr f, c')"
    using assms by (auto simp: conn_recv_def split: prod.splits sum.splits)
  have "decode_encrypted N e (x\<lparr>incoming_files := m\<rparr>) =
      (fst (decode_encrypted N e x), (snd (decode_encrypted N e x))\<lparr>incoming_files := m\<rparr>)" for x
    by (auto simp: decode_encrypted_def split: prod.splits sum.splits option.splits)
  from this [of "c\<lparr>c_stream := s\<rparr>"] r d show ?thesis by (cases c) (simp add: conn_recv_def)
qed

lemma chunk_frames_yield:
  assumes "in_flight N (chunk_frames h offset cs) a b" and "payload_header_data h = Inr (i, sz, KFile)"
    and "\<forall>c \<in> set cs. length c \<le> MAX_FRAME_LENGTH" and "int (offset + length (concat cs)) = sz"
    and "sz \<le> MAX_PAYLOAD_LENGTH" and "pending_events b = []" and "incoming_files b = m"
  shows "\<exists>b'. yields N (chunk_events i offset cs)
      (b\<lparr>incoming_files := m(i \<mapsto> \<lparr>if_next_offset = int offset, if_size = sz\<rparr>)\<rparr>) (b'\<lparr>incoming_files := m(i := None)\<rparr>) \<and>
    in_flight N [] a b' \<and> same_but_input b b'"
  using assms
proof (induction cs arbitrary: offset b)
  case Nil
  then obtain b1 where r: "conn_recv N b = (Inr (data_frame h (int offset) [] True), b1)" and f: "in_flight N [] a b1"
    by auto
  let ?m = "m(i \<mapsto> \<lparr>if_next_offset = int offset, if_size = sz\<rparr>)"
  note r' = conn_recv_files_update [OF r, of ?m]
  have e: "conn_event N (data_frame h (int offset) [] True) (b1\<lparr>incoming_files := ?m\<rparr>) =
      (Inr (Some (EvFileChunk i (int offset) [] True)), b1\<lparr>incoming_files := m(i := None)\<rparr>)"
    using conn_event_file [OF Nil.prems(2), of "[]" N offset True] Nil.prems
      file_payload_next [of "b1\<lparr>incoming_files := ?m\<rparr>" i offset sz "[]" True "ph_file_name h"]
    by (simp add: MAX_FRAME_LENGTH_def)
  from receive_event [OF _ r' e] Nil.prems have
    "conn_receive N (b\<lparr>incoming_files := ?m\<rparr>) =
       (Inr (EvFileChunk i (int offset) [] True), b1\<lparr>incoming_files := m(i := None)\<rparr>)" by simp
  then show ?case
    by (intro exI [of _ b1], simp only: chunk_events.simps yields.simps)
      (use f conn_recv_same [OF r] in blast)
next
  case (Cons c cs)
  from Cons.prems(1) obtain b1 where r: "conn_recv N b = (Inr (data_frame h (int offset) c False), b1)"
    and f: "in_flight N (chunk_frames h (offset + length c) cs) a b1" by auto
  note k = conn_recv_same [OF r]
  let ?m = "m(i \<mapsto> \<lparr>if_next_offset = int offset, if_size = sz\<rparr>)"
  let ?m1 = "m(i \<mapsto> \<lparr>if_next_offset = int (offset + length c), if_size = sz\<rparr>)"
  note r' = conn_recv_files_update [OF r, of ?m]
  have le: "int offset + int (length c) \<le> sz" using Cons.prems(4) by simp
  have e: "conn_event N (data_frame h (int offset) c False) (b1\<lparr>incoming_files := ?m\<rparr>) =
      (Inr (Some (EvFileChunk i (int offset) c False)), b1\<lparr>incoming_files := ?m1\<rparr>)"
    using conn_event_file [OF Cons.prems(2), of c N offset False] Cons.prems(3,5) le
      file_payload_next [of "b1\<lparr>incoming_files := ?m\<rparr>" i offset sz c False "ph_file_name h"]
    by simp
  from receive_event [OF _ r' e] Cons.prems(6) have
    1: "conn_receive N (b\<lparr>incoming_files := ?m\<rparr>) =
       (Inr (EvFileChunk i (int offset) c False), b1\<lparr>incoming_files := ?m1\<rparr>)" by simp
  have ps: "\<forall>c \<in> set cs. length c \<le> MAX_FRAME_LENGTH" "int (offset + length c + length (concat cs)) = sz"
    "pending_events b1 = []" "incoming_files b1 = m"
    using Cons.prems same_but_input_fields [OF k] by simp_all
  obtain b' where b': "yields N (chunk_events i (offset + length c) cs) (b1\<lparr>incoming_files := ?m1\<rparr>)
      (b'\<lparr>incoming_files := m(i := None)\<rparr>)" "in_flight N [] a b'" "same_but_input b1 b'"
    using Cons.IH [OF f Cons.prems(2) ps(1,2) Cons.prems(5) ps(3,4)] by blast
  show ?case
    by (intro exI [of _ b'], simp only: chunk_events.simps yields.simps)
      (use 1 b' same_but_input_trans [OF k b'(3)] in blast)
qed

lemma file_frames_yield:
  assumes fl: "in_flight N (chunk_frames h 0 cs) a b" and h: "payload_header i KFile sz name = Inr h"
    and cs: "\<forall>c \<in> set cs. length c \<le> MAX_FRAME_LENGTH" "int (length (concat cs)) = sz" and q: "quiet b"
  shows "\<exists>b'. yields N (EvFileHeader i sz name # chunk_events i 0 cs) b b' \<and> in_flight N [] a b' \<and> same_but_input b b'"
proof -
  note hd = payload_header_Inr [OF h]
  have p: "pending_events b = []" and nf: "incoming_files b = Map.empty" using q by (simp_all add: quiet_def)
  show ?thesis
  proof (cases cs)
    case Nil
    with fl obtain b1 where r: "conn_recv N b = (Inr (data_frame h 0 [] True), b1)" and f: "in_flight N [] a b1" by auto
    note k = conn_recv_same [OF r]
    have "conn_event N (data_frame h 0 [] True) b1 =
        (Inr (Some (EvFileHeader i sz name)), b1\<lparr>pending_events := [EvFileChunk i 0 [] True]\<rparr>)"
      using conn_event_file [of h i sz "[]" N 0 True] file_payload_first [of b1 i "[]" sz True name] hd cs Nil
        same_but_input_fields [OF k] p nf
      by (simp add: MAX_FRAME_LENGTH_def fun_upd_idem)
    from receive_event [OF p r this] have
      1: "conn_receive N b = (Inr (EvFileHeader i sz name), b1\<lparr>pending_events := [EvFileChunk i 0 [] True]\<rparr>)" by simp
    have 2: "conn_receive N (b1\<lparr>pending_events := [EvFileChunk i 0 [] True]\<rparr>) = (Inr (EvFileChunk i 0 [] True), b1)"
      using same_but_input_fields [OF k] p by (subst conn_receive.simps) simp
    show ?thesis using 1 2 Nil f k by auto
  next
    case (Cons c cs')
    with fl obtain b1 where r: "conn_recv N b = (Inr (data_frame h 0 c False), b1)"
      and f: "in_flight N (chunk_frames h (length c) cs') a b1" by auto
    note k = conn_recv_same [OF r]
    note kf = same_but_input_fields [OF k]
    let ?m = "Map.empty(i \<mapsto> \<lparr>if_next_offset = int (length c), if_size = sz\<rparr>)"
    have "conn_event N (data_frame h 0 c False) b1 =
        (Inr (Some (EvFileHeader i sz name)), b1\<lparr>incoming_files := ?m, pending_events := [EvFileChunk i 0 c False]\<rparr>)"
      using conn_event_file [of h i sz c N 0 False] file_payload_first [of b1 i c sz False name] hd cs Cons kf p nf
      by simp
    from receive_event [OF p r this] have
      1: "conn_receive N b = (Inr (EvFileHeader i sz name),
        b1\<lparr>incoming_files := ?m, pending_events := [EvFileChunk i 0 c False]\<rparr>)" by simp
    have 2: "conn_receive N (b1\<lparr>incoming_files := ?m, pending_events := [EvFileChunk i 0 c False]\<rparr>) =
        (Inr (EvFileChunk i 0 c False), b1\<lparr>incoming_files := ?m\<rparr>)"
      using kf p by (subst conn_receive.simps) simp
    have ps: "payload_header_data h = Inr (i, sz, KFile)" "\<forall>c \<in> set cs'. length c \<le> MAX_FRAME_LENGTH"
      "int (length c + length (concat cs')) = sz" "sz \<le> MAX_PAYLOAD_LENGTH" "pending_events b1 = []"
      "incoming_files b1 = Map.empty" "Map.empty(i := None) = Map.empty"
      using hd cs Cons kf p nf by (simp_all add: fun_upd_idem)
    from chunk_frames_yield [OF f ps(1-6)] obtain b' where
      y: "yields N (chunk_events i (length c) cs') (b1\<lparr>incoming_files := ?m\<rparr>) (b'\<lparr>incoming_files := Map.empty\<rparr>)"
      "in_flight N [] a b'" "same_but_input b1 b'" unfolding ps(7) by blast
    have k': "same_but_input b b'" by (rule same_but_input_trans [OF k y(3)])
    then have "b'\<lparr>incoming_files := Map.empty\<rparr> = b'"
      using same_but_input_fields [OF k'] nf by simp
    then show ?thesis using 1 2 Cons y k' by auto
  qed
qed

subsection \<open>Frames a connection has sent\<close>

text \<open>The frames sent between two states; fields other than stream and channel may differ.\<close>

fun sent :: "('sk, 'pk) net \<Rightarrow> offline_frame list \<Rightarrow> connection \<Rightarrow> connection \<Rightarrow> bool" where
  "sent N [] a a' \<longleftrightarrow> c_stream a' = c_stream a \<and> c_channel a' = c_channel a"
| "sent N (f # fs) a a' \<longleftrightarrow> (\<exists>a1. conn_send N f a = (Inr (), a1) \<and> sent N fs a1 a')"

lemma conn_send_cong:
  assumes "conn_send N f a = (r, a1)" and "c_stream b = c_stream a" and "c_channel b = c_channel a"
  shows "\<exists>b1. conn_send N f b = (r, b1) \<and> c_stream b1 = c_stream a1 \<and> c_channel b1 = c_channel a1"
  using assms by (auto simp: conn_send_def split: prod.splits sum.splits)

lemma sent_cong:
  "sent N fs a a' \<Longrightarrow> c_stream b = c_stream a \<Longrightarrow> c_channel b = c_channel a \<Longrightarrow> c_stream b' = c_stream a' \<Longrightarrow>
     c_channel b' = c_channel a' \<Longrightarrow> sent N fs b b'"
proof (induction fs arbitrary: a b)
  case (Cons f fs)
  then show ?case using conn_send_cong by (metis sent.simps(2))
qed simp

lemma sent_append: "sent N fs a a1 \<Longrightarrow> sent N gs a1 a' \<Longrightarrow> sent N (fs @ gs) a a'"
proof (induction fs arbitrary: a)
  case Nil
  then show ?case using sent_cong [of N gs a1 a' a a'] by simp
qed auto

lemma sent_fields:
  assumes "sent N fs a a'"
  shows "s_in (c_stream a') = s_in (c_stream a) \<and> s_end (c_stream a') = s_end (c_stream a) \<and>
    sc_receive (c_channel a') = sc_receive (c_channel a) \<and>
    receive_sequence (c_channel a') = receive_sequence (c_channel a) \<and>
    (\<exists>x. s_out (c_stream a') = s_out (c_stream a) @ x)"
  using assms
proof (induction fs arbitrary: a)
  case (Cons f fs)
  then obtain a1 where "conn_send N f a = (Inr (), a1)" and s: "sent N fs a1 a'" by auto
  note o = same_but_output_fields [OF conn_send_same [OF this(1)]]
  from o(10) obtain x where "s_out (c_stream a1) = s_out (c_stream a) @ x" ..
  with o Cons.IH [OF s] show ?case by auto
qed simp

lemma in_flight_sender_cong: "c_channel a' = c_channel a \<Longrightarrow> in_flight N fs a b \<Longrightarrow> in_flight N fs a' b"
  by (induction fs arbitrary: b) auto

lemma written_cong: "c_stream a' = c_stream a1 \<Longrightarrow> written a a' = written a a1"
  by (simp add: written_def)

lemma in_flight_sent:
  "in_flight N fs a b \<Longrightarrow> sent N gs a a' \<Longrightarrow> in_flight N (fs @ gs) a' (deliver (written a a') b)"
proof (induction gs arbitrary: fs a b)
  case Nil
  then show ?case by (simp add: written_def in_flight_sender_cong)
next
  case (Cons g gs)
  then obtain a1 where c: "conn_send N g a = (Inr (), a1)" and s: "sent N gs a1 a'" by auto
  have "written a a' = written a a1 @ written a1 a'"
    using written_trans conn_send_appends [OF c] sent_fields [OF s] by blast
  then show ?case using Cons.IH [OF in_flight_send [OF Cons.prems(1) c] s] by simp
qed

lemma in_flight_back: "in_flight N [] b a \<Longrightarrow> sent N fs a a' \<Longrightarrow> in_flight N [] b a'"
  using sent_fields [of N fs a a'] by (simp add: in_step_def)

lemma send_bytes_sent:
  assumes "send_bytes N i bs a = (Inr (), a')"
  shows "\<exists>h. payload_header i KBytes (int (length bs)) None = Inr h \<and> length bs \<le> MAX_FRAME_LENGTH \<and>
     sent N (bytes_frames h bs) a a'"
  using assms
  by (auto simp: send_bytes_def bytes_frames_def i64_of_usize_def dest!: conn_data_Inr
      split: if_splits sum.splits prod.splits)

lemma recv_if_ready_quiet:
  "s_in (c_stream c) = [] \<Longrightarrow> recv_if_ready N c = (Inr r, c1) \<Longrightarrow> r = None \<and> c1 = c"
  by (auto simp: recv_if_ready_def recv_during_def io_read_def stream_read_exact_def
      split: if_splits prod.splits sum.splits)

lemma poll_outgoing_quiet:
  assumes "s_in (c_stream c) = []" and "poll_outgoing_control N i c = (Inr (), c')"
  shows "c' = c"
proof -
  obtain r c1 where r: "recv_if_ready N c = (r, c1)" by force
  show ?thesis
  proof (cases r)
    case (Inl e)
    then show ?thesis using assms(2) r by (subst (asm) poll_outgoing_control.simps) (simp split: if_splits)
  next
    case (Inr x)
    with recv_if_ready_quiet [OF assms(1)] r have "x = None" "c1 = c" by auto
    then show ?thesis using assms(2) r Inr by (subst (asm) poll_outgoing_control.simps) simp
  qed
qed

lemma send_file_chunk_sent:
  assumes "send_file_chunk N i offset bs is_last a = (Inr (), a')" and "s_in (c_stream a) = []"
    and "outgoing_file a = Some og"
  shows "og_id og = i \<and> 0 \<le> offset \<and> length bs \<le> MAX_FRAME_LENGTH \<and>
    sent N [data_frame (og_header og) offset bs is_last] a a' \<and>
    pending_events a' = pending_events a \<and> incoming_bytes a' = incoming_bytes a \<and> incoming_files a' = incoming_files a \<and>
    outgoing_file a' = (if is_last then None else Some (og\<lparr>og_started := True\<rparr>))"
proof -
  have i: "og_id og = i" using assms(1,3) by (auto simp: send_file_chunk_def split: if_splits)
  have p: "(if og_started og then poll_outgoing_control N i a else (Inr (), a)) = (Inr (), c1) \<Longrightarrow> c1 = a" for c1
    using poll_outgoing_quiet [OF assms(2)] by (auto split: if_splits)
  obtain x c1 where pc: "(if og_started og then poll_outgoing_control N i a else (Inr (), a)) = (x, c1)" by force
  have "x = Inr ()" using assms(1,3) i pc by (cases x) (simp_all add: send_file_chunk_def)
  then have c1: "c1 = a" using p pc by simp
  obtain y c2 where d: "conn_data N (og_header og) offset bs is_last a = (y, c2)" by force
  have y: "y = Inr ()"
    using assms(1,3) i pc d \<open>x = Inr ()\<close> c1 by (cases y) (simp_all add: send_file_chunk_def)
  note D = conn_data_Inr [OF d [unfolded y]] and S = same_but_output_fields [OF conn_data_same [OF d]]
  have "a' = (if is_last then c2\<lparr>outgoing_file := None\<rparr> else c2\<lparr>outgoing_file := Some (og\<lparr>og_started := True\<rparr>)\<rparr>)"
    using assms(1,3) i pc d \<open>x = Inr ()\<close> c1 y S(4) by (simp add: send_file_chunk_def split: if_splits)
  then show ?thesis using i D S by auto
qed

end
