(* ===== verification/Sharing_Delivery.thy ===== *)
theory Sharing_Delivery
  imports Sharing_Transfer Conn_Link
begin

text \<open>
  Whole conversations of two Sharing sessions over a link: the introduction, the consent and the
  payload. A session's call reads what the peer answers while it runs, so the answer is part of
  the input the call starts with; the theorems take that input to be exactly what the peer's own
  calls write in response to what this side has written.
\<close>

subsection \<open>Sessions on a link\<close>

definition feed :: "bytes \<Rightarrow> sharing_session \<Rightarrow> sharing_session" where
  "feed x s = s\<lparr>sh_conn := deliver x (sh_conn s)\<rparr>"

definition out :: "sharing_session \<Rightarrow> sharing_session \<Rightarrow> bytes" where
  "out s s' = written (sh_conn s) (sh_conn s')"

definition paired :: "('sk, 'pk) sharing_net \<Rightarrow> sharing_session \<Rightarrow> sharing_session \<Rightarrow> bool" where
  "paired N A B \<longleftrightarrow> sharing_net_ok N \<and> linked (s_net N) (sh_conn A) (sh_conn B)"

lemma paired_sym: "paired N A B \<Longrightarrow> paired N B A"
  by (simp add: paired_def linked_sym)

lemma feed_fields [simp]:
  "sh_next (feed x s) = sh_next s" "sh_cancel (feed x s) = sh_cancel s" "sh_accepted (feed x s) = sh_accepted s"
  "sh_progress (feed x s) = sh_progress s" "sh_conn (feed x s) = deliver x (sh_conn s)"
  by (simp_all add: feed_def)

lemma not_cancelled: "sh_cancel s = [] \<Longrightarrow> is_cancelled s = (False, s)"
  by (simp add: is_cancelled_def)

lemma not_stopped: "sh_cancel s = [] \<Longrightarrow> stop_if_cancelled N s = (Inr (), s)"
  by (simp add: stop_if_cancelled_def not_cancelled)

subsection \<open>Sending does not depend on the input\<close>

lemma write_all_deliver:
  "stream_write_all bs (s\<lparr>s_in := x\<rparr>) = (fst (stream_write_all bs s), (snd (stream_write_all bs s))\<lparr>s_in := x\<rparr>)"
  by (cases s) (simp add: stream_write_all_def split: option.split)

lemma flush_deliver:
  "stream_flush (s\<lparr>s_in := x\<rparr>) = (fst (stream_flush s), (snd (stream_flush s))\<lparr>s_in := x\<rparr>)"
  by (simp add: stream_flush_def split: option.split)

lemma io_write_deliver:
  "io_write m (s\<lparr>s_in := x\<rparr>) = (fst (io_write m s), (snd (io_write m s))\<lparr>s_in := x\<rparr>)"
proof -
  obtain r1 s1 where 1: "stream_write_all (u32_to_be_bytes (length m)) s = (r1, s1)" by force
  obtain r2 s2 where 2: "stream_write_all m s1 = (r2, s2)" by force
  obtain r3 s3 where 3: "stream_flush s2 = (r3, s3)" by force
  show ?thesis
    by (simp add: io_write_def write_all_deliver flush_deliver 1 2 3 split: sum.split)
qed

lemma conn_send_deliver:
  "conn_send N f a = (r, a1) \<Longrightarrow> conn_send N f (deliver x a) = (r, deliver x a1)"
proof -
  assume s: "conn_send N f a = (r, a1)"
  obtain e ch where e: "channel_encrypt (n_crypto N) (enc_offline N f)
      (os_iv N (send_sequence (c_channel a))) (c_channel a) = (e, ch)" by force
  show ?thesis
  proof (cases e)
    case (Inl _)
    then show ?thesis using s e by (auto simp: conn_send_def deliver_def)
  next
    case (Inr m)
    have i: "s_in (snd (io_write m (c_stream a))) = s_in (c_stream a)"
      using io_write_keeps_input [of m "c_stream a"] by simp
    show ?thesis
      using s e Inr i io_write_deliver [where m = m and s = "c_stream a" and x = "s_in (c_stream a) @ x"]
      by (cases "io_write m (c_stream a)") (auto simp: conn_send_def deliver_def)
  qed
qed

lemma conn_data_deliver:
  "conn_data N h offset bs is_last a = (r, a1) \<Longrightarrow> conn_data N h offset bs is_last (deliver x a) = (r, deliver x a1)"
  by (auto simp: conn_data_def conn_send_deliver split: if_splits)

lemma send_bytes_deliver:
  assumes "send_bytes N i bs a = (r, a1)"
  shows "send_bytes N i bs (deliver x a) = (r, deliver x a1)"
  using assms
  by (auto simp: send_bytes_def conn_data_deliver split: option.splits sum.splits if_splits prod.splits)

lemma send_control_feed:
  assumes "send_control_frame N f A = (r, A1)"
  shows "send_control_frame N f (feed x A) = (r, feed x A1)"
proof -
  obtain y c where "send_bytes (s_net N) (sh_next A) (enc_sharing N f) (sh_conn A) = (y, c)" by force
  with send_bytes_deliver [OF this, of x] assms show ?thesis
    by (auto simp: send_control_frame_def next_control_payload_id_def on_conn_def send_sharing_frame_def feed_def
        split: sum.splits)
qed

lemma send_control_Inr:
  assumes "send_control_frame N f A = (Inr (), A1)"
  shows "\<exists>c. send_bytes (s_net N) (sh_next A) (enc_sharing N f) (sh_conn A) = (Inr (), c) \<and>
     A1 = A\<lparr>sh_next := next_control_id (sh_next A), sh_conn := c\<rparr>"
  using assms
  by (auto simp: send_control_frame_def next_control_payload_id_def on_conn_def send_sharing_frame_def
      split: prod.splits sum.splits)

subsection \<open>A control frame across the link\<close>

lemma next_event_bytes:
  "conn_receive (s_net N) (sh_conn s) = (Inr (EvBytes i bs), c) \<Longrightarrow>
     next_transfer_event N s = (Inr (EvBytes i bs), s\<lparr>sh_conn := c\<rparr>)"
  by (subst next_transfer_event.simps) (simp add: session_receive_def on_conn_def)

lemma control_across:
  assumes p: "paired N A B" and s: "send_control_frame N f A = (Inr (), A1)"
    and nc: "is_cancel (dec_sharing N) (enc_sharing N f) = Inr False"
  shows "\<exists>c. receive_bytes N (feed (out A A1) B) = (Inr (enc_sharing N f), B\<lparr>sh_conn := c\<rparr>) \<and>
     paired N A1 (B\<lparr>sh_conn := c\<rparr>) \<and> same_but_input (sh_conn B) c \<and> same_but_output (sh_conn A) (sh_conn A1)"
proof -
  from send_control_Inr [OF s] obtain a where
    a: "send_bytes (s_net N) (sh_next A) (enc_sharing N f) (sh_conn A) = (Inr (), a)"
    and A1: "A1 = A\<lparr>sh_next := next_control_id (sh_next A), sh_conn := a\<rparr>" by blast
  have ok: "sharing_net_ok N" and l: "linked (s_net N) (sh_conn A) (sh_conn B)" using p by (simp_all add: paired_def)
  from link_bytes [OF l a] obtain c where
    r: "conn_receive (s_net N) (deliver (written (sh_conn A) a) (sh_conn B)) =
      (Inr (EvBytes (sh_next A) (enc_sharing N f)), c)"
    and k: "linked (s_net N) a c" "same_but_input (sh_conn B) c" "same_but_output (sh_conn A) a" by blast
  have "next_transfer_event N (feed (out A A1) B) = (Inr (EvBytes (sh_next A) (enc_sharing N f)), B\<lparr>sh_conn := c\<rparr>)"
    using next_event_bytes [of N "feed (out A A1) B"] r by (simp add: out_def A1 feed_def)
  then show ?thesis
    using nc k ok by (auto simp: receive_bytes_def paired_def A1)
qed

lemma sharing_net_okD:
  assumes "sharing_net_ok N"
  shows "net_ok (s_net N)" "dec_sharing N (enc_sharing N f) = Some f"
  using assms by (simp_all add: sharing_net_ok_def)

text \<open>The peer's consent across the link.\<close>

lemma consent_across:
  assumes p: "paired N A B" and s: "accept_incoming_offer N B = (Inr (), B1)"
  shows "\<exists>c. await_consent N (feed (out B B1) A) = (Inr (), A\<lparr>sh_conn := c\<rparr>) \<and> paired N (A\<lparr>sh_conn := c\<rparr>) B1 \<and>
     same_but_input (sh_conn A) c"
proof -
  have d: "dec_sharing N (enc_sharing N accept_response) = Some accept_response"
    using p by (simp add: paired_def sharing_net_okD)
  have "send_control_frame N accept_response B = (Inr (), B1)"
    using s by (simp add: accept_incoming_offer_def send_consent_def)
  from control_across [OF paired_sym [OF p] this] d obtain c where
    "receive_bytes N (feed (out B B1) A) = (Inr (enc_sharing N accept_response), A\<lparr>sh_conn := c\<rparr>)"
    "paired N B1 (A\<lparr>sh_conn := c\<rparr>)" "same_but_input (sh_conn A) c"
    by (auto simp: is_cancel_simps accept_response_def)
  then show ?thesis
    using d paired_sym by (auto simp: await_consent_def decode_status_response [of _ _ StAccept] accept_response_def)
qed

lemma out_same:
  assumes "same_but_input (sh_conn A) (sh_conn A')"
  shows "out A' A2 = out A A2"
  using same_but_input_fields(5) [OF assms] by (simp add: out_def written_def)

subsection \<open>Text\<close>

lemma next_event_for_bytes:
  "conn_receive (s_net N) (sh_conn s) = (Inr (EvBytes i bs), c) \<Longrightarrow>
     next_transfer_event_for N j s = (Inr (EvBytes i bs), s\<lparr>sh_conn := c\<rparr>)"
  by (subst next_event_for_eq) (simp add: session_receive_def on_conn_def skipped_for_def event_result_def)

lemma introduction_across:
  assumes p: "paired N A B" and s: "send_control_frame N f A = (Inr (), A1)"
    and f: "f = introduction name sz \<or> f = text_introduction name sz kind"
  shows "\<exists>c. receive_incoming_offer N (feed (out A A1) B) =
       (offer_decode (dec_sharing N) (enc_sharing N f), B\<lparr>sh_conn := c\<rparr>) \<and>
     paired N A1 (B\<lparr>sh_conn := c\<rparr>) \<and> same_but_input (sh_conn B) c"
proof -
  have "dec_sharing N (enc_sharing N f) = Some f" using p by (simp add: paired_def sharing_net_okD)
  then have "is_cancel (dec_sharing N) (enc_sharing N f) = Inr False"
    using f by (elim disjE) (simp_all add: is_cancel_simps)
  from control_across [OF p s this] show ?thesis by (auto simp: receive_incoming_offer_def)
qed

text \<open>
  The opening of a conversation: the introduction goes out, the peer decodes and accepts it, and
  the answer is read as consent. \<open>a\<close> is the sender's connection after it has read the answer.
\<close>

lemma opening_across:
  assumes p: "paired N A B" and nc: "sh_cancel A = []" "sh_cancel B = []"
    and f: "f = introduction name sz \<or> f = text_introduction name sz kind"
    and i: "send_control_frame N f A = (Inr (), A1)"
    and r: "receive_incoming_offer N (feed (out A A1) B) = (res, B1)"
    and acc: "accept_incoming_offer N B1 = (Inr (), B2)"
  shows "res = offer_decode (dec_sharing N) (enc_sharing N f) \<and>
    sh_cancel A1 = [] \<and> sh_accepted A1 = sh_accepted A \<and> sh_progress A1 = sh_progress A \<and> sh_cancel B2 = [] \<and>
    (\<exists>a. await_consent N (feed (out B1 B2) A1) = (Inr (), A1\<lparr>sh_conn := a\<rparr>) \<and>
       paired N (A1\<lparr>sh_conn := a\<rparr>) B2 \<and> same_but_input (sh_conn A1) a)"
proof -
  from introduction_across [OF p i f] r obtain b where
    res: "res = offer_decode (dec_sharing N) (enc_sharing N f)"
    and B1: "B1 = B\<lparr>sh_conn := b\<rparr>" and p1: "paired N A1 B1" by auto
  have "sh_cancel B2 = []"
    using send_control_Inr [of N accept_response B1 B2] acc nc B1
    by (auto simp: accept_incoming_offer_def send_consent_def)
  moreover have "sh_cancel A1 = [] \<and> sh_accepted A1 = sh_accepted A \<and> sh_progress A1 = sh_progress A"
    using send_control_Inr [OF i] nc by auto
  ultimately show ?thesis using res consent_across [OF p1 acc] by auto
qed

text \<open>What remains of the sender's call once the peer has accepted.\<close>

lemma value_after_consent:
  assumes nc: "sh_cancel A = []" "sh_cancel A1 = []"
    and i: "send_control_frame N (text_introduction val (int (length val)) kind) A = (Inr (), A1)"
    and c: "await_consent N (feed x A1) = (Inr (), A1\<lparr>sh_conn := a\<rparr>)"
    and g: "val \<noteq> []" "int (length val) \<le> MAX_TEXT_BYTES"
  shows "send_outgoing_value N val kind (feed x A) =
    (case on_conn (send_bytes (s_net N) TEXT_PAYLOAD_ID val) (on_accepted (A1\<lparr>sh_conn := a\<rparr>)) of
       (Inl e, s5) \<Rightarrow> (Inl e, s5)
     | (Inr _, s5) \<Rightarrow> stop_if_cancelled N (on_progress (length val) s5))"
  using nc g send_control_feed [OF i, of x] c
  by (simp add: send_outgoing_value_def i64_of_usize_def not_cancelled not_stopped on_accepted_def
      MAX_TEXT_BYTES_def i64_max_def)

lemma text_conversation:
  assumes p: "paired N A B" and nc: "sh_cancel A = []" "sh_cancel B = []"
    and kind: "kind = TtText \<or> kind = TtUrl" and u: "utf8_valid val"
    and i: "send_control_frame N (text_introduction val (int (length val)) kind) A = (Inr (), A1)"
    and r: "receive_incoming_offer N (feed (out A A1) B) = (res, B1)"
    and acc: "accept_incoming_offer N B1 = (Inr (), B2)"
    and sd: "send_outgoing_value N val kind (feed (out B1 B2) A) = (Inr (), A')"
  shows "\<exists>offer B3. res = Inr offer \<and> offer = offer_new (text_offer_kind kind) val (int (length val)) TEXT_PAYLOAD_ID \<and>
    receive_incoming_value N offer (text_offer_kind kind) (feed (out A1 A') B2) = (Inr val, B3) \<and>
    sh_accepted A' = sh_accepted A + 1 \<and> sh_progress A' = sh_progress A @ [length val] \<and>
    sh_progress B3 = sh_progress B2 @ [length val] \<and> paired N A' B3"
proof -
  have g: "val \<noteq> []" "int (length val) \<le> MAX_TEXT_BYTES"
    using sd by (auto simp: send_outgoing_value_def i64_of_usize_def split: if_splits)
  have f: "text_introduction val (int (length val)) kind = introduction val (int (length val)) \<or>
      text_introduction val (int (length val)) kind = text_introduction val (int (length val)) kind" by simp
  from opening_across [OF p nc f i r acc] obtain a where
    res: "res = offer_decode (dec_sharing N) (enc_sharing N (text_introduction val (int (length val)) kind))"
    and A1c: "sh_cancel A1 = []" "sh_accepted A1 = sh_accepted A" "sh_progress A1 = sh_progress A"
    and B2c: "sh_cancel B2 = []"
    and c: "await_consent N (feed (out B1 B2) A1) = (Inr (), A1\<lparr>sh_conn := a\<rparr>)"
    and p2: "paired N (A1\<lparr>sh_conn := a\<rparr>) B2" and k2: "same_but_input (sh_conn A1) a" by blast
  have dec: "res = Inr (offer_new (text_offer_kind kind) val (int (length val)) TEXT_PAYLOAD_ID)"
    unfolding res by (rule decode_text_introduction) (use p g kind in \<open>auto simp: paired_def sharing_net_okD\<close>)
  let ?A4 = "on_accepted (A1\<lparr>sh_conn := a\<rparr>)"
  note sd' = sd [unfolded value_after_consent [OF nc(1) A1c(1) i c g]]
  from sd' obtain a5 where s5: "send_bytes (s_net N) TEXT_PAYLOAD_ID val a = (Inr (), a5)"
    and A': "A' = on_progress (length val) (?A4\<lparr>sh_conn := a5\<rparr>)"
    using A1c by (auto simp: on_conn_def on_accepted_def on_progress_def not_stopped split: prod.splits sum.splits)
  have l: "linked (s_net N) a (sh_conn B2)" using p2 by (simp add: paired_def)
  from link_bytes [OF l s5] obtain b3 where
    b3: "conn_receive (s_net N) (deliver (written a a5) (sh_conn B2)) = (Inr (EvBytes TEXT_PAYLOAD_ID val), b3)"
    and l3: "linked (s_net N) a5 b3" by blast
  have o: "out A1 A' = written a a5"
    using same_but_input_fields(5) [OF k2] by (simp add: out_def written_def A' on_progress_def)
  let ?offer = "offer_new (text_offer_kind kind) val (int (length val)) TEXT_PAYLOAD_ID"
  have "receive_value_loop N ?offer (feed (out A1 A') B2) = (Inr val, on_progress (length val) (B2\<lparr>sh_conn := b3\<rparr>))"
    using b3 o B2c u g next_event_for_bytes [of N "feed (written a a5) B2"]
    by (subst receive_value_loop.simps)
      (simp add: not_stopped feed_def i64_of_usize_def from_utf8_def MAX_TEXT_BYTES_def i64_max_def)
  moreover have "paired N A' (on_progress (length val) (B2\<lparr>sh_conn := b3\<rparr>))"
    using l3 p by (simp add: paired_def A' on_progress_def)
  ultimately show ?thesis
    using dec A1c by (simp add: receive_incoming_value_def A' on_accepted_def on_progress_def)
qed

text \<open>
  C15. A text or address reaches the peer. Two sessions on a loss-free link with nothing in flight
  and no local cancellation: the sender's introduction arrives as the offer with the same text,
  length and kind; if the receiver accepts it and the sender's call, reading that answer, returns
  success, then the receiver's call returns exactly the sent text. The sender has reported consent
  exactly once and both sides report the full length as progress; afterwards the link is quiet
  again and the sessions can continue.
\<close>

theorem text_delivered:
  assumes "paired N A B" and "sh_cancel A = []" and "sh_cancel B = []"
    and "kind = TtText \<or> kind = TtUrl" and "utf8_valid val"
    and "send_control_frame N (text_introduction val (int (length val)) kind) A = (Inr (), A1)"
    and "receive_incoming_offer N (feed (out A A1) B) = (res, B1)"
    and "accept_incoming_offer N B1 = (Inr (), B2)"
    and "send_outgoing_value N val kind (feed (out B1 B2) A) = (Inr (), A')"
  shows "\<exists>offer B3. res = Inr offer \<and> offer = offer_new (text_offer_kind kind) val (int (length val)) TEXT_PAYLOAD_ID \<and>
    receive_incoming_value N offer (text_offer_kind kind) (feed (out A1 A') B2) = (Inr val, B3) \<and>
    sh_accepted A' = sh_accepted A + 1 \<and> sh_progress A' = sh_progress A @ [length val] \<and>
    sh_progress B3 = sh_progress B2 @ [length val] \<and> paired N A' B3"
  using assms by (rule text_conversation)

end
