(* ===== verification/Sharing_File_Delivery.thy ===== *)
theory Sharing_File_Delivery
  imports Sharing_Delivery
begin

text \<open>
  A file across the link: the chunks a sender cuts from its source, the events they become, and
  what the receiver writes; and the bound on what any peer can make the receiver write.
\<close>

subsection \<open>A source that delivers its bytes in pieces\<close>

definition pieces :: "bytes list \<Rightarrow> reader" where
  "pieces xs = map Inr xs"

lemma read_pieces:
  assumes "reader_read n (pieces xs) = (Inr c, r)" and "\<forall>x \<in> set xs. x \<noteq> []" and "0 < n"
  shows "\<exists>ys. r = pieces ys \<and> (\<forall>y \<in> set ys. y \<noteq> []) \<and> c @ concat ys = concat xs \<and> length c \<le> n \<and> (c = [] \<longleftrightarrow> xs = [])"
proof (cases xs)
  case Nil
  then show ?thesis using assms by (simp add: pieces_def reader_read_def)
next
  case (Cons x xs')
  then have c: "c = take n x" and r: "r = pieces (if length x \<le> n then xs' else drop n x # xs')"
    using assms(1) by (auto simp: pieces_def reader_read_def)
  show ?thesis
    by (intro exI [of _ "if length x \<le> n then xs' else drop n x # xs'"]) (use c r Cons assms(2,3) in auto)
qed

lemma source_ended_pieces:
  assumes "source_ended (pieces xs) = (Inr (), r)" and "\<forall>x \<in> set xs. x \<noteq> []"
  shows "xs = [] \<and> r = []"
proof -
  obtain y r1 where y: "reader_read 1 (pieces xs) = (y, r1)" by force
  with assms(1) obtain c where c: "y = Inr c" "c = []" "r = r1"
    by (cases y) (auto simp: source_ended_def split: if_splits)
  from read_pieces [OF y [unfolded c(1)] assms(2)] c(2) have "xs = []" by auto
  then show ?thesis using y c by (simp add: pieces_def reader_read_def)
qed

fun mid_frames :: "payload_header_msg \<Rightarrow> nat \<Rightarrow> bytes list \<Rightarrow> offline_frame list" where
  "mid_frames h offset [] = []"
| "mid_frames h offset (c # cs) = data_frame h (int offset) c False # mid_frames h (offset + length c) cs"

lemma chunk_frames_mid:
  "chunk_frames h offset cs = mid_frames h offset cs @ [data_frame h (int (offset + length (concat cs))) [] True]"
  by (induction cs arbitrary: offset) (simp_all add: add.assoc)

text \<open>What a sender keeps while it sends the chunks of a file.\<close>

definition sending :: "payload_header_msg \<Rightarrow> sharing_session \<Rightarrow> sharing_session \<Rightarrow> bool" where
  "sending h s s' \<longleftrightarrow> sh_cancel s' = sh_cancel s \<and> sh_accepted s' = sh_accepted s \<and> sh_next s' = sh_next s \<and>
     pending_events (sh_conn s') = pending_events (sh_conn s) \<and>
     incoming_bytes (sh_conn s') = incoming_bytes (sh_conn s) \<and> incoming_files (sh_conn s') = incoming_files (sh_conn s)"

lemma sending_refl [simp]: "sending h s s"
  by (simp add: sending_def)

lemma sending_trans: "sending h s t \<Longrightarrow> sending h t u \<Longrightarrow> sending h s u"
  by (simp add: sending_def)

definition staged :: "payload_header_msg \<Rightarrow> sharing_session \<Rightarrow> bool" where
  "staged h s \<longleftrightarrow> (\<exists>og. outgoing_file (sh_conn s) = Some og \<and> og_header og = h) \<and> s_in (c_stream (sh_conn s)) = [] \<and>
     sh_cancel s = []"

lemma session_send_chunk_sent:
  assumes "session_send_chunk N offset bs is_last s = (Inr (), s')" and "staged h s"
  shows "0 \<le> offset \<and> length bs \<le> MAX_FRAME_LENGTH \<and>
    sent (s_net N) [data_frame h offset bs is_last] (sh_conn s) (sh_conn s') \<and> sending h s s' \<and>
    sh_progress s' = sh_progress s \<and> (\<not> is_last \<longrightarrow> staged h s')"
proof -
  from assms(1) obtain c where c: "send_file_chunk (s_net N) FILE_PAYLOAD_ID offset bs is_last (sh_conn s) = (Inr (), c)"
    and s': "s' = s\<lparr>sh_conn := c\<rparr>"
    by (auto simp: session_send_chunk_def on_conn_def split: prod.splits sum.splits)
  from assms(2) obtain og where og: "outgoing_file (sh_conn s) = Some og" "og_header og = h"
    and i: "s_in (c_stream (sh_conn s)) = []" "sh_cancel s = []" by (auto simp: staged_def)
  note S = send_file_chunk_sent [OF c i(1) og(1)]
  then have "sent (s_net N) [data_frame h offset bs is_last] (sh_conn s) c" using og by simp
  with sent_fields [OF this] S og i show ?thesis
    by (auto simp: s' sending_def staged_def)
qed

lemma send_chunks_sent:
  assumes "send_chunks N sz offset (pieces xs) s = (Inr (), r, s')" and "\<forall>x \<in> set xs. x \<noteq> []"
    and "staged h s" and "offset < sz"
  shows "\<exists>cs. concat cs = concat xs \<and> offset + length (concat cs) = sz \<and>
    (\<forall>c \<in> set cs. c \<noteq> [] \<and> length c \<le> MAX_FRAME_LENGTH) \<and>
    sent (s_net N) (mid_frames h offset cs) (sh_conn s) (sh_conn s') \<and> sending h s s' \<and> staged h s'"
  using assms
proof (induction "sz - offset" arbitrary: offset xs s rule: less_induct)
  case less
  have st: "stop_if_cancelled N s = (Inr (), s)" using less.prems(3) by (simp add: staged_def not_stopped)
  let ?n = "min (sz - offset) FILE_CHUNK_SIZE"
  have n: "0 < ?n" using less.prems(4) by (simp add: FILE_CHUNK_SIZE_def)
  obtain y r1 where y: "reader_read ?n (pieces xs) = (y, r1)" by force
  note U = less.prems(1) [unfolded send_chunks.simps [of N sz offset "pieces xs" s]]
  have "\<exists>c. y = Inr c \<and> c \<noteq> []" using U less.prems(4) st y by (cases y) (auto simp: Let_def split: if_splits)
  then obtain c where c: "y = Inr c" "c \<noteq> []" by blast
  from read_pieces [OF y [unfolded c(1)] less.prems(2) n] obtain ys where
    ys: "r1 = pieces ys" "\<forall>y \<in> set ys. y \<noteq> []" "c @ concat ys = concat xs" "length c \<le> ?n" by blast
  have le: "offset + length c \<le> sz" using ys(4) less.prems(4) by simp linarith
  obtain z r2 where z: "(if offset + length c = sz then source_ended r1 else (Inr (), r1)) = (z, r2)" by force
  have zu: "z = Inr ()" using U less.prems(4) st y c z
    by (cases z) (auto simp: Let_def checked_add_u64_def split: if_splits)
  obtain x s2 where x: "session_send_chunk N (int offset) c False s = (x, s2)" by force
  have xu: "x = Inr ()"
    using U less.prems(4) st y c z zu x
    by (cases x) (auto simp: Let_def checked_add_u64_def i64_of_u64_def split: if_splits)
  note S = session_send_chunk_sent [OF x [unfolded xu] less.prems(3)]
  have rest: "send_chunks N sz (offset + length c) r2 (on_progress (offset + length c) s2) = (Inr (), r, s')"
    using U less.prems(4) st y c z zu x xu
    by (auto simp: Let_def checked_add_u64_def i64_of_u64_def split: if_splits)
  let ?s3 = "on_progress (offset + length c) s2"
  have s3: "staged h ?s3" "sending h s ?s3" "sh_conn ?s3 = sh_conn s2"
    using S less.prems(3) by (auto simp: on_progress_def staged_def sending_def)
  show ?case
  proof (cases "offset + length c = sz")
    case True
    with z zu ys source_ended_pieces have "ys = []" by auto
    moreover have "s' = ?s3"
      using rest True by (simp add: send_chunks.simps [of N sz sz])
    ultimately show ?thesis
      by (intro exI [of _ "[c]"]) (use S s3 ys True c(2) in auto)
  next
    case False
    then have lt: "offset + length c < sz" and r2: "r2 = pieces ys" using le z ys by auto
    have "sz - (offset + length c) < sz - offset" using c(2) less.prems(4) by (simp add: diff_less_mono2)
    from less.hyps [OF this rest [unfolded r2] ys(2) s3(1) lt] obtain cs where
      cs: "concat cs = concat ys" "offset + length c + length (concat cs) = sz"
      "\<forall>c \<in> set cs. c \<noteq> [] \<and> length c \<le> MAX_FRAME_LENGTH"
      "sent (s_net N) (mid_frames h (offset + length c) cs) (sh_conn ?s3) (sh_conn s')" "sending h ?s3 s'" "staged h s'"
      by blast
    have "sent (s_net N) (mid_frames h offset (c # cs)) (sh_conn s) (sh_conn s')"
      using sent_append [of "s_net N" "[data_frame h (int offset) c False]" "sh_conn s" "sh_conn s2"] S cs(4) s3(3)
      by simp
    then show ?thesis
      by (intro exI [of _ "c # cs"]) (use cs ys(3) [symmetric] S c(2) sending_trans [OF s3(2) cs(5)] in auto)
  qed
qed

lemma staged_header:
  assumes "on_conn (send_file_header FILE_PAYLOAD_ID sz (Some name)) s = (Inr (), s1)"
    and "s_in (c_stream (sh_conn s)) = []" and "sh_cancel s = []"
  shows "\<exists>h. payload_header FILE_PAYLOAD_ID KFile sz (Some name) = Inr h \<and> staged h s1 \<and> sending h s s1 \<and>
     c_stream (sh_conn s1) = c_stream (sh_conn s) \<and> c_channel (sh_conn s1) = c_channel (sh_conn s)"
  using assms
  by (auto simp: on_conn_def send_file_header_def staged_def sending_def split: sum.splits)

lemma send_file_payload_sent:
  assumes s: "send_file_payload N name sz (int sz) (pieces xs) s = (Inr (), r, s')"
    and xs: "\<forall>x \<in> set xs. x \<noteq> []" and i: "s_in (c_stream (sh_conn s)) = []" and nc: "sh_cancel s = []"
  shows "\<exists>h cs. payload_header FILE_PAYLOAD_ID KFile (int sz) (Some name) = Inr h \<and> concat cs = concat xs \<and>
    length (concat cs) = sz \<and> (\<forall>c \<in> set cs. c \<noteq> [] \<and> length c \<le> MAX_FRAME_LENGTH) \<and>
    sent (s_net N) (chunk_frames h 0 cs) (sh_conn s) (sh_conn s') \<and> sending h s s'"
proof -
  obtain x s1 where x: "on_conn (send_file_header FILE_PAYLOAD_ID (int sz) (Some name)) s = (x, s1)" by force
  have "x = Inr ()" using s x by (cases x) (simp_all add: send_file_payload_def)
  with staged_header [OF _ i nc] x obtain h where h: "payload_header FILE_PAYLOAD_ID KFile (int sz) (Some name) = Inr h"
    and st: "staged h s1" "sending h s s1"
    and same: "c_stream (sh_conn s1) = c_stream (sh_conn s)" "c_channel (sh_conn s1) = c_channel (sh_conn s)" by blast
  have nc1: "stop_if_cancelled N s1 = (Inr (), s1)" using st by (simp add: staged_def not_stopped)
  have re: "sent (s_net N) fs (sh_conn s1) c \<Longrightarrow> sent (s_net N) fs (sh_conn s) c" for fs c
    using sent_cong [of "s_net N" fs "sh_conn s1" c "sh_conn s" c] same by simp
  show ?thesis
  proof (cases "sz = 0")
    case True
    obtain y r1 where y: "source_ended (pieces xs) = (y, r1)" by force
    have yu: "y = Inr ()" using s x \<open>x = Inr ()\<close> True nc1 y by (cases y) (simp_all add: send_file_payload_def)
    then have "xs = []" using source_ended_pieces xs y by blast
    obtain z s3 where z: "session_send_chunk N 0 [] True s1 = (z, s3)" by force
    have zu: "z = Inr ()" and sx: "s' = on_progress 0 s3"
      using s x \<open>x = Inr ()\<close> True nc1 y yu z by (cases z; simp add: send_file_payload_def)+
    note S = session_send_chunk_sent [OF z [unfolded zu] st(1)]
    have "sending h s s'" using sending_trans [OF st(2)] S by (simp add: sx on_progress_def sending_def)
    moreover have "sent (s_net N) [data_frame h 0 [] True] (sh_conn s) (sh_conn s')"
      by (rule re) (use S in \<open>simp add: sx on_progress_def\<close>)
    ultimately show ?thesis
      by (intro exI [of _ h] exI [of _ "[]"]) (use h \<open>xs = []\<close> True in simp)
  next
    case False
    obtain y r1 s2 where y: "send_chunks N sz 0 (pieces xs) s1 = (y, r1, s2)" by (cases "send_chunks N sz 0 (pieces xs) s1")
    have yu: "y = Inr ()" using s x \<open>x = Inr ()\<close> False y by (cases y) (simp_all add: send_file_payload_def)
    from send_chunks_sent [OF y [unfolded yu] xs st(1)] False obtain cs where
      cs: "concat cs = concat xs" "length (concat cs) = sz" "\<forall>c \<in> set cs. c \<noteq> [] \<and> length c \<le> MAX_FRAME_LENGTH"
      "sent (s_net N) (mid_frames h 0 cs) (sh_conn s1) (sh_conn s2)" "sending h s1 s2" "staged h s2" by auto
    have nc2: "stop_if_cancelled N s2 = (Inr (), s2)" using cs(6) by (simp add: staged_def not_stopped)
    obtain z s4 where z: "session_send_chunk N (int sz) [] True s2 = (z, s4)" by force
    have zu: "z = Inr ()" and sx: "s' = s4"
      using s x \<open>x = Inr ()\<close> False y yu nc2 z by (cases z; simp add: send_file_payload_def)+
    note S = session_send_chunk_sent [OF z [unfolded zu] cs(6)]
    have "sent (s_net N) (chunk_frames h 0 cs) (sh_conn s1) (sh_conn s')"
      unfolding chunk_frames_mid by (rule sent_append [OF cs(4)]) (use S cs(2) sx in simp)
    then show ?thesis
      using h cs(1-3) re sending_trans [OF sending_trans [OF st(2) cs(5)]] S sx by blast
  qed
qed

subsection \<open>Receiving\<close>

lemma next_event_for_header:
  "conn_receive (s_net N) (sh_conn s) = (Inr (EvFileHeader i sz name), c) \<Longrightarrow>
     next_transfer_event_for N j s = (Inr (EvFileHeader i sz name), s\<lparr>sh_conn := c\<rparr>)"
  by (subst next_event_for_eq) (simp add: session_receive_def on_conn_def skipped_for_def event_result_def)

lemma next_event_for_chunk:
  "conn_receive (s_net N) (sh_conn s) = (Inr (EvFileChunk i offset bs is_last), c) \<Longrightarrow>
     next_transfer_event_for N j s = (Inr (EvFileChunk i offset bs is_last), s\<lparr>sh_conn := c\<rparr>)"
  by (subst next_event_for_eq) (simp add: session_receive_def on_conn_def skipped_for_def event_result_def)

lemma receive_chunks_yield:
  assumes "yields (s_net N) (chunk_events i received cs) (sh_conn s) b'" and "sh_cancel s = []"
    and "\<forall>c \<in> set cs. c \<noteq> []" and "received + length (concat cs) = sz" and "int sz \<le> MAX_PAYLOAD_LENGTH"
    and "w_room w = None"
  shows "\<exists>s'. receive_file_chunks N i sz received w s = (Inr (), w\<lparr>w_out := w_out w @ concat cs\<rparr>, s') \<and>
    sh_conn s' = b' \<and> sh_next s' = sh_next s \<and> sh_cancel s' = [] \<and> last (0 # sh_progress s') = sz"
  using assms
proof (induction cs arbitrary: received s w)
  case Nil
  have sz: "int received \<le> i64_max" "received \<le> u64_max" "sz = received"
    using Nil.prems(4,5) by (auto simp: MAX_PAYLOAD_LENGTH_def range_defs)
  from Nil.prems(1) obtain b1 where
    b1: "conn_receive (s_net N) (sh_conn s) = (Inr (EvFileChunk i (int received) [] True), b')" by auto
  show ?case
    using next_event_for_chunk [OF b1, of i] Nil.prems(2,6) sz
    by (subst receive_file_chunks.simps)
      (simp add: not_stopped i64_of_u64_def checked_add_u64_def writer_write_all_def on_progress_def)
next
  case (Cons c cs)
  have sz: "int received \<le> i64_max" "received + length c \<le> u64_max" "received + length c \<le> sz"
    using Cons.prems(4,5) by (auto simp: MAX_PAYLOAD_LENGTH_def range_defs)
  from Cons.prems(1) obtain b1 where
    b1: "conn_receive (s_net N) (sh_conn s) = (Inr (EvFileChunk i (int received) c False), b1)"
    and y: "yields (s_net N) (chunk_events i (received + length c) cs) b1 b'" by auto
  let ?s = "on_progress (received + length c) (s\<lparr>sh_conn := b1\<rparr>)"
  let ?w = "w\<lparr>w_out := w_out w @ c\<rparr>"
  have "receive_file_chunks N i sz received w s = receive_file_chunks N i sz (received + length c) ?w ?s"
    using next_event_for_chunk [OF b1, of i] Cons.prems(2,3,6) sz
    by (subst receive_file_chunks.simps)
      (simp add: not_stopped i64_of_u64_def checked_add_u64_def writer_write_all_def)
  moreover have "\<exists>s'. receive_file_chunks N i sz (received + length c) ?w ?s =
      (Inr (), ?w\<lparr>w_out := w_out ?w @ concat cs\<rparr>, s') \<and> sh_conn s' = b' \<and> sh_next s' = sh_next ?s \<and> sh_cancel s' = [] \<and>
      last (0 # sh_progress s') = sz"
    by (rule Cons.IH) (use y Cons.prems in \<open>simp_all add: on_progress_def\<close>)
  ultimately show ?case by (auto simp: on_progress_def)
qed

lemma receive_file_yield:
  assumes y: "yields (s_net N) (EvFileHeader i (int sz) (Some name) # chunk_events i 0 cs) (sh_conn s) b'"
    and nc: "sh_cancel s = []" and cs: "\<forall>c \<in> set cs. c \<noteq> []" "length (concat cs) = sz"
    and sz: "int sz \<le> MAX_PAYLOAD_LENGTH" and w: "w_room w = None"
  shows "\<exists>s'. receive_incoming_file N (offer_new k name (int sz) i) w s =
      (Inr (), w\<lparr>w_out := w_out w @ concat cs\<rparr>, s') \<and>
    sh_conn s' = b' \<and> sh_next s' = sh_next s \<and> sh_cancel s' = [] \<and> last (0 # sh_progress s') = sz"
proof -
  from y obtain b1 where b1: "conn_receive (s_net N) (sh_conn s) = (Inr (EvFileHeader i (int sz) (Some name)), b1)"
    and y1: "yields (s_net N) (chunk_events i 0 cs) b1 b'" by auto
  have "receive_file_header N (offer_new k name (int sz) i) s = (Inr (i, sz), s\<lparr>sh_conn := b1\<rparr>)"
    using next_event_for_header [OF b1, of i]
    by (subst receive_file_header.simps) (simp add: u64_of_i64_def)
  then have "receive_incoming_file N (offer_new k name (int sz) i) w s =
      receive_file_chunks N i sz 0 w (s\<lparr>sh_conn := b1\<rparr>)"
    using nc by (simp add: receive_incoming_file_def not_stopped)
  then show ?thesis
    using receive_chunks_yield [of N i 0 cs "s\<lparr>sh_conn := b1\<rparr>" b' sz w] y1 nc cs sz w by simp
qed

lemma send_outgoing_file_Inr:
  assumes "send_outgoing_file N name sz r s = (Inr (), r', s')"
  shows "safe_name name \<and> int sz \<le> i64_max"
  using assms by (auto simp: send_outgoing_file_def i64_of_u64_def split: if_splits)

lemma file_after_consent:
  assumes nc: "sh_cancel A = []" "sh_cancel A1 = []"
    and i: "send_control_frame N (introduction name (int sz)) A = (Inr (), A1)"
    and c: "await_consent N (feed x A1) = (Inr (), A1\<lparr>sh_conn := a\<rparr>)"
    and g: "safe_name name \<and> int sz \<le> i64_max"
  shows "send_outgoing_file N name sz r (feed x A) =
    (case send_file_payload N name sz (int sz) r (on_accepted (A1\<lparr>sh_conn := a\<rparr>)) of
       (Inl e, r1, s5) \<Rightarrow> (Inl e, r1, s5)
     | (Inr _, r1, s5) \<Rightarrow> (case stop_if_cancelled N s5 of (x, s6) \<Rightarrow> (x, r1, s6)))"
  using nc g send_control_feed [OF i, of x] c
  by (simp add: send_outgoing_file_def i64_of_u64_def not_cancelled not_stopped on_accepted_def)

lemma file_conversation:
  assumes p: "paired N A B" and nc: "sh_cancel A = []" "sh_cancel B = []"
    and xs: "\<forall>x \<in> set xs. x \<noteq> []" and w: "w_room w = None"
    and i: "send_control_frame N (introduction name (int sz)) A = (Inr (), A1)"
    and r: "receive_incoming_offer N (feed (out A A1) B) = (res, B1)"
    and acc: "accept_incoming_offer N B1 = (Inr (), B2)"
    and sd: "send_outgoing_file N name sz (pieces xs) (feed (out B1 B2) A) = (Inr (), r', A')"
  shows "\<exists>offer B3. res = Inr offer \<and> offer = offer_new OFile name (int sz) FILE_PAYLOAD_ID \<and>
    length (concat xs) = sz \<and>
    receive_incoming_file N offer w (feed (out A1 A') B2) = (Inr (), w\<lparr>w_out := w_out w @ concat xs\<rparr>, B3) \<and>
    sh_accepted A' = sh_accepted A + 1 \<and> last (0 # sh_progress B3) = sz \<and> paired N A' B3"
proof -
  note g = send_outgoing_file_Inr [OF sd]
  have f: "introduction name (int sz) = introduction name (int sz) \<or>
      introduction name (int sz) = text_introduction name (int sz) TtText" by simp
  from opening_across [OF p nc f i r acc] obtain a where
    res: "res = offer_decode (dec_sharing N) (enc_sharing N (introduction name (int sz)))"
    and A1c: "sh_cancel A1 = []" "sh_accepted A1 = sh_accepted A" and B2c: "sh_cancel B2 = []"
    and c: "await_consent N (feed (out B1 B2) A1) = (Inr (), A1\<lparr>sh_conn := a\<rparr>)"
    and p2: "paired N (A1\<lparr>sh_conn := a\<rparr>) B2" and k2: "same_but_input (sh_conn A1) a" by blast
  have dec: "res = Inr (offer_new OFile name (int sz) FILE_PAYLOAD_ID)"
    unfolding res by (rule decode_introduction) (use p g in \<open>auto simp: paired_def sharing_net_okD\<close>)
  let ?A4 = "on_accepted (A1\<lparr>sh_conn := a\<rparr>)"
  have A4: "sh_conn ?A4 = a" "sh_cancel ?A4 = []" "sh_accepted ?A4 = sh_accepted A + 1"
    using A1c by (simp_all add: on_accepted_def)
  have l: "linked (s_net N) a (sh_conn B2)" using p2 by (simp add: paired_def)
  then have ia: "s_in (c_stream a) = []" and fl: "in_flight (s_net N) [] a (sh_conn B2)"
    "in_flight (s_net N) [] (sh_conn B2) a" and q: "quiet a" "quiet (sh_conn B2)" by (auto simp: linked_def)
  obtain x r5 s5 where x: "send_file_payload N name sz (int sz) (pieces xs) ?A4 = (x, r5, s5)"
    by (cases "send_file_payload N name sz (int sz) (pieces xs) ?A4")
  have sd': "(case (x, r5, s5) of (Inl e, r1, s5) \<Rightarrow> (Inl e, r1, s5)
      | (Inr _, r1, s5) \<Rightarrow> (case stop_if_cancelled N s5 of (x, s6) \<Rightarrow> (x, r1, s6))) = (Inr (), r', A')"
    using sd [unfolded file_after_consent [OF nc(1) A1c(1) i c g]] x by simp
  then have xu: "x = Inr ()" by (cases x) auto
  have ia': "s_in (c_stream (sh_conn ?A4)) = []" using ia A4(1) by simp
  from send_file_payload_sent [OF x [unfolded xu] xs ia' A4(2)] obtain h cs where
    h: "payload_header FILE_PAYLOAD_ID KFile (int sz) (Some name) = Inr h" and cs: "concat cs = concat xs"
    "length (concat cs) = sz" "\<forall>c \<in> set cs. c \<noteq> [] \<and> length c \<le> MAX_FRAME_LENGTH"
    and st: "sent (s_net N) (chunk_frames h 0 cs) a (sh_conn s5)" and sn: "sending h ?A4 s5" unfolding A4(1) by blast
  have A': "A' = s5" using sd' xu sn A4 by (simp add: sending_def not_stopped)
  have qd: "quiet (deliver (written a (sh_conn s5)) (sh_conn B2))" using q(2) by (simp add: quiet_def)
  have F1: "in_flight (s_net N) (chunk_frames h 0 cs) (sh_conn s5) (deliver (written a (sh_conn s5)) (sh_conn B2))"
    using in_flight_sent [OF fl(1) st] by (simp only: append_Nil)
  have cs': "\<forall>c \<in> set cs. length c \<le> MAX_FRAME_LENGTH" "int (length (concat cs)) = int sz" using cs by simp_all
  from file_frames_yield [OF F1 h cs' qd] obtain b3 where
    y: "yields (s_net N) (EvFileHeader FILE_PAYLOAD_ID (int sz) (Some name) # chunk_events FILE_PAYLOAD_ID 0 cs)
      (deliver (written a (sh_conn s5)) (sh_conn B2)) b3"
    and f3: "in_flight (s_net N) [] (sh_conn s5) b3"
    and k3: "same_but_input (deliver (written a (sh_conn s5)) (sh_conn B2)) b3" by blast
  note k4 = same_but_input_trans [OF deliver_same k3]
  have o: "out A1 A' = written a (sh_conn s5)"
    using same_but_input_fields(5) [OF k2] by (simp add: out_def written_def A')
  from receive_file_yield [of N FILE_PAYLOAD_ID sz name cs "feed (out A1 A') B2" b3 w OFile] y o B2c cs w payload_header_Inr [OF h]
  obtain B3 where B3: "receive_incoming_file N (offer_new OFile name (int sz) FILE_PAYLOAD_ID) w (feed (out A1 A') B2) =
      (Inr (), w\<lparr>w_out := w_out w @ concat cs\<rparr>, B3)" "sh_conn B3 = b3" "last (0 # sh_progress B3) = sz" by auto
  have "in_flight (s_net N) [] b3 (sh_conn s5)"
    by (rule in_flight_input [OF k4 in_flight_back [OF fl(2) st]])
  then have "paired N A' B3"
    using p f3 q same_but_input_fields [OF k4] sn A4 B3(2)
    by (simp add: paired_def linked_def quiet_def A' sending_def)
  then show ?thesis using dec B3 cs A4 sn A' by (simp add: sending_def)
qed

text \<open>
  C14. A file reaches the peer. Two sessions on a loss-free link with nothing in flight and no local
  cancellation, a source that hands out its bytes in any pieces: the introduction arrives as the
  offer with the same name and size; if the receiver accepts it and the sender's call, reading that
  answer, returns success, then the source held exactly the declared number of bytes and the
  receiver's call succeeds and has appended exactly those bytes to its destination, in order,
  however the sender cut them into chunks. Consent was reported exactly once, the receiver's last
  progress report is the full size, and the link is quiet again.
\<close>

theorem file_delivered:
  assumes "paired N A B" and "sh_cancel A = []" and "sh_cancel B = []"
    and "\<forall>x \<in> set xs. x \<noteq> []" and "w_room w = None"
    and "send_control_frame N (introduction name (int sz)) A = (Inr (), A1)"
    and "receive_incoming_offer N (feed (out A A1) B) = (res, B1)"
    and "accept_incoming_offer N B1 = (Inr (), B2)"
    and "send_outgoing_file N name sz (pieces xs) (feed (out B1 B2) A) = (Inr (), r', A')"
  shows "\<exists>offer B3. res = Inr offer \<and> offer = offer_new OFile name (int sz) FILE_PAYLOAD_ID \<and>
    length (concat xs) = sz \<and>
    receive_incoming_file N offer w (feed (out A1 A') B2) = (Inr (), w\<lparr>w_out := w_out w @ concat xs\<rparr>, B3) \<and>
    sh_accepted A' = sh_accepted A + 1 \<and> last (0 # sh_progress B3) = sz \<and> paired N A' B3"
  using assms by (rule file_conversation)

end
