(* ===== verification/Example_Sharing.thy ===== *)
theory Example_Sharing
  imports Sharing_File_Delivery
begin

text \<open>
  The codec of the example instance for the Sharing messages, the example parameter
  \<open>ex_sharing\<close>, and sends in that instance that succeed, for the witnesses of the Sharing
  theorems.
\<close>

definition xe_sfm :: "file_metadata enc" where
  "xe_sfm = e_iso (\<lambda>x. (fm_name x, fm_type x, fm_payload_id x, fm_size x, fm_mime_type x, fm_id x))
     (e_pair (e_option e_bytes)
       (e_pair (e_option e_int)
       (e_pair (e_option e_int)
       (e_pair (e_option e_int)
       (e_pair (e_option e_bytes)
       (e_option e_int))))))"

definition xd_sfm :: "file_metadata dec" where
  "xd_sfm = d_iso (\<lambda>(a, b, c, d, e, f). \<lparr>fm_name = a, fm_type = b, fm_payload_id = c, fm_size = d, fm_mime_type = e, fm_id = f\<rparr>)
     (d_pair (d_option d_bytes)
       (d_pair (d_option d_int)
       (d_pair (d_option d_int)
       (d_pair (d_option d_int)
       (d_pair (d_option d_bytes)
       (d_option d_int))))))"

lemma codec_sfm [codec_intros]: "codec xe_sfm xd_sfm"
  unfolding xe_sfm_def xd_sfm_def by (intro codec_intros) simp

definition xe_stm :: "text_metadata enc" where
  "xe_stm = e_iso (\<lambda>x. (tm_text_title x, tm_type x, tm_payload_id x, tm_size x, tm_id x))
     (e_pair (e_option e_bytes)
       (e_pair (e_option e_int)
       (e_pair (e_option e_int)
       (e_pair (e_option e_int)
       (e_option e_int)))))"

definition xd_stm :: "text_metadata dec" where
  "xd_stm = d_iso (\<lambda>(a, b, c, d, e). \<lparr>tm_text_title = a, tm_type = b, tm_payload_id = c, tm_size = d, tm_id = e\<rparr>)
     (d_pair (d_option d_bytes)
       (d_pair (d_option d_int)
       (d_pair (d_option d_int)
       (d_pair (d_option d_int)
       (d_option d_int)))))"

lemma codec_stm [codec_intros]: "codec xe_stm xd_stm"
  unfolding xe_stm_def xd_stm_def by (intro codec_intros) simp

definition xe_sam :: "app_metadata enc" where
  "xe_sam = e_iso (\<lambda>x. (am_size x, am_payload_id x, am_file_name x, am_file_size x, am_package_name x))
     (e_pair (e_option e_int)
       (e_pair (e_list e_int)
       (e_pair (e_list e_bytes)
       (e_pair (e_list e_int)
       (e_option e_bytes)))))"

definition xd_sam :: "app_metadata dec" where
  "xd_sam = d_iso (\<lambda>(a, b, c, d, e). \<lparr>am_size = a, am_payload_id = b, am_file_name = c, am_file_size = d, am_package_name = e\<rparr>)
     (d_pair (d_option d_int)
       (d_pair (d_list d_int)
       (d_pair (d_list d_bytes)
       (d_pair (d_list d_int)
       (d_option d_bytes)))))"

lemma codec_sam [codec_intros]: "codec xe_sam xd_sam"
  unfolding xe_sam_def xd_sam_def by (intro codec_intros) simp

definition xe_swm :: "wifi_credentials_metadata enc" where
  "xe_swm = e_iso (wm_payload_id)
     (e_option e_int)"

definition xd_swm :: "wifi_credentials_metadata dec" where
  "xd_swm = d_iso (\<lambda>a. \<lparr>wm_payload_id = a\<rparr>)
     (d_option d_int)"

lemma codec_swm [codec_intros]: "codec xe_swm xd_swm"
  unfolding xe_swm_def xd_swm_def by (intro codec_intros) simp

definition xe_sst :: "stream_metadata enc" where
  "xe_sst = e_iso (st_payload_id)
     (e_option e_int)"

definition xd_sst :: "stream_metadata dec" where
  "xd_sst = d_iso (\<lambda>a. \<lparr>st_payload_id = a\<rparr>)
     (d_option d_int)"

lemma codec_sst [codec_intros]: "codec xe_sst xd_sst"
  unfolding xe_sst_def xd_sst_def by (intro codec_intros) simp

definition xe_sin :: "introduction_frame enc" where
  "xe_sin = e_iso (\<lambda>x. (in_file_metadata x, in_text_metadata x, in_wifi_credentials_metadata x, in_app_metadata x, in_start_transfer x, in_stream_metadata x))
     (e_pair (e_list xe_sfm)
       (e_pair (e_list xe_stm)
       (e_pair (e_list xe_swm)
       (e_pair (e_list xe_sam)
       (e_pair (e_option e_bool)
       (e_list xe_sst))))))"

definition xd_sin :: "introduction_frame dec" where
  "xd_sin = d_iso (\<lambda>(a, b, c, d, e, f). \<lparr>in_file_metadata = a, in_text_metadata = b, in_wifi_credentials_metadata = c, in_app_metadata = d, in_start_transfer = e, in_stream_metadata = f\<rparr>)
     (d_pair (d_list xd_sfm)
       (d_pair (d_list xd_stm)
       (d_pair (d_list xd_swm)
       (d_pair (d_list xd_sam)
       (d_pair (d_option d_bool)
       (d_list xd_sst))))))"

lemma codec_sin [codec_intros]: "codec xe_sin xd_sin"
  unfolding xe_sin_def xd_sin_def by (intro codec_intros) simp

definition xe_srf :: "sharing_response_frame enc" where
  "xe_srf = e_iso (sr_status)
     (e_option e_int)"

definition xd_srf :: "sharing_response_frame dec" where
  "xd_srf = d_iso (\<lambda>a. \<lparr>sr_status = a\<rparr>)
     (d_option d_int)"

lemma codec_srf [codec_intros]: "codec xe_srf xd_srf"
  unfolding xe_srf_def xd_srf_def by (intro codec_intros) simp

definition xe_spe :: "paired_key_encryption_frame enc" where
  "xe_spe = e_iso (\<lambda>x. (pk_signed_data x, pk_secret_id_hash x, pk_optional_signed_data x, pk_qr_code_handshake_data x))
     (e_pair (e_option e_bytes)
       (e_pair (e_option e_bytes)
       (e_pair (e_option e_bytes)
       (e_option e_bytes))))"

definition xd_spe :: "paired_key_encryption_frame dec" where
  "xd_spe = d_iso (\<lambda>(a, b, c, d). \<lparr>pk_signed_data = a, pk_secret_id_hash = b, pk_optional_signed_data = c, pk_qr_code_handshake_data = d\<rparr>)
     (d_pair (d_option d_bytes)
       (d_pair (d_option d_bytes)
       (d_pair (d_option d_bytes)
       (d_option d_bytes))))"

lemma codec_spe [codec_intros]: "codec xe_spe xd_spe"
  unfolding xe_spe_def xd_spe_def by (intro codec_intros) simp

definition xe_spr :: "paired_key_result_frame enc" where
  "xe_spr = e_iso (\<lambda>x. (pr_status x, pr_os_type x))
     (e_pair (e_option e_int)
       (e_option e_int))"

definition xd_spr :: "paired_key_result_frame dec" where
  "xd_spr = d_iso (\<lambda>(a, b). \<lparr>pr_status = a, pr_os_type = b\<rparr>)
     (d_pair (d_option d_int)
       (d_option d_int))"

lemma codec_spr [codec_intros]: "codec xe_spr xd_spr"
  unfolding xe_spr_def xd_spr_def by (intro codec_intros) simp

definition xe_sv :: "sharing_v1 enc" where
  "xe_sv = e_iso (\<lambda>x. (sv_type x, sv_introduction x, sv_connection_response x, sv_paired_key_encryption x, sv_paired_key_result x))
     (e_pair (e_option e_int)
       (e_pair (e_option xe_sin)
       (e_pair (e_option xe_srf)
       (e_pair (e_option xe_spe)
       (e_option xe_spr)))))"

definition xd_sv :: "sharing_v1 dec" where
  "xd_sv = d_iso (\<lambda>(a, b, c, d, e). \<lparr>sv_type = a, sv_introduction = b, sv_connection_response = c, sv_paired_key_encryption = d, sv_paired_key_result = e\<rparr>)
     (d_pair (d_option d_int)
       (d_pair (d_option xd_sin)
       (d_pair (d_option xd_srf)
       (d_pair (d_option xd_spe)
       (d_option xd_spr)))))"

lemma codec_sv [codec_intros]: "codec xe_sv xd_sv"
  unfolding xe_sv_def xd_sv_def by (intro codec_intros) simp

definition xe_sharing :: "sharing_frame enc" where
  "xe_sharing = e_iso (\<lambda>x. (sf_version x, sf_v1 x))
     (e_pair (e_option e_int)
       (e_option xe_sv))"

definition xd_sharing :: "sharing_frame dec" where
  "xd_sharing = d_iso (\<lambda>(a, b). \<lparr>sf_version = a, sf_v1 = b\<rparr>)
     (d_pair (d_option d_int)
       (d_option xd_sv))"

lemma codec_sharing [codec_intros]: "codec xe_sharing xd_sharing"
  unfolding xe_sharing_def xd_sharing_def by (intro codec_intros) simp

definition ex_sharing :: "(bytes, bytes) sharing_net" where
  "ex_sharing = \<lparr>s_net = ex_net, enc_sharing = xe_sharing, dec_sharing = whole xd_sharing\<rparr>"

lemma ex_sharing_ok: "sharing_net_ok ex_sharing"
  by (simp add: sharing_net_ok_def ex_sharing_def ex_net_ok whole_codec [OF codec_sharing])

definition ex_session :: sharing_session where
  "ex_session = session_new ex_connection 1"

subsection \<open>Sends that succeed\<close>

lemma ex_data_length:
  assumes h: "payload_header i k sz name = Inr h" and b: "0 \<le> i" "i \<le> 1000" "sz \<le> 1000" "0 \<le> off" "off \<le> 1000"
    "length bs \<le> 1000" "\<And>n. name = Some n \<Longrightarrow> length n \<le> 100"
  shows "length (xe_offline (data_frame h off bs is_last)) \<le> 10000"
proof -
  let ?t = "case k of KBytes \<Rightarrow> TYPE_BYTES | KFile \<Rightarrow> TYPE_FILE"
  have hd: "h = \<lparr>ph_id = Some i, ph_type = Some ?t, ph_total_size = Some sz, ph_file_name = name\<rparr>" "0 \<le> sz"
    using h by (auto simp: payload_header_def split: if_splits)
  have t: "length (e_int ?t) \<le> 10" using length_e_int [of ?t] by (cases k) (simp_all add: wire_numbers)
  have nm: "length (e_option e_bytes name) \<le> 300"
  proof (cases name)
    case (Some n)
    then show ?thesis using length_e_bytes [of n] b(7) [of n] by simp
  qed simp
  have f: "length (e_int (if is_last then LAST_CHUNK else 0)) \<le> 10"
    using length_e_int [of "if is_last then LAST_CHUNK else 0"] by (simp add: wire_numbers split: if_splits)
  have c: "length (e_int 1) \<le> 4" "length (e_int 3) \<le> 6" using length_e_int [of 1] length_e_int [of 3] by simp_all
  show ?thesis
    using length_e_int [of i] length_e_int [of sz] length_e_int [of off] length_e_bytes [of bs] t nm f c b hd(2)
    by (simp add: hd(1) xe_offline_def xe_v1_def xe_pt_def xe_ph_def xe_pc_def e_iso_def e_pair_def data_frame_def
        offline_def v1_default_def wire_numbers)
qed

lemma ex_send_data:
  assumes "payload_header i k sz name = Inr h" "0 \<le> i" "i \<le> 1000" "sz \<le> 1000" "0 \<le> off" "off \<le> 1000"
    "length bs \<le> 1000" "\<And>n. name = Some n \<Longrightarrow> length n \<le> 100" and "ex_sender n a" "n \<le> 1000"
  shows "\<exists>a'. conn_data ex_net h off bs is_last a = (Inr (), a') \<and> ex_sender (Suc n) a'"
  by (rule ex_conn_data) (use assms ex_data_length [OF assms(1-8)] in auto)

lemma ex_sharing_send_bytes:
  assumes "0 \<le> i" "i \<le> 1000" "length bs \<le> 1000" "ex_sender n a" "n < 1000"
  shows "\<exists>a'. send_bytes ex_net i bs a = (Inr (), a') \<and> ex_sender (Suc (Suc n)) a'"
proof -
  let ?sz = "int (length bs)"
  obtain h where h: "payload_header i KBytes ?sz None = Inr h"
    using assms(3) by (simp add: payload_header_def MAX_PAYLOAD_LENGTH_def)
  obtain a1 where 1: "conn_data ex_net h 0 bs (bs = []) a = (Inr (), a1)" "ex_sender (Suc n) a1"
    using ex_send_data [OF h, of 0 bs n a "bs = []"] assms by auto
  obtain a2 where 2: "conn_data ex_net h ?sz [] True a1 = (Inr (), a2)" "ex_sender (Suc (Suc n)) a2"
    using ex_send_data [OF h, of ?sz "[]" "Suc n" a1 True] assms 1(2) by auto
  have w: "ex_sender m c \<Longrightarrow> ex_sender (Suc m) c" for m c by (auto simp: ex_sender_def)
  show ?thesis
    using 1 2 h w assms(3)
    by (cases "bs = []") (auto simp: send_bytes_def i64_of_usize_def i64_max_def)
qed

lemma ex_send_control:
  assumes "length (xe_sharing f) \<le> 1000" "ex_sender n (sh_conn s)" "n < 1000" "0 \<le> sh_next s" "sh_next s \<le> 1000"
  shows "\<exists>c. send_control_frame ex_sharing f s =
      (Inr (), s\<lparr>sh_next := next_control_id (sh_next s), sh_conn := c\<rparr>) \<and> ex_sender (Suc (Suc n)) c"
  using ex_sharing_send_bytes [OF assms(4,5,1,2,3)]
  by (auto simp: send_control_frame_def next_control_payload_id_def on_conn_def send_sharing_frame_def ex_sharing_def)

lemma ex_sender_input: "ex_sender n a \<Longrightarrow> same_but_input a b \<Longrightarrow> ex_sender n b"
  by (elim same_but_inputE) (simp add: ex_sender_def s_healthy_def)

lemma ex_sharing_simps [simp]:
  "s_net ex_sharing = ex_net" "enc_sharing ex_sharing = xe_sharing" "dec_sharing ex_sharing = whole xd_sharing"
  by (simp_all add: ex_sharing_def)

lemma ex_paired: "paired ex_sharing ex_session ex_session"
  using ex_in_flight ex_sharing_ok
  by (simp add: paired_def linked_def ex_session_def session_new_def quiet_def ex_connection_def)

lemma ex_session_simps [simp]:
  "sh_conn ex_session = ex_connection" "sh_next ex_session = 1" "sh_cancel ex_session = []"
  by (simp_all add: ex_session_def session_new_def)

lemmas ex_sharing_defs = xe_sharing_def xe_sv_def xe_sin_def xe_sfm_def xe_stm_def xe_srf_def xe_spe_def xe_spr_def
  e_iso_def e_pair_def e_int_def e_nat_def e_bytes_def e_list_def e_bool_def e_unit_def decimal.simps builder_defs
  FILE_DOCUMENT_def FILE_PAYLOAD_ID_def FILE_ATTACHMENT_ID_def TEXT_PAYLOAD_ID_def TEXT_ATTACHMENT_ID_def ascii_def

lemma ex_accept_length: "length (xe_sharing accept_response) \<le> 1000"
  by (simp add: accept_response_def ex_sharing_defs)

text \<open>The opening of a conversation of the example sessions, up to the sender's turn.\<close>

lemma ex_opening:
  assumes f: "f = introduction name sz \<or> f = text_introduction name sz kind" and l: "length (xe_sharing f) \<le> 1000"
  shows "\<exists>A1 res B1 B2 a. send_control_frame ex_sharing f ex_session = (Inr (), A1) \<and> sh_cancel A1 = [] \<and>
    receive_incoming_offer ex_sharing (feed (out ex_session A1) ex_session) = (res, B1) \<and>
    accept_incoming_offer ex_sharing B1 = (Inr (), B2) \<and>
    await_consent ex_sharing (feed (out B1 B2) A1) = (Inr (), A1\<lparr>sh_conn := a\<rparr>) \<and> ex_sender 2 a \<and>
    same_but_input (sh_conn A1) a \<and> outgoing_file a = None \<and> s_in (c_stream a) = [] \<and> s_end (c_stream a) = ITimedOut"
proof -
  obtain c where c: "send_control_frame ex_sharing f ex_session =
      (Inr (), ex_session\<lparr>sh_next := next_control_id 1, sh_conn := c\<rparr>)" and ec: "ex_sender (Suc (Suc 0)) c"
    using ex_send_control [OF l, of 0 ex_session] by auto
  define A1 where "A1 = ex_session\<lparr>sh_next := next_control_id 1, sh_conn := c\<rparr>"
  have i: "send_control_frame ex_sharing f ex_session = (Inr (), A1)" using c by (simp add: A1_def)
  obtain res B1 where r: "receive_incoming_offer ex_sharing (feed (out ex_session A1) ex_session) = (res, B1)" by force
  from introduction_across [OF ex_paired i f] r obtain b where
    B1: "B1 = ex_session\<lparr>sh_conn := b\<rparr>" "same_but_input ex_connection b" by auto
  have "ex_sender 0 b" by (rule ex_sender_input [OF ex_connection_sender B1(2)])
  then obtain B2 where acc: "accept_incoming_offer ex_sharing B1 = (Inr (), B2)"
    using ex_send_control [OF ex_accept_length, of 0 B1] B1(1)
    by (auto simp: accept_incoming_offer_def send_consent_def)
  have nc: "sh_cancel ex_session = []" by simp
  from opening_across [OF ex_paired nc nc f i r acc] obtain a where
    a: "await_consent ex_sharing (feed (out B1 B2) A1) = (Inr (), A1\<lparr>sh_conn := a\<rparr>)" "same_but_input (sh_conn A1) a"
    "sh_cancel A1 = []" "paired ex_sharing (A1\<lparr>sh_conn := a\<rparr>) B2" by blast
  obtain d where d: "send_bytes ex_net 1 (xe_sharing f) ex_connection = (Inr (), d)" "sh_conn A1 = d"
    using send_control_Inr [OF i] by auto
  have "same_but_output ex_connection c" using send_bytes_same [OF d(1)] d(2) by (simp add: A1_def)
  note k = same_but_output_fields [OF this] same_but_input_fields [OF a(2)]
  have "ex_sender 2 a" using ex_sender_input [OF ec] a(2) by (simp add: A1_def numeral_2_eq_2)
  moreover have "outgoing_file a = None" "s_end (c_stream a) = ITimedOut"
    using k by (simp_all add: A1_def ex_connection_def idle_stream_def)
  moreover have "s_in (c_stream a) = []" using a(4) by (simp add: paired_def linked_def)
  ultimately show ?thesis using i r acc a(1-3) by blast
qed

text \<open>The witness of \<open>text_delivered\<close>.\<close>

theorem text_delivered_witness:
  "\<exists>A1 res B1 B2 A' B3. send_control_frame ex_sharing (text_introduction (ascii ''hi'') 2 TtText) ex_session = (Inr (), A1) \<and>
     receive_incoming_offer ex_sharing (feed (out ex_session A1) ex_session) = (Inr res, B1) \<and>
     accept_incoming_offer ex_sharing B1 = (Inr (), B2) \<and>
     send_outgoing_value ex_sharing (ascii ''hi'') TtText (feed (out B1 B2) ex_session) = (Inr (), A') \<and>
     receive_incoming_value ex_sharing res OText (feed (out A1 A') B2) = (Inr (ascii ''hi''), B3)"
proof -
  let ?v = "ascii ''hi''"
  have v: "length ?v = 2" "utf8_valid ?v" "?v \<noteq> []" by (simp_all add: ascii_def in_range_def)
  have fl: "length (xe_sharing (text_introduction ?v 2 TtText)) \<le> 1000"
    by (simp add: ex_sharing_defs)
  have f: "text_introduction ?v 2 TtText = introduction ?v 2 \<or> text_introduction ?v 2 TtText = text_introduction ?v 2 TtText" by simp
  from ex_opening [OF f fl] obtain A1 res B1 B2 a where
    i: "send_control_frame ex_sharing (text_introduction ?v 2 TtText) ex_session = (Inr (), A1)" "sh_cancel A1 = []"
    and r: "receive_incoming_offer ex_sharing (feed (out ex_session A1) ex_session) = (res, B1)"
    and acc: "accept_incoming_offer ex_sharing B1 = (Inr (), B2)"
    and c: "await_consent ex_sharing (feed (out B1 B2) A1) = (Inr (), A1\<lparr>sh_conn := a\<rparr>)" "ex_sender 2 a" by blast
  obtain a5 where s5: "send_bytes ex_net TEXT_PAYLOAD_ID ?v a = (Inr (), a5)"
    using ex_sharing_send_bytes [of TEXT_PAYLOAD_ID ?v 2 a] c(2) v by (auto simp: TEXT_PAYLOAD_ID_def)
  have i': "send_control_frame ex_sharing (text_introduction ?v (int (length ?v)) TtText) ex_session = (Inr (), A1)"
    using i(1) v by simp
  have sd: "\<exists>A'. send_outgoing_value ex_sharing ?v TtText (feed (out B1 B2) ex_session) = (Inr (), A')"
    using value_after_consent [OF _ i(2) i' c(1)] v s5 i(2)
    by (simp add: MAX_TEXT_BYTES_def on_conn_def on_accepted_def not_stopped on_progress_def)
  then obtain A' where A': "send_outgoing_value ex_sharing ?v TtText (feed (out B1 B2) ex_session) = (Inr (), A')" ..
  from text_delivered [OF ex_paired _ _ _ v(2) i' r acc A'] i(1) r acc A' show ?thesis
    by (auto simp: text_offer_kind_def)
qed

lemma ex_poll_idle:
  "s_in (c_stream a) = [] \<Longrightarrow> s_end (c_stream a) = ITimedOut \<Longrightarrow> poll_outgoing_control ex_net i a = (Inr (), a)"
  by (subst poll_outgoing_control.simps) (simp add: recv_if_ready_def stream_read_ready_def)

definition ex_sending :: "nat \<Rightarrow> payload_header_msg \<Rightarrow> sharing_session \<Rightarrow> bool" where
  "ex_sending n h s \<longleftrightarrow> sh_cancel s = [] \<and> ex_sender n (sh_conn s) \<and> s_in (c_stream (sh_conn s)) = [] \<and>
     s_end (c_stream (sh_conn s)) = ITimedOut \<and>
     (\<exists>og. outgoing_file (sh_conn s) = Some og \<and> og_id og = FILE_PAYLOAD_ID \<and> og_header og = h)"

lemma ex_send_chunk:
  assumes h: "payload_header FILE_PAYLOAD_ID KFile sz (Some name) = Inr h" "sz \<le> 1000" "length name \<le> 100"
    and o: "0 \<le> off" "off \<le> 1000" "length bs \<le> 1000" and s: "ex_sending n h s" "n \<le> 1000"
  shows "\<exists>s'. session_send_chunk ex_sharing off bs is_last s = (Inr (), s') \<and> sh_cancel s' = [] \<and>
    (\<not> is_last \<longrightarrow> ex_sending (Suc n) h s')"
proof -
  let ?a = "sh_conn s"
  obtain og where og: "outgoing_file ?a = Some og" "og_id og = FILE_PAYLOAD_ID" "og_header og = h"
    and q: "s_in (c_stream ?a) = []" "s_end (c_stream ?a) = ITimedOut" "ex_sender n ?a"
    using s(1) by (auto simp: ex_sending_def)
  obtain c where c: "conn_data ex_net h off bs is_last ?a = (Inr (), c)" "ex_sender (Suc n) c"
    using ex_send_data [OF h(1) _ _ h(2) o _ q(3) s(2)] h(3) by (auto simp: FILE_PAYLOAD_ID_def)
  note k = same_but_output_fields [OF conn_data_same [OF c(1)]]
  have "send_file_chunk ex_net FILE_PAYLOAD_ID off bs is_last ?a =
      (Inr (), if is_last then c\<lparr>outgoing_file := None\<rparr> else c\<lparr>outgoing_file := Some (og\<lparr>og_started := True\<rparr>)\<rparr>)"
    using og c k(4) ex_poll_idle [OF q(1,2)] by (cases is_last) (simp_all add: send_file_chunk_def)
  then show ?thesis
    using og c k q s(1) by (cases is_last) (simp_all add: session_send_chunk_def on_conn_def ex_sending_def ex_sender_def)
qed

lemma ex_file_payload:
  assumes s: "sh_cancel s = []" "ex_sender 2 (sh_conn s)" "s_in (c_stream (sh_conn s)) = []"
    "s_end (c_stream (sh_conn s)) = ITimedOut"
  shows "\<exists>r s'. send_file_payload ex_sharing (ascii ''a'') 2 2 (pieces [[1, 2]]) s = (Inr (), r, s') \<and> sh_cancel s' = []"
proof -
  obtain h where h: "payload_header FILE_PAYLOAD_ID KFile 2 (Some (ascii ''a'')) = Inr h"
    by (simp add: payload_header_def MAX_PAYLOAD_LENGTH_def)
  obtain s1 where 1: "on_conn (send_file_header FILE_PAYLOAD_ID 2 (Some (ascii ''a''))) s = (Inr (), s1)"
    and e1: "ex_sending 2 h s1"
    using s h by (simp add: on_conn_def send_file_header_def ex_sending_def ex_sender_def)
  obtain s2 where 2: "session_send_chunk ex_sharing 0 [1, 2] False s1 = (Inr (), s2)" and e2: "ex_sending 3 h s2"
    using ex_send_chunk [OF h _ _ _ _ _ e1, of 0 "[1, 2]" False] by (auto simp: ascii_def numeral_3_eq_3)
  have p: "ex_sending 3 h (on_progress 2 s2)" using e2 by (simp add: ex_sending_def on_progress_def)
  obtain s3 where 3: "session_send_chunk ex_sharing 2 [] True (on_progress 2 s2) = (Inr (), s3)" "sh_cancel s3 = []"
    using ex_send_chunk [OF h _ _ _ _ _ p, of 2 "[]" True] by (auto simp: ascii_def)
  have n: "stop_if_cancelled ex_sharing s1 = (Inr (), s1)"
    "stop_if_cancelled ex_sharing (on_progress 2 s2) = (Inr (), on_progress 2 s2)"
    using e1 p by (simp_all add: ex_sending_def not_stopped)
  have end2: "send_chunks ex_sharing 2 2 r t = (Inr (), r, t)" for r t by (simp add: send_chunks.simps)
  have "send_chunks ex_sharing 2 0 (pieces [[1, 2]]) s1 = (Inr (), [], on_progress 2 s2)"
    using 2 n(1) end2
    by (subst send_chunks.simps)
      (simp add: pieces_def reader_read_def FILE_CHUNK_SIZE_def checked_add_u64_def u64_max_def source_ended_def
        i64_of_u64_def i64_max_def flip: numeral_2_eq_2)
  then show ?thesis using 1 3 n(2) by (simp add: send_file_payload_def)
qed

text \<open>The witness of \<open>file_delivered\<close>.\<close>

theorem file_delivered_witness:
  "\<exists>A1 res B1 B2 r A' w B3. send_control_frame ex_sharing (introduction (ascii ''a'') 2) ex_session = (Inr (), A1) \<and>
     receive_incoming_offer ex_sharing (feed (out ex_session A1) ex_session) = (Inr res, B1) \<and>
     accept_incoming_offer ex_sharing B1 = (Inr (), B2) \<and>
     send_outgoing_file ex_sharing (ascii ''a'') 2 (pieces [[1, 2]]) (feed (out B1 B2) ex_session) = (Inr (), r, A') \<and>
     receive_incoming_file ex_sharing res \<lparr>w_out = [9], w_room = None\<rparr> (feed (out A1 A') B2) = (Inr (), w, B3) \<and>
     w_out w = [9, 1, 2]"
proof -
  let ?n = "ascii ''a''"
  have fl: "length (xe_sharing (introduction ?n 2)) \<le> 1000" by (simp add: ex_sharing_defs)
  have f: "introduction ?n 2 = introduction ?n 2 \<or> introduction ?n 2 = text_introduction ?n 2 TtText" by simp
  from ex_opening [OF f fl] obtain A1 res B1 B2 a where
    i: "send_control_frame ex_sharing (introduction ?n 2) ex_session = (Inr (), A1)" "sh_cancel A1 = []"
    and r: "receive_incoming_offer ex_sharing (feed (out ex_session A1) ex_session) = (res, B1)"
    and acc: "accept_incoming_offer ex_sharing B1 = (Inr (), B2)"
    and c: "await_consent ex_sharing (feed (out B1 B2) A1) = (Inr (), A1\<lparr>sh_conn := a\<rparr>)" "ex_sender 2 a"
    and q: "s_in (c_stream a) = []" "s_end (c_stream a) = ITimedOut" by blast
  have g: "safe_name ?n \<and> int 2 \<le> i64_max" by (simp add: safe_name_def ascii_def i64_max_def)
  have i': "send_control_frame ex_sharing (introduction ?n (int 2)) ex_session = (Inr (), A1)" using i(1) by simp
  obtain r' s' where "send_file_payload ex_sharing ?n 2 2 (pieces [[1, 2]]) (on_accepted (A1\<lparr>sh_conn := a\<rparr>)) =
      (Inr (), r', s')" "sh_cancel s' = []"
    using ex_file_payload [of "on_accepted (A1\<lparr>sh_conn := a\<rparr>)"] i(2) c(2) q by (auto simp: on_accepted_def)
  then have "send_outgoing_file ex_sharing ?n 2 (pieces [[1, 2]]) (feed (out B1 B2) ex_session) = (Inr (), r', s')"
    using file_after_consent [OF _ i(2) i' c(1) g] by (simp add: not_stopped)
  from file_delivered [OF ex_paired _ _ _ _ i' r acc this, of "\<lparr>w_out = [9], w_room = None\<rparr>"] i(1) r acc this
  show ?thesis by auto
qed

end
