(* ===== verification/Sharing_Streams.thy ===== *)
theory Sharing_Streams
  imports Sharing_Transfer
begin

text \<open>
  The file transfers of \<open>protocol/session/transfer\<close> are generic in the source they read and the sink
  they write. \<open>Sharing_Transfer\<close> has them for a scripted reader and writer; here they are for any
  \<open>read\<close> and \<open>write_all\<close>, with the proof that both agree. The network worker uses them with the files
  of \<open>platform/storage\<close>.
\<close>

subsection \<open>Sending from any reader\<close>

type_synonym 'r read_op = "nat \<Rightarrow> 'r \<Rightarrow> (io_kind + bytes) \<times> 'r"

definition source_ended_from :: "'r read_op \<Rightarrow> 'r \<Rightarrow> (protocol_error + unit) \<times> 'r" where
  "source_ended_from rd r =
     (case rd 1 r of
        (Inl e, r1) \<Rightarrow> (Inl (PIo e), r1)
      | (Inr extra, r1) \<Rightarrow> (if extra \<noteq> [] then Inl PInvalidPayload else Inr (), r1))"

function send_chunks_from :: "'r read_op \<Rightarrow> ('sk, 'pk) sharing_net \<Rightarrow> nat \<Rightarrow> nat \<Rightarrow> 'r \<Rightarrow> sharing_session \<Rightarrow>
    (protocol_error + unit) \<times> 'r \<times> sharing_session" where
  "send_chunks_from rd N sz offset r s =
     (if \<not> offset < sz then (Inr (), r, s)
      else
        (case stop_if_cancelled N s of
           (Inl e, s1) \<Rightarrow> (Inl e, r, s1)
         | (Inr _, s1) \<Rightarrow>
             let read_limit = min (sz - offset) FILE_CHUNK_SIZE in
             (case rd read_limit r of
                (Inl e, r1) \<Rightarrow> (Inl (PIo e), r1, s1)
              | (Inr chunk, r1) \<Rightarrow>
                  if chunk = [] then (Inl PInvalidPayload, r1, s1)
                  else
                    (case checked_add_u64 offset (length chunk) of
                       None \<Rightarrow> (Inl PInvalidPayload, r1, s1)
                     | Some next_offset \<Rightarrow>
                       (case (if next_offset = sz then source_ended_from rd r1 else (Inr (), r1)) of
                          (Inl e, r2) \<Rightarrow> (Inl e, r2, s1)
                        | (Inr _, r2) \<Rightarrow>
                          (case i64_of_u64 offset of
                             None \<Rightarrow> (Inl PInvalidPayload, r2, s1)
                           | Some wire_offset \<Rightarrow>
                             (case session_send_chunk N wire_offset chunk False s1 of
                                (Inl e, s2) \<Rightarrow> (Inl e, r2, s2)
                              | (Inr _, s2) \<Rightarrow>
                                  send_chunks_from rd N sz next_offset r2 (on_progress next_offset s2))))))))"
  by pat_completeness auto
termination
  by (relation "measure (\<lambda>(rd, N, sz, offset, r, s). sz - offset)")
    (auto simp: checked_add_u64_def intro!: diff_less_mono2 split: if_splits)

declare send_chunks_from.simps [simp del]

definition send_file_payload_from :: "'r read_op \<Rightarrow> ('sk, 'pk) sharing_net \<Rightarrow> rstring \<Rightarrow> nat \<Rightarrow> int \<Rightarrow> 'r \<Rightarrow>
    sharing_session \<Rightarrow> (protocol_error + unit) \<times> 'r \<times> sharing_session" where
  "send_file_payload_from rd N name sz wire_size r s =
     (case on_conn (send_file_header FILE_PAYLOAD_ID wire_size (Some name)) s of
        (Inl e, s1) \<Rightarrow> (Inl e, r, s1)
      | (Inr _, s1) \<Rightarrow>
          if sz = 0 then
            (case stop_if_cancelled N s1 of
               (Inl e, s2) \<Rightarrow> (Inl e, r, s2)
             | (Inr _, s2) \<Rightarrow>
               (case source_ended_from rd r of
                  (Inl e, r1) \<Rightarrow> (Inl e, r1, s2)
                | (Inr _, r1) \<Rightarrow>
                  (case session_send_chunk N 0 [] True s2 of
                     (Inl e, s3) \<Rightarrow> (Inl e, r1, s3)
                   | (Inr _, s3) \<Rightarrow> (Inr (), r1, on_progress 0 s3))))
          else
            (case send_chunks_from rd N sz 0 r s1 of
               (Inl e, r1, s2) \<Rightarrow> (Inl e, r1, s2)
             | (Inr _, r1, s2) \<Rightarrow>
               (case stop_if_cancelled N s2 of
                  (Inl e, s3) \<Rightarrow> (Inl e, r1, s3)
                | (Inr _, s3) \<Rightarrow>
                  (case session_send_chunk N wire_size [] True s3 of
                     (Inl e, s4) \<Rightarrow> (Inl e, r1, s4)
                   | (Inr _, s4) \<Rightarrow> (Inr (), r1, s4)))))"

definition send_outgoing_file_from :: "'r read_op \<Rightarrow> ('sk, 'pk) sharing_net \<Rightarrow> rstring \<Rightarrow> nat \<Rightarrow> 'r \<Rightarrow>
    sharing_session \<Rightarrow> (protocol_error + unit) \<times> 'r \<times> sharing_session" where
  "send_outgoing_file_from rd N name sz r s =
     (if \<not> safe_name name then (Inl (PInvalidOffer ''unsafe file name''), r, s)
      else
        (case i64_of_u64 sz of
           None \<Rightarrow> (Inl PInvalidPayload, r, s)
         | Some wire_size \<Rightarrow>
           (case is_cancelled s of
              (True, s1) \<Rightarrow> (Inl PCancelled, r, s1)
            | (False, s1) \<Rightarrow>
              (case send_control_frame N (introduction name wire_size) s1 of
                 (Inl e, s2) \<Rightarrow> (Inl e, r, s2)
               | (Inr _, s2) \<Rightarrow>
                 (case await_consent N s2 of
                    (Inl e, s3) \<Rightarrow> (Inl e, r, s3)
                  | (Inr _, s3) \<Rightarrow>
                    (case stop_if_cancelled N (on_accepted s3) of
                       (Inl e, s4) \<Rightarrow> (Inl e, r, s4)
                     | (Inr _, s4) \<Rightarrow>
                       (case send_file_payload_from rd N name sz wire_size r s4 of
                          (Inl e, r1, s5) \<Rightarrow> (Inl e, r1, s5)
                        | (Inr _, r1, s5) \<Rightarrow>
                          (case stop_if_cancelled N s5 of (x, s6) \<Rightarrow> (x, r1, s6)))))))))"

lemma source_ended_from_reader: "source_ended_from reader_read r = source_ended r"
  by (simp add: source_ended_from_def source_ended_def)

lemma send_chunks_from_reader: "send_chunks_from reader_read N sz offset r s = send_chunks N sz offset r s"
proof (induction N sz offset r s rule: send_chunks.induct)
  case (1 N sz offset r s)
  note unfold_both = send_chunks.simps [of N sz offset r s] send_chunks_from.simps [of reader_read N sz offset r s]
  show ?case
    unfolding unfold_both
    by (auto simp: Let_def source_ended_from_reader 1 split: prod.split sum.split option.split if_split)
qed

lemma send_outgoing_file_from_reader:
  "send_outgoing_file_from reader_read N name sz r s = send_outgoing_file N name sz r s"
  unfolding send_outgoing_file_from_def send_outgoing_file_def send_file_payload_from_def
    send_file_payload_def send_chunks_from_reader source_ended_from_reader ..

subsection \<open>Receiving into any writer\<close>

type_synonym 'w write_op = "bytes \<Rightarrow> 'w \<Rightarrow> (io_kind + unit) \<times> 'w"

function receive_chunks_to :: "'w write_op \<Rightarrow> ('sk, 'pk) sharing_net \<Rightarrow> int \<Rightarrow> nat \<Rightarrow> nat \<Rightarrow> 'w \<Rightarrow> sharing_session \<Rightarrow>
    (protocol_error + unit) \<times> 'w \<times> sharing_session" where
  "receive_chunks_to wr N i sz received w s =
     (case stop_if_cancelled N s of
        (Inl e, s1) \<Rightarrow> (Inl e, w, s1)
      | (Inr _, s1) \<Rightarrow>
        (case next_transfer_event_for N i s1 of
           (Inl e, s2) \<Rightarrow> (Inl e, w, s2)
         | (Inr ev, s2) \<Rightarrow>
           (case ev of
              EvBytes j bs \<Rightarrow>
                (case control_action_of N bs of
                   ActCancel \<Rightarrow> (Inl PCancelled, w, s2)
                 | ActSkip \<Rightarrow> receive_chunks_to wr N i sz received w s2
                 | ActReject \<Rightarrow> (Inl PInvalidPayload, w, s2))
            | EvFileChunk chunk_id offset chunk is_last \<Rightarrow>
                (case i64_of_u64 received of
                   None \<Rightarrow> (Inl PInvalidPayload, w, s2)
                 | Some expected_offset \<Rightarrow>
                   (case checked_add_u64 received (length chunk) of
                      None \<Rightarrow> (Inl PInvalidPayload, w, s2)
                    | Some next_received \<Rightarrow>
                        if chunk_id \<noteq> i \<or> offset \<noteq> expected_offset \<or> \<not> next_received \<le> sz \<or>
                           (chunk = [] \<and> \<not> is_last)
                        then (Inl PInvalidPayload, w, s2)
                        else
                          (case wr chunk w of
                             (Inl e, w1) \<Rightarrow> (Inl (PIo e), w1, s2)
                           | (Inr _, w1) \<Rightarrow>
                               let s3 = on_progress next_received s2 in
                               if is_last then
                                 if next_received = sz then (Inr (), w1, s3) else (Inl PInvalidPayload, w1, s3)
                               else receive_chunks_to wr N i sz next_received w1 s3)))
            | EvDisconnected \<Rightarrow> (Inl PDisconnected, w, s2)
            | _ \<Rightarrow> (Inl PInvalidPayload, w, s2))))"
  by pat_completeness auto
termination
  by (relation "inv_image session_order (\<lambda>(wr, N, i, sz, received, w, s). s)") (auto dest: transfer_turn)

declare receive_chunks_to.simps [simp del]

definition receive_incoming_file_to :: "'w write_op \<Rightarrow> ('sk, 'pk) sharing_net \<Rightarrow> incoming_offer \<Rightarrow> 'w \<Rightarrow>
    sharing_session \<Rightarrow> (protocol_error + unit) \<times> 'w \<times> sharing_session" where
  "receive_incoming_file_to wr N offer w s =
     (case stop_if_cancelled N s of
        (Inl e, s1) \<Rightarrow> (Inl e, w, s1)
      | (Inr _, s1) \<Rightarrow>
        (case receive_file_header N offer s1 of
           (Inl e, s2) \<Rightarrow> (Inl e, w, s2)
         | (Inr (i, sz), s2) \<Rightarrow> receive_chunks_to wr N i sz 0 w s2))"

lemma receive_chunks_to_writer:
  "receive_chunks_to writer_write_all N i sz received w s = receive_file_chunks N i sz received w s"
proof (induction N i sz received w s rule: receive_file_chunks.induct)
  case (1 N i sz received w s)
  note unfold_both = receive_file_chunks.simps [of N i sz received w s]
    receive_chunks_to.simps [of writer_write_all N i sz received w s]
  show ?case
    unfolding unfold_both
    by (auto simp: Let_def 1 split: prod.split sum.split option.split event.split control_action.split if_split)
qed

lemma receive_incoming_file_to_writer:
  "receive_incoming_file_to writer_write_all N offer w s = receive_incoming_file N offer w s"
  unfolding receive_incoming_file_to_def receive_incoming_file_def receive_chunks_to_writer ..

text \<open>What a sink has been given when the transfer succeeds: consecutive pieces of the declared size.\<close>

fun write_pieces :: "'w write_op \<Rightarrow> bytes list \<Rightarrow> 'w \<Rightarrow> (io_kind + unit) \<times> 'w" where
  "write_pieces wr [] w = (Inr (), w)"
| "write_pieces wr (b # bs) w = (case wr b w of (Inl e, w) \<Rightarrow> (Inl e, w) | (Inr _, w) \<Rightarrow> write_pieces wr bs w)"

lemma checked_add_u64_Some: "checked_add_u64 a b = Some c \<Longrightarrow> c = a + b"
  by (simp add: checked_add_u64_def split: if_splits)

lemma receive_chunks_to_pieces:
  "receive_chunks_to wr N i sz received w s = (Inr (), w', s') \<Longrightarrow>
     \<exists>bs. write_pieces wr bs w = (Inr (), w') \<and> received + length (concat bs) = sz"
proof (induction s arbitrary: received w rule: wf_induct_rule [OF wf_session_order])
  case (1 s)
  note unfolded = "1.prems" [unfolded receive_chunks_to.simps [of wr N i sz received w s]]
  obtain s1 where s1: "stop_if_cancelled N s = (Inr (), s1)"
    using unfolded by (cases "stop_if_cancelled N s") (auto split: sum.splits)
  obtain ev s2 where ev: "next_transfer_event_for N i s1 = (Inr ev, s2)"
    using unfolded s1 by (cases "next_transfer_event_for N i s1") (auto split: sum.splits)
  have less: "ev \<noteq> EvDisconnected \<Longrightarrow> (s2, s) \<in> session_order"
    using transfer_turn [of s1 N s ev s2 i] s1 ev by simp
  show ?case
  proof (cases ev)
    case (EvBytes j bs)
    then show ?thesis
      using unfolded s1 ev "1.IH" [OF less] by (auto split: control_action.splits)
  next
    case (EvFileChunk j offset chunk is_last)
    then obtain n w1 where n: "checked_add_u64 received (length chunk) = Some n" and w1: "wr chunk w = (Inr (), w1)"
      and rest: "is_last \<and> n = sz \<and> w' = w1 \<or>
        receive_chunks_to wr N i sz n w1 (on_progress n s2) = (Inr (), w', s')"
      using unfolded s1 ev by (auto simp: Let_def split: option.splits if_splits prod.splits sum.splits)
    have step: "write_pieces wr (chunk # bs) w = write_pieces wr bs w1" for bs using w1 by simp
    note n' = checked_add_u64_Some [OF n]
    from rest show ?thesis
    proof
      assume "is_last \<and> n = sz \<and> w' = w1"
      then show ?thesis using step [of "[]"] n' by (intro exI [of _ "[chunk]"]) simp
    next
      assume "receive_chunks_to wr N i sz n w1 (on_progress n s2) = (Inr (), w', s')"
      then obtain bs where "write_pieces wr bs w1 = (Inr (), w')" "n + length (concat bs) = sz"
        using "1.IH" [of "on_progress n s2" n w1] less EvFileChunk by auto
      then show ?thesis using step [of bs] n' by (intro exI [of _ "chunk # bs"]) simp
    qed
  qed (use unfolded s1 ev in auto)
qed

end
