(* ===== verification/Sharing_Safety.thy ===== *)
theory Sharing_Safety
  imports Example_Sharing Sharing_Streams
begin

text \<open>
  What a Sharing session guarantees whatever the peer sends: how much is written, when a payload
  may leave, and what a cancellation does.
\<close>

subsection \<open>What a peer can make the receiver write\<close>

lemma write_all_prefix:
  "writer_write_all bs w = (r, w') \<Longrightarrow> \<exists>n. w_out w' = w_out w @ take n bs \<and> (r = Inr () \<longrightarrow> w_out w' = w_out w @ bs)"
  by (auto simp: writer_write_all_def split: option.splits if_splits)
    (metis take_all order_refl)+

definition wrote :: "nat \<Rightarrow> nat \<Rightarrow> (protocol_error + unit) \<times> writer \<times> sharing_session \<Rightarrow> writer \<Rightarrow> bool" where
  "wrote received sz x w \<longleftrightarrow>
     (\<exists>bs. w_out (fst (snd x)) = w_out w @ bs \<and> received + length bs \<le> sz \<and>
        (fst x = Inr () \<longrightarrow> received + length bs = sz))"

lemma wrote_nothing: "received \<le> sz \<Longrightarrow> wrote received sz (Inl e, w, s) w"
  by (auto simp: wrote_def)

lemma wrote_more:
  assumes "wrote (received + length c) sz x w1" and "w_out w1 = w_out w @ c"
  shows "wrote received sz x w"
proof -
  obtain bs where "w_out (fst (snd x)) = w_out w1 @ bs" "received + length c + length bs \<le> sz"
    "fst x = Inr () \<longrightarrow> received + length c + length bs = sz" using assms(1) by (auto simp: wrote_def)
  then show ?thesis unfolding wrote_def using assms(2) by (intro exI [of _ "c @ bs"]) auto
qed

lemma chunks_wrote: "received \<le> sz \<Longrightarrow> wrote received sz (receive_file_chunks N i sz received w s) w"
proof (induction s arbitrary: received w rule: wf_induct_rule [OF wf_session_order])
  case (1 s)
  note n = wrote_nothing [OF 1(2)]
  obtain x s1 where x: "stop_if_cancelled N s = (x, s1)" by force
  show ?case
  proof (cases x)
    case (Inl e)
    then show ?thesis using x n by (subst receive_file_chunks.simps) simp
  next
    case (Inr u)
    obtain y s2 where y: "next_transfer_event_for N i s1 = (y, s2)" by force
    show ?thesis
    proof (cases y)
      case (Inl e)
      then show ?thesis using x Inr y n by (subst receive_file_chunks.simps) simp
    next
      case ev: (Inr ev)
      have o: "ev \<noteq> EvDisconnected \<Longrightarrow> (s2, s) \<in> session_order"
        using transfer_turn [of s1 N s ev s2 i] x Inr y ev by simp
      show ?thesis
      proof (cases "\<exists>j off c l. ev = EvFileChunk j off c l")
        case True
        then obtain j off c l where c: "ev = EvFileChunk j off c l" by blast
        obtain r w1 where w: "writer_write_all c w = (r, w1)" by force
        from write_all_prefix [OF w] obtain k where k: "w_out w1 = w_out w @ take k c" by blast
        have part: "received + length c \<le> sz \<Longrightarrow> wrote received sz (Inl e, w1, t) w" for e t
          using k by (auto simp: wrote_def)
        show ?thesis
        proof (cases r)
          case (Inl e)
          then show ?thesis using x Inr y ev c w n part
            by (subst receive_file_chunks.simps) (simp add: checked_add_u64_def split: option.split)
        next
          case wr: (Inr v)
          then have full: "w_out w1 = w_out w @ c" using write_all_prefix [OF w] by simp
          have fin: "wrote received sz (Inr (), w1, t) w" if "received + length c = sz" for t
            using that full by (auto simp: wrote_def)
          have go: "wrote received sz (receive_file_chunks N i sz (received + length c) w1
              (on_progress (received + length c) s2)) w" if "received + length c \<le> sz"
            by (rule wrote_more [OF _ full], rule 1(1)) (use o c that in simp_all)
          show ?thesis using x Inr y ev c w wr n part fin go
            by (subst receive_file_chunks.simps) (simp add: checked_add_u64_def Let_def split: option.split)
        qed
      next
        case False
        have go: "ev = EvBytes j bs \<Longrightarrow> wrote received sz (receive_file_chunks N i sz received w s2) w" for j bs
          by (rule 1(1)) (use o 1(2) in simp_all)
        show ?thesis using x Inr y ev False n go
          by (subst receive_file_chunks.simps) (auto split: event.split control_action.split)
      qed
    qed
  qed
qed

lemma receive_file_header_size:
  "receive_file_header N offer s = (Inr (i, sz), s') \<Longrightarrow> int sz = of_size_bytes offer \<and> i = offer_payload_id offer"
proof (induction s rule: wf_induct_rule [OF wf_session_order])
  case (1 s)
  obtain y s1 where y: "next_transfer_event_for N (offer_payload_id offer) s = (y, s1)" by force
  with 1(2) obtain ev where ev: "y = Inr ev" by (cases y) (auto simp: receive_file_header.simps [of N offer s])
  have o: "ev \<noteq> EvDisconnected \<Longrightarrow> (s1, s) \<in> session_order" using next_event_for_consumes y ev by metis
  show ?case
  proof (cases "\<exists>j bs. ev = EvBytes j bs")
    case True
    then obtain j bs where e: "ev = EvBytes j bs" by blast
    have "receive_file_header N offer s1 = (Inr (i, sz), s')"
      using 1(2) y ev e by (simp add: receive_file_header.simps [of N offer s] split: control_action.splits)
    then show ?thesis using 1(1) o e by blast
  next
    case False
    then show ?thesis
      using 1(2) y ev
      by (auto simp: receive_file_header.simps [of N offer s] u64_of_i64_def split: event.splits if_splits option.splits)
  qed
qed

text \<open>
  C19. Whatever the peer sends, receiving a file appends to the destination at most the number of
  bytes the offer declared (also when it fails, is cancelled, or the destination fails half way),
  and when the call succeeds it has appended exactly that many.
\<close>

theorem received_file_bounded:
  assumes "receive_incoming_file N offer w s = (res, w', s')" and "0 \<le> of_size_bytes offer"
  shows "\<exists>bs. w_out w' = w_out w @ bs \<and> int (length bs) \<le> of_size_bytes offer \<and>
     (res = Inr () \<longrightarrow> int (length bs) = of_size_bytes offer)"
proof -
  have "wrote 0 (nat (of_size_bytes offer)) (receive_incoming_file N offer w s) w"
  proof -
    have "wrote 0 (nat (of_size_bytes offer)) (receive_file_chunks N i sz 0 w t) w"
      if "receive_file_header N offer s1 = (Inr (i, sz), t)" for i sz s1 t
      using receive_file_header_size [OF that] chunks_wrote [of 0 sz N i w t] by (metis le0 nat_int)
    then show ?thesis by (simp add: receive_incoming_file_def wrote_nothing split: prod.split sum.split)
  qed
  then show ?thesis using assms by (auto simp: wrote_def nat_le_iff le_nat_iff)
qed

definition ex_offer :: incoming_offer where
  "ex_offer = offer_new OFile (ascii ''a'') 2 FILE_PAYLOAD_ID"

theorem received_file_bounded_witness:
  "\<exists>res w' s' bs. receive_incoming_file ex_sharing ex_offer \<lparr>w_out = [9], w_room = None\<rparr> ex_session = (res, w', s') \<and>
     w_out w' = [9] @ bs \<and> length bs \<le> 2"
proof -
  obtain res w' s' where r: "receive_incoming_file ex_sharing ex_offer \<lparr>w_out = [9], w_room = None\<rparr> ex_session = (res, w', s')"
    by (cases "receive_incoming_file ex_sharing ex_offer \<lparr>w_out = [9], w_room = None\<rparr> ex_session")
  from received_file_bounded [OF r] show ?thesis using r by (auto simp: ex_offer_def)
qed

subsection \<open>No payload without consent\<close>

lemma on_conn_accepted: "on_conn op s = (r, s') \<Longrightarrow> sh_accepted s' = sh_accepted s \<and> sh_calls s' = sh_calls s"
  by (auto simp: on_conn_def split: prod.splits sum.splits)

lemma send_control_accepted: "send_control_frame N f s = (r, s') \<Longrightarrow> sh_accepted s' = sh_accepted s \<and> sh_calls s' = sh_calls s"
  by (auto simp: send_control_frame_def next_control_payload_id_def dest!: on_conn_accepted)

lemma is_cancelled_accepted: "is_cancelled s = (b, s') \<Longrightarrow> sh_accepted s' = sh_accepted s \<and> sh_calls s' = sh_calls s"
  by (auto simp: is_cancelled_def split: list.splits)

lemma stop_accepted: "stop_if_cancelled N s = (r, s') \<Longrightarrow> sh_accepted s' = sh_accepted s \<and> sh_calls s' = sh_calls s"
  by (auto simp: stop_if_cancelled_def dest!: is_cancelled_accepted send_control_accepted
      split: prod.splits bool.splits sum.splits)

lemma next_transfer_event_accepted: "next_transfer_event N s = (r, s') \<Longrightarrow> sh_accepted s' = sh_accepted s \<and> sh_calls s' = sh_calls s"
proof (induction s rule: wf_induct_rule [OF wf_session_order])
  case (1 s)
  obtain x s1 where x: "session_receive N s = (x, s1)" by force
  then have a: "sh_accepted s1 = sh_accepted s" "sh_calls s1 = sh_calls s" by (simp_all add: session_receive_def on_conn_accepted)
  show ?case
  proof (cases x)
    case (Inl e)
    then show ?thesis using 1(2) x a by (simp add: next_transfer_event.simps [of N s])
  next
    case (Inr ev)
    have "ev \<noteq> EvDisconnected \<Longrightarrow> (s1, s) \<in> session_order"
      using session_receive_consumes [of ev s1 N s] x Inr by simp
    then have "next_transfer_event N s1 = (r, s') \<Longrightarrow> ev \<noteq> EvDisconnected \<Longrightarrow>
        sh_accepted s' = sh_accepted s1 \<and> sh_calls s' = sh_calls s1"
      using 1(1) by blast
    then show ?thesis
      using 1(2) x Inr a by (auto simp: next_transfer_event.simps [of N s] split: event.splits)
  qed
qed

lemma receive_bytes_accepted: "receive_bytes N s = (r, s') \<Longrightarrow> sh_accepted s' = sh_accepted s \<and> sh_calls s' = sh_calls s"
  by (auto simp: receive_bytes_def dest!: next_transfer_event_accepted
      split: prod.splits sum.splits event.splits if_splits)

lemma await_consent_accepted: "await_consent N s = (r, s') \<Longrightarrow> sh_accepted s' = sh_accepted s \<and> sh_calls s' = sh_calls s"
  by (auto simp: await_consent_def dest!: receive_bytes_accepted split: prod.splits sum.splits)

lemma send_chunk_accepted: "session_send_chunk N off bs l s = (r, s') \<Longrightarrow> sh_accepted s' = sh_accepted s \<and> sh_calls s' = sh_calls s"
  by (simp add: session_send_chunk_def on_conn_accepted)

lemma send_chunks_end: "send_chunks_from rd N sz sz r s = (Inr (), r, s)"
  by (simp add: send_chunks_from.simps)

lemma send_chunks_accepted: "sh_accepted (snd (snd (send_chunks_from rd N sz offset r s))) = sh_accepted s"
proof (induction "sz - offset" arbitrary: offset r s rule: less_induct)
  case less
  have go: "sh_accepted (snd (snd (send_chunks_from rd N sz (offset + length c) r2 (on_progress n s2)))) = sh_accepted s2"
    if "offset < sz" "c \<noteq> []" for c r2 n s2
  proof -
    have "sz - (offset + length c) < sz - offset" using that by (simp add: diff_less_mono2)
    from less [OF this] show ?thesis by (simp add: on_progress_def)
  qed
  have p: "sh_accepted (on_progress n t) = sh_accepted t" for n t by (simp add: on_progress_def)
  obtain x s1 where x: "stop_if_cancelled N s = (x, s1)" by force
  note a1 = stop_accepted [OF x]
  obtain y r1 where y: "rd (min (sz - offset) FILE_CHUNK_SIZE) r = (y, r1)" by force
  show ?case
    using x a1 y
    by (subst send_chunks_from.simps)
      (auto simp: go send_chunks_end p Let_def checked_add_u64_def dest!: send_chunk_accepted split: prod.split sum.split option.split)
qed

lemma send_file_payload_accepted: "sh_accepted (snd (snd (send_file_payload_from rd N name sz ws r s))) = sh_accepted s"
proof -
  have c: "send_chunks_from rd N sz 0 r1 t = (x, r2, u) \<Longrightarrow> sh_accepted u = sh_accepted t" for r1 t x r2 u
    using send_chunks_accepted [of rd N sz 0 r1 t] by simp
  show ?thesis
    by (auto simp: send_file_payload_from_def on_progress_def dest!: on_conn_accepted stop_accepted send_chunk_accepted c
        split: prod.split sum.split)
qed

lemma await_consent_Inr:
  assumes "await_consent N s = (Inr (), s')"
  shows "\<exists>bs. receive_bytes N s = (Inr bs, s') \<and> decode_response (dec_sharing N) bs = Inr StAccept"
proof -
  have "consent_result st = Inr () \<longleftrightarrow> st = StAccept" for st by (cases st) auto
  then show ?thesis using assms by (auto simp: await_consent_def split: prod.splits sum.splits)
qed

definition accept_frame :: "sharing_frame \<Rightarrow> bool" where
  "accept_frame f \<longleftrightarrow> (\<exists>v1 r. sf_version f = Some 1 \<and> sf_v1 f = Some v1 \<and>
     sv_type v1 = Some (frame_type_number Response) \<and> sv_connection_response v1 = Some r \<and>
     sr_status r = Some (status_number StAccept))"

text \<open>The answer a sender has read after its introduction.\<close>

definition consented :: "('sk, 'pk) sharing_net \<Rightarrow> sharing_frame \<Rightarrow> sharing_session \<Rightarrow> bool" where
  "consented N intro s \<longleftrightarrow> (\<exists>s2 s3 bs f. send_control_frame N intro (snd (is_cancelled s)) = (Inr (), s2) \<and>
     receive_bytes N s2 = (Inr bs, s3) \<and> dec_sharing N bs = Some f \<and> accept_frame f)"

lemma consentedI:
  assumes "is_cancelled s = (b, s1)" and "send_control_frame N intro s1 = (Inr (), s2)"
    and "await_consent N s2 = (Inr (), s3)"
  shows "consented N intro s"
proof -
  obtain bs where "receive_bytes N s2 = (Inr bs, s3)" "decode_response (dec_sharing N) bs = Inr StAccept"
    using await_consent_Inr [OF assms(3)] by blast
  moreover from this(2) have "\<exists>f. dec_sharing N bs = Some f \<and> accept_frame f"
    using consent_only_by_accept [of "dec_sharing N" bs StAccept] by (auto simp: accept_frame_def)
  ultimately show ?thesis using assms(1,2) by (auto simp: consented_def)
qed

lemma on_accepted_count: "sh_accepted (on_accepted s) = sh_accepted s + 1"
  by (simp add: on_accepted_def)

text \<open>For any source, and so for the scripted one.\<close>

lemma file_from_needs_consent:
  "case send_outgoing_file_from rd N name sz r s of (res, r', s') \<Rightarrow>
     (sh_accepted s' = sh_accepted s \<and> r' = r \<and> res \<noteq> Inr ()) \<or>
     (sh_accepted s' = sh_accepted s + 1 \<and> consented N (introduction name (int sz)) s)"
proof -
  have p: "send_file_payload_from rd N name sz ws r1 t = (x, r2, u) \<Longrightarrow> sh_accepted u = sh_accepted t" for ws r1 t x r2 u
    using send_file_payload_accepted [of rd N name sz ws r1 t] by simp
  obtain b s1 where b: "is_cancelled s = (b, s1)" by force
  obtain x s2 where x: "send_control_frame N (introduction name (int sz)) s1 = (x, s2)" by force
  obtain y s3 where y: "await_consent N s2 = (y, s3)" by force
  obtain z s4 where z: "stop_if_cancelled N (on_accepted s3) = (z, s4)" by force
  obtain u r5 s5 where u: "send_file_payload_from rd N name sz (int sz) r s4 = (u, r5, s5)"
    by (cases "send_file_payload_from rd N name sz (int sz) r s4")
  obtain v s6 where v: "stop_if_cancelled N s5 = (v, s6)" by force
  note c = is_cancelled_accepted [OF b] send_control_accepted [OF x] await_consent_accepted [OF y]
    stop_accepted [OF z] p [OF u] stop_accepted [OF v] on_accepted_count
  show ?thesis
    using b x y z u v c consentedI [OF b, of N "introduction name (int sz)" s2 s3]
    by (auto simp: send_outgoing_file_from_def i64_of_u64_def split: bool.split sum.split)
qed

lemmas file_needs_consent = file_from_needs_consent [where rd = reader_read, unfolded send_outgoing_file_from_reader]

lemma value_needs_consent:
  "case send_outgoing_value N val kind s of (res, s') \<Rightarrow>
     (sh_accepted s' = sh_accepted s \<and> res \<noteq> Inr ()) \<or>
     (sh_accepted s' = sh_accepted s + 1 \<and> consented N (text_introduction val (int (length val)) kind) s)"
proof -
  obtain b s1 where b: "is_cancelled s = (b, s1)" by force
  obtain x s2 where x: "send_control_frame N (text_introduction val (int (length val)) kind) s1 = (x, s2)" by force
  obtain y s3 where y: "await_consent N s2 = (y, s3)" by force
  obtain z s4 where z: "stop_if_cancelled N (on_accepted s3) = (z, s4)" by force
  obtain u s5 where u: "on_conn (send_bytes (s_net N) TEXT_PAYLOAD_ID val) s4 = (u, s5)" by force
  obtain v s6 where v: "stop_if_cancelled N (on_progress (length val) s5) = (v, s6)" by force
  have p: "sh_accepted (on_progress (length val) s5) = sh_accepted s5" by (simp add: on_progress_def)
  note c = is_cancelled_accepted [OF b] send_control_accepted [OF x] await_consent_accepted [OF y]
    stop_accepted [OF z] on_conn_accepted [OF u] stop_accepted [OF v] p on_accepted_count
  show ?thesis
    using b x y z u v c consentedI [OF b, of N "text_introduction val (int (length val)) kind" s2 s3]
    by (auto simp: send_outgoing_value_def i64_of_usize_def split: bool.split sum.split)
qed

subsection \<open>The order of the callbacks\<close>

text \<open>
  The calls a sender makes: none, or the acceptance and then progress that rises up to the size; and the
  calls of a payload that went out whole.
\<close>

definition progress_within :: "nat \<Rightarrow> nat list \<Rightarrow> bool" where
  "progress_within sz ps \<longleftrightarrow> sorted ps \<and> list_all (\<lambda>p. p \<le> sz) ps"

definition call_course :: "nat \<Rightarrow> session_call list \<Rightarrow> bool" where
  "call_course sz cs \<longleftrightarrow> cs = [] \<or> (\<exists>ps. cs = CallAccepted # map CallProgress ps \<and> progress_within sz ps)"

definition full_course :: "nat \<Rightarrow> session_call list \<Rightarrow> bool" where
  "full_course sz cs \<longleftrightarrow> (\<exists>ps. cs = CallAccepted # map CallProgress ps \<and> ps \<noteq> [] \<and> last ps = sz)"

lemma callback_calls [simp]:
  "sh_calls (on_accepted s) = sh_calls s @ [CallAccepted]" "sh_calls (on_progress n s) = sh_calls s @ [CallProgress n]"
  by (simp_all add: on_accepted_def on_progress_def)

text \<open>A source that never returns more than it was asked for.\<close>

definition bounded_read :: "'r read_op \<Rightarrow> bool" where
  "bounded_read rd \<longleftrightarrow> (\<forall>n r c r'. rd n r = (Inr c, r') \<longrightarrow> length c \<le> n)"

lemma send_chunks_round:
  assumes "send_chunks_from rd N sz offset r s = (x, r', s')" "offset < sz" "bounded_read rd"
  shows "sh_calls s' = sh_calls s \<and> x \<noteq> Inr () \<or>
    (\<exists>(c :: bytes) r2 s2. c \<noteq> [] \<and> length c \<le> sz - offset \<and> sh_calls s2 = sh_calls s \<and>
      send_chunks_from rd N sz (offset + length c) r2 (on_progress (offset + length c) s2) = (x, r', s'))"
proof -
  obtain y s1 where y: "stop_if_cancelled N s = (y, s1)" by force
  obtain z r1 where z: "rd (min (sz - offset) FILE_CHUNK_SIZE) r = (z, r1)" by force
  note unfolded = assms(1) [unfolded send_chunks_from.simps [of rd N sz offset], simplified assms(2) y z Let_def, simplified]
  show ?thesis
  proof (cases "\<exists>c w. y = Inr () \<and> z = Inr c \<and> c \<noteq> [] \<and> offset + length c \<le> u64_max \<and> i64_of_u64 offset = Some w")
    case False
    then show ?thesis
      using unfolded stop_accepted [OF y]
      by (auto simp: checked_add_u64_def split: sum.splits if_splits option.splits prod.splits)
  next
    case True
    then obtain c w where c: "y = Inr ()" "z = Inr c" "c \<noteq> []" "offset + length c \<le> u64_max" "i64_of_u64 offset = Some w"
      by blast
    have b: "length c \<le> sz - offset"
      using z c(2) assms(3) unfolding bounded_read_def by (metis min.boundedE)
    obtain q r2 where q: "(if offset + length c = sz then source_ended_from rd r1 else (Inr (), r1)) = (q, r2)" by force
    obtain t s2 where t: "session_send_chunk N w c False s1 = (t, s2)" by force
    have silent: "sh_calls s2 = sh_calls s" "sh_calls s1 = sh_calls s"
      using stop_accepted [OF y] send_chunk_accepted [OF t] by simp_all
    show ?thesis
    proof (cases "q = Inr () \<and> t = Inr ()")
      case True
      then have "send_chunks_from rd N sz (offset + length c) r2 (on_progress (offset + length c) s2) = (x, r', s')"
        using unfolded c q t by (simp add: checked_add_u64_def)
      then show ?thesis using c(3) b silent(1) by (intro disjI2 exI [of _ c] exI [of _ r2] exI [of _ s2] conjI)
    next
      case False
      then show ?thesis
        using unfolded c q t silent by (cases q; cases t) (auto simp: checked_add_u64_def)
    qed
  qed
qed

lemma send_chunks_calls:
  assumes "send_chunks_from rd N sz offset r s = (x, r', s')" "offset \<le> sz" "bounded_read rd"
  shows "\<exists>ps. sh_calls s' = sh_calls s @ map CallProgress ps \<and> progress_within sz ps \<and> list_all (\<lambda>p. offset \<le> p) ps \<and>
    (x = Inr () \<longrightarrow> last (offset # ps) = sz)"
  using assms(1,2)
proof (induction "sz - offset" arbitrary: offset r s rule: less_induct)
  case less
  show ?case
  proof (cases "offset < sz")
    case False
    then have "x = Inr ()" "s' = s" "offset = sz"
      using less.prems send_chunks_end [of rd N sz r s] by auto
    then show ?thesis by (intro exI [of _ "[]"]) (simp add: progress_within_def)
  next
    case True
    from send_chunks_round [OF less.prems(1) True assms(3)] show ?thesis
    proof (elim disjE exE conjE)
      assume "sh_calls s' = sh_calls s" "x \<noteq> Inr ()"
      then show ?thesis by (intro exI [of _ "[]"]) (simp add: progress_within_def)
    next
      fix c :: bytes and r2 s2
      assume 2: "c \<noteq> []" "length c \<le> sz - offset" "sh_calls s2 = sh_calls s"
        "send_chunks_from rd N sz (offset + length c) r2 (on_progress (offset + length c) s2) = (x, r', s')"
      let ?n = "offset + length c"
      have "0 < length c" using 2(1) by simp
      then have n: "sz - ?n < sz - offset" "?n \<le> sz" using 2(2) True by linarith+
      obtain ps where ps: "sh_calls s' = sh_calls (on_progress ?n s2) @ map CallProgress ps" "progress_within sz ps"
        "list_all (\<lambda>p. ?n \<le> p) ps" "x = Inr () \<longrightarrow> last (?n # ps) = sz"
        using less.hyps [OF n(1) 2(4) n(2)] by blast
      then show ?thesis
        using 2(3) n(2) by (intro exI [of _ "?n # ps"]) (auto simp: progress_within_def list_all_iff)
    qed
  qed
qed

lemma send_file_payload_calls:
  assumes "send_file_payload_from rd N name sz ws r s = (x, r', s')" "bounded_read rd"
  shows "\<exists>ps. sh_calls s' = sh_calls s @ map CallProgress ps \<and> progress_within sz ps \<and>
    (x = Inr () \<longrightarrow> ps \<noteq> [] \<and> last ps = sz)"
proof -
  obtain h s1 where h: "on_conn (send_file_header FILE_PAYLOAD_ID ws (Some name)) s = (h, s1)" by force
  note a1 = on_conn_accepted [OF h]
  have none: ?thesis if "sh_calls s' = sh_calls s" "x \<noteq> Inr ()"
    using that by (intro exI [of _ "[]"]) (simp add: progress_within_def)
  show ?thesis
  proof (cases "sz = 0")
    case True
    have "sh_calls s' = sh_calls s \<and> x \<noteq> Inr () \<or> sh_calls s' = sh_calls s @ [CallProgress 0]"
      using assms(1) h a1 True
      by (auto simp: send_file_payload_from_def dest!: stop_accepted send_chunk_accepted split: sum.splits prod.splits)
    then consider "sh_calls s' = sh_calls s" "x \<noteq> Inr ()" | "sh_calls s' = sh_calls s @ [CallProgress 0]" by blast
    then show ?thesis
    proof cases
      case 2
      then show ?thesis using True by (intro exI [of _ "[0]"]) (simp add: progress_within_def)
    qed (rule none)
  next
    case False
    obtain y r1 s2 where y: "send_chunks_from rd N sz 0 r s1 = (y, r1, s2)" by (metis prod_cases3)
    obtain ps where ps: "sh_calls s2 = sh_calls s1 @ map CallProgress ps" "progress_within sz ps"
      "y = Inr () \<longrightarrow> last (0 # ps) = sz"
      using send_chunks_calls [OF y _ assms(2)] by auto
    have "sh_calls s' = sh_calls s \<and> x \<noteq> Inr () \<or> sh_calls s' = sh_calls s2 \<and> (x = Inr () \<longrightarrow> y = Inr ())"
      using assms(1) h a1 y False
      by (auto simp: send_file_payload_from_def dest!: stop_accepted send_chunk_accepted split: sum.splits prod.splits)
    then consider "sh_calls s' = sh_calls s" "x \<noteq> Inr ()" | "sh_calls s' = sh_calls s2" "x = Inr () \<longrightarrow> y = Inr ()" by blast
    then show ?thesis
    proof cases
      case 2
      then show ?thesis using ps a1 False by (intro exI [of _ ps]) (auto split: if_splits)
    qed (rule none)
  qed
qed

lemma file_calls_course:
  assumes "send_outgoing_file_from rd N name sz r s = (x, r', s')" "bounded_read rd"
  shows "\<exists>cs. sh_calls s' = sh_calls s @ cs \<and> call_course sz cs \<and> (x = Inr () \<longrightarrow> full_course sz cs)"
proof -
  obtain b s1 where b: "is_cancelled s = (b, s1)" by force
  obtain i s2 where i: "send_control_frame N (introduction name (int sz)) s1 = (i, s2)" by force
  obtain y s3 where y: "await_consent N s2 = (y, s3)" by force
  obtain z s4 where z: "stop_if_cancelled N (on_accepted s3) = (z, s4)" by force
  obtain u r5 s5 where u: "send_file_payload_from rd N name sz (int sz) r s4 = (u, r5, s5)" by (metis prod_cases3)
  obtain v s6 where v: "stop_if_cancelled N s5 = (v, s6)" by force
  obtain ps where ps: "sh_calls s5 = sh_calls s4 @ map CallProgress ps" "progress_within sz ps"
    "u = Inr () \<longrightarrow> ps \<noteq> [] \<and> last ps = sz"
    using send_file_payload_calls [OF u assms(2)] by blast
  note c = is_cancelled_accepted [OF b] send_control_accepted [OF i] await_consent_accepted [OF y]
    stop_accepted [OF z] stop_accepted [OF v]
  consider "sh_calls s' = sh_calls s" "x \<noteq> Inr ()" | "sh_calls s' = sh_calls s @ [CallAccepted]" "x \<noteq> Inr ()"
    | "sh_calls s' = sh_calls s5" "x = Inr () \<longrightarrow> u = Inr ()"
    using assms(1) b i y z u v c
    by (auto simp: send_outgoing_file_from_def i64_of_u64_def split: if_splits bool.splits sum.splits)
  then show ?thesis
  proof cases
    case 1
    then show ?thesis by (intro exI [of _ "[]"]) (simp add: call_course_def)
  next
    case 2
    then show ?thesis by (intro exI [of _ "[CallAccepted]"]) (simp add: call_course_def progress_within_def)
  next
    case 3
    then show ?thesis
      using ps c by (intro exI [of _ "CallAccepted # map CallProgress ps"]) (auto simp: call_course_def full_course_def)
  qed
qed

lemma value_calls_course:
  assumes "send_outgoing_value N val kind s = (x, s')"
  shows "\<exists>cs. sh_calls s' = sh_calls s @ cs \<and> call_course (length val) cs \<and> (x = Inr () \<longrightarrow> full_course (length val) cs)"
proof -
  obtain b s1 where b: "is_cancelled s = (b, s1)" by force
  obtain i s2 where i: "send_control_frame N (text_introduction val (int (length val)) kind) s1 = (i, s2)" by force
  obtain y s3 where y: "await_consent N s2 = (y, s3)" by force
  obtain z s4 where z: "stop_if_cancelled N (on_accepted s3) = (z, s4)" by force
  obtain u s5 where u: "on_conn (send_bytes (s_net N) TEXT_PAYLOAD_ID val) s4 = (u, s5)" by force
  obtain v s6 where v: "stop_if_cancelled N (on_progress (length val) s5) = (v, s6)" by force
  note c = is_cancelled_accepted [OF b] send_control_accepted [OF i] await_consent_accepted [OF y]
    stop_accepted [OF z] on_conn_accepted [OF u] stop_accepted [OF v]
  consider "sh_calls s' = sh_calls s" "x \<noteq> Inr ()" | "sh_calls s' = sh_calls s @ [CallAccepted]" "x \<noteq> Inr ()"
    | "sh_calls s' = sh_calls s @ [CallAccepted, CallProgress (length val)]"
    using assms b i y z u v c
    by (auto simp: send_outgoing_value_def i64_of_usize_def split: if_splits bool.splits sum.splits)
  then show ?thesis
  proof cases
    case 1
    then show ?thesis by (intro exI [of _ "[]"]) (simp add: call_course_def)
  next
    case 2
    then show ?thesis by (intro exI [of _ "[CallAccepted]"]) (simp add: call_course_def progress_within_def)
  next
    case 3
    then show ?thesis
      by (intro exI [of _ "[CallAccepted, CallProgress (length val)]"])
        (auto simp: call_course_def full_course_def progress_within_def intro!: exI [of _ "[length val]"])
  qed
qed

subsection \<open>Consent\<close>

text \<open>
  C18. No payload without consent. Whatever the peer sends and however the call ends, a sender of a
  file or a text either never reports consent, and then the call fails and the source has not been
  read at all; or it reports consent exactly once, and then the answer it read after its
  introduction is a version-1 response frame whose status is ACCEPT.
\<close>

theorem no_payload_without_consent:
  "(case send_outgoing_file N name sz r s of (res, r', s') \<Rightarrow>
     (sh_accepted s' = sh_accepted s \<and> r' = r \<and> res \<noteq> Inr ()) \<or>
     (sh_accepted s' = sh_accepted s + 1 \<and> consented N (introduction name (int sz)) s)) \<and>
   (case send_outgoing_value N val kind s of (res, s') \<Rightarrow>
     (sh_accepted s' = sh_accepted s \<and> res \<noteq> Inr ()) \<or>
     (sh_accepted s' = sh_accepted s + 1 \<and> consented N (text_introduction val (int (length val)) kind) s))"
  by (rule conjI [OF file_needs_consent value_needs_consent])

subsection \<open>Cancellation\<close>

lemma cancel_event_type:
  assumes "sharing_net_ok N"
  shows "control_action_of N (enc_sharing N sharing_cancel) = ActCancel"
    and "is_cancel (dec_sharing N) (enc_sharing N sharing_cancel) = Inr True"
  using sharing_net_okD(2) [OF assms, of sharing_cancel] frame_type_of_number [of Cancel]
  by (simp_all add: control_action_of_def control_event_type_def is_cancel_def builder_defs del: frame_type_of_number)

lemma cancel_sent:
  assumes "sh_cancel A = True # cs" and "stop_if_cancelled N A = (Inl PCancelled, A1)"
  shows "\<exists>c. send_bytes (s_net N) (sh_next A) (enc_sharing N sharing_cancel) (sh_conn A) = (Inr (), c) \<and> sh_conn A1 = c"
  using assms
  by (auto simp: stop_if_cancelled_def is_cancelled_def send_control_frame_def next_control_payload_id_def on_conn_def
      send_sharing_frame_def split: prod.splits sum.splits)

text \<open>
  A local cancellation ends both sides. When the caller asks to cancel and the session reports
  the cancellation, a cancel frame has reached the peer: whatever the peer is waiting for next on
  the quiet link (an answer, a file, or a text under another identifier than the control frame's),
  its call ends as cancelled and nothing is written.
\<close>

theorem cancel_reaches_peer:
  assumes p: "paired N A B" and b: "sh_cancel B = []" and c: "sh_cancel A = True # cs"
    and s: "stop_if_cancelled N A = (Inl PCancelled, A1)" and i: "offer_payload_id offer \<noteq> sh_next A"
  shows "\<exists>B1. receive_bytes N (feed (out A A1) B) = (Inl PCancelled, B1) \<and>
     receive_incoming_file N offer w (feed (out A A1) B) = (Inl PCancelled, w, B1) \<and>
     receive_incoming_value N offer (of_kind offer) (feed (out A A1) B) = (Inl PCancelled, B1)"
proof -
  have ok: "sharing_net_ok N" and l: "linked (s_net N) (sh_conn A) (sh_conn B)" using p by (simp_all add: paired_def)
  note t = cancel_event_type [OF ok]
  from cancel_sent [OF c s] obtain a where
    a: "send_bytes (s_net N) (sh_next A) (enc_sharing N sharing_cancel) (sh_conn A) = (Inr (), a)" "sh_conn A1 = a" by blast
  from link_bytes [OF l a(1)] obtain d where
    "conn_receive (s_net N) (sh_conn (feed (out A A1) B)) = (Inr (EvBytes (sh_next A) (enc_sharing N sharing_cancel)), d)"
    by (auto simp: out_def a(2))
  note e = next_event_bytes [OF this] next_event_for_bytes [OF this]
  have st: "stop_if_cancelled N (feed (out A A1) B) = (Inr (), feed (out A A1) B)" using b by (simp add: not_stopped)
  have "receive_file_header N offer (feed (out A A1) B) = (Inl PCancelled, (feed (out A A1) B)\<lparr>sh_conn := d\<rparr>)"
    by (subst receive_file_header.simps) (simp add: e t)
  moreover have "receive_value_loop N offer (feed (out A A1) B) = (Inl PCancelled, (feed (out A A1) B)\<lparr>sh_conn := d\<rparr>)"
    using i by (subst receive_value_loop.simps) (simp add: e t st)
  ultimately show ?thesis
    by (simp add: receive_bytes_def receive_incoming_file_def receive_incoming_value_def e t st)
qed

definition ex_cancelling :: sharing_session where
  "ex_cancelling = ex_session\<lparr>sh_cancel := [True]\<rparr>"

theorem cancel_reaches_peer_witness:
  "\<exists>A1 B1. stop_if_cancelled ex_sharing ex_cancelling = (Inl PCancelled, A1) \<and>
     receive_bytes ex_sharing (feed (out ex_cancelling A1) ex_session) = (Inl PCancelled, B1)"
proof -
  have l: "length (xe_sharing sharing_cancel) \<le> 1000" by (simp add: ex_sharing_defs)
  obtain A1 where s: "stop_if_cancelled ex_sharing ex_cancelling = (Inl PCancelled, A1)"
    using ex_send_control [OF l, of 0 ex_session]
    by (auto simp: stop_if_cancelled_def is_cancelled_def ex_cancelling_def ex_session_def session_new_def)
  have p: "paired ex_sharing ex_cancelling ex_session" using ex_paired by (simp add: paired_def ex_cancelling_def)
  have i: "offer_payload_id ex_offer \<noteq> sh_next ex_cancelling"
    by (simp add: ex_offer_def ex_cancelling_def FILE_PAYLOAD_ID_def)
  from cancel_reaches_peer [OF p _ _ s i] s show ?thesis by (auto simp: ex_cancelling_def)
qed

subsection \<open>The text limit\<close>

text \<open>
  The limit of 1 MiB on a text is not one the connection can carry: the introduction repeats the
  whole text as its title, so for a text whose encoded introduction is longer than 1 MiB (as it is
  for a text of exactly 1 MiB, since an encoding that contains the text and a tag is longer than
  the text) the call passes its own limit and then always fails with an invalid-payload error of
  the connection, before anything is sent.
\<close>

theorem longest_text_never_sent:
  assumes "0 < length val" and "length val \<le> 1048576"
    and "1048576 < length (enc_sharing N (text_introduction val (int (length val)) kind))" and "sh_cancel s = []"
  shows "fst (send_outgoing_value N val kind s) = Inl (PConnection EInvalidPayload) \<and>
     c_stream (sh_conn (snd (send_outgoing_value N val kind s))) = c_stream (sh_conn s)"
proof -
  let ?f = "text_introduction val (int (length val)) kind"
  have "enc_sharing N ?f \<noteq> []" using assms(3) by auto
  then have "\<exists>c. send_bytes (s_net N) (sh_next s) (enc_sharing N ?f) (sh_conn s) = (Inl EInvalidPayload, c) \<and>
      c_stream c = c_stream (sh_conn s)"
    using assms(3)
    by (auto simp: send_bytes_def conn_data_def MAX_FRAME_LENGTH_def payload_header_def split: option.split)
  then obtain c where c: "send_bytes (s_net N) (sh_next s) (enc_sharing N ?f) (sh_conn s) = (Inl EInvalidPayload, c)"
    "c_stream c = c_stream (sh_conn s)" by blast
  then show ?thesis
    using assms(1,2,4)
    by (simp add: send_outgoing_value_def i64_of_usize_def i64_max_def MAX_TEXT_BYTES_def not_cancelled
        send_control_frame_def next_control_payload_id_def on_conn_def send_sharing_frame_def)
qed

theorem longest_text_never_sent_witness:
  "fst (send_outgoing_value ex_sharing (replicate 1048576 65) TtText ex_session) = Inl (PConnection EInvalidPayload)"
proof -
  let ?v = "replicate 1048576 65 :: rstring"
  have n: "length v = 1048576 \<Longrightarrow> 1048576 < length (xe_sharing (text_introduction v (int (length v)) TtText))" for v
    by (simp add: xe_sharing_def xe_sv_def xe_sin_def xe_stm_def e_iso_def e_pair_def e_bytes_def e_list_def builder_defs)
  have "length ?v = 1048576" by (rule length_replicate)
  from longest_text_never_sent [of ?v ex_sharing TtText ex_session] n [OF this] this show ?thesis by simp
qed

end
