(* ===== verification/Bluez_Weave.thy ===== *)
theory Bluez_Weave
  imports QS_Prelude
begin

unbundle bit_operations_syntax

text \<open>
  The Nearby weave framing of \<open>crates/platform/bluez/src/weave.rs\<close>, which carries connection
  bytes over the write and notify sockets of a GATT characteristic. Layer A is one header byte
  per GATT packet (a control bit, a three-bit counter, first and last flags, a command); layer B
  puts a three-byte service hash in front of the reassembled payload.

  The closure that reads one packet is the list of the outcomes of its coming calls; a read with
  no outcome left meets the deadline that the source passes to it. The closure that writes one
  packet is a function on its captured state.
\<close>

subsection \<open>Adapter errors\<close>

datatype error_kind = BBus | BClosed | BProtocol | BTimeout | BUnavailable

record radio_error =
  radio_kind :: error_kind
  radio_message :: string

definition error_bus :: "string \<Rightarrow> radio_error" where
  "error_bus message = \<lparr>radio_kind = BBus, radio_message = message\<rparr>"

definition error_closed :: radio_error where
  "error_closed = \<lparr>radio_kind = BClosed, radio_message = ''bluetooth lease is closed''\<rparr>"

definition error_protocol :: "string \<Rightarrow> radio_error" where
  "error_protocol message = \<lparr>radio_kind = BProtocol, radio_message = message\<rparr>"

definition error_timeout :: radio_error where
  "error_timeout = \<lparr>radio_kind = BTimeout, radio_message = ''bluetooth operation timed out''\<rparr>"

definition error_unavailable :: "string \<Rightarrow> radio_error" where
  "error_unavailable message = \<lparr>radio_kind = BUnavailable, radio_message = message\<rparr>"

lemma radio_kind_simps [simp]:
  "radio_kind (error_bus m) = BBus" "radio_kind error_closed = BClosed"
  "radio_kind (error_protocol m) = BProtocol" "radio_kind error_timeout = BTimeout"
  "radio_kind (error_unavailable m) = BUnavailable"
  by (simp_all add: error_bus_def error_closed_def error_protocol_def error_timeout_def
      error_unavailable_def)

subsection \<open>Packets\<close>

definition CONTROL :: byte where "CONTROL = 0x80"
definition FIRST :: byte where "FIRST = 0x08"
definition LAST :: byte where "LAST = 0x04"
definition COUNTER_SHIFT :: nat where "COUNTER_SHIFT = 4"
definition COUNTER_MASK :: byte where "COUNTER_MASK = 0x07"
definition CMD_MASK :: byte where "CMD_MASK = 0x03"
definition CMD_REQUEST :: byte where "CMD_REQUEST = 0"
definition CMD_CONFIRM :: byte where "CMD_CONFIRM = 1"
definition CMD_ERROR :: byte where "CMD_ERROR = 2"
definition WEAVE_VERSION :: nat where "WEAVE_VERSION = 1"
definition MAX_PACKET :: nat where "MAX_PACKET = 0x1FD"
definition REQUEST_LEN :: nat where "REQUEST_LEN = 7"
definition CONFIRM_LEN :: nat where "CONFIRM_LEN = 5"
definition HASH_LEN :: nat where "HASH_LEN = 3"
definition DATA_HASH :: bytes where "DATA_HASH = [0xFC, 0x9F, 0x5E]"
definition CONTROL_HASH :: bytes where "CONTROL_HASH = [0, 0, 0]"

lemmas weave_consts = CONTROL_def FIRST_def LAST_def COUNTER_SHIFT_def COUNTER_MASK_def
  CMD_MASK_def CMD_REQUEST_def CMD_CONFIRM_def CMD_ERROR_def WEAVE_VERSION_def MAX_PACKET_def
  REQUEST_LEN_def CONFIRM_LEN_def HASH_LEN_def DATA_HASH_def CONTROL_HASH_def

definition u16_to_be_bytes :: "nat \<Rightarrow> bytes" where
  "u16_to_be_bytes n = [word_of_nat (n div 256), word_of_nat n]"

definition encode_request :: bytes where
  "encode_request =
     [CONTROL OR CMD_REQUEST] @ u16_to_be_bytes WEAVE_VERSION @ u16_to_be_bytes WEAVE_VERSION @
     u16_to_be_bytes MAX_PACKET"

definition encode_confirm :: bytes where
  "encode_confirm =
     [CONTROL OR CMD_CONFIRM] @ u16_to_be_bytes WEAVE_VERSION @ u16_to_be_bytes MAX_PACKET"

datatype packet = PRequest | PConfirm | PError | PData (pkt_first: bool) (pkt_last: bool) (pkt_payload: bytes)

datatype weave_message = WData bytes | WControl bytes

definition decode_control :: "byte \<Rightarrow> bytes \<Rightarrow> radio_error + packet" where
  "decode_control header rest =
     (if header AND CMD_MASK = CMD_REQUEST then
        (if length rest \<noteq> REQUEST_LEN - 1
         then Inl (error_protocol ''malformed weave CONNECTION_REQUEST length'')
         else Inr PRequest)
      else if header AND CMD_MASK = CMD_CONFIRM then
        (if length rest \<noteq> CONFIRM_LEN - 1
         then Inl (error_protocol ''malformed weave CONNECTION_CONFIRM length'')
         else Inr PConfirm)
      else if header AND CMD_MASK = CMD_ERROR then Inr PError
      else Inl (error_protocol ''unknown weave layer-A command''))"

fun decode_pdu :: "bytes \<Rightarrow> radio_error + packet" where
  "decode_pdu [] = Inl (error_protocol ''truncated weave layer-A header'')"
| "decode_pdu (header # rest) =
     (if header AND CONTROL = 0
      then Inr (PData (header AND FIRST \<noteq> 0) (header AND LAST \<noteq> 0) rest)
      else decode_control header rest)"

definition decode_layer_b :: "bytes \<Rightarrow> radio_error + weave_message" where
  "decode_layer_b body =
     (if length body < HASH_LEN then Inl (error_protocol ''malformed weave layer-B length'')
      else
        let hash = [body ! 0, body ! 1, body ! 2]; payload = drop HASH_LEN body
        in if hash = DATA_HASH then Inr (WData payload)
           else if hash = CONTROL_HASH then Inr (WControl payload)
           else Inl (error_protocol ''unknown weave layer-B type''))"

definition data_header :: "byte \<Rightarrow> bool \<Rightarrow> bool \<Rightarrow> byte" where
  "data_header counter first final =
     (let header = push_bit COUNTER_SHIFT (counter AND COUNTER_MASK);
          header = (if first then header OR FIRST else header)
      in if final then header OR LAST else header)"

text \<open>
  The loop of \<open>fragment\<close>. It does not advance for a chunk size of zero, which \<open>encode_data\<close>
  never passes (\<open>max_chunk.max(1)\<close>): the guard on \<open>max_chunk\<close> only makes the function total.
\<close>

function fragment_loop :: "bytes \<Rightarrow> nat \<Rightarrow> nat \<Rightarrow> byte \<Rightarrow> bytes list" where
  "fragment_loop body max_chunk offset counter =
     (if offset < length body \<and> 0 < max_chunk then
        let stop = min (offset + max_chunk) (length body);
            pdu = data_header counter (offset = 0) (stop = length body) #
                  take (stop - offset) (drop offset body)
        in pdu # fragment_loop body max_chunk stop ((counter + 1) AND COUNTER_MASK)
      else [])"
  by pat_completeness auto
termination
  by (relation "measure (\<lambda>(body, max_chunk, offset, counter). length body - offset)") auto

declare fragment_loop.simps [simp del]

definition fragment :: "bytes \<Rightarrow> nat \<Rightarrow> bytes list" where
  "fragment body max_chunk =
     (if body = [] then [[data_header 0 True True]] else fragment_loop body max_chunk 0 0)"

definition encode_data :: "bytes \<Rightarrow> nat \<Rightarrow> bytes list" where
  "encode_data payload max_chunk = fragment (DATA_HASH @ payload) (max max_chunk 1)"

subsection \<open>Reassembly\<close>

record assembler =
  as_buffer :: bytes
  as_started :: bool

definition assembler_new :: assembler where
  "assembler_new = \<lparr>as_buffer = [], as_started = False\<rparr>"

definition push_data ::
  "assembler \<Rightarrow> bool \<Rightarrow> bool \<Rightarrow> bytes \<Rightarrow> (radio_error + weave_message option) \<times> assembler" where
  "push_data a first final payload =
     (if first \<and> as_started a then (Inl (error_protocol ''nested weave first fragment''), a)
      else if \<not> first \<and> \<not> as_started a then
        (Inl (error_protocol ''weave fragment missing first''), a)
      else
        let a = (if first then a\<lparr>as_started := True, as_buffer := []\<rparr> else a);
            a = a\<lparr>as_buffer := as_buffer a @ payload\<rparr>
        in if \<not> final then (Inr None, a)
           else (map_sum id Some (decode_layer_b (as_buffer a)),
                 a\<lparr>as_started := False, as_buffer := []\<rparr>))"

definition push_pdu :: "assembler \<Rightarrow> bytes \<Rightarrow> (radio_error + weave_message option) \<times> assembler" where
  "push_pdu a pdu =
     (case decode_pdu pdu of
        Inl e \<Rightarrow> (Inl e, a)
      | Inr (PData first final payload) \<Rightarrow> push_data a first final payload
      | Inr _ \<Rightarrow> (Inr None, a))"

subsection \<open>Sending and receiving on a pipe\<close>

text \<open>
  \<open>send_data\<close> takes the closure that writes one packet; its captured state \<open>'s\<close> is passed along.
\<close>

fun write_pdus ::
  "(bytes \<Rightarrow> 's \<Rightarrow> (radio_error + unit) \<times> 's) \<Rightarrow> bytes list \<Rightarrow> 's \<Rightarrow> (radio_error + unit) \<times> 's" where
  "write_pdus put [] s = (Inr (), s)"
| "write_pdus put (pdu # pdus) s =
     (case put pdu s of
        (Inl e, s) \<Rightarrow> (Inl e, s)
      | (Inr _, s) \<Rightarrow> write_pdus put pdus s)"

definition send_data ::
  "(bytes \<Rightarrow> 's \<Rightarrow> (radio_error + unit) \<times> 's) \<Rightarrow> bytes \<Rightarrow> bool \<Rightarrow> 's \<Rightarrow> (radio_error + unit) \<times> bool \<times> 's" where
  "send_data put payload requested s =
     (case (if requested then (Inr (), s) else put encode_request s) of
        (Inl e, s) \<Rightarrow> (Inl e, requested, s)
      | (Inr _, s) \<Rightarrow>
          (case write_pdus put (encode_data payload (MAX_PACKET - 1)) s of
             (r, s) \<Rightarrow> (r, True, s)))"

definition read_next_pdu ::
  "assembler \<Rightarrow> (radio_error + bytes) list \<Rightarrow> (radio_error + bytes) \<times> (radio_error + bytes) list" where
  "read_next_pdu a reads =
     (case reads of
        [] \<Rightarrow> (Inl error_timeout, [])
      | Inl e # reads \<Rightarrow>
          (if radio_kind e = BClosed \<and> as_started a
           then (Inl (error_protocol ''truncated weave message at pipe close''), reads)
           else (Inl e, reads))
      | Inr pdu # reads \<Rightarrow> (Inr pdu, reads))"

definition is_disconnect :: "bytes \<Rightarrow> bool" where
  "is_disconnect control \<longleftrightarrow> (case control of a # b # _ \<Rightarrow> a = 0x08 \<and> b = 0x02 | _ \<Rightarrow> False)"

definition assemble_data :: "assembler \<Rightarrow> bytes \<Rightarrow> (radio_error + bytes option) \<times> assembler" where
  "assemble_data a pdu =
     (case push_pdu a pdu of
        (Inl e, a) \<Rightarrow> (Inl e, a)
      | (Inr (Some (WData bs)), a) \<Rightarrow> (Inr (Some bs), a)
      | (Inr (Some (WControl bs)), a) \<Rightarrow>
          (if is_disconnect bs then (Inl error_closed, a) else (Inr None, a))
      | (Inr None, a) \<Rightarrow> (Inr None, a))"

lemma read_next_pdu_less:
  "read_next_pdu a reads = (Inr pdu, reads') \<Longrightarrow> length reads' < length reads"
  by (auto simp: read_next_pdu_def split: list.splits sum.splits if_splits)

text \<open>The loop of \<open>recv_data\<close>; every turn takes one read outcome, so it ends.\<close>

function recv_loop ::
  "(bytes \<Rightarrow> 's \<Rightarrow> (radio_error + unit) \<times> 's) \<Rightarrow> assembler \<Rightarrow> (radio_error + bytes) list \<Rightarrow> 's \<Rightarrow>
   (radio_error + bytes) \<times> assembler \<times> (radio_error + bytes) list \<times> 's" where
  "recv_loop put a reads s =
     (case read_next_pdu a reads of
        (Inl e, reads) \<Rightarrow> (Inl e, a, reads, s)
      | (Inr pdu, reads) \<Rightarrow>
          (case decode_pdu pdu of
             Inl e \<Rightarrow> (Inl e, a, reads, s)
           | Inr PRequest \<Rightarrow>
               (case put encode_confirm s of
                  (Inl e, s) \<Rightarrow> (Inl e, a, reads, s)
                | (Inr _, s) \<Rightarrow> recv_loop put a reads s)
           | Inr PConfirm \<Rightarrow> recv_loop put a reads s
           | Inr PError \<Rightarrow> recv_loop put a reads s
           | Inr (PData _ _ _) \<Rightarrow>
               (case assemble_data a pdu of
                  (Inl e, a) \<Rightarrow> (Inl e, a, reads, s)
                | (Inr (Some bs), a) \<Rightarrow> (Inr bs, a, reads, s)
                | (Inr None, a) \<Rightarrow> recv_loop put a reads s)))"
  by pat_completeness auto
termination
  by (relation "measure (\<lambda>(put, a, reads, s). length reads)")
    (auto, (metis read_next_pdu_less)+)

declare recv_loop.simps [simp del]

text \<open>
  \<open>deadline_fits\<close> is whether \<open>Instant::now().checked_add(timeout)\<close> is representable.
\<close>

definition recv_data ::
  "(bytes \<Rightarrow> 's \<Rightarrow> (radio_error + unit) \<times> 's) \<Rightarrow> bool \<Rightarrow> assembler \<Rightarrow> (radio_error + bytes) list \<Rightarrow> 's \<Rightarrow>
   (radio_error + bytes) \<times> assembler \<times> (radio_error + bytes) list \<times> 's" where
  "recv_data put deadline_fits a reads s =
     (if deadline_fits then recv_loop put a reads s else (Inl error_timeout, a, reads, s))"

subsection \<open>Packets are decoded as they were encoded\<close>

lemma bit_data_header:
  "bit (data_header c f l) 7 \<longleftrightarrow> False" "bit (data_header c f l) 3 \<longleftrightarrow> f"
  "bit (data_header c f l) 2 \<longleftrightarrow> l"
  by (auto simp: data_header_def Let_def weave_consts bit_simps)

lemma and_single_bit:
  fixes w :: byte
  shows "w AND CONTROL = 0 \<longleftrightarrow> \<not> bit w 7" "w AND FIRST = 0 \<longleftrightarrow> \<not> bit w 3"
    "w AND LAST = 0 \<longleftrightarrow> \<not> bit w 2"
  using and_exp_eq_0_iff_not_bit [of w 7] and_exp_eq_0_iff_not_bit [of w 3]
    and_exp_eq_0_iff_not_bit [of w 2]
  by (simp_all add: weave_consts)

lemma decode_data_pdu [simp]: "decode_pdu (data_header c f l # payload) = Inr (PData f l payload)"
  by (simp add: and_single_bit bit_data_header)

lemma decode_encode_request [simp]: "decode_pdu encode_request = Inr PRequest"
  by (simp add: encode_request_def decode_control_def u16_to_be_bytes_def weave_consts)

lemma decode_encode_confirm [simp]: "decode_pdu encode_confirm = Inr PConfirm"
  by (simp add: encode_confirm_def decode_control_def u16_to_be_bytes_def weave_consts)

declare decode_pdu.simps [simp del]

lemma decode_layer_b_data [simp]: "decode_layer_b (DATA_HASH @ payload) = Inr (WData payload)"
  by (simp add: decode_layer_b_def weave_consts)

lemma fragment_loop_Cons:
  assumes "offset < length body" "0 < k"
  shows "fragment_loop body k offset c =
    (data_header c (offset = 0) (min (offset + k) (length body) = length body) #
       take (min (offset + k) (length body) - offset) (drop offset body)) #
    fragment_loop body k (min (offset + k) (length body)) ((c + 1) AND COUNTER_MASK)"
  using assms by (subst fragment_loop.simps) (simp add: Let_def)

lemma fragment_loop_sizes:
  "pdu \<in> set (fragment_loop body k offset c) \<Longrightarrow> 0 < length pdu \<and> length pdu \<le> Suc k"
  by (induction body k offset c rule: fragment_loop.induct)
    (subst (asm) fragment_loop.simps, auto simp: Let_def split: if_splits)

subsection \<open>Reassembly under interleaved control packets\<close>

text \<open>Packets the receiver reads over without an answer.\<close>

definition ignored :: "bytes \<Rightarrow> bool" where
  "ignored w \<longleftrightarrow> decode_pdu w = Inr PConfirm \<or> decode_pdu w = Inr PError"

definition substance :: "bytes list \<Rightarrow> bytes list" where
  "substance ws = filter (\<lambda>w. \<not> ignored w) ws"

lemma substance_Cons:
  "substance (w # ws) = x # xs \<longleftrightarrow>
     (if ignored w then substance ws = x # xs else w = x \<and> substance ws = xs)"
  by (simp add: substance_def)

lemma recv_loop_ignored:
  "ignored w \<Longrightarrow> recv_loop put a (Inr w # reads) s = recv_loop put a reads s"
  by (subst recv_loop.simps) (auto simp: ignored_def read_next_pdu_def)

lemma recv_loop_request:
  "put encode_confirm s = (Inr u, s') \<Longrightarrow>
     recv_loop put a (Inr encode_request # reads) s = recv_loop put a reads s'"
  by (subst recv_loop.simps) (simp add: read_next_pdu_def)

lemma recv_loop_data:
  "recv_loop put a (Inr (data_header c f l # payload) # reads) s =
    (case assemble_data a (data_header c f l # payload) of
       (Inl e, a) \<Rightarrow> (Inl e, a, reads, s)
     | (Inr (Some bs), a) \<Rightarrow> (Inr bs, a, reads, s)
     | (Inr None, a) \<Rightarrow> recv_loop put a reads s)"
  by (subst recv_loop.simps) (simp add: read_next_pdu_def)

text \<open>How far a message has been reassembled: the first \<open>offset\<close> bytes of its body.\<close>

definition midway :: "bytes \<Rightarrow> nat \<Rightarrow> assembler \<Rightarrow> bool" where
  "midway body offset a \<longleftrightarrow>
     (as_started a \<longleftrightarrow> offset \<noteq> 0) \<and> (offset \<noteq> 0 \<longrightarrow> as_buffer a = take offset body)"

lemma assemble_chunk:
  fixes body offset k a
  defines "stop \<equiv> min (offset + k) (length body)"
  assumes "midway body offset a" "decode_layer_b body = Inr (WData m)" "offset < length body" "0 < k"
  shows "assemble_data a (data_header c (offset = 0) (stop = length body) #
      take (stop - offset) (drop offset body)) =
    (Inr (if stop = length body then Some m else None),
     if stop = length body then assembler_new else \<lparr>as_buffer = take stop body, as_started = True\<rparr>)"
proof -
  have "take offset body @ take (stop - offset) (drop offset body) = take stop body"
    using assms(3-) unfolding stop_def
    by (metis add_diff_inverse_nat min.bounded_iff nat_less_le not_less take_add le_add1)
  then show ?thesis
    using assms(2,3)
    by (cases a; cases "stop = length body"; cases "offset = 0")
      (auto simp: assemble_data_def push_pdu_def push_data_def midway_def assembler_new_def Let_def)
qed

lemma recv_fragments:
  assumes "midway body offset a" "decode_layer_b body = Inr (WData m)" "offset < length body" "0 < k"
    and "substance ws = fragment_loop body k offset c @ left"
  shows "\<exists>ws'. substance ws' = left \<and>
    recv_loop put a (map Inr ws @ rest) s = (Inr m, assembler_new, map Inr ws' @ rest, s)"
  using assms
proof (induction ws arbitrary: offset a c)
  case Nil
  then show ?case using fragment_loop_Cons [OF Nil.prems(3,4), of c] by (simp add: substance_def)
next
  case (Cons w ws)
  let ?stop = "min (offset + k) (length body)"
  let ?pdu = "data_header c (offset = 0) (?stop = length body) # take (?stop - offset) (drop offset body)"
  let ?c = "(c + 1) AND COUNTER_MASK"
  have loop: "fragment_loop body k offset c = ?pdu # fragment_loop body k ?stop ?c"
    by (rule fragment_loop_Cons [OF Cons.prems(3,4)])
  show ?case
  proof (cases "ignored w")
    case True
    then show ?thesis
      using Cons.IH [OF Cons.prems(1-4), of c] Cons.prems(5)
      by (simp add: substance_def recv_loop_ignored)
  next
    case False
    then have w: "w = ?pdu" and ws: "substance ws = fragment_loop body k ?stop ?c @ left"
      using Cons.prems(5) loop by (simp_all add: substance_Cons)
    let ?a = "\<lparr>as_buffer = take ?stop body, as_started = True\<rparr>"
    note chunk = assemble_chunk [OF Cons.prems(1-4), where c = c]
    have turn: "recv_loop put a (map Inr (w # ws) @ rest) s =
      (if ?stop = length body then (Inr m, assembler_new, map Inr ws @ rest, s)
       else recv_loop put ?a (map Inr ws @ rest) s)"
      unfolding w list.map append_Cons recv_loop_data chunk by simp
    show ?thesis
    proof (cases "?stop = length body")
      case True
      then have "substance ws = left" using ws by (subst (asm) fragment_loop.simps) simp
      then show ?thesis unfolding turn if_P [OF True] by blast
    next
      case False
      then have "midway body ?stop ?a" "?stop < length body"
        using Cons.prems(3,4) by (auto simp: midway_def)
      then show ?thesis
        unfolding turn if_not_P [OF False] using Cons.IH Cons.prems(2,4) ws by blast
    qed
  qed
qed

lemma recv_message:
  assumes "substance ws = encode_data m k @ left"
  shows "\<exists>ws'. substance ws' = left \<and>
    recv_loop put assembler_new (map Inr ws @ rest) s = (Inr m, assembler_new, map Inr ws' @ rest, s)"
proof -
  have "midway (DATA_HASH @ m) 0 assembler_new" "0 < length (DATA_HASH @ m)" "0 < max k 1"
    by (simp_all add: midway_def assembler_new_def DATA_HASH_def)
  moreover have "substance ws = fragment_loop (DATA_HASH @ m) (max k 1) 0 0 @ left"
    using assms(1) by (simp add: encode_data_def fragment_def DATA_HASH_def)
  ultimately show ?thesis
    using recv_fragments [where put = put, OF _ decode_layer_b_data] by blast
qed

subsection \<open>A conversation\<close>

text \<open>
  What a client of \<open>send_data\<close> needs of the closure that writes a packet: \<open>wire\<close> is what has
  gone out, and a successful write appends what the packet looks like there.
\<close>

locale pdu_writer =
  fixes put :: "bytes \<Rightarrow> 's \<Rightarrow> (radio_error + unit) \<times> 's"
    and wire :: "'s \<Rightarrow> 'w list"
    and image :: "bytes \<Rightarrow> 'w list"
  assumes put_appends: "put pdu s = (Inr u, s') \<Longrightarrow> wire s' = wire s @ image pdu"
begin

lemma write_pdus_appends:
  "write_pdus put pdus s = (Inr u, s') \<Longrightarrow> wire s' = wire s @ concat (map image pdus)"
  by (induction pdus arbitrary: s) (auto split: prod.splits sum.splits dest!: put_appends)

lemma send_data_appends:
  assumes "send_data put m requested s = (Inr u, requested', s')"
  shows "requested' \<and> wire s' = wire s @ (if requested then [] else image encode_request) @
    concat (map image (encode_data m (MAX_PACKET - 1)))"
  using assms
  by (auto simp: send_data_def split: prod.splits sum.splits if_splits
      dest!: put_appends write_pdus_appends)

end

text \<open>
  A socket as a script: the packets written so far and the outcomes of the coming writes, which
  succeed once the script has ended.
\<close>

record pdu_socket =
  sk_sent :: "bytes list"
  sk_faults :: "radio_error option list"

definition write_pdu :: "bytes \<Rightarrow> pdu_socket \<Rightarrow> (radio_error + unit) \<times> pdu_socket" where
  "write_pdu pdu s =
     (case sk_faults s of
        Some e # fs \<Rightarrow> (Inl e, s\<lparr>sk_faults := fs\<rparr>)
      | fs \<Rightarrow> (Inr (), s\<lparr>sk_sent := sk_sent s @ [pdu], sk_faults := tl fs\<rparr>))"

interpretation socket: pdu_writer write_pdu sk_sent "\<lambda>pdu. [pdu]"
  by unfold_locales (auto simp: write_pdu_def split: list.splits option.splits)

definition transcript :: "bool \<Rightarrow> bytes list \<Rightarrow> bytes list" where
  "transcript requested ms =
     (if requested \<or> ms = [] then [] else [encode_request]) @
     concat (map (\<lambda>m. encode_data m (MAX_PACKET - 1)) ms)"

text \<open>Repeated calls, as the owner of a socket makes them.\<close>

fun weave_send_all :: "bytes list \<Rightarrow> bool \<Rightarrow> pdu_socket \<Rightarrow> (radio_error + unit) \<times> bool \<times> pdu_socket" where
  "weave_send_all [] requested s = (Inr (), requested, s)"
| "weave_send_all (m # ms) requested s =
     (case send_data write_pdu m requested s of
        (Inl e, requested, s) \<Rightarrow> (Inl e, requested, s)
      | (Inr _, requested, s) \<Rightarrow> weave_send_all ms requested s)"

fun weave_recv_all ::
  "nat \<Rightarrow> assembler \<Rightarrow> (radio_error + bytes) list \<Rightarrow> pdu_socket \<Rightarrow>
   (radio_error + bytes list) \<times> assembler \<times> (radio_error + bytes) list \<times> pdu_socket" where
  "weave_recv_all 0 a reads s = (Inr [], a, reads, s)"
| "weave_recv_all (Suc n) a reads s =
     (case recv_data write_pdu True a reads s of
        (Inl e, a, reads, s) \<Rightarrow> (Inl e, a, reads, s)
      | (Inr m, a, reads, s) \<Rightarrow>
          (case weave_recv_all n a reads s of
             (Inl e, a, reads, s) \<Rightarrow> (Inl e, a, reads, s)
           | (Inr ms, a, reads, s) \<Rightarrow> (Inr (m # ms), a, reads, s)))"

lemma transcript_Cons: "transcript r (m # ms) = transcript r [m] @ transcript True ms"
  by (simp add: transcript_def)

lemma send_all_sent:
  "weave_send_all ms r s = (Inr u, r', s') \<Longrightarrow> sk_sent s' = sk_sent s @ transcript r ms"
proof (induction ms r s rule: weave_send_all.induct)
  case (2 m ms r s)
  obtain u1 r1 s1 where 1: "send_data write_pdu m r s = (Inr u1, r1, s1)"
    and 2: "weave_send_all ms r1 s1 = (Inr u, r', s')"
    using "2.prems" by (auto split: prod.splits sum.splits)
  show ?case
    using socket.send_data_appends [OF 1] "2.IH" [OF 1 [symmetric] refl refl 2]
    unfolding transcript_Cons [of r m ms] by (auto simp: transcript_def)
qed (simp add: transcript_def)

lemma transcript_sizes:
  assumes "pdu \<in> set (transcript r ms)"
  shows "0 < length pdu \<and> length pdu \<le> MAX_PACKET"
proof -
  have "0 < length encode_request \<and> length encode_request \<le> MAX_PACKET"
    by (simp add: encode_request_def u16_to_be_bytes_def weave_consts)
  moreover have "0 < length pdu \<and> length pdu \<le> MAX_PACKET" if "pdu \<in> set (encode_data m (MAX_PACKET - 1))" for m
    using that fragment_loop_sizes [of pdu "DATA_HASH @ m" "max (MAX_PACKET - 1) 1" 0 0]
    by (simp add: encode_data_def fragment_def weave_consts)
  ultimately show ?thesis using assms by (auto simp: transcript_def split: if_splits)
qed

lemma not_ignored_request [simp]: "\<not> ignored encode_request"
  by (simp add: ignored_def)

lemma recv_request:
  assumes "substance ws = encode_request # left" "put encode_confirm s = (Inr u, s')"
  shows "\<exists>ws'. substance ws' = left \<and>
    recv_loop put a (map Inr ws @ rest) s = recv_loop put a (map Inr ws' @ rest) s'"
  using assms
proof (induction ws)
  case (Cons w ws)
  then show ?case
  proof (cases "ignored w")
    case True
    then show ?thesis using Cons by (simp add: substance_def recv_loop_ignored)
  next
    case False
    then have "w = encode_request" "substance ws = left" using Cons.prems(1) by (simp_all add: substance_Cons)
    then show ?thesis using recv_loop_request [of put s u s'] Cons.prems(2) by auto
  qed
qed (simp add: substance_def)

lemma recv_one:
  assumes "substance ws = transcript r [m] @ left" "\<not> r \<Longrightarrow> put encode_confirm s = (Inr u, s')"
  shows "\<exists>ws'. substance ws' = left \<and> recv_data put True assembler_new (map Inr ws @ rest) s =
    (Inr m, assembler_new, map Inr ws' @ rest, if r then s else s')"
proof (cases r)
  case True
  then show ?thesis
    using recv_message [of ws m "MAX_PACKET - 1" left put rest s] assms(1)
    by (simp add: transcript_def recv_data_def)
next
  case False
  then have "substance ws = encode_request # encode_data m (MAX_PACKET - 1) @ left"
    using assms(1) by (simp add: transcript_def)
  from recv_request [where put = put and s = s and s' = s' and u = u, OF this assms(2) [OF False]] obtain ws1 where
    1: "substance ws1 = encode_data m (MAX_PACKET - 1) @ left"
      "recv_loop put assembler_new (map Inr ws @ rest) s =
         recv_loop put assembler_new (map Inr ws1 @ rest) s'" by blast
  show ?thesis
    using recv_message [OF 1(1), of put rest s'] 1(2) False by (simp add: recv_data_def)
qed

definition confirmed :: "bool \<Rightarrow> bytes list \<Rightarrow> pdu_socket \<Rightarrow> pdu_socket" where
  "confirmed r ms s = (if r \<or> ms = [] then s else s\<lparr>sk_sent := sk_sent s @ [encode_confirm]\<rparr>)"

lemma recv_all_transcript:
  assumes "substance ws = transcript r ms" "sk_faults s = []"
  shows "\<exists>ws'. substance ws' = [] \<and> weave_recv_all (length ms) assembler_new (map Inr ws @ rest) s =
    (Inr ms, assembler_new, map Inr ws' @ rest, confirmed r ms s)"
  using assms
proof (induction ms arbitrary: r ws s)
  case Nil
  then show ?case by (auto simp: transcript_def confirmed_def)
next
  case (Cons m ms)
  have "write_pdu encode_confirm s = (Inr (), confirmed False [m] s)"
    using Cons.prems(2) by (cases s) (simp add: write_pdu_def confirmed_def)
  then obtain ws1 where 1: "substance ws1 = transcript True ms"
    "recv_data write_pdu True assembler_new (map Inr ws @ rest) s =
       (Inr m, assembler_new, map Inr ws1 @ rest, confirmed r [m] s)"
    using recv_one [of ws r m _ write_pdu s] Cons.prems(1) transcript_Cons [of r m ms]
    by (fastforce simp: confirmed_def)
  have "sk_faults (confirmed r [m] s) = []" using Cons.prems(2) by (simp add: confirmed_def)
  then show ?case
    using Cons.IH [OF 1(1)] 1(2) by (fastforce simp: confirmed_def)
qed

text \<open>
  C34. Weave framing delivers. When a sender has sent messages over a GATT socket without a fault,
  every packet it wrote fits the negotiated packet size, and a receiver that starts between two
  messages and reads those packets, with any confirmations and error notices interleaved between
  them, returns exactly those messages in order. It is again between two messages afterwards, has
  left only such notices unread, and has confirmed the connection request when there was one.
\<close>

theorem weave_delivers:
  assumes "weave_send_all ms requested p = (Inr (), requested', p')" "sk_sent p = []"
    and "substance ws = sk_sent p'" "sk_faults q = []"
  shows "(\<forall>pdu \<in> set (sk_sent p'). 0 < length pdu \<and> length pdu \<le> MAX_PACKET) \<and>
    (\<exists>ws'. substance ws' = [] \<and> weave_recv_all (length ms) assembler_new (map Inr ws @ rest) q =
      (Inr ms, assembler_new, map Inr ws' @ rest,
       if requested \<or> ms = [] then q else q\<lparr>sk_sent := sk_sent q @ [encode_confirm]\<rparr>))"
proof -
  have "sk_sent p' = transcript requested ms" using send_all_sent [OF assms(1)] assms(2) by simp
  then show ?thesis
    using transcript_sizes recv_all_transcript [OF _ assms(4)] assms(3) by (simp add: confirmed_def)
qed

definition ex_socket :: pdu_socket where
  "ex_socket = \<lparr>sk_sent = [], sk_faults = []\<rparr>"

definition ex_pdus :: "bytes list" where
  "ex_pdus = [encode_request, 0x0C # DATA_HASH @ [1, 2], 0x0C # DATA_HASH]"

definition ex_heard :: "bytes list" where
  "ex_heard = [encode_confirm, ex_pdus ! 0, ex_pdus ! 1, encode_confirm, ex_pdus ! 2]"

theorem weave_delivers_witness:
  "\<exists>ws'. substance ws' = [] \<and>
     weave_recv_all (length [[1, 2], []]) assembler_new (map Inr ex_heard @ []) ex_socket =
       (Inr [[1, 2], []], assembler_new, map Inr ws' @ [], ex_socket\<lparr>sk_sent := [encode_confirm]\<rparr>)"
proof -
  have send: "weave_send_all [[1, 2], []] False ex_socket = (Inr (), True, ex_socket\<lparr>sk_sent := ex_pdus\<rparr>)"
    by (simp add: ex_socket_def send_data_def write_pdu_def ex_pdus_def encode_data_def fragment_def
        fragment_loop.simps data_header_def weave_consts)
  have "substance ex_heard = ex_pdus"
    by (simp add: substance_def ignored_def ex_heard_def ex_pdus_def decode_pdu.simps weave_consts)
  then show ?thesis
    using weave_delivers [OF send, of ex_heard ex_socket "[]"] by (simp add: ex_socket_def)
qed

end
