(* ===== verification/Conn_Deadline.thy ===== *)
theory Conn_Deadline
  imports Conn_Stream
begin

text \<open>
  The deadline and cancellation loops around a stream's \<open>read\<close>, \<open>write\<close> and \<open>flush\<close>
  (\<open>DeadlineReader\<close> and \<open>DeadlineWriter\<close> of \<open>io.rs\<close>). The operating system is the list of
  observations the loop makes, one per turn: whether the operation is cancelled, the time at which the
  turn begins, the outcome of setting the timeout, the outcome of the call and the time it returned.
  \<open>None\<close> means that the loop is still waiting when the observations end. Times are nanoseconds. That a
  call does not outlast its timeout is the hypothesis \<open>honours_timeout\<close> on the stream.
\<close>

record observation =
  ob_cancelled :: bool
  ob_now :: nat
  ob_set_timeout :: "io_kind option"
  ob_result :: "io_kind + nat"
  ob_after :: nat

definition CONTROL_POLL_INTERVAL :: nat where "CONTROL_POLL_INTERVAL = 100 * 1000000"

definition operation_timeout :: "nat option \<Rightarrow> bool \<Rightarrow> observation \<Rightarrow> io_kind + nat option" where
  "operation_timeout deadline cancellable ob =
     (if cancellable \<and> ob_cancelled ob then Inl ICancelled
      else case deadline of
        None \<Rightarrow> Inr None
      | Some d \<Rightarrow>
          if ob_now ob < d
          then Inr (Some (if cancellable then min (d - ob_now ob) CONTROL_POLL_INTERVAL
                          else d - ob_now ob))
          else Inl ITimedOut)"

definition poll_timeout :: "io_kind \<Rightarrow> bool" where
  "poll_timeout e \<longleftrightarrow> e = ITimedOut \<or> e = IWouldBlock"

definition retry_timeout :: "io_kind \<Rightarrow> nat option \<Rightarrow> nat \<Rightarrow> bool" where
  "retry_timeout e deadline now \<longleftrightarrow> poll_timeout e \<and> (case deadline of None \<Rightarrow> False | Some d \<Rightarrow> d > now)"

fun deadline_read :: "nat option \<Rightarrow> bool \<Rightarrow> observation list \<Rightarrow> (io_kind + nat) option" where
  "deadline_read deadline cancellable [] = None"
| "deadline_read deadline cancellable (ob # obs) =
     (case operation_timeout deadline cancellable ob of
        Inl e \<Rightarrow> Some (Inl e)
      | Inr timeout \<Rightarrow>
          (case (if timeout = None then None else ob_set_timeout ob) of
             Some e \<Rightarrow> Some (Inl e)
           | None \<Rightarrow>
             (case ob_result ob of
                Inr n \<Rightarrow> Some (Inr n)
              | Inl e \<Rightarrow>
                  if retry_timeout e deadline (ob_after ob) then deadline_read deadline cancellable obs
                  else if poll_timeout e \<and> deadline \<noteq> None then Some (Inl ITimedOut)
                  else Some (Inl e))))"

text \<open>\<open>DeadlineWriter::write\<close>; \<open>flush\<close> is the same loop around \<open>flush\<close>, with result 0.\<close>

fun deadline_write :: "nat \<Rightarrow> observation list \<Rightarrow> (io_kind + nat) option" where
  "deadline_write deadline [] = None"
| "deadline_write deadline (ob # obs) =
     (case operation_timeout (Some deadline) True ob of
        Inl e \<Rightarrow> Some (Inl e)
      | Inr None \<Rightarrow> Some (Inl IOther)
      | Inr (Some timeout) \<Rightarrow>
          (case ob_set_timeout ob of
             Some e \<Rightarrow> Some (Inl e)
           | None \<Rightarrow>
             (case ob_result ob of
                Inr n \<Rightarrow> Some (Inr n)
              | Inl e \<Rightarrow>
                  if retry_timeout e (Some deadline) (ob_after ob) then deadline_write deadline obs
                  else if poll_timeout e then Some (Inl ITimedOut)
                  else Some (Inl e))))"

lemma deadline_write_read: "deadline_write d obs = deadline_read (Some d) True obs"
  by (induction obs) (auto simp: operation_timeout_def split: sum.splits option.splits if_splits)

lemma operation_timeout_bound:
  "operation_timeout (Some d) c ob = Inr (Some t) \<Longrightarrow>
     0 < t \<and> ob_now ob + t \<le> d \<and> (c \<longrightarrow> t \<le> CONTROL_POLL_INTERVAL)"
  by (auto simp: operation_timeout_def CONTROL_POLL_INTERVAL_def split: if_splits)

lemma deadline_read_returns:
  "ob \<in> set obs \<Longrightarrow> d \<le> ob_now ob \<Longrightarrow> deadline_read (Some d) c obs \<noteq> None"
  by (induction obs) (auto simp: operation_timeout_def split: sum.splits option.splits if_splits)

lemma deadline_read_no_wouldblock:
  "\<forall>ob \<in> set obs. ob_set_timeout ob \<noteq> Some IWouldBlock \<Longrightarrow> deadline_read (Some d) c obs \<noteq> Some (Inl IWouldBlock)"
  by (induction obs)
    (auto simp: operation_timeout_def poll_timeout_def split: sum.splits option.splits if_splits)

text \<open>
  A stream honours its timeout: a call made after \<open>set_read_timeout\<close> or \<open>set_write_timeout\<close> returns when that
  much time has passed. The timeout in force in a turn is the one \<open>operation_timeout\<close> computes.
\<close>

definition honours_timeout :: "nat option \<Rightarrow> bool \<Rightarrow> observation \<Rightarrow> bool" where
  "honours_timeout deadline cancellable ob \<longleftrightarrow>
     (case operation_timeout deadline cancellable ob of
        Inr (Some t) \<Rightarrow> ob_after ob \<le> ob_now ob + t
      | _ \<Rightarrow> True)"

lemma honoured_in_time:
  assumes "honours_timeout (Some d) c ob" "operation_timeout (Some d) c ob = Inr t"
  shows "ob_after ob \<le> d \<and> (c \<longrightarrow> ob_after ob \<le> ob_now ob + CONTROL_POLL_INTERVAL)"
proof -
  obtain u where t: "t = Some u" using assms(2) by (auto simp: operation_timeout_def split: if_splits)
  have "0 < u \<and> ob_now ob + u \<le> d \<and> (c \<longrightarrow> u \<le> CONTROL_POLL_INTERVAL)"
    using operation_timeout_bound [of d c ob u] assms(2) t by simp
  then show ?thesis using assms t by (auto simp: honours_timeout_def)
qed

lemma deadline_read_in_time:
  "deadline_read (Some d) c obs = Some (Inr n) \<Longrightarrow> list_all (honours_timeout (Some d) c) obs \<Longrightarrow>
     \<exists>ob \<in> set obs. ob_result ob = Inr n \<and> ob_now ob < d \<and> ob_after ob \<le> d \<and> \<not> (c \<and> ob_cancelled ob)"
proof (induction obs)
  case (Cons ob obs)
  obtain t where t: "operation_timeout (Some d) c ob = Inr t" using Cons.prems(1) by (auto split: sum.splits)
  have now: "ob_now ob < d" "\<not> (c \<and> ob_cancelled ob)" using t by (auto simp: operation_timeout_def split: if_splits)
  have after: "ob_after ob \<le> d" using honoured_in_time [OF _ t] Cons.prems(2) by simp
  show ?case
  proof (cases "ob_result ob = Inr n")
    case True
    then show ?thesis using now after by auto
  next
    case False
    then have "deadline_read (Some d) c obs = Some (Inr n)"
      using Cons.prems(1) t by (auto split: sum.splits option.splits if_splits)
    then show ?thesis using Cons.IH Cons.prems(2) by auto
  qed
qed simp

text \<open>A turn that found nothing, with time left.\<close>

definition idle_turn :: "nat \<Rightarrow> bool \<Rightarrow> observation \<Rightarrow> bool" where
  "idle_turn d c ob \<longleftrightarrow> ob_result ob \<in> {Inl IWouldBlock, Inl ITimedOut} \<and> ob_set_timeout ob = None \<and>
     \<not> (c \<and> ob_cancelled ob) \<and> ob_now ob < d \<and> ob_after ob < d"

lemma deadline_read_waits:
  "list_all (idle_turn d c) waits \<Longrightarrow> deadline_read (Some d) c (waits @ obs) = deadline_read (Some d) c obs"
  by (induction waits)
    (auto simp: idle_turn_def operation_timeout_def retry_timeout_def poll_timeout_def)

text \<open>
  C32. A read or a write under a deadline is bounded. On a stream that honours its timeouts every call
  the loop makes has returned by the deadline, and by the polling interval when the operation can be
  cancelled, so data is never returned after the deadline; no call is made at or after it, and the loop has
  ended by the first turn then. Until then it waits: turns that find nothing are not an outcome, and a
  poll that would block is never reported as such. A cancellation request is reported in the next turn,
  before any further input or output.
\<close>

theorem deadline_bounds_operation:
  "(list_all (honours_timeout (Some d) c) obs \<longrightarrow> deadline_read (Some d) c obs = Some (Inr n) \<longrightarrow>
      (\<exists>ob \<in> set obs. ob_result ob = Inr n \<and> ob_now ob < d \<and> ob_after ob \<le> d \<and> \<not> (c \<and> ob_cancelled ob))) \<and>
   (\<forall>ob t. honours_timeout (Some d) c ob \<longrightarrow> operation_timeout (Some d) c ob = Inr t \<longrightarrow>
      ob_now ob < d \<and> ob_after ob \<le> d \<and> (c \<longrightarrow> ob_after ob \<le> ob_now ob + CONTROL_POLL_INTERVAL)) \<and>
   ((\<exists>ob \<in> set obs. d \<le> ob_now ob) \<longrightarrow> deadline_read (Some d) c obs \<noteq> None) \<and>
   (list_all (idle_turn d c) waits \<longrightarrow> deadline_read (Some d) c (waits @ obs) = deadline_read (Some d) c obs) \<and>
   ((\<forall>ob \<in> set obs. ob_set_timeout ob \<noteq> Some IWouldBlock) \<longrightarrow>
      deadline_read (Some d) c obs \<noteq> Some (Inl IWouldBlock)) \<and>
   (obs \<noteq> [] \<and> ob_cancelled (hd obs) \<longrightarrow> deadline_read (Some d) True obs = Some (Inl ICancelled)) \<and>
   deadline_write d obs = deadline_read (Some d) True obs"
proof (intro conjI allI impI)
  show "\<exists>ob \<in> set obs. ob_result ob = Inr n \<and> ob_now ob < d \<and> ob_after ob \<le> d \<and> \<not> (c \<and> ob_cancelled ob)"
    if "list_all (honours_timeout (Some d) c) obs" "deadline_read (Some d) c obs = Some (Inr n)"
    using that by (intro deadline_read_in_time)
  show "ob_now ob < d" if "operation_timeout (Some d) c ob = Inr t" for ob t
    using that by (auto simp: operation_timeout_def split: if_splits)
  show "ob_after ob \<le> d" if "honours_timeout (Some d) c ob" "operation_timeout (Some d) c ob = Inr t" for ob t
    using honoured_in_time [OF that] by simp
  show "ob_after ob \<le> ob_now ob + CONTROL_POLL_INTERVAL"
    if "honours_timeout (Some d) c ob" "operation_timeout (Some d) c ob = Inr t" "c" for ob t
    using honoured_in_time [OF that(1,2)] that(3) by simp
  show "deadline_read (Some d) c obs \<noteq> None" if "\<exists>ob \<in> set obs. d \<le> ob_now ob"
    using that deadline_read_returns by blast
  show "deadline_read (Some d) c (waits @ obs) = deadline_read (Some d) c obs" if "list_all (idle_turn d c) waits"
    using that by (rule deadline_read_waits)
  show "deadline_read (Some d) c obs \<noteq> Some (Inl IWouldBlock)" if "\<forall>ob \<in> set obs. ob_set_timeout ob \<noteq> Some IWouldBlock"
    using that by (rule deadline_read_no_wouldblock)
  show "deadline_read (Some d) True obs = Some (Inl ICancelled)" if "obs \<noteq> [] \<and> ob_cancelled (hd obs)"
    using that by (cases obs) (simp_all add: operation_timeout_def)
  show "deadline_write d obs = deadline_read (Some d) True obs" by (rule deadline_write_read)
qed

definition ex_wait :: "nat \<Rightarrow> observation" where
  "ex_wait t = \<lparr>ob_cancelled = False, ob_now = t, ob_set_timeout = None, ob_result = Inl IWouldBlock,
     ob_after = t + 1\<rparr>"

definition ex_data :: "nat \<Rightarrow> observation" where
  "ex_data t = (ex_wait t)\<lparr>ob_result := Inr 3\<rparr>"

theorem deadline_bounds_operation_witness:
  "deadline_read (Some 10) False [ex_wait 1, ex_wait 5, ex_data 7] = Some (Inr 3) \<and>
   honours_timeout (Some 10) False (ex_data 7) \<and> ob_after (ex_data 7) \<le> 10 \<and>
   deadline_read (Some 10) False [ex_wait 1, ex_wait 5, ex_wait 12] \<noteq> None"
proof -
  have "list_all (idle_turn 10 False) [ex_wait 1, ex_wait 5]" by (simp add: idle_turn_def ex_wait_def)
  then have w: "deadline_read (Some 10) False [ex_wait 1, ex_wait 5, ex_data 7] = deadline_read (Some 10) False [ex_data 7]"
    using deadline_bounds_operation [of 10 False "[ex_data 7]" 0 "[ex_wait 1, ex_wait 5]"] by simp
  have h: "honours_timeout (Some 10) False (ex_data 7)" "operation_timeout (Some 10) False (ex_data 7) = Inr (Some 3)"
    by (simp_all add: honours_timeout_def operation_timeout_def ex_data_def ex_wait_def)
  then have "ob_after (ex_data 7) \<le> 10" using deadline_bounds_operation [of 10 False "[]" 0 "[]"] by blast
  moreover have "deadline_read (Some 10) False [ex_wait 1, ex_wait 5, ex_wait 12] \<noteq> None"
    using deadline_bounds_operation [of 10 False "[ex_wait 1, ex_wait 5, ex_wait 12]" 0 "[]"] by (simp add: ex_wait_def)
  moreover have "deadline_read (Some 10) False [ex_data 7] = Some (Inr 3)"
    by (simp add: operation_timeout_def ex_data_def ex_wait_def)
  ultimately show ?thesis using w h by simp
qed

end
