(* ===== verification/Bluez_Io.thy ===== *)
theory Bluez_Io
  imports Bluez_Weave Conn_Deadline
begin

text \<open>
  The Bluetooth byte streams the connection layer runs on: the descriptor pipe of
  \<open>crates/platform/bluez/src/bus/pipe.rs\<close> and \<open>BluetoothIo\<close> of \<open>io.rs\<close>, raw for Classic and L2CAP
  and framed by weave for GATT.

  The operating system is the list of observations of the coming calls, as in
  \<open>Conn_Deadline\<close>. An operating-system error is its kind and its text. A write whose
  observations end meets its deadline. Mutex poisoning needs a panic under the lock and is left
  out, and so is tracing.
\<close>

type_synonym os_error = "io_kind \<times> string"

subsection \<open>The descriptor pipe\<close>

record write_ob =
  wo_expired :: bool
  wo_set_timeout :: "os_error option"
  wo_result :: "os_error + nat"
  wo_expired_after :: bool
  wo_wait :: "radio_error option"

record byte_pipe =
  bp_reads :: "(os_error + bytes) list"
  bp_ready :: "os_error + bool"
  bp_deadline :: bool
  bp_obs :: "write_ob list"
  bp_wire :: bytes
  bp_shutdown :: "os_error option"

definition PIPE_BUFFER :: nat where "PIPE_BUFFER = 4096"

definition is_timeout :: "io_kind \<Rightarrow> bool" where
  "is_timeout k \<longleftrightarrow> k = IWouldBlock \<or> k = ITimedOut"

definition io_error :: "os_error \<Rightarrow> radio_error" where
  "io_error e = (if is_timeout (fst e) then error_timeout else error_bus (snd e))"

definition recv_result :: "os_error + bytes \<Rightarrow> radio_error + bytes" where
  "recv_result r =
     (case r of
        Inr bs \<Rightarrow> (if bs = [] then Inl error_closed else Inr (take PIPE_BUFFER bs))
      | Inl e \<Rightarrow> Inl (io_error e))"

definition pipe_recv :: "byte_pipe \<Rightarrow> (radio_error + bytes) \<times> byte_pipe" where
  "pipe_recv p =
     (case bp_reads p of
        [] \<Rightarrow> (Inl error_timeout, p)
      | r # rs \<Rightarrow> (recv_result r, p\<lparr>bp_reads := rs\<rparr>))"

definition pipe_read_ready :: "byte_pipe \<Rightarrow> radio_error + bool" where
  "pipe_read_ready p = map_sum (\<lambda>e. error_bus (snd e)) id (bp_ready p)"

fun write_once :: "bool \<Rightarrow> bytes \<Rightarrow> write_ob list \<Rightarrow> (radio_error + nat) \<times> write_ob list" where
  "write_once deadline bs [] = (Inl error_timeout, [])"
| "write_once deadline bs (ob # obs) =
     (if deadline \<and> wo_expired ob then (Inl error_timeout, obs)
      else if deadline \<and> wo_set_timeout ob \<noteq> None
      then (Inl (error_bus (snd (the (wo_set_timeout ob)))), obs)
      else case wo_result ob of
        Inr count \<Rightarrow> (Inr (min count (length bs)), obs)
      | Inl e \<Rightarrow>
          if fst e = IInterrupted then write_once deadline bs obs
          else if fst e = IWouldBlock then
            (if \<not> deadline then (Inl (io_error e), obs)
             else if wo_expired_after ob then (Inl error_timeout, obs)
             else case wo_wait ob of
               Some e' \<Rightarrow> (Inl e', obs)
             | None \<Rightarrow> write_once deadline bs obs)
          else (Inl (io_error e), obs))"

definition pipe_write :: "bytes \<Rightarrow> byte_pipe \<Rightarrow> (radio_error + nat) \<times> byte_pipe" where
  "pipe_write bs p =
     (case write_once (bp_deadline p) bs (bp_obs p) of
        (Inl e, obs) \<Rightarrow> (Inl e, p\<lparr>bp_obs := obs\<rparr>)
      | (Inr n, obs) \<Rightarrow> (Inr n, p\<lparr>bp_obs := obs, bp_wire := bp_wire p @ take n bs\<rparr>))"

text \<open>\<open>UnixStream::flush\<close> has nothing to flush and succeeds.\<close>

definition pipe_flush :: "byte_pipe \<Rightarrow> radio_error + unit" where
  "pipe_flush p = Inr ()"

fun kind_name :: "error_kind \<Rightarrow> string" where
  "kind_name BBus = ''bus''"
| "kind_name BClosed = ''closed''"
| "kind_name BProtocol = ''protocol''"
| "kind_name BTimeout = ''timeout''"
| "kind_name BUnavailable = ''unavailable''"

definition decimal_text :: "nat \<Rightarrow> string" where
  "decimal_text n = map (\<lambda>b. char_of (unat b)) (decimal n)"

definition pdu_failed :: "nat \<Rightarrow> radio_error \<Rightarrow> radio_error" where
  "pdu_failed written e =
     error_bus (''PDU write failed after '' @ decimal_text written @ '' bytes: '' @
       kind_name (radio_kind e) @ '': '' @ radio_message e)"

text \<open>The loop of \<open>send\<close>, which writes one whole packet.\<close>

function pipe_send_from :: "nat \<Rightarrow> bytes \<Rightarrow> byte_pipe \<Rightarrow> (radio_error + unit) \<times> byte_pipe" where
  "pipe_send_from written bs p =
     (if written < length bs then
        (case pipe_write (drop written bs) p of
           (Inr 0, p) \<Rightarrow> (Inl (error_bus ''failed to write whole PDU''), p)
         | (Inr (Suc n), p) \<Rightarrow> pipe_send_from (written + Suc n) bs p
         | (Inl e, p) \<Rightarrow>
             (if written = 0 \<and> radio_kind e = BTimeout then (Inl e, p)
              else (Inl (pdu_failed written e), p)))
      else (pipe_flush p, p))"
  by pat_completeness auto
termination
  by (relation "measure (\<lambda>(written, bs, p). length bs - written)") auto

declare pipe_send_from.simps [simp del]

definition pipe_send :: "bytes \<Rightarrow> byte_pipe \<Rightarrow> (radio_error + unit) \<times> byte_pipe" where
  "pipe_send bs p = pipe_send_from 0 bs p"

text \<open>\<open>set_write_timeout\<close>: \<open>option\<close> is the outcome of the socket option, \<open>fits\<close> whether the deadline is representable.\<close>

definition pipe_set_write_timeout ::
  "nat \<Rightarrow> os_error option \<Rightarrow> bool \<Rightarrow> byte_pipe \<Rightarrow> (radio_error + unit) \<times> byte_pipe" where
  "pipe_set_write_timeout timeout option fits p =
     (if timeout = 0 then (Inl error_timeout, p)
      else case option of
        Some e \<Rightarrow> (Inl (error_bus (snd e)), p)
      | None \<Rightarrow>
          if fits then (Inr (), p\<lparr>bp_deadline := True\<rparr>)
          else (Inl (error_protocol ''write deadline overflow''), p))"

definition pipe_shutdown_write :: "byte_pipe \<Rightarrow> radio_error + unit" where
  "pipe_shutdown_write p =
     (case bp_shutdown p of None \<Rightarrow> Inr () | Some e \<Rightarrow> Inl (error_bus (snd e)))"

subsection \<open>Bluetooth streams\<close>

datatype io_inner =
    Raw (raw_pipe: byte_pipe) (raw_leftover: bytes) (raw_medium: string)
  | Weave (weave_pipe: byte_pipe) (weave_assembler: assembler) (weave_leftover: bytes) (weave_requested: bool)

record bluetooth_io =
  bt_inner :: io_inner
  bt_read_timeout :: nat

definition DEFAULT_READ_TIMEOUT :: nat where "DEFAULT_READ_TIMEOUT = 60 * 1000000000"

definition bt_classic :: "byte_pipe \<Rightarrow> bluetooth_io" where
  "bt_classic p = \<lparr>bt_inner = Raw p [] ''bluetooth_classic'', bt_read_timeout = DEFAULT_READ_TIMEOUT\<rparr>"

definition bt_l2cap :: "byte_pipe \<Rightarrow> bluetooth_io" where
  "bt_l2cap p = \<lparr>bt_inner = Raw p [] ''bluetooth_l2cap'', bt_read_timeout = DEFAULT_READ_TIMEOUT\<rparr>"

definition bt_weave :: "byte_pipe \<Rightarrow> bluetooth_io" where
  "bt_weave p = \<lparr>bt_inner = Weave p assembler_new [] False, bt_read_timeout = DEFAULT_READ_TIMEOUT\<rparr>"

text \<open>
  The results as the connection layer sees them: the end of the stream is an empty read, a write
  that timed out keeps its kind, and every other adapter error has kind \<open>Other\<close>.
\<close>

definition read_result :: "radio_error + bytes \<Rightarrow> io_kind + bytes" where
  "read_result r =
     (case r of
        Inl e \<Rightarrow> (if radio_kind e = BClosed then Inr [] else Inl IOther)
      | Inr bs \<Rightarrow> Inr bs)"

definition write_result :: "radio_error + 'a \<Rightarrow> io_kind + 'a" where
  "write_result r =
     (case r of
        Inl e \<Rightarrow> Inl (if radio_kind e = BTimeout then ITimedOut else IOther)
      | Inr x \<Rightarrow> Inr x)"

definition buffered_or_pipe_ready :: "bytes \<Rightarrow> byte_pipe \<Rightarrow> io_kind + bool" where
  "buffered_or_pipe_ready leftover p =
     (if leftover \<noteq> [] then Inr True else map_sum (\<lambda>_. IOther) id (pipe_read_ready p))"

text \<open>
  \<open>read_buffered\<close> serves from the leftover bytes and only fills when there are none; the fill
  closure is its state before and after.
\<close>

definition read_buffered :: "bytes \<Rightarrow> nat \<Rightarrow> ('s \<Rightarrow> (io_kind + bytes) \<times> 's) \<Rightarrow> 's \<Rightarrow> (io_kind + bytes) \<times> bytes \<times> 's" where
  "read_buffered leftover room fill s =
     (case (if leftover = [] then fill s else (Inr leftover, s)) of
        (Inl e, s) \<Rightarrow> (Inl e, leftover, s)
      | (Inr leftover, s) \<Rightarrow>
          let count = min (length leftover) room
          in (Inr (take count leftover), drop count leftover, s))"

text \<open>
  The closures of \<open>read_weave\<close>: the packets are what \<open>recv\<close> makes of the coming reads of the
  descriptor, one of which may be the timeout at the deadline, and the confirmations go out with
  \<open>send\<close>.
\<close>

definition recv_on :: "bool \<Rightarrow> assembler \<Rightarrow> byte_pipe \<Rightarrow> (radio_error + bytes) \<times> assembler \<times> byte_pipe" where
  "recv_on fits a p =
     (case recv_data pipe_send fits a (map recv_result (bp_reads p)) p of
        (r, a, reads, p') \<Rightarrow>
          (r, a, p'\<lparr>bp_reads := drop (length (bp_reads p) - length reads) (bp_reads p)\<rparr>))"

definition read_weave ::
  "bool \<Rightarrow> byte_pipe \<Rightarrow> assembler \<Rightarrow> bytes \<Rightarrow> nat \<Rightarrow> (io_kind + bytes) \<times> bytes \<times> assembler \<times> byte_pipe" where
  "read_weave fits p a leftover room =
     read_buffered leftover room
       (\<lambda>(a, p). case recv_on fits a p of (r, a, p) \<Rightarrow> (read_result r, a, p)) (a, p)"

text \<open>\<open>Read::read\<close> into a buffer of \<open>room\<close> bytes: the bytes that were copied into it.\<close>

definition bt_read :: "bool \<Rightarrow> nat \<Rightarrow> bluetooth_io \<Rightarrow> (io_kind + bytes) \<times> bluetooth_io" where
  "bt_read fits room io =
     (case bt_inner io of
        Raw p leftover medium \<Rightarrow>
          (case read_buffered leftover room
             (\<lambda>p. case pipe_recv p of (r, p) \<Rightarrow> (read_result r, p)) p of
             (r, leftover, p) \<Rightarrow> (r, io\<lparr>bt_inner := Raw p leftover medium\<rparr>))
      | Weave p a leftover requested \<Rightarrow>
          (case read_weave fits p a leftover room of
             (r, leftover, a, p) \<Rightarrow> (r, io\<lparr>bt_inner := Weave p a leftover requested\<rparr>)))"

text \<open>
  \<open>write_weave\<close>: the closure remembers whether a packet, and whether a data packet, has been
  written; a timeout after a data packet is not reported as one, for it must not be retried.
\<close>

definition weave_write_pdu ::
  "bool \<Rightarrow> bytes \<Rightarrow> bool \<times> bool \<times> byte_pipe \<Rightarrow> (radio_error + unit) \<times> bool \<times> bool \<times> byte_pipe" where
  "weave_write_pdu request_pending pdu s =
     (case s of (sent_pdu, sent_data, p) \<Rightarrow>
        let is_data = (\<not> request_pending \<or> sent_pdu)
        in case pipe_send pdu p of
             (Inr _, p) \<Rightarrow> (Inr (), True, sent_data \<or> is_data, p)
           | (Inl e, p) \<Rightarrow>
               (if sent_data \<and> radio_kind e = BTimeout
                then Inl (error_bus ''weave payload write timed out after a committed PDU'') else Inl e,
                sent_pdu, sent_data, p))"

definition write_weave :: "byte_pipe \<Rightarrow> bool \<Rightarrow> bytes \<Rightarrow> (io_kind + nat) \<times> bool \<times> byte_pipe" where
  "write_weave p requested bs =
     (case send_data (weave_write_pdu (\<not> requested)) bs requested (False, False, p) of
        (r, requested, _, _, p) \<Rightarrow> (map_sum id (\<lambda>_. length bs) (write_result r), requested, p))"

definition bt_write :: "bytes \<Rightarrow> bluetooth_io \<Rightarrow> (io_kind + nat) \<times> bluetooth_io" where
  "bt_write bs io =
     (case bt_inner io of
        Raw p leftover medium \<Rightarrow>
          (case pipe_write bs p of
             (r, p) \<Rightarrow> (write_result r, io\<lparr>bt_inner := Raw p leftover medium\<rparr>))
      | Weave p a leftover requested \<Rightarrow>
          (case write_weave p requested bs of
             (r, requested, p) \<Rightarrow> (r, io\<lparr>bt_inner := Weave p a leftover requested\<rparr>)))"

definition inner_pipe :: "io_inner \<Rightarrow> byte_pipe" where
  "inner_pipe i = (case i of Raw p _ _ \<Rightarrow> p | Weave p _ _ _ \<Rightarrow> p)"

definition bt_flush :: "bluetooth_io \<Rightarrow> io_kind + unit" where
  "bt_flush io = write_result (pipe_flush (inner_pipe (bt_inner io)))"

definition bt_shutdown_write :: "bluetooth_io \<Rightarrow> io_kind + unit" where
  "bt_shutdown_write io = map_sum (\<lambda>_. IOther) id (pipe_shutdown_write (inner_pipe (bt_inner io)))"

definition bt_read_ready :: "bluetooth_io \<Rightarrow> io_kind + bool" where
  "bt_read_ready io =
     (case bt_inner io of
        Raw p leftover _ \<Rightarrow> buffered_or_pipe_ready leftover p
      | Weave p _ leftover _ \<Rightarrow> buffered_or_pipe_ready leftover p)"

definition bt_set_read_timeout :: "nat option \<Rightarrow> bluetooth_io \<Rightarrow> (io_kind + unit) \<times> bluetooth_io" where
  "bt_set_read_timeout timeout io =
     (case timeout of
        None \<Rightarrow> (Inl IInvalidInput, io)
      | Some t \<Rightarrow> (Inr (), io\<lparr>bt_read_timeout := t\<rparr>))"

definition bt_set_write_timeout ::
  "nat \<Rightarrow> os_error option \<Rightarrow> bool \<Rightarrow> bluetooth_io \<Rightarrow> (io_kind + unit) \<times> bluetooth_io" where
  "bt_set_write_timeout timeout option fits io =
     (case bt_inner io of
        Raw p leftover medium \<Rightarrow>
          (case pipe_set_write_timeout timeout option fits p of
             (r, p) \<Rightarrow> (write_result r, io\<lparr>bt_inner := Raw p leftover medium\<rparr>))
      | Weave p a leftover requested \<Rightarrow>
          (case pipe_set_write_timeout timeout option fits p of
             (r, p) \<Rightarrow> (write_result r, io\<lparr>bt_inner := Weave p a leftover requested\<rparr>)))"

subsection \<open>What reaches the wire\<close>

lemma pipe_write_wire:
  "pipe_write bs p = (Inr n, p') \<Longrightarrow> bp_wire p' = bp_wire p @ take n bs"
  "pipe_write bs p = (Inl e, p') \<Longrightarrow> bp_wire p' = bp_wire p"
  by (auto simp: pipe_write_def split: prod.splits sum.splits)

lemma write_once_bound: "write_once d bs obs = (Inr n, obs') \<Longrightarrow> n \<le> length bs"
  by (induction d bs obs rule: write_once.induct) (auto split: sum.splits if_splits option.splits)

lemma pipe_write_bound: "pipe_write bs p = (Inr n, p') \<Longrightarrow> n \<le> length bs"
  by (auto simp: pipe_write_def split: prod.splits sum.splits dest: write_once_bound)

lemma pipe_write_done:
  "pipe_write bs p = (Inr n, p') \<Longrightarrow> n \<le> length bs \<and> bp_wire p' = bp_wire p @ take n bs"
  using pipe_write_wire(1) pipe_write_bound by blast

lemma pipe_send_from_wire:
  assumes "written \<le> length bs" "pipe_send_from written bs p = (r, p')"
  shows "(r = Inr u \<longrightarrow> bp_wire p' = bp_wire p @ drop written bs) \<and>
    (\<forall>e. r = Inl e \<and> radio_kind e = BTimeout \<longrightarrow> written = 0 \<and> bp_wire p' = bp_wire p)"
  using assms
proof (induction written bs p rule: pipe_send_from.induct)
  case (1 written bs p)
  show ?case
  proof (cases "written < length bs")
    case False
    then show ?thesis
      using "1.prems" by (subst (asm) pipe_send_from.simps) (auto simp: pipe_flush_def)
  next
    case True
    obtain o1 p1 where w: "pipe_write (drop written bs) p = (o1, p1)" by fastforce
    consider e where "o1 = Inl e" | "o1 = Inr 0" | n where "o1 = Inr (Suc n)"
      by (metis not0_implies_Suc sum.exhaust)
    then show ?thesis
    proof cases
      case 1
      then show ?thesis
        using "1.prems"(2) w True pipe_write_wire(2) [of "drop written bs" p _ p1]
        by (subst (asm) pipe_send_from.simps) (auto simp: pdu_failed_def split: if_splits)
    next
      case 2
      then show ?thesis
        using "1.prems"(2) w True by (subst (asm) pipe_send_from.simps) auto
    next
      case (3 n)
      have "pipe_send_from written bs p = pipe_send_from (written + Suc n) bs p1"
        using w 3 True by (subst pipe_send_from.simps) simp
      moreover have "written + Suc n \<le> length bs"
        using pipe_write_bound [of "drop written bs" p "Suc n" p1] w 3 True by simp
      moreover have "bp_wire p1 @ drop (written + Suc n) bs = bp_wire p @ drop written bs"
        using pipe_write_wire(1) [of "drop written bs" p "Suc n" p1] w 3
        by (metis append.assoc append_take_drop_id drop_drop add.commute)
      ultimately show ?thesis
        using "1.IH" [OF True w [symmetric] 3] "1.prems"(2) by auto
    qed
  qed
qed

lemma pipe_send_wire:
  "pipe_send bs p = (Inr u, p') \<Longrightarrow> bp_wire p' = bp_wire p @ bs"
  "pipe_send bs p = (Inl e, p') \<Longrightarrow> radio_kind e = BTimeout \<Longrightarrow> bp_wire p' = bp_wire p"
  using pipe_send_from_wire [of 0 bs p _ p'] by (auto simp: pipe_send_def)

interpretation weave_out: pdu_writer "weave_write_pdu pending" "\<lambda>s. bp_wire (snd (snd s))" "\<lambda>pdu. pdu"
  by unfold_locales
    (auto simp: weave_write_pdu_def Let_def split: prod.splits sum.splits if_splits dest: pipe_send_wire(1))

lemma write_pdus_timeout:
  assumes "write_pdus (weave_write_pdu pending) pdus (sp, sd, p) = (Inl e, sp', sd', p')"
    "radio_kind e = BTimeout" "\<not> pending \<or> sp"
  shows "\<not> sd \<and> bp_wire p' = bp_wire p"
  using assms
proof (cases pdus)
  case (Cons pdu rest)
  obtain r p1 where w: "pipe_send pdu p = (r, p1)" by fastforce
  show ?thesis
  proof (cases r)
    case (Inl e1)
    then show ?thesis
      using assms w Cons pipe_send_wire(2) [of pdu p]
      by (auto simp: weave_write_pdu_def split: if_splits)
  next
    case (Inr u)
    have "False" if "write_pdus (weave_write_pdu pending) pdus' (True, True, q) = (Inl e, sp', sd', p')"
      for pdus' q
      using that assms(2)
      by (induction pdus' arbitrary: q)
        (auto simp: weave_write_pdu_def Let_def split: prod.splits sum.splits if_splits)
    then show ?thesis
      using assms w Cons Inr by (auto simp: weave_write_pdu_def Let_def)
  qed
qed simp

lemma write_weave_timed_out:
  assumes "write_weave p requested bs = (Inl ITimedOut, requested', p')"
  shows "(requested \<longrightarrow> requested') \<and>
    bp_wire p' = bp_wire p @ (if requested' \<and> \<not> requested then encode_request else [])"
proof -
  obtain e sp sd where e: "radio_kind e = BTimeout"
    and s: "send_data (weave_write_pdu (\<not> requested)) bs requested (False, False, p) = (Inl e, requested', sp, sd, p')"
    using assms by (auto simp: write_weave_def write_result_def split: prod.splits sum.splits if_splits)
  show ?thesis
  proof (cases requested)
    case True
    then show ?thesis
      using s write_pdus_timeout [OF _ e, where pending = False and p = p] by (auto simp: send_data_def split: prod.splits)
  next
    case False
    obtain r p1 where w: "pipe_send encode_request p = (r, p1)" by fastforce
    show ?thesis
    proof (cases r)
      case (Inl e1)
      then show ?thesis
        using s w False e pipe_send_wire(2) [of encode_request p]
        by (auto simp: send_data_def weave_write_pdu_def)
    next
      case (Inr u)
      then show ?thesis
        using s w False pipe_send_wire(1) [of encode_request p]
          write_pdus_timeout [OF _ e, where pending = True and p = p1]
        by (auto simp: send_data_def weave_write_pdu_def split: prod.splits)
    qed
  qed
qed

lemma write_weave_done:
  assumes "write_weave p requested bs = (Inr n, requested', p')"
  shows "n = length bs \<and> requested' \<and> bp_wire p' =
    bp_wire p @ (if requested then [] else encode_request) @ concat (encode_data bs (MAX_PACKET - 1))"
  using assms weave_out.send_data_appends [of "\<not> requested" bs requested "(False, False, p)"]
  by (auto simp: write_weave_def write_result_def split: prod.splits sum.splits if_splits)

text \<open>
  The retries of \<open>DeadlineWriter\<close> as they reach the stream: \<open>write\<close> is called again with the same
  bytes as long as it reports \<open>TimedOut\<close>, at most \<open>n\<close> times here.
\<close>

fun write_retrying :: "nat \<Rightarrow> bytes \<Rightarrow> bluetooth_io \<Rightarrow> (io_kind + nat) \<times> bluetooth_io" where
  "write_retrying 0 bs io = (Inl ITimedOut, io)"
| "write_retrying (Suc n) bs io =
     (case bt_write bs io of
        (Inl ITimedOut, io) \<Rightarrow> write_retrying n bs io
      | (r, io) \<Rightarrow> (r, io))"

definition bt_wire :: "bluetooth_io \<Rightarrow> bytes" where
  "bt_wire io = bp_wire (inner_pipe (bt_inner io))"

text \<open>What the wire looks like once \<open>n\<close> bytes of \<open>bs\<close> have been accepted.\<close>

definition bt_image :: "bluetooth_io \<Rightarrow> nat \<Rightarrow> bytes \<Rightarrow> bytes" where
  "bt_image io n bs =
     (case bt_inner io of
        Raw _ _ _ \<Rightarrow> take n bs
      | Weave _ _ _ requested \<Rightarrow>
          (if requested then [] else encode_request) @ concat (encode_data bs (MAX_PACKET - 1)))"

lemma bt_write_done:
  assumes "bt_write bs io = (Inr n, io')"
  shows "n \<le> length bs \<and> bt_wire io' = bt_wire io @ bt_image io n bs"
  using assms
  by (auto simp: bt_write_def bt_wire_def bt_image_def inner_pipe_def write_result_def
      split: io_inner.splits prod.splits sum.splits if_splits
      dest!: write_weave_done pipe_write_done)

lemma bt_write_timed_out:
  assumes "bt_write bs io = (Inl ITimedOut, io')"
  shows "bt_wire io' @ bt_image io' n bs = bt_wire io @ bt_image io n bs"
  using assms
  by (auto simp: bt_write_def bt_wire_def bt_image_def inner_pipe_def write_result_def
      split: io_inner.splits prod.splits sum.splits if_splits
      dest!: write_weave_timed_out pipe_write_wire(2))

text \<open>
  C35. A retried Bluetooth write is sent once. However often a write is repeated because it timed
  out, a success in the end means that the wire carries the accepted bytes exactly once: on a raw
  socket the accepted prefix, on GATT the framed payload, behind one connection request when none
  had been sent. A timeout is never reported once part of a payload is on the wire.
\<close>

theorem bluetooth_write_once:
  assumes "write_retrying n bs io = (Inr k, io')"
  shows "k \<le> length bs \<and> bt_wire io' = bt_wire io @ bt_image io k bs"
  using assms
proof (induction n bs io rule: write_retrying.induct)
  case (2 n bs io)
  obtain r io1 where w: "bt_write bs io = (r, io1)" by fastforce
  show ?case
  proof (cases "r = Inl ITimedOut")
    case True
    then show ?thesis using "2.IH" [OF w [symmetric] True] "2.prems" w bt_write_timed_out [of bs io io1 k] by simp
  next
    case False
    then have "bt_write bs io = (Inr k, io')" using "2.prems" w by (auto split: sum.splits io_kind.splits)
    then show ?thesis by (rule bt_write_done)
  qed
qed simp

text \<open>A GATT stream whose first data packet meets the deadline, so that the write is repeated.\<close>

definition ex_accept :: "nat \<Rightarrow> write_ob" where
  "ex_accept n = \<lparr>wo_expired = False, wo_set_timeout = None, wo_result = Inr n,
     wo_expired_after = False, wo_wait = None\<rparr>"

definition ex_gatt :: bluetooth_io where
  "ex_gatt = bt_weave \<lparr>bp_reads = [], bp_ready = Inr False, bp_deadline = True,
     bp_obs = [ex_accept 7, (ex_accept 0)\<lparr>wo_expired := True\<rparr>, ex_accept 2, ex_accept 9],
     bp_wire = [], bp_shutdown = None\<rparr>"

theorem bluetooth_write_once_witness:
  "bt_wire (snd (write_retrying 2 [1, 2] ex_gatt)) = encode_request @ 0x0C # DATA_HASH @ [1, 2]"
proof -
  have "fst (write_retrying 2 [1, 2] ex_gatt) = Inr 2"
    by (simp add: numeral_2_eq_2 ex_gatt_def bt_weave_def bt_write_def write_weave_def send_data_def
        weave_write_pdu_def pipe_send_def pipe_send_from.simps pipe_write_def ex_accept_def
        encode_request_def u16_to_be_bytes_def weave_consts encode_data_def fragment_def
        fragment_loop.simps pipe_flush_def write_result_def)
  then obtain io' where w: "write_retrying 2 [1, 2] ex_gatt = (Inr 2, io')" by (cases "write_retrying 2 [1, 2] ex_gatt") simp
  show ?thesis
    using bluetooth_write_once [OF w] w
    by (simp add: bt_wire_def bt_image_def ex_gatt_def bt_weave_def inner_pipe_def encode_data_def
        fragment_def fragment_loop.simps weave_consts data_header_def)
qed

subsection \<open>What is read\<close>

lemma recv_loop_suffix:
  "recv_loop put a reads s = (r, a', reads', s') \<Longrightarrow> \<exists>pre. reads = pre @ reads'"
proof (induction reads arbitrary: a s)
  case Nil
  then show ?case by (subst (asm) recv_loop.simps) (simp add: read_next_pdu_def)
next
  case (Cons o1 rest)
  have "reads' = rest \<or> (\<exists>pre. rest = pre @ reads')"
    using Cons.prems
    by (subst (asm) recv_loop.simps)
      (auto simp: read_next_pdu_def dest: Cons.IH
        split: sum.splits packet.splits prod.splits option.splits if_splits)
  then show ?case by (metis append_Cons append_Nil)
qed

lemma recv_on_message:
  assumes "bp_reads p = map Inr ws" "\<forall>w \<in> set ws. 0 < length w \<and> length w \<le> PIPE_BUFFER"
    and "substance ws = encode_data m (MAX_PACKET - 1) @ left"
  shows "\<exists>ws'. substance ws' = left \<and> set ws' \<subseteq> set ws \<and>
    recv_on True assembler_new p = (Inr m, assembler_new, p\<lparr>bp_reads := map Inr ws'\<rparr>)"
proof -
  have reads: "map recv_result (bp_reads p) = map Inr ws"
    using assms(1,2) by (simp add: recv_result_def)
  obtain ws' where ws': "substance ws' = left"
    "recv_loop pipe_send assembler_new (map Inr ws) p = (Inr m, assembler_new, map Inr ws', p)"
    using recv_message [OF assms(3), where put = pipe_send and rest = "[]" and s = p] by auto
  from recv_loop_suffix [OF ws'(2)] obtain pre where pre: "ws = pre @ ws'"
    by (metis (no_types, lifting) append_eq_map_conv inj_map_eq_map inj_Inr map_injective)
  then have "drop (length (bp_reads p) - length ws') (bp_reads p) = map Inr ws'"
    using assms(1) by simp
  then show ?thesis
    using ws' pre reads by (intro exI [of _ ws']) (auto simp: recv_on_def recv_data_def)
qed

text \<open>
  The bytes a GATT stream still holds for its reader: the leftover of the last message and the
  messages whose packets the descriptor has yet to deliver, none of which is empty.
\<close>

definition weave_carries :: "bluetooth_io \<Rightarrow> bytes \<Rightarrow> bool" where
  "weave_carries io pending \<longleftrightarrow>
     (\<exists>p leftover requested ws ms. bt_inner io = Weave p assembler_new leftover requested \<and>
        bp_reads p = map Inr ws \<and> (\<forall>w \<in> set ws. 0 < length w \<and> length w \<le> PIPE_BUFFER) \<and>
        substance ws = transcript True ms \<and> [] \<notin> set ms \<and> pending = leftover @ concat ms)"

text \<open>
  Reading a GATT stream makes progress and loses nothing. While bytes are pending, a read into
  a buffer with room returns some of them, at most what fits, and exactly the first ones; what
  remains is pending afterwards. So no boundary of a packet, of a message or of a buffer is visible
  to the connection layer, and a read that returns nothing means the end.
\<close>

theorem weave_read_progress:
  assumes "weave_carries io pending" "pending \<noteq> []" "0 < room"
  shows "\<exists>bs rest io'. bt_read True room io = (Inr bs, io') \<and> bs \<noteq> [] \<and> length bs \<le> room \<and>
    pending = bs @ rest \<and> weave_carries io' rest"
proof -
  obtain p leftover requested ws ms where io: "bt_inner io = Weave p assembler_new leftover requested"
    and reads: "bp_reads p = map Inr ws" "\<forall>w \<in> set ws. 0 < length w \<and> length w \<le> PIPE_BUFFER"
    and ms: "substance ws = transcript True ms" "[] \<notin> set ms" and pending: "pending = leftover @ concat ms"
    using assms(1) by (auto simp: weave_carries_def)
  let ?io = "\<lambda>p lo. io\<lparr>bt_inner := Weave p assembler_new lo requested\<rparr>"
  have served: "\<exists>bs rest. Inr (take (min (length lo) room) lo) = Inr bs \<and> bs \<noteq> [] \<and> length bs \<le> room \<and>
      lo @ concat ms' = bs @ rest \<and> weave_carries (?io q (drop (min (length lo) room) lo)) rest"
    if "lo \<noteq> []" "bp_reads q = map Inr ws'" "set ws' \<subseteq> set ws" "substance ws' = transcript True ms'"
      "[] \<notin> set ms'" for lo q ws' ms'
    using that reads(2) assms(3)
    by (intro exI [of _ "take (min (length lo) room) lo"] exI [of _ "drop (min (length lo) room) lo @ concat ms'"])
      (auto simp: weave_carries_def)
  show ?thesis
  proof (cases "leftover = []")
    case False
    then have "bt_read True room io =
        (Inr (take (min (length leftover) room) leftover), ?io p (drop (min (length leftover) room) leftover))"
      using io by (simp add: bt_read_def read_weave_def read_buffered_def Let_def)
    then show ?thesis using served [OF False reads(1) subset_refl ms] pending by auto
  next
    case True
    then obtain m ms' where m: "ms = m # ms'" using assms(2) pending by (cases ms) auto
    have "substance ws = encode_data m (MAX_PACKET - 1) @ transcript True ms'"
      using ms(1) m by (simp add: transcript_def)
    from recv_on_message [OF reads this] obtain ws' where ws': "substance ws' = transcript True ms'" "set ws' \<subseteq> set ws"
      "recv_on True assembler_new p = (Inr m, assembler_new, p\<lparr>bp_reads := map Inr ws'\<rparr>)" by blast
    have "bt_read True room io = (Inr (take (min (length m) room) m),
        ?io (p\<lparr>bp_reads := map Inr ws'\<rparr>) (drop (min (length m) room) m))"
      using io True ws'(3) by (simp add: bt_read_def read_weave_def read_buffered_def Let_def read_result_def)
    then show ?thesis
      using served [of m "p\<lparr>bp_reads := map Inr ws'\<rparr>" ws' ms'] ws' ms(2) m pending True by auto
  qed
qed

definition ex_holding :: bluetooth_io where
  "ex_holding = bt_weave \<lparr>bp_reads = [Inr encode_confirm, Inr (0x0C # DATA_HASH @ [1, 2, 3])], bp_ready = Inr True,
     bp_deadline = False, bp_obs = [], bp_wire = [], bp_shutdown = None\<rparr>"

lemma ex_holding_carries: "weave_carries ex_holding [1, 2, 3]"
proof -
  let ?ws = "[encode_confirm, 0x0C # DATA_HASH @ [1, 2, 3]]"
  have "substance ?ws = transcript True [[1, 2, 3]]"
    by (simp add: substance_def ignored_def transcript_def encode_data_def fragment_def
        fragment_loop.simps weave_consts data_header_def decode_pdu.simps)
  moreover have "\<forall>w \<in> set ?ws. 0 < length w \<and> length w \<le> PIPE_BUFFER"
    by (simp add: encode_confirm_def u16_to_be_bytes_def PIPE_BUFFER_def weave_consts)
  moreover have "bp_reads (weave_pipe (bt_inner ex_holding)) = map Inr ?ws"
    by (simp add: ex_holding_def bt_weave_def)
  ultimately show ?thesis
    unfolding weave_carries_def
    by (intro exI [of _ "weave_pipe (bt_inner ex_holding)"] exI [of _ "[]"] exI [of _ False]
        exI [of _ ?ws] exI [of _ "[[1, 2, 3]]"]) (simp add: ex_holding_def bt_weave_def)
qed

theorem weave_read_progress_witness:
  "\<exists>bs rest io'. bt_read True 2 ex_holding = (Inr bs, io') \<and> bs \<noteq> [] \<and> length bs \<le> 2 \<and>
     [1, 2, 3] = bs @ rest \<and> weave_carries io' rest"
  using weave_read_progress [OF ex_holding_carries, of 2] by simp

subsection \<open>A read that times out\<close>

text \<open>
  C40. A Bluetooth read that times out is not retried. \<open>read_result\<close> turns the timeout of the
  descriptor into an error of kind \<open>Other\<close>, on raw and on GATT streams alike, while a write that
  times out keeps the kind \<open>TimedOut\<close>. The deadline loop of the connection layer, which shortens
  the timeout of a cancellable read to its polling interval, retries only \<open>TimedOut\<close> and
  \<open>WouldBlock\<close>: it therefore fails at the first poll that finds no data, however far away the
  deadline of the operation is.
\<close>

theorem bluetooth_read_timeout_fatal:
  assumes "is_timeout k" "bp_reads p = Inl (k, t) # rs"
    and "ob_now ob < d" "\<not> (c \<and> ob_cancelled ob)" "ob_set_timeout ob = None"
    and "io \<in> {bt_classic p, bt_l2cap p, bt_weave p}"
    and "ob_result ob = map_sum id length (fst (bt_read True room io))"
  shows "fst (bt_read True room io) = Inl IOther \<and>
    deadline_read (Some d) c (ob # obs) = Some (Inl IOther)"
proof -
  have "fst (bt_read True room io) = Inl IOther"
    using assms(1,2,6)
    by (auto simp: bt_read_def bt_classic_def bt_l2cap_def bt_weave_def read_buffered_def pipe_recv_def
        recv_result_def io_error_def read_result_def read_weave_def recv_on_def recv_data_def
        recv_loop.simps [of _ _ "Inl error_timeout # _"] read_next_pdu_def assembler_new_def split: prod.splits)
  then show ?thesis
    using assms(3-5,7) by (auto simp: operation_timeout_def retry_timeout_def poll_timeout_def split: option.splits)
qed

definition ex_quiet :: bluetooth_io where
  "ex_quiet = bt_classic \<lparr>bp_reads = [Inl (IWouldBlock, ''resource temporarily unavailable'')], bp_ready = Inr False,
     bp_deadline = False, bp_obs = [], bp_wire = [], bp_shutdown = None\<rparr>"

theorem bluetooth_read_timeout_fatal_witness:
  "deadline_read (Some 60000000000) True
     [\<lparr>ob_cancelled = False, ob_now = 0, ob_set_timeout = None, ob_result = Inl IOther, ob_after = 100000000\<rparr>] =
   Some (Inl IOther)"
proof -
  have "fst (bt_read True 1 ex_quiet) = Inl IOther"
    by (simp add: ex_quiet_def bt_classic_def bt_read_def read_buffered_def pipe_recv_def recv_result_def
        io_error_def is_timeout_def read_result_def)
  then show ?thesis
    using bluetooth_read_timeout_fatal [where k = IWouldBlock and t = "''resource temporarily unavailable''"
        and rs = "[]" and p = "raw_pipe (bt_inner ex_quiet)" and io = ex_quiet and room = 1 and c = True
        and d = 60000000000 and obs = "[]" and
        ob = "\<lparr>ob_cancelled = False, ob_now = 0, ob_set_timeout = None, ob_result = Inl IOther, ob_after = 100000000\<rparr>"]
    by (simp add: is_timeout_def ex_quiet_def bt_classic_def)
qed

end
