(* ===== verification/Daemon_Visibility.thy ===== *)
theory Daemon_Visibility
  imports Sharing_State "HOL-Library.Monad_Syntax" "HOL-Library.Multiset"
begin

text \<open>
  Inbound permission of the daemon: the shared visibility state
  (\<open>crates/app/src/daemon/visibility.rs\<close>), the leases it owns (\<open>visibility/resources.rs\<close>,
  \<open>VisibilityLeases\<close> of \<open>media/connection.rs\<close>) and the consent of one offer
  (\<open>visibility/consent.rs\<close>). Times are nanoseconds of the boot clock.

  \<^item> A consent lives behind an \<open>Arc\<close>: it is a cell of a store, which a \<open>Weak\<close> pointer finds only
    while it is alive.
  \<^item> A method of \<open>Visibility\<close> is a section under the mutex, which yields the leases to be closed
    after the lock is released, and then their release. Other threads may run in between.
  \<^item> \<open>None\<close> is the panic on generation exhaustion (for \<open>admit\<close> also the call on a dead consent,
    which the \<open>Arc\<close> of the caller excludes).
\<close>

subsection \<open>Durations\<close>

definition NANOS :: nat where "NANOS = 1000000000"
definition DURATION_MAX :: nat where "DURATION_MAX = u64_max * NANOS + (NANOS - 1)"

definition duration_saturating_add :: "nat \<Rightarrow> nat \<Rightarrow> nat" where
  "duration_saturating_add a b = min (a + b) DURATION_MAX"

definition TEMPORARY_LIFETIME :: nat where "TEMPORARY_LIFETIME = 600 * NANOS"

subsection \<open>Leases\<close>

text \<open>A lease is an identifier; stopping the LAN listener may fail with a message.\<close>

record lan_listener =
  ll_lease :: nat
  ll_stop :: "rstring option"

record visibility_leases =
  vl_advertisement :: "nat option"
  vl_classic :: "nat option"
  vl_gatt :: "nat option"
  vl_l2cap :: "nat option"

record resources =
  res_lan :: "lan_listener option"
  res_bluetooth :: visibility_leases

definition leases_default :: visibility_leases where
  "leases_default = \<lparr>vl_advertisement = None, vl_classic = None, vl_gatt = None, vl_l2cap = None\<rparr>"

definition resources_new :: "lan_listener option \<Rightarrow> visibility_leases \<Rightarrow> resources" where
  "resources_new lan bluetooth = \<lparr>res_lan = lan, res_bluetooth = bluetooth\<rparr>"

definition resources_default :: resources where
  "resources_default = resources_new None leases_default"

definition text_ble :: rstring where "text_ble = [98, 108, 101]"
definition text_bluetooth :: rstring where
  "text_bluetooth = [98, 108, 117, 101, 116, 111, 111, 116, 104]"
definition text_wifi_lan :: rstring where
  "text_wifi_lan = [119, 105, 102, 105, 95, 108, 97, 110]"

definition leases_media :: "visibility_leases \<Rightarrow> rstring list" where
  "leases_media l =
     (if vl_advertisement l \<noteq> None \<and> vl_gatt l \<noteq> None then [text_ble] else []) @
     (if vl_classic l \<noteq> None then [text_bluetooth] else [])"

definition resources_media :: "resources \<Rightarrow> rstring list" where
  "resources_media r = (if res_lan r \<noteq> None then [text_wifi_lan] else []) @ leases_media (res_bluetooth r)"

definition option_list :: "'a option \<Rightarrow> 'a list" where
  "option_list x = (case x of None \<Rightarrow> [] | Some v \<Rightarrow> [v])"

definition leases_close :: "visibility_leases \<Rightarrow> nat list" where
  "leases_close l =
     option_list (vl_advertisement l) @ option_list (vl_classic l) @ option_list (vl_gatt l) @
     option_list (vl_l2cap l)"

text \<open>\<open>close\<close>: the error of stopping the listener, and the leases that are gone afterwards.\<close>

definition resources_close :: "resources \<Rightarrow> rstring option \<times> nat list" where
  "resources_close r =
     (case res_lan r of
        None \<Rightarrow> (None, leases_close (res_bluetooth r))
      | Some l \<Rightarrow> (ll_stop l, ll_lease l # leases_close (res_bluetooth r)))"

text \<open>
  \<open>open_visibility\<close>: the leases BlueZ granted. Without both the advertisement and the GATT server
  neither is kept; the leases given up are the second component.
\<close>

definition open_visibility :: "(nat option \<times> nat option \<times> nat option \<times> nat option) option \<Rightarrow> visibility_leases \<times> nat list" where
  "open_visibility adapter =
     (case adapter of
        None \<Rightarrow> (leases_default, [])
      | Some (advertisement, classic, gatt, l2cap) \<Rightarrow>
          if advertisement = None \<or> gatt = None
          then (\<lparr>vl_advertisement = None, vl_classic = classic, vl_gatt = None, vl_l2cap = l2cap\<rparr>,
                option_list advertisement @ option_list gatt)
          else (\<lparr>vl_advertisement = advertisement, vl_classic = classic, vl_gatt = gatt, vl_l2cap = l2cap\<rparr>, []))"

subsection \<open>The consent of one offer\<close>

datatype consent_outcome =
    COffered | CPending | CAccepted nat | CRejected nat | CCancelled | CTimedOut | CFailed rstring

record pending_consent =
  pc_generation :: nat
  pc_deadline :: nat
  pc_outcome :: consent_outcome
  pc_share_id :: "nat option"

definition consent_new :: "nat \<Rightarrow> nat \<Rightarrow> nat \<Rightarrow> pending_consent" where
  "consent_new generation now timeout =
     \<lparr>pc_generation = generation, pc_deadline = duration_saturating_add now timeout,
      pc_outcome = COffered, pc_share_id = None\<rparr>"

definition undecided :: "consent_outcome \<Rightarrow> bool" where
  "undecided out \<longleftrightarrow> out = COffered \<or> out = CPending"

definition decision :: "nat \<Rightarrow> pending_consent \<Rightarrow> pending_consent" where
  "decision now c =
     (if undecided (pc_outcome c) \<and> pc_deadline c \<le> now then c\<lparr>pc_outcome := CTimedOut\<rparr> else c)"

definition consent_admit :: "nat \<Rightarrow> pending_consent \<Rightarrow> bool \<times> pending_consent" where
  "consent_admit now c =
     (let c = decision now c
      in if pc_outcome c \<noteq> COffered then (False, c) else (True, c\<lparr>pc_outcome := CPending\<rparr>))"

definition consent_bind :: "nat \<Rightarrow> nat \<Rightarrow> pending_consent \<Rightarrow> pending_consent" where
  "consent_bind now share_id c = (decision now c)\<lparr>pc_share_id := Some share_id\<rparr>"

definition consent_share_id :: "nat \<Rightarrow> pending_consent \<Rightarrow> nat option \<times> pending_consent" where
  "consent_share_id now c = (let c = decision now c in (pc_share_id c, c))"

definition read_outcome :: "nat \<Rightarrow> pending_consent \<Rightarrow> consent_outcome \<times> pending_consent" where
  "read_outcome now c = (let c = decision now c in (pc_outcome c, c))"

definition consent_accept :: "nat \<Rightarrow> nat \<Rightarrow> pending_consent \<Rightarrow> bool \<times> pending_consent" where
  "consent_accept now share_id c =
     (let c = decision now c
      in if pc_outcome c \<noteq> CPending \<or> pc_share_id c \<noteq> Some share_id then (False, c)
         else (True, c\<lparr>pc_outcome := CAccepted share_id\<rparr>))"

definition consent_reject :: "nat \<Rightarrow> nat \<Rightarrow> pending_consent \<Rightarrow> bool \<times> pending_consent" where
  "consent_reject now share_id c =
     (let c = decision now c
      in if \<not> undecided (pc_outcome c) then (False, c)
         else (True, c\<lparr>pc_outcome := CRejected share_id\<rparr>))"

definition cancel_unadmitted :: "nat \<Rightarrow> pending_consent \<Rightarrow> pending_consent" where
  "cancel_unadmitted now c =
     (let c = decision now c in if pc_outcome c = COffered then c\<lparr>pc_outcome := CCancelled\<rparr> else c)"

definition consent_fail :: "nat \<Rightarrow> rstring \<Rightarrow> pending_consent \<Rightarrow> pending_consent" where
  "consent_fail now why c =
     (let c = decision now c in if undecided (pc_outcome c) then c\<lparr>pc_outcome := CFailed why\<rparr> else c)"

definition consent_cancel :: "nat \<Rightarrow> pending_consent \<Rightarrow> pending_consent" where
  "consent_cancel now c =
     (let c = decision now c in if undecided (pc_outcome c) then c\<lparr>pc_outcome := CCancelled\<rparr> else c)"

subsection \<open>Visibility\<close>

type_synonym consent_store = "nat \<Rightarrow> pending_consent option"

record vis_state =
  vs_generation :: nat
  vs_policy :: bool
  vs_requested :: bool
  vs_phase :: visibility_state
  vs_deadline :: "nat option"
  vs_resources :: "resources option"
  vs_media :: "rstring list"
  vs_error :: "rstring option"
  vs_pending :: "nat option"

definition vis_default :: vis_state where
  "vis_default =
     \<lparr>vs_generation = 0, vs_policy = False, vs_requested = False, vs_phase = VClosed, vs_deadline = None,
      vs_resources = None, vs_media = [], vs_error = None, vs_pending = None\<rparr>"

text \<open>\<open>Weak::upgrade\<close>\<close>

definition upgrade :: "nat option \<Rightarrow> consent_store \<Rightarrow> (nat \<times> pending_consent) option" where
  "upgrade w cs = do { a \<leftarrow> w; c \<leftarrow> cs a; Some (a, c) }"

text \<open>\<open>State::revoke\<close>, with the time at which the consent reads its clock.\<close>

definition revoke ::
  "nat \<Rightarrow> bool \<Rightarrow> vis_state \<Rightarrow> consent_store \<Rightarrow> (resources option \<times> vis_state \<times> consent_store) option" where
  "revoke now explicit st cs =
     do { g \<leftarrow> checked_add_u64 (vs_generation st) 1;
          let cs = (if explicit then (case upgrade (vs_pending st) cs of
                      None \<Rightarrow> cs | Some (a, c) \<Rightarrow> cs(a \<mapsto> consent_cancel now c)) else cs);
          Some (vs_resources st,
            st\<lparr>vs_generation := g, vs_requested := False, vs_phase := VClosed, vs_deadline := None,
               vs_media := [], vs_error := None, vs_resources := None\<rparr>, cs) }"

definition vis_request :: "vis_state \<Rightarrow> (nat option \<times> vis_state) option" where
  "vis_request st =
     (if vs_requested st then Some (None, st)
      else do { g \<leftarrow> checked_add_u64 (vs_generation st) 1;
                Some (Some g, st\<lparr>vs_generation := g, vs_requested := True, vs_phase := VStarting,
                  vs_deadline := None, vs_error := None\<rparr>) })"

type_synonym core = "vis_state \<times> consent_store"
type_synonym jobs = "(resources \<times> nat) list"

definition released_jobs :: "resources option \<Rightarrow> nat \<Rightarrow> jobs" where
  "released_jobs r generation = map (\<lambda>r. (r, generation)) (option_list r)"

text \<open>
  The locked section of \<open>update\<close>: passive expiry first, then the action. The leases of an expired
  visibility are released after the lock, with the generation at its end.
\<close>

definition update :: "nat \<Rightarrow> (core \<Rightarrow> ('a \<times> core) option) \<Rightarrow> core \<Rightarrow> ('a \<times> jobs \<times> core) option" where
  "update now act core =
     (case core of (st, cs) \<Rightarrow>
        do { (expired, st, cs) \<leftarrow>
               (case vs_deadline st of
                  Some d \<Rightarrow> if d \<le> now then revoke now False st cs else Some (None, st, cs)
                | None \<Rightarrow> Some (None, st, cs));
             (x, st, cs) \<leftarrow> act (st, cs);
             Some (x, released_jobs expired (vs_generation st), st, cs) })"

text \<open>\<open>release\<close>: closes the leases; a failure is recorded unless the state has moved on.\<close>

definition release :: "resources \<times> nat \<Rightarrow> vis_state \<Rightarrow> vis_state \<times> nat list" where
  "release job st =
     (case resources_close (fst job) of
        (None, closed) \<Rightarrow> (st, closed)
      | (Some e, closed) \<Rightarrow>
          (if vs_generation st = snd job then st\<lparr>vs_error := Some e\<rparr> else st, closed))"

text \<open>
  The methods. Each is its locked section; the jobs are what the method releases after the lock.
  Where a section consults a consent, \<open>t\<close> is the time that consent reads.
\<close>

definition open_action :: "core \<Rightarrow> (nat option \<times> core) option" where
  "open_action core = (case core of (st, cs) \<Rightarrow> do { (r, st) \<leftarrow> vis_request st; Some (r, st, cs) })"

definition request_open :: "nat \<Rightarrow> core \<Rightarrow> (nat option \<times> jobs \<times> core) option" where
  "request_open now = update now open_action"

definition policy_action ::
  "nat \<Rightarrow> bool \<Rightarrow> core \<Rightarrow> ((nat option \<times> resources option \<times> nat) \<times> core) option" where
  "policy_action t policy core =
     (case core of (st, cs) \<Rightarrow>
        if vs_policy st = policy then Some ((None, None, vs_generation st), st, cs)
        else if policy then
          do { (r, st) \<leftarrow> vis_request (st\<lparr>vs_policy := True, vs_deadline := None\<rparr>);
               Some ((r, None, vs_generation st), st, cs) }
        else
          do { (released, st, cs) \<leftarrow> revoke t True (st\<lparr>vs_policy := False\<rparr>) cs;
               Some ((None, released, vs_generation st), st, cs) })"

definition set_policy :: "nat \<Rightarrow> nat \<Rightarrow> bool \<Rightarrow> core \<Rightarrow> (nat option \<times> jobs \<times> core) option" where
  "set_policy now t policy core =
     do { ((activation, released, generation), jobs, core) \<leftarrow> update now (policy_action t policy) core;
          Some (activation, jobs @ released_jobs released generation, core) }"

definition close_action :: "nat \<Rightarrow> core \<Rightarrow> ((resources option \<times> nat) \<times> core) option" where
  "close_action t core =
     (case core of (st, cs) \<Rightarrow>
        do { (released, st, cs) \<leftarrow> revoke t True st cs; Some ((released, vs_generation st), st, cs) })"

definition close :: "nat \<Rightarrow> nat \<Rightarrow> core \<Rightarrow> (unit \<times> jobs \<times> core) option" where
  "close now t core =
     do { ((released, generation), jobs, core) \<leftarrow> update now (close_action t) core;
          Some ((), jobs @ released_jobs released generation, core) }"

definition complete_action ::
  "nat \<Rightarrow> nat \<Rightarrow> rstring + resources \<Rightarrow> core \<Rightarrow> (resources option \<times> core) option" where
  "complete_action now generation result core =
     (case core of (st, cs) \<Rightarrow>
        if vs_generation st \<noteq> generation \<or> \<not> vs_requested st \<or> vs_phase st \<noteq> VStarting
        then Some (case result of Inl _ \<Rightarrow> None | Inr r \<Rightarrow> Some r, st, cs)
        else case result of
          Inr r \<Rightarrow>
            Some (None, st\<lparr>vs_media := resources_media r, vs_resources := Some r, vs_phase := VOpen,
              vs_deadline := (if vs_policy st then None
                else Some (duration_saturating_add now TEMPORARY_LIFETIME))\<rparr>, cs)
        | Inl e \<Rightarrow>
            Some (None, st\<lparr>vs_requested := False, vs_phase := VUnavailable, vs_error := Some e\<rparr>, cs))"

definition complete_activation ::
  "nat \<Rightarrow> nat \<Rightarrow> rstring + resources \<Rightarrow> core \<Rightarrow> (unit \<times> jobs \<times> core) option" where
  "complete_activation now generation result core =
     do { (unused, jobs, core) \<leftarrow> update now (complete_action now generation result) core;
          Some ((), jobs @ released_jobs unused generation, core) }"

definition peek :: "(vis_state \<Rightarrow> 'a) \<Rightarrow> core \<Rightarrow> ('a \<times> core) option" where
  "peek f core = Some (f (fst core), core)"

definition activation_requested :: "nat \<Rightarrow> nat \<Rightarrow> core \<Rightarrow> (bool \<times> jobs \<times> core) option" where
  "activation_requested now generation = update now (peek (\<lambda>st.
     vs_generation st = generation \<and> vs_requested st \<and> vs_phase st = VStarting))"

definition admissible :: "vis_state \<Rightarrow> bool" where
  "admissible st \<longleftrightarrow> vs_phase st = VOpen \<and> vs_requested st"

definition generation_if_open :: "nat \<Rightarrow> core \<Rightarrow> (nat option \<times> jobs \<times> core) option" where
  "generation_if_open now = update now (peek (\<lambda>st.
     if admissible st then Some (vs_generation st) else None))"

definition resources_action :: "(resources \<Rightarrow> 'a \<times> resources) \<Rightarrow> core \<Rightarrow> ('a option \<times> core) option" where
  "resources_action act core =
     (case core of (st, cs) \<Rightarrow>
        (case vs_resources st of
           None \<Rightarrow> Some (None, st, cs)
         | Some r \<Rightarrow> (case act r of (x, r) \<Rightarrow> Some (Some x, st\<lparr>vs_resources := Some r\<rparr>, cs))))"

definition with_resources ::
  "nat \<Rightarrow> (resources \<Rightarrow> 'a \<times> resources) \<Rightarrow> core \<Rightarrow> ('a option \<times> jobs \<times> core) option" where
  "with_resources now act = update now (resources_action act)"

text \<open>\<open>propose\<close> allocates the consent at the address \<open>a\<close>.\<close>

definition propose_action :: "nat \<Rightarrow> nat \<Rightarrow> nat \<Rightarrow> nat \<Rightarrow> core \<Rightarrow> (nat option \<times> core) option" where
  "propose_action t generation timeout a core =
     (case core of (st, cs) \<Rightarrow>
        if admissible st \<and> vs_generation st = generation
        then Some (Some a, st, cs(a \<mapsto> consent_new generation t timeout))
        else Some (None, st, cs))"

definition propose :: "nat \<Rightarrow> nat \<Rightarrow> nat \<Rightarrow> nat \<Rightarrow> nat \<Rightarrow> core \<Rightarrow> (nat option \<times> jobs \<times> core) option" where
  "propose now t generation timeout a = update now (propose_action t generation timeout a)"

definition engaged :: "consent_outcome \<Rightarrow> bool" where
  "engaged out \<longleftrightarrow> (case out of CPending \<Rightarrow> True | CAccepted _ \<Rightarrow> True | _ \<Rightarrow> False)"

text \<open>
  The prior consent is only consulted when nothing else bars the admission, and consulting it may
  time it out.
\<close>

definition admit_action :: "nat \<Rightarrow> nat \<Rightarrow> core \<Rightarrow> (bool \<times> core) option" where
  "admit_action t a core =
     (case core of (st, cs) \<Rightarrow>
        do { pending \<leftarrow> cs a;
             let barred = (\<not> admissible st \<or> vs_generation st \<noteq> pc_generation pending);
             let prior = (if barred then None else upgrade (vs_pending st) cs);
             let cs = (case prior of None \<Rightarrow> cs | Some (b, c) \<Rightarrow> cs(b \<mapsto> snd (read_outcome t c)));
             pending \<leftarrow> cs a;
             if barred \<or> (case prior of None \<Rightarrow> False | Some (b, c) \<Rightarrow> engaged (fst (read_outcome t c)))
             then Some (False, st, cs(a \<mapsto> snd (consent_reject t 0 pending)))
             else case consent_admit t pending of
               (False, c) \<Rightarrow> Some (False, st, cs(a \<mapsto> c))
             | (True, c) \<Rightarrow> Some (True, st\<lparr>vs_pending := Some a\<rparr>, cs(a \<mapsto> c)) })"

definition admit :: "nat \<Rightarrow> nat \<Rightarrow> nat \<Rightarrow> core \<Rightarrow> (bool \<times> jobs \<times> core) option" where
  "admit now t a = update now (admit_action t a)"

definition ceil_secs :: "nat \<Rightarrow> nat" where
  "ceil_secs d = d div NANOS + (if d mod NANOS \<noteq> 0 then 1 else 0)"

definition status :: "nat \<Rightarrow> core \<Rightarrow> ((visibility_state \<times> visibility_status) \<times> jobs \<times> core) option" where
  "status now = update now (peek (\<lambda>st. (vs_phase st,
     \<lparr>discoverable = vs_policy st, requested = vs_requested st,
      temporary = vs_requested st \<and> \<not> vs_policy st,
      remaining_secs = map_option (\<lambda>d. ceil_secs (d - now)) (vs_deadline st),
      available_media = vs_media st, v_error = vs_error st\<rparr>)))"

subsection \<open>Threads\<close>

text \<open>
  The calls any thread may make. The action of \<open>with_resources\<close> polls the listeners and leaves
  the leases as they are.
\<close>

datatype vis_op =
    RequestOpen | SetPolicy bool | Close | CompleteActivation nat "rstring + resources"
  | ActivationRequested nat | GenerationIfOpen | WithResources | Propose nat nat nat | Admit nat | Status

fun vis_section :: "vis_op \<Rightarrow> nat \<Rightarrow> nat \<Rightarrow> core \<Rightarrow> (jobs \<times> core) option" where
  "vis_section RequestOpen now t core = map_option snd (request_open now core)"
| "vis_section (SetPolicy b) now t core = map_option snd (set_policy now t b core)"
| "vis_section Close now t core = map_option snd (close now t core)"
| "vis_section (CompleteActivation g r) now t core = map_option snd (complete_activation now g r core)"
| "vis_section (ActivationRequested g) now t core = map_option snd (activation_requested now g core)"
| "vis_section GenerationIfOpen now t core = map_option snd (generation_if_open now core)"
| "vis_section WithResources now t core = map_option snd (with_resources now (\<lambda>r. ((), r)) core)"
| "vis_section (Propose g timeout a) now t core = map_option snd (propose now t g timeout a core)"
| "vis_section (Admit a) now t core = map_option snd (admit now t a core)"
| "vis_section Status now t core = map_option snd (status now core)"

datatype consent_op =
    CBind nat | CShareId | COutcome | CAccept nat | CReject nat | CCancelUnadmitted | CFail rstring | CCancel

fun consent_step :: "consent_op \<Rightarrow> nat \<Rightarrow> pending_consent \<Rightarrow> pending_consent" where
  "consent_step (CBind i) t c = consent_bind t i c"
| "consent_step CShareId t c = snd (consent_share_id t c)"
| "consent_step COutcome t c = snd (read_outcome t c)"
| "consent_step (CAccept i) t c = snd (consent_accept t i c)"
| "consent_step (CReject i) t c = snd (consent_reject t i c)"
| "consent_step CCancelUnadmitted t c = cancel_unadmitted t c"
| "consent_step (CFail why) t c = consent_fail t why c"
| "consent_step CCancel t c = consent_cancel t c"

text \<open>
  A world: the clock, the shared state, the releases some thread still has to make, and two
  histories, of the leases handed to \<open>complete_activation\<close> and of those closed.
\<close>

record world =
  w_now :: nat
  w_core :: core
  w_jobs :: jobs
  w_taken :: "nat list"
  w_closed :: "nat list"

definition lease_ids :: "resources \<Rightarrow> nat list" where
  "lease_ids r = snd (resources_close r)"

text \<open>What a call brings along: leases that nobody holds yet, a fresh address for a consent.\<close>

fun brought :: "vis_op \<Rightarrow> nat list" where
  "brought (CompleteActivation g (Inr r)) = lease_ids r"
| "brought _ = []"

fun allowed :: "vis_op \<Rightarrow> world \<Rightarrow> bool" where
  "allowed (CompleteActivation g (Inr r)) w \<longleftrightarrow> distinct (lease_ids r) \<and> set (lease_ids r) \<inter> set (w_taken w) = {}"
| "allowed (Propose g timeout a) w \<longleftrightarrow> snd (w_core w) a = None"
| "allowed _ w \<longleftrightarrow> True"

inductive vis_step :: "world \<Rightarrow> world \<Rightarrow> bool" where
  call: "\<lbrakk>w_now w \<le> now; now \<le> t; allowed op w; vis_section op now t (w_core w) = Some (jobs, core)\<rbrakk> \<Longrightarrow>
     vis_step w (w\<lparr>w_now := t, w_core := core, w_jobs := w_jobs w @ jobs, w_taken := w_taken w @ brought op\<rparr>)"
| release_job: "\<lbrakk>w_jobs w = pre @ job # post; release job (fst (w_core w)) = (st, closed)\<rbrakk> \<Longrightarrow>
     vis_step w (w\<lparr>w_core := (st, snd (w_core w)), w_jobs := pre @ post, w_closed := w_closed w @ closed\<rparr>)"
| consent_call: "\<lbrakk>w_now w \<le> t; snd (w_core w) a = Some c\<rbrakk> \<Longrightarrow>
     vis_step w (w\<lparr>w_now := t, w_core := (fst (w_core w), (snd (w_core w))(a \<mapsto> consent_step op t c))\<rparr>)"
| drop_consent: "vis_step w (w\<lparr>w_core := (fst (w_core w), (snd (w_core w))(a := None))\<rparr>)"

definition world_start :: "nat \<Rightarrow> world" where
  "world_start now = \<lparr>w_now = now, w_core = (vis_default, \<lambda>_. None), w_jobs = [], w_taken = [], w_closed = []\<rparr>"

definition reachable :: "world \<Rightarrow> bool" where
  "reachable w \<longleftrightarrow> (\<exists>now. vis_step\<^sup>*\<^sup>* (world_start now) w)"

subsection \<open>Decisions\<close>

text \<open>How one call on a consent may change it.\<close>

definition consent_moves :: "nat \<Rightarrow> pending_consent \<Rightarrow> pending_consent \<Rightarrow> bool" where
  "consent_moves t c c' \<longleftrightarrow>
     pc_generation c' = pc_generation c \<and> pc_deadline c' = pc_deadline c \<and>
     (\<not> undecided (pc_outcome c) \<longrightarrow> pc_outcome c' = pc_outcome c) \<and>
     (pc_outcome c = CPending \<longrightarrow> pc_outcome c' \<noteq> COffered) \<and>
     (pc_outcome c' = CPending \<and> pc_outcome c \<noteq> CPending \<longrightarrow> pc_outcome c = COffered \<and> t < pc_deadline c) \<and>
     (\<forall>i. pc_outcome c' = CAccepted i \<and> pc_outcome c \<noteq> CAccepted i \<longrightarrow>
        pc_outcome c = CPending \<and> t < pc_deadline c \<and> pc_share_id c = Some i)"

lemmas consent_defs = consent_bind_def consent_share_id_def read_outcome_def consent_accept_def
  consent_reject_def cancel_unadmitted_def consent_fail_def consent_cancel_def consent_admit_def
  decision_def Let_def

lemma consent_step_moves: "consent_moves t c (consent_step op t c)"
  by (cases op) (auto simp: consent_moves_def consent_defs undecided_def)

lemma consent_step_engaged:
  "engaged (pc_outcome (consent_step op t c)) \<Longrightarrow> engaged (pc_outcome c)"
  by (cases op) (auto simp: engaged_def consent_defs undecided_def split: if_splits consent_outcome.splits)

lemma consent_step_generation [simp]: "pc_generation (consent_step op t c) = pc_generation c"
  using consent_step_moves [of t c op] by (simp add: consent_moves_def)

subsection \<open>The invariant\<close>

definition consents_ok :: "vis_state \<Rightarrow> consent_store \<Rightarrow> bool" where
  "consents_ok st cs \<longleftrightarrow>
     (\<forall>a c. cs a = Some c \<longrightarrow> pc_generation c \<le> vs_generation st \<and>
        (engaged (pc_outcome c) \<longrightarrow> vs_pending st = Some a))"

definition phase_ok :: "nat \<Rightarrow> vis_state \<Rightarrow> bool" where
  "phase_ok now st \<longleftrightarrow>
     (vs_requested st \<longleftrightarrow> vs_phase st = VStarting \<or> vs_phase st = VOpen) \<and>
     (vs_resources st \<noteq> None \<longleftrightarrow> vs_phase st = VOpen) \<and>
     (vs_deadline st \<noteq> None \<longleftrightarrow> vs_phase st = VOpen \<and> \<not> vs_policy st) \<and>
     (vs_media st \<noteq> [] \<longrightarrow> vs_phase st = VOpen) \<and>
     (\<forall>d. vs_deadline st = Some d \<longrightarrow> d \<le> now + TEMPORARY_LIFETIME)"

definition vis_inv :: "nat \<Rightarrow> core \<Rightarrow> bool" where
  "vis_inv now core \<longleftrightarrow> phase_ok now (fst core) \<and> consents_ok (fst core) (snd core)"

lemma phase_ok_later: "phase_ok now st \<Longrightarrow> now \<le> now' \<Longrightarrow> phase_ok now' st"
  by (fastforce simp: phase_ok_def)

lemma decision_engaged: "engaged (pc_outcome (decision t c)) \<Longrightarrow> engaged (pc_outcome c)"
  by (auto simp: decision_def engaged_def split: if_splits)

lemma decision_generation [simp]: "pc_generation (decision t c) = pc_generation c"
  by (simp add: decision_def)

lemma consents_ok_upd:
  assumes "consents_ok st cs" "cs a = Some c" "pc_generation c' = pc_generation c"
    "engaged (pc_outcome c') \<Longrightarrow> engaged (pc_outcome c)"
  shows "consents_ok st (cs(a \<mapsto> c'))"
  using assms by (auto simp: consents_ok_def)

lemma consents_ok_grow:
  "consents_ok st cs \<Longrightarrow> vs_generation st \<le> vs_generation st' \<Longrightarrow> vs_pending st' = vs_pending st \<Longrightarrow>
     consents_ok st' cs"
  by (fastforce simp: consents_ok_def)

lemma upgrade_Some: "upgrade w cs = Some (a, c) \<longleftrightarrow> w = Some a \<and> cs a = Some c"
  by (auto simp: upgrade_def split: option.splits bind_splits)

lemma revoke_cases:
  assumes "revoke t e st cs = Some (r, st', cs')"
  shows "r = vs_resources st" "vs_generation st' = Suc (vs_generation st)" "vs_policy st' = vs_policy st"
    "vs_pending st' = vs_pending st" "phase_ok now st'"
    "vs_phase st' = VClosed" "vs_resources st' = None"
    "cs' = (if e then (case upgrade (vs_pending st) cs of
              None \<Rightarrow> cs | Some (a, c) \<Rightarrow> cs(a \<mapsto> consent_cancel t c)) else cs)"
  using assms
  by (auto simp: revoke_def checked_add_u64_def phase_ok_def Let_def split: if_splits bind_splits)

lemma revoke_inv:
  assumes "revoke t e st cs = Some (r, st', cs')" "consents_ok st cs"
  shows "vis_inv now (st', cs')"
proof -
  note rv = revoke_cases [OF assms(1)]
  have "consents_ok st (cs(a \<mapsto> consent_cancel t c))" if "upgrade (vs_pending st) cs = Some (a, c)" for a c
    using consents_ok_upd [OF assms(2)] that consent_step_engaged [of CCancel t c]
      consent_step_generation [of CCancel t c]
    by (auto simp: upgrade_Some)
  then have "consents_ok st cs'" using assms(2) rv(8) by (auto split: option.splits)
  then show ?thesis
    using rv(2,4,5) consents_ok_grow [of st cs' st'] by (simp add: vis_inv_def)
qed

definition action_ok :: "nat \<Rightarrow> (core \<Rightarrow> ('a \<times> core) option) \<Rightarrow> bool" where
  "action_ok now act \<longleftrightarrow> (\<forall>core y core'. vis_inv now core \<longrightarrow>
     (\<forall>d. vs_deadline (fst core) = Some d \<longrightarrow> now < d) \<longrightarrow> act core = Some (y, core') \<longrightarrow> vis_inv now core')"

lemma action_okI:
  assumes "\<And>st cs y st' cs'. phase_ok now st \<Longrightarrow> consents_ok st cs \<Longrightarrow>
    act (st, cs) = Some (y, st', cs') \<Longrightarrow> vis_inv now (st', cs')"
  shows "action_ok now act"
  unfolding action_ok_def
proof (intro allI impI)
  fix core y core'
  assume "vis_inv now core" "act core = Some (y, core')"
  then show "vis_inv now core'"
    using assms [of "fst core" "snd core" y "fst core'" "snd core'"] by (simp add: vis_inv_def)
qed

lemma action_okD:
  "action_ok now act \<Longrightarrow> vis_inv now (st, cs) \<Longrightarrow> \<forall>d. vs_deadline st = Some d \<longrightarrow> now < d \<Longrightarrow>
     act (st, cs) = Some (y, core') \<Longrightarrow> vis_inv now core'"
  unfolding action_ok_def by (metis fst_conv)

text \<open>The two ways through the expiry check, and the action that follows.\<close>

lemma update_cases:
  assumes "update now act (st, cs) = Some (x, jobs, core')"
  obtains (expired) d st1 where "vs_deadline st = Some d" "d \<le> now"
      "revoke now False st cs = Some (vs_resources st, st1, cs)" "act (st1, cs) = Some (x, core')"
      "jobs = released_jobs (vs_resources st) (vs_generation (fst core'))"
  | (current) "\<forall>d. vs_deadline st = Some d \<longrightarrow> now < d" "act (st, cs) = Some (x, core')" "jobs = []"
proof -
  consider d where "vs_deadline st = Some d" "d \<le> now" | "\<forall>d. vs_deadline st = Some d \<longrightarrow> now < d"
    by (metis not_le)
  then show thesis
  proof cases
    case 1
    then obtain r st1 cs1 where rv: "revoke now False st cs = Some (r, st1, cs1)"
      and "act (st1, cs1) = Some (x, core')" "jobs = released_jobs r (vs_generation (fst core'))"
      using assms by (auto simp: update_def split: bind_splits)
    then show thesis
      using expired [OF 1] revoke_cases(1) [OF rv] revoke_cases(8) [OF rv] by simp
  next
    case 2
    then have "(case vs_deadline st of
                  Some d \<Rightarrow> if d \<le> now then revoke now False st cs else Some (None, st, cs)
                | None \<Rightarrow> Some (None, st, cs)) = Some (None, st, cs)"
      by (auto split: option.splits)
    then have "act (st, cs) = Some (x, core')" "jobs = []"
      using assms by (auto simp: update_def released_jobs_def option_list_def split: bind_splits)
    then show thesis using current 2 by blast
  qed
qed

lemma update_inv:
  assumes "action_ok now act" "update now act core = Some (x, jobs, core')" "vis_inv now core"
  shows "vis_inv now core'"
proof -
  obtain st cs where core: "core = (st, cs)" by fastforce
  show ?thesis
    using assms(2) [unfolded core]
  proof (cases rule: update_cases)
    case (expired d st1)
    then have "vis_inv now (st1, cs)" using revoke_inv [OF expired(3)] assms(3) core by (simp add: vis_inv_def)
    moreover have "vs_deadline st1 = None"
      using revoke_cases(5) [OF expired(3), of 0] revoke_cases(6) [OF expired(3)] by (simp add: phase_ok_def)
    ultimately show ?thesis using action_okD [OF assms(1)] expired(4) by simp
  next
    case current
    then show ?thesis using action_okD [OF assms(1)] assms(3) core by simp
  qed
qed

lemma request_inv:
  assumes "vis_request st = Some (r, st')" "phase_ok now st" "consents_ok st cs"
  shows "vis_inv now (st', cs)"
  using assms consents_ok_grow [of st cs st']
  by (auto simp: vis_request_def vis_inv_def phase_ok_def checked_add_u64_def split: if_splits bind_splits)

lemma open_ok: "action_ok now open_action"
  by (rule action_okI) (auto simp: open_action_def split: bind_splits intro: request_inv)

lemma policy_ok: "action_ok now (policy_action t b)"
proof (rule action_okI)
  fix st cs y st' cs'
  assume ok: "phase_ok now st" "consents_ok st cs" and act: "policy_action t b (st, cs) = Some (y, st', cs')"
  let ?on = "st\<lparr>vs_policy := True, vs_deadline := None\<rparr>" and ?off = "st\<lparr>vs_policy := False\<rparr>"
  have "phase_ok now ?on" "consents_ok ?on cs" "consents_ok ?off cs"
    using ok by (auto simp: phase_ok_def consents_ok_def)
  then show "vis_inv now (st', cs')"
    using act ok request_inv [of ?on _ st' now cs] revoke_inv [of t True ?off cs _ st' cs' now]
    by (auto simp: policy_action_def vis_inv_def split: if_splits bind_splits)
qed

lemma close_ok: "action_ok now (close_action t)"
  by (rule action_okI) (auto simp: close_action_def split: bind_splits intro: revoke_inv)

lemma complete_ok: "action_ok now (complete_action now g r)"
  by (rule action_okI)
    (auto simp: complete_action_def vis_inv_def phase_ok_def consents_ok_def duration_saturating_add_def
      split: if_splits sum.splits)

lemma peek_ok: "action_ok now (peek f)"
  by (auto simp: action_ok_def peek_def)

lemma resources_ok: "action_ok now (resources_action act)"
  by (rule action_okI)
    (auto simp: resources_action_def vis_inv_def phase_ok_def consents_ok_def split: option.splits prod.splits)

lemma propose_ok:
  "action_ok now (propose_action t g timeout a)"
  by (rule action_okI)
    (auto simp: propose_action_def vis_inv_def consents_ok_def consent_new_def engaged_def split: if_splits)

lemma outcome_upd_ok:
  "consents_ok st cs \<Longrightarrow> cs b = Some c \<Longrightarrow> consents_ok st (cs(b \<mapsto> snd (read_outcome t c)))"
  using consent_step_engaged [of COutcome t c] consent_step_generation [of COutcome t c]
  by (intro consents_ok_upd) auto

lemma reject_upd_ok:
  "consents_ok st cs \<Longrightarrow> cs a = Some c \<Longrightarrow> consents_ok st (cs(a \<mapsto> snd (consent_reject t i c)))"
  using consent_step_engaged [of "CReject i" t c] consent_step_generation [of "CReject i" t c]
  by (intro consents_ok_upd) auto

text \<open>
  Admission: when the prior consent is not engaged, no live consent is, so the admitted one is
  the only one.
\<close>

lemma admit_upd_ok:
  assumes "consents_ok st cs" "cs a = Some c" "consent_admit t c = (b, c')"
    and free: "\<And>x d. vs_pending st = Some x \<Longrightarrow> cs x = Some d \<Longrightarrow> \<not> engaged (pc_outcome d)"
  shows "consents_ok (if b then st\<lparr>vs_pending := Some a\<rparr> else st) (cs(a \<mapsto> c'))"
proof -
  have none: "\<not> engaged (pc_outcome d)" if "cs x = Some d" for x d
    using assms(1) free [of x d] that unfolding consents_ok_def by blast
  have "pc_generation c' = pc_generation c" "engaged (pc_outcome c') \<Longrightarrow> b"
    using assms(3) none [OF assms(2)] by (auto simp: consent_defs engaged_def split: if_splits)
  then show ?thesis
    using assms(1,2) none by (auto simp: consents_ok_def)
qed

lemma reject_result:
  "phase_ok now st \<Longrightarrow> consents_ok st cs \<Longrightarrow> cs a = Some p \<Longrightarrow>
     vis_inv now (st, cs(a \<mapsto> snd (consent_reject t i p)))"
  by (simp add: vis_inv_def reject_upd_ok)

lemma admit_result:
  assumes "phase_ok now st" "consents_ok st cs" "cs a = Some p" "consent_admit t p = (b, c)"
    "\<And>x d. vs_pending st = Some x \<Longrightarrow> cs x = Some d \<Longrightarrow> \<not> engaged (pc_outcome d)"
  shows "vis_inv now (if b then st\<lparr>vs_pending := Some a\<rparr> else st, cs(a \<mapsto> c))"
proof -
  have "phase_ok now (if b then st\<lparr>vs_pending := Some a\<rparr> else st)" using assms(1) by (simp add: phase_ok_def)
  then show ?thesis using admit_upd_ok [OF assms(2-5)] by (simp only: vis_inv_def fst_conv snd_conv)
qed

lemma admit_ok: "action_ok now (admit_action t a)"
proof (rule action_okI)
  fix st cs y st' cs'
  assume ok: "phase_ok now st" "consents_ok st cs" and act: "admit_action t a (st, cs) = Some (y, st', cs')"
  obtain p where p: "cs a = Some p" using act by (auto simp: admit_action_def split: bind_splits)
  let ?barred = "\<not> admissible st \<or> vs_generation st \<noteq> pc_generation p"
  show "vis_inv now (st', cs')"
  proof (cases "?barred \<or> upgrade (vs_pending st) cs = None")
    case True
    then consider (reject) "(st', cs') = (st, cs(a \<mapsto> snd (consent_reject t 0 p)))"
      | (admit) b c where "consent_admit t p = (b, c)" "upgrade (vs_pending st) cs = None"
         "(st', cs') = (if b then st\<lparr>vs_pending := Some a\<rparr> else st, cs(a \<mapsto> c))"
      using act p by (auto simp: admit_action_def Let_def split: if_splits bool.splits prod.splits)
    then show ?thesis
    proof cases
      case reject
      then show ?thesis using reject_result [OF ok p] by simp
    next
      case (admit b c)
      have "\<not> engaged (pc_outcome d)" if "vs_pending st = Some x" "cs x = Some d" for x d
        using admit(2) that by (simp add: upgrade_def)
      then show ?thesis unfolding admit(3) by (rule admit_result [OF ok p admit(1)])
    qed
  next
    case False
    then obtain b c where prior: "upgrade (vs_pending st) cs = Some (b, c)" and free: "\<not> ?barred" by auto
    define cs1 where "cs1 = cs(b \<mapsto> snd (read_outcome t c))"
    have cs1: "consents_ok st cs1" "vs_pending st = Some b" "cs1 b = Some (snd (read_outcome t c))"
      using prior outcome_upd_ok [OF ok(2)] by (auto simp: upgrade_Some cs1_def)
    obtain p' where p': "cs1 a = Some p'" using p by (cases "a = b") (auto simp: cs1_def)
    consider (reject) "(st', cs') = (st, cs1(a \<mapsto> snd (consent_reject t 0 p')))"
      | (admit) e d where "\<not> engaged (fst (read_outcome t c))" "consent_admit t p' = (e, d)"
         "(st', cs') = (if e then st\<lparr>vs_pending := Some a\<rparr> else st, cs1(a \<mapsto> d))"
      using act p p' prior free unfolding cs1_def [symmetric]
      by (auto simp: admit_action_def Let_def cs1_def [symmetric] split: if_splits bool.splits prod.splits)
    then show ?thesis
    proof cases
      case reject
      then show ?thesis using reject_result [OF ok(1) cs1(1) p'] by simp
    next
      case (admit e d)
      have "\<not> engaged (pc_outcome d)" if "vs_pending st = Some x" "cs1 x = Some d" for x d
        using admit(1) that cs1(2,3) by (auto simp: read_outcome_def Let_def)
      then show ?thesis unfolding admit(3) by (rule admit_result [OF ok(1) cs1(1) p' admit(2)])
    qed
  qed
qed

subsection \<open>Every interleaving\<close>

lemma vis_section_inv:
  assumes "vis_section op now t core = Some (jobs, core')" "vis_inv now core"
  shows "vis_inv now core'"
proof (cases op)
  case RequestOpen
  then show ?thesis using assms by (auto simp: request_open_def split: bind_splits intro: update_inv [OF open_ok])
next
  case (SetPolicy b)
  then show ?thesis using assms by (auto simp: set_policy_def split: bind_splits intro: update_inv [OF policy_ok])
next
  case Close
  then show ?thesis using assms by (auto simp: close_def split: bind_splits intro: update_inv [OF close_ok])
next
  case (CompleteActivation g r)
  then show ?thesis using assms by (auto simp: complete_activation_def split: bind_splits intro: update_inv [OF complete_ok])
next
  case (ActivationRequested g)
  then show ?thesis using assms by (auto simp: activation_requested_def split: bind_splits intro: update_inv [OF peek_ok])
next
  case GenerationIfOpen
  then show ?thesis using assms by (auto simp: generation_if_open_def split: bind_splits intro: update_inv [OF peek_ok])
next
  case WithResources
  then show ?thesis using assms by (auto simp: with_resources_def split: bind_splits intro: update_inv [OF resources_ok])
next
  case (Propose g timeout a)
  then show ?thesis using assms by (auto simp: propose_def split: bind_splits intro: update_inv [OF propose_ok])
next
  case (Admit a)
  then show ?thesis using assms by (auto simp: admit_def split: bind_splits intro: update_inv [OF admit_ok])
next
  case Status
  then show ?thesis using assms by (auto simp: status_def split: bind_splits intro: update_inv [OF peek_ok])
qed

lemma vis_inv_later: "vis_inv now core \<Longrightarrow> now \<le> now' \<Longrightarrow> vis_inv now' core"
  by (auto simp: vis_inv_def intro: phase_ok_later)

lemma vis_step_inv: "vis_step w w' \<Longrightarrow> vis_inv (w_now w) (w_core w) \<Longrightarrow> vis_inv (w_now w') (w_core w')"
proof (induction rule: vis_step.induct)
  case (call w now t op jobs core)
  have "vis_inv now (w_core w)" using call vis_inv_later by blast
  then have "vis_inv now core" using call vis_section_inv by blast
  then show ?case using call vis_inv_later by simp
next
  case (release_job w pre job post st closed)
  then show ?case
    by (auto simp: release_def vis_inv_def phase_ok_def consents_ok_def split: prod.splits option.splits if_splits)
next
  case (consent_call w t a c op)
  then have "consents_ok (fst (w_core w)) (snd (w_core w))" by (simp add: vis_inv_def)
  from consents_ok_upd [OF this consent_call.hyps(2) consent_step_generation consent_step_engaged]
  show ?case using consent_call phase_ok_later by (auto simp: vis_inv_def)
next
  case (drop_consent w a)
  then show ?case by (auto simp: vis_inv_def consents_ok_def)
qed

interpretation visibility: transition_invariant vis_step "\<lambda>w. \<exists>now. w = world_start now" "\<lambda>w. vis_inv (w_now w) (w_core w)"
  by unfold_locales
    (auto simp: world_start_def vis_inv_def phase_ok_def consents_ok_def vis_default_def dest: vis_step_inv)

lemma reachable_inv: "reachable w \<Longrightarrow> vis_inv (w_now w) (w_core w)"
  using visibility.holds_reachable by (auto simp: reachable_def)

subsection \<open>Leases are neither lost nor closed twice\<close>

definition held :: "core \<Rightarrow> nat list" where
  "held core = concat (map lease_ids (option_list (vs_resources (fst core))))"

definition job_ids :: "jobs \<Rightarrow> nat list" where
  "job_ids jobs = concat (map (\<lambda>j. lease_ids (fst j)) jobs)"

lemma job_ids_simps [simp]:
  "job_ids [] = []" "job_ids (xs @ ys) = job_ids xs @ job_ids ys" "job_ids (j # js) = lease_ids (fst j) @ job_ids js"
  by (auto simp: job_ids_def)

text \<open>What an action does with leases: those it yields and those kept are those held and brought.\<close>

definition action_keeps :: "(core \<Rightarrow> ('a \<times> core) option) \<Rightarrow> ('a \<Rightarrow> nat list) \<Rightarrow> nat list \<Rightarrow> bool" where
  "action_keeps act yields extra \<longleftrightarrow>
     (\<forall>core y core'. act core = Some (y, core') \<longrightarrow> mset (yields y) + mset (held core') = mset (held core) + mset extra)"

lemma action_keepsI:
  assumes "\<And>st cs y st' cs'. act (st, cs) = Some (y, st', cs') \<Longrightarrow>
    mset (yields y) + mset (held (st', cs')) = mset (held (st, cs)) + mset extra"
  shows "action_keeps act yields extra"
  unfolding action_keeps_def by (metis assms surj_pair)

definition ids :: "resources option \<Rightarrow> nat list" where
  "ids r = concat (map lease_ids (option_list r))"

lemma held_simps [simp]: "held (st, cs) = ids (vs_resources st)" "ids None = []" "ids (Some r) = lease_ids r"
  "job_ids (released_jobs x g) = ids x"
  by (simp_all add: held_def ids_def option_list_def job_ids_def released_jobs_def comp_def)

lemma revoke_keeps:
  "revoke t e st cs = Some (r, st', cs') \<Longrightarrow> r = vs_resources st \<and> vs_resources st' = None"
  using revoke_cases(1,7) by blast

lemma request_keeps: "vis_request st = Some (r, st') \<Longrightarrow> vs_resources st' = vs_resources st"
  by (auto simp: vis_request_def split: if_splits bind_splits)

lemma update_keeps:
  assumes "action_keeps act yields extra" "update now act core = Some (x, jobs, core')"
  shows "mset (yields x) + mset (job_ids jobs) + mset (held core') = mset (held core) + mset extra"
proof -
  obtain st cs where core: "core = (st, cs)" by fastforce
  have keeps: "act c = Some (x, core') \<Longrightarrow> mset (yields x) + mset (held core') = mset (held c) + mset extra" for c
    using assms(1) unfolding action_keeps_def by blast
  show ?thesis
    using assms(2) [unfolded core]
  proof (cases rule: update_cases)
    case (expired d st1)
    then show ?thesis using keeps [of "(st1, cs)"] revoke_keeps [OF expired(3)] core by (simp add: ac_simps)
  next
    case current
    then show ?thesis using keeps [of "(st, cs)"] core by simp
  qed
qed

lemma actions_keep:
  "action_keeps open_action (\<lambda>_. []) []"
  "action_keeps (policy_action t b) (\<lambda>y. ids (fst (snd y))) []"
  "action_keeps (close_action t) (\<lambda>y. ids (fst y)) []"
  "action_keeps (peek f) (\<lambda>_. []) []"
  "action_keeps (resources_action (\<lambda>r. ((), r))) (\<lambda>_. []) []"
  "action_keeps (propose_action t g timeout a) (\<lambda>_. []) []"
  "action_keeps (admit_action t a) (\<lambda>_. []) []"
  subgoal by (rule action_keepsI) (auto simp: open_action_def split: bind_splits dest: request_keeps)
  subgoal by (rule action_keepsI)
      (auto simp: policy_action_def split: bind_splits if_splits dest: request_keeps revoke_keeps)
  subgoal by (rule action_keepsI) (auto simp: close_action_def split: bind_splits dest: revoke_keeps)
  subgoal by (auto simp: action_keeps_def peek_def)
  subgoal by (rule action_keepsI) (auto simp: resources_action_def split: option.splits)
  subgoal by (rule action_keepsI) (auto simp: propose_action_def split: if_splits)
  subgoal by (rule action_keepsI)
      (auto simp: admit_action_def Let_def split: bind_splits if_splits prod.splits bool.splits)
  done

text \<open>An activation that is no longer wanted yields its leases at once; a wanted one finds none held.\<close>

lemma complete_keeps:
  assumes "phase_ok now st" "complete_action now g r (st, cs) = Some (y, st', cs')"
  shows "mset (ids y) + mset (held (st', cs')) =
    mset (held (st, cs)) + mset (case r of Inl _ \<Rightarrow> [] | Inr r \<Rightarrow> lease_ids r)"
  using assms by (auto simp: complete_action_def phase_ok_def split: if_splits sum.splits)

lemma section_keeps:
  assumes "vis_section op now t core = Some (jobs, core')" "vis_inv now core"
  shows "mset (job_ids jobs) + mset (held core') = mset (held core) + mset (brought op)"
proof (cases op)
  case (CompleteActivation g r)
  obtain st cs where core: "core = (st, cs)" by fastforce
  obtain x jobs1 where u: "update now (complete_action now g r) (st, cs) = Some (x, jobs1, core')"
    and jobs: "jobs = jobs1 @ released_jobs x g"
    using assms(1) CompleteActivation core by (auto simp: complete_activation_def split: bind_splits)
  have brought: "brought op = (case r of Inl _ \<Rightarrow> [] | Inr r \<Rightarrow> lease_ids r)"
    using CompleteActivation by (simp split: sum.splits)
  show ?thesis
    using u
  proof (cases rule: update_cases)
    case (expired d st1)
    then show ?thesis
      using complete_keeps [of now st1 g r cs x "fst core'" "snd core'"] revoke_cases(5) [OF expired(3)]
        revoke_keeps [OF expired(3)] core jobs brought
      by (simp add: ac_simps)
  next
    case current
    then show ?thesis
      using complete_keeps [of now st g r cs x "fst core'" "snd core'"] assms(2) core jobs brought
      by (simp add: vis_inv_def ac_simps)
  qed
qed (use assms(1) in
    \<open>auto simp: request_open_def set_policy_def close_def activation_requested_def generation_if_open_def
      with_resources_def propose_def admit_def status_def ac_simps split: bind_splits
      dest!: actions_keep [THEN update_keeps]\<close>)

definition leases_inv :: "world \<Rightarrow> bool" where
  "leases_inv w \<longleftrightarrow> vis_inv (w_now w) (w_core w) \<and> distinct (w_taken w) \<and>
     mset (held (w_core w)) + mset (job_ids (w_jobs w)) + mset (w_closed w) = mset (w_taken w)"

lemma leases_step: "vis_step w w' \<Longrightarrow> leases_inv w \<Longrightarrow> leases_inv w'"
proof -
  assume step: "vis_step w w'" and inv: "leases_inv w"
  have vis: "vis_inv (w_now w') (w_core w')" using vis_step_inv [OF step] inv by (simp add: leases_inv_def)
  show "leases_inv w'"
    using step
  proof cases
    case (call now t op jobs core)
    have "vis_inv now (w_core w)" using inv call(2) unfolding leases_inv_def by (blast intro: vis_inv_later)
    note keeps = section_keeps [OF call(5) this]
    moreover have "distinct (w_taken w @ brought op)"
      using inv call(4) by (cases "(op, w)" rule: allowed.cases) (auto simp: leases_inv_def)
    ultimately show ?thesis
      using inv vis call(1) by (simp add: leases_inv_def) (metis (no_types, lifting) union_assoc union_commute)
  next
    case (release_job pre job post st closed)
    then have "closed = lease_ids (fst job)" "vs_resources st = vs_resources (fst (w_core w))"
      by (auto simp: release_def lease_ids_def split: prod.splits option.splits if_splits)
    then show ?thesis using inv vis release_job(1,2) by (simp add: leases_inv_def held_def ac_simps)
  next
    case (consent_call t a c op)
    then show ?thesis using inv vis by (simp add: leases_inv_def held_def)
  next
    case (drop_consent a)
    then show ?thesis using inv vis by (simp add: leases_inv_def held_def)
  qed
qed

interpretation leases: transition_invariant vis_step "\<lambda>w. \<exists>now. w = world_start now" leases_inv
  by unfold_locales
    (auto simp: leases_inv_def world_start_def vis_inv_def phase_ok_def consents_ok_def vis_default_def
      held_def option_list_def dest: leases_step)

end
