(* ===== verification/Daemon_Admission.thy ===== *)
theory Daemon_Admission
  imports Daemon_Visibility
begin

text \<open>
  What the permission state of the daemon guarantees in every interleaving of its threads: one
  admitted offer at a time, decisions that are final and made in time, permission that ends when it
  is revoked or expires, and leases that are closed exactly once.
\<close>

subsection \<open>Consistency\<close>

text \<open>
  C27. In every reachable state of the daemon's threads at most one live offer is admitted or
  accepted; listeners are held exactly while the endpoint is open, and only then is a medium
  reported as available; a countdown runs exactly while it is open without the durable policy; and a
  request is outstanding or served exactly while it is starting or open.
\<close>

theorem visibility_consistent:
  assumes "reachable w"
  shows "(\<forall>a b c d. snd (w_core w) a = Some c \<and> snd (w_core w) b = Some d \<and>
      engaged (pc_outcome c) \<and> engaged (pc_outcome d) \<longrightarrow> a = b) \<and>
    (let st = fst (w_core w) in
      (vs_resources st \<noteq> None \<longleftrightarrow> vs_phase st = VOpen) \<and>
      (vs_media st \<noteq> [] \<longrightarrow> vs_phase st = VOpen) \<and>
      (vs_deadline st \<noteq> None \<longleftrightarrow> vs_phase st = VOpen \<and> \<not> vs_policy st) \<and>
      (vs_requested st \<longleftrightarrow> vs_phase st = VStarting \<or> vs_phase st = VOpen))"
proof -
  have inv: "phase_ok (w_now w) (fst (w_core w))" "consents_ok (fst (w_core w)) (snd (w_core w))"
    using reachable_inv [OF assms] by (simp_all add: vis_inv_def)
  have "a = b" if "snd (w_core w) a = Some c" "snd (w_core w) b = Some d" "engaged (pc_outcome c)"
    "engaged (pc_outcome d)" for a b c d
    using inv(2) that unfolding consents_ok_def by (metis option.inject)
  then show ?thesis using inv(1) unfolding phase_ok_def Let_def by blast
qed

subsection \<open>Decisions\<close>

text \<open>
  How a locked section may change the consents that are alive on both sides of it: each moves as a
  single call does, and a newly admitted one belongs to the generation that is open.
\<close>

definition store_moves :: "nat \<Rightarrow> vis_state \<Rightarrow> consent_store \<Rightarrow> consent_store \<Rightarrow> bool" where
  "store_moves t st' cs cs' \<longleftrightarrow>
     (\<forall>a c c'. cs a = Some c \<and> cs' a = Some c' \<longrightarrow> consent_moves t c c' \<and>
        (pc_outcome c' = CPending \<and> pc_outcome c \<noteq> CPending \<longrightarrow>
           admissible st' \<and> vs_generation st' = pc_generation c))"

lemma consent_moves_refl [simp]: "consent_moves t c c"
  by (simp add: consent_moves_def)

lemma store_moves_refl [simp]: "store_moves t st' cs cs"
  by (auto simp: store_moves_def)

lemma consent_step_pending:
  "pc_outcome (consent_step op t c) = CPending \<Longrightarrow> pc_outcome c = CPending"
  by (cases op) (auto simp: consent_defs undecided_def split: if_splits)

lemma store_moves_step: "cs a = Some c \<Longrightarrow> store_moves t st' cs (cs(a \<mapsto> consent_step op t c))"
  using consent_step_moves consent_step_pending by (auto simp: store_moves_def)

lemma revoke_moves:
  assumes "revoke t e st cs = Some (r, st', cs')" shows "store_moves t st'' cs cs'"
  using revoke_cases(8) [OF assms] store_moves_step [of cs _ _ t st'' CCancel]
  by (auto simp: upgrade_Some split: if_splits option.splits)

lemma decision_idem [simp]: "decision t (decision t c) = decision t c"
  by (simp add: decision_def undecided_def)

lemma reject_decision [simp]: "consent_reject t i (decision t c) = consent_reject t i c"
  by (simp add: consent_reject_def)

lemma admit_decision [simp]: "consent_admit t (decision t c) = consent_admit t c"
  by (simp add: consent_admit_def)

lemma consent_admit_moves: "consent_admit t c = (b, c') \<Longrightarrow> consent_moves t c c'"
  by (auto simp: consent_moves_def consent_defs undecided_def split: if_splits)

lemma admit_moves:
  assumes "admit_action t a (st, cs) = Some (y, st', cs')"
  shows "store_moves t st' cs cs'"
proof -
  obtain p where p: "cs a = Some p" using assms by (auto simp: admit_action_def split: bind_splits)
  have cell: "cs' x = Some c' \<Longrightarrow> cs x = Some c \<Longrightarrow>
      c' = c \<or> c' = decision t c \<or> c' = snd (consent_reject t 0 c) \<or>
      (\<exists>b. consent_admit t c = (b, c')) \<and> admissible st' \<and> vs_generation st' = pc_generation c" for x c c'
    using assms p
    by (auto simp: admit_action_def Let_def upgrade_Some read_outcome_def admissible_def
        split: bind_splits if_splits prod.splits bool.splits option.splits)
  have "consent_moves t c c' \<and> (pc_outcome c' = CPending \<and> pc_outcome c \<noteq> CPending \<longrightarrow>
      admissible st' \<and> vs_generation st' = pc_generation c)" if "cs x = Some c" "cs' x = Some c'" for x c c'
    using cell [OF that(2,1)] consent_step_moves [of t c COutcome] consent_step_moves [of t c "CReject 0"]
      consent_step_pending [of COutcome t c] consent_step_pending [of "CReject 0" t c] consent_admit_moves
    by (auto simp: read_outcome_def Let_def)
  then show ?thesis unfolding store_moves_def by blast
qed

lemma update_moves:
  assumes "\<And>st1 y st' cs'. act (st1, cs) = Some (y, st', cs') \<Longrightarrow> store_moves t st' cs cs'"
    and "update now act (st, cs) = Some (x, jobs, core')"
  shows "store_moves t (fst core') cs (snd core')"
  using assms(2) by (cases rule: update_cases) (metis assms(1) prod.collapse)+

lemma actions_move:
  "open_action (st, cs) = Some (y1, st', cs') \<Longrightarrow> store_moves t st' cs cs'"
  "policy_action t b (st, cs) = Some (y2, st', cs') \<Longrightarrow> store_moves t st' cs cs'"
  "close_action t (st, cs) = Some (y3, st', cs') \<Longrightarrow> store_moves t st' cs cs'"
  "complete_action now g r (st, cs) = Some (y4, st', cs') \<Longrightarrow> store_moves t st' cs cs'"
  "peek f (st, cs) = Some (y5, st', cs') \<Longrightarrow> store_moves t st' cs cs'"
  "resources_action act (st, cs) = Some (y6, st', cs') \<Longrightarrow> store_moves t st' cs cs'"
  "cs a = None \<Longrightarrow> propose_action t g timeout a (st, cs) = Some (y7, st', cs') \<Longrightarrow> store_moves t st' cs cs'"
  subgoal by (auto simp: open_action_def split: bind_splits)
  subgoal by (auto simp: policy_action_def split: bind_splits if_splits intro: revoke_moves)
  subgoal by (auto simp: close_action_def split: bind_splits intro: revoke_moves)
  subgoal by (auto simp: complete_action_def split: if_splits sum.splits)
  subgoal by (auto simp: peek_def)
  subgoal by (auto simp: resources_action_def split: option.splits prod.splits)
  subgoal by (auto simp: propose_action_def store_moves_def split: if_splits)
  done

lemma section_moves:
  assumes "vis_section op now t (st, cs) = Some (jobs, st', cs')"
    and "\<And>g timeout a. op = Propose g timeout a \<Longrightarrow> cs a = None"
  shows "store_moves t st' cs cs'"
proof (cases op)
  case RequestOpen
  then obtain y where "update now open_action (st, cs) = Some (y, jobs, st', cs')"
    using assms(1) by (auto simp: request_open_def split: bind_splits)
  from update_moves [OF actions_move(1) this] show ?thesis by simp
next
  case (SetPolicy b)
  then obtain y jobs1 where "update now (policy_action t b) (st, cs) = Some (y, jobs1, st', cs')"
    using assms(1) by (auto simp: set_policy_def split: bind_splits)
  from update_moves [OF actions_move(2) this] show ?thesis by simp
next
  case Close
  then obtain y jobs1 where "update now (close_action t) (st, cs) = Some (y, jobs1, st', cs')"
    using assms(1) by (auto simp: close_def split: bind_splits)
  from update_moves [OF actions_move(3) this] show ?thesis by simp
next
  case (CompleteActivation g r)
  then obtain y jobs1 where "update now (complete_action now g r) (st, cs) = Some (y, jobs1, st', cs')"
    using assms(1) by (auto simp: complete_activation_def split: bind_splits)
  from update_moves [OF actions_move(4) this] show ?thesis by simp
next
  case (ActivationRequested g)
  then obtain f :: "vis_state \<Rightarrow> bool" and y where "update now (peek f) (st, cs) = Some (y, jobs, st', cs')"
    using assms(1) by (auto simp: activation_requested_def)
  from update_moves [OF actions_move(5) this] show ?thesis by simp
next
  case GenerationIfOpen
  then obtain f :: "vis_state \<Rightarrow> nat option" and y where "update now (peek f) (st, cs) = Some (y, jobs, st', cs')"
    using assms(1) by (auto simp: generation_if_open_def)
  from update_moves [OF actions_move(5) this] show ?thesis by simp
next
  case WithResources
  then obtain y where "update now (resources_action (\<lambda>r. ((), r))) (st, cs) = Some (y, jobs, st', cs')"
    using assms(1) by (auto simp: with_resources_def split: bind_splits)
  from update_moves [OF actions_move(6) this] show ?thesis by simp
next
  case (Propose g timeout a)
  then obtain y where "update now (propose_action t g timeout a) (st, cs) = Some (y, jobs, st', cs')"
    using assms(1) by (auto simp: propose_def split: bind_splits)
  from update_moves [OF actions_move(7) [where cs = cs and a = a, OF assms(2) [OF Propose]] this] show ?thesis by simp
next
  case (Admit a)
  then obtain y where "update now (admit_action t a) (st, cs) = Some (y, jobs, st', cs')"
    using assms(1) by (auto simp: admit_def)
  from update_moves [OF admit_moves this] show ?thesis by simp
next
  case Status
  then obtain f :: "vis_state \<Rightarrow> visibility_state \<times> visibility_status" and y where "update now (peek f) (st, cs) = Some (y, jobs, st', cs')"
    using assms(1) by (auto simp: status_def)
  from update_moves [OF actions_move(5) this] show ?thesis by simp
qed

lemma step_moves:
  assumes "vis_step w w'"
  shows "store_moves (w_now w') (fst (w_core w')) (snd (w_core w)) (snd (w_core w'))"
  using assms
proof cases
  case (call now t op jobs core)
  have "snd (w_core w) a = None" if "op = Propose g timeout a" for g timeout a using call(4) that by simp
  then show ?thesis
    using call section_moves [of op now t "fst (w_core w)" "snd (w_core w)" jobs "fst core" "snd core"] by simp
next
  case (release_job pre job post st closed)
  then show ?thesis by simp
next
  case (consent_call t a c op)
  then show ?thesis using store_moves_step by simp
next
  case (drop_consent a)
  then show ?thesis by (auto simp: store_moves_def)
qed

text \<open>
  C26. Decisions on an offer are final, made in time, and made for what was admitted. Whatever any
  thread does, an offer keeps its generation and its deadline and, once decided, its outcome. It
  becomes pending only from being offered, before its deadline, while the endpoint is open in the
  generation the offer was made in; and it becomes accepted only from pending, before its
  deadline, for the share bound to it.
\<close>

theorem consent_decided_once:
  assumes "vis_step w w'" "snd (w_core w) a = Some c" "snd (w_core w') a = Some c'"
  shows "pc_generation c' = pc_generation c \<and> pc_deadline c' = pc_deadline c \<and>
    (\<not> undecided (pc_outcome c) \<longrightarrow> pc_outcome c' = pc_outcome c) \<and>
    (pc_outcome c' = CPending \<and> pc_outcome c \<noteq> CPending \<longrightarrow>
       pc_outcome c = COffered \<and> w_now w' < pc_deadline c \<and>
       admissible (fst (w_core w')) \<and> vs_generation (fst (w_core w')) = pc_generation c) \<and>
    (\<forall>i. pc_outcome c' = CAccepted i \<and> pc_outcome c \<noteq> CAccepted i \<longrightarrow>
       pc_outcome c = CPending \<and> w_now w' < pc_deadline c \<and> pc_share_id c = Some i)"
proof -
  have "consent_moves (w_now w') c c' \<and> (pc_outcome c' = CPending \<and> pc_outcome c \<noteq> CPending \<longrightarrow>
      admissible (fst (w_core w')) \<and> vs_generation (fst (w_core w')) = pc_generation c)"
    using step_moves [OF assms(1)] assms(2,3) unfolding store_moves_def by blast
  then show ?thesis unfolding consent_moves_def by blast
qed

subsection \<open>Generations\<close>

lemma revoke_grows: "revoke t e st cs = Some (r, st', cs') \<Longrightarrow> vs_generation st < vs_generation st'"
  using revoke_cases(2) by fastforce

lemma request_grows: "vis_request st = Some (r, st') \<Longrightarrow> vs_generation st \<le> vs_generation st'"
  by (auto simp: vis_request_def checked_add_u64_def split: if_splits bind_splits)

lemma update_grows:
  assumes "update now act (st, cs) = Some (x, jobs, core')"
    and "\<And>st1 y core'. act (st1, cs) = Some (y, core') \<Longrightarrow> vs_generation st1 \<le> vs_generation (fst core')"
  shows "vs_generation st \<le> vs_generation (fst core')"
  using assms(1)
proof (cases rule: update_cases)
  case (expired d st1)
  then show ?thesis using assms(2) [OF expired(4)] revoke_grows [OF expired(3)] by simp
next
  case current
  then show ?thesis using assms(2) by blast
qed

lemma actions_grow:
  "open_action (st, cs) = Some (y1, core') \<Longrightarrow> vs_generation st \<le> vs_generation (fst core')"
  "policy_action t b (st, cs) = Some (y2, core') \<Longrightarrow> vs_generation st \<le> vs_generation (fst core')"
  "close_action t (st, cs) = Some (y3, core') \<Longrightarrow> vs_generation st < vs_generation (fst core')"
  "complete_action now g r (st, cs) = Some (y4, core') \<Longrightarrow> vs_generation st \<le> vs_generation (fst core')"
  "peek f (st, cs) = Some (y5, core') \<Longrightarrow> vs_generation st \<le> vs_generation (fst core')"
  "resources_action act (st, cs) = Some (y6, core') \<Longrightarrow> vs_generation st \<le> vs_generation (fst core')"
  "propose_action t g timeout a (st, cs) = Some (y7, core') \<Longrightarrow> vs_generation st \<le> vs_generation (fst core')"
  "admit_action t a (st, cs) = Some (y8, core') \<Longrightarrow> vs_generation st \<le> vs_generation (fst core')"
  subgoal by (auto simp: open_action_def split: bind_splits dest: request_grows)
  subgoal by (auto simp: policy_action_def split: bind_splits if_splits dest!: request_grows revoke_grows)
  subgoal by (auto simp: close_action_def split: bind_splits dest: revoke_grows)
  subgoal by (auto simp: complete_action_def split: if_splits sum.splits)
  subgoal by (auto simp: peek_def)
  subgoal by (auto simp: resources_action_def split: option.splits prod.splits)
  subgoal by (auto simp: propose_action_def split: if_splits)
  subgoal by (auto simp: admit_action_def Let_def split: bind_splits if_splits prod.splits bool.splits)
  done

lemma section_grows:
  assumes "vis_section op now t (st, cs) = Some (jobs, core')"
  shows "vs_generation st \<le> vs_generation (fst core')"
  using assms
  by (cases op)
    (auto simp: request_open_def set_policy_def close_def complete_activation_def activation_requested_def
      generation_if_open_def with_resources_def propose_def admit_def status_def split: bind_splits
      dest!: update_grows dest: actions_grow less_imp_le [OF actions_grow(3)])

lemma steps_grow:
  "vis_step\<^sup>*\<^sup>* w w' \<Longrightarrow> vs_generation (fst (w_core w)) \<le> vs_generation (fst (w_core w'))"
proof (induction rule: rtranclp_induct)
  case (step w1 w2)
  have "vs_generation (fst (w_core w1)) \<le> vs_generation (fst (w_core w2))"
    using step.hyps(2)
  proof cases
    case (call now t op jobs core)
    then show ?thesis using section_grows [of op now t "fst (w_core w1)" "snd (w_core w1)" jobs core] by simp
  next
    case (release_job pre job post st closed)
    then show ?thesis by (auto simp: release_def split: prod.splits option.splits if_splits)
  qed auto
  then show ?case using step.IH by simp
qed simp

lemma admit_action_True:
  assumes "admit_action t a (st, cs) = Some (True, core')" "cs a = Some c"
  shows "admissible st \<and> vs_generation st = pc_generation c"
  using assms by (auto simp: admit_action_def Let_def split: bind_splits if_splits prod.splits bool.splits)

text \<open>An admission succeeds only in the state that the expiry check leaves, open and unexpired.\<close>

lemma admit_True:
  assumes "admit now t a (st, cs) = Some (True, jobs, core')" "cs a = Some c"
  shows "admissible st \<and> vs_generation st = pc_generation c \<and> (\<forall>d. vs_deadline st = Some d \<longrightarrow> now < d)"
  using assms(1) [unfolded admit_def]
proof (cases rule: update_cases)
  case (expired d st1)
  then show ?thesis
    using admit_action_True [OF expired(4) assms(2)] revoke_cases(6) [OF expired(3)] by (simp add: admissible_def)
next
  case current
  then show ?thesis using admit_action_True assms(2) by blast
qed

lemma close_generation:
  assumes "close now t (st, cs) = Some (u, jobs, core')"
  shows "vs_generation st < vs_generation (fst core')"
proof -
  obtain y jobs1 where "update now (close_action t) (st, cs) = Some (y, jobs1, core')"
    using assms by (auto simp: close_def split: bind_splits)
  then show ?thesis
  proof (cases rule: update_cases)
    case (expired d st1)
    then show ?thesis using revoke_grows [OF expired(3)] actions_grow(3) [OF expired(4)] by simp
  next
    case current
    then show ?thesis using actions_grow(3) by blast
  qed
qed

lemma close_cancels:
  assumes "close now t (st, cs) = Some (u, jobs, st', cs')" "consents_ok st cs" "cs' a = Some c"
  shows "pc_outcome c \<noteq> CPending"
proof -
  obtain y jobs1 where "update now (close_action t) (st, cs) = Some (y, jobs1, st', cs')"
    using assms(1) by (auto simp: close_def split: bind_splits)
  then obtain st1 r where pending: "vs_pending st1 = vs_pending st" and rv: "revoke t True st1 cs = Some (r, st', cs')"
  proof (cases rule: update_cases)
    case (expired d st1)
    then show ?thesis
      using that [of st1] revoke_cases(4) [OF expired(3)] by (auto simp: close_action_def split: bind_splits)
  next
    case current
    then show ?thesis using that [of st] by (auto simp: close_action_def split: bind_splits)
  qed
  have only: "vs_pending st = Some x" if "cs x = Some d" "pc_outcome d = CPending" for x d
    using assms(2) that by (auto simp: consents_ok_def engaged_def)
  show ?thesis
  proof (cases "upgrade (vs_pending st) cs")
    case None
    then show ?thesis
      using revoke_cases(8) [OF rv] only assms(3) by (auto simp: pending upgrade_def)
  next
    case (Some p)
    then obtain x d where x: "upgrade (vs_pending st) cs = Some (x, d)" by (cases p) auto
    then have "cs' = cs(x \<mapsto> consent_cancel t d)" using revoke_cases(8) [OF rv] by (simp add: pending)
    moreover have "pc_outcome (consent_cancel t d) \<noteq> CPending" by (auto simp: consent_defs undecided_def)
    ultimately show ?thesis using only assms(3) x by (auto simp: upgrade_Some split: if_splits)
  qed
qed

text \<open>
  Closing revokes. When the endpoint is closed, no offer is left pending, and no offer made until
  then can be admitted any more, whatever the threads do afterwards: reopening does not revive it,
  for the generation it carries is never current again.
\<close>

theorem closing_revokes:
  assumes "reachable w" "close now t (w_core w) = Some (u, jobs, core1)"
    and "w_core w1 = core1" "vis_step\<^sup>*\<^sup>* w1 w2"
    and "snd (w_core w2) a = Some c" "pc_generation c \<le> vs_generation (fst (w_core w))"
    and "admit now' t' a (w_core w2) = Some (b, jobs', core')"
  shows "\<not> b \<and> (\<forall>x d. snd core1 x = Some d \<longrightarrow> pc_outcome d \<noteq> CPending)"
proof -
  obtain st cs st1 cs1 st2 cs2 where cores: "w_core w = (st, cs)" "core1 = (st1, cs1)" "w_core w2 = (st2, cs2)"
    by (meson surj_pair)
  have "vs_generation st < vs_generation st1" "vs_generation st1 \<le> vs_generation st2"
    using close_generation [of now t st cs u jobs core1] steps_grow [OF assms(4)] assms(2,3) cores by simp_all
  then have "\<not> b" using admit_True [of now' t' a st2 cs2 jobs' core' c] assms(5-7) cores by auto
  moreover have "consents_ok st cs" using reachable_inv [OF assms(1)] cores by (simp add: vis_inv_def)
  ultimately show ?thesis using close_cancels [of now t st cs u jobs st1 cs1] assms(2) cores by auto
qed

lemma update_peek:
  assumes "update now (peek f) (st, cs) = Some (x, jobs, core')" "phase_ok now st"
  shows "\<exists>st'. x = f st' \<and> fst core' = st' \<and> phase_ok now st' \<and> vs_policy st' = vs_policy st \<and>
    (\<forall>d. vs_deadline st' = Some d \<longrightarrow> now < d)"
  using assms(1)
proof (cases rule: update_cases)
  case (expired d st1)
  then show ?thesis
    using revoke_cases(3) [OF expired(3)] revoke_cases(5) [OF expired(3), of now] revoke_cases(6) [OF expired(3)]
    by (auto simp: peek_def phase_ok_def)
next
  case current
  then show ?thesis using assms(2) by (auto simp: peek_def)
qed

lemma ceil_secs_bounds: "0 < d \<Longrightarrow> 1 \<le> ceil_secs d" "d \<le> n * NANOS \<Longrightarrow> ceil_secs d \<le> n"
proof -
  show "1 \<le> ceil_secs d" if "0 < d"
    using that by (auto simp: ceil_secs_def NANOS_def div_eq_0_iff)
  assume d: "d \<le> n * NANOS"
  show "ceil_secs d \<le> n"
  proof (cases "d mod NANOS = 0")
    case True
    then show ?thesis using d div_le_mono [OF d, of NANOS] by (simp add: ceil_secs_def NANOS_def)
  next
    case False
    then have "d < n * NANOS" using d by (metis le_neq_implies_less mod_mult_self2_is_0)
    then show ?thesis using False less_mult_imp_div_less [of d n NANOS] by (simp add: ceil_secs_def)
  qed
qed

text \<open>
  Temporary visibility ends by itself. A countdown that is reported is between one and 600
  seconds. Six hundred seconds after any moment at which the durable policy was off, unless some
  thread has acted in between, nothing is open: no generation is offered for admission, no offer
  can be proposed or admitted, and the endpoint is not open any more.
\<close>

theorem temporary_visibility_ends:
  assumes "reachable w" "w_now w \<le> now"
  shows "(\<forall>phase s jobs core'. status now (w_core w) = Some ((phase, s), jobs, core') \<longrightarrow>
      (\<forall>r. remaining_secs s = Some r \<longrightarrow> 1 \<le> r \<and> r \<le> 600)) \<and>
    (\<not> vs_policy (fst (w_core w)) \<and> w_now w + TEMPORARY_LIFETIME \<le> now \<longrightarrow>
      (\<forall>g jobs core'. generation_if_open now (w_core w) = Some (g, jobs, core') \<longrightarrow>
         g = None \<and> vs_phase (fst core') \<noteq> VOpen) \<and>
      (\<forall>t a b jobs core'. admit now t a (w_core w) = Some (b, jobs, core') \<longrightarrow> \<not> b))"
proof -
  obtain st cs where core: "w_core w = (st, cs)" by fastforce
  have inv: "phase_ok (w_now w) st" "phase_ok now st"
    using reachable_inv [OF assms(1)] assms(2) core phase_ok_later by (auto simp: vis_inv_def)
  have "1 \<le> r \<and> r \<le> 600" if st: "status now (st, cs) = Some ((phase, s), jobs, core')"
    and r: "remaining_secs s = Some r" for phase s jobs core' r
  proof -
    obtain d where "r = ceil_secs (d - now)" "now < d" "d \<le> now + TEMPORARY_LIFETIME"
      using update_peek [OF st [unfolded status_def] inv(2)] r by (auto simp: phase_ok_def)
    then show ?thesis
      using ceil_secs_bounds(1) [of "d - now"] ceil_secs_bounds(2) [of "d - now" 600] by (simp add: TEMPORARY_LIFETIME_def)
  qed
  moreover have "g = None \<and> vs_phase (fst core') \<noteq> VOpen"
    if "\<not> vs_policy st" "w_now w + TEMPORARY_LIFETIME \<le> now" "generation_if_open now (st, cs) = Some (g, jobs, core')"
    for g jobs core'
  proof -
    have late: "\<exists>d. vs_deadline st = Some d \<and> d \<le> now" if "vs_phase st = VOpen"
      using inv(1) that \<open>\<not> vs_policy st\<close> \<open>w_now w + TEMPORARY_LIFETIME \<le> now\<close> by (fastforce simp: phase_ok_def)
    show ?thesis
      using that(3) [unfolded generation_if_open_def]
    proof (cases rule: update_cases)
      case (expired d st1)
      then show ?thesis using revoke_cases(6) [OF expired(3)] by (auto simp: peek_def admissible_def)
    next
      case current
      then show ?thesis using late by (fastforce simp: peek_def admissible_def)
    qed
  qed
  moreover have "\<not> b" if off: "\<not> vs_policy st" "w_now w + TEMPORARY_LIFETIME \<le> now"
    and ad: "admit now t a (st, cs) = Some (b, jobs, core')" for t a b jobs core'
  proof
    assume b
    then obtain c where "cs a = Some c"
      using ad by (auto simp: admit_def elim!: update_cases) (auto simp: admit_action_def split: bind_splits)
    then have "admissible st" "\<forall>d. vs_deadline st = Some d \<longrightarrow> now < d"
      using admit_True [of now t a st cs jobs core' c] ad \<open>b\<close> by auto
    then show False using inv(1) off by (fastforce simp: phase_ok_def admissible_def)
  qed
  ultimately show ?thesis unfolding core fst_conv by blast
qed

subsection \<open>Leases\<close>

text \<open>
  Leases are neither lost nor closed twice. Every lease that an activation ever handed over is,
  in every reachable state, in exactly one place: held by the open endpoint, waiting to be released
  by the thread that took it out, or closed, and it is closed at most once. An activation that
  finishes after its request was withdrawn is no exception.
\<close>

theorem leases_accounted:
  assumes "reachable w"
  shows "distinct (held (w_core w) @ job_ids (w_jobs w) @ w_closed w) \<and>
    set (held (w_core w)) \<union> set (job_ids (w_jobs w)) \<union> set (w_closed w) = set (w_taken w) \<and>
    (vs_phase (fst (w_core w)) \<noteq> VOpen \<longrightarrow> held (w_core w) = [])"
proof -
  have inv: "leases_inv w" using assms leases.holds_reachable by (auto simp: reachable_def)
  then have "mset (held (w_core w) @ job_ids (w_jobs w) @ w_closed w) = mset (w_taken w)" "distinct (w_taken w)"
    by (simp_all add: leases_inv_def union_assoc)
  then have "distinct (held (w_core w) @ job_ids (w_jobs w) @ w_closed w)"
    "set (held (w_core w) @ job_ids (w_jobs w) @ w_closed w) = set (w_taken w)"
    by (metis mset_eq_imp_distinct_iff, metis mset_eq_setD)
  moreover have "held (w_core w) = []" if "vs_phase (fst (w_core w)) \<noteq> VOpen"
    using inv that by (cases "w_core w") (auto simp: leases_inv_def vis_inv_def phase_ok_def)
  ultimately show ?thesis by (simp add: Un_assoc)
qed

subsection \<open>An example run\<close>

definition do_call :: "vis_op \<Rightarrow> nat \<Rightarrow> nat \<Rightarrow> world \<Rightarrow> world" where
  "do_call op now t w =
     (case vis_section op now t (w_core w) of
        None \<Rightarrow> w
      | Some (jobs, core) \<Rightarrow>
          w\<lparr>w_now := t, w_core := core, w_jobs := w_jobs w @ jobs, w_taken := w_taken w @ brought op\<rparr>)"

lemma do_call_reachable:
  assumes "reachable w" "w_now w \<le> now" "now \<le> t" "allowed op w" "vis_section op now t (w_core w) \<noteq> None"
  shows "reachable (do_call op now t w)"
proof -
  have "vis_step w (do_call op now t w)"
    using assms(5) by (auto simp: do_call_def intro: vis_step.call [OF assms(2-4)])
  then show ?thesis using assms(1) unfolding reachable_def by (meson rtranclp.rtrancl_into_rtrancl)
qed

definition ex_leases :: resources where
  "ex_leases = resources_new (Some \<lparr>ll_lease = 1, ll_stop = None\<rparr>) leases_default"

definition ex_opened :: world where
  "ex_opened = do_call (CompleteActivation 1 (Inr ex_leases)) 5 5 (do_call RequestOpen 0 0 (world_start 0))"

lemma ex_opened_eq:
  "ex_opened = \<lparr>w_now = 5, w_core = (vis_default\<lparr>vs_generation := 1, vs_requested := True, vs_phase := VOpen,
      vs_deadline := Some 600000000005, vs_resources := Some ex_leases, vs_media := [text_wifi_lan]\<rparr>, \<lambda>_. None),
      w_jobs = [], w_taken = [1], w_closed = []\<rparr>"
  by (simp add: ex_opened_def do_call_def world_start_def vis_default_def request_open_def update_def
      open_action_def vis_request_def checked_add_u64_def u64_max_def released_jobs_def option_list_def
      complete_activation_def complete_action_def ex_leases_def resources_media_def resources_new_def
      leases_media_def leases_default_def duration_saturating_add_def DURATION_MAX_def NANOS_def
      TEMPORARY_LIFETIME_def lease_ids_def resources_close_def leases_close_def)

lemma world_start_reachable: "reachable (world_start now)"
  unfolding reachable_def by blast

lemma ex_opened_reachable: "reachable ex_opened"
  unfolding ex_opened_def
  by (intro do_call_reachable world_start_reachable)
    (simp_all add: do_call_def world_start_def vis_default_def request_open_def update_def
      open_action_def vis_request_def checked_add_u64_def u64_max_def released_jobs_def option_list_def
      complete_activation_def complete_action_def ex_leases_def resources_new_def lease_ids_def
      resources_close_def leases_close_def leases_default_def)

text \<open>An offer is proposed and admitted; a second consent is proposed beside it.\<close>

definition ex_admitted :: world where
  "ex_admitted = do_call (Admit 7) 7 7 (do_call (Propose 1 20 7) 6 6 ex_opened)"

lemma ex_admitted_eq:
  "ex_admitted = ex_opened\<lparr>w_now := 7,
     w_core := ((fst (w_core ex_opened))\<lparr>vs_pending := Some 7\<rparr>,
       [7 \<mapsto> \<lparr>pc_generation = 1, pc_deadline = 26, pc_outcome = CPending, pc_share_id = None\<rparr>])\<rparr>"
  by (simp add: ex_admitted_def do_call_def ex_opened_eq propose_def admit_def update_def propose_action_def
      admit_action_def admissible_def vis_default_def consent_new_def duration_saturating_add_def DURATION_MAX_def
      NANOS_def u64_max_def upgrade_def consent_defs undecided_def released_jobs_def option_list_def)

lemma ex_admitted_reachable: "reachable ex_admitted"
  unfolding ex_admitted_def
  by (intro do_call_reachable ex_opened_reachable)
    (simp_all add: do_call_def ex_opened_eq propose_def admit_def update_def propose_action_def
      admit_action_def admissible_def vis_default_def consent_new_def duration_saturating_add_def DURATION_MAX_def
      NANOS_def u64_max_def upgrade_def consent_defs undecided_def released_jobs_def option_list_def)

theorem visibility_consistent_witness:
  "vs_resources (fst (w_core ex_admitted)) \<noteq> None \<and> vs_deadline (fst (w_core ex_admitted)) \<noteq> None \<and>
   vs_requested (fst (w_core ex_admitted))"
proof -
  have "vs_phase (fst (w_core ex_admitted)) = VOpen \<and> \<not> vs_policy (fst (w_core ex_admitted))"
    by (simp add: ex_admitted_eq ex_opened_eq vis_default_def)
  then show ?thesis
    using visibility_consistent [OF ex_admitted_reachable] unfolding Let_def by blast
qed

definition ex_accepted :: world where
  "ex_accepted = ex_admitted\<lparr>w_now := 9, w_core := (fst (w_core ex_admitted),
     (snd (w_core ex_admitted))(7 \<mapsto> consent_step CCancel 9
        \<lparr>pc_generation = 1, pc_deadline = 26, pc_outcome = CPending, pc_share_id = None\<rparr>))\<rparr>"

theorem consent_decided_once_witness:
  "pc_generation (the (snd (w_core ex_accepted) 7)) = 1 \<and> pc_deadline (the (snd (w_core ex_accepted) 7)) = 26"
proof -
  let ?c = "\<lparr>pc_generation = 1, pc_deadline = 26, pc_outcome = CPending, pc_share_id = None\<rparr>"
  have "vis_step ex_admitted ex_accepted"
    unfolding ex_accepted_def by (rule vis_step.consent_call) (simp_all add: ex_admitted_eq)
  moreover have "snd (w_core ex_admitted) 7 = Some ?c" by (simp add: ex_admitted_eq)
  moreover have after: "snd (w_core ex_accepted) 7 = Some (consent_step CCancel 9 ?c)"
    unfolding ex_accepted_def by simp
  ultimately have "pc_generation (consent_step CCancel 9 ?c) = pc_generation ?c \<and>
      pc_deadline (consent_step CCancel 9 ?c) = pc_deadline ?c"
    using consent_decided_once by blast
  then show ?thesis unfolding after option.sel by simp
qed

definition ex_closed :: world where
  "ex_closed = do_call Close 8 8 ex_admitted"

definition ex_closed_core :: core where
  "ex_closed_core = (vis_default\<lparr>vs_generation := 2, vs_pending := Some 7\<rparr>,
     [7 \<mapsto> \<lparr>pc_generation = 1, pc_deadline = 26, pc_outcome = CCancelled, pc_share_id = None\<rparr>])"

lemma ex_close: "close 8 8 (w_core ex_admitted) = Some ((), [(ex_leases, 2)], ex_closed_core)"
  by (simp add: close_def update_def close_action_def revoke_def ex_admitted_eq ex_opened_eq vis_default_def
      checked_add_u64_def u64_max_def upgrade_def consent_defs undecided_def released_jobs_def option_list_def
      ex_closed_core_def)

lemma ex_closed_admit:
  "admit 9 9 7 ex_closed_core = Some (False, [], ex_closed_core)"
  by (simp add: ex_closed_core_def admit_def update_def admit_action_def admissible_def vis_default_def
      consent_defs undecided_def released_jobs_def option_list_def)

theorem closing_revokes_witness:
  "admit 9 9 7 (w_core ex_closed) = Some (False, [], ex_closed_core) \<and>
     pc_outcome (the (snd ex_closed_core 7)) \<noteq> CPending"
proof -
  have core: "w_core ex_closed = ex_closed_core" by (simp add: ex_closed_def do_call_def ex_close)
  have "snd (w_core ex_closed) 7 = Some \<lparr>pc_generation = 1, pc_deadline = 26, pc_outcome = CCancelled, pc_share_id = None\<rparr>"
    by (simp add: core ex_closed_core_def)
  then show ?thesis
    using closing_revokes [OF ex_admitted_reachable ex_close core rtranclp.rtrancl_refl _ _ ex_closed_admit [folded core]]
      ex_closed_admit core
    by (simp add: ex_admitted_eq ex_opened_eq)
qed

theorem temporary_visibility_ends_witness:
  "\<exists>g jobs core'. generation_if_open 600000000005 (w_core ex_opened) = Some (g, jobs, core') \<and>
     g = None \<and> vs_phase (fst core') \<noteq> VOpen"
proof -
  have "generation_if_open 600000000005 (w_core ex_opened) \<noteq> None"
    by (simp add: generation_if_open_def update_def revoke_def ex_opened_eq vis_default_def
        checked_add_u64_def u64_max_def peek_def)
  then show ?thesis
    using temporary_visibility_ends [OF ex_opened_reachable, of 600000000005]
    by (auto simp: ex_opened_eq vis_default_def TEMPORARY_LIFETIME_def NANOS_def)
qed

theorem leases_accounted_witness:
  "distinct (held (w_core ex_admitted) @ job_ids (w_jobs ex_admitted) @ w_closed ex_admitted) \<and>
   set (held (w_core ex_admitted)) \<union> set (job_ids (w_jobs ex_admitted)) \<union> set (w_closed ex_admitted) = {1}"
  using leases_accounted [OF ex_admitted_reachable] by (simp add: ex_admitted_eq ex_opened_eq)

end
