(* ===== verification/Control_Messages.thy ===== *)
theory Control_Messages
  imports Sharing_State Sharing_Types Conn_Stream
begin

text \<open>
  The local control protocol (\<open>crates/core/control/src\<close>: \<open>request.rs\<close>, \<open>request/simulation.rs\<close>,
  \<open>response.rs\<close>, \<open>codec.rs\<close>): versioned requests and responses, one JSON record per line. The JSON
  encoder and decoder are parameters.
\<close>

definition PROTOCOL_VERSION :: nat where "PROTOCOL_VERSION = 6"

subsection \<open>Requests\<close>

datatype control_request =
    RqAccept nat | RqCancel nat | RqCloseVisibility | RqDiscover | RqDismiss nat | RqOpenVisibility
  | RqPatchPreferences rstring rstring | RqPinPeer rstring | RqReject nat | RqSelectPeer rstring nat
  | RqSimulateComplete nat | RqSimulateDiscoveryTimeout | RqSimulateFail nat | RqSimulateIncomingFile rstring nat
  | RqSimulateIncomingText rstring | RqSimulateIncomingUrl rstring | RqSimulatePeerAccept nat
  | RqSimulatePeerLost rstring | RqSimulatePeerReject nat | RqSimulatePeerSeen rstring rstring
  | RqSimulateProgress nat nat | RqSnapshot | RqStatus | RqStopDiscovery
  | RqSubmitFile rstring "rstring option" | RqSubmitText "rstring option" rstring
  | RqSubmitUrl "rstring option" rstring | RqUnpinPeer

record request_envelope =
  rq_request :: control_request
  rq_version :: nat

definition request_of :: "control_request \<Rightarrow> request_envelope" where
  "request_of r = \<lparr>rq_request = r, rq_version = PROTOCOL_VERSION\<rparr>"

definition request_accept :: "nat \<Rightarrow> request_envelope" where
  "request_accept share_id = request_of (RqAccept share_id)"
definition request_cancel :: "nat \<Rightarrow> request_envelope" where
  "request_cancel share_id = request_of (RqCancel share_id)"
definition request_close_visibility :: request_envelope where
  "request_close_visibility = request_of RqCloseVisibility"
definition request_discover :: request_envelope where "request_discover = request_of RqDiscover"
definition request_dismiss :: "nat \<Rightarrow> request_envelope" where
  "request_dismiss share_id = request_of (RqDismiss share_id)"
definition request_open_visibility :: request_envelope where
  "request_open_visibility = request_of RqOpenVisibility"
definition request_patch_preferences :: "rstring \<Rightarrow> rstring \<Rightarrow> request_envelope" where
  "request_patch_preferences key value = request_of (RqPatchPreferences key value)"
definition request_pin_peer :: "rstring \<Rightarrow> request_envelope" where
  "request_pin_peer peer_id = request_of (RqPinPeer peer_id)"
definition request_reject :: "nat \<Rightarrow> request_envelope" where
  "request_reject share_id = request_of (RqReject share_id)"
definition request_select_peer :: "nat \<Rightarrow> rstring \<Rightarrow> request_envelope" where
  "request_select_peer share_id peer_id = request_of (RqSelectPeer peer_id share_id)"
definition request_snapshot :: request_envelope where "request_snapshot = request_of RqSnapshot"
definition request_status :: request_envelope where "request_status = request_of RqStatus"
definition request_stop_discovery :: request_envelope where
  "request_stop_discovery = request_of RqStopDiscovery"
definition submit_file_for :: "rstring \<Rightarrow> rstring option \<Rightarrow> request_envelope" where
  "submit_file_for path peer_id = request_of (RqSubmitFile path peer_id)"
definition submit_file :: "rstring \<Rightarrow> request_envelope" where "submit_file path = submit_file_for path None"
definition submit_file_to_peer :: "rstring \<Rightarrow> rstring \<Rightarrow> request_envelope" where
  "submit_file_to_peer path peer_id = submit_file_for path (Some peer_id)"
definition submit_text_for :: "rstring \<Rightarrow> rstring option \<Rightarrow> request_envelope" where
  "submit_text_for text peer_id = request_of (RqSubmitText peer_id text)"
definition submit_text :: "rstring \<Rightarrow> request_envelope" where "submit_text text = submit_text_for text None"
definition submit_text_to_peer :: "rstring \<Rightarrow> rstring \<Rightarrow> request_envelope" where
  "submit_text_to_peer text peer_id = submit_text_for text (Some peer_id)"
definition submit_url_for :: "rstring \<Rightarrow> rstring option \<Rightarrow> request_envelope" where
  "submit_url_for url peer_id = request_of (RqSubmitUrl peer_id url)"
definition submit_url :: "rstring \<Rightarrow> request_envelope" where "submit_url url = submit_url_for url None"
definition submit_url_to_peer :: "rstring \<Rightarrow> rstring \<Rightarrow> request_envelope" where
  "submit_url_to_peer url peer_id = submit_url_for url (Some peer_id)"
definition request_unpin_peer :: request_envelope where "request_unpin_peer = request_of RqUnpinPeer"

definition simulate_complete :: "nat \<Rightarrow> request_envelope" where
  "simulate_complete share_id = request_of (RqSimulateComplete share_id)"
definition simulate_discovery_timeout :: request_envelope where
  "simulate_discovery_timeout = request_of RqSimulateDiscoveryTimeout"
definition simulate_fail :: "nat \<Rightarrow> request_envelope" where
  "simulate_fail share_id = request_of (RqSimulateFail share_id)"
definition simulate_incoming_file :: "rstring \<Rightarrow> nat \<Rightarrow> request_envelope" where
  "simulate_incoming_file name bytes = request_of (RqSimulateIncomingFile name bytes)"
definition simulate_incoming_text :: "rstring \<Rightarrow> request_envelope" where
  "simulate_incoming_text text = request_of (RqSimulateIncomingText text)"
definition simulate_incoming_url :: "rstring \<Rightarrow> request_envelope" where
  "simulate_incoming_url url = request_of (RqSimulateIncomingUrl url)"
definition simulate_peer_accept :: "nat \<Rightarrow> request_envelope" where
  "simulate_peer_accept share_id = request_of (RqSimulatePeerAccept share_id)"
definition simulate_peer_lost :: "rstring \<Rightarrow> request_envelope" where
  "simulate_peer_lost peer_id = request_of (RqSimulatePeerLost peer_id)"
definition simulate_peer_reject :: "nat \<Rightarrow> request_envelope" where
  "simulate_peer_reject share_id = request_of (RqSimulatePeerReject share_id)"
definition simulate_peer_seen :: "rstring \<Rightarrow> rstring \<Rightarrow> request_envelope" where
  "simulate_peer_seen peer_id name = request_of (RqSimulatePeerSeen name peer_id)"
definition simulate_progress :: "nat \<Rightarrow> nat \<Rightarrow> request_envelope" where
  "simulate_progress share_id transferred_bytes = request_of (RqSimulateProgress share_id transferred_bytes)"

subsection \<open>Responses\<close>

record preference_values =
  pv_consent_timeout_secs :: nat
  pv_device_name :: "rstring option"
  pv_discoverable :: bool
  pv_discovery_timeout_secs :: nat
  pv_pinned_peer_id :: "rstring option"
  pv_read_clipboard_on_select :: bool
  pv_receive_directory :: rstring
  pv_transfer_timeout_secs :: nat

record preference_status =
  ps_applied :: "preference_values option"
  ps_error :: "rstring option"
  ps_pending :: bool
  ps_saved :: "preference_values option"

definition preference_status_default :: preference_status where
  "preference_status_default = \<lparr>ps_applied = None, ps_error = None, ps_pending = False, ps_saved = None\<rparr>"

datatype control_response =
    RsApplied | RsCancelled | RsNotFound | RsPreferences preference_status | RsQueued nat | RsReady
  | RsSnapshot preference_status endpoint_snapshot

record response_envelope =
  rs_response :: control_response
  rs_version :: nat

definition response_of :: "control_response \<Rightarrow> response_envelope" where
  "response_of r = \<lparr>rs_response = r, rs_version = PROTOCOL_VERSION\<rparr>"

definition applied :: response_envelope where "applied = response_of RsApplied"
definition cancelled :: response_envelope where "cancelled = response_of RsCancelled"
definition not_found :: response_envelope where "not_found = response_of RsNotFound"
definition preferences_response :: "preference_status \<Rightarrow> response_envelope" where
  "preferences_response p = response_of (RsPreferences p)"
definition queued_with :: "nat \<Rightarrow> response_envelope" where "queued_with share_id = response_of (RsQueued share_id)"
definition ready :: response_envelope where "ready = response_of RsReady"
definition snapshot_response :: "endpoint_snapshot \<Rightarrow> preference_status \<Rightarrow> response_envelope" where
  "snapshot_response s p = response_of (RsSnapshot p s)"

subsection \<open>Records on a line\<close>

text \<open>\<open>BufRead::read_line\<close> on a stream with the given bytes: through the newline or to the end.\<close>

definition read_line :: "bytes \<Rightarrow> (io_kind + bytes) \<times> bytes" where
  "read_line s =
     (let line = takeWhile (\<lambda>b. b \<noteq> 10) s @ take 1 (dropWhile (\<lambda>b. b \<noteq> 10) s);
          rest = drop 1 (dropWhile (\<lambda>b. b \<noteq> 10) s)
      in if utf8_valid line then (Inr line, rest) else (Inl IInvalidData, rest))"

definition read_record :: "(bytes \<Rightarrow> 'a option) \<Rightarrow> bytes \<Rightarrow> (io_kind + 'a) \<times> bytes" where
  "read_record decode s =
     (case read_line s of
        (Inl e, s) \<Rightarrow> (Inl e, s)
      | (Inr record, s) \<Rightarrow>
          if record = [] then (Inl IUnexpectedEof, s)
          else (case decode record of None \<Rightarrow> Inl IInvalidData | Some x \<Rightarrow> Inr x, s))"

text \<open>
  \<open>write_request\<close> and \<open>write_response\<close>: the JSON writer reports every failure as invalid data. The
  writer is a function on its state.
\<close>

definition write_record ::
  "('a \<Rightarrow> bytes option) \<Rightarrow> (bytes \<Rightarrow> 'w \<Rightarrow> (io_kind + unit) \<times> 'w) \<Rightarrow> 'a \<Rightarrow> 'w \<Rightarrow> (io_kind + unit) \<times> 'w" where
  "write_record encode write_all x w =
     (case encode x of
        None \<Rightarrow> (Inl IInvalidData, w)
      | Some bs \<Rightarrow>
          (case write_all bs w of
             (Inl e, w) \<Rightarrow> (Inl IInvalidData, w)
           | (Inr _, w) \<Rightarrow> write_all [10] w))"

text \<open>A writer that keeps what it is given.\<close>

definition keep_all :: "bytes \<Rightarrow> bytes \<Rightarrow> (io_kind + unit) \<times> bytes" where
  "keep_all bs w = (Inr (), w @ bs)"

fun write_records :: "('a \<Rightarrow> bytes option) \<Rightarrow> 'a list \<Rightarrow> bytes \<Rightarrow> bytes" where
  "write_records encode [] w = w"
| "write_records encode (x # xs) w = write_records encode xs (snd (write_record encode keep_all x w))"

fun read_records :: "(bytes \<Rightarrow> 'a option) \<Rightarrow> nat \<Rightarrow> bytes \<Rightarrow> (io_kind + 'a) list \<times> bytes" where
  "read_records decode 0 s = ([], s)"
| "read_records decode (Suc n) s =
     (let (r, s) = read_record decode s; (rs, s) = read_records decode n s in (r # rs, s))"

text \<open>What the JSON library promises of a message: one line, read back with its newline.\<close>

definition json_ok :: "('a \<Rightarrow> bytes option) \<Rightarrow> (bytes \<Rightarrow> 'a option) \<Rightarrow> 'a \<Rightarrow> bool" where
  "json_ok encode decode x \<longleftrightarrow>
     (case encode x of
        None \<Rightarrow> False
      | Some bs \<Rightarrow> 10 \<notin> set bs \<and> utf8_valid (bs @ [10]) \<and> decode (bs @ [10]) = Some x)"

lemma read_written:
  assumes "encode x = Some bs" "json_ok encode decode x"
  shows "read_record decode (bs @ 10 # rest) = (Inr x, rest)"
proof -
  have bs: "10 \<notin> set bs" "utf8_valid (bs @ [10])" "decode (bs @ [10]) = Some x"
    using assms by (simp_all add: json_ok_def)
  have "takeWhile (\<lambda>b. b \<noteq> 10) (bs @ 10 # rest) = bs" "dropWhile (\<lambda>b. b \<noteq> 10) (bs @ 10 # rest) = 10 # rest"
    using bs(1) by (induction bs) auto
  then show ?thesis using bs by (simp add: read_record_def read_line_def Let_def)
qed

lemma write_records_append:
  assumes "list_all (json_ok encode decode) xs"
  shows "\<exists>out. write_records encode xs w = w @ out \<and>
    (\<forall>rest. read_records decode (length xs) (out @ rest) = (map Inr xs, rest))"
  using assms
proof (induction xs arbitrary: w)
  case (Cons x xs)
  obtain bs where bs: "encode x = Some bs" using Cons.prems by (auto simp: json_ok_def split: option.splits)
  have w: "snd (write_record encode keep_all x w) = w @ bs @ [10]"
    using bs by (simp add: write_record_def keep_all_def)
  obtain out where out: "write_records encode xs (w @ bs @ [10]) = (w @ bs @ [10]) @ out"
    "\<forall>rest. read_records decode (length xs) (out @ rest) = (map Inr xs, rest)"
    using Cons.IH [of "w @ bs @ [10]"] Cons.prems by (auto simp del: append_assoc)
  have "read_record decode ((bs @ [10] @ out) @ rest) = (Inr x, out @ rest)" for rest
    using read_written [of encode x bs decode "out @ rest"] bs Cons.prems by simp
  then show ?case using w out by (intro exI [of _ "bs @ [10] @ out"]) simp
qed simp

text \<open>
  Local control messages written one after another are read back one by one, in order and complete,
  whatever follows them on the stream, for every JSON encoding that keeps a message on one line.
\<close>

theorem control_records_roundtrip:
  assumes "list_all (json_ok encode decode) xs"
  shows "read_records decode (length xs) (write_records encode xs [] @ rest) = (map Inr xs, rest)"
  using write_records_append [OF assms, of "[]"] by auto

definition ex_encode :: "request_envelope \<Rightarrow> bytes option" where
  "ex_encode r = (if r = request_status then Some [49] else if r = request_cancel 3 then Some [50] else None)"

definition ex_decode :: "bytes \<Rightarrow> request_envelope option" where
  "ex_decode bs = (if bs = [49, 10] then Some request_status else if bs = [50, 10] then Some (request_cancel 3) else None)"

theorem control_records_roundtrip_witness:
  "read_records ex_decode 2 (write_records ex_encode [request_cancel 3, request_status] [] @ [7]) =
     ([Inr (request_cancel 3), Inr request_status], [7])"
proof -
  have "list_all (json_ok ex_encode ex_decode) [request_cancel 3, request_status]"
    by (simp add: json_ok_def ex_encode_def ex_decode_def request_cancel_def request_status_def request_of_def in_range_def)
  from control_records_roundtrip [OF this, of "[7]"] show ?thesis by (simp add: numeral_2_eq_2)
qed

end
