(* ===== verification/Daemon_State.thy ===== *)
theory Daemon_State
  imports Daemon_Visibility Daemon_Config Storage_Source Control_Messages Sharing_Coordinator Conn_Upgrade
begin

text \<open>
  The state of the local endpoint (\<open>Daemon\<close> of \<open>crates/app/src/daemon.rs\<close>) and what its handlers
  are built from: clocks, the shared visibility with other threads running in between, the channels to
  the network worker (\<open>daemon/network.rs\<close>), the private facts of outbound shares
  (\<open>daemon/outbound.rs\<close>) and the texts of \<open>daemon/observations.rs\<close>.

  \<^item> The clocks advance by scripted amounts between readings; both count nanoseconds.
  \<^item> Before every access to the shared visibility the coming calls of other threads are made; they are
    calls of the methods modelled in \<open>Daemon_Visibility\<close>.
  \<^item> The results of receiving from and sending to the worker, of accepting clients, of reading the
    directory watch, of creating directories and of archiving a folder are scripted.
  \<^item> \<open>None\<close> is a panic (the visibility generations are exhausted).
\<close>

subsection \<open>Routes and payloads\<close>

text \<open>A route is its medium and an opaque candidate.\<close>

datatype peer_route = RouteBle nat | RouteClassic nat | RouteLan nat

fun route_medium :: "peer_route \<Rightarrow> medium" where
  "route_medium (RouteBle _) = Ble"
| "route_medium (RouteClassic _) = Bluetooth"
| "route_medium (RouteLan _) = WifiLan"

definition attempt_order :: "medium list" where
  "attempt_order = [WifiLan, WifiHotspot, WifiDirect, Ble, Bluetooth]"

definition WIFI_HOTSPOT :: rstring where "WIFI_HOTSPOT = ascii ''wifi_hotspot''"
definition WIFI_DIRECT :: rstring where "WIFI_DIRECT = ascii ''wifi_direct''"

fun medium_name :: "medium \<Rightarrow> rstring" where
  "medium_name Ble = text_ble"
| "medium_name Bluetooth = text_bluetooth"
| "medium_name WifiLan = text_wifi_lan"
| "medium_name WifiHotspot = WIFI_HOTSPOT"
| "medium_name WifiDirect = WIFI_DIRECT"

datatype outbound_payload = PFile outbound_source | PText rstring | PUrl rstring

record outbound_transfer =
  ot_payload :: outbound_payload
  ot_routes :: "peer_route list"

record outbound_state =
  ob_archives :: "nat \<Rightarrow> rstring option"
  ob_payloads :: "nat \<Rightarrow> outbound_payload option"
  ob_routes :: "rstring \<Rightarrow> peer_route list option"

definition outbound_default :: outbound_state where
  "outbound_default = \<lparr>ob_archives = \<lambda>_. None, ob_payloads = \<lambda>_. None, ob_routes = \<lambda>_. None\<rparr>"

text \<open>The removal of the archive file is best effort and not part of the state.\<close>

definition outbound_finish :: "nat \<Rightarrow> outbound_state \<Rightarrow> outbound_state" where
  "outbound_finish share_id ob =
     ob\<lparr>ob_payloads := (ob_payloads ob)(share_id := None), ob_archives := (ob_archives ob)(share_id := None)\<rparr>"

definition forget_peer :: "rstring \<Rightarrow> outbound_state \<Rightarrow> outbound_state" where
  "forget_peer peer_id ob = ob\<lparr>ob_routes := (ob_routes ob)(peer_id := None)\<rparr>"

definition remember_archive :: "nat \<Rightarrow> rstring \<Rightarrow> outbound_state \<Rightarrow> outbound_state" where
  "remember_archive share_id archive ob = ob\<lparr>ob_archives := (ob_archives ob)(share_id \<mapsto> archive)\<rparr>"

definition remember_payload :: "nat \<Rightarrow> outbound_payload \<Rightarrow> outbound_state \<Rightarrow> outbound_state" where
  "remember_payload share_id p ob = ob\<lparr>ob_payloads := (ob_payloads ob)(share_id \<mapsto> p)\<rparr>"

definition remember_file :: "nat \<Rightarrow> outbound_source \<Rightarrow> outbound_state \<Rightarrow> outbound_state" where
  "remember_file share_id source = remember_payload share_id (PFile source)"

definition remember_text :: "nat \<Rightarrow> rstring \<Rightarrow> outbound_state \<Rightarrow> outbound_state" where
  "remember_text share_id value = remember_payload share_id (PText value)"

definition remember_url :: "nat \<Rightarrow> rstring \<Rightarrow> outbound_state \<Rightarrow> outbound_state" where
  "remember_url share_id value = remember_payload share_id (PUrl value)"

definition order_key :: "peer_route \<Rightarrow> nat" where
  "order_key route = length (takeWhile (\<lambda>m. m \<noteq> route_medium route) attempt_order)"

definition remember_peer :: "rstring \<Rightarrow> peer_route \<Rightarrow> outbound_state \<Rightarrow> outbound_state" where
  "remember_peer peer_id route ob =
     (let routes = (case ob_routes ob peer_id of None \<Rightarrow> [] | Some rs \<Rightarrow> rs);
          routes = (if route \<in> set routes then routes else sort_key order_key (routes @ [route]))
      in ob\<lparr>ob_routes := (ob_routes ob)(peer_id \<mapsto> routes)\<rparr>)"

definition outbound_transfer_of :: "nat \<Rightarrow> rstring \<Rightarrow> outbound_state \<Rightarrow> outbound_transfer option" where
  "outbound_transfer_of share_id peer_id ob =
     (case ob_routes ob peer_id of
        None \<Rightarrow> None
      | Some routes \<Rightarrow>
          if routes = [] then None
          else case ob_payloads ob share_id of
            None \<Rightarrow> None
          | Some p \<Rightarrow> Some \<lparr>ot_payload = p, ot_routes = routes\<rparr>)"

subsection \<open>Channels to the network worker\<close>

datatype network_command =
    Configure config | Discover | OpenVisibility nat | SendShare nat outbound_transfer | StopDiscovery

datatype network_event =
    VisibilityChanged | InboundCancelled nat | InboundCompleted nat offer_kind nat "rstring option"
  | InboundFailed rstring "nat option" "nat option" | InboundOffered nat offer_kind rstring nat rstring
  | InboundRejected nat | OutboundAccepted nat | OutboundCancelled nat | OutboundCompleted nat nat
  | OutboundFailed rstring nat | OutboundPairing nat rstring | OutboundRejected nat | PeerLost rstring
  | PeerSeen rstring rstring peer_route | PreferencesConfigured config "rstring option" | Progress rstring nat nat

text \<open>
  \<open>nw_received\<close> are the results of receiving: an event, or nothing yet; when they run out the channel
  is empty, or closed. \<open>nw_sends\<close> says which of the coming sends find the worker alive. The
  cancellation flag holds a share, or zero.
\<close>

record network_worker =
  nw_received :: "network_event option list"
  nw_closed :: bool
  nw_sends :: "bool list"
  nw_sent :: "network_command list"
  nw_cancel :: nat

definition next_event :: "network_worker \<Rightarrow> (io_kind + network_event option) \<times> network_worker" where
  "next_event n =
     (case nw_received n of
        [] \<Rightarrow> (if nw_closed n then Inl IBrokenPipe else Inr None, n)
      | e # es \<Rightarrow> (Inr e, n\<lparr>nw_received := es\<rparr>))"

definition network_send :: "network_command \<Rightarrow> network_worker \<Rightarrow> (io_kind + unit) \<times> network_worker" where
  "network_send command n =
     (case nw_sends n of
        [] \<Rightarrow> (Inr (), n\<lparr>nw_sent := nw_sent n @ [command]\<rparr>)
      | b # bs \<Rightarrow>
          (if b then (Inr (), n\<lparr>nw_sends := bs, nw_sent := nw_sent n @ [command]\<rparr>)
           else (Inl IBrokenPipe, n\<lparr>nw_sends := bs\<rparr>)))"

definition cancel_transfer :: "nat \<Rightarrow> network_worker \<Rightarrow> network_worker" where
  "cancel_transfer share_id n = n\<lparr>nw_cancel := share_id\<rparr>"

definition cancellation_finish :: "nat \<Rightarrow> network_worker \<Rightarrow> network_worker" where
  "cancellation_finish share_id n = (if nw_cancel n = share_id then n\<lparr>nw_cancel := 0\<rparr> else n)"

definition transfer_is_cancelled :: "nat \<Rightarrow> network_worker \<Rightarrow> bool" where
  "transfer_is_cancelled share_id n \<longleftrightarrow> nw_cancel n = share_id"

subsection \<open>The endpoint\<close>

record operation_timeouts =
  to_discovery :: nat
  to_transfer :: nat
  to_transfer_share_id :: "nat option"

definition timeouts_default :: operation_timeouts where
  "timeouts_default = \<lparr>to_discovery = 0, to_transfer = 0, to_transfer_share_id = None\<rparr>"

datatype notify_kind = Sent | Received | Error

text \<open>
  A call the worker makes on the shared visibility or on a consent, with the clock readings it gets, and
  the methods it calls there. Admission, binding and acceptance are called by the endpoint only.
\<close>

datatype other_call = OnVisibility vis_op nat nat | OnConsent nat consent_op nat

fun worker_visibility :: "vis_op \<Rightarrow> bool" where
  "worker_visibility Close = True"
| "worker_visibility (CompleteActivation _ _) = True"
| "worker_visibility (ActivationRequested _) = True"
| "worker_visibility GenerationIfOpen = True"
| "worker_visibility WithResources = True"
| "worker_visibility (Propose _ _ _) = True"
| "worker_visibility _ = False"

fun worker_consent :: "consent_op \<Rightarrow> bool" where
  "worker_consent COutcome = True"
| "worker_consent CShareId = True"
| "worker_consent CCancelUnadmitted = True"
| "worker_consent (CFail _) = True"
| "worker_consent CCancel = True"
| "worker_consent _ = False"

text \<open>What a client does: it is not there, or it sends bytes.\<close>

type_synonym client = "io_kind + bytes"

record daemon =
  dm_config :: config
  dm_watch :: "(io_kind + bool) list option"
  dm_discovery_started_at :: "nat option"
  dm_network :: "network_worker option"
  dm_outbound :: outbound_state
  dm_preferences :: preference_status
  dm_queued :: "request_envelope list"
  dm_sharing :: coordinator
  dm_simulated :: bool
  dm_timeouts :: operation_timeouts
  dm_transfer_started_at :: "nat option"
  dm_visibility :: core
  dm_pending_consent :: "nat option"
  dm_boot :: nat
  dm_instant :: nat
  dm_ticks :: "(nat \<times> nat) list"
  dm_others :: "other_call list list"
  dm_files :: config_files
  dm_env :: environment
  dm_parse :: "bytes \<Rightarrow> document option"
  dm_print :: "document \<Rightarrow> bytes"
  dm_show :: "io_kind \<Rightarrow> rstring"
  dm_decode :: "bytes \<Rightarrow> request_envelope option"
  dm_fs :: fs_world
  dm_is_dir :: "bool list"
  dm_archived :: "(io_kind + rstring) list"
  dm_mkdir :: "io_kind option list"
  dm_clients :: "client list"
  dm_replies :: "response_envelope list"
  dm_notices :: "notify_kind list"

definition tick :: "daemon \<Rightarrow> daemon" where
  "tick d =
     (case dm_ticks d of
        [] \<Rightarrow> d
      | (a, b) # ts \<Rightarrow> d\<lparr>dm_ticks := ts, dm_boot := dm_boot d + a, dm_instant := dm_instant d + b\<rparr>)"

text \<open>\<open>Instant::now\<close> and the boot clock of the visibility.\<close>

definition instant_now :: "daemon \<Rightarrow> nat \<times> daemon" where
  "instant_now d = (let d = tick d in (dm_instant d, d))"

definition boot_now :: "daemon \<Rightarrow> nat \<times> daemon" where
  "boot_now d = (let d = tick d in (dm_boot d, d))"

text \<open>The leases a method releases after the lock.\<close>

definition release_all :: "jobs \<Rightarrow> vis_state \<Rightarrow> vis_state" where
  "release_all jobs st = fold (\<lambda>job st. fst (release job st)) jobs st"

text \<open>
  One call of the worker. A thread that panics leaves the state as it was; a consent is only called
  while it is alive, and a proposal gets an address that is free.
\<close>

definition address_free :: "vis_op \<Rightarrow> consent_store \<Rightarrow> bool" where
  "address_free op cs \<longleftrightarrow> (case op of Propose _ _ a \<Rightarrow> cs a = None | _ \<Rightarrow> True)"

fun other_step :: "other_call \<Rightarrow> core \<Rightarrow> core" where
  "other_step (OnVisibility op now t) core =
     (if worker_visibility op \<and> address_free op (snd core) then
        (case vis_section op now t core of None \<Rightarrow> core | Some (jobs, st, cs) \<Rightarrow> (release_all jobs st, cs))
      else core)"
| "other_step (OnConsent a op t) core =
     (case snd core a of
        Some c \<Rightarrow> if worker_consent op then (fst core, (snd core)(a \<mapsto> consent_step op t c)) else core
      | None \<Rightarrow> core)"

definition interfere :: "daemon \<Rightarrow> daemon" where
  "interfere d =
     (case dm_others d of
        [] \<Rightarrow> d
      | calls # rest \<Rightarrow> d\<lparr>dm_others := rest, dm_visibility := fold other_step calls (dm_visibility d)\<rparr>)"

text \<open>A method of the visibility, with the readings for its section and for the consents in it.\<close>

definition vis_call :: "(nat \<Rightarrow> nat \<Rightarrow> core \<Rightarrow> ('a \<times> jobs \<times> core) option) \<Rightarrow> daemon \<Rightarrow> ('a \<times> daemon) option" where
  "vis_call section d =
     (let d = interfere d;
          (now, d) = boot_now d;
          (t, d) = boot_now d
      in do { (x, jobs, st, cs) \<leftarrow> section now t (dm_visibility d);
              Some (x, d\<lparr>dm_visibility := (release_all jobs st, cs)\<rparr>) })"

text \<open>A method of a consent the caller holds.\<close>

definition consent_call :: "nat \<Rightarrow> (nat \<Rightarrow> pending_consent \<Rightarrow> 'a \<times> pending_consent) \<Rightarrow> daemon \<Rightarrow> ('a \<times> daemon) option" where
  "consent_call a method d =
     (let d = interfere d;
          (t, d) = boot_now d
      in case snd (dm_visibility d) a of
           None \<Rightarrow> None
         | Some c \<Rightarrow> (case method t c of (x, c) \<Rightarrow>
             Some (x, d\<lparr>dm_visibility := (fst (dm_visibility d), (snd (dm_visibility d))(a \<mapsto> c))\<rparr>)))"

text \<open>A method of the coordinator, and one without a result.\<close>

definition on_sharing :: "(coordinator \<Rightarrow> 'a \<times> coordinator) \<Rightarrow> daemon \<Rightarrow> 'a \<times> daemon" where
  "on_sharing f d = (case f (dm_sharing d) of (x, c) \<Rightarrow> (x, d\<lparr>dm_sharing := c\<rparr>))"

definition in_sharing :: "(coordinator \<Rightarrow> coordinator) \<Rightarrow> daemon \<Rightarrow> daemon" where
  "in_sharing f d = d\<lparr>dm_sharing := f (dm_sharing d)\<rparr>"

definition in_outbound :: "(outbound_state \<Rightarrow> outbound_state) \<Rightarrow> daemon \<Rightarrow> daemon" where
  "in_outbound f d = d\<lparr>dm_outbound := f (dm_outbound d)\<rparr>"

definition notify :: "notify_kind \<Rightarrow> daemon \<Rightarrow> daemon" where
  "notify kind d = d\<lparr>dm_notices := dm_notices d @ [kind]\<rparr>"

definition active :: "daemon \<Rightarrow> share_snapshot option" where
  "active d = active_share (snapshot (dm_sharing d))"

text \<open>Commands to the worker; without one nothing happens.\<close>

definition to_worker :: "network_command \<Rightarrow> daemon \<Rightarrow> (io_kind + unit) \<times> daemon" where
  "to_worker command d =
     (case dm_network d of
        None \<Rightarrow> (Inr (), d)
      | Some n \<Rightarrow> (case network_send command n of (r, n) \<Rightarrow> (r, d\<lparr>dm_network := Some n\<rparr>)))"

definition worker_cancel :: "nat \<Rightarrow> daemon \<Rightarrow> daemon" where
  "worker_cancel share_id d = d\<lparr>dm_network := map_option (cancel_transfer share_id) (dm_network d)\<rparr>"

text \<open>\<open>Daemon::new\<close> with the scripts of \<open>d\<close>.\<close>

definition daemon_new :: "daemon \<Rightarrow> daemon" where
  "daemon_new d =
     d\<lparr>dm_config := config_default (dm_env d), dm_watch := None, dm_discovery_started_at := None, dm_network := None,
       dm_outbound := outbound_default, dm_preferences := preference_status_default, dm_queued := [],
       dm_sharing := coordinator_new, dm_simulated := False, dm_timeouts := timeouts_default,
       dm_transfer_started_at := None, dm_visibility := (vis_default, \<lambda>_. None), dm_pending_consent := None,
       dm_replies := [], dm_notices := []\<rparr>"

definition daemon_simulated :: "daemon \<Rightarrow> daemon" where
  "daemon_simulated d =
     in_sharing (observe_peer (ascii ''galaxy-tab'') (ascii ''Galaxy Tab''))
       (in_sharing (observe_peer (ascii ''pixel-8'') (ascii (''Ollie'' @ [CHR 0x27] @ ''s Pixel'')))
          ((daemon_new d)\<lparr>dm_simulated := True\<rparr>))"

definition with_network_worker :: "network_worker \<Rightarrow> daemon \<Rightarrow> daemon" where
  "with_network_worker n d = (daemon_new d)\<lparr>dm_network := Some n\<rparr>"

subsection \<open>Observations\<close>

definition remaining_seconds :: "nat \<Rightarrow> nat \<Rightarrow> nat \<Rightarrow> nat option" where
  "remaining_seconds transferred tot elapsed =
     (let elapsed_secs = elapsed div NANOS
      in if transferred = 0 \<or> elapsed_secs = 0 \<or> transferred > tot then None
         else Some (min ((tot - transferred) * elapsed_secs) u64_max div transferred))"

definition recovery_guidance :: "rstring \<Rightarrow> rstring" where
  "recovery_guidance why =
     (if why = ascii ''cancelled'' then ascii ''Submit the content again if you still want to send it.''
      else if why = ascii ''collision'' then ascii ''Rename the inbound file or clear the receive directory.''
      else if why = ascii ''disconnected'' then ascii ''Reconnect and send the share again.''
      else if why = ascii ''interrupted'' then ascii ''Accept the share again to finish receiving.''
      else if why \<in> {ascii ''invalid_name'', ascii ''invalid_payload'', ascii ''unsupported''}
        then ascii ''Send a file, text, or URL instead.''
      else if why = ascii ''mutation'' then ascii ''Keep the outbound file unchanged until the share completes.''
      else if why = ascii ''quota'' then ascii ''Free space in the receive directory and retry.''
      else if why = ascii ''rejected'' then ascii ''Choose another peer or ask the receiver to accept.''
      else if why = ascii ''size_mismatch'' then ascii ''Retry the share; the file size did not match.''
      else if why = ascii ''timed_out'' then ascii ''Retry while both devices stay nearby.''
      else ascii ''Retry the share. Confirm the peer is nearby.'')"

definition storage_reason :: "storage_error \<Rightarrow> rstring" where
  "storage_reason e =
     (case e of
        SCollision \<Rightarrow> ascii ''collision'' | SInterrupted \<Rightarrow> ascii ''interrupted'' | SInvalidName \<Rightarrow> ascii ''invalid_name''
      | SInvalidSource \<Rightarrow> ascii ''invalid_source'' | SMutation \<Rightarrow> ascii ''mutation'' | SQuota \<Rightarrow> ascii ''quota''
      | SSizeMismatch \<Rightarrow> ascii ''size_mismatch'' | SIo _ \<Rightarrow> ascii ''io'')"

end
