(* ===== verification/Daemon_Endpoint.thy ===== *)
theory Daemon_Endpoint
  imports Daemon_State
begin

text \<open>
  The handlers of the local endpoint, one definition per method: visibility and consent
  (\<open>daemon/visibility/control.rs\<close>), timeouts and queueing (\<open>daemon/lifecycle.rs\<close>), settings
  (\<open>daemon/preferences.rs\<close>), events of the network worker (\<open>daemon/production.rs\<close>) and the control
  requests with the serving loop (\<open>daemon.rs\<close>).
\<close>

subsection \<open>Visibility and consent\<close>

definition activate_visibility :: "nat \<Rightarrow> daemon \<Rightarrow> daemon option" where
  "activate_visibility generation d =
     (case dm_network d of
        Some _ \<Rightarrow>
          (case to_worker (OpenVisibility generation) d of
             (Inl e, d) \<Rightarrow>
               map_option snd (vis_call (\<lambda>now t. complete_activation now generation (Inl (dm_show d e))) d)
           | (Inr _, d) \<Rightarrow> Some d)
      | None \<Rightarrow> map_option snd (vis_call (\<lambda>now t. complete_activation now generation (Inr resources_default)) d))"

definition timed_out_text :: rstring where "timed_out_text = ascii ''timed_out''"

definition record_failure :: "nat \<Rightarrow> rstring \<Rightarrow> daemon \<Rightarrow> daemon" where
  "record_failure share_id why d =
     snd (on_sharing (record_observation share_id None None (Some why) (Some (recovery_guidance why))) d)"

definition sync_visibility :: "daemon \<Rightarrow> daemon option" where
  "sync_visibility d =
     do { ((state, st), d) \<leftarrow> vis_call (\<lambda>now t. status now) d;
          let d = in_sharing (set_visibility_status state st) d;
          (case dm_pending_consent d of
             None \<Rightarrow> Some d
           | Some a \<Rightarrow>
               do { (share, d) \<leftarrow> consent_call a consent_share_id d;
                    (case share of
                       None \<Rightarrow> Some d
                     | Some share_id \<Rightarrow>
                         do { (out, d) \<leftarrow> consent_call a read_outcome d;
                              let d = (case out of
                                  CTimedOut \<Rightarrow>
                                    (case on_sharing (fail share_id) d of
                                       (True, d) \<Rightarrow> record_failure share_id timed_out_text d
                                     | (False, d) \<Rightarrow> d)
                                | CCancelled \<Rightarrow> snd (on_sharing (cancel share_id) d)
                                | _ \<Rightarrow> d);
                              Some (case active d of
                                  Some s \<Rightarrow>
                                    if sh_id s = share_id \<and> sh_phase s \<in> {AwaitingLocalConsent, Transferring} then d
                                    else d\<lparr>dm_pending_consent := None\<rparr>
                                | None \<Rightarrow> d\<lparr>dm_pending_consent := None\<rparr>) }) }) }"

definition has_active_share :: "daemon \<Rightarrow> bool" where
  "has_active_share d =
     (case active d of
        None \<Rightarrow> False
      | Some s \<Rightarrow> sh_phase s \<in> {WaitingForPeer, AwaitingLocalConsent, AwaitingPeerConsent, Transferring})"

definition admit_inbound :: "attachment \<Rightarrow> rstring \<Rightarrow> nat option \<Rightarrow> nat \<Rightarrow> daemon \<Rightarrow> (nat option \<times> daemon) option" where
  "admit_inbound att peer_id declared a d =
     (if has_active_share d then
        do { (_, d) \<leftarrow> consent_call a (\<lambda>t. consent_reject t 0) d; Some (None, d) }
      else
        do { (admitted, d) \<leftarrow> vis_call (\<lambda>now t. admit now t a) d;
             if \<not> admitted then Some (None, d)
             else case on_sharing (offer_inbound_sized att peer_id declared) d of
               (None, d) \<Rightarrow> do { (_, d) \<leftarrow> consent_call a (\<lambda>t. consent_reject t 0) d; Some (None, d) }
             | (Some share_id, d) \<Rightarrow>
                 do { (_, d) \<leftarrow> consent_call a (\<lambda>t c. ((), consent_bind t share_id c)) d;
                      Some (Some share_id, d\<lparr>dm_pending_consent := Some a\<rparr>) } })"

definition awaiting_local :: "nat \<Rightarrow> daemon \<Rightarrow> bool" where
  "awaiting_local share_id d =
     (case active d of None \<Rightarrow> False | Some s \<Rightarrow> sh_id s = share_id \<and> sh_phase s = AwaitingLocalConsent)"

definition accept_pending :: "nat \<Rightarrow> daemon \<Rightarrow> (bool \<times> daemon) option" where
  "accept_pending share_id d =
     (case dm_pending_consent d of
        None \<Rightarrow> Some (False, d)
      | Some a \<Rightarrow>
          if \<not> awaiting_local share_id d then do { d \<leftarrow> sync_visibility d; Some (False, d) }
          else
            do { (accepted, d) \<leftarrow> consent_call a (\<lambda>t. consent_accept t share_id) d;
                 if \<not> accepted then do { d \<leftarrow> sync_visibility d; Some (False, d) }
                 else Some (on_sharing (accept_inbound share_id) d) })"

definition reject_pending :: "nat \<Rightarrow> daemon \<Rightarrow> (bool \<times> daemon) option" where
  "reject_pending share_id d =
     (case dm_pending_consent d of
        None \<Rightarrow> do { d \<leftarrow> sync_visibility d; Some (False, d) }
      | Some a \<Rightarrow>
          do { (bound, d) \<leftarrow> consent_call a consent_share_id d;
               if bound \<noteq> Some share_id then do { d \<leftarrow> sync_visibility d; Some (False, d) }
               else
                 do { (rejected, d) \<leftarrow> consent_call a (\<lambda>t. consent_reject t share_id) d;
                      if rejected then Some (on_sharing (reject_inbound share_id) d)
                      else do { d \<leftarrow> sync_visibility d; Some (False, d) } } })"

text \<open>The address of the new consent is one that no live consent has; \<open>None\<close> where it is not.\<close>

definition propose_at :: "nat \<Rightarrow> nat \<Rightarrow> nat \<Rightarrow> nat \<Rightarrow> nat \<Rightarrow> core \<Rightarrow> (nat option \<times> jobs \<times> core) option" where
  "propose_at a g timeout now t core = (if snd core a = None then propose now t g timeout a core else None)"

definition simulate_inbound :: "nat \<Rightarrow> attachment \<Rightarrow> daemon \<Rightarrow> (bool \<times> daemon) option" where
  "simulate_inbound a att d =
     do { (generation, d) \<leftarrow> vis_call (\<lambda>now t. generation_if_open now) d;
          (case generation of
             None \<Rightarrow> Some (False, d)
           | Some g \<Rightarrow>
               do { (consent, d) \<leftarrow>
                      vis_call (propose_at a g (cf_consent_timeout_secs (dm_config d) * NANOS)) d;
                    (case consent of
                       None \<Rightarrow> Some (False, d)
                     | Some a \<Rightarrow>
                         do { (admitted, d) \<leftarrow> admit_inbound att (ascii ''pixel-8'') None a d;
                              Some (admitted \<noteq> None, d) }) }) }"

subsection \<open>Timeouts\<close>

definition live_phases :: "phase set" where
  "live_phases = {WaitingForPeer, AwaitingLocalConsent, AwaitingPeerConsent, Transferring}"

definition discovery_of :: "daemon \<Rightarrow> discovery_state" where
  "discovery_of d = discovery (snapshot (dm_sharing d))"

text \<open>\<open>get_or_insert_with(Instant::now)\<close> on the start of the transfer.\<close>

definition transfer_start :: "daemon \<Rightarrow> nat \<times> daemon" where
  "transfer_start d =
     (case dm_transfer_started_at d of
        Some t \<Rightarrow> (t, d)
      | None \<Rightarrow> (case instant_now d of (t, d) \<Rightarrow> (t, d\<lparr>dm_transfer_started_at := Some t\<rparr>)))"

definition capture_discovery :: "daemon \<Rightarrow> daemon" where
  "capture_discovery d =
     (if discovery_of d = Searching then
        (if dm_discovery_started_at d = None then
           (case instant_now d of (t, d) \<Rightarrow>
              d\<lparr>dm_discovery_started_at := Some t,
                dm_timeouts := (dm_timeouts d)\<lparr>to_discovery := cf_discovery_timeout_secs (dm_config d) * NANOS\<rparr>\<rparr>)
         else d)
      else d\<lparr>dm_discovery_started_at := None\<rparr>)"

definition capture_transfer :: "daemon \<Rightarrow> daemon" where
  "capture_transfer d =
     (case active d of
        Some s \<Rightarrow>
          if sh_phase s \<in> live_phases then
            let d = (if to_transfer_share_id (dm_timeouts d) \<noteq> Some (sh_id s) then
                  d\<lparr>dm_transfer_started_at := None,
                    dm_timeouts := (dm_timeouts d)\<lparr>to_transfer := cf_transfer_timeout_secs (dm_config d) * NANOS,
                      to_transfer_share_id := Some (sh_id s)\<rparr>\<rparr>
                else d)
            in if sh_phase s = Transferring then snd (transfer_start d) else d\<lparr>dm_transfer_started_at := None\<rparr>
          else d\<lparr>dm_transfer_started_at := None, dm_timeouts := (dm_timeouts d)\<lparr>to_transfer_share_id := None\<rparr>\<rparr>
      | None \<Rightarrow> d\<lparr>dm_transfer_started_at := None, dm_timeouts := (dm_timeouts d)\<lparr>to_transfer_share_id := None\<rparr>\<rparr>)"

definition capture_timeout_settings :: "daemon \<Rightarrow> daemon" where
  "capture_timeout_settings d = capture_transfer (capture_discovery d)"

definition timeout_discovery :: "daemon \<Rightarrow> (io_kind + unit) \<times> daemon" where
  "timeout_discovery d =
     (if discovery_of d \<noteq> Searching then (Inr (), d\<lparr>dm_discovery_started_at := None\<rparr>)
      else
        let (started, d) =
              (case dm_discovery_started_at d of
                 Some t \<Rightarrow> (t, d)
               | None \<Rightarrow> (case instant_now d of (t, d) \<Rightarrow> (t, d\<lparr>dm_discovery_started_at := Some t\<rparr>)));
            (now, d) = instant_now d
        in if now - started \<ge> to_discovery (dm_timeouts d) then
             let d = snd (on_sharing discovery_timed_out d)
             in case to_worker StopDiscovery d of
                  (Inl e, d) \<Rightarrow> (Inl e, d)
                | (Inr _, d) \<Rightarrow> (Inr (), d\<lparr>dm_discovery_started_at := None\<rparr>)
           else (Inr (), d))"

definition timeout_transfer :: "daemon \<Rightarrow> daemon" where
  "timeout_transfer d =
     (case active d of
        None \<Rightarrow> d\<lparr>dm_transfer_started_at := None\<rparr>
      | Some s \<Rightarrow>
          if sh_phase s \<noteq> Transferring then d\<lparr>dm_transfer_started_at := None\<rparr>
          else
            let share_id = sh_id s;
                (started, d) = transfer_start d;
                (now, d) = instant_now d
            in if now - started < to_transfer (dm_timeouts d) then d
               else
                 let d = (case on_sharing (fail share_id) d of
                       (True, d) \<Rightarrow> notify Error (worker_cancel share_id (record_failure share_id timed_out_text d))
                     | (False, d) \<Rightarrow> d)
                 in (in_outbound (outbound_finish share_id) d)\<lparr>dm_transfer_started_at := None\<rparr>)"

definition apply_timeouts :: "daemon \<Rightarrow> ((io_kind + unit) \<times> daemon) option" where
  "apply_timeouts d =
     (case timeout_discovery (capture_timeout_settings d) of
        (Inl e, d) \<Rightarrow> Some (Inl e, d)
      | (Inr _, d) \<Rightarrow> do { d \<leftarrow> sync_visibility (timeout_transfer d); Some (Inr (), d) })"

subsection \<open>Settings\<close>

definition values_of :: "config \<Rightarrow> preference_values" where
  "values_of c =
     \<lparr>pv_consent_timeout_secs = cf_consent_timeout_secs c, pv_device_name = cf_device_name c,
      pv_discoverable = cf_discoverable c, pv_discovery_timeout_secs = cf_discovery_timeout_secs c,
      pv_pinned_peer_id = cf_pinned_peer_id c, pv_read_clipboard_on_select = cf_read_clipboard_on_select c,
      pv_receive_directory = cf_receive_directory c, pv_transfer_timeout_secs = cf_transfer_timeout_secs c\<rparr>"

definition in_preferences :: "(preference_status \<Rightarrow> preference_status) \<Rightarrow> daemon \<Rightarrow> daemon" where
  "in_preferences f d = d\<lparr>dm_preferences := f (dm_preferences d)\<rparr>"

definition unavailable_text :: "rstring \<Rightarrow> rstring" where
  "unavailable_text e = ascii ''Preferences saved but unavailable: '' @ e"

definition preferences_configured :: "config \<Rightarrow> rstring option \<Rightarrow> daemon \<Rightarrow> daemon" where
  "preferences_configured config err d =
     (let now_applied = values_of config;
          current = (ps_saved (dm_preferences d) = Some now_applied)
      in case err of
           Some e \<Rightarrow>
             if current then in_preferences (\<lambda>p. p\<lparr>ps_pending := False, ps_error := Some (unavailable_text e)\<rparr>) d else d
         | None \<Rightarrow>
             let d = in_sharing unpin_peers (capture_timeout_settings d);
                 d = (case cf_pinned_peer_id config of
                     None \<Rightarrow> d | Some peer_id \<Rightarrow> snd (on_sharing (pin_peer peer_id) d));
                 d = in_preferences (\<lambda>p. p\<lparr>ps_applied := Some now_applied\<rparr>) (d\<lparr>dm_config := config\<rparr>)
             in if current then in_preferences (\<lambda>p. p\<lparr>ps_pending := False, ps_error := None\<rparr>) d else d)"

definition activate :: "nat option \<Rightarrow> daemon \<Rightarrow> daemon option" where
  "activate generation d = (case generation of None \<Rightarrow> Some d | Some g \<Rightarrow> activate_visibility g d)"

definition mkdir :: "daemon \<Rightarrow> io_kind option \<times> daemon" where
  "mkdir d = (case dm_mkdir d of [] \<Rightarrow> (None, d) | r # rs \<Rightarrow> (r, d\<lparr>dm_mkdir := rs\<rparr>))"

definition configure_preferences :: "config \<Rightarrow> daemon \<Rightarrow> daemon option" where
  "configure_preferences config d =
     do { let d = in_preferences (\<lambda>p. p\<lparr>ps_saved := Some (values_of config), ps_error := None\<rparr>) d;
          (activation, d) \<leftarrow> vis_call (\<lambda>now t. set_policy now t (cf_discoverable config)) d;
          d \<leftarrow> sync_visibility d;
          let d = (case dm_network d of
              Some _ \<Rightarrow>
                (case to_worker (Configure config) (in_preferences (\<lambda>p. p\<lparr>ps_pending := True\<rparr>) d) of
                   (Inl e, d) \<Rightarrow>
                     in_preferences (\<lambda>p. p\<lparr>ps_pending := False, ps_error := Some (unavailable_text (dm_show d e))\<rparr>) d
                 | (Inr _, d) \<Rightarrow> d)
            | None \<Rightarrow> (case mkdir d of (r, d) \<Rightarrow> preferences_configured config (map_option (dm_show d) r) d));
          d \<leftarrow> activate activation d;
          sync_visibility d }"

definition load_config :: "daemon \<Rightarrow> (io_kind + config) \<times> daemon" where
  "load_config d = (case config_load (dm_parse d) (dm_env d) (dm_files d) of (r, f) \<Rightarrow> (r, d\<lparr>dm_files := f\<rparr>))"

definition configure_if_new :: "config \<Rightarrow> daemon \<Rightarrow> daemon option" where
  "configure_if_new config d =
     (if ps_saved (dm_preferences d) \<noteq> Some (values_of config) then configure_preferences config d else Some d)"

definition config_changed :: "daemon \<Rightarrow> (io_kind + bool) \<times> daemon" where
  "config_changed d =
     (case dm_watch d of
        Some (r # rs) \<Rightarrow> (r, d\<lparr>dm_watch := Some rs\<rparr>)
      | _ \<Rightarrow> (Inr False, d))"

definition cannot_load_text :: "rstring \<Rightarrow> rstring" where
  "cannot_load_text e = ascii ''Cannot load config.toml: '' @ e @ ascii ''; fix the document and save it again''"

definition reload_preferences :: "daemon \<Rightarrow> ((io_kind + unit) \<times> daemon) option" where
  "reload_preferences d =
     (case config_changed d of
        (Inl e, d) \<Rightarrow> Some (Inl e, d)
      | (Inr False, d) \<Rightarrow> Some (Inr (), d)
      | (Inr True, d) \<Rightarrow>
          (case load_config d of
             (Inr config, d) \<Rightarrow> do { d \<leftarrow> configure_if_new config d; Some (Inr (), d) }
           | (Inl e, d) \<Rightarrow>
               Some (Inr (), in_preferences
                 (\<lambda>p. p\<lparr>ps_saved := None, ps_pending := False, ps_error := Some (cannot_load_text (dm_show d e))\<rparr>) d)))"

definition patch_preferences :: "rstring \<Rightarrow> rstring \<Rightarrow> daemon \<Rightarrow> (response_envelope \<times> daemon) option" where
  "patch_preferences key value d =
     do { d \<leftarrow>
            (case config_patch (dm_parse d) (dm_print d) (dm_env d) key value (dm_files d) of
               (Inr config, f) \<Rightarrow>
                 do { let d = d\<lparr>dm_files := f\<rparr>;
                      d \<leftarrow> (if key = k_discoverable \<and> \<not> cf_discoverable config
                             then map_option snd (vis_call close d) else Some d);
                      configure_preferences config d }
             | (Inl e, f) \<Rightarrow>
                 do { d \<leftarrow> (case load_config (d\<lparr>dm_files := f\<rparr>) of
                         (Inr config, d) \<Rightarrow> configure_if_new config d
                       | (Inl _, d) \<Rightarrow> Some (in_preferences (\<lambda>p. p\<lparr>ps_saved := None, ps_pending := False\<rparr>) d));
                      Some (in_preferences
                        (\<lambda>p. p\<lparr>ps_error := Some (ascii ''Preference was not saved: '' @ dm_show d e)\<rparr>) d) });
          Some (preferences_response (dm_preferences d), d) }"

definition install_config :: "config \<Rightarrow> daemon \<Rightarrow> daemon option" where
  "install_config config d =
     do { let d = preferences_configured config None (in_preferences (\<lambda>p. p\<lparr>ps_saved := Some (values_of config)\<rparr>) d);
          (activation, d) \<leftarrow> vis_call (\<lambda>now t. set_policy now t (cf_discoverable (dm_config d))) d;
          d \<leftarrow> activate activation d;
          sync_visibility d }"

definition pin_if_configured :: "rstring \<Rightarrow> daemon \<Rightarrow> daemon" where
  "pin_if_configured peer_id d =
     (if cf_pinned_peer_id (dm_config d) = Some peer_id then snd (on_sharing (pin_peer peer_id) d) else d)"

subsection \<open>Outbound shares\<close>

definition awaiting_peer :: "nat \<Rightarrow> rstring \<Rightarrow> daemon \<Rightarrow> bool" where
  "awaiting_peer share_id peer_id d =
     (case active d of
        None \<Rightarrow> False
      | Some s \<Rightarrow> sh_id s = share_id \<and> sh_direction s = Outbound \<and> sh_phase s = AwaitingPeerConsent \<and>
          (case sh_peer s of None \<Rightarrow> False | Some p \<Rightarrow> p_id p = peer_id))"

definition daemon_select_peer :: "nat \<Rightarrow> rstring \<Rightarrow> daemon \<Rightarrow> bool \<times> daemon" where
  "daemon_select_peer share_id peer_id d =
     (case dm_network d of
        None \<Rightarrow>
          (case on_sharing (select_peer share_id peer_id) d of
             (True, d) \<Rightarrow> (True, d)
           | (False, d) \<Rightarrow> (awaiting_peer share_id peer_id d, d))
      | Some _ \<Rightarrow>
          (case outbound_transfer_of share_id peer_id (dm_outbound d) of
             None \<Rightarrow> (False, d)
           | Some transfer \<Rightarrow>
               (case on_sharing (select_peer share_id peer_id) d of (selected, d) \<Rightarrow>
                  if \<not> selected \<and> \<not> awaiting_peer share_id peer_id d then (False, d)
                  else
                    let medium = (case ot_routes transfer of [] \<Rightarrow> None | r # _ \<Rightarrow> Some (medium_name (route_medium r)));
                        d = snd (on_sharing (record_observation share_id medium None None None) d)
                    in case to_worker (SendShare share_id transfer) d of
                         (Inr _, d) \<Rightarrow> (True, d)
                       | (Inl _, d) \<Rightarrow> (False, snd (on_sharing (fail share_id) d)))))"

definition start_pinned_outbound :: "nat \<Rightarrow> daemon \<Rightarrow> bool \<times> daemon" where
  "start_pinned_outbound share_id d =
     (case (case find p_pinned (peers (snapshot (dm_sharing d))) of
              Some p \<Rightarrow> Some (p_id p)
            | None \<Rightarrow> cf_pinned_peer_id (dm_config d)) of
        None \<Rightarrow> (False, d)
      | Some peer_id \<Rightarrow> daemon_select_peer share_id peer_id d)"

definition auto_start_pinned :: "rstring \<Rightarrow> daemon \<Rightarrow> daemon" where
  "auto_start_pinned peer_id d =
     (if cf_pinned_peer_id (dm_config d) \<noteq> Some peer_id then d
      else case active d of
        None \<Rightarrow> d
      | Some s \<Rightarrow>
          if sh_direction s \<noteq> Outbound \<or> sh_phase s \<notin> {WaitingForPeer, AwaitingPeerConsent} then d
          else snd (daemon_select_peer (sh_id s) peer_id d))"

definition queue_attachment_for :: "attachment \<Rightarrow> bool \<Rightarrow> daemon \<Rightarrow> nat \<times> daemon" where
  "queue_attachment_for att ignore_pin d =
     (case on_sharing (if ignore_pin then queue_outbound_unpinned att else queue_outbound att) d of
        (share_id, d) \<Rightarrow> (share_id, snd (to_worker Discover (in_sharing start_discovery d))))"

definition queued_response :: "nat \<Rightarrow> rstring option \<Rightarrow> daemon \<Rightarrow> response_envelope \<times> daemon" where
  "queued_response share_id peer_id d =
     (let (selected, d) =
        (case peer_id of
           Some p \<Rightarrow> daemon_select_peer share_id p d
         | None \<Rightarrow> (True, snd (start_pinned_outbound share_id d)))
      in if selected then (queued_with share_id, d)
         else (not_found, in_outbound (outbound_finish share_id) (snd (on_sharing (cancel share_id) d))))"

definition open_source :: "rstring \<Rightarrow> daemon \<Rightarrow> (io_kind + outbound_source) \<times> daemon" where
  "open_source path d =
     (case source_open path (dm_fs d) of (r, w) \<Rightarrow>
        (case r of Inl _ \<Rightarrow> Inl IOther | Inr s \<Rightarrow> Inr s, d\<lparr>dm_fs := w\<rparr>))"

definition is_dir :: "daemon \<Rightarrow> bool \<times> daemon" where
  "is_dir d = (case dm_is_dir d of [] \<Rightarrow> (False, d) | b # bs \<Rightarrow> (b, d\<lparr>dm_is_dir := bs\<rparr>))"

definition zip_directory :: "daemon \<Rightarrow> (io_kind + rstring) \<times> daemon" where
  "zip_directory d = (case dm_archived d of [] \<Rightarrow> (Inl IOther, d) | r # rs \<Rightarrow> (r, d\<lparr>dm_archived := rs\<rparr>))"

definition queue_file :: "rstring \<Rightarrow> rstring option \<Rightarrow> daemon \<Rightarrow> (io_kind + nat) \<times> daemon" where
  "queue_file path peer_id d =
     (case is_dir d of
        (True, d) \<Rightarrow>
          (case zip_directory d of
             (Inl e, d) \<Rightarrow> (Inl e, d)
           | (Inr archive_path, d) \<Rightarrow>
               (case open_source archive_path d of
                  (Inl e, d) \<Rightarrow> (Inl e, d)
                | (Inr source, d) \<Rightarrow>
                    (case queue_attachment_for (AFile (os_name source) (os_length source)) (peer_id \<noteq> None) d of
                       (share_id, d) \<Rightarrow>
                         (Inr share_id,
                          in_outbound (remember_archive share_id archive_path \<circ> remember_file share_id source) d))))
      | (False, d) \<Rightarrow>
          (case open_source path d of
             (Inl e, d) \<Rightarrow> (Inl e, d)
           | (Inr source, d) \<Rightarrow>
               (case queue_attachment_for (AFile (os_name source) (os_length source)) (peer_id \<noteq> None) d of
                  (share_id, d) \<Rightarrow> (Inr share_id, in_outbound (remember_file share_id source) d))))"

subsection \<open>Events of the network worker\<close>

definition INBOUND_PEER_ID :: rstring where "INBOUND_PEER_ID = ascii ''inbound-peer''"
definition INBOUND_PEER_NAME :: rstring where "INBOUND_PEER_NAME = ascii ''Nearby sender''"

definition active_completed_phase :: "daemon \<Rightarrow> phase" where
  "active_completed_phase d = (case active d of None \<Rightarrow> Failed | Some s \<Rightarrow> sh_phase s)"

definition completion_notice :: "bool \<Rightarrow> phase \<Rightarrow> bool" where
  "completion_notice recorded ph \<longleftrightarrow> recorded \<and> ph = Completed"

definition notify_if_completed :: "bool \<Rightarrow> notify_kind \<Rightarrow> daemon \<Rightarrow> daemon" where
  "notify_if_completed recorded kind d =
     (if completion_notice recorded (active_completed_phase d) then notify kind d else d)"

definition record_completed :: "nat \<Rightarrow> nat \<Rightarrow> daemon \<Rightarrow> bool \<times> daemon" where
  "record_completed share_id bytes d =
     (case on_sharing (record_progress share_id bytes) d of
        (False, d) \<Rightarrow> (False, d)
      | (True, d) \<Rightarrow> on_sharing (complete share_id) d)"

definition apply_inbound_failure :: "nat option \<Rightarrow> rstring \<Rightarrow> daemon \<Rightarrow> daemon" where
  "apply_inbound_failure candidate why d =
     (let was_cancelled = (why = ascii ''cancelled'')
      in case candidate of
           Some share_id \<Rightarrow>
             (case on_sharing (if was_cancelled then cancel share_id else fail share_id) d of
                (False, d) \<Rightarrow> d
              | (True, d) \<Rightarrow>
                  let d = record_failure share_id why d in if was_cancelled then d else notify Error d)
         | None \<Rightarrow> if was_cancelled then d else notify Error d)"

definition offered_attachment :: "offer_kind \<Rightarrow> rstring \<Rightarrow> nat \<Rightarrow> attachment" where
  "offered_attachment kind name declared =
     (case kind of OAndroidApp \<Rightarrow> AFile name declared | OFile \<Rightarrow> AFile name declared | OText \<Rightarrow> AText [] | OUrl \<Rightarrow> AUrl [])"

definition apply_progress :: "rstring \<Rightarrow> nat \<Rightarrow> nat \<Rightarrow> daemon \<Rightarrow> daemon" where
  "apply_progress medium share_id transferred d =
     (let d = snd (on_sharing (record_progress share_id transferred) d);
          (started, d) = transfer_start d;
          (now, d) = instant_now d;
          tot = (case active d of None \<Rightarrow> transferred | Some s \<Rightarrow> sh_total_bytes s);
          remaining = remaining_seconds transferred tot (now - started)
      in snd (on_sharing (record_observation share_id (Some medium) remaining None None) d))"

fun apply_network_event :: "network_event \<Rightarrow> daemon \<Rightarrow> daemon option" where
  "apply_network_event VisibilityChanged d = sync_visibility d"
| "apply_network_event (PreferencesConfigured config err) d = Some (preferences_configured config err d)"
| "apply_network_event (InboundCancelled share_id) d = Some (snd (on_sharing (cancel share_id) d))"
| "apply_network_event (InboundCompleted bytes kind share_id value) d =
     (let d = (case value of
           None \<Rightarrow> d
         | Some v \<Rightarrow>
             snd (on_sharing (replace_attachment share_id (case kind of OUrl \<Rightarrow> AUrl v | _ \<Rightarrow> AText v)) d));
          (recorded, d) = record_completed share_id bytes d
      in Some (notify_if_completed recorded Received d))"
| "apply_network_event (InboundFailed why share_id consent) d =
     do { (identified, d) \<leftarrow>
            (case share_id of
               Some i \<Rightarrow> Some (Some i, d)
             | None \<Rightarrow> (case consent of None \<Rightarrow> Some (None, d) | Some a \<Rightarrow> consent_call a consent_share_id d));
          Some (apply_inbound_failure identified why d) }"
| "apply_network_event (InboundRejected share_id) d = Some (snd (on_sharing (reject_inbound share_id) d))"
| "apply_network_event (InboundOffered a kind name declared code) d =
     do { (admitted, d) \<leftarrow>
            admit_inbound (offered_attachment kind name declared) INBOUND_PEER_ID (Some declared) a
              (in_sharing (observe_peer INBOUND_PEER_ID INBOUND_PEER_NAME) d);
          Some (case admitted of
              None \<Rightarrow> d
            | Some share_id \<Rightarrow> snd (on_sharing (record_verification_code share_id code) d)) }"
| "apply_network_event (OutboundAccepted share_id) d =
     (let d = snd (on_sharing (accept_by_peer share_id) d); (now, d) = instant_now d
      in Some (d\<lparr>dm_transfer_started_at := Some now\<rparr>))"
| "apply_network_event (OutboundPairing share_id code) d =
     Some (snd (on_sharing (record_verification_code share_id code) d))"
| "apply_network_event (OutboundCancelled share_id) d =
     Some (in_outbound (outbound_finish share_id) (snd (on_sharing (cancel share_id) d)))"
| "apply_network_event (OutboundCompleted bytes share_id) d =
     (let (recorded, d) = record_completed share_id bytes d
      in Some (notify_if_completed recorded Sent (in_outbound (outbound_finish share_id) d)))"
| "apply_network_event (OutboundFailed why share_id) d =
     Some (notify Error (in_outbound (outbound_finish share_id)
       (record_failure share_id why (snd (on_sharing (fail share_id) d)))))"
| "apply_network_event (OutboundRejected share_id) d =
     Some (in_outbound (outbound_finish share_id) (snd (on_sharing (reject_by_peer share_id) d)))"
| "apply_network_event (PeerLost peer_id) d =
     Some (in_outbound (forget_peer peer_id) (snd (on_sharing (remove_peer peer_id) d)))"
| "apply_network_event (PeerSeen name peer_id route) d =
     Some (auto_start_pinned peer_id (in_outbound (remember_peer peer_id route)
       (pin_if_configured peer_id (in_sharing (observe_peer peer_id name) d))))"
| "apply_network_event (Progress medium share_id transferred) d = Some (apply_progress medium share_id transferred d)"

text \<open>The loop over the received events; every round takes a result off the channel.\<close>

fun apply_events :: "network_event option list \<Rightarrow> daemon \<Rightarrow> ((io_kind + unit) \<times> daemon) option" where
  "apply_events [] d =
     (case dm_network d of
        None \<Rightarrow> Some (Inr (), d)
      | Some n \<Rightarrow> Some (map_sum id (\<lambda>_. ()) (fst (next_event n)), d))"
| "apply_events (None # es) d =
     Some (Inr (), d\<lparr>dm_network := map_option (\<lambda>n. snd (next_event n)) (dm_network d)\<rparr>)"
| "apply_events (Some e # es) d =
     do { d \<leftarrow> apply_network_event e (d\<lparr>dm_network := map_option (\<lambda>n. snd (next_event n)) (dm_network d)\<rparr>);
          apply_events es d }"

definition apply_network_events :: "daemon \<Rightarrow> ((io_kind + unit) \<times> daemon) option" where
  "apply_network_events d =
     apply_events (case dm_network d of None \<Rightarrow> [] | Some n \<Rightarrow> nw_received n) d"

subsection \<open>Control requests\<close>

definition endpoint_response :: "control_request \<Rightarrow> daemon \<Rightarrow> ((io_kind + response_envelope option) \<times> daemon) option" where
  "endpoint_response request d =
     (let finish = (\<lambda>d. do { d \<leftarrow> sync_visibility d; Some (Inr (Some applied), d) })
      in case request of
           RqCloseVisibility \<Rightarrow> do { (_, d) \<leftarrow> vis_call close d; finish d }
         | RqDiscover \<Rightarrow>
             (case to_worker Discover (in_sharing start_discovery d) of
                (Inl e, d) \<Rightarrow> Some (Inl e, d) | (Inr _, d) \<Rightarrow> finish d)
         | RqOpenVisibility \<Rightarrow>
             do { (generation, d) \<leftarrow> vis_call (\<lambda>now t. request_open now) d;
                  d \<leftarrow> activate generation d;
                  finish d }
         | RqStopDiscovery \<Rightarrow>
             (case to_worker StopDiscovery (in_sharing stop_discovery d) of
                (Inl e, d) \<Rightarrow> Some (Inl e, d) | (Inr _, d) \<Rightarrow> finish d)
         | _ \<Rightarrow> Some (Inr None, d))"

definition action_response :: "bool \<Rightarrow> response_envelope" where
  "action_response done = (if done then applied else not_found)"

text \<open>Cancelling also cancels a consent that is bound to the share.\<close>

definition cancel_consent :: "nat \<Rightarrow> daemon \<Rightarrow> daemon option" where
  "cancel_consent share_id d =
     (case dm_pending_consent d of
        None \<Rightarrow> Some d
      | Some a \<Rightarrow>
          do { (bound, d) \<leftarrow> consent_call a consent_share_id d;
               if bound = Some share_id
               then map_option snd (consent_call a (\<lambda>t c. ((), consent_cancel t c)) d) else Some d })"

definition share_response :: "control_request \<Rightarrow> daemon \<Rightarrow> (response_envelope option \<times> daemon) option" where
  "share_response request d =
     (case request of
        RqAccept share_id \<Rightarrow>
          do { (accepted, d) \<leftarrow> accept_pending share_id d;
               let d = (if accepted then (case instant_now d of (now, d) \<Rightarrow> d\<lparr>dm_transfer_started_at := Some now\<rparr>) else d);
               Some (Some (action_response accepted), d) }
      | RqCancel share_id \<Rightarrow>
          (case on_sharing (cancel share_id) d of
             (True, d) \<Rightarrow>
               do { d \<leftarrow> cancel_consent share_id d;
                    Some (Some cancelled, in_outbound (outbound_finish share_id) (worker_cancel share_id d)) }
           | (False, d) \<Rightarrow> Some (Some not_found, d))
      | RqDismiss share_id \<Rightarrow>
          (case on_sharing (dismiss share_id) d of (dismissed, d) \<Rightarrow>
             Some (Some (action_response dismissed), if dismissed then in_outbound (outbound_finish share_id) d else d))
      | RqPinPeer peer_id \<Rightarrow>
          if list_ex (\<lambda>p. p_id p = peer_id) (peers (snapshot (dm_sharing d)))
          then map_option (\<lambda>(r, d). (Some r, d)) (patch_preferences k_pinned peer_id d)
          else Some (Some not_found, d)
      | RqUnpinPeer \<Rightarrow> map_option (\<lambda>(r, d). (Some r, d)) (patch_preferences k_pinned [] d)
      | RqReject share_id \<Rightarrow>
          do { (rejected, d) \<leftarrow> reject_pending share_id d; Some (Some (action_response rejected), d) }
      | RqSelectPeer peer_id share_id \<Rightarrow>
          (case daemon_select_peer share_id peer_id d of (selected, d) \<Rightarrow> Some (Some (action_response selected), d))
      | _ \<Rightarrow> Some (None, d))"

text \<open>\<open>a\<close> is the address a consent proposed by a simulated offer gets.\<close>

definition simulation_applied :: "nat \<Rightarrow> control_request \<Rightarrow> daemon \<Rightarrow> (bool \<times> daemon) option" where
  "simulation_applied a request d =
     (case request of
        RqSimulateDiscoveryTimeout \<Rightarrow> Some (on_sharing discovery_timed_out d)
      | RqSimulateFail share_id \<Rightarrow>
          (case on_sharing (fail share_id) d of (failed, d) \<Rightarrow>
             Some (failed, if failed then record_failure share_id (ascii ''simulated_failure'') d else d))
      | RqSimulateIncomingFile name declared \<Rightarrow> simulate_inbound a (AFile name declared) d
      | RqSimulateIncomingText text \<Rightarrow> simulate_inbound a (AText text) d
      | RqSimulateIncomingUrl url \<Rightarrow> simulate_inbound a (AUrl url) d
      | RqSimulatePeerAccept share_id \<Rightarrow> Some (on_sharing (accept_by_peer share_id) d)
      | RqSimulatePeerLost peer_id \<Rightarrow> Some (on_sharing (remove_peer peer_id) d)
      | RqSimulatePeerReject share_id \<Rightarrow> Some (on_sharing (reject_by_peer share_id) d)
      | RqSimulatePeerSeen name peer_id \<Rightarrow> Some (True, pin_if_configured peer_id (in_sharing (observe_peer peer_id name) d))
      | RqSimulateComplete share_id \<Rightarrow> Some (on_sharing (complete share_id) d)
      | RqSimulateProgress share_id transferred \<Rightarrow> Some (on_sharing (record_progress share_id transferred) d)
      | _ \<Rightarrow> Some (False, d))"

definition simulation_response :: "nat \<Rightarrow> control_request \<Rightarrow> daemon \<Rightarrow> (response_envelope \<times> daemon) option" where
  "simulation_response a request d =
     (if \<not> dm_simulated d then Some (not_found, d)
      else do { (done, d) \<leftarrow> simulation_applied a request d; Some (action_response done, d) })"

definition submit :: "(daemon \<Rightarrow> (io_kind + nat) \<times> daemon) \<Rightarrow> rstring option \<Rightarrow> daemon \<Rightarrow> (io_kind + response_envelope) \<times> daemon" where
  "submit queue peer_id d =
     (if has_active_share d then (Inr not_found, d)
      else case queue d of
        (Inl e, d) \<Rightarrow> (Inl e, d)
      | (Inr share_id, d) \<Rightarrow> (case queued_response share_id peer_id d of (r, d) \<Rightarrow> (Inr r, d)))"

definition queue_value :: "(nat \<Rightarrow> outbound_state \<Rightarrow> outbound_state) \<Rightarrow> attachment \<Rightarrow> rstring option \<Rightarrow> daemon \<Rightarrow> (io_kind + nat) \<times> daemon" where
  "queue_value remember att peer_id d =
     (case queue_attachment_for att (peer_id \<noteq> None) d of (share_id, d) \<Rightarrow> (Inr share_id, in_outbound (remember share_id) d))"

definition response_for :: "nat \<Rightarrow> control_request \<Rightarrow> daemon \<Rightarrow> ((io_kind + response_envelope) \<times> daemon) option" where
  "response_for a request d =
     do { (r, d) \<leftarrow> apply_timeouts d;
          (case r of
             Inl e \<Rightarrow> Some (Inl e, d)
           | Inr _ \<Rightarrow>
          do { (r, d) \<leftarrow> endpoint_response request d;
               (case r of
                  Inl e \<Rightarrow> Some (Inl e, d)
                | Inr (Some response) \<Rightarrow> Some (Inr response, d)
                | Inr None \<Rightarrow>
               do { (r, d) \<leftarrow> share_response request d;
                    (case r of
                       Some response \<Rightarrow> Some (Inr response, d)
                     | None \<Rightarrow>
                         (case request of
                            RqPatchPreferences key value \<Rightarrow>
                              map_option (\<lambda>(r, d). (Inr r, d)) (patch_preferences key value d)
                          | RqSnapshot \<Rightarrow> Some (Inr (snapshot_response (snapshot (dm_sharing d)) (dm_preferences d)), d)
                          | RqStatus \<Rightarrow> Some (Inr ready, d)
                          | RqSubmitFile path peer_id \<Rightarrow> Some (submit (queue_file path peer_id) peer_id d)
                          | RqSubmitText peer_id text \<Rightarrow>
                              Some (submit (queue_value (\<lambda>i. remember_text i text) (AText text) peer_id) peer_id d)
                          | RqSubmitUrl peer_id url \<Rightarrow>
                              Some (submit (queue_value (\<lambda>i. remember_url i url) (AUrl url) peer_id) peer_id d)
                          | _ \<Rightarrow> map_option (\<lambda>(r, d). (Inr r, d)) (simulation_response a request d))) }) }) }"

text \<open>A reply that cannot be delivered is dropped.\<close>

definition is_queued :: "response_envelope \<Rightarrow> bool" where
  "is_queued r \<longleftrightarrow> (case rs_response r of RsQueued _ \<Rightarrow> True | _ \<Rightarrow> False)"

definition serve_next :: "nat \<Rightarrow> daemon \<Rightarrow> ((io_kind + unit) \<times> daemon) option" where
  "serve_next a d =
     do { (r, d) \<leftarrow> apply_network_events d;
          (case r of Inl e \<Rightarrow> Some (Inl e, d) | Inr _ \<Rightarrow>
          do { (r, d) \<leftarrow> apply_timeouts d;
               (case r of Inl e \<Rightarrow> Some (Inl e, d) | Inr _ \<Rightarrow>
                  (case dm_clients d of
                     [] \<Rightarrow> Some (Inl IWouldBlock, d)
                   | Inl e # cs \<Rightarrow> Some (Inl e, d\<lparr>dm_clients := cs\<rparr>)
                   | Inr bytes # cs \<Rightarrow>
                       let d = d\<lparr>dm_clients := cs\<rparr>
                       in case fst (read_record (dm_decode d) bytes) of
                            Inl _ \<Rightarrow> Some (Inr (), d)
                          | Inr request \<Rightarrow>
                              if rq_version request \<noteq> PROTOCOL_VERSION then Some (Inl IInvalidData, d)
                              else
                                do { (r, d) \<leftarrow> response_for a (rq_request request) d;
                                     (case r of
                                        Inl e \<Rightarrow> Some (Inl e, d)
                                      | Inr response \<Rightarrow>
                                          let d = (if is_queued response then d\<lparr>dm_queued := dm_queued d @ [request]\<rparr> else d)
                                          in Some (Inr (), d\<lparr>dm_replies := dm_replies d @ [response]\<rparr>)) })) }) }"

text \<open>
  The serving loop, as far as the answers of \<open>stopped\<close> are known; with each round comes the address a
  new consent would get. The outcome is \<open>None\<close> while it is still serving.
\<close>

fun serve_until :: "(bool \<times> nat) list \<Rightarrow> daemon \<Rightarrow> ((io_kind + unit) option \<times> daemon) option" where
  "serve_until [] d = Some (None, d)"
| "serve_until ((stop, a) # rounds) d =
     (if stop then Some (Some (Inr ()), d)
      else
        do { (r, d) \<leftarrow> apply_timeouts d;
             (case r of Inl e \<Rightarrow> Some (Some (Inl e), d) | Inr _ \<Rightarrow>
             do { (r, d) \<leftarrow> reload_preferences d;
                  (case r of Inl e \<Rightarrow> Some (Some (Inl e), d) | Inr _ \<Rightarrow>
                  do { (r, d) \<leftarrow> serve_next a d;
                       (case r of
                          Inr _ \<Rightarrow> serve_until rounds d
                        | Inl e \<Rightarrow> if e = IWouldBlock then serve_until rounds d else Some (Some (Inl e), d)) }) }) })"

text \<open>
  \<open>run\<close> and \<open>run_simulated\<close>, once the settings are read and the socket is bound: \<open>stopped\<close> never
  answers yes, and \<open>addresses\<close> are the ones new consents would get in the rounds known so far.
\<close>

definition run_daemon :: "network_worker \<Rightarrow> (io_kind + bool) list \<Rightarrow> config \<Rightarrow> nat list \<Rightarrow> daemon \<Rightarrow> ((io_kind + unit) option \<times> daemon) option" where
  "run_daemon network watch config addresses d =
     do { d \<leftarrow> install_config config ((with_network_worker network d)\<lparr>dm_watch := Some watch\<rparr>);
          serve_until (map (Pair False) addresses) d }"

definition run_simulated :: "(io_kind + bool) list \<Rightarrow> config \<Rightarrow> nat list \<Rightarrow> daemon \<Rightarrow> ((io_kind + unit) option \<times> daemon) option" where
  "run_simulated watch config addresses d =
     do { d \<leftarrow> install_config config ((daemon_simulated d)\<lparr>dm_watch := Some watch\<rparr>);
          serve_until (map (Pair False) addresses) d }"

end
