(* ===== verification/Daemon_Service.thy ===== *)
theory Daemon_Service
  imports Daemon_Endpoint
begin

text \<open>
  What the handlers of the endpoint may do, whatever requests, events and calls of the worker come in
  whatever order: every handler stays within each relation that obeys the laws of a few kinds of small
  steps. The laws are a locale, and the properties of the endpoint are proved of its instances.
\<close>

subsection \<open>Consents of the endpoint\<close>

text \<open>What nobody but the endpoint's own acceptance and binding may do to a consent.\<close>

definition kept :: "pending_consent \<Rightarrow> pending_consent \<Rightarrow> bool" where
  "kept c c' \<longleftrightarrow> pc_share_id c' = pc_share_id c \<and> (\<not> undecided (pc_outcome c) \<longrightarrow> pc_outcome c' = pc_outcome c) \<and>
     (\<forall>i. pc_outcome c' = CAccepted i \<longrightarrow> pc_outcome c = CAccepted i)"

definition cells_kept :: "consent_store \<Rightarrow> consent_store \<Rightarrow> bool" where
  "cells_kept cs cs' \<longleftrightarrow> (\<forall>a c. cs a = Some c \<longrightarrow> (\<exists>c'. cs' a = Some c' \<and> kept c c'))"

lemma kept_refl [simp]: "kept c c"
  by (simp add: kept_def)

lemma kept_trans: "kept a b \<Longrightarrow> kept b c \<Longrightarrow> kept a c"
  unfolding kept_def by metis

lemma cells_kept_refl [simp]: "cells_kept cs cs"
  by (simp add: cells_kept_def)

lemma cells_kept_trans: "cells_kept a b \<Longrightarrow> cells_kept b c \<Longrightarrow> cells_kept a c"
  unfolding cells_kept_def by (meson kept_trans)

lemma cells_kept_upd: "cs a = Some c \<Longrightarrow> kept c c' \<Longrightarrow> cells_kept cs (cs(a \<mapsto> c'))"
  by (simp add: cells_kept_def)

lemma cells_kept_new: "cs a = None \<Longrightarrow> cells_kept cs (cs(a \<mapsto> c))"
  by (simp add: cells_kept_def)

lemmas keeping_defs = consent_share_id_def read_outcome_def consent_reject_def cancel_unadmitted_def
  consent_fail_def consent_cancel_def consent_admit_def decision_def Let_def

lemma kept_methods:
  "kept c (snd (consent_share_id t c))" "kept c (snd (read_outcome t c))" "kept c (snd (consent_reject t i c))"
  "kept c (cancel_unadmitted t c)" "kept c (consent_fail t why c)" "kept c (consent_cancel t c)"
  "kept c (snd (consent_admit t c))"
  by (auto simp: keeping_defs kept_def undecided_def)

lemma worker_consent_kept: "worker_consent op \<Longrightarrow> kept c (consent_step op t c)"
  by (cases op) (simp_all add: kept_methods)

subsection \<open>Methods of the visibility\<close>

definition keeps_cells :: "(core \<Rightarrow> ('a \<times> core) option) \<Rightarrow> bool" where
  "keeps_cells act \<longleftrightarrow> (\<forall>core x core'. act core = Some (x, core') \<longrightarrow> cells_kept (snd core) (snd core'))"

lemma revoke_kept:
  assumes "revoke now e st cs = Some (r, st', cs')"
  shows "cells_kept cs cs'"
proof -
  have "cells_kept cs (cs(a \<mapsto> consent_cancel now c))" if "upgrade (vs_pending st) cs = Some (a, c)" for a c
    using that by (auto simp: upgrade_Some intro: cells_kept_upd kept_methods)
  then show ?thesis using revoke_cases(8) [OF assms] by (auto split: option.splits)
qed

lemma update_cells:
  assumes "update now act core = Some (x, jobs, core')"
  shows "\<exists>st. act (st, snd core) = Some (x, core')"
proof -
  obtain st cs where core: "core = (st, cs)" by fastforce
  obtain expired st1 cs1 where r: "(case vs_deadline st of
      Some d \<Rightarrow> if d \<le> now then revoke now False st cs else Some (None, st, cs)
    | None \<Rightarrow> Some (None, st, cs)) = Some (expired, st1, cs1)" and a: "act (st1, cs1) = Some (x, core')"
    using assms core by (auto simp: update_def split: bind_splits)
  have "cs1 = cs" using r revoke_cases(8) [of now False st cs] by (auto split: option.splits if_splits)
  then show ?thesis using a core by auto
qed

lemma update_kept:
  assumes "keeps_cells act" "update now act core = Some (x, jobs, core')"
  shows "cells_kept (snd core) (snd core')"
  using update_cells [OF assms(2)] assms(1) unfolding keeps_cells_def by (metis snd_conv)

lemma keeps_cells_same: "(\<And>core x core'. act core = Some (x, core') \<Longrightarrow> snd core' = snd core) \<Longrightarrow> keeps_cells act"
  by (fastforce simp: keeps_cells_def)

lemma keeps_open: "keeps_cells open_action"
  by (rule keeps_cells_same) (auto simp: open_action_def split: bind_splits prod.splits)

lemma keeps_peek: "keeps_cells (peek f)"
  by (rule keeps_cells_same) (auto simp: peek_def)

lemma keeps_resources: "keeps_cells (resources_action f)"
  by (rule keeps_cells_same) (auto simp: resources_action_def split: prod.splits option.splits)

lemma keeps_complete: "keeps_cells (complete_action now g r)"
  by (rule keeps_cells_same) (auto simp: complete_action_def split: prod.splits sum.splits if_splits)

lemma keeps_close: "keeps_cells (close_action t)"
  unfolding keeps_cells_def close_action_def by (auto split: bind_splits dest: revoke_kept)

lemma keeps_policy: "keeps_cells (policy_action t b)"
  unfolding keeps_cells_def policy_action_def by (auto split: bind_splits if_splits dest: revoke_kept)

lemma keeps_admit: "keeps_cells (admit_action t a)"
  unfolding keeps_cells_def
proof (intro allI impI)
  fix core x core'
  assume act: "admit_action t a core = Some (x, core')"
  obtain st cs where core: "core = (st, cs)" by fastforce
  obtain p where p: "cs a = Some p" using act core by (auto simp: admit_action_def split: bind_splits)
  let ?barred = "\<not> admissible st \<or> vs_generation st \<noteq> pc_generation p"
  let ?prior = "if ?barred then None else upgrade (vs_pending st) cs"
  let ?cs1 = "case ?prior of None \<Rightarrow> cs | Some (b, c) \<Rightarrow> cs(b \<mapsto> snd (read_outcome t c))"
  have one: "cells_kept cs ?cs1"
    by (auto simp: upgrade_Some split: option.splits intro: cells_kept_upd kept_methods)
  then obtain q where q: "?cs1 a = Some q" using p unfolding cells_kept_def by blast
  have "snd core' = ?cs1(a \<mapsto> snd (consent_reject t 0 q)) \<or> snd core' = ?cs1(a \<mapsto> snd (consent_admit t q))"
    using act p q core
    by (auto simp: admit_action_def Let_def split: if_splits prod.splits bool.splits)
  then have "cells_kept ?cs1 (snd core')"
    using q cells_kept_upd kept_methods by metis
  then show "cells_kept (snd core) (snd core')" using cells_kept_trans [OF one] core by simp
qed

lemma keeps_propose: "snd core a = None \<Longrightarrow> propose_action t g timeout a core = Some (x, core') \<Longrightarrow>
    cells_kept (snd core) (snd core')"
  by (auto simp: propose_action_def cells_kept_new split: prod.splits if_splits)

text \<open>Every method the endpoint or the worker calls.\<close>

definition section_keeps :: "(nat \<Rightarrow> nat \<Rightarrow> core \<Rightarrow> ('a \<times> jobs \<times> core) option) \<Rightarrow> bool" where
  "section_keeps sec \<longleftrightarrow> (\<forall>now t core x jobs core'. sec now t core = Some (x, jobs, core') \<longrightarrow>
     cells_kept (snd core) (snd core'))"

lemma propose_kept: "snd core a = None \<Longrightarrow> propose now t g timeout a core = Some (x, jobs, core') \<Longrightarrow>
    cells_kept (snd core) (snd core')"
  unfolding propose_def using update_cells keeps_propose by (metis snd_conv)

lemma sections_keep:
  "section_keeps (\<lambda>now t. status now)" "section_keeps (\<lambda>now t. generation_if_open now)"
  "section_keeps (\<lambda>now t. request_open now)" "section_keeps (\<lambda>now t. admit now t a)"
  "section_keeps (\<lambda>now t. complete_activation now g r)" "section_keeps close"
  "section_keeps (\<lambda>now t. set_policy now t b)" "section_keeps (propose_at a g timeout)"
  "section_keeps (\<lambda>now t. activation_requested now g)" "section_keeps (\<lambda>now t. with_resources now f)"
proof -
  note rules = update_kept [OF keeps_peek] update_kept [OF keeps_open] update_kept [OF keeps_admit]
    update_kept [OF keeps_complete] update_kept [OF keeps_close] update_kept [OF keeps_policy]
    update_kept [OF keeps_resources]
  show "section_keeps (\<lambda>now t. status now)" "section_keeps (\<lambda>now t. generation_if_open now)"
    "section_keeps (\<lambda>now t. request_open now)" "section_keeps (\<lambda>now t. admit now t a)"
    "section_keeps (\<lambda>now t. activation_requested now g)" "section_keeps (\<lambda>now t. with_resources now f)"
    unfolding section_keeps_def status_def generation_if_open_def request_open_def admit_def activation_requested_def
      with_resources_def
    by (blast intro: rules)+
  show "section_keeps (\<lambda>now t. complete_activation now g r)" "section_keeps close"
    "section_keeps (\<lambda>now t. set_policy now t b)"
    unfolding section_keeps_def complete_activation_def close_def set_policy_def
    by (auto split: bind_splits dest: rules)+
  show "section_keeps (propose_at a g timeout)"
    unfolding section_keeps_def propose_at_def
  proof (intro allI impI)
    fix now t core x jobs core'
    assume "(if snd core a = None then propose now t g timeout a core else None) = Some (x, jobs, core')"
    then show "cells_kept (snd core) (snd core')" using propose_kept [of core a now t g timeout] by (simp split: if_splits)
  qed
qed

lemma section_kept: "section_keeps sec \<Longrightarrow> map_option snd (sec now t core) = Some (jobs, core') \<Longrightarrow>
    cells_kept (snd core) (snd core')"
  unfolding section_keeps_def by (cases core; cases "sec now t core") auto

lemma worker_section_kept:
  assumes "worker_visibility op" "address_free op (snd core)" "vis_section op now t core = Some (jobs, core')"
  shows "cells_kept (snd core) (snd core')"
proof (cases op)
  case Close
  then show ?thesis using assms(3) section_kept [OF sections_keep(6)] by simp
next
  case (CompleteActivation g r)
  then show ?thesis using assms(3) section_kept [OF sections_keep(5) [where g = g and r = r]] by simp
next
  case (ActivationRequested g)
  then show ?thesis using assms(3) section_kept [OF sections_keep(9) [where g = g]] by simp
next
  case GenerationIfOpen
  then show ?thesis using assms(3) section_kept [OF sections_keep(2)] by simp
next
  case WithResources
  then show ?thesis using assms(3) section_kept [OF sections_keep(10) [where f = "\<lambda>r. ((), r)"]] by simp
next
  case (Propose g timeout a)
  then obtain x where "propose now t g timeout a core = Some (x, jobs, core')" using assms(3) by auto
  moreover have "snd core a = None" using assms(2) Propose by (simp add: address_free_def)
  ultimately show ?thesis using propose_kept by blast
qed (use assms(1) in simp_all)

lemma other_step_kept: "cells_kept (snd core) (snd (other_step call core))"
proof (cases call)
  case (OnVisibility op now t)
  then show ?thesis
    using worker_section_kept [of op core now t] by (auto split: option.splits prod.splits)
next
  case (OnConsent a op t)
  then show ?thesis by (auto split: option.splits intro: cells_kept_upd worker_consent_kept)
qed

lemma interfere_kept: "cells_kept (snd (dm_visibility d)) (snd (dm_visibility (interfere d)))"
proof -
  have "cells_kept (snd core) (snd (fold other_step calls core))" for calls core
  proof (induction calls arbitrary: core)
    case (Cons call calls)
    show ?case using cells_kept_trans [OF other_step_kept Cons.IH] by simp
  qed simp
  then show ?thesis by (simp add: interfere_def split: list.splits)
qed

subsection \<open>Small steps\<close>

text \<open>Coordinator operations that the endpoint uses without a condition of its own.\<close>

fun free_op :: "coord_op \<Rightarrow> bool" where
  "free_op (OpOfferInbound _ _ _) = False"
| "free_op (OpQueueOutbound _) = False"
| "free_op (OpQueueUnpinned _) = False"
| "free_op (OpAcceptInbound _) = False"
| "free_op _ = True"

definition cells :: "daemon \<Rightarrow> consent_store" where
  "cells d = snd (dm_visibility d)"

text \<open>
  \<^item> \<open>quiet\<close>: neither the shares nor the pending consent change, and decisions are kept;
  \<^item> \<open>share\<close>: an unconditional operation of the coordinator;
  \<^item> \<open>queue\<close>: a new outbound share, when none is live;
  \<^item> \<open>offer\<close>: a new inbound share, when none is live, bound to the consent that becomes the pending one;
  \<^item> \<open>accept\<close>: the pending consent is accepted for its share, and then the share;
  \<^item> \<open>clear\<close>: the pending consent is dropped, when its share needs it no more.
\<close>

inductive micro :: "daemon \<Rightarrow> daemon \<Rightarrow> bool" where
  quiet: "\<lbrakk>dm_sharing d' = dm_sharing d; dm_pending_consent d' = dm_pending_consent d; cells_kept (cells d) (cells d')\<rbrakk> \<Longrightarrow>
     micro d d'"
| share: "\<lbrakk>free_op op; dm_sharing d' = coord_step op (dm_sharing d); dm_pending_consent d' = dm_pending_consent d;
     cells d' = cells d\<rbrakk> \<Longrightarrow> micro d d'"
| queue: "\<lbrakk>\<not> has_active_share d; dm_sharing d' = snd (queue_outbound_with_preference att b (dm_sharing d));
     dm_pending_consent d' = dm_pending_consent d; cells d' = cells d\<rbrakk> \<Longrightarrow> micro d d'"
| offer: "\<lbrakk>\<not> has_active_share d; offer_inbound_sized att pid tot (dm_sharing d) = (Some i, dm_sharing d');
     dm_pending_consent d' = Some a; cells d' a = Some c; pc_share_id c = Some i; \<forall>j. pc_outcome c \<noteq> CAccepted j;
     cells_kept ((cells d)(a := None)) (cells d')\<rbrakk> \<Longrightarrow> micro d d'"
| accept: "\<lbrakk>dm_pending_consent d = Some a; cells d' a = Some c; pc_outcome c = CAccepted i; pc_share_id c = Some i;
     \<forall>c0. cells d a = Some c0 \<longrightarrow> pc_share_id c0 = Some i;
     cells_kept ((cells d)(a := None)) (cells d'); dm_sharing d' = snd (accept_inbound i (dm_sharing d));
     dm_pending_consent d' = dm_pending_consent d\<rbrakk> \<Longrightarrow> micro d d'"
| clear: "\<lbrakk>dm_pending_consent d = Some a; cells d a = Some c; pc_share_id c = Some i;
     \<not> (\<exists>s. active d = Some s \<and> sh_id s = i \<and> sh_phase s \<in> {AwaitingLocalConsent, Transferring});
     dm_sharing d' = dm_sharing d; dm_pending_consent d' = None; cells d' = cells d\<rbrakk> \<Longrightarrow> micro d d'"

text \<open>The primitives.\<close>

lemma tick_same:
  "dm_sharing (tick d) = dm_sharing d \<and> dm_pending_consent (tick d) = dm_pending_consent d \<and>
   dm_visibility (tick d) = dm_visibility d \<and> dm_network (tick d) = dm_network d \<and> dm_config (tick d) = dm_config d \<and>
   dm_transfer_started_at (tick d) = dm_transfer_started_at d \<and> dm_timeouts (tick d) = dm_timeouts d \<and>
   dm_outbound (tick d) = dm_outbound d \<and> dm_discovery_started_at (tick d) = dm_discovery_started_at d \<and>
   dm_simulated (tick d) = dm_simulated d \<and> dm_instant d \<le> dm_instant (tick d)"
  by (simp add: tick_def split: list.splits prod.splits)

lemma interfere_same:
  "dm_sharing (interfere d) = dm_sharing d \<and> dm_pending_consent (interfere d) = dm_pending_consent d"
  by (simp add: interfere_def split: list.splits)

lemma interfere_cells: "cells_kept (cells d) (cells (interfere d))"
  using interfere_kept by (simp add: cells_def)

lemma vis_call_fields:
  assumes "section_keeps sec" "vis_call sec d = Some (x, d')"
  shows "dm_sharing d' = dm_sharing d" "dm_pending_consent d' = dm_pending_consent d" "cells_kept (cells d) (cells d')"
proof -
  let ?d = "tick (tick (interfere d))"
  obtain jobs st cs where s: "sec (dm_boot (tick (interfere d))) (dm_boot ?d) (dm_visibility ?d) = Some (x, jobs, st, cs)"
    and d': "d' = ?d\<lparr>dm_visibility := (release_all jobs st, cs)\<rparr>"
    using assms(2) by (auto simp: vis_call_def boot_now_def Let_def split: bind_splits)
  have "cells_kept (snd (dm_visibility ?d)) cs" using assms(1) s unfolding section_keeps_def by (metis snd_conv)
  then show "cells_kept (cells d) (cells d')"
    using cells_kept_trans [OF interfere_cells] by (simp add: cells_def d' tick_same)
  show "dm_sharing d' = dm_sharing d" "dm_pending_consent d' = dm_pending_consent d"
    by (simp_all add: d' tick_same interfere_same)
qed

lemma consent_call_effect:
  assumes "consent_call a method d = Some (x, d')"
  obtains c t where "cells d a \<noteq> None \<Longrightarrow> kept (the (cells d a)) c" "x = fst (method t c)"
    "cells d' a = Some (snd (method t c))" "cells_kept ((cells d)(a := None)) (cells d')"
    "dm_sharing d' = dm_sharing d" "dm_pending_consent d' = dm_pending_consent d"
proof -
  let ?d = "tick (interfere d)"
  obtain c where c: "snd (dm_visibility ?d) a = Some c" and x: "x = fst (method (dm_boot ?d) c)"
    and d': "d' = ?d\<lparr>dm_visibility := (fst (dm_visibility ?d), (snd (dm_visibility ?d))(a \<mapsto> snd (method (dm_boot ?d) c)))\<rparr>"
    using assms by (auto simp: consent_call_def boot_now_def Let_def split: option.splits prod.splits)
  have k: "cells_kept (cells d) (snd (dm_visibility ?d))" using interfere_cells by (simp add: cells_def tick_same)
  show thesis
  proof (rule that)
    show "cells d a \<noteq> None \<Longrightarrow> kept (the (cells d a)) c" using k c unfolding cells_kept_def by fastforce
    show "x = fst (method (dm_boot ?d) c)" "cells d' a = Some (snd (method (dm_boot ?d) c))"
      by (simp_all add: x d' cells_def)
    show "cells_kept ((cells d)(a := None)) (cells d')"
      using k unfolding cells_kept_def by (simp add: d' cells_def)
    show "dm_sharing d' = dm_sharing d" "dm_pending_consent d' = dm_pending_consent d"
      by (simp_all add: d' tick_same interfere_same)
  qed
qed

lemma on_sharing_fields [simp]:
  "dm_visibility (snd (on_sharing f d)) = dm_visibility d" "dm_pending_consent (snd (on_sharing f d)) = dm_pending_consent d"
  "dm_sharing (snd (on_sharing f d)) = snd (f (dm_sharing d))" "dm_network (snd (on_sharing f d)) = dm_network d"
  "dm_outbound (snd (on_sharing f d)) = dm_outbound d"
  by (simp_all add: on_sharing_def split: prod.splits)

lemma in_sharing_fields [simp]:
  "dm_visibility (in_sharing f d) = dm_visibility d" "dm_pending_consent (in_sharing f d) = dm_pending_consent d"
  "dm_sharing (in_sharing f d) = f (dm_sharing d)" "dm_network (in_sharing f d) = dm_network d"
  by (simp_all add: in_sharing_def)

lemma to_worker_fields [simp]:
  "dm_visibility (snd (to_worker c d)) = dm_visibility d" "dm_pending_consent (snd (to_worker c d)) = dm_pending_consent d"
  "dm_sharing (snd (to_worker c d)) = dm_sharing d"
  by (simp_all add: to_worker_def split: option.splits prod.splits)

lemma admitted_pending:
  assumes "vis_call (\<lambda>now t. admit now t a) d = Some (True, d')"
  shows "\<exists>c. cells d' a = Some c \<and> pc_outcome c = CPending"
proof -
  let ?d = "tick (tick (interfere d))"
  let ?now = "dm_boot (tick (interfere d))" and ?t = "dm_boot ?d" and ?core = "dm_visibility ?d"
  obtain jobs st cs where s: "admit ?now ?t a ?core = Some (True, jobs, st, cs)" and cells: "cells d' = cs"
    using assms by (auto simp: vis_call_def boot_now_def Let_def cells_def split: bind_splits)
  obtain st0 where act: "admit_action ?t a (st0, snd ?core) = Some (True, st, cs)"
    using update_cells s unfolding admit_def by metis
  then have "\<exists>q c. cs a = Some c \<and> consent_admit ?t q = (True, c)"
    by (auto simp: admit_action_def Let_def split: bind_splits if_splits prod.splits bool.splits option.splits)
  then show ?thesis using cells by (auto simp: consent_admit_def Let_def split: if_splits)
qed

lemma has_active_sharing: "dm_sharing d' = dm_sharing d \<Longrightarrow> has_active_share d' = has_active_share d"
  by (simp add: has_active_share_def active_def)

subsection \<open>Laws of the steps\<close>

text \<open>
  A relation between states of the endpoint that holds along its steps. The laws speak of the six kinds
  of steps; a relation need only allow the ones that put a new share in the place of another, or remove
  one, when \<open>free\<close>. The handlers are shown to stay within every such relation.
\<close>

fun calm :: "coord_op \<Rightarrow> bool" where
  "calm (OpDismiss _) = False"
| "calm op = free_op op"

locale endpoint_steps =
  fixes evolves :: "daemon \<Rightarrow> daemon \<Rightarrow> bool" and free :: bool
  assumes evolves_refl: "evolves d d"
    and evolves_trans: "evolves d1 d2 \<Longrightarrow> evolves d2 d3 \<Longrightarrow> evolves d1 d3"
    and quiet_step: "dm_sharing d' = dm_sharing d \<Longrightarrow> dm_pending_consent d' = dm_pending_consent d \<Longrightarrow>
      cells_kept (cells d) (cells d') \<Longrightarrow> evolves d d'"
    and share_step: "calm op \<Longrightarrow> dm_sharing d' = coord_step op (dm_sharing d) \<Longrightarrow>
      dm_pending_consent d' = dm_pending_consent d \<Longrightarrow> cells d' = cells d \<Longrightarrow> evolves d d'"
    and dismiss_step: "free \<or> has_active_share d \<Longrightarrow> dm_sharing d' = coord_step (OpDismiss j) (dm_sharing d) \<Longrightarrow>
      dm_pending_consent d' = dm_pending_consent d \<Longrightarrow> cells d' = cells d \<Longrightarrow> evolves d d'"
    and queue_step: "free \<Longrightarrow> \<not> has_active_share d \<Longrightarrow>
      dm_sharing d' = snd (queue_outbound_with_preference att b (dm_sharing d)) \<Longrightarrow>
      dm_pending_consent d' = dm_pending_consent d \<Longrightarrow> cells d' = cells d \<Longrightarrow> evolves d d'"
    and offer_step: "free \<Longrightarrow> \<not> has_active_share d \<Longrightarrow>
      offer_inbound_sized att pid tot (dm_sharing d) = (Some i, dm_sharing d') \<Longrightarrow>
      dm_pending_consent d' = Some a \<Longrightarrow> cells d' a = Some c \<Longrightarrow> pc_share_id c = Some i \<Longrightarrow>
      \<forall>j. pc_outcome c \<noteq> CAccepted j \<Longrightarrow> cells_kept ((cells d)(a := None)) (cells d') \<Longrightarrow> evolves d d'"
    and accept_step: "dm_pending_consent d = Some a \<Longrightarrow> cells d' a = Some c \<Longrightarrow> pc_outcome c = CAccepted i \<Longrightarrow>
      pc_share_id c = Some i \<Longrightarrow> \<forall>c0. cells d a = Some c0 \<longrightarrow> pc_share_id c0 = Some i \<Longrightarrow>
      cells_kept ((cells d)(a := None)) (cells d') \<Longrightarrow> dm_sharing d' = snd (accept_inbound i (dm_sharing d)) \<Longrightarrow>
      dm_pending_consent d' = dm_pending_consent d \<Longrightarrow> evolves d d'"
    and clear_step: "dm_pending_consent d = Some a \<Longrightarrow> cells d a = Some c \<Longrightarrow> pc_share_id c = Some i \<Longrightarrow>
      \<not> (\<exists>s. active d = Some s \<and> sh_id s = i \<and> sh_phase s \<in> {AwaitingLocalConsent, Transferring}) \<Longrightarrow>
      dm_sharing d' = dm_sharing d \<Longrightarrow> dm_pending_consent d' = None \<Longrightarrow> cells d' = cells d \<Longrightarrow> evolves d d'"
begin

declare evolves_refl [simp]

lemma evolves_same:
  "dm_sharing d' = dm_sharing d \<Longrightarrow> dm_pending_consent d' = dm_pending_consent d \<Longrightarrow> dm_visibility d' = dm_visibility d \<Longrightarrow>
     evolves d d'"
  by (rule quiet_step) (simp_all add: cells_def)

lemma evolves_share:
  "calm op \<Longrightarrow> dm_sharing d' = coord_step op (dm_sharing d) \<Longrightarrow> dm_pending_consent d' = dm_pending_consent d \<Longrightarrow>
     dm_visibility d' = dm_visibility d \<Longrightarrow> evolves d d'"
  by (rule share_step) (simp_all add: cells_def)

lemma vis_call_quiet: "section_keeps sec \<Longrightarrow> vis_call sec d = Some (x, d') \<Longrightarrow> evolves d d'"
  by (rule quiet_step) (rule vis_call_fields; assumption)+

lemma consent_call_quiet:
  assumes "consent_call a method d = Some (x, d')" "\<And>t c. fst (method t c) = x \<Longrightarrow> kept c (snd (method t c))"
  shows "evolves d d'"
proof -
  obtain c t where e: "cells d a \<noteq> None \<Longrightarrow> kept (the (cells d a)) c" "x = fst (method t c)"
    "cells d' a = Some (snd (method t c))" "cells_kept ((cells d)(a := None)) (cells d')"
    "dm_sharing d' = dm_sharing d" "dm_pending_consent d' = dm_pending_consent d"
    using consent_call_effect [OF assms(1)] by metis
  have step: "kept c (snd (method t c))" using assms(2) e(2) by simp
  have "\<exists>c'. cells d' b = Some c' \<and> kept c0 c'" if "cells d b = Some c0" for b c0
  proof (cases "b = a")
    case True
    then show ?thesis using that e(1,3) step kept_trans by fastforce
  next
    case False
    then show ?thesis using that e(4) unfolding cells_kept_def by (metis fun_upd_other)
  qed
  then show ?thesis using e(5,6) by (intro quiet_step) (auto simp: cells_kept_def)
qed

lemma on_sharing_evolves:
  assumes "on_sharing f d = (x, d')" "calm op" "\<And>c. snd (f c) = coord_step op c"
  shows "evolves d d'"
proof -
  have "d' = d\<lparr>dm_sharing := snd (f (dm_sharing d))\<rparr>" using assms(1) by (auto simp: on_sharing_def split: prod.splits)
  then show ?thesis using assms(3) by (intro evolves_share [OF assms(2)]) simp_all
qed

lemma on_sharing_snd:
  assumes "calm op" "\<And>c. snd (f c) = coord_step op c"
  shows "evolves d (snd (on_sharing f d))"
  using on_sharing_evolves [OF _ assms, of d "fst (on_sharing f d)" "snd (on_sharing f d)"] by simp

lemma in_sharing_evolves: "calm op \<Longrightarrow> (\<And>c. f c = coord_step op c) \<Longrightarrow> evolves d (in_sharing f d)"
  by (rule evolves_share) (simp_all add: in_sharing_def)

text \<open>One fact per coordinator method, for both ways of calling it.\<close>

lemma method_steps:
  "evolves d (snd (on_sharing (cancel i) d))"
  "evolves d (snd (on_sharing (fail i) d))"
  "evolves d (snd (on_sharing (complete i) d))"
  "evolves d (snd (on_sharing (record_progress i n) d))"
  "evolves d (snd (on_sharing discovery_timed_out d))"
  "evolves d (snd (on_sharing (pin_peer p) d))"
  "evolves d (snd (on_sharing (remove_peer p) d))"
  "evolves d (snd (on_sharing (select_peer i p) d))"
  "evolves d (snd (on_sharing (accept_by_peer i) d))"
  "evolves d (snd (on_sharing (reject_by_peer i) d))"
  "evolves d (snd (on_sharing (reject_inbound i) d))"
  "evolves d (snd (on_sharing (replace_attachment i att) d))"
  "evolves d (snd (on_sharing (record_verification_code i code) d))"
  "evolves d (snd (on_sharing (record_observation i m r t g) d))"
  "evolves d (in_sharing (observe_peer p name) d)"
  "evolves d (in_sharing unpin_peers d)"
  "evolves d (in_sharing (set_visibility_status st v) d)"
  "evolves d (in_sharing start_discovery d)"
  "evolves d (in_sharing stop_discovery d)"
proof -
  show "evolves d (snd (on_sharing (cancel i) d))" by (rule on_sharing_snd [where op = "OpCancel i"]) simp_all
  show "evolves d (snd (on_sharing (fail i) d))" by (rule on_sharing_snd [where op = "OpFail i"]) simp_all
  show "evolves d (snd (on_sharing (complete i) d))" by (rule on_sharing_snd [where op = "OpComplete i"]) simp_all
  show "evolves d (snd (on_sharing (record_progress i n) d))" by (rule on_sharing_snd [where op = "OpRecordProgress i n"]) simp_all
  show "evolves d (snd (on_sharing discovery_timed_out d))" by (rule on_sharing_snd [where op = "OpDiscoveryTimedOut"]) simp_all
  show "evolves d (snd (on_sharing (pin_peer p) d))" by (rule on_sharing_snd [where op = "OpPinPeer p"]) simp_all
  show "evolves d (snd (on_sharing (remove_peer p) d))" by (rule on_sharing_snd [where op = "OpRemovePeer p"]) simp_all
  show "evolves d (snd (on_sharing (select_peer i p) d))" by (rule on_sharing_snd [where op = "OpSelectPeer i p"]) simp_all
  show "evolves d (snd (on_sharing (accept_by_peer i) d))" by (rule on_sharing_snd [where op = "OpAcceptByPeer i"]) simp_all
  show "evolves d (snd (on_sharing (reject_by_peer i) d))" by (rule on_sharing_snd [where op = "OpRejectByPeer i"]) simp_all
  show "evolves d (snd (on_sharing (reject_inbound i) d))" by (rule on_sharing_snd [where op = "OpRejectInbound i"]) simp_all
  show "evolves d (snd (on_sharing (replace_attachment i att) d))" by (rule on_sharing_snd [where op = "OpReplaceAttachment i att"]) simp_all
  show "evolves d (snd (on_sharing (record_verification_code i code) d))" by (rule on_sharing_snd [where op = "OpRecordCode i code"]) simp_all
  show "evolves d (snd (on_sharing (record_observation i m r t g) d))" by (rule on_sharing_snd [where op = "OpRecordObservation i m r t g"]) simp_all
  show "evolves d (in_sharing (observe_peer p name) d)" by (rule in_sharing_evolves [where op = "OpObservePeer p name"]) simp_all
  show "evolves d (in_sharing unpin_peers d)" by (rule in_sharing_evolves [where op = "OpUnpinPeers"]) simp_all
  show "evolves d (in_sharing (set_visibility_status st v) d)" by (rule in_sharing_evolves [where op = "OpSetVisibility st v"]) simp_all
  show "evolves d (in_sharing start_discovery d)" by (rule in_sharing_evolves [where op = "OpStartDiscovery"]) simp_all
  show "evolves d (in_sharing stop_discovery d)" by (rule in_sharing_evolves [where op = "OpStopDiscovery"]) simp_all
qed

lemma dismiss_evolves:
  "free \<or> has_active_share d \<Longrightarrow> on_sharing (dismiss i) d = (b, d') \<Longrightarrow> evolves d d'"
  by (rule dismiss_step [where j = i]) (auto simp: on_sharing_def cells_def split: prod.splits)

text \<open>The handlers.\<close>

lemma side_steps:
  "evolves d (in_outbound f d)" "evolves d (notify k d)" "evolves d (worker_cancel i d)" "evolves d (in_preferences g d)"
  "evolves d (snd (to_worker c d))" "evolves d (tick d)" "evolves d (snd (instant_now d))" "evolves d (record_failure i why d)"
  "evolves d (snd (transfer_start d))" "evolves d (pin_if_configured p d)"
proof -
  show "evolves d (in_outbound f d)" "evolves d (notify k d)" "evolves d (worker_cancel i d)" "evolves d (in_preferences g d)"
    "evolves d (snd (to_worker c d))" "evolves d (tick d)"
    by (rule evolves_same; simp add: in_outbound_def notify_def worker_cancel_def in_preferences_def tick_same)+
  show "evolves d (snd (instant_now d))" by (rule evolves_same) (simp_all add: instant_now_def Let_def tick_same)
  show "evolves d (record_failure i why d)" unfolding record_failure_def by (rule method_steps)
  show "evolves d (snd (transfer_start d))"
    by (rule evolves_same) (simp_all add: transfer_start_def instant_now_def Let_def tick_same split: option.splits)
  show "evolves d (pin_if_configured p d)" unfolding pin_if_configured_def by (simp add: method_steps)
qed

lemma sync_visibility_evolves:
  assumes "sync_visibility d = Some d'"
  shows "evolves d d'"
proof -
  obtain st v d1 where d1: "vis_call (\<lambda>now t. status now) d = Some ((st, v), d1)"
    using assms by (auto simp: sync_visibility_def split: bind_splits)
  let ?d2 = "in_sharing (set_visibility_status st v) d1"
  have e2: "evolves d ?d2" using vis_call_quiet [OF sections_keep(1) d1] method_steps(17) evolves_trans by blast
  show ?thesis
  proof (cases "dm_pending_consent ?d2")
    case None
    then show ?thesis using assms d1 e2 by (simp add: sync_visibility_def Let_def)
  next
    case (Some a)
    obtain bound d3 where d3: "consent_call a consent_share_id ?d2 = Some (bound, d3)"
      using assms d1 Some by (auto simp: sync_visibility_def Let_def split: bind_splits)
    have e3: "evolves d d3" using e2 consent_call_quiet [OF d3 kept_methods(1)] by (rule evolves_trans)
    obtain c3 where c3: "cells d3 a = Some c3" "pc_share_id c3 = bound" "dm_pending_consent d3 = Some a"
      using consent_call_effect [OF d3] Some by (metis consent_share_id_def fst_conv snd_conv)
    show ?thesis
    proof (cases bound)
      case None
      then show ?thesis using assms d1 Some d3 e3 by (simp add: sync_visibility_def Let_def)
    next
      case bound: (Some i)
      obtain out d4 where d4: "consent_call a read_outcome d3 = Some (out, d4)"
        using assms d1 Some d3 bound by (auto simp: sync_visibility_def Let_def split: bind_splits)
      have e4: "evolves d d4" using e3 consent_call_quiet [OF d4 kept_methods(2)] by (rule evolves_trans)
      obtain c4 where c4: "cells d4 a = Some c4" "pc_share_id c4 = Some i" "dm_pending_consent d4 = Some a"
        using consent_call_effect [OF d4] c3 bound kept_methods(2) by (metis kept_def option.distinct(1) option.sel)
      let ?d5 = "case out of
          CTimedOut \<Rightarrow> (case on_sharing (fail i) d4 of
              (True, d) \<Rightarrow> record_failure i timed_out_text d | (False, d) \<Rightarrow> d)
        | CCancelled \<Rightarrow> snd (on_sharing (cancel i) d4) | _ \<Rightarrow> d4"
      have e5: "evolves d4 ?d5"
      proof (cases out)
        case CTimedOut
        obtain b df where f: "on_sharing (fail i) d4 = (b, df)" by fastforce
        have "evolves d4 df" using method_steps(2) [of d4 i] f by simp
        then show ?thesis using CTimedOut f evolves_trans [OF _ side_steps(8)] by (cases b) auto
      qed (simp_all add: method_steps)
      have same: "dm_visibility ?d5 = dm_visibility d4" "dm_pending_consent ?d5 = dm_pending_consent d4"
      proof -
        obtain b df where f: "on_sharing (fail i) d4 = (b, df)" by fastforce
        then have "dm_visibility df = dm_visibility d4" "dm_pending_consent df = dm_pending_consent d4"
          using on_sharing_fields(1,2) [of "fail i" d4] by simp_all
        then show "dm_visibility ?d5 = dm_visibility d4" "dm_pending_consent ?d5 = dm_pending_consent d4"
          using f by (cases out; cases b; simp add: record_failure_def)+
      qed
      have d': "d' = (case active ?d5 of
          Some s \<Rightarrow> if sh_id s = i \<and> sh_phase s \<in> {AwaitingLocalConsent, Transferring} then ?d5
            else ?d5\<lparr>dm_pending_consent := None\<rparr>
        | None \<Rightarrow> ?d5\<lparr>dm_pending_consent := None\<rparr>)"
        using assms d1 Some d3 bound d4 by (simp add: sync_visibility_def Let_def)
      have e6: "evolves ?d5 d'"
      proof (cases "\<exists>s. active ?d5 = Some s \<and> sh_id s = i \<and> sh_phase s \<in> {AwaitingLocalConsent, Transferring}")
        case True
        then show ?thesis using d' by auto
      next
        case False
        then have "d' = ?d5\<lparr>dm_pending_consent := None\<rparr>" using d' by (auto split: option.splits if_splits)
        then show ?thesis
          using False c4 same by (intro clear_step [of ?d5 a c4 i]) (simp_all add: cells_def)
      qed
      show ?thesis using evolves_trans [OF evolves_trans [OF e4 e5] e6] .
    qed
  qed
qed

lemma admit_inbound_evolves:
  assumes "admit_inbound att pid tot a d = Some (r, d')" "free \<or> has_active_share d"
  shows "evolves d d'"
proof (cases "has_active_share d")
  case True
  then obtain x where "consent_call a (\<lambda>t. consent_reject t 0) d = Some (x, d')"
    using assms by (auto simp: admit_inbound_def split: bind_splits)
  then show ?thesis by (rule consent_call_quiet) (rule kept_methods)
next
  case idle: False
  obtain ok d1 where d1: "vis_call (\<lambda>now t. admit now t a) d = Some (ok, d1)"
    using assms idle by (auto simp: admit_inbound_def split: bind_splits)
  note q = vis_call_fields [OF sections_keep(4) d1]
  have e1: "evolves d d1" by (rule vis_call_quiet [OF sections_keep(4) d1])
  show ?thesis
  proof (cases ok)
    case False
    then show ?thesis using assms idle d1 e1 by (simp add: admit_inbound_def)
  next
    case True
    obtain id d2 where d2: "on_sharing (offer_inbound_sized att pid tot) d1 = (id, d2)" by fastforce
    then have d2_eq: "d2 = d1\<lparr>dm_sharing := snd (offer_inbound_sized att pid tot (dm_sharing d1))\<rparr>"
      and id: "id = fst (offer_inbound_sized att pid tot (dm_sharing d1))"
      by (auto simp: on_sharing_def split: prod.splits)
    show ?thesis
    proof (cases id)
      case None
      then have "snd (offer_inbound_sized att pid tot (dm_sharing d1)) = dm_sharing d1"
        using id by (auto simp: offer_inbound_sized_def next_id_def Let_def split: option.splits)
      then have "evolves d1 d2" using d2_eq by (intro evolves_same) simp_all
      moreover obtain x where "consent_call a (\<lambda>t. consent_reject t 0) d2 = Some (x, d')"
        using assms idle d1 True d2 None by (auto simp: admit_inbound_def split: bind_splits)
      then have "evolves d2 d'" by (rule consent_call_quiet) (rule kept_methods)
      ultimately show ?thesis using e1 by (meson evolves_trans)
    next
      case (Some i)
      obtain x d3 where d3: "consent_call a (\<lambda>t c. ((), consent_bind t i c)) d2 = Some (x, d3)"
        and d': "d' = d3\<lparr>dm_pending_consent := Some a\<rparr>"
        using assms idle d1 True d2 Some by (auto simp: admit_inbound_def split: bind_splits)
      obtain c t where c: "cells d2 a \<noteq> None \<Longrightarrow> kept (the (cells d2 a)) c" "cells d3 a = Some (consent_bind t i c)"
        "cells_kept ((cells d2)(a := None)) (cells d3)" "dm_sharing d3 = dm_sharing d2"
        using consent_call_effect [OF d3] by (metis snd_conv)
      have cells2: "cells d2 = cells d1" by (simp add: cells_def d2_eq)
      obtain p where p: "cells d1 a = Some p" "pc_outcome p = CPending" using admitted_pending [of a d d1] d1 True by auto
      have fresh: "pc_share_id (consent_bind t i c) = Some i" "\<forall>j. pc_outcome (consent_bind t i c) \<noteq> CAccepted j"
        using c(1) p cells2 by (auto simp: consent_bind_def decision_def kept_def)
      have "evolves d1 d'"
      proof (rule offer_step [where a = a and c = "consent_bind t i c" and i = i])
        show free using assms(2) idle by simp
        show "\<not> has_active_share d1" using idle has_active_sharing [OF q(1)] by simp
        show "offer_inbound_sized att pid tot (dm_sharing d1) = (Some i, dm_sharing d')"
          using id Some d2_eq c(4) d' by (simp add: prod_eq_iff)
      qed (use d' c fresh cells2 in \<open>simp_all add: cells_def\<close>)
      then show ?thesis using e1 by (meson evolves_trans)
    qed
  qed
qed

lemma accept_pending_evolves:
  assumes "accept_pending i d = Some (r, d')"
  shows "evolves d d'"
proof (cases "dm_pending_consent d")
  case None
  then show ?thesis using assms by (simp add: accept_pending_def)
next
  case (Some a)
  show ?thesis
  proof (cases "awaiting_local i d")
    case False
    then show ?thesis
      using assms Some sync_visibility_evolves by (auto simp: accept_pending_def split: bind_splits)
  next
    case True
    obtain ok d1 where d1: "consent_call a (\<lambda>t. consent_accept t i) d = Some (ok, d1)"
      using assms Some True by (auto simp: accept_pending_def split: bind_splits)
    show ?thesis
    proof (cases ok)
      case False
      have "evolves d d1"
        by (rule consent_call_quiet [OF d1])
          (use False in \<open>auto simp: consent_accept_def Let_def kept_def decision_def undecided_def split: if_splits\<close>)
      moreover have "sync_visibility d1 = Some d'"
        using assms Some True d1 False by (auto simp: accept_pending_def split: bind_splits)
      ultimately show ?thesis using sync_visibility_evolves evolves_trans by blast
    next
      case ok: True
      obtain c t where c: "ok = fst (consent_accept t i c)" "cells d1 a = Some (snd (consent_accept t i c))"
        "cells_kept ((cells d)(a := None)) (cells d1)" "dm_sharing d1 = dm_sharing d"
        "dm_pending_consent d1 = dm_pending_consent d" "cells d a \<noteq> None \<Longrightarrow> kept (the (cells d a)) c"
        using consent_call_effect [OF d1] by metis
      have d': "d' = snd (on_sharing (accept_inbound i) d1)"
        using assms Some True d1 ok by (simp add: accept_pending_def prod_eq_iff)
      have "pc_outcome (snd (consent_accept t i c)) = CAccepted i" "pc_share_id (snd (consent_accept t i c)) = Some i"
        and own: "pc_share_id c = Some i"
        using c(1) ok by (auto simp: consent_accept_def decision_def Let_def split: if_splits)
      moreover have "\<forall>c0. cells d a = Some c0 \<longrightarrow> pc_share_id c0 = Some i"
        using c(6) own by (auto simp: kept_def)
      ultimately show ?thesis
        using c(1-5) Some by (intro accept_step [of d a d' "snd (consent_accept t i c)" i]) (simp_all add: d' cells_def)
    qed
  qed
qed

lemma reject_pending_evolves:
  assumes "reject_pending i d = Some (r, d')"
  shows "evolves d d'"
proof (cases "dm_pending_consent d")
  case None
  then show ?thesis using assms sync_visibility_evolves by (auto simp: reject_pending_def split: bind_splits)
next
  case (Some a)
  obtain bound d1 where d1: "consent_call a consent_share_id d = Some (bound, d1)"
    using assms Some by (auto simp: reject_pending_def split: bind_splits)
  have e1: "evolves d d1" by (rule consent_call_quiet [OF d1]) (rule kept_methods)
  show ?thesis
  proof (cases "bound = Some i")
    case False
    then have "sync_visibility d1 = Some d'" using assms Some d1 by (auto simp: reject_pending_def split: bind_splits)
    then show ?thesis using e1 sync_visibility_evolves evolves_trans by blast
  next
    case True
    obtain ok d2 where d2: "consent_call a (\<lambda>t. consent_reject t i) d1 = Some (ok, d2)"
      using assms Some d1 True by (auto simp: reject_pending_def split: bind_splits)
    have e2: "evolves d d2" using e1 consent_call_quiet [OF d2 kept_methods(3)] by (rule evolves_trans)
    show ?thesis
    proof (cases ok)
      case False
      then have "sync_visibility d2 = Some d'"
        using assms Some d1 True d2 by (auto simp: reject_pending_def split: bind_splits)
      then show ?thesis using e2 sync_visibility_evolves evolves_trans by blast
    next
      case ok: True
      then have "d' = snd (on_sharing (reject_inbound i) d2)"
        using assms Some d1 True d2 by (simp add: reject_pending_def prod_eq_iff)
      then show ?thesis using e2 method_steps(11) evolves_trans by blast
    qed
  qed
qed

lemma simulate_inbound_evolves:
  assumes "simulate_inbound a att d = Some (r, d')" "free \<or> has_active_share d"
  shows "evolves d d'"
proof -
  obtain g d1 where d1: "vis_call (\<lambda>now t. generation_if_open now) d = Some (g, d1)"
    using assms by (auto simp: simulate_inbound_def split: bind_splits)
  have e1: "evolves d d1" by (rule vis_call_quiet [OF sections_keep(2) d1])
  show ?thesis
  proof (cases g)
    case None
    then show ?thesis using assms d1 e1 by (simp add: simulate_inbound_def)
  next
    case (Some gen)
    obtain p d2 where d2: "vis_call (propose_at a gen (cf_consent_timeout_secs (dm_config d1) * NANOS)) d1 = Some (p, d2)"
      using assms d1 Some by (auto simp: simulate_inbound_def split: bind_splits)
    have e2: "evolves d d2" using e1 vis_call_quiet [OF sections_keep(8) d2] by (rule evolves_trans)
    show ?thesis
    proof (cases p)
      case None
      then show ?thesis using assms d1 Some d2 e2 by (simp add: simulate_inbound_def)
    next
      case p: (Some b)
      obtain x where "admit_inbound att (ascii ''pixel-8'') None b d2 = Some (x, d')"
        using assms d1 Some d2 p by (auto simp: simulate_inbound_def split: bind_splits)
      moreover have "free \<or> has_active_share d2"
        using assms(2) vis_call_fields(1) [OF sections_keep(2) d1] vis_call_fields(1) [OF sections_keep(8) d2] has_active_sharing
        by metis
      ultimately show ?thesis using e2 admit_inbound_evolves evolves_trans by blast
    qed
  qed
qed

lemma capture_evolves: "evolves d (capture_timeout_settings d)"
proof -
  have "evolves d (capture_discovery d)" for d
    by (rule evolves_same) (simp_all add: capture_discovery_def instant_now_def Let_def tick_same)
  moreover have "evolves d (capture_transfer d)" for d
    by (rule evolves_same)
      (simp_all add: capture_transfer_def transfer_start_def instant_now_def Let_def tick_same split: option.splits)
  ultimately show ?thesis unfolding capture_timeout_settings_def by (meson evolves_trans)
qed

lemma timeout_discovery_evolves: "evolves d (snd (timeout_discovery d))"
proof (cases "discovery_of d = Searching")
  case False
  then show ?thesis by (intro evolves_same) (simp_all add: timeout_discovery_def)
next
  case True
  define d1 where "d1 = (case dm_discovery_started_at d of Some t \<Rightarrow> d
    | None \<Rightarrow> (tick d)\<lparr>dm_discovery_started_at := Some (dm_instant (tick d))\<rparr>)"
  define d2 where "d2 = tick d1"
  have e2: "evolves d d2"
    by (rule evolves_same) (simp_all add: d1_def d2_def tick_same split: option.splits)
  define d3 where "d3 = snd (on_sharing discovery_timed_out d2)"
  have e3: "evolves d d3" unfolding d3_def using e2 method_steps(5) by (rule evolves_trans)
  have e4: "evolves d (snd (to_worker StopDiscovery d3))" using e3 side_steps(5) by (rule evolves_trans)
  have e5: "evolves d ((snd (to_worker StopDiscovery d3))\<lparr>dm_discovery_started_at := None\<rparr>)"
    using e4 by (rule evolves_trans) (rule evolves_same; simp)
  have "snd (timeout_discovery d) \<in> {d2, snd (to_worker StopDiscovery d3),
      (snd (to_worker StopDiscovery d3))\<lparr>dm_discovery_started_at := None\<rparr>}"
    using True by (auto simp: timeout_discovery_def instant_now_def Let_def d1_def d2_def d3_def
        split: option.splits sum.splits prod.splits)
  then show ?thesis using e2 e4 e5 by auto
qed

lemma timeout_transfer_evolves: "evolves d (timeout_transfer d)"
proof (cases "\<exists>s. active d = Some s \<and> sh_phase s = Transferring")
  case False
  then have "timeout_transfer d = d\<lparr>dm_transfer_started_at := None\<rparr>"
    by (auto simp: timeout_transfer_def split: option.splits)
  then show ?thesis by (simp add: evolves_same)
next
  case True
  then obtain s where s: "active d = Some s" "sh_phase s = Transferring" by blast
  define d2 where "d2 = tick (snd (transfer_start d))"
  have e2: "evolves d d2" unfolding d2_def using side_steps(9,6) evolves_trans by blast
  obtain b d3 where d3: "on_sharing (fail (sh_id s)) d2 = (b, d3)" by fastforce
  have e3: "evolves d d3" using e2 method_steps(2) [of d2 "sh_id s"] d3 evolves_trans by (metis snd_conv)
  define d4 where "d4 = (if b then notify Error (worker_cancel (sh_id s) (record_failure (sh_id s) timed_out_text d3)) else d3)"
  have e4: "evolves d d4"
    unfolding d4_def using e3 evolves_trans [OF evolves_trans [OF evolves_trans [OF e3 side_steps(8)] side_steps(3)] side_steps(2)]
    by (cases b) simp_all
  have e5: "evolves d ((in_outbound (outbound_finish (sh_id s)) d4)\<lparr>dm_transfer_started_at := None\<rparr>)"
    using evolves_trans [OF e4 side_steps(1)] by (rule evolves_trans) (rule evolves_same; simp)
  have "timeout_transfer d \<in> {d2, (in_outbound (outbound_finish (sh_id s)) d4)\<lparr>dm_transfer_started_at := None\<rparr>}"
    using s d3 by (auto simp: timeout_transfer_def instant_now_def Let_def d2_def d4_def
        split: option.splits prod.splits bool.splits)
  then show ?thesis using e2 e5 by auto
qed

lemma apply_timeouts_evolves:
  assumes "apply_timeouts d = Some (r, d')"
  shows "evolves d d'"
proof -
  obtain x d1 where d1: "timeout_discovery (capture_timeout_settings d) = (x, d1)" by fastforce
  have e1: "evolves d d1"
    using evolves_trans [OF capture_evolves timeout_discovery_evolves] d1 by (metis snd_conv)
  have e2: "evolves d (timeout_transfer d1)" using e1 timeout_transfer_evolves by (rule evolves_trans)
  show ?thesis
    using assms d1 e1 e2 sync_visibility_evolves evolves_trans
    by (cases x) (fastforce simp: apply_timeouts_def split: bind_splits)+
qed

lemma preferences_configured_evolves: "evolves d (preferences_configured config err d)"
proof (cases err)
  case (Some e)
  then show ?thesis by (simp add: preferences_configured_def Let_def side_steps)
next
  case None
  define d1 where "d1 = in_sharing unpin_peers (capture_timeout_settings d)"
  define d2 where "d2 = (case cf_pinned_peer_id config of None \<Rightarrow> d1 | Some p \<Rightarrow> snd (on_sharing (pin_peer p) d1))"
  define d3 where "d3 = in_preferences (\<lambda>p. p\<lparr>ps_applied := Some (values_of config)\<rparr>) (d2\<lparr>dm_config := config\<rparr>)"
  have "evolves d d1" unfolding d1_def using capture_evolves method_steps(16) by (rule evolves_trans)
  moreover have "evolves d1 d2" unfolding d2_def by (auto simp: method_steps split: option.splits)
  moreover have "evolves d2 d3"
    unfolding d3_def by (rule evolves_trans [OF _ side_steps(4)]) (rule evolves_same; simp)
  ultimately have "evolves d d3" by (meson evolves_trans)
  moreover have "preferences_configured config err d \<in> {d3, in_preferences (\<lambda>p. p\<lparr>ps_pending := False, ps_error := None\<rparr>) d3}"
    unfolding preferences_configured_def Let_def d3_def d2_def d1_def using None by simp
  ultimately show ?thesis using evolves_trans [OF _ side_steps(4)] by auto
qed

lemma activate_evolves:
  assumes "activate g d = Some d'"
  shows "evolves d d'"
proof (cases g)
  case None
  then show ?thesis using assms by (simp add: activate_def)
next
  case (Some gen)
  have finished: "evolves d1 d'" if "map_option snd (vis_call (\<lambda>now t. complete_activation now gen r) d1) = Some d'" for r d1
    using that vis_call_quiet [OF sections_keep(5)] by fastforce
  show ?thesis
  proof (cases "dm_network d")
    case None
    then show ?thesis using assms Some finished by (simp add: activate_def activate_visibility_def)
  next
    case net: (Some n)
    obtain r d1 where w: "to_worker (OpenVisibility gen) d = (r, d1)" by fastforce
    have "evolves d d1" using side_steps(5) [of d "OpenVisibility gen"] w by simp
    then show ?thesis
      using assms Some net w finished evolves_trans
      by (cases r) (auto simp: activate_def activate_visibility_def)
  qed
qed

lemma configure_preferences_evolves:
  assumes "configure_preferences config d = Some d'"
  shows "evolves d d'"
proof -
  define d0 where "d0 = in_preferences (\<lambda>p. p\<lparr>ps_saved := Some (values_of config), ps_error := None\<rparr>) d"
  obtain act d1 where d1: "vis_call (\<lambda>now t. set_policy now t (cf_discoverable config)) d0 = Some (act, d1)"
    using assms by (auto simp: configure_preferences_def Let_def d0_def split: bind_splits)
  obtain d2 where d2: "sync_visibility d1 = Some d2"
    using assms d1 by (auto simp: configure_preferences_def Let_def d0_def split: bind_splits)
  define d3 where "d3 = (case dm_network d2 of
      Some _ \<Rightarrow> (case to_worker (Configure config) (in_preferences (\<lambda>p. p\<lparr>ps_pending := True\<rparr>) d2) of
          (Inl e, d) \<Rightarrow> in_preferences (\<lambda>p. p\<lparr>ps_pending := False, ps_error := Some (unavailable_text (dm_show d e))\<rparr>) d
        | (Inr _, d) \<Rightarrow> d)
    | None \<Rightarrow> (case mkdir d2 of (r, d) \<Rightarrow> preferences_configured config (map_option (dm_show d) r) d))"
  obtain d4 where d4: "activate act d3 = Some d4" "sync_visibility d4 = Some d'"
    using assms d1 d2 by (auto simp: configure_preferences_def Let_def d0_def d3_def split: bind_splits)
  have "evolves d d0" unfolding d0_def by (rule side_steps)
  moreover have "evolves d0 d1" by (rule vis_call_quiet [OF sections_keep(7) d1])
  moreover have "evolves d1 d2" by (rule sync_visibility_evolves [OF d2])
  moreover have "evolves d2 d3"
  proof (cases "dm_network d2")
    case None
    obtain r dm where m: "mkdir d2 = (r, dm)" by fastforce
    then have "evolves d2 dm" by (intro evolves_same) (auto simp: mkdir_def split: list.splits)
    then show ?thesis using None m preferences_configured_evolves evolves_trans by (fastforce simp: d3_def)
  next
    case (Some n)
    define dp where "dp = in_preferences (\<lambda>p. p\<lparr>ps_pending := True\<rparr>) d2"
    obtain r dw where w: "to_worker (Configure config) dp = (r, dw)" by fastforce
    have "evolves d2 dp" unfolding dp_def by (rule side_steps)
    moreover have "evolves dp dw" using side_steps(5) [of dp "Configure config"] w by simp
    ultimately have "evolves d2 dw" by (rule evolves_trans)
    then show ?thesis
      using Some w evolves_trans [OF _ side_steps(4)] by (cases r) (auto simp: d3_def dp_def)
  qed
  moreover have "evolves d3 d4" by (rule activate_evolves [OF d4(1)])
  moreover have "evolves d4 d'" by (rule sync_visibility_evolves [OF d4(2)])
  ultimately show ?thesis by (meson evolves_trans)
qed

lemma configure_if_new_evolves: "configure_if_new config d = Some d' \<Longrightarrow> evolves d d'"
  by (auto simp: configure_if_new_def configure_preferences_evolves split: if_splits)

lemma load_config_evolves: "load_config d = (r, d') \<Longrightarrow> evolves d d'"
  by (rule evolves_same) (auto simp: load_config_def split: prod.splits)

lemma reload_preferences_evolves:
  assumes "reload_preferences d = Some (r, d')"
  shows "evolves d d'"
proof -
  obtain c d1 where d1: "config_changed d = (c, d1)" by fastforce
  have e1: "evolves d d1"
    using d1 by (intro evolves_same) (auto simp: config_changed_def split: option.splits list.splits)
  obtain l d2 where d2: "load_config d1 = (l, d2)" by fastforce
  have e2: "evolves d d2" using e1 load_config_evolves [OF d2] by (rule evolves_trans)
  have e3: "evolves d (in_preferences f d2)" for f using e2 side_steps(4) by (rule evolves_trans)
  show ?thesis
    using assms d1 d2 e1 e3 evolves_trans [OF e2 configure_if_new_evolves]
    by (cases c; cases l) (auto simp: reload_preferences_def split: bool.splits bind_splits)
qed

lemma patch_preferences_evolves:
  assumes "patch_preferences key value d = Some (r, d')"
  shows "evolves d d'"
proof -
  obtain p f where p: "config_patch (dm_parse d) (dm_print d) (dm_env d) key value (dm_files d) = (p, f)" by fastforce
  define d1 where "d1 = d\<lparr>dm_files := f\<rparr>"
  have e1: "evolves d d1" by (rule evolves_same) (simp_all add: d1_def)
  show ?thesis
  proof (cases p)
    case (Inr config)
    let ?closed = "if key = k_discoverable \<and> \<not> cf_discoverable config
        then map_option snd (vis_call close d1) else Some d1"
    have "Option.bind ?closed (configure_preferences config) = Some d'"
      using assms p Inr unfolding patch_preferences_def d1_def Let_def by (auto simp: Option.bind_eq_Some_conv)
    then obtain d2 where d2: "?closed = Some d2" "configure_preferences config d2 = Some d'"
      unfolding Option.bind_eq_Some_conv by blast
    have "evolves d1 d2" using d2(1) vis_call_quiet [OF sections_keep(6)] by (auto split: if_splits)
    then show ?thesis using e1 configure_preferences_evolves [OF d2(2)] by (meson evolves_trans)
  next
    case (Inl e)
    obtain l d2 where d2: "load_config d1 = (l, d2)" by fastforce
    have "load_config (d\<lparr>dm_files := f\<rparr>) = (l, d2)" using d2 unfolding d1_def .
    then obtain d3 where d3: "(case l of Inr config \<Rightarrow> configure_if_new config d2
        | Inl _ \<Rightarrow> Some (in_preferences (\<lambda>p. p\<lparr>ps_saved := None, ps_pending := False\<rparr>) d2)) = Some d3"
      and d': "\<exists>g. d' = in_preferences g d3"
      using assms p Inl by (cases l) (auto simp: patch_preferences_def Option.bind_eq_Some_conv)
    have "evolves d d2" using e1 load_config_evolves [OF d2] by (rule evolves_trans)
    moreover have "evolves d2 d3" using d3 configure_if_new_evolves side_steps(4) by (cases l) auto
    ultimately show ?thesis using d' side_steps(4) by (metis evolves_trans)
  qed
qed

end

end
