(* ===== verification/Daemon_Safety.thy ===== *)
theory Daemon_Safety
  imports Daemon_Service
begin

text \<open>
  The handlers of requests and events stay within every relation that obeys the laws of the steps. The
  relation of the steps themselves is one of them, and so, for every order of requests, events, timeouts
  and calls of the worker, an inbound share is transferred only after its own consent was accepted.
\<close>

subsection \<open>Stages of the service\<close>

lemma idle_keeps: "dm_sharing d' = dm_sharing d \<Longrightarrow> \<not> has_active_share d \<Longrightarrow> \<not> has_active_share d'"
  by (drule has_active_sharing) blast

text \<open>The last stage of answering a request.\<close>

definition plain_response :: "nat \<Rightarrow> control_request \<Rightarrow> daemon \<Rightarrow> ((io_kind + response_envelope) \<times> daemon) option" where
  "plain_response a request d =
     (case request of
        RqPatchPreferences key value \<Rightarrow> map_option (\<lambda>(r, d). (Inr r, d)) (patch_preferences key value d)
      | RqSnapshot \<Rightarrow> Some (Inr (snapshot_response (snapshot (dm_sharing d)) (dm_preferences d)), d)
      | RqStatus \<Rightarrow> Some (Inr ready, d)
      | RqSubmitFile path peer_id \<Rightarrow> Some (submit (queue_file path peer_id) peer_id d)
      | RqSubmitText peer_id text \<Rightarrow>
          Some (submit (queue_value (\<lambda>i. remember_text i text) (AText text) peer_id) peer_id d)
      | RqSubmitUrl peer_id url \<Rightarrow>
          Some (submit (queue_value (\<lambda>i. remember_url i url) (AUrl url) peer_id) peer_id d)
      | _ \<Rightarrow> map_option (\<lambda>(r, d). (Inr r, d)) (simulation_response a request d))"

text \<open>The stages a request goes through.\<close>

lemma response_stages:
  assumes "response_for a rq d = Some (r, d')"
  obtains
    (timeouts) e where "apply_timeouts d = Some (Inl e, d')" "r = Inl e"
  | (endpoint) d1 x where "apply_timeouts d = Some (Inr (), d1)" "endpoint_response rq d1 = Some (x, d')" "x \<noteq> Inr None"
  | (share) d1 d2 x where "apply_timeouts d = Some (Inr (), d1)" "endpoint_response rq d1 = Some (Inr None, d2)"
      "share_response rq d2 = Some (Some x, d')" "r = Inr x"
  | (plain) d1 d2 d3 where "apply_timeouts d = Some (Inr (), d1)" "endpoint_response rq d1 = Some (Inr None, d2)"
      "share_response rq d2 = Some (None, d3)" "plain_response a rq d3 = Some (r, d')"
proof -
  obtain x d1 where 1: "apply_timeouts d = Some (x, d1)"
    using assms by (auto simp: response_for_def Option.bind_eq_Some_conv)
  show ?thesis
  proof (cases x)
    case (Inl e)
    then show ?thesis using assms 1 timeouts by (simp add: response_for_def)
  next
    case (Inr u)
    obtain y d2 where 2: "endpoint_response rq d1 = Some (y, d2)"
      using assms 1 Inr by (auto simp: response_for_def Option.bind_eq_Some_conv)
    show ?thesis
    proof (cases "y = Inr None")
      case False
      then have "d2 = d'" using assms 1 2 Inr by (auto simp: response_for_def split: sum.splits option.splits)
      then show ?thesis using 1 2 Inr False endpoint by simp
    next
      case True
      obtain z d3 where 3: "share_response rq d2 = Some (z, d3)"
        using assms 1 2 Inr True by (auto simp: response_for_def Option.bind_eq_Some_conv)
      show ?thesis
      proof (cases z)
        case None
        have "plain_response a rq d3 = Some (r, d')"
          using assms 1 2 3 Inr True None unfolding response_for_def plain_response_def by simp
        then show ?thesis using 1 2 3 Inr True None plain by simp
      next
        case (Some v)
        then show ?thesis using assms 1 2 3 Inr True share by (simp add: response_for_def)
      qed
    qed
  qed
qed

lemma response_passed_on:
  "endpoint_response rq d = Some (Inr None, d') \<Longrightarrow> d' = d"
  "share_response rq d = Some (None, d') \<Longrightarrow> d' = d"
  by (cases rq; auto simp: endpoint_response_def share_response_def Let_def Option.bind_eq_Some_conv
      split: sum.splits prod.splits bool.splits if_splits)+

text \<open>What is done with an accepted client.\<close>

definition serve_client :: "nat \<Rightarrow> (io_kind + byte list) \<Rightarrow> daemon \<Rightarrow> ((io_kind + unit) \<times> daemon) option" where
  "serve_client a client d =
     (case client of
        Inl e \<Rightarrow> Some (Inl e, d)
      | Inr bytes \<Rightarrow> (case fst (read_record (dm_decode d) bytes) of
          Inl _ \<Rightarrow> Some (Inr (), d)
        | Inr request \<Rightarrow>
            if rq_version request \<noteq> PROTOCOL_VERSION then Some (Inl IInvalidData, d)
            else Option.bind (response_for a (rq_request request) d) (\<lambda>(r, d).
               case r of Inl e \<Rightarrow> Some (Inl e, d)
               | Inr response \<Rightarrow>
                   let d = (if is_queued response then d\<lparr>dm_queued := dm_queued d @ [request]\<rparr> else d)
                   in Some (Inr (), d\<lparr>dm_replies := dm_replies d @ [response]\<rparr>))))"

lemma serve_next_stages:
  assumes "serve_next a d = Some (r, d')"
  obtains
    (events) e where "apply_network_events d = Some (Inl e, d')" "r = Inl e"
  | (timeouts) d1 e where "apply_network_events d = Some (Inr (), d1)" "apply_timeouts d1 = Some (Inl e, d')" "r = Inl e"
  | (idle) d1 where "apply_network_events d = Some (Inr (), d1)" "apply_timeouts d1 = Some (Inr (), d')"
      "dm_clients d' = []" "r = Inl IWouldBlock"
  | (client) d1 d2 c cs where "apply_network_events d = Some (Inr (), d1)" "apply_timeouts d1 = Some (Inr (), d2)"
      "dm_clients d2 = c # cs" "serve_client a c (d2\<lparr>dm_clients := cs\<rparr>) = Some (r, d')"
proof -
  obtain x d1 where 1: "apply_network_events d = Some (x, d1)"
    using assms by (auto simp: serve_next_def Option.bind_eq_Some_conv)
  show ?thesis
  proof (cases x)
    case (Inl e)
    then show ?thesis using assms 1 events by (auto simp: serve_next_def)
  next
    case x: (Inr u)
    obtain y d2 where 2: "apply_timeouts d1 = Some (y, d2)"
      using assms 1 x by (auto simp: serve_next_def Option.bind_eq_Some_conv)
    show ?thesis
    proof (cases y)
      case (Inl e)
      then show ?thesis using assms 1 2 x timeouts by (auto simp: serve_next_def)
    next
      case y: (Inr u')
      show ?thesis
      proof (cases "dm_clients d2")
        case Nil
        then show ?thesis using assms 1 2 x y idle by (auto simp: serve_next_def)
      next
        case (Cons c cs)
        have "serve_next a d = serve_client a c (d2\<lparr>dm_clients := cs\<rparr>)"
          using 1 2 x y Cons by (simp add: serve_next_def serve_client_def Let_def split: sum.splits)
        then show ?thesis using assms 1 2 x y Cons client by simp
      qed
    qed
  qed
qed

text \<open>The two ways the endpoint is started.\<close>

definition endpoint_start :: "daemon \<Rightarrow> bool" where
  "endpoint_start d \<longleftrightarrow> (\<exists>n w d0. d = (with_network_worker n d0)\<lparr>dm_watch := w\<rparr> \<or> d = (daemon_simulated d0)\<lparr>dm_watch := w\<rparr>)"

lemma peer_seen_live: "has_active_share (in_sharing (observe_peer p name) d) = has_active_share d"
  by (simp add: has_active_share_def active_def observe_peer_def on_snapshot_def endpoint_observe_peer_def Let_def split: option.splits)

subsection \<open>Handlers\<close>

context endpoint_steps
begin

text \<open>Outbound shares.\<close>

lemma worker_ok_evolves:
  assumes "to_worker c d = (r, d')"
  shows "evolves d d'"
  using side_steps(5) [of d c] assms by simp

lemma method_pair: "evolves d (snd (on_sharing f d)) \<Longrightarrow> on_sharing f d = (x, d') \<Longrightarrow> evolves d d'"
  by simp

lemma daemon_select_peer_evolves:
  assumes "daemon_select_peer i p d = (r, d')"
  shows "evolves d d'"
proof -
  obtain sel d1 where d1: "on_sharing (select_peer i p) d = (sel, d1)" by fastforce
  have e1: "evolves d d1" using method_steps(8) d1 by (rule method_pair)
  show ?thesis
  proof (cases "dm_network d")
    case None
    then show ?thesis using assms d1 e1 by (auto simp: daemon_select_peer_def split: bool.splits)
  next
    case (Some n)
    show ?thesis
    proof (cases "outbound_transfer_of i p (dm_outbound d)")
      case None
      then show ?thesis using assms Some by (simp add: daemon_select_peer_def)
    next
      case (Some transfer)
      let ?medium = "case ot_routes transfer of [] \<Rightarrow> None | r # _ \<Rightarrow> Some (medium_name (route_medium r))"
      define d2 where "d2 = snd (on_sharing (record_observation i ?medium None None None) d1)"
      have e2: "evolves d d2" unfolding d2_def using e1 method_steps(14) by (rule evolves_trans)
      obtain w d3 where d3: "to_worker (SendShare i transfer) d2 = (w, d3)" by fastforce
      have e3: "evolves d d3" using e2 worker_ok_evolves [OF d3] by (rule evolves_trans)
      have e4: "evolves d (snd (on_sharing (fail i) d3))" using e3 method_steps(2) by (rule evolves_trans)
      have "d' \<in> {d1, d3, snd (on_sharing (fail i) d3)}"
        using assms \<open>dm_network d = Some n\<close> Some d1 d3 unfolding d2_def
        by (cases w) (auto simp: daemon_select_peer_def Let_def split: if_splits)
      then show ?thesis using e1 e3 e4 by auto
    qed
  qed
qed

lemma select_peer_evolves: "evolves d (snd (daemon_select_peer i p d))"
  using daemon_select_peer_evolves [of i p d "fst (daemon_select_peer i p d)"] by simp

lemma start_pinned_evolves: "evolves d (snd (start_pinned_outbound i d))"
  by (simp add: start_pinned_outbound_def select_peer_evolves split: option.splits)

lemma auto_start_evolves: "evolves d (auto_start_pinned p d)"
  by (simp add: auto_start_pinned_def select_peer_evolves split: option.splits)

lemma queue_attachment_evolves:
  assumes "queue_attachment_for att b d = (i, d')" "\<not> has_active_share d" free
  shows "evolves d d'"
proof -
  obtain d1 where d1: "on_sharing (if b then queue_outbound_unpinned att else queue_outbound att) d = (i, d1)"
    and d': "d' = snd (to_worker Discover (in_sharing start_discovery d1))"
    using assms(1) by (auto simp: queue_attachment_for_def split: prod.splits)
  have "dm_sharing d1 = snd (queue_outbound_with_preference att (\<not> b) (dm_sharing d))"
    using d1 by (auto simp: on_sharing_def queue_outbound_def queue_outbound_unpinned_def split: prod.splits if_splits)
  moreover have "dm_pending_consent d1 = dm_pending_consent d" "cells d1 = cells d"
    using d1 by (auto simp: on_sharing_def cells_def split: prod.splits if_splits)
  ultimately have "evolves d d1" using assms(2,3) queue_step by metis
  then show ?thesis unfolding d' by (rule evolves_trans [OF evolves_trans [OF _ method_steps(18)] side_steps(5)])
qed

lemma queued_response_evolves: "evolves d (snd (queued_response i p d))"
proof -
  obtain sel d1 where d1: "(case p of Some q \<Rightarrow> daemon_select_peer i q d | None \<Rightarrow> (True, snd (start_pinned_outbound i d))) = (sel, d1)"
    by fastforce
  have e1: "evolves d d1"
    using d1 daemon_select_peer_evolves start_pinned_evolves by (cases p) auto
  note e2 = evolves_trans [OF evolves_trans [OF e1 method_steps(1)] side_steps(1)]
  then show ?thesis using e1 d1 by (simp add: queued_response_def)
qed

lemma file_calls_same:
  "is_dir d = (b, d1) \<Longrightarrow> evolves d d1 \<and> dm_sharing d1 = dm_sharing d"
  "zip_directory d = (z, d1) \<Longrightarrow> evolves d d1 \<and> dm_sharing d1 = dm_sharing d"
  "open_source path d = (r, d1) \<Longrightarrow> evolves d d1 \<and> dm_sharing d1 = dm_sharing d"
  by (auto simp: is_dir_def zip_directory_def open_source_def intro!: evolves_same split: list.splits prod.splits)

lemma queue_source_evolves:
  assumes "open_source path d = (Inr source, d1)" "queue_attachment_for att b d1 = (i, d2)" "\<not> has_active_share d" free
  shows "evolves d (in_outbound f d2)"
proof -
  have "evolves d d1" "\<not> has_active_share d1"
    using file_calls_same(3) [OF assms(1)] assms(3) idle_keeps by auto
  then show ?thesis
    using assms(4) evolves_trans [OF evolves_trans [OF _ queue_attachment_evolves [OF assms(2)]] side_steps(1)] by blast
qed

lemma queue_file_evolves:
  assumes "queue_file path p d = (r, d')" "\<not> has_active_share d" free
  shows "evolves d d'"
proof -
  obtain dir d1 where d1: "is_dir d = (dir, d1)" by fastforce
  note k1 = file_calls_same(1) [OF d1]
  have idle1: "\<not> has_active_share d1" using k1 assms(2) idle_keeps by blast
  obtain z d2 where d2: "zip_directory d1 = (z, d2)" by fastforce
  note k2 = file_calls_same(2) [OF d2]
  have idle2: "\<not> has_active_share d2" using k2 idle1 idle_keeps by blast
  have from_open: "evolves d0 d'"
    if "\<not> has_active_share d0" "open_source q d0 = (s, d3)"
       "(case s of Inl e \<Rightarrow> (Inl e, d3) | Inr source \<Rightarrow>
          (case queue_attachment_for (AFile (os_name source) (os_length source)) (p \<noteq> None) d3 of
             (i, d4) \<Rightarrow> (Inr i, in_outbound (f i source) d4))) = (r, d')" for d0 q s d3 f
    using that file_calls_same(3) [OF that(2)] queue_source_evolves [of q d0, OF _ _ _ assms(3)] by (cases s) (auto split: prod.splits)
  show ?thesis
  proof (cases dir)
    case False
    then show ?thesis
      using assms(1) d1 k1 from_open [OF idle1, of path] evolves_trans
      by (cases "open_source path d1") (auto simp: queue_file_def)
  next
    case True
    show ?thesis
    proof (cases z)
      case (Inl e)
      then show ?thesis using assms(1) d1 d2 True k1 k2 evolves_trans by (auto simp: queue_file_def)
    next
      case (Inr archive)
      then have "evolves d2 d'"
        using assms(1) d1 d2 True from_open [OF idle2, of archive]
        by (cases "open_source archive d2") (auto simp: queue_file_def)
      then show ?thesis using k1 k2 evolves_trans by blast
    qed
  qed
qed

lemma submit_evolves:
  assumes "submit q p d = (r, d')" "\<And>x d1. \<not> has_active_share d \<Longrightarrow> q d = (x, d1) \<Longrightarrow> evolves d d1"
  shows "evolves d d'"
proof (cases "has_active_share d")
  case True
  then show ?thesis using assms(1) by (simp add: submit_def)
next
  case False
  obtain x d1 where q: "q d = (x, d1)" by fastforce
  have e1: "evolves d d1" using assms(2) False q by blast
  show ?thesis
    using assms(1) False q e1 evolves_trans [OF e1 queued_response_evolves]
    by (cases x) (auto simp: submit_def split: prod.splits, metis snd_conv)
qed

lemma queue_value_evolves:
  assumes "queue_value f att p d = (r, d')" "\<not> has_active_share d" free
  shows "evolves d d'"
proof -
  obtain i d1 where d1: "queue_attachment_for att (p \<noteq> None) d = (i, d1)" by fastforce
  show ?thesis
    using assms(1) d1 evolves_trans [OF queue_attachment_evolves [OF d1 assms(2,3)] side_steps(1)]
    by (auto simp: queue_value_def)
qed

text \<open>Events.\<close>

lemma record_completed_evolves:
  assumes "record_completed i n d = (r, d')"
  shows "evolves d d'"
proof -
  obtain b d1 where d1: "on_sharing (record_progress i n) d = (b, d1)" by fastforce
  have e1: "evolves d d1" using method_steps(4) d1 by (rule method_pair)
  have e2: "evolves d (snd (on_sharing (complete i) d1))" using e1 method_steps(3) by (rule evolves_trans)
  show ?thesis using assms d1 e1 e2 by (cases b) (auto simp: record_completed_def)
qed

lemma notify_if_completed_evolves: "evolves d (notify_if_completed b k d)"
  by (simp add: notify_if_completed_def side_steps)

lemma inbound_failure_evolves: "evolves d (apply_inbound_failure candidate why d)"
proof (cases candidate)
  case None
  then show ?thesis by (simp add: apply_inbound_failure_def side_steps)
next
  case (Some i)
  let ?gone = "why = ascii ''cancelled''"
  obtain b d1 where d1: "on_sharing (if ?gone then cancel i else fail i) d = (b, d1)" by fastforce
  have e1: "evolves d d1"
    using d1 method_pair [OF method_steps(1)] method_pair [OF method_steps(2)] by (cases ?gone) auto
  have e2: "evolves d (record_failure i why d1)" using e1 side_steps(8) by (rule evolves_trans)
  have e3: "evolves d (notify Error (record_failure i why d1))" using e2 side_steps(2) by (rule evolves_trans)
  have "apply_inbound_failure candidate why d \<in> {d1, record_failure i why d1, notify Error (record_failure i why d1)}"
    using d1 Some by (cases b) (simp_all add: apply_inbound_failure_def Let_def)
  then show ?thesis using e1 e2 e3 by auto
qed

lemma apply_progress_evolves: "evolves d (apply_progress medium i n d)"
proof -
  define d1 where "d1 = snd (on_sharing (record_progress i n) d)"
  define d2 where "d2 = snd (instant_now (snd (transfer_start d1)))"
  have e2: "evolves d d2" unfolding d2_def d1_def
    by (rule evolves_trans [OF evolves_trans [OF method_steps(4) side_steps(9)] side_steps(7)])
  have "\<exists>g. apply_progress medium i n d = snd (on_sharing (record_observation i (Some medium) g None None) d2)"
    unfolding apply_progress_def Let_def d1_def d2_def by (auto simp: case_prod_beta)
  then show ?thesis using evolves_trans [OF e2 method_steps(14)] by metis
qed

lemma failed_event_evolves:
  assumes "apply_network_event (InboundFailed why share_id consent) d = Some d'"
  shows "evolves d d'"
proof -
  obtain x d1 where d1: "(case share_id of
       Some i \<Rightarrow> Some (Some i, d)
     | None \<Rightarrow> (case consent of None \<Rightarrow> Some (None, d) | Some a \<Rightarrow> consent_call a consent_share_id d)) = Some (x, d1)"
    and d': "d' = apply_inbound_failure x why d1"
    using assms unfolding apply_network_event.simps Option.bind_eq_Some_conv by (metis (no_types, lifting) case_prod_beta option.sel prod.collapse)
  have "evolves d d1"
    using d1 consent_call_quiet [OF _ kept_methods(1)] by (cases share_id; cases consent) auto
  then show ?thesis unfolding d' using inbound_failure_evolves by (rule evolves_trans)
qed

lemma offered_event_evolves:
  assumes "apply_network_event (InboundOffered a kind name declared code) d = Some d'" "free \<or> has_active_share d"
  shows "evolves d d'"
proof -
  let ?d = "in_sharing (observe_peer INBOUND_PEER_ID INBOUND_PEER_NAME) d"
  obtain x d1 where d1: "admit_inbound (offered_attachment kind name declared) INBOUND_PEER_ID (Some declared) a ?d = Some (x, d1)"
    and d': "d' = (case x of None \<Rightarrow> d1 | Some i \<Rightarrow> snd (on_sharing (record_verification_code i code) d1))"
    using assms(1) unfolding apply_network_event.simps Option.bind_eq_Some_conv by auto
  have e1: "evolves d d1" using method_steps(15) admit_inbound_evolves [OF d1] assms(2) peer_seen_live evolves_trans by blast
  show ?thesis using d' e1 evolves_trans [OF e1 method_steps(13)] by (cases x) auto
qed

lemma completed_event_evolves:
  assumes "apply_network_event (InboundCompleted bytes kind i v) d = Some d'"
  shows "evolves d d'"
proof -
  define d1 where "d1 = (case v of None \<Rightarrow> d
     | Some t \<Rightarrow> snd (on_sharing (replace_attachment i (case kind of OUrl \<Rightarrow> AUrl t | _ \<Rightarrow> AText t)) d))"
  have e1: "evolves d d1" by (cases v) (simp_all add: d1_def method_steps)
  obtain b d2 where d2: "record_completed i bytes d1 = (b, d2)" by fastforce
  have "d' = notify_if_completed b Received d2" using assms d2 by (simp add: d1_def Let_def)
  then show ?thesis
    using evolves_trans [OF evolves_trans [OF e1 record_completed_evolves [OF d2]] notify_if_completed_evolves] by simp
qed

lemma apply_network_event_evolves:
  assumes "apply_network_event e d = Some d'" "free \<or> has_active_share d"
  shows "evolves d d'"
proof (cases e)
  case (OutboundAccepted i)
  let ?d = "snd (instant_now (snd (on_sharing (accept_by_peer i) d)))"
  have "\<exists>n. d' = ?d\<lparr>dm_transfer_started_at := n\<rparr>" using assms OutboundAccepted by (auto simp: Let_def case_prod_beta)
  then obtain n where d': "d' = ?d\<lparr>dm_transfer_started_at := n\<rparr>" ..
  have "evolves ?d d'" unfolding d' by (rule evolves_same) simp_all
  then show ?thesis using evolves_trans [OF method_steps(9) side_steps(7)] evolves_trans by blast
next
  case (OutboundCompleted bytes i)
  obtain b d1 where d1: "record_completed i bytes d = (b, d1)" by fastforce
  then have "d' = notify_if_completed b Sent (in_outbound (outbound_finish i) d1)"
    using assms OutboundCompleted by simp
  then show ?thesis
    using evolves_trans [OF evolves_trans [OF record_completed_evolves [OF d1] side_steps(1)] notify_if_completed_evolves] by simp
next
  case (OutboundFailed why i)
  then show ?thesis
    using assms evolves_trans [OF evolves_trans [OF evolves_trans [OF method_steps(2) side_steps(8)] side_steps(1)] side_steps(2)]
    by auto
next
  case (PeerSeen name p route)
  then show ?thesis
    using assms evolves_trans [OF evolves_trans [OF evolves_trans [OF method_steps(15) side_steps(10)] side_steps(1)] auto_start_evolves]
    by auto
next
  case (OutboundCancelled i)
  then show ?thesis using assms evolves_trans [OF method_steps(1) side_steps(1)] by auto
next
  case (OutboundRejected i)
  then show ?thesis using assms evolves_trans [OF method_steps(10) side_steps(1)] by auto
next
  case (PeerLost p)
  then show ?thesis using assms evolves_trans [OF method_steps(7) side_steps(1)] by auto
qed (use assms failed_event_evolves offered_event_evolves completed_event_evolves sync_visibility_evolves
      preferences_configured_evolves apply_progress_evolves method_steps in auto)

lemma apply_events_evolves: "apply_events es d = Some (r, d') \<Longrightarrow> free \<Longrightarrow> evolves d d'"
proof (induction es d rule: apply_events.induct)
  case (3 e es d)
  let ?d = "d\<lparr>dm_network := map_option (\<lambda>n. snd (next_event n)) (dm_network d)\<rparr>"
  obtain d1 where d1: "apply_network_event e ?d = Some d1" "apply_events es d1 = Some (r, d')"
    using "3.prems" by (auto simp: Option.bind_eq_Some_conv)
  have "evolves d ?d" by (rule evolves_same) simp_all
  then have "evolves d d1" using apply_network_event_evolves [OF d1(1)] "3.prems"(2) evolves_trans by blast
  then show ?case using "3.IH" [OF d1 "3.prems"(2)] by (rule evolves_trans)
qed (auto intro: evolves_same split: option.splits)

text \<open>Requests.\<close>

lemma vis_quiet: "section_keeps sec \<Longrightarrow> vis_call sec d = Some p \<Longrightarrow> evolves d (snd p)"
  using vis_call_quiet by (metis prod.collapse)

lemma finish_evolves: "Option.bind (sync_visibility d1) (\<lambda>d. Some (x, d)) = Some (y, d') \<Longrightarrow> evolves d1 d'"
  using sync_visibility_evolves by (auto simp: Option.bind_eq_Some_conv)

lemma endpoint_response_evolves:
  assumes "endpoint_response rq d = Some (r, d')"
  shows "evolves d d'"
proof -
  have worker: "evolves d0 d'"
    if "(case to_worker c d0 of (Inl e, d) \<Rightarrow> Some (Inl e, d)
         | (Inr _, d) \<Rightarrow> Option.bind (sync_visibility d) (\<lambda>d. Some (Inr (Some applied), d))) = Some (r, d')" for c d0
  proof -
    obtain w d1 where d1: "to_worker c d0 = (w, d1)" by fastforce
    show ?thesis
      using that d1 worker_ok_evolves [OF d1] finish_evolves [of d1 "Inr (Some applied)" r d'] evolves_trans
      by (cases w) auto
  qed
  show ?thesis
  proof (cases rq)
    case RqCloseVisibility
    then obtain x d1 where "vis_call close d = Some (x, d1)"
      and s: "Option.bind (sync_visibility d1) (\<lambda>d. Some (Inr (Some applied), d)) = Some (r, d')"
      using assms by (auto simp: endpoint_response_def Let_def Option.bind_eq_Some_conv)
    then show ?thesis using vis_call_quiet [OF sections_keep(6)] finish_evolves [OF s] evolves_trans by blast
  next
    case RqOpenVisibility
    then obtain x d1 d2 where d: "vis_call (\<lambda>now t. request_open now) d = Some (x, d1)" "activate x d1 = Some d2"
      and s: "Option.bind (sync_visibility d2) (\<lambda>d. Some (Inr (Some applied), d)) = Some (r, d')"
      using assms by (auto simp: endpoint_response_def Let_def Option.bind_eq_Some_conv)
    have "evolves d d2"
      using vis_call_quiet [OF sections_keep(3) d(1)] activate_evolves [OF d(2)] by (rule evolves_trans)
    then show ?thesis using finish_evolves [OF s] by (rule evolves_trans)
  next
    case RqDiscover
    then show ?thesis
      using assms worker [of Discover "in_sharing start_discovery d"] evolves_trans [OF method_steps(18)]
      by (simp add: endpoint_response_def Let_def)
  next
    case RqStopDiscovery
    then show ?thesis
      using assms worker [of StopDiscovery "in_sharing stop_discovery d"] evolves_trans [OF method_steps(19)]
      by (simp add: endpoint_response_def Let_def)
  qed (use assms in \<open>simp_all add: endpoint_response_def\<close>)
qed

lemma cancel_consent_evolves:
  assumes "cancel_consent i d = Some d'"
  shows "evolves d d'"
proof (cases "dm_pending_consent d")
  case None
  then show ?thesis using assms by (simp add: cancel_consent_def)
next
  case (Some a)
  obtain bound d1 where d1: "consent_call a consent_share_id d = Some (bound, d1)"
    and rest: "(if bound = Some i then map_option snd (consent_call a (\<lambda>t c. ((), consent_cancel t c)) d1) else Some d1) = Some d'"
    using assms Some by (auto simp: cancel_consent_def Option.bind_eq_Some_conv)
  have e1: "evolves d d1" by (rule consent_call_quiet [OF d1]) (rule kept_methods)
  show ?thesis
  proof (cases "bound = Some i")
    case False
    then show ?thesis using rest e1 by simp
  next
    case True
    then obtain x where d2: "consent_call a (\<lambda>t c. ((), consent_cancel t c)) d1 = Some (x, d')" using rest by auto
    have "evolves d1 d'" by (rule consent_call_quiet [OF d2]) (simp add: kept_methods)
    then show ?thesis using e1 evolves_trans by blast
  qed
qed

lemma accept_request_evolves:
  assumes "share_response (RqAccept i) d = Some (r, d')"
  shows "evolves d d'"
proof -
  obtain ok d1 where d1: "accept_pending i d = Some (ok, d1)"
    and d': "d' = (if ok then (case instant_now d1 of (now, d) \<Rightarrow> d\<lparr>dm_transfer_started_at := Some now\<rparr>) else d1)"
    using assms by (auto simp: share_response_def Let_def Option.bind_eq_Some_conv)
  have e1: "evolves d d1" using d1 by (rule accept_pending_evolves)
  have "evolves d1 d'"
    unfolding d' by (rule evolves_same) (simp_all add: instant_now_def Let_def tick_same)
  then show ?thesis using e1 evolves_trans by blast
qed

lemma cancel_request_evolves:
  assumes "share_response (RqCancel i) d = Some (r, d')"
  shows "evolves d d'"
proof -
  obtain b d1 where d1: "on_sharing (cancel i) d = (b, d1)" by fastforce
  have e1: "evolves d d1" using method_steps(1) d1 by (rule method_pair)
  show ?thesis
  proof (cases b)
    case False
    then show ?thesis using assms d1 e1 by (simp add: share_response_def)
  next
    case True
    obtain d2 where d2: "cancel_consent i d1 = Some d2" and d': "d' = in_outbound (outbound_finish i) (worker_cancel i d2)"
      using assms d1 True by (auto simp: share_response_def Option.bind_eq_Some_conv)
    show ?thesis
      unfolding d'
      by (rule evolves_trans [OF evolves_trans [OF evolves_trans [OF e1 cancel_consent_evolves [OF d2]] side_steps(3)] side_steps(1)])
  qed
qed

lemma share_response_evolves:
  assumes "share_response rq d = Some (r, d')" "free \<or> has_active_share d"
  shows "evolves d d'"
proof (cases rq)
  case (RqAccept i)
  then show ?thesis using assms accept_request_evolves by blast
next
  case (RqCancel i)
  then show ?thesis using assms cancel_request_evolves by blast
next
  case (RqDismiss i)
  obtain b d1 where d1: "on_sharing (dismiss i) d = (b, d1)" by fastforce
  have e1: "evolves d d1" using assms(2) d1 by (rule dismiss_evolves)
  show ?thesis using assms RqDismiss d1 e1 evolves_trans [OF e1 side_steps(1)] by (cases b) (auto simp: share_response_def)
next
  case (RqPinPeer p)
  then show ?thesis using assms patch_preferences_evolves by (auto simp: share_response_def split: if_splits)
next
  case RqUnpinPeer
  then show ?thesis using assms patch_preferences_evolves by (auto simp: share_response_def)
next
  case (RqReject i)
  then show ?thesis using assms reject_pending_evolves by (auto simp: share_response_def Option.bind_eq_Some_conv)
next
  case (RqSelectPeer p i)
  then show ?thesis
    using assms daemon_select_peer_evolves by (auto simp: share_response_def split: prod.splits)
qed (use assms in \<open>simp_all add: share_response_def\<close>)

lemma simulation_evolves:
  assumes "simulation_applied a rq d = Some (r, d')" "free \<or> has_active_share d"
  shows "evolves d d'"
proof (cases rq)
  case (RqSimulateFail i)
  obtain b d1 where d1: "on_sharing (fail i) d = (b, d1)" by fastforce
  have e1: "evolves d d1" using method_steps(2) d1 by (rule method_pair)
  show ?thesis
    using assms RqSimulateFail d1 e1 evolves_trans [OF e1 side_steps(8)] by (cases b) (auto simp: simulation_applied_def)
next
  case (RqSimulatePeerSeen name p)
  then show ?thesis using assms evolves_trans [OF method_steps(15) side_steps(10)] by (auto simp: simulation_applied_def)
next
  case RqSimulateDiscoveryTimeout
  then show ?thesis using assms method_pair [OF method_steps(5)] by (simp add: simulation_applied_def)
next
  case (RqSimulatePeerAccept i)
  then show ?thesis using assms method_pair [OF method_steps(9)] by (simp add: simulation_applied_def)
next
  case (RqSimulatePeerLost p)
  then show ?thesis using assms method_pair [OF method_steps(7)] by (simp add: simulation_applied_def)
next
  case (RqSimulatePeerReject i)
  then show ?thesis using assms method_pair [OF method_steps(10)] by (simp add: simulation_applied_def)
next
  case (RqSimulateComplete i)
  then show ?thesis using assms method_pair [OF method_steps(3)] by (simp add: simulation_applied_def)
next
  case (RqSimulateProgress i n)
  then show ?thesis using assms method_pair [OF method_steps(4)] by (simp add: simulation_applied_def)
qed (use assms simulate_inbound_evolves in \<open>simp_all add: simulation_applied_def\<close>)

lemma simulation_response_evolves: "simulation_response a rq d = Some (r, d') \<Longrightarrow> free \<or> has_active_share d \<Longrightarrow> evolves d d'"
  using simulation_evolves by (auto simp: simulation_response_def Option.bind_eq_Some_conv split: if_splits)

lemma submit_value_evolves: 
  "submit (queue_value f att p) p d = (r, d') \<Longrightarrow> free \<or> has_active_share d \<Longrightarrow> evolves d d'"
  using submit_evolves queue_value_evolves by meson

lemma submit_file_evolves: 
  "submit (queue_file path p) p d = (r, d') \<Longrightarrow> free \<or> has_active_share d \<Longrightarrow> evolves d d'"
  using submit_evolves queue_file_evolves by meson

lemma plain_response_evolves:
  assumes "plain_response a rq d = Some (r, d')" "free \<or> has_active_share d"
  shows "evolves d d'"
proof -
  have sim: "evolves d d'" if "map_option (\<lambda>(r, d). (Inr r, d)) (simulation_response a rq d) = Some (r, d')"
    using that assms(2) simulation_response_evolves by (auto simp: map_option_case split: option.splits)
  show ?thesis
  proof (cases rq)
    case (RqPatchPreferences key v)
    then show ?thesis using assms patch_preferences_evolves by (auto simp: plain_response_def)
  next
    case (RqSubmitFile path p)
    then show ?thesis using assms submit_file_evolves by (simp add: plain_response_def)
  next
    case (RqSubmitText p t)
    then show ?thesis using assms submit_value_evolves by (simp add: plain_response_def)
  next
    case (RqSubmitUrl p u)
    then show ?thesis using assms submit_value_evolves by (simp add: plain_response_def)
  qed (use assms sim in \<open>simp_all add: plain_response_def\<close>)
qed

lemma response_for_evolves:
  assumes "response_for a rq d = Some (r, d')"
    and live: "\<And>d1. apply_timeouts d = Some (Inr (), d1) \<Longrightarrow> free \<or> has_active_share d1"
  shows "evolves d d'"
  using assms(1)
proof (cases rule: response_stages)
  case (share d1 d2 x)
  then have "share_response rq d1 = Some (Some x, d')" using response_passed_on(1) by blast
  then show ?thesis using share(1) live apply_timeouts_evolves share_response_evolves evolves_trans by blast
next
  case (plain d1 d2 d3)
  then have "plain_response a rq d1 = Some (r, d')" using response_passed_on by blast
  then show ?thesis using plain(1) live apply_timeouts_evolves plain_response_evolves evolves_trans by blast
qed (use apply_timeouts_evolves endpoint_response_evolves evolves_trans in blast)+

lemma serve_client_evolves:
  assumes "serve_client a client d = Some (r, d')" free
  shows "evolves d d'"
proof (cases "\<exists>bytes request. client = Inr bytes \<and> fst (read_record (dm_decode d) bytes) = Inr request \<and>
    rq_version request = PROTOCOL_VERSION")
  case False
  then have "d' = d" using assms by (auto simp: serve_client_def split: sum.splits if_splits)
  then show ?thesis by simp
next
  case True
  then obtain bytes request where c: "client = Inr bytes" "fst (read_record (dm_decode d) bytes) = Inr request"
    "rq_version request = PROTOCOL_VERSION" by blast
  obtain z d3 where z: "response_for a (rq_request request) d = Some (z, d3)"
    using assms c by (auto simp: serve_client_def Option.bind_eq_Some_conv)
  have "evolves d3 d'"
    using assms c z by (cases z) (auto simp: serve_client_def Let_def intro: evolves_same split: if_splits)
  then show ?thesis using response_for_evolves [OF z] assms(2) evolves_trans by blast
qed

lemma clients_evolves: "evolves d (d\<lparr>dm_clients := cs\<rparr>)"
  by (rule evolves_same) simp_all

lemma network_events_evolves: "apply_network_events d = Some (r, d') \<Longrightarrow> free \<Longrightarrow> evolves d d'"
  unfolding apply_network_events_def by (rule apply_events_evolves)

lemma serve_next_evolves:
  assumes "serve_next a d = Some (r, d')" free
  shows "evolves d d'"
  using assms(1)
proof (cases rule: serve_next_stages)
  case (client d1 d2 c cs)
  show ?thesis
    using evolves_trans [OF evolves_trans [OF evolves_trans [OF network_events_evolves [OF client(1) assms(2)]
      apply_timeouts_evolves [OF client(2)]] clients_evolves] serve_client_evolves [OF client(4) assms(2)]] .
qed (use assms(2) evolves_trans network_events_evolves apply_timeouts_evolves in blast)+

lemma serve_until_evolves: "serve_until rounds d = Some (r, d') \<Longrightarrow> free \<Longrightarrow> evolves d d'"
proof (induction rounds d arbitrary: r rule: serve_until.induct)
  case (2 stop a rounds d)
  show ?case
  proof (cases stop)
    case True
    then show ?thesis using "2.prems" by simp
  next
    case False
    obtain x d1 where 1: "apply_timeouts d = Some (x, d1)"
      using "2.prems" False by (auto simp: Option.bind_eq_Some_conv)
    have e1: "evolves d d1" using 1 by (rule apply_timeouts_evolves)
    show ?thesis
    proof (cases x)
      case (Inl e)
      then show ?thesis using "2.prems" False 1 e1 by simp
    next
      case x: (Inr u)
      obtain y d2 where 2: "reload_preferences d1 = Some (y, d2)"
        using "2.prems" False 1 x by (auto simp: Option.bind_eq_Some_conv)
      have e2: "evolves d d2" using e1 reload_preferences_evolves [OF 2] by (rule evolves_trans)
      show ?thesis
      proof (cases y)
        case (Inl e)
        then show ?thesis using "2.prems" False 1 2 x e2 by simp
      next
        case y: (Inr u')
        obtain z d3 where 3: "serve_next a d2 = Some (z, d3)"
          using "2.prems" False 1 2 x y by (auto simp: Option.bind_eq_Some_conv)
        have e3: "evolves d d3" using e2 serve_next_evolves [OF 3 "2.prems"(2)] by (rule evolves_trans)
        have "d' = d3 \<or> serve_until rounds d3 = Some (r, d')"
          using "2.prems" False 1 2 3 x y by (cases z) (auto split: if_splits)
        moreover have "evolves d3 d'" if "serve_until rounds d3 = Some (r, d')"
          using that "2.IH" False 1 2 3 x y "2.prems" by (cases z) (auto split: if_splits)
        ultimately show ?thesis using e3 evolves_trans by blast
      qed
    qed
  qed
qed simp

lemma install_config_evolves:
  assumes "install_config config d = Some d'"
  shows "evolves d d'"
proof -
  define d1 where "d1 = preferences_configured config None (in_preferences (\<lambda>p. p\<lparr>ps_saved := Some (values_of config)\<rparr>) d)"
  have e1: "evolves d d1" unfolding d1_def using side_steps(4) preferences_configured_evolves by (rule evolves_trans)
  obtain x d2 d3 where s: "vis_call (\<lambda>now t. set_policy now t (cf_discoverable (dm_config d1))) d1 = Some (x, d2)"
    "activate x d2 = Some d3" "sync_visibility d3 = Some d'"
    using assms unfolding install_config_def d1_def Let_def by (auto simp: Option.bind_eq_Some_conv)
  show ?thesis
    using evolves_trans [OF evolves_trans [OF evolves_trans [OF e1 vis_call_quiet [OF sections_keep(7) s(1)]]
      activate_evolves [OF s(2)]] sync_visibility_evolves [OF s(3)]] .
qed

lemma run_evolves:
  "run_daemon n w config as d = Some (r, d') \<Longrightarrow> free \<Longrightarrow> \<exists>d0. endpoint_start d0 \<and> evolves d0 d'"
  "run_simulated w config as d = Some (r, d') \<Longrightarrow> free \<Longrightarrow> \<exists>d0. endpoint_start d0 \<and> evolves d0 d'"
proof -
  assume free "run_daemon n w config as d = Some (r, d')"
  then obtain d1 where s: "install_config config ((with_network_worker n d)\<lparr>dm_watch := Some w\<rparr>) = Some d1"
    "serve_until (map (Pair False) as) d1 = Some (r, d')"
    unfolding run_daemon_def Option.bind_eq_Some_conv by blast
  have "endpoint_start ((with_network_worker n d)\<lparr>dm_watch := Some w\<rparr>)"
    unfolding endpoint_start_def by (intro exI disjI1) (rule refl)
  then show "\<exists>d0. endpoint_start d0 \<and> evolves d0 d'"
    using evolves_trans [OF install_config_evolves [OF s(1)] serve_until_evolves [OF s(2) \<open>free\<close>]] by blast
next
  assume free "run_simulated w config as d = Some (r, d')"
  then obtain d1 where s: "install_config config ((daemon_simulated d)\<lparr>dm_watch := Some w\<rparr>) = Some d1"
    "serve_until (map (Pair False) as) d1 = Some (r, d')"
    unfolding run_simulated_def Option.bind_eq_Some_conv by blast
  have "endpoint_start ((daemon_simulated d)\<lparr>dm_watch := Some w\<rparr>)"
    unfolding endpoint_start_def by (intro exI disjI2) (rule refl)
  then show "\<exists>d0. endpoint_start d0 \<and> evolves d0 d'"
    using evolves_trans [OF install_config_evolves [OF s(1)] serve_until_evolves [OF s(2) \<open>free\<close>]] by blast
qed

end

subsection \<open>The steps themselves\<close>

abbreviation evolves :: "daemon \<Rightarrow> daemon \<Rightarrow> bool" where
  "evolves \<equiv> micro\<^sup>*\<^sup>*"

lemma calm_free: "calm op \<Longrightarrow> free_op op"
  by (cases op) simp_all

lemma dismissal:
  "dm_sharing d' = coord_step (OpDismiss j) (dm_sharing d) \<Longrightarrow> dm_pending_consent d' = dm_pending_consent d \<Longrightarrow>
     cells d' = cells d \<Longrightarrow> micro d d'"
  by (rule share [where op = "OpDismiss j"]) simp_all

interpretation ev: endpoint_steps "micro\<^sup>*\<^sup>*" True
proof unfold_locales
  show "micro\<^sup>*\<^sup>* d1 d3" if "micro\<^sup>*\<^sup>* d1 d2" "micro\<^sup>*\<^sup>* d2 d3" for d1 d2 d3 using that by (rule rtranclp_trans)
qed (rule rtranclp.rtrancl_refl, rule r_into_rtranclp, rule quiet, assumption+,
    rule r_into_rtranclp, rule share [OF calm_free], assumption+,
    rule r_into_rtranclp, rule dismissal, assumption+,
    rule r_into_rtranclp, rule queue, assumption+,
    rule r_into_rtranclp, rule offer, assumption+,
    rule r_into_rtranclp, rule accept, assumption+,
    rule r_into_rtranclp, rule clear, assumption+)

subsection \<open>Consent before transfer\<close>

definition needs_consent :: "share_snapshot \<Rightarrow> bool" where
  "needs_consent s \<longleftrightarrow> sh_direction s = Inbound \<and> sh_phase s \<in> {AwaitingLocalConsent, Transferring}"

definition consented :: "daemon \<Rightarrow> share_snapshot \<Rightarrow> bool" where
  "consented d s \<longleftrightarrow> (\<exists>a c. dm_pending_consent d = Some a \<and> cells d a = Some c \<and> pc_share_id c = Some (sh_id s) \<and>
     (sh_phase s = Transferring \<longrightarrow> pc_outcome c = CAccepted (sh_id s)))"

definition endpoint_inv :: "daemon \<Rightarrow> bool" where
  "endpoint_inv d \<longleftrightarrow> (\<forall>s. active d = Some s \<longrightarrow> needs_consent s \<longrightarrow> consented d s)"

lemma free_op_inbound:
  assumes "free_op op" "active_share (snapshot (coord_step op c)) = Some s" "needs_consent s"
  shows "\<exists>s0. active_share (snapshot c) = Some s0 \<and> sh_id s0 = sh_id s \<and> sh_direction s0 = Inbound \<and> sh_phase s0 = sh_phase s"
  using assms
  by (cases op) (auto simp: needs_consent_def coord_op_defs share_defs Let_def split: coord_splits)

lemma offered_share:
  assumes "offer_inbound_sized att pid tot c = (Some i, c')" "active_share (snapshot c') = Some s"
  shows "sh_id s = i \<and> sh_direction s = Inbound \<and> sh_phase s = AwaitingLocalConsent"
proof -
  obtain peer where peer: "endpoint_peer pid (snapshot c) = Some peer"
    using assms(1) by (auto simp: offer_inbound_sized_def split: option.splits)
  have "c' = snd (offer_inbound_sized att pid tot c)" "Some i = fst (offer_inbound_sized att pid tot c)"
    using assms(1) by simp_all
  then show ?thesis
    using peer assms(2) by (simp add: offer_inbound_sized_def Let_def next_id_def on_snapshot_def
        endpoint_set_active_def share_defs) auto
qed

lemma kept_accepted:
  assumes "kept c c'" "pc_outcome c = CAccepted i"
  shows "pc_outcome c' = CAccepted i"
proof -
  have "\<not> undecided (CAccepted i)" by (simp add: undecided_def)
  then show ?thesis using assms unfolding kept_def by metis
qed

lemma consented_kept:
  assumes "consented d s" "dm_pending_consent d' = dm_pending_consent d" "cells_kept (cells d) (cells d')"
    "sh_id s' = sh_id s" "sh_phase s' = sh_phase s"
  shows "consented d' s'"
proof -
  obtain a c where a: "dm_pending_consent d = Some a" "cells d a = Some c" "pc_share_id c = Some (sh_id s)"
    "sh_phase s = Transferring \<longrightarrow> pc_outcome c = CAccepted (sh_id s)"
    using assms(1) unfolding consented_def by blast
  obtain c' where c': "cells d' a = Some c'" "kept c c'" using assms(3) a(2) unfolding cells_kept_def by blast
  have "pc_share_id c' = Some (sh_id s')" using c'(2) a(3) assms(4) by (simp add: kept_def)
  moreover have "pc_outcome c' = CAccepted (sh_id s')" if "sh_phase s' = Transferring"
    using kept_accepted [OF c'(2)] a(4) assms(4,5) that by simp
  ultimately show ?thesis
    unfolding consented_def by (intro exI [of _ a] exI [of _ c']) (simp add: a(1) c'(1) assms(2))
qed

lemma endpoint_inv_step:
  assumes "endpoint_inv d" "micro d d'"
  shows "endpoint_inv d'"
  unfolding endpoint_inv_def
proof (intro allI impI)
  fix s assume s: "active d' = Some s" "needs_consent s"
  show "consented d' s"
    using assms(2)
  proof cases
    case quiet
    then have "consented d s" using assms(1) s unfolding endpoint_inv_def by (simp add: active_def)
    then show ?thesis by (rule consented_kept) (use quiet in simp_all)
  next
    case (share op)
    then obtain s0 where s0: "active d = Some s0" "sh_id s0 = sh_id s" "sh_direction s0 = Inbound" "sh_phase s0 = sh_phase s"
      using free_op_inbound [of op "dm_sharing d" s] s unfolding active_def by auto
    then have "consented d s0" using assms(1) s unfolding endpoint_inv_def needs_consent_def by auto
    then show ?thesis by (rule consented_kept) (use share s0 in simp_all)
  next
    case (queue att b)
    then have "sh_direction s = Outbound"
      using s(1) unfolding active_def
      by (auto simp: queue_outbound_with_preference_def Let_def next_id_def on_snapshot_def endpoint_set_active_def
          share_defs split: option.splits prod.splits)
    then show ?thesis using s(2) by (simp add: needs_consent_def)
  next
    case (offer att pid tot i a c)
    then have "sh_id s = i" "sh_phase s = AwaitingLocalConsent"
      using offered_share [OF offer(2)] s(1) by (simp_all add: active_def)
    then show ?thesis using offer unfolding consented_def by simp
  next
    case (accept a c i)
    show ?thesis
    proof (cases "active d = Some s")
      case True
      then have "consented d s" using assms(1) s unfolding endpoint_inv_def by blast
      then have "sh_id s = i" using accept unfolding consented_def by auto
      then show ?thesis using accept unfolding consented_def by auto
    next
      case False
      then have "sh_id s = i"
        using s(1) accept unfolding active_def
        by (auto simp: accept_inbound_def transition_def put_active_def share_set_phase_def Let_def split: option.splits if_splits)
      then show ?thesis using accept unfolding consented_def by auto
    qed
  next
    case (clear a c i)
    then have "active d = Some s" using s(1) by (simp add: active_def)
    then have "consented d s" using assms(1) s unfolding endpoint_inv_def by blast
    then have False using clear s unfolding consented_def needs_consent_def by (auto simp: active_def)
    then show ?thesis ..
  qed
qed

lemma start_idle:
  assumes "endpoint_start d"
  shows "active d = None" "dm_pending_consent d = None" "cells d = (\<lambda>_. None)"
    "\<exists>ops. dm_sharing d = run coord_step ops coordinator_new"
proof -
  have "\<exists>ops. dm_sharing d = run coord_step ops coordinator_new \<and> active d = None"
    using assms unfolding endpoint_start_def
  proof (elim exE disjE)
    fix n w d0 assume "d = (with_network_worker n d0)\<lparr>dm_watch := w\<rparr>"
    then show ?thesis
      by (intro exI [of _ "[]"]) (simp add: with_network_worker_def daemon_new_def active_def coordinator_new_def endpoint_idle_def)
  next
    fix w d0 assume "d = (daemon_simulated d0)\<lparr>dm_watch := w\<rparr>"
    then show ?thesis
      by (intro exI [of _ "[OpObservePeer (ascii ''pixel-8'') (ascii (''Ollie'' @ [CHR 0x27] @ ''s Pixel'')),
            OpObservePeer (ascii ''galaxy-tab'') (ascii ''Galaxy Tab'')]"])
        (simp add: daemon_simulated_def daemon_new_def active_def coordinator_new_def endpoint_idle_def in_sharing_def
          observe_peer_def on_snapshot_def endpoint_observe_peer_def Let_def split: option.splits)
  qed
  then show "active d = None" "\<exists>ops. dm_sharing d = run coord_step ops coordinator_new" by blast+
  show "dm_pending_consent d = None" "cells d = (\<lambda>_. None)"
    using assms unfolding endpoint_start_def
    by (auto simp: with_network_worker_def daemon_simulated_def daemon_new_def in_sharing_def cells_def)
qed

interpretation endpoint: transition_invariant micro endpoint_start endpoint_inv
  by unfold_locales (simp add: endpoint_inv_def start_idle, rule endpoint_inv_step)

end
