(* ===== verification/Daemon_Example.thy ===== *)
theory Daemon_Example
  imports Daemon_Safety
begin

text \<open>
  A run of the simulated endpoint with two clients: the first makes a simulated peer offer a text, the
  second accepts it. No other thread interferes and no time passes.
\<close>

definition ex_config :: config where
  "ex_config = \<lparr>cf_consent_timeout_secs = 300, cf_device_name = None, cf_discoverable = True, cf_discovery_timeout_secs = 15,
     cf_pinned_peer_id = None, cf_read_clipboard_on_select = False, cf_receive_directory = [], cf_transfer_timeout_secs = 120\<rparr>"

definition ex_request :: "bytes \<Rightarrow> request_envelope option" where
  "ex_request b =
     (if b = [1] then Some (request_of (RqSimulateIncomingText [65]))
      else if b = [2] then Some (request_of (RqAccept 1))
      else if b = [3] then Some \<lparr>rq_request = RqStatus, rq_version = 2\<rparr>
      else if b = [4, 10] then Some (submit_text_for [65] None)
      else None)"

definition ex_daemon :: "client list \<Rightarrow> daemon" where
  "ex_daemon clients = \<lparr>dm_config = ex_config, dm_watch = None, dm_discovery_started_at = None, dm_network = None,
     dm_outbound = outbound_default, dm_preferences = preference_status_default, dm_queued = [], dm_sharing = coordinator_new,
     dm_simulated = False, dm_timeouts = timeouts_default, dm_transfer_started_at = None,
     dm_visibility = (vis_default, \<lambda>_. None), dm_pending_consent = None, dm_boot = 0, dm_instant = 0, dm_ticks = [],
     dm_others = [], dm_files = \<lparr>cs_body = None, cs_temporaries = [], cs_edits = [], cs_faults = [], cs_serial = 0, cs_pid = 0\<rparr>,
     dm_env = \<lparr>ev_home = None, ev_download_dir = None, ev_config_home = None\<rparr>, dm_parse = \<lambda>_. None, dm_print = \<lambda>_. [],
     dm_show = \<lambda>_. [], dm_decode = ex_request, dm_fs = (ex_view, []), dm_is_dir = [], dm_archived = [], dm_mkdir = [],
     dm_clients = clients, dm_replies = [], dm_notices = []\<rparr>"

subsection \<open>States of the run\<close>

definition undisturbed :: "client list \<Rightarrow> daemon \<Rightarrow> bool" where
  "undisturbed clients d \<longleftrightarrow> dm_ticks d = [] \<and> dm_others d = [] \<and> dm_boot d = 0 \<and> dm_instant d = 0 \<and> dm_network d = None \<and>
     dm_watch d = Some [] \<and> dm_decode d = ex_request \<and> dm_clients d = clients \<and> dm_simulated d \<and> dm_config d = ex_config"

definition vis_opened :: vis_state where
  "vis_opened = vis_default\<lparr>vs_generation := 1, vs_policy := True, vs_requested := True, vs_phase := VOpen,
     vs_resources := Some resources_default\<rparr>"

definition at_rest :: "client list \<Rightarrow> daemon \<Rightarrow> bool" where
  "at_rest clients d \<longleftrightarrow> undisturbed clients d \<and> active d = None \<and> discovery_of d = DiscoveryIdle \<and>
     dm_visibility d = (vis_opened, \<lambda>_. None) \<and> dm_pending_consent d = None \<and> next_share_id (dm_sharing d) = 1 \<and>
     endpoint_peer (ascii ''pixel-8'') (snapshot (dm_sharing d)) \<noteq> None"

definition ex_consent :: "consent_outcome \<Rightarrow> pending_consent" where
  "ex_consent out = \<lparr>pc_generation = 1, pc_deadline = 300 * NANOS, pc_outcome = out, pc_share_id = Some 1\<rparr>"

definition on_offer :: "client list \<Rightarrow> daemon \<Rightarrow> bool" where
  "on_offer clients d \<longleftrightarrow> undisturbed clients d \<and> discovery_of d = DiscoveryIdle \<and>
     (\<exists>s. active d = Some s \<and> sh_id s = 1 \<and> sh_direction s = Inbound \<and> sh_phase s = AwaitingLocalConsent) \<and>
     dm_visibility d = (vis_opened\<lparr>vs_pending := Some 7\<rparr>, [7 \<mapsto> ex_consent CPending]) \<and> dm_pending_consent d = Some 7"

lemma undisturbed_fields [simp]:
  "undisturbed cs (d\<lparr>dm_sharing := c\<rparr>) = undisturbed cs d" "undisturbed cs (d\<lparr>dm_visibility := v\<rparr>) = undisturbed cs d"
  "undisturbed cs (d\<lparr>dm_pending_consent := p\<rparr>) = undisturbed cs d" "undisturbed cs (d\<lparr>dm_timeouts := t\<rparr>) = undisturbed cs d"
  "undisturbed cs (d\<lparr>dm_discovery_started_at := x\<rparr>) = undisturbed cs d" "undisturbed cs (d\<lparr>dm_preferences := f\<rparr>) = undisturbed cs d"
  "undisturbed cs (d\<lparr>dm_transfer_started_at := x\<rparr>) = undisturbed cs d" "undisturbed cs (d\<lparr>dm_replies := rs\<rparr>) = undisturbed cs d"
  "undisturbed cs (d\<lparr>dm_queued := q\<rparr>) = undisturbed cs d"
  by (simp_all add: undisturbed_def)

lemma undisturbed_calls:
  assumes "undisturbed clients d"
  shows "tick d = d" "instant_now d = (0, d)" "interfere d = d" "boot_now d = (0, d)"
    "to_worker c d = (Inr (), d)"
  using assms by (simp_all add: undisturbed_def tick_def instant_now_def boot_now_def interfere_def to_worker_def)

lemma undisturbed_vis:
  assumes "undisturbed clients d" "sec 0 0 (dm_visibility d) = Some (x, [], st, cs)"
  shows "vis_call sec d = Some (x, d\<lparr>dm_visibility := (st, cs)\<rparr>)"
  using assms by (simp add: vis_call_def undisturbed_calls release_all_def)

lemma undisturbed_consent:
  assumes "undisturbed clients d" "dm_visibility d = (st, cs)" "cs a = Some c" "method 0 c = (x, c')"
  shows "consent_call a method d = Some (x, d\<lparr>dm_visibility := (st, cs(a \<mapsto> c'))\<rparr>)"
  using assms by (simp add: consent_call_def undisturbed_calls)

subsection \<open>Calls on the visibility\<close>

lemmas vis_eval = update_def peek_def vis_opened_def vis_default_def released_jobs_def option_list_def Let_def

lemma ex_policy:
  "set_policy 0 0 True (vis_default, \<lambda>_. None) =
     Some (Some 1, [], vis_default\<lparr>vs_generation := 1, vs_policy := True, vs_requested := True, vs_phase := VStarting\<rparr>, \<lambda>_. None)"
  by (simp add: set_policy_def policy_action_def vis_request_def checked_add_u64_def u64_max_def vis_eval)

lemma ex_activation:
  "complete_activation 0 1 (Inr resources_default)
     (vis_default\<lparr>vs_generation := 1, vs_policy := True, vs_requested := True, vs_phase := VStarting\<rparr>, \<lambda>_. None) =
   Some ((), [], vis_opened, \<lambda>_. None)"
  by (simp add: complete_activation_def complete_action_def vis_eval resources_media_def resources_default_def
      resources_new_def leases_default_def leases_media_def)

lemma ex_status: "\<exists>v. status 0 (vis_opened\<lparr>vs_pending := p\<rparr>, cs) = Some ((VOpen, v), [], vis_opened\<lparr>vs_pending := p\<rparr>, cs)"
  by (simp add: status_def vis_eval)

lemma opened_idle: "vis_opened\<lparr>vs_pending := None\<rparr> = vis_opened"
  by (simp add: vis_opened_def vis_default_def)

lemma ex_generation: "generation_if_open 0 (vis_opened, cs) = Some (Some 1, [], vis_opened, cs)"
  by (simp add: generation_if_open_def admissible_def vis_eval)

lemma ex_propose:
  "propose_at 7 1 (300 * NANOS) 0 0 (vis_opened, \<lambda>_. None) =
     Some (Some 7, [], vis_opened, [7 \<mapsto> (ex_consent COffered)\<lparr>pc_share_id := None\<rparr>])"
  by (simp add: propose_at_def propose_def propose_action_def consent_new_def duration_saturating_add_def DURATION_MAX_def
      NANOS_def admissible_def ex_consent_def vis_eval u64_max_def)

lemma ex_admit:
  "admit 0 0 7 (vis_opened, [7 \<mapsto> (ex_consent COffered)\<lparr>pc_share_id := None\<rparr>]) =
     Some (True, [], vis_opened\<lparr>vs_pending := Some 7\<rparr>, [7 \<mapsto> (ex_consent CPending)\<lparr>pc_share_id := None\<rparr>])"
  by (simp add: admit_def admit_action_def admissible_def upgrade_def consent_admit_def decision_def undecided_def
      ex_consent_def NANOS_def vis_eval)

lemma ex_consent_calls:
  "consent_bind 0 1 ((ex_consent CPending)\<lparr>pc_share_id := None\<rparr>) = ex_consent CPending"
  "consent_share_id 0 (ex_consent CPending) = (Some 1, ex_consent CPending)"
  "read_outcome 0 (ex_consent CPending) = (CPending, ex_consent CPending)"
  "consent_accept 0 1 (ex_consent CPending) = (True, ex_consent (CAccepted 1))"
  by (simp_all add: consent_bind_def consent_share_id_def read_outcome_def consent_accept_def decision_def undecided_def
      ex_consent_def NANOS_def Let_def)

subsection \<open>The handlers\<close>

lemma rest_sync:
  assumes "at_rest cs d"
  shows "\<exists>d'. sync_visibility d = Some d' \<and> at_rest cs d'"
proof -
  obtain v where v: "status 0 (vis_opened, \<lambda>_. None) = Some ((VOpen, v), [], vis_opened, \<lambda>_. None)"
    using ex_status [of None "\<lambda>_. None"] opened_idle by auto
  have q: "undisturbed cs d" "dm_visibility d = (vis_opened, \<lambda>_. None)" "dm_pending_consent d = None"
    using assms by (simp_all add: at_rest_def)
  then have "vis_call (\<lambda>now t. status now) d = Some ((VOpen, v), d\<lparr>dm_visibility := (vis_opened, \<lambda>_. None)\<rparr>)"
    using v by (intro undisturbed_vis) simp_all
  then have "sync_visibility d = Some (in_sharing (set_visibility_status VOpen v) (d\<lparr>dm_visibility := (vis_opened, \<lambda>_. None)\<rparr>))"
    using q(3) by (simp add: sync_visibility_def in_sharing_def)
  moreover have "at_rest cs (in_sharing (set_visibility_status VOpen v) (d\<lparr>dm_visibility := (vis_opened, \<lambda>_. None)\<rparr>))"
    using assms by (simp add: at_rest_def in_sharing_def active_def discovery_of_def set_visibility_status_def on_snapshot_def
        endpoint_set_visibility_status_def endpoint_peer_def)
  ultimately show ?thesis by blast
qed

lemma rest_timeouts:
  assumes "at_rest cs d"
  shows "\<exists>d'. apply_timeouts d = Some (Inr (), d') \<and> at_rest cs d'"
proof -
  let ?d = "d\<lparr>dm_discovery_started_at := None, dm_transfer_started_at := None,
    dm_timeouts := (dm_timeouts d)\<lparr>to_transfer_share_id := None\<rparr>\<rparr>"
  have rest: "at_rest cs ?d" using assms by (simp add: at_rest_def active_def discovery_of_def)
  have a: "active d = None" "discovery_of d = DiscoveryIdle" using assms by (simp_all add: at_rest_def)
  have "timeout_discovery (capture_timeout_settings d) = (Inr (), ?d)" "timeout_transfer ?d = ?d"
    using a by (simp_all add: timeout_discovery_def capture_timeout_settings_def capture_discovery_def capture_transfer_def
        timeout_transfer_def discovery_of_def active_def)
  then have "apply_timeouts d = Option.bind (sync_visibility ?d) (\<lambda>d. Some (Inr (), d))"
    by (simp only: apply_timeouts_def prod.case sum.case)
  then show ?thesis using rest_sync [OF rest] by auto
qed

lemma ex_peers:
  "endpoint_peer (ascii ''pixel-8'') (snapshot (dm_sharing (daemon_simulated d))) \<noteq> None"
  by (simp add: daemon_simulated_def in_sharing_def observe_peer_def on_snapshot_def endpoint_observe_peer_def
      daemon_new_def coordinator_new_def endpoint_idle_def endpoint_peer_def peer_new_def ascii_def)

lemma idle_capture:
  assumes "active d = None" "discovery_of d = DiscoveryIdle"
  shows "capture_timeout_settings d = d\<lparr>dm_discovery_started_at := None, dm_transfer_started_at := None,
    dm_timeouts := (dm_timeouts d)\<lparr>to_transfer_share_id := None\<rparr>\<rparr>"
  using assms by (simp add: capture_timeout_settings_def capture_discovery_def capture_transfer_def discovery_of_def active_def)

lemma ex_config_fields: "cf_pinned_peer_id ex_config = None" "cf_discoverable ex_config" "cf_consent_timeout_secs ex_config = 300"
  by (simp_all add: ex_config_def)

lemma idle_configured:
  fixes d
  assumes idle: "active d = None" "discovery_of d = DiscoveryIdle"
  defines "d1 \<equiv> preferences_configured ex_config None d"
  shows "dm_visibility d1 = dm_visibility d" "dm_pending_consent d1 = dm_pending_consent d"
    "dm_sharing d1 = unpin_peers (dm_sharing d)" "undisturbed cs d1 = undisturbed cs (d\<lparr>dm_config := ex_config\<rparr>)"
    "dm_config d1 = ex_config"
  unfolding d1_def
  by (simp_all add: preferences_configured_def idle_capture [OF idle] in_preferences_def in_sharing_def ex_config_fields
      undisturbed_def Let_def)

lemma ex_activate:
  assumes "undisturbed cs d"
    "dm_visibility d = (vis_default\<lparr>vs_generation := 1, vs_policy := True, vs_requested := True, vs_phase := VStarting\<rparr>, \<lambda>_. None)"
  shows "activate (Some 1) d = Some (d\<lparr>dm_visibility := (vis_opened, \<lambda>_. None)\<rparr>)"
proof -
  have "dm_network d = None" using assms(1) by (simp add: undisturbed_def)
  moreover have "vis_call (\<lambda>now t. complete_activation now 1 (Inr resources_default)) d =
      Some ((), d\<lparr>dm_visibility := (vis_opened, \<lambda>_. None)\<rparr>)"
    using assms ex_activation by (intro undisturbed_vis) simp_all
  ultimately show ?thesis by (simp add: activate_def activate_visibility_def)
qed

lemma ex_new:
  fixes cs
  defines "d \<equiv> (daemon_simulated (ex_daemon cs))\<lparr>dm_watch := Some []\<rparr>"
  shows "active d = None" "discovery_of d = DiscoveryIdle" "next_share_id (dm_sharing d) = 1"
    "undisturbed cs (d\<lparr>dm_config := ex_config\<rparr>)" "dm_visibility d = (vis_default, \<lambda>_. None)" "dm_pending_consent d = None"
    "endpoint_peer (ascii ''pixel-8'') (snapshot (dm_sharing d)) \<noteq> None"
  using ex_peers [of "ex_daemon cs"] unfolding d_def
  by (simp_all add: daemon_simulated_def in_sharing_def observe_peer_def on_snapshot_def endpoint_observe_peer_def active_def
      discovery_of_def daemon_new_def coordinator_new_def endpoint_idle_def ex_daemon_def undisturbed_def split: option.splits)

lemma ex_install: "\<exists>d. install_config ex_config ((daemon_simulated (ex_daemon cs))\<lparr>dm_watch := Some []\<rparr>) = Some d \<and> at_rest cs d"
proof -
  let ?base = "(daemon_simulated (ex_daemon cs))\<lparr>dm_watch := Some []\<rparr>"
  let ?d = "in_preferences (\<lambda>p. p\<lparr>ps_saved := Some (values_of ex_config)\<rparr>) ?base"
  let ?starting = "vis_default\<lparr>vs_generation := 1, vs_policy := True, vs_requested := True, vs_phase := VStarting\<rparr>"
  note new = ex_new [of cs]
  have d: "active ?d = None" "discovery_of ?d = DiscoveryIdle" "dm_sharing ?d = dm_sharing ?base"
    "undisturbed cs (?d\<lparr>dm_config := ex_config\<rparr>)" "dm_visibility ?d = (vis_default, \<lambda>_. None)" "dm_pending_consent ?d = None"
    using new by (simp_all add: in_preferences_def active_def discovery_of_def undisturbed_def)
  define d1 where "d1 = preferences_configured ex_config None ?d"
  note f = idle_configured [OF d(1,2), folded d1_def]
  have d1: "undisturbed cs d1" "dm_visibility d1 = (vis_default, \<lambda>_. None)" using f d by simp_all
  have "vis_call (\<lambda>now t. set_policy now t True) d1 = Some (Some 1, d1\<lparr>dm_visibility := (?starting, \<lambda>_. None)\<rparr>)"
    using ex_policy d1 by (intro undisturbed_vis) simp_all
  moreover have "activate (Some 1) (d1\<lparr>dm_visibility := (?starting, \<lambda>_. None)\<rparr>) = Some (d1\<lparr>dm_visibility := (vis_opened, \<lambda>_. None)\<rparr>)"
    using ex_activate [of cs "d1\<lparr>dm_visibility := (?starting, \<lambda>_. None)\<rparr>"] d1 by simp
  ultimately have "install_config ex_config ?base = sync_visibility (d1\<lparr>dm_visibility := (vis_opened, \<lambda>_. None)\<rparr>)"
    using f(5) by (simp add: install_config_def d1_def [symmetric] ex_config_fields Let_def)
  moreover have "at_rest cs (d1\<lparr>dm_visibility := (vis_opened, \<lambda>_. None)\<rparr>)"
  proof -
    have "endpoint_peer (ascii ''pixel-8'') (snapshot (unpin_peers (dm_sharing ?base))) \<noteq> None"
      using new(7) by (auto simp: unpin_peers_def on_snapshot_def endpoint_unpin_peers_def endpoint_peer_def find_None peer_set_pinned_def)
    moreover have "active d1 = None" "discovery_of d1 = DiscoveryIdle" "next_share_id (dm_sharing d1) = 1"
      using new f(3) d(3) by (simp_all add: active_def discovery_of_def unpin_peers_def on_snapshot_def endpoint_unpin_peers_def)
    ultimately show ?thesis
      using d1(1) f(2,3) d(3,6) by (simp add: at_rest_def active_def discovery_of_def)
  qed
  ultimately show ?thesis using rest_sync by metis
qed

lemma rest_offer:
  assumes "at_rest cs d"
  shows "\<exists>d'. simulate_inbound 7 (AText [65]) d = Some (True, d') \<and> on_offer cs d'"
proof -
  have q: "undisturbed cs d" "dm_visibility d = (vis_opened, \<lambda>_. None)" "dm_config d = ex_config" "active d = None"
    using assms by (simp_all add: at_rest_def undisturbed_def)
  let ?dp = "d\<lparr>dm_visibility := (vis_opened, [7 \<mapsto> (ex_consent COffered)\<lparr>pc_share_id := None\<rparr>])\<rparr>"
  let ?da = "d\<lparr>dm_visibility := (vis_opened\<lparr>vs_pending := Some 7\<rparr>, [7 \<mapsto> (ex_consent CPending)\<lparr>pc_share_id := None\<rparr>])\<rparr>"
  obtain peer where peer: "endpoint_peer (ascii ''pixel-8'') (snapshot (dm_sharing d)) = Some peer"
    using assms by (auto simp: at_rest_def)
  define c where "c = snd (offer_inbound_sized (AText [65]) (ascii ''pixel-8'') None (dm_sharing d))"
  have offered: "offer_inbound_sized (AText [65]) (ascii ''pixel-8'') None (dm_sharing d) = (Some 1, c)"
    using peer assms by (simp add: c_def offer_inbound_sized_def next_id_def at_rest_def Let_def)
  have share: "\<exists>s. active_share (snapshot c) = Some s \<and> sh_id s = 1 \<and> sh_direction s = Inbound \<and> sh_phase s = AwaitingLocalConsent"
    "discovery (snapshot c) = DiscoveryIdle"
    using peer assms by (simp_all add: c_def offer_inbound_sized_def next_id_def at_rest_def on_snapshot_def endpoint_set_active_def
        share_defs discovery_of_def Let_def)
  let ?db = "?da\<lparr>dm_sharing := c\<rparr>"
  let ?de = "?db\<lparr>dm_visibility := (vis_opened\<lparr>vs_pending := Some 7\<rparr>, [7 \<mapsto> ex_consent CPending]), dm_pending_consent := Some 7\<rparr>"
  have 1: "vis_call (\<lambda>now t. generation_if_open now) d = Some (Some 1, d)"
    using undisturbed_vis [OF q(1), of "\<lambda>now t. generation_if_open now"] q(2) ex_generation [of "\<lambda>_. None"] by simp
  have 2: "vis_call (propose_at 7 1 (300 * NANOS)) d = Some (Some 7, ?dp)"
    using undisturbed_vis [OF q(1), of "propose_at 7 1 (300 * NANOS)"] q(2) ex_propose by simp
  have 3: "vis_call (\<lambda>now t. admit now t 7) ?dp = Some (True, ?da)"
    using undisturbed_vis [of cs ?dp "\<lambda>now t. admit now t 7"] q(1) ex_admit by simp
  have 4: "on_sharing (offer_inbound_sized (AText [65]) (ascii ''pixel-8'') None) ?da = (Some 1, ?db)"
    using offered by (simp add: on_sharing_def)
  have 5: "consent_call 7 (\<lambda>t c. ((), consent_bind t 1 c)) ?db =
      Some ((), ?db\<lparr>dm_visibility := (vis_opened\<lparr>vs_pending := Some 7\<rparr>, [7 \<mapsto> ex_consent CPending])\<rparr>)"
    using undisturbed_consent [of cs ?db "vis_opened\<lparr>vs_pending := Some 7\<rparr>" "[7 \<mapsto> (ex_consent CPending)\<lparr>pc_share_id := None\<rparr>]" 7
        "(ex_consent CPending)\<lparr>pc_share_id := None\<rparr>" "\<lambda>t c. ((), consent_bind t 1 c)" "()" "ex_consent CPending"]
      q(1) ex_consent_calls(1) by simp
  have idle: "\<not> has_active_share ?dp" using q(4) by (simp add: has_active_share_def active_def)
  have "admit_inbound (AText [65]) (ascii ''pixel-8'') None 7 ?dp = Some (Some 1, ?de)"
    unfolding admit_inbound_def using idle 3 4 5 by simp
  then have "simulate_inbound 7 (AText [65]) d = Some (True, ?de)"
    unfolding simulate_inbound_def using 1 2 q(3) by (simp add: ex_config_fields)
  moreover have "on_offer cs ?de" using q(1) share by (simp add: on_offer_def active_def discovery_of_def)
  ultimately show ?thesis by blast
qed

lemma offer_sync:
  assumes "on_offer cs d"
  shows "\<exists>d'. sync_visibility d = Some d' \<and> on_offer cs d'"
proof -
  let ?v = "(vis_opened\<lparr>vs_pending := Some 7\<rparr>, [7 \<mapsto> ex_consent CPending])"
  have q: "undisturbed cs d" "dm_visibility d = ?v" "dm_pending_consent d = Some 7" using assms by (simp_all add: on_offer_def)
  obtain v where v: "status 0 ?v = Some ((VOpen, v), [], ?v)"
    using ex_status [of "Some 7" "[7 \<mapsto> ex_consent CPending]"] by blast
  let ?d = "in_sharing (set_visibility_status VOpen v) d"
  have 1: "vis_call (\<lambda>now t. status now) d = Some ((VOpen, v), d)"
    using undisturbed_vis [OF q(1), of "\<lambda>now t. status now"] q(2) v by simp
  have d: "undisturbed cs ?d" "dm_visibility ?d = ?v" "dm_pending_consent ?d = Some 7" using q by (simp_all add: in_sharing_def)
  have same: "?d\<lparr>dm_visibility := ?v\<rparr> = ?d" using d(2) by simp
  have 2: "consent_call 7 consent_share_id ?d = Some (Some 1, ?d)"
    using undisturbed_consent [OF d(1,2), of 7 "ex_consent CPending" consent_share_id] ex_consent_calls(2) same by simp
  have 3: "consent_call 7 read_outcome ?d = Some (CPending, ?d)"
    using undisturbed_consent [OF d(1,2), of 7 "ex_consent CPending" read_outcome] ex_consent_calls(3) same by simp
  obtain s where s: "active ?d = Some s" "sh_id s = 1" "sh_direction s = Inbound" "sh_phase s = AwaitingLocalConsent"
    using assms by (auto simp: on_offer_def active_def in_sharing_def set_visibility_status_def on_snapshot_def
        endpoint_set_visibility_status_def)
  have "sync_visibility d = Some ?d" unfolding sync_visibility_def using 1 2 3 d(3) s by simp
  moreover have "on_offer cs ?d"
    using d s assms by (simp add: on_offer_def discovery_of_def in_sharing_def set_visibility_status_def on_snapshot_def
        endpoint_set_visibility_status_def)
  ultimately show ?thesis by blast
qed

lemma offer_timeouts:
  assumes "on_offer cs d"
  shows "\<exists>d'. apply_timeouts d = Some (Inr (), d') \<and> on_offer cs d'"
proof -
  obtain s where s: "active d = Some s" "sh_phase s = AwaitingLocalConsent" "discovery_of d = DiscoveryIdle"
    using assms by (auto simp: on_offer_def)
  define d1 where "d1 = capture_timeout_settings d"
  have d1: "\<exists>t. d1 = d\<lparr>dm_discovery_started_at := None, dm_transfer_started_at := None, dm_timeouts := t\<rparr>"
  proof (cases "to_transfer_share_id (dm_timeouts d) = Some (sh_id s)")
    case True
    then show ?thesis
      using s by (intro exI [of _ "dm_timeouts d"])
        (simp add: d1_def capture_timeout_settings_def capture_discovery_def capture_transfer_def active_def discovery_of_def live_phases_def)
  next
    case False
    then show ?thesis
      using s by (intro exI [of _ "(dm_timeouts d)\<lparr>to_transfer := cf_transfer_timeout_secs (dm_config d) * NANOS, to_transfer_share_id := Some (sh_id s)\<rparr>"])
        (simp add: d1_def capture_timeout_settings_def capture_discovery_def capture_transfer_def active_def discovery_of_def live_phases_def)
  qed
  then obtain t where t: "d1 = d\<lparr>dm_discovery_started_at := None, dm_transfer_started_at := None, dm_timeouts := t\<rparr>" ..
  have on: "on_offer cs d1" using assms unfolding t by (simp add: on_offer_def active_def discovery_of_def)
  have "timeout_discovery d1 = (Inr (), d1)" "timeout_transfer d1 = d1"
    using s unfolding t by (simp_all add: timeout_discovery_def timeout_transfer_def active_def discovery_of_def)
  then have "apply_timeouts d = Option.bind (sync_visibility d1) (\<lambda>d. Some (Inr (), d))"
    by (simp add: apply_timeouts_def d1_def)
  then show ?thesis using offer_sync [OF on] by auto
qed

text \<open>The accepted share.\<close>

definition moving :: "daemon \<Rightarrow> bool" where
  "moving d \<longleftrightarrow> (\<exists>s. active d = Some s \<and> sh_id s = 1 \<and> sh_direction s = Inbound \<and> sh_phase s = Transferring)"

lemma offer_accept:
  assumes "on_offer cs d"
  shows "\<exists>d' r. share_response (RqAccept 1) d = Some (Some r, d') \<and> moving d'"
proof -
  let ?v = "(vis_opened\<lparr>vs_pending := Some 7\<rparr>, [7 \<mapsto> ex_consent CPending])"
  have q: "undisturbed cs d" "dm_visibility d = ?v" "dm_pending_consent d = Some 7" using assms by (simp_all add: on_offer_def)
  obtain s where s: "active d = Some s" "sh_id s = 1" "sh_direction s = Inbound" "sh_phase s = AwaitingLocalConsent"
    using assms by (auto simp: on_offer_def)
  let ?da = "d\<lparr>dm_visibility := (vis_opened\<lparr>vs_pending := Some 7\<rparr>, [7 \<mapsto> ex_consent (CAccepted 1)])\<rparr>"
  let ?db = "snd (on_sharing (accept_inbound 1) ?da)"
  have acc: "accept_inbound 1 (dm_sharing d) = (True, put_active (share_set_phase Transferring s) (dm_sharing d))"
    using s by (simp add: accept_inbound_def transition_def active_def)
  have "consent_call 7 (\<lambda>t. consent_accept t 1) d = Some (True, ?da)"
    using undisturbed_consent [OF q(1,2), of 7 "ex_consent CPending" "\<lambda>t. consent_accept t 1"] ex_consent_calls(4) by simp
  moreover have "on_sharing (accept_inbound 1) ?da = (True, ?db)" using acc by (simp add: on_sharing_def)
  moreover have "awaiting_local 1 d" using s by (simp add: awaiting_local_def)
  ultimately have "accept_pending 1 d = Some (True, ?db)" unfolding accept_pending_def using q(3) by simp
  moreover have "instant_now ?db = (0, ?db)"
    using q(1) acc by (intro undisturbed_calls(2) [of cs]) (simp add: on_sharing_def)
  ultimately have "share_response (RqAccept 1) d = Some (Some applied, ?db\<lparr>dm_transfer_started_at := Some 0\<rparr>)"
    by (simp add: share_response_def action_response_def)
  moreover have "moving (?db\<lparr>dm_transfer_started_at := Some 0\<rparr>)"
    using s acc by (simp add: moving_def active_def on_sharing_def put_active_def share_set_phase_def Let_def)
  ultimately show ?thesis by blast
qed

lemma rest_submit:
  assumes "at_rest cs d"
  shows "\<exists>d'. response_for a (RqSubmitText None [65]) d = Some (Inr (queued_with 1), d')"
proof -
  obtain d1 where d1: "apply_timeouts d = Some (Inr (), d1)" "at_rest cs d1" using rest_timeouts [OF assms] by blast
  have idle: "\<not> has_active_share d1" "next_share_id (dm_sharing d1) = 1"
    using d1(2) by (simp_all add: at_rest_def has_active_share_def)
  obtain i d2 where d2: "queue_attachment_for (AText [65]) False d1 = (i, d2)" by fastforce
  have "i = 1"
    using d2 idle(2) by (auto simp: queue_attachment_for_def on_sharing_def queue_outbound_def queue_outbound_with_preference_def
        next_id_def Let_def split: prod.splits option.splits)
  then have "queue_value (\<lambda>i. remember_text i [65]) (AText [65]) None d1 = (Inr 1, in_outbound (remember_text 1 [65]) d2)"
    using d2 by (simp add: queue_value_def)
  then have "\<exists>d'. submit (queue_value (\<lambda>i. remember_text i [65]) (AText [65]) None) None d1 = (Inr (queued_with 1), d')"
    using idle(1) by (simp add: submit_def queued_response_def)
  then show ?thesis using d1(1) by (auto simp: response_for_def endpoint_response_def share_response_def)
qed

end
