(* ===== verification/Daemon_Guarantees.thy ===== *)
theory Daemon_Guarantees
  imports Daemon_Example
begin

text \<open>
  What the endpoint guarantees along every run of \<open>daemon.rs\<close>, with the example run as the witness.
\<close>

subsection \<open>Rounds of the example\<close>

lemma rest_taken: "at_rest (c # cs) d \<Longrightarrow> at_rest cs (d\<lparr>dm_clients := cs\<rparr>)"
  by (simp add: at_rest_def undisturbed_def active_def discovery_of_def)

lemma offer_taken: "on_offer (c # cs) d \<Longrightarrow> on_offer cs (d\<lparr>dm_clients := cs\<rparr>)"
  by (simp add: on_offer_def undisturbed_def active_def discovery_of_def)

lemma undisturbed_round:
  assumes "undisturbed cs d"
  shows "reload_preferences d = Some (Inr (), d)" "apply_network_events d = Some (Inr (), d)" "dm_clients d = cs"
    "dm_decode d = ex_request"
  using assms by (simp_all add: undisturbed_def reload_preferences_def config_changed_def apply_network_events_def)

lemma ex_reads:
  "fst (read_record ex_request [1]) = Inr (request_of (RqSimulateIncomingText [65]))"
  "fst (read_record ex_request [2]) = Inr (request_of (RqAccept 1))"
  "fst (read_record ex_request [3]) = Inr \<lparr>rq_request = RqStatus, rq_version = 2\<rparr>"
  by (simp_all add: read_record_def read_line_def ex_request_def in_range_def)

text \<open>A round whose timeouts keep a kind of state serves the next client in such a state.\<close>

lemma round_of:
  assumes "P cs d" "\<And>d. P cs d \<Longrightarrow> \<exists>d'. apply_timeouts d = Some (Inr (), d') \<and> P cs d'" "\<And>d. P cs d \<Longrightarrow> undisturbed cs d"
    "cs = Inr bytes # cs'"
  shows "\<exists>d1 d2. P cs d1 \<and> apply_timeouts d = Some (Inr (), d1) \<and> reload_preferences d1 = Some (Inr (), d1) \<and>
    apply_network_events d1 = Some (Inr (), d1) \<and> apply_timeouts d1 = Some (Inr (), d2) \<and> P cs d2 \<and>
    dm_clients d2 = Inr bytes # cs' \<and> serve_next a d1 = serve_client a (Inr bytes) (d2\<lparr>dm_clients := cs'\<rparr>)"
proof -
  obtain d1 where d1: "apply_timeouts d = Some (Inr (), d1)" "P cs d1" using assms(1,2) by blast
  obtain d2 where d2: "apply_timeouts d1 = Some (Inr (), d2)" "P cs d2" using assms(2) d1 by blast
  note u1 = undisturbed_round [OF assms(3) [OF d1(2)]]
  note u2 = undisturbed_round [OF assms(3) [OF d2(2)]]
  have "serve_next a d1 = serve_client a (Inr bytes) (d2\<lparr>dm_clients := cs'\<rparr>)"
    using u1(2) u2(3) d2(1) assms(4) by (simp add: serve_next_def serve_client_def Let_def split: sum.splits)
  then show ?thesis using d1 d2 u1 u2 assms(4) by auto
qed

lemma undisturbed_states: "at_rest cs d \<Longrightarrow> undisturbed cs d" "on_offer cs d \<Longrightarrow> undisturbed cs d"
  by (simp_all add: at_rest_def on_offer_def)

lemma rest_round:
  assumes "at_rest (Inr [1] # cs) d"
  shows "\<exists>d'. serve_until ((False, 7) # rounds) d = serve_until rounds d' \<and> on_offer cs d'"
proof -
  obtain d1 d2 where d: "apply_timeouts d = Some (Inr (), d1)" "reload_preferences d1 = Some (Inr (), d1)"
    "at_rest (Inr [1] # cs) d2" "serve_next 7 d1 = serve_client 7 (Inr [1]) (d2\<lparr>dm_clients := cs\<rparr>)"
    using round_of [of at_rest, OF assms rest_timeouts undisturbed_states(1) refl, of 7] by blast
  let ?d = "d2\<lparr>dm_clients := cs\<rparr>"
  obtain d3 where d3: "apply_timeouts ?d = Some (Inr (), d3)" "at_rest cs d3"
    using rest_timeouts [OF rest_taken [OF d(3)]] by blast
  obtain d4 where d4: "simulate_inbound 7 (AText [65]) d3 = Some (True, d4)" "on_offer cs d4" using rest_offer [OF d3(2)] by blast
  have sim: "dm_simulated d3" using d3(2) by (simp add: at_rest_def undisturbed_def)
  have "response_for 7 (RqSimulateIncomingText [65]) ?d = Some (Inr applied, d4)"
    using d3 d4 sim by (simp add: response_for_def endpoint_response_def share_response_def simulation_response_def
        simulation_applied_def action_response_def)
  moreover have "dm_decode ?d = ex_request" using d(3) by (simp add: at_rest_def undisturbed_def)
  ultimately have "serve_next 7 d1 = Some (Inr (), d4\<lparr>dm_replies := dm_replies d4 @ [applied]\<rparr>)"
    using d(4) by (simp add: serve_client_def ex_reads request_of_def is_queued_def applied_def response_of_def)
  then have "serve_until ((False, 7) # rounds) d = serve_until rounds (d4\<lparr>dm_replies := dm_replies d4 @ [applied]\<rparr>)"
    using d(1,2) by simp
  moreover have "on_offer cs (d4\<lparr>dm_replies := dm_replies d4 @ [applied]\<rparr>)"
    using d4(2) by (simp add: on_offer_def active_def discovery_of_def)
  ultimately show ?thesis by blast
qed

lemma offer_round:
  assumes "on_offer (Inr [2] # cs) d"
  shows "\<exists>d'. serve_until ((False, 8) # rounds) d = serve_until rounds d' \<and> moving d'"
proof -
  obtain d1 d2 where d: "apply_timeouts d = Some (Inr (), d1)" "reload_preferences d1 = Some (Inr (), d1)"
    "on_offer (Inr [2] # cs) d2" "serve_next 8 d1 = serve_client 8 (Inr [2]) (d2\<lparr>dm_clients := cs\<rparr>)"
    using round_of [of on_offer, OF assms offer_timeouts undisturbed_states(2) refl, of 8] by blast
  let ?d = "d2\<lparr>dm_clients := cs\<rparr>"
  obtain d3 where d3: "apply_timeouts ?d = Some (Inr (), d3)" "on_offer cs d3"
    using offer_timeouts [OF offer_taken [OF d(3)]] by blast
  obtain d4 r where d4: "share_response (RqAccept 1) d3 = Some (Some r, d4)" "moving d4" using offer_accept [OF d3(2)] by blast
  have "response_for 8 (RqAccept 1) ?d = Some (Inr r, d4)"
    using d3 d4 by (simp add: response_for_def endpoint_response_def)
  moreover have "dm_decode ?d = ex_request" using d(3) by (simp add: on_offer_def undisturbed_def)
  ultimately have "\<exists>q rs. serve_next 8 d1 = Some (Inr (), d4\<lparr>dm_queued := q, dm_replies := rs\<rparr>)"
    using d(4) by (intro exI [of _ "if is_queued r then dm_queued d4 @ [request_of (RqAccept 1)] else dm_queued d4"]
        exI [of _ "dm_replies d4 @ [r]"]) (simp add: serve_client_def ex_reads request_of_def)
  then obtain q rs where "serve_next 8 d1 = Some (Inr (), d4\<lparr>dm_queued := q, dm_replies := rs\<rparr>)" by blast
  then have "serve_until ((False, 8) # rounds) d = serve_until rounds (d4\<lparr>dm_queued := q, dm_replies := rs\<rparr>)"
    using d(1,2) by simp
  moreover have "moving (d4\<lparr>dm_queued := q, dm_replies := rs\<rparr>)" using d4(2) by (simp add: moving_def active_def)
  ultimately show ?thesis by blast
qed

lemma ex_run: "\<exists>d'. run_simulated [] ex_config [7, 8] (ex_daemon [Inr [1], Inr [2]]) = Some (None, d') \<and> moving d'"
proof -
  obtain d0 where d0: "install_config ex_config ((daemon_simulated (ex_daemon [Inr [1], Inr [2]]))\<lparr>dm_watch := Some []\<rparr>) = Some d0"
    "at_rest [Inr [1], Inr [2]] d0" using ex_install by blast
  obtain d1 where d1: "serve_until [(False, 7), (False, 8)] d0 = serve_until [(False, 8)] d1" "on_offer [Inr [2]] d1"
    using rest_round [OF d0(2), of "[(False, 8)]"] by blast
  obtain d2 where d2: "serve_until [(False, 8)] d1 = serve_until [] d2" "moving d2" using offer_round [OF d1(2), of "[]"] by blast
  have "run_simulated [] ex_config [7, 8] (ex_daemon [Inr [1], Inr [2]]) = serve_until [(False, 7), (False, 8)] d0"
    unfolding run_simulated_def d0(1) by simp
  also have "\<dots> = Some (None, d2)" unfolding d1(1) d2(1) by simp
  finally show ?thesis using d2(2) by blast
qed

subsection \<open>What the steps keep\<close>

lemma micro_refines:
  assumes "micro d d'"
  shows "\<exists>ops. dm_sharing d' = run coord_step ops (dm_sharing d)"
  using assms
proof cases
  case (share op)
  then show ?thesis by (intro exI [of _ "[op]"]) simp
next
  case (queue att b)
  then show ?thesis
    by (intro exI [of _ "[if b then OpQueueOutbound att else OpQueueUnpinned att]"])
      (simp add: queue_outbound_def queue_outbound_unpinned_def)
next
  case (offer att pid tot i a c)
  then show ?thesis by (intro exI [of _ "[OpOfferInbound att pid tot]"]) (simp add: offer)
next
  case (accept a c i)
  then show ?thesis by (intro exI [of _ "[OpAcceptInbound i]"]) simp
qed (auto intro: exI [of _ "[]"])

lemma evolves_refines: "evolves d d' \<Longrightarrow> \<exists>ops. dm_sharing d' = run coord_step ops (dm_sharing d)"
proof (induction rule: rtranclp_induct)
  case base
  show ?case by (rule exI [of _ "[]"]) simp
next
  case (step d1 d2)
  obtain ops where "dm_sharing d1 = run coord_step ops (dm_sharing d)" using step.IH by blast
  moreover obtain more where "dm_sharing d2 = run coord_step more (dm_sharing d1)" using micro_refines [OF step.hyps(2)] by blast
  ultimately show ?case by (intro exI [of _ "ops @ more"]) simp
qed

lemma live_share: "active d = Some s \<Longrightarrow> has_active_share d \<longleftrightarrow> \<not> is_terminal (sh_phase s)"
  by (cases "sh_phase s") (simp_all add: has_active_share_def is_terminal_def)

text \<open>The active share stays the active share, whatever happens to it.\<close>

definition keeps_share :: "daemon \<Rightarrow> daemon \<Rightarrow> bool" where
  "keeps_share d d' \<longleftrightarrow> (\<forall>s. active d = Some s \<longrightarrow>
     (\<exists>s'. active d' = Some s' \<and> sh_id s' = sh_id s \<and> sh_direction s' = sh_direction s))"

lemma calm_keeps_share:
  assumes "calm op" "active_share (snapshot c) = Some s"
  shows "\<exists>s'. active_share (snapshot (coord_step op c)) = Some s' \<and> sh_id s' = sh_id s \<and> sh_direction s' = sh_direction s"
  using assms by (cases op) (auto simp: coord_op_defs share_defs Let_def split: coord_splits)

lemma dismiss_keeps_share:
  assumes "active_share (snapshot c) = Some s" "\<not> is_terminal (sh_phase s)"
  shows "active_share (snapshot (coord_step (OpDismiss j) c)) = Some s"
  using assms by (auto simp: coord_op_defs share_defs Let_def split: coord_splits)

lemma accept_keeps_share:
  assumes "active_share (snapshot c) = Some s"
  shows "\<exists>s'. active_share (snapshot (snd (accept_inbound i c))) = Some s' \<and> sh_id s' = sh_id s \<and> sh_direction s' = sh_direction s"
  using assms by (auto simp: accept_inbound_def transition_def put_active_def share_set_phase_def Let_def split: option.splits if_splits)

interpretation ids: endpoint_steps keeps_share False
proof unfold_locales
  show "keeps_share d d'" if "calm op" "dm_sharing d' = coord_step op (dm_sharing d)" for d d' op
    using that calm_keeps_share [of op "dm_sharing d"] by (simp add: keeps_share_def active_def)
  show "keeps_share d d'" if "False \<or> has_active_share d" "dm_sharing d' = coord_step (OpDismiss j) (dm_sharing d)" for d d' j
    using that live_share [of d] dismiss_keeps_share [of "dm_sharing d" _ j] by (auto simp: keeps_share_def active_def)
  show "keeps_share d d'" if "dm_sharing d' = snd (accept_inbound i (dm_sharing d))" for d d' i
    using that accept_keeps_share [of "dm_sharing d" _ i] by (simp add: keeps_share_def active_def)
  show "keeps_share d1 d3" if "keeps_share d1 d2" "keeps_share d2 d3" for d1 d2 d3
    using that unfolding keeps_share_def by metis
qed (simp_all add: keeps_share_def active_def)

lemma timeouts_then_live:
  assumes "apply_timeouts d = Some (Inr (), d1)" "active d = Some s"
  obtains s1 where "active d1 = Some s1" "sh_id s1 = sh_id s" "has_active_share d1 \<longleftrightarrow> \<not> is_terminal (sh_phase s1)"
proof -
  obtain s1 where s1: "active d1 = Some s1" "sh_id s1 = sh_id s"
    using ids.apply_timeouts_evolves [OF assms(1)] assms(2) by (auto simp: keeps_share_def)
  show thesis using that [OF s1 live_share [OF s1(1)]] .
qed

lemma response_keeps_share:
  assumes "response_for a rq d = Some (r, d')" "active d = Some s"
  shows "keeps_share d d' \<or> (\<exists>d1 s1. apply_timeouts d = Some (Inr (), d1) \<and> active d1 = Some s1 \<and>
    sh_id s1 = sh_id s \<and> is_terminal (sh_phase s1))"
proof (cases "\<exists>d1. apply_timeouts d = Some (Inr (), d1) \<and> \<not> has_active_share d1")
  case True
  then obtain d1 where d1: "apply_timeouts d = Some (Inr (), d1)" "\<not> has_active_share d1" by blast
  then show ?thesis using timeouts_then_live [OF d1(1) assms(2)] by metis
next
  case False
  then show ?thesis using ids.response_for_evolves [OF assms(1)] by blast
qed

subsection \<open>Overdue transfers\<close>

lemma vis_call_outer:
  assumes "vis_call sec d = Some (x, d')"
  shows "dm_sharing d' = dm_sharing d" "dm_outbound d' = dm_outbound d"
  using assms by (auto simp: vis_call_def boot_now_def tick_same interfere_def Let_def Option.bind_eq_Some_conv split: list.splits)

lemma consent_call_outer:
  assumes "consent_call a f d = Some (x, d')"
  shows "dm_sharing d' = dm_sharing d" "dm_outbound d' = dm_outbound d"
  using assms by (auto simp: consent_call_def boot_now_def tick_same interfere_def Let_def split: list.splits option.splits prod.splits)

lemma ended_methods:
  assumes "active d = Some s" "is_terminal (sh_phase s)"
  shows "on_sharing (fail i) d = (False, d)" "on_sharing (cancel i) d = (False, d)"
  using assms by (simp_all add: active_def on_sharing_def fail_def cancel_def endpoint_fail_def endpoint_cancel_def Let_def)

lemma sync_keeps_ended:
  assumes sync: "sync_visibility d = Some d'" and s: "active d = Some s" "is_terminal (sh_phase s)"
  shows "active d' = Some s" "dm_outbound d' = dm_outbound d"
proof -
  obtain st v d1 where d1: "vis_call (\<lambda>now t. status now) d = Some ((st, v), d1)"
    using sync by (auto simp: sync_visibility_def Option.bind_eq_Some_conv)
  let ?e = "in_sharing (set_visibility_status st v) d1"
  have e: "active ?e = Some s" "dm_outbound ?e = dm_outbound d"
    using vis_call_outer [OF d1] s(1) by (simp_all add: active_def in_sharing_def set_visibility_status_def on_snapshot_def
        endpoint_set_visibility_status_def)
  have "active d' = Some s \<and> dm_outbound d' = dm_outbound d"
  proof (cases "dm_pending_consent ?e")
    case None
    then show ?thesis using sync d1 e by (simp add: sync_visibility_def Let_def)
  next
    case (Some a)
    obtain bound d3 where d3: "consent_call a consent_share_id ?e = Some (bound, d3)"
      using sync d1 Some by (auto simp: sync_visibility_def Let_def Option.bind_eq_Some_conv)
    have e3: "active d3 = Some s" "dm_outbound d3 = dm_outbound d"
      using consent_call_outer [OF d3] e by (simp_all add: active_def)
    show ?thesis
    proof (cases bound)
      case None
      then show ?thesis using sync d1 Some d3 e3 by (simp add: sync_visibility_def Let_def)
    next
      case bound: (Some i)
      obtain out d4 where d4: "consent_call a read_outcome d3 = Some (out, d4)"
        using sync d1 Some d3 bound by (auto simp: sync_visibility_def Let_def Option.bind_eq_Some_conv)
      have e4: "active d4 = Some s" "dm_outbound d4 = dm_outbound d"
        using consent_call_outer [OF d4] e3 by (simp_all add: active_def)
      have "d' = d4\<lparr>dm_pending_consent := None\<rparr>"
      proof -
        have "sh_phase s \<notin> {AwaitingLocalConsent, Transferring}" using s(2) by (auto simp: is_terminal_def)
        then show ?thesis
          using sync d1 Some d3 bound d4 e4(1) ended_methods [OF e4(1) s(2), of i]
          by (cases out) (simp_all add: sync_visibility_def Let_def)
      qed
      then show ?thesis using e4 by (simp add: active_def)
    qed
  qed
  then show "active d' = Some s" "dm_outbound d' = dm_outbound d" by blast+
qed

lemma failed_transfer:
  assumes "active d = Some s" "sh_phase s = Transferring"
  shows "\<exists>d'. on_sharing (fail (sh_id s)) d = (True, d') \<and> active d' = Some (share_set_phase Failed s)"
  using assms by (simp add: active_def on_sharing_def fail_def endpoint_fail_def endpoint_stop_discovery_def is_terminal_def Let_def)

lemma overdue_transfer_fails:
  assumes s: "active d = Some s" "sh_phase s = Transferring" and t: "dm_transfer_started_at d = Some t0"
    and late: "t0 + to_transfer (dm_timeouts d) \<le> dm_instant d"
  shows "\<exists>s'. active (timeout_transfer d) = Some s' \<and> sh_id s' = sh_id s \<and> sh_phase s' = Failed \<and>
    sh_terminal_reason s' = Some timed_out_text"
    "ob_payloads (dm_outbound (timeout_transfer d)) (sh_id s) = None"
proof -
  have tick: "active (tick d) = Some s" "dm_timeouts (tick d) = dm_timeouts d" "dm_instant d \<le> dm_instant (tick d)"
    using s tick_same [of d] by (simp_all add: active_def)
  obtain d2 where d2: "on_sharing (fail (sh_id s)) (tick d) = (True, d2)" "active d2 = Some (share_set_phase Failed s)"
    using failed_transfer [OF tick(1) s(2)] by blast
  have eq: "timeout_transfer d = (in_outbound (outbound_finish (sh_id s))
      (notify Error (worker_cancel (sh_id s) (record_failure (sh_id s) timed_out_text d2))))\<lparr>dm_transfer_started_at := None\<rparr>"
    using s t late tick d2(1) by (simp add: timeout_transfer_def transfer_start_def instant_now_def Let_def)
  show "\<exists>s'. active (timeout_transfer d) = Some s' \<and> sh_id s' = sh_id s \<and> sh_phase s' = Failed \<and>
    sh_terminal_reason s' = Some timed_out_text"
    using d2(2) unfolding eq
    by (simp add: active_def in_outbound_def notify_def worker_cancel_def record_failure_def on_sharing_def record_observation_def
        put_active_def share_set_observation_def share_set_phase_def or_keep_def Let_def)
  show "ob_payloads (dm_outbound (timeout_transfer d)) (sh_id s) = None"
    unfolding eq by (simp add: in_outbound_def outbound_finish_def)
qed

text \<open>What the timeouts that come before leave alone.\<close>

definition same_transfer :: "share_snapshot \<Rightarrow> daemon \<Rightarrow> daemon \<Rightarrow> bool" where
  "same_transfer s d d' \<longleftrightarrow> active d' = Some s \<and> dm_transfer_started_at d' = dm_transfer_started_at d \<and>
     to_transfer (dm_timeouts d') = to_transfer (dm_timeouts d) \<and> dm_instant d \<le> dm_instant d' \<and>
     to_transfer_share_id (dm_timeouts d') = to_transfer_share_id (dm_timeouts d)"

lemma same_transfer_trans: "same_transfer s a b \<Longrightarrow> same_transfer s b c \<Longrightarrow> same_transfer s a c"
  by (simp add: same_transfer_def)

lemma same_transfer_tick: "active d = Some s \<Longrightarrow> same_transfer s d (tick d)"
  using tick_same [of d] by (simp add: same_transfer_def active_def)

lemma capture_same:
  assumes "active d = Some s" "sh_phase s = Transferring" "dm_transfer_started_at d = Some t0"
    "to_transfer_share_id (dm_timeouts d) = Some (sh_id s)"
  shows "same_transfer s d (capture_timeout_settings d)"
proof -
  have "same_transfer s d (capture_discovery d)"
    using assms(1) same_transfer_tick [OF assms(1)]
    by (simp add: capture_discovery_def instant_now_def same_transfer_def active_def Let_def)
  moreover have "capture_transfer e = e" if "same_transfer s d e" for e
    using that assms by (simp add: same_transfer_def capture_transfer_def live_phases_def transfer_start_def)
  ultimately show ?thesis by (simp add: capture_timeout_settings_def)
qed

lemma discovery_timeout_same:
  assumes "active d = Some s" "timeout_discovery d = (Inr x, d')"
  shows "same_transfer s d d'"
proof (cases "discovery_of d = Searching")
  case False
  then have "d' = d\<lparr>dm_discovery_started_at := None\<rparr>" using assms(2) by (simp add: timeout_discovery_def)
  then show ?thesis using assms(1) by (simp add: same_transfer_def active_def)
next
  case True
  define d1 where "d1 = (case dm_discovery_started_at d of Some t \<Rightarrow> d
    | None \<Rightarrow> (tick d)\<lparr>dm_discovery_started_at := Some (dm_instant (tick d))\<rparr>)"
  define d3 where "d3 = snd (on_sharing discovery_timed_out (tick d1))"
  have 1: "same_transfer s d d1"
    using same_transfer_tick [OF assms(1)] assms(1) by (auto simp: d1_def same_transfer_def active_def split: option.splits)
  then have 2: "same_transfer s d (tick d1)"
    using same_transfer_trans same_transfer_tick [of d1 s] by (simp add: same_transfer_def)
  then have 3: "same_transfer s d d3"
    by (simp add: d3_def same_transfer_def on_sharing_def active_def discovery_timed_out_def endpoint_discovery_timed_out_def
        split: prod.splits if_splits)
  have 4: "same_transfer s d ((snd (to_worker StopDiscovery d3))\<lparr>dm_discovery_started_at := None\<rparr>)"
    using 3 by (simp add: same_transfer_def active_def to_worker_def split: option.splits prod.splits)
  have "d' = tick d1 \<or> d' = (snd (to_worker StopDiscovery d3))\<lparr>dm_discovery_started_at := None\<rparr>"
    using assms(2) True unfolding d3_def d1_def
    by (cases "dm_discovery_started_at d") (auto simp: timeout_discovery_def instant_now_def Let_def split: if_splits sum.splits prod.splits)
  then show ?thesis using 2 4 by blast
qed

lemma timeouts_stages:
  assumes "apply_timeouts d = Some (Inr u, d')"
  obtains x d1 where "timeout_discovery (capture_timeout_settings d) = (Inr x, d1)" "sync_visibility (timeout_transfer d1) = Some d'"
proof -
  obtain x d1 where 1: "timeout_discovery (capture_timeout_settings d) = (x, d1)" by fastforce
  then show thesis
    using assms that by (cases x) (auto simp: apply_timeouts_def Option.bind_eq_Some_conv)
qed

lemma overdue_ends:
  assumes run: "apply_timeouts d = Some (Inr u, d')" and s: "active d = Some s" "sh_phase s = Transferring"
    and t: "dm_transfer_started_at d = Some t0" "to_transfer_share_id (dm_timeouts d) = Some (sh_id s)"
    and late: "t0 + to_transfer (dm_timeouts d) \<le> dm_instant d"
  shows "\<exists>s'. active d' = Some s' \<and> sh_id s' = sh_id s \<and> sh_phase s' = Failed \<and> sh_terminal_reason s' = Some timed_out_text"
    "ob_payloads (dm_outbound d') (sh_id s) = None"
proof -
  obtain x d1 where 1: "timeout_discovery (capture_timeout_settings d) = (Inr x, d1)" "sync_visibility (timeout_transfer d1) = Some d'"
    using timeouts_stages [OF run] .
  have c: "same_transfer s d (capture_timeout_settings d)" using capture_same s t by blast
  then have "same_transfer s d d1"
    using same_transfer_trans discovery_timeout_same [OF _ 1(1)] by (simp add: same_transfer_def)
  then have d1: "active d1 = Some s" "dm_transfer_started_at d1 = Some t0" "t0 + to_transfer (dm_timeouts d1) \<le> dm_instant d1"
    using t late by (simp_all add: same_transfer_def)
  obtain s' where s': "active (timeout_transfer d1) = Some s'" "sh_id s' = sh_id s" "sh_phase s' = Failed"
    "sh_terminal_reason s' = Some timed_out_text"
    using overdue_transfer_fails(1) [OF d1(1) s(2) d1(2,3)] by blast
  have "is_terminal (sh_phase s')" using s'(3) by (simp add: is_terminal_def)
  note k = sync_keeps_ended [OF 1(2) s'(1) this]
  show "\<exists>s'. active d' = Some s' \<and> sh_id s' = sh_id s \<and> sh_phase s' = Failed \<and> sh_terminal_reason s' = Some timed_out_text"
    using k(1) s' by blast
  show "ob_payloads (dm_outbound d') (sh_id s) = None" using k(2) overdue_transfer_fails(2) [OF d1(1) s(2) d1(2,3)] by simp
qed

subsection \<open>Guarantees\<close>

text \<open>
  C1. Along every run of the endpoint, with any requests, events, settings, clock readings and calls of
  the network worker in between, an inbound share that waits for the user or is being transferred belongs
  to the consent the endpoint holds, and it is transferred only when that very consent was accepted for
  that very share.
\<close>

theorem consent_before_transfer:
  assumes "run_daemon network watch config addresses d = Some (r, d') \<or> run_simulated watch config addresses d = Some (r, d')"
    and "active d' = Some s" "sh_direction s = Inbound" "sh_phase s = AwaitingLocalConsent \<or> sh_phase s = Transferring"
  shows "\<exists>a c. dm_pending_consent d' = Some a \<and> snd (dm_visibility d') a = Some c \<and> pc_share_id c = Some (sh_id s) \<and>
    (sh_phase s = Transferring \<longrightarrow> pc_outcome c = CAccepted (sh_id s))"
proof -
  obtain d0 where d0: "endpoint_start d0" "evolves d0 d'" using assms(1) ev.run_evolves by blast
  have "endpoint_inv d'" using endpoint.holds_reachable [OF d0] .
  then have "consented d' s" using assms(2-4) unfolding endpoint_inv_def needs_consent_def by auto
  then show ?thesis unfolding consented_def cells_def .
qed

theorem consent_before_transfer_witness:
  "\<exists>d' s a c. run_simulated [] ex_config [7, 8] (ex_daemon [Inr [1], Inr [2]]) = Some (None, d') \<and> active d' = Some s \<and>
     sh_phase s = Transferring \<and> dm_pending_consent d' = Some a \<and> snd (dm_visibility d') a = Some c \<and> pc_outcome c = CAccepted 1"
proof -
  obtain d' s where d': "run_simulated [] ex_config [7, 8] (ex_daemon [Inr [1], Inr [2]]) = Some (None, d')"
    "active d' = Some s" "sh_id s = 1" "sh_direction s = Inbound" "sh_phase s = Transferring"
    using ex_run unfolding moving_def by blast
  then show ?thesis using consent_before_transfer [OF disjI2 [OF d'(1)] d'(2,4) disjI2 [OF d'(5)]] by auto
qed

text \<open>
  For the coordinator, a run of the endpoint is a run of its own operations from its start state, so what
  is shown of the coordinator's runs holds of the endpoint.
\<close>

lemma endpoint_coordinator:
  assumes "run_daemon network watch config addresses d = Some (r, d') \<or> run_simulated watch config addresses d = Some (r, d')"
  shows "\<exists>ops. dm_sharing d' = run coord_step ops coordinator_new"
proof -
  obtain d0 where d0: "endpoint_start d0" "evolves d0 d'" using assms ev.run_evolves by blast
  obtain ops where ops: "dm_sharing d0 = run coord_step ops coordinator_new" using start_idle(4) [OF d0(1)] ..
  obtain rest where "dm_sharing d' = run coord_step rest (dm_sharing d0)" using evolves_refines [OF d0(2)] ..
  then show ?thesis using ops by (intro exI [of _ "ops @ rest"]) simp
qed

text \<open>
  C24. A live share is never displaced. Each of the things the endpoint does in its loop, looking at the
  clock, reloading the settings, handling an event of the network worker and answering a request, leaves
  the share that was live before as the active one, with its identifier and direction; no submission and no
  offer of a peer takes its place. Only a request that is answered right after the clock was found to have
  ended the share may put another in its place.
\<close>

theorem live_share_never_displaced:
  assumes "active d = Some s" "has_active_share d"
  shows "(apply_timeouts d = Some (x, d') \<longrightarrow> keeps_share d d') \<and>
    (reload_preferences d = Some (y, d') \<longrightarrow> keeps_share d d') \<and>
    (apply_network_event e d = Some d' \<longrightarrow> keeps_share d d') \<and>
    (response_for a rq d = Some (z, d') \<longrightarrow> keeps_share d d' \<or>
       (\<exists>d1 s1. apply_timeouts d = Some (Inr (), d1) \<and> active d1 = Some s1 \<and> sh_id s1 = sh_id s \<and> is_terminal (sh_phase s1)))"
  using assms response_keeps_share [OF _ assms(1)] ids.apply_timeouts_evolves ids.reload_preferences_evolves
    ids.apply_network_event_evolves by blast

theorem live_share_never_displaced_witness:
  "\<exists>d s r d'. active d = Some s \<and> sh_phase s = AwaitingLocalConsent \<and> response_for 8 (RqSubmitText None [66]) d = Some (Inr r, d') \<and>
     (\<exists>s'. active d' = Some s' \<and> sh_id s' = sh_id s \<and> sh_direction s' = sh_direction s)"
proof -
  obtain d0 where "at_rest [Inr [1], Inr [2]] d0" using ex_install by blast
  then obtain d where d: "on_offer [Inr [2]] d" using rest_round [of "[Inr [2]]" d0 "[]"] by blast
  obtain s where s: "active d = Some s" "sh_phase s = AwaitingLocalConsent" using d by (auto simp: on_offer_def)
  obtain d1 where d1: "apply_timeouts d = Some (Inr (), d1)" "on_offer [Inr [2]] d1" using offer_timeouts [OF d] by blast
  obtain s1 where s1: "active d1 = Some s1" "sh_phase s1 = AwaitingLocalConsent" using d1(2) by (auto simp: on_offer_def)
  have live: "has_active_share d" "has_active_share d1" using s s1 by (simp_all add: has_active_share_def)
  obtain r d' where r: "response_for 8 (RqSubmitText None [66]) d = Some (Inr r, d')"
    using d1(1) live(2) by (simp add: response_for_def endpoint_response_def share_response_def submit_def)
  have "\<not> is_terminal (sh_phase s1)" using s1(2) by (simp add: is_terminal_def)
  then have "keeps_share d d'" using live_share_never_displaced [OF s(1) live(1)] r d1(1) s1(1) by fastforce
  then show ?thesis using s r unfolding keeps_share_def by blast
qed

text \<open>
  C25. The next look at the clock after a transfer has used up the time it was granted when it was
  admitted ends it: the share has failed with the reason \<open>timed_out\<close> and the endpoint has let go of its
  payload, whatever discovery and the consents do at the same time.
\<close>

theorem overdue_transfer_ended:
  assumes "apply_timeouts d = Some (Inr (), d')" "active d = Some s" "sh_phase s = Transferring"
    and "dm_transfer_started_at d = Some t0" "to_transfer_share_id (dm_timeouts d) = Some (sh_id s)"
    and "t0 + to_transfer (dm_timeouts d) \<le> dm_instant d"
  shows "(\<exists>s'. active d' = Some s' \<and> sh_id s' = sh_id s \<and> sh_phase s' = Failed \<and> sh_terminal_reason s' = Some timed_out_text) \<and>
    ob_payloads (dm_outbound d') (sh_id s) = None"
  using overdue_ends [OF assms] by blast

definition ex_overdue :: daemon where
  "ex_overdue = (ex_daemon [])\<lparr>dm_sharing := snd (accept_by_peer 1 (snd (queue_outbound (AText [65])
       (snd (pin_peer [66] (observe_peer [66] [66] coordinator_new)))))),
     dm_transfer_started_at := Some 0, dm_instant := 5, dm_timeouts := \<lparr>to_discovery = 0, to_transfer = 5, to_transfer_share_id = Some 1\<rparr>\<rparr>"

lemma ex_overdue_share:
  "\<exists>s. active ex_overdue = Some s \<and> sh_id s = 1 \<and> sh_phase s = Transferring \<and> discovery_of ex_overdue = DiscoveryIdle"
  by (simp add: ex_overdue_def active_def discovery_of_def observe_peer_def pin_peer_def endpoint_pin_peer_def endpoint_observe_peer_def
      on_snapshot_def queue_outbound_def queue_outbound_with_preference_def next_id_def endpoint_pinned_peer_def endpoint_peer_def
      peer_new_def peer_set_pinned_def coordinator_new_def endpoint_idle_def accept_by_peer_def transition_def put_active_def
      endpoint_set_active_def endpoint_start_discovery_def share_defs Let_def)

lemma ex_overdue_timeouts: "\<exists>d'. apply_timeouts ex_overdue = Some (Inr (), d')"
proof -
  obtain s where s: "active ex_overdue = Some s" "sh_id s = 1" "sh_phase s = Transferring" "discovery_of ex_overdue = DiscoveryIdle"
    using ex_overdue_share by blast
  let ?d = "ex_overdue\<lparr>dm_discovery_started_at := None\<rparr>"
  have "capture_timeout_settings ex_overdue = ?d"
    using s by (simp add: capture_timeout_settings_def capture_discovery_def capture_transfer_def live_phases_def transfer_start_def
        active_def discovery_of_def) (simp add: ex_overdue_def)
  then have "timeout_discovery (capture_timeout_settings ex_overdue) = (Inr (), ?d)"
    using s(4) by (simp add: timeout_discovery_def discovery_of_def)
  moreover have "\<exists>d'. sync_visibility (timeout_transfer ?d) = Some d'"
  proof -
    have d: "active ?d = Some s" "dm_transfer_started_at ?d = Some 0" "to_transfer (dm_timeouts ?d) = 5" "dm_instant ?d = 5"
      "tick ?d = ?d" "dm_pending_consent ?d = None" "dm_others ?d = []" "dm_visibility ?d = (vis_default, \<lambda>_. None)"
      using s(1) by (simp_all add: active_def) (simp_all add: ex_overdue_def ex_daemon_def tick_def)
    obtain d2 where d2: "on_sharing (fail 1) ?d = (True, d2)" using failed_transfer [OF d(1) s(3)] s(2) by auto
    have d2_eq: "d2 = ?d\<lparr>dm_sharing := dm_sharing d2\<rparr>" using d2 by (auto simp: on_sharing_def split: prod.splits)
    have "timeout_transfer ?d = (in_outbound (outbound_finish 1) (notify Error (worker_cancel 1 (record_failure 1 timed_out_text d2))))
        \<lparr>dm_transfer_started_at := None\<rparr>" (is "_ = ?e")
      using d s d2 by (simp add: timeout_transfer_def transfer_start_def instant_now_def Let_def)
    moreover have e: "dm_pending_consent ?e = None" "dm_others ?e = []" "dm_visibility ?e = (vis_default, \<lambda>_. None)" "dm_ticks ?e = []"
      using d(6-8) by (simp_all add: in_outbound_def notify_def worker_cancel_def record_failure_def on_sharing_def split: prod.splits)
        (subst d2_eq, simp add: ex_overdue_def ex_daemon_def)+
    have "\<exists>st v w. vis_call (\<lambda>now t. status now) ?e = Some ((st, v), ?e\<lparr>dm_visibility := w\<rparr>)"
      using e by (simp add: vis_call_def interfere_def boot_now_def tick_def status_def vis_eval) blast
    then obtain st v w where "vis_call (\<lambda>now t. status now) ?e = Some ((st, v), ?e\<lparr>dm_visibility := w\<rparr>)" by blast
    then have "\<exists>d'. sync_visibility ?e = Some d'"
      using e(1) unfolding sync_visibility_def by (simp add: in_sharing_def)
    ultimately show ?thesis by simp
  qed
  ultimately show ?thesis unfolding apply_timeouts_def by auto
qed

theorem overdue_transfer_ended_witness:
  "\<exists>d' s'. apply_timeouts ex_overdue = Some (Inr (), d') \<and> active d' = Some s' \<and> sh_phase s' = Failed \<and>
     sh_terminal_reason s' = Some timed_out_text"
proof -
  obtain s where s: "active ex_overdue = Some s" "sh_id s = 1" "sh_phase s = Transferring" using ex_overdue_share by blast
  obtain d' where d': "apply_timeouts ex_overdue = Some (Inr (), d')" using ex_overdue_timeouts by blast
  have "dm_transfer_started_at ex_overdue = Some 0" "to_transfer_share_id (dm_timeouts ex_overdue) = Some (sh_id s)"
    "0 + to_transfer (dm_timeouts ex_overdue) \<le> dm_instant ex_overdue"
    using s(2) by (simp_all add: ex_overdue_def)
  then show ?thesis using overdue_transfer_ended [OF d' s(1,3)] d' by blast
qed

text \<open>
  A well-formed request with another protocol version ends the service: the loop returns an error
  and no later client is served.
\<close>

theorem unsupported_version_stops_service:
  assumes "apply_timeouts d = Some (Inr (), d1)" "reload_preferences d1 = Some (Inr (), d2)"
    and "apply_network_events d2 = Some (Inr (), d3)" "apply_timeouts d3 = Some (Inr (), d4)"
    and "dm_clients d4 = Inr bytes # cs" "fst (read_record (dm_decode d4) bytes) = Inr request"
    and "rq_version request \<noteq> PROTOCOL_VERSION"
  shows "serve_until ((False, a) # rounds) d = Some (Some (Inl IInvalidData), d4\<lparr>dm_clients := cs\<rparr>)"
  using assms by (simp add: serve_next_def)

theorem unsupported_version_stops_service_witness:
  "\<exists>d d'. at_rest [Inr [3], Inr [1]] d \<and> serve_until [(False, 7), (False, 8)] d = Some (Some (Inl IInvalidData), d') \<and>
     dm_clients d' = [Inr [1]]"
proof -
  obtain d where d: "at_rest [Inr [3], Inr [1]] d" using ex_install by blast
  obtain d1 d2 where s: "apply_timeouts d = Some (Inr (), d1)" "reload_preferences d1 = Some (Inr (), d1)"
    "apply_network_events d1 = Some (Inr (), d1)" "apply_timeouts d1 = Some (Inr (), d2)" "at_rest [Inr [3], Inr [1]] d2"
    using round_of [of at_rest, OF d rest_timeouts undisturbed_states(1) refl, of 7] by blast
  have c: "dm_clients d2 = Inr [3] # [Inr [1]]" "dm_decode d2 = ex_request"
    using undisturbed_round(3,4) [OF undisturbed_states(1) [OF s(5)]] by simp_all
  have "fst (read_record (dm_decode d2) [3]) = Inr \<lparr>rq_request = RqStatus, rq_version = 2\<rparr>"
    using c(2) ex_reads(3) by simp
  from unsupported_version_stops_service [OF s(1-4) c(1) this, of 7 "[(False, 8)]"]
  have "serve_until [(False, 7), (False, 8)] d = Some (Some (Inl IInvalidData), d2\<lparr>dm_clients := [Inr [1]]\<rparr>)"
    by (simp add: PROTOCOL_VERSION_def)
  then show ?thesis using d by auto
qed

end
