(* ===== verification/Cli_Classify.thy ===== *)
theory Cli_Classify
  imports Control_Messages Daemon_Config
begin

text \<open>
  What \<open>send\<close> makes of its argument (\<open>crates/app/src/cli/classify.rs\<close>): a local file named by a
  \<open>file:\<close> URI or by a path, an address, or text. The parameter \<open>there\<close> tells which paths are a file or a
  directory. The properties are that every path survives the way through a URI, and that an argument
  that names files is never sent as text.
\<close>

unbundle bit_operations_syntax

subsection \<open>Strings\<close>

definition starts_with :: "rstring \<Rightarrow> rstring \<Rightarrow> bool" where
  "starts_with prefix s \<longleftrightarrow> take (length prefix) s = prefix"

fun split_at :: "(byte \<Rightarrow> bool) \<Rightarrow> rstring \<Rightarrow> rstring list" where
  "split_at P [] = [[]]"
| "split_at P (b # s) =
     (if P b then [] # split_at P s
      else case split_at P s of [] \<Rightarrow> [[b]] | l # ls \<Rightarrow> (b # l) # ls)"

definition file_uri_lines :: "rstring \<Rightarrow> rstring list" where
  "file_uri_lines text =
     filter (\<lambda>line. line \<noteq> [] \<and> \<not> starts_with (ascii ''#'') line) (map trim (split_at (\<lambda>b. b = 10 \<or> b = 13) text))"

subsection \<open>Percent escapes\<close>

definition hex_digit :: "byte \<Rightarrow> io_kind + byte" where
  "hex_digit b =
     (if in_range 48 57 b then Inr (b - 48)
      else if in_range 97 102 b then Inr (b - 97 + 10)
      else if in_range 65 70 b then Inr (b - 65 + 10)
      else Inl IInvalidInput)"

fun percent_decode :: "bytes \<Rightarrow> io_kind + bytes" where
  "percent_decode [] = Inr []"
| "percent_decode (b # s) =
     (if b = 37 then
        (case s of
           high # low # r \<Rightarrow>
             (case (hex_digit high, hex_digit low) of
                (Inr h, Inr l) \<Rightarrow> map_sum id (Cons (push_bit 4 h OR l)) (percent_decode r)
              | _ \<Rightarrow> Inl IInvalidInput)
         | _ \<Rightarrow> Inl IInvalidInput)
      else map_sum id (Cons b) (percent_decode s))"

definition percent_decode_utf8 :: "rstring \<Rightarrow> io_kind + rstring" where
  "percent_decode_utf8 input =
     (case percent_decode input of
        Inl e \<Rightarrow> Inl e
      | Inr decoded \<Rightarrow>
          if 0 \<in> set decoded then Inl IInvalidInput
          else (case from_utf8 decoded of None \<Rightarrow> Inl IInvalidInput | Some s \<Rightarrow> Inr s))"

subsection \<open>File URIs\<close>

definition ascii_lowercase :: "byte \<Rightarrow> byte" where
  "ascii_lowercase b = (if in_range 65 90 b then b + 32 else b)"

definition eq_ignore_ascii_case :: "rstring \<Rightarrow> rstring \<Rightarrow> bool" where
  "eq_ignore_ascii_case s t \<longleftrightarrow> map ascii_lowercase s = map ascii_lowercase t"

text \<open>The path part of a URI, still escaped, once the host is known to be this one.\<close>

definition local_path :: "rstring \<Rightarrow> io_kind + rstring" where
  "local_path rest =
     (case strip_prefix (ascii ''//'') rest of
        Some r \<Rightarrow>
          if starts_with (ascii ''/'') r then Inr r
          else if 47 \<notin> set r then Inl IInvalidInput
          else
            (case percent_decode_utf8 (takeWhile (\<lambda>b. b \<noteq> 47) r) of
               Inl e \<Rightarrow> Inl e
             | Inr host \<Rightarrow>
                 if host \<noteq> [] \<and> \<not> eq_ignore_ascii_case host (ascii ''localhost'') then Inl IInvalidInput
                 else Inr (dropWhile (\<lambda>b. b \<noteq> 47) r))
      | None \<Rightarrow> if starts_with (ascii ''/'') rest then Inr rest else Inl IInvalidInput)"

definition decode_local_file_uri :: "rstring \<Rightarrow> io_kind + rstring" where
  "decode_local_file_uri uri =
     (case strip_prefix (ascii ''file:'') uri of
        None \<Rightarrow> Inl IInvalidInput
      | Some rest \<Rightarrow>
          (case local_path rest of
             Inl e \<Rightarrow> Inl e
           | Inr path \<Rightarrow>
               if 63 \<in> set path \<or> 35 \<in> set path then Inl IInvalidInput
               else
                 (case percent_decode_utf8 path of
                    Inl e \<Rightarrow> Inl e
                  | Inr path \<Rightarrow> if starts_with (ascii ''/'') path then Inr path else Inl IInvalidInput)))"

definition file_uri_path :: "rstring \<Rightarrow> io_kind + rstring option" where
  "file_uri_path text =
     (let lines = file_uri_lines text
      in if \<not> list_ex (starts_with (ascii ''file:'')) lines then Inr None
         else (case lines of [uri] \<Rightarrow> map_sum id Some (decode_local_file_uri uri) | _ \<Rightarrow> Inl IInvalidInput))"

subsection \<open>Classification\<close>

definition file_request :: "rstring \<Rightarrow> rstring option \<Rightarrow> request_envelope" where
  "file_request path peer_id = (case peer_id of None \<Rightarrow> submit_file path | Some p \<Rightarrow> submit_file_to_peer path p)"

definition text_request :: "rstring \<Rightarrow> rstring option \<Rightarrow> request_envelope" where
  "text_request text peer_id = (case peer_id of None \<Rightarrow> submit_text text | Some p \<Rightarrow> submit_text_to_peer text p)"

definition url_request :: "rstring \<Rightarrow> rstring option \<Rightarrow> request_envelope" where
  "url_request url peer_id = (case peer_id of None \<Rightarrow> submit_url url | Some p \<Rightarrow> submit_url_to_peer url p)"

definition classified_request ::
  "(rstring \<Rightarrow> bool) \<Rightarrow> rstring \<Rightarrow> rstring option \<Rightarrow> rstring option \<Rightarrow> io_kind + request_envelope" where
  "classified_request there content current_directory peer_id =
     (case file_uri_path content of
        Inl e \<Rightarrow> Inl e
      | Inr (Some path) \<Rightarrow> if there path then Inr (file_request path peer_id) else Inl IInvalidInput
      | Inr None \<Rightarrow>
          (case (case current_directory of None \<Rightarrow> None
                 | Some directory \<Rightarrow> (let path = path_join directory content in if there path then Some path else None)) of
             Some path \<Rightarrow> Inr (file_request path peer_id)
           | None \<Rightarrow>
               if starts_with (ascii ''http://'') content \<or> starts_with (ascii ''https://'') content
               then Inr (url_request content peer_id)
               else Inr (text_request content peer_id)))"

definition send_request :: "(rstring \<Rightarrow> bool) \<Rightarrow> rstring \<Rightarrow> rstring option \<Rightarrow> io_kind + request_envelope" where
  "send_request there content current_directory = classified_request there content current_directory None"

definition send_request_for_peer ::
  "(rstring \<Rightarrow> bool) \<Rightarrow> rstring \<Rightarrow> rstring option \<Rightarrow> rstring \<Rightarrow> io_kind + request_envelope" where
  "send_request_for_peer there content current_directory peer_id =
     classified_request there content current_directory (Some peer_id)"

subsection \<open>Spellings of a path\<close>

text \<open>
  How a program may write a path into a URI (RFC 3986): every byte stands for itself when it is a graphic
  ASCII character other than \<open>%\<close>, \<open>?\<close> and \<open>#\<close>, and any byte may be written as \<open>%\<close> and two hexadecimal digits,
  each of them in upper or in lower case.
\<close>

definition hex_char :: "bool \<Rightarrow> byte \<Rightarrow> byte" where
  "hex_char upper d = (if d < 10 then 48 + d else if upper then 55 + d else 87 + d)"

inductive spells :: "rstring \<Rightarrow> rstring \<Rightarrow> bool" where
  empty: "spells [] []"
| plain: "spells s path \<Longrightarrow> in_range 33 126 b \<Longrightarrow> b \<noteq> 35 \<Longrightarrow> b \<noteq> 37 \<Longrightarrow> b \<noteq> 63 \<Longrightarrow> spells (b # s) (b # path)"
| escaped: "spells s path \<Longrightarrow>
     spells (37 # hex_char u (drop_bit 4 b) # hex_char v (b AND 15) # s) (b # path)"

inductive_cases spells_ConsE: "spells (b # s) path"

lemma nibbles: "(b :: byte) AND 15 < 16" "drop_bit 4 (b :: byte) < 16" "push_bit 4 (drop_bit 4 b) OR (b AND 15) = (b :: byte)"
proof -
  have m: "b AND 15 = take_bit 4 b" using take_bit_eq_mask [of 4 b] by (simp add: mask_eq_exp_minus_1)
  have u: "unat b < 256" using unsigned_less [of b] by simp
  have "unat (take_bit 4 b) = take_bit 4 (unat b)" by (rule unsigned_take_bit_eq)
  moreover have "unat (drop_bit 4 b) = drop_bit 4 (unat b)" by (rule unat_drop_bit_eq)
  ultimately have "unat (take_bit 4 b) < 16" "unat (drop_bit 4 b) < 16"
    using u by (simp_all add: take_bit_eq_mod drop_bit_eq_div)
  then show "b AND 15 < 16" "drop_bit 4 b < 16" by (simp_all add: m word_less_nat_alt)
  show "push_bit 4 (drop_bit 4 b) OR (b AND 15) = b" 
    unfolding m by (rule bit_eqI) (auto simp: bit_simps)
qed

lemma hex_char_digit:
  assumes "d < 16"
  shows "hex_digit (hex_char u d) = Inr d" "in_range 48 102 (hex_char u d)" "hex_char u d \<noteq> 63"
proof -
  have "unat d < 16" using assms by (simp add: word_less_nat_alt)
  then have "unat d = 0 \<or> unat d = 1 \<or> unat d = 2 \<or> unat d = 3 \<or> unat d = 4 \<or> unat d = 5 \<or> unat d = 6 \<or> unat d = 7 \<or>
      unat d = 8 \<or> unat d = 9 \<or> unat d = 10 \<or> unat d = 11 \<or> unat d = 12 \<or> unat d = 13 \<or> unat d = 14 \<or> unat d = 15"
    by presburger
  then consider "d = 0" | "d = 1" | "d = 2" | "d = 3" | "d = 4" | "d = 5" | "d = 6" | "d = 7" | "d = 8" | "d = 9"
    | "d = 10" | "d = 11" | "d = 12" | "d = 13" | "d = 14" | "d = 15"
    by (elim disjE) (simp_all add: word_unat_eq_iff)
  then show "hex_digit (hex_char u d) = Inr d" "in_range 48 102 (hex_char u d)" "hex_char u d \<noteq> 63"
    by (cases; simp add: hex_char_def hex_digit_def in_range_def)+
qed

lemmas hex_byte = hex_char_digit [OF nibbles(1)] hex_char_digit [OF nibbles(2)]

lemma spells_decode: "spells s path \<Longrightarrow> percent_decode s = Inr path"
proof (induction rule: spells.induct)
  case (escaped s path u b v)
  then show ?case by (simp add: hex_byte nibbles)
qed simp_all

lemma spelled_bytes:
  assumes "spells s path" "b \<in> set s"
  shows "in_range 33 126 b" "b \<noteq> 35" "b \<noteq> 63"
proof -
  have "list_all (\<lambda>b. in_range 33 126 b \<and> b \<noteq> 35 \<and> b \<noteq> 63) s"
    using assms(1)
  proof (induction rule: spells.induct)
    case (escaped s path u b v)
    then show ?case
      using hex_byte(2,3) [of v b] hex_byte(5,6) [of u b] by (auto simp: in_range_def)
  qed simp_all
  then show "in_range 33 126 b" "b \<noteq> 35" "b \<noteq> 63" using assms(2) by (auto simp: list_all_iff)
qed

lemma spelled_slash: "spells (47 # s) path \<Longrightarrow> \<exists>p. path = 47 # p"
  by (erule spells_ConsE) auto

lemma split_at_none: "\<forall>b \<in> set s. \<not> P b \<Longrightarrow> split_at P s = [s]"
  by (induction s) auto

lemma trim_plain:
  assumes "s \<noteq> []" "in_range 33 126 (hd s)" "in_range 33 126 (last s)"
  shows "trim s = s"
proof -
  have front: "leading ws t = 0" if "t \<noteq> []" "\<forall>w \<in> set ws. w \<noteq> [] \<longrightarrow> hd w \<noteq> hd t" for ws and t :: rstring
  proof -
    have "take (length w) t \<noteq> w" if "w \<in> set ws" "w \<noteq> []" for w
    proof
      assume "take (length w) t = w"
      then have "hd w = hd t" using that(2) by (metis hd_take length_greater_0_conv)
      then show False using that \<open>\<forall>w \<in> set ws. w \<noteq> [] \<longrightarrow> hd w \<noteq> hd t\<close> by blast
    qed
    then have "filter (\<lambda>w. w \<noteq> [] \<and> take (length w) t = w) ws = []" unfolding filter_empty_conv by blast
    then show ?thesis by (simp add: leading_def)
  qed
  have "leading white_space s = 0"
    using assms by (intro front) (auto simp: white_space_def in_range_def)
  then have f: "trim_front white_space s = s" by (rule trim_front_fixed)
  have "leading (map rev white_space) (rev s) = 0"
    using assms by (intro front) (auto simp: white_space_def in_range_def hd_rev)
  then have "trim_front (map rev white_space) (rev s) = rev s" by (rule trim_front_fixed)
  then show ?thesis by (simp add: trim_def f)
qed

subsection \<open>Paths through a URI\<close>

text \<open>
  The beginnings of a URI that name this host: \<open>file://\<close>, \<open>file:\<close> before a path without a second slash, and
  \<open>file://\<close> with \<open>localhost\<close>, in any case and spelling.
\<close>

definition local_prefix :: "rstring \<Rightarrow> rstring \<Rightarrow> bool" where
  "local_prefix prefix s \<longleftrightarrow> prefix = ascii ''file://'' \<or>
     prefix = ascii ''file:'' \<and> \<not> starts_with (ascii ''//'') s \<or>
     (\<exists>h host. prefix = ascii ''file://'' @ h \<and> spells h host \<and> map ascii_lowercase host = ascii ''localhost'')"

lemma lowercase_letter:
  assumes "ascii_lowercase b \<in> set (ascii ''localhost'')"
  shows "b \<noteq> 47" "b \<noteq> 0" "b < 128"
  using assms by (auto simp: ascii_lowercase_def ascii_def in_range_def word_less_nat_alt split: if_splits)

lemma letters_utf8: "list_all (\<lambda>b. b < 128) host \<Longrightarrow> utf8_valid host"
  by (induction host) (simp_all add: word_less_nat_alt word_le_nat_alt in_range_def)

lemma local_host:
  assumes "spells h host" "map ascii_lowercase host = ascii ''localhost''"
  shows "percent_decode_utf8 h = Inr host" "47 \<notin> set h" "h \<noteq> []" "hd h \<noteq> 47"
    "host \<noteq> []" "eq_ignore_ascii_case host (ascii ''localhost'')"
proof -
  have letter: "b \<noteq> 47 \<and> b \<noteq> 0 \<and> b < 128" if "b \<in> set host" for b
  proof -
    have "ascii_lowercase b \<in> set (ascii ''localhost'')"
      using that unfolding assms(2) [symmetric] by simp
    then show ?thesis using lowercase_letter by blast
  qed
  have "utf8_valid host" by (rule letters_utf8) (simp add: list_all_iff letter)
  moreover have "0 \<notin> set host" using letter by blast
  ultimately show "percent_decode_utf8 h = Inr host"
    using spells_decode [OF assms(1)] by (simp add: percent_decode_utf8_def from_utf8_def)
  show "47 \<notin> set h" using assms(1) letter
  proof (induction rule: spells.induct)
    case (escaped s path u b v)
    then show ?case
      using hex_byte(2,3) [of v b] hex_byte(5,6) [of u b] by (auto simp: in_range_def)
  qed auto
  show ne: "host \<noteq> []" using assms(2) by (auto simp: ascii_def)
  show "h \<noteq> []" using spells_decode [OF assms(1)] ne by auto
  then show "hd h \<noteq> 47" using \<open>47 \<notin> set h\<close> by (cases h) auto
  show "eq_ignore_ascii_case host (ascii ''localhost'')"
    using assms(2) by (simp add: eq_ignore_ascii_case_def ascii_def ascii_lowercase_def in_range_def)
qed

lemma local_prefix_path:
  assumes "local_prefix prefix s" "s = 47 # t"
  shows "\<exists>rest. prefix @ s = ascii ''file:'' @ rest \<and> local_path rest = Inr s"
  using assms(1) unfolding local_prefix_def
proof (elim disjE conjE exE)
  assume "prefix = ascii ''file://''"
  then show ?thesis
    using assms(2) by (intro exI [of _ "ascii ''//'' @ s"]) (simp add: local_path_def strip_prefix_def starts_with_def ascii_def)
next
  assume p: "prefix = ascii ''file:''" "\<not> starts_with (ascii ''//'') s"
  then have "strip_prefix (ascii ''//'') s = None" by (auto simp: strip_prefix_def starts_with_def)
  then show ?thesis
    using p assms(2) by (intro exI [of _ s]) (simp add: local_path_def starts_with_def ascii_def)
next
  fix h host
  assume p: "prefix = ascii ''file://'' @ h" "spells h host" "map ascii_lowercase host = ascii ''localhost''"
  note l = local_host [OF p(2,3)]
  have host: "takeWhile (\<lambda>b. b \<noteq> 47) (h @ s) = h" "dropWhile (\<lambda>b. b \<noteq> 47) (h @ s) = s"
    using l(2) assms(2) by (simp_all add: takeWhile_append dropWhile_append3) (auto simp: takeWhile_append2 dropWhile_append2)
  have "local_path (ascii ''//'' @ h @ s) = Inr s"
    using l host assms(2) by (cases h) (simp_all add: local_path_def strip_prefix_def starts_with_def ascii_def)
  then show ?thesis using p(1) by (intro exI [of _ "ascii ''//'' @ h @ s"]) (simp add: ascii_def)
qed

lemma prefix_bytes:
  assumes "local_prefix prefix s"
  shows "b \<in> set prefix \<Longrightarrow> in_range 33 126 b" "take 5 prefix = ascii ''file:''"
  using assms spelled_bytes(1) by (auto simp: local_prefix_def ascii_def in_range_def)

lemma uri_is_one_line:
  assumes "local_prefix prefix s" "spells s path"
  shows "file_uri_lines (prefix @ s) = [prefix @ s]" "starts_with (ascii ''file:'') (prefix @ s)"
proof -
  let ?u = "prefix @ s"
  have graphic: "in_range 33 126 b" if "b \<in> set ?u" for b
    using that prefix_bytes(1) [OF assms(1)] spelled_bytes(1) [OF assms(2)] by auto
  obtain r where r: "?u = ascii ''file:'' @ r"
    using prefix_bytes(2) [OF assms(1)] by (metis append_assoc append_take_drop_id)
  then have ne: "?u \<noteq> []" by (simp add: ascii_def)
  have "split_at (\<lambda>b. b = 10 \<or> b = 13) ?u = [?u]"
    using graphic [of 10] graphic [of 13] by (intro split_at_none) (auto simp: in_range_def)
  moreover have "trim ?u = ?u"
    by (rule trim_plain [OF ne graphic [OF hd_in_set [OF ne]] graphic [OF last_in_set [OF ne]]])
  moreover have "\<not> starts_with (ascii ''#'') ?u" unfolding r by (simp add: starts_with_def ascii_def)
  ultimately show "file_uri_lines ?u = [?u]" using ne by (simp add: file_uri_lines_def)
  show "starts_with (ascii ''file:'') ?u" unfolding r by (simp add: starts_with_def ascii_def)
qed

lemma decode_file_uri:
  assumes "local_prefix prefix s" "spells s path" "s = 47 # t" "utf8_valid path" "0 \<notin> set path"
  shows "decode_local_file_uri (prefix @ s) = Inr path"
proof -
  obtain rest where rest: "prefix @ s = ascii ''file:'' @ rest" "local_path rest = Inr s"
    using local_prefix_path [OF assms(1,3)] by blast
  have "strip_prefix (ascii ''file:'') (prefix @ s) = Some rest"
    unfolding rest(1) by (simp add: strip_prefix_def ascii_def)
  moreover have "63 \<notin> set s" "35 \<notin> set s" using spelled_bytes(2,3) [OF assms(2)] by blast+
  moreover have "percent_decode_utf8 s = Inr path"
    using assms(4,5) spells_decode [OF assms(2)] by (simp add: percent_decode_utf8_def from_utf8_def)
  moreover have "starts_with (ascii ''/'') path"
    using spelled_slash [of t path] assms(2,3) by (auto simp: starts_with_def ascii_def)
  ultimately show ?thesis using rest(2) by (simp add: decode_local_file_uri_def)
qed

lemma file_uri_found:
  assumes "local_prefix prefix s" "spells s path" "s = 47 # t" "utf8_valid path" "0 \<notin> set path"
  shows "file_uri_path (prefix @ s) = Inr (Some path)"
  using uri_is_one_line [OF assms(1,2)] decode_file_uri [OF assms] by (simp add: file_uri_path_def)

text \<open>
  C37. A \<open>file:\<close> URI of this host names its file: every existing absolute path that is valid UTF-8 without a
  NUL is submitted as exactly that path, in any directory and to any peer, whichever of the accepted forms
  the URI has (\<open>file:/\<close>, \<open>file:///\<close> or \<open>file://localhost/\<close>, the host in any case and spelling) and
  whichever bytes of the path, but the first slash, are written as escapes, with upper or lower case digits.
\<close>

theorem file_uri_submits_path:
  assumes "local_prefix prefix s" "spells s path" "starts_with (ascii ''/'') s" "utf8_valid path" "0 \<notin> set path" "there path"
  shows "classified_request there (prefix @ s) current_directory peer_id = Inr (submit_file_for path peer_id)"
proof -
  obtain t where "s = 47 # t" using assms(3) by (cases s) (auto simp: starts_with_def ascii_def)
  from file_uri_found [OF assms(1,2) this assms(4,5)] show ?thesis
    using assms(6) by (simp add: classified_request_def file_request_def submit_file_def submit_file_to_peer_def split: option.splits)
qed

text \<open>The path \<open>/a b/\<close> after \<open>file://localHost\<close>, with a lower-case escape, an escaped slash and an escaped host.\<close>

lemma ex_spelled:
  "spells (ascii ''/a%20b%2f'') [47, 97, 32, 98, 47]" "spells (ascii ''%6cocalHost'') (ascii ''localHost'')"
proof -
  have esc: "spells (37 # x # y # s) (b # p)"
    if "spells s p" "x = hex_char u (drop_bit 4 b)" "y = hex_char v (b AND 15)" for s p x y b u v
    using that escaped by blast
  have "spells (ascii ''%2f'') [47]"
    by (simp add: ascii_def, rule esc [where u = True and v = False, OF empty]) code_simp+
  then have "spells (ascii ''b%2f'') [98, 47]" using plain [of "ascii ''%2f''" "[47]" 98] by (simp add: ascii_def in_range_def)
  then have "spells (ascii ''%20b%2f'') [32, 98, 47]"
    by (simp add: ascii_def, intro esc [where u = True and v = False]) (assumption | code_simp)+
  then show "spells (ascii ''/a%20b%2f'') [47, 97, 32, 98, 47]"
    by (simp add: ascii_def in_range_def plain)
  have "spells (ascii ''ocalHost'') (ascii ''ocalHost'')" by (simp add: ascii_def in_range_def plain empty)
  then show "spells (ascii ''%6cocalHost'') (ascii ''localHost'')"
    by (simp add: ascii_def, intro esc [where u = True and v = False]) (assumption | code_simp)+
qed

theorem file_uri_submits_path_witness:
  "classified_request (\<lambda>p. p = [47, 97, 32, 98, 47]) (ascii ''file://%6cocalHost/a%20b%2f'') None None =
     Inr (submit_file_for [47, 97, 32, 98, 47] None)"
proof -
  have low: "map ascii_lowercase (ascii ''localHost'') = ascii ''localhost''" by code_simp
  have "local_prefix (ascii ''file://%6cocalHost'') (ascii ''/a%20b%2f'')"
    unfolding local_prefix_def using ex_spelled(2) low
    by (intro disjI2 exI [of _ "ascii ''%6cocalHost''"] exI [of _ "ascii ''localHost''"]) (simp add: ascii_def)
  moreover have "starts_with (ascii ''/'') (ascii ''/a%20b%2f'')" "utf8_valid [47, 97, 32, 98, 47]"
    by (simp_all add: in_range_def starts_with_def ascii_def)
  ultimately have "classified_request (\<lambda>p. p = [47, 97, 32, 98, 47]) (ascii ''file://%6cocalHost'' @ ascii ''/a%20b%2f'') None None =
      Inr (submit_file_for [47, 97, 32, 98, 47] None)"
    using file_uri_submits_path ex_spelled(1) by simp
  then show ?thesis by (simp add: ascii_def)
qed

subsection \<open>Nothing but the named file\<close>

lemma decoded_path:
  assumes "decode_local_file_uri uri = Inr path"
  shows "starts_with (ascii ''/'') path" "utf8_valid path" "0 \<notin> set path"
  using assms by (auto simp: decode_local_file_uri_def percent_decode_utf8_def from_utf8_def split: option.splits sum.splits if_splits)

definition input_error :: "io_kind + 'a \<Rightarrow> bool" where
  "input_error r \<longleftrightarrow> (\<forall>e. r = Inl e \<longrightarrow> e = IInvalidInput)"

lemma input_error_simps [simp]: "input_error (Inr x)" "input_error (Inl IInvalidInput)" "input_error (map_sum id f r) = input_error r"
  by (cases r; simp add: input_error_def)+

lemma percent_decode_error: "input_error (percent_decode s)"
proof (induction s rule: percent_decode.induct)
  case (2 b s)
  show ?case
  proof (cases "b = 37")
    case False
    then show ?thesis using 2 by simp
  next
    case True
    show ?thesis
    proof (cases "\<exists>h l r x y. s = h # l # r \<and> hex_digit h = Inr x \<and> hex_digit l = Inr y")
      case hex: True
      then show ?thesis using 2 True by auto
    next
      case False
      then have "percent_decode (b # s) = Inl IInvalidInput" using True by (auto split: list.splits sum.splits)
      then show ?thesis by simp
    qed
  qed
qed simp

lemma decode_error: "input_error (decode_local_file_uri uri)"
proof -
  have pct8: "input_error (percent_decode_utf8 s)" for s
    using percent_decode_error [of s] by (auto simp: percent_decode_utf8_def input_error_def split: sum.splits option.splits)
  have lp: "input_error (local_path s)" for s
    using pct8 by (auto simp: local_path_def input_error_def split: option.splits sum.splits)
  show ?thesis
  proof (cases "strip_prefix (ascii ''file:'') uri")
    case None
    then show ?thesis by (simp add: decode_local_file_uri_def)
  next
    case (Some rest)
    then show ?thesis
      using lp [of rest] pct8
      by (cases "local_path rest") (auto simp: decode_local_file_uri_def input_error_def split: sum.splits)
  qed
qed

definition names_file :: "rstring \<Rightarrow> bool" where
  "names_file content \<longleftrightarrow> list_ex (starts_with (ascii ''file:'')) (file_uri_lines content)"

lemma named_file_cases:
  assumes "names_file content"
  shows "file_uri_path content = Inl IInvalidInput \<or>
    (\<exists>path. file_uri_path content = Inr (Some path) \<and> starts_with (ascii ''/'') path \<and> utf8_valid path \<and> 0 \<notin> set path)"
proof (cases "\<exists>uri path. file_uri_lines content = [uri] \<and> decode_local_file_uri uri = Inr path")
  case True
  then obtain uri path where "file_uri_lines content = [uri]" "decode_local_file_uri uri = Inr path" by blast
  then show ?thesis
    using assms decoded_path [of uri path] by (intro disjI2 exI [of _ path]) (simp add: file_uri_path_def names_file_def)
next
  case False
  have "file_uri_path content = Inl IInvalidInput"
  proof (cases "\<exists>uri. file_uri_lines content = [uri]")
    case True
    then obtain uri e where "file_uri_lines content = [uri]" "decode_local_file_uri uri = Inl e"
      using False by (metis sum.exhaust)
    then show ?thesis using assms decode_error [of uri] by (simp add: file_uri_path_def names_file_def input_error_def)
  next
    case False
    then show ?thesis using assms by (auto simp: file_uri_path_def names_file_def split: list.splits)
  qed
  then show ?thesis ..
qed

text \<open>
  An argument in which some line is a \<open>file:\<close> URI is never sent as text or as an address: it is
  refused, or it is submitted as one existing file with an absolute, valid and NUL-free path. Any other
  argument given as clipboard content is sent verbatim and never taken for a path.
\<close>

theorem file_lists_never_sent_as_text:
  "(names_file content \<longrightarrow>
      classified_request there content current_directory peer_id = Inl IInvalidInput \<or>
      (\<exists>path. classified_request there content current_directory peer_id = Inr (submit_file_for path peer_id) \<and>
         there path \<and> starts_with (ascii ''/'') path \<and> utf8_valid path \<and> 0 \<notin> set path)) \<and>
   (\<not> names_file content \<longrightarrow>
      classified_request there content None peer_id =
        (if starts_with (ascii ''http://'') content \<or> starts_with (ascii ''https://'') content
         then Inr (submit_url_for content peer_id) else Inr (submit_text_for content peer_id)))"
proof (intro conjI impI)
  assume "names_file content"
  then show "classified_request there content current_directory peer_id = Inl IInvalidInput \<or>
      (\<exists>path. classified_request there content current_directory peer_id = Inr (submit_file_for path peer_id) \<and>
         there path \<and> starts_with (ascii ''/'') path \<and> utf8_valid path \<and> 0 \<notin> set path)"
    using named_file_cases [of content]
    by (cases peer_id) (auto simp: classified_request_def file_request_def submit_file_def submit_file_to_peer_def)
next
  assume "\<not> names_file content"
  then have "file_uri_path content = Inr None" by (simp add: names_file_def file_uri_path_def)
  then show "classified_request there content None peer_id =
        (if starts_with (ascii ''http://'') content \<or> starts_with (ascii ''https://'') content
         then Inr (submit_url_for content peer_id) else Inr (submit_text_for content peer_id))"
    by (cases peer_id) (simp_all add: classified_request_def url_request_def text_request_def submit_url_def submit_url_to_peer_def
        submit_text_def submit_text_to_peer_def)
qed

theorem file_lists_never_sent_as_text_witness:
  "names_file (ascii ''file:///a'') \<and> \<not> names_file (ascii ''ab'') \<and>
   classified_request (\<lambda>_. True) (ascii ''ab'') None None = Inr (submit_text_for (ascii ''ab'') None)"
proof -
  have n: "names_file (ascii ''file:///a'')" "\<not> names_file (ascii ''ab'')" by code_simp+
  then show ?thesis
    using file_lists_never_sent_as_text [of "ascii ''ab''" "\<lambda>_. True" None None] by (simp add: starts_with_def ascii_def)
qed

end
