(* ===== verification/Cli_Dispatch.thy ===== *)
theory Cli_Dispatch
  imports Cli_Classify Daemon_Example
begin

text \<open>
  The command line of the program: its commands (\<open>cli/args.rs\<close>), the requests they become and what is
  printed of the answers (\<open>cli/dispatch.rs\<close>, \<open>cli/visibility.rs\<close>). Errors are their kinds; output is the
  text written, and the standard output takes all of it. The argument parser (crate \<open>clap\<close>), JSON and TOML
  are parameters, and so is what the endpoint sends back for the bytes it was sent.
\<close>

subsection \<open>Commands\<close>

datatype discover_action = DiscoverStart | DiscoverStop
datatype visibility_action = VisibilityOpen | VisibilityClose
datatype peer_command = PeerPin rstring | PeerUnpin
datatype share_command = ShareSelect nat rstring | ShareAccept nat | ShareReject nat | ShareCancel nat | ShareDismiss nat
datatype config_command = ConfigShow | ConfigSet rstring rstring
datatype log_level = LogError | LogWarn | LogInfo | LogDebug | LogTrace
datatype simulate_command =
    SimDiscoveryTimeout | SimFail nat | SimIncomingFile rstring nat | SimIncomingText rstring | SimIncomingUrl rstring
  | SimPeerAccept nat | SimPeerLost rstring | SimPeerReject nat | SimPeerSeen rstring rstring | SimComplete nat
  | SimProgress nat nat

text \<open>\<open>Send\<close> has the peer, whether the content is clipboard content, and the content.\<close>

datatype command =
    CmdSend "rstring option" bool rstring | CmdStatus bool | CmdHealth | CmdProtocolVersion
  | CmdDiscover discover_action | CmdVisibility visibility_action | CmdPeer peer_command | CmdShare share_command
  | CmdConfig config_command | CmdDaemon bool log_level | CmdSimulate simulate_command

definition log_level_name :: "log_level \<Rightarrow> rstring" where
  "log_level_name l =
     (case l of LogDebug \<Rightarrow> ascii ''debug'' | LogError \<Rightarrow> ascii ''error'' | LogInfo \<Rightarrow> ascii ''info''
      | LogTrace \<Rightarrow> ascii ''trace'' | LogWarn \<Rightarrow> ascii ''warn'')"

text \<open>A failure of the argument parser: is it an unknown subcommand, is it for stderr, and its text.\<close>

record clap_error =
  ce_invalid_subcommand :: bool
  ce_use_stderr :: bool
  ce_text :: rstring

definition program_name :: rstring where "program_name = ascii ''omarchy-quickshare''"

definition parse_arguments :: "(rstring list \<Rightarrow> clap_error + command) \<Rightarrow> rstring list \<Rightarrow> clap_error + command" where
  "parse_arguments try_parse arguments =
     (case try_parse (program_name # arguments) of
        Inl e \<Rightarrow>
          if ce_invalid_subcommand e \<and> length arguments = 1
          then try_parse ([program_name, ascii ''send''] @ arguments) else Inl e
      | Inr command \<Rightarrow> Inr command)"

definition clap_result :: "clap_error \<Rightarrow> io_kind + rstring" where
  "clap_result e = (if ce_use_stderr e then Inl IInvalidInput else Inr (ce_text e))"

subsection \<open>Requests\<close>

definition discover_request :: "discover_action \<Rightarrow> request_envelope" where
  "discover_request action = (case action of DiscoverStart \<Rightarrow> request_discover | DiscoverStop \<Rightarrow> request_stop_discovery)"

definition peer_request :: "peer_command \<Rightarrow> request_envelope" where
  "peer_request action = (case action of PeerPin peer_id \<Rightarrow> request_pin_peer peer_id | PeerUnpin \<Rightarrow> request_unpin_peer)"

definition share_request :: "share_command \<Rightarrow> request_envelope" where
  "share_request action =
     (case action of
        ShareAccept share_id \<Rightarrow> request_accept share_id
      | ShareCancel share_id \<Rightarrow> request_cancel share_id
      | ShareDismiss share_id \<Rightarrow> request_dismiss share_id
      | ShareReject share_id \<Rightarrow> request_reject share_id
      | ShareSelect share_id peer_id \<Rightarrow> request_select_peer share_id peer_id)"

definition visibility_request :: "visibility_action \<Rightarrow> request_envelope" where
  "visibility_request action =
     (case action of VisibilityClose \<Rightarrow> request_close_visibility | VisibilityOpen \<Rightarrow> request_open_visibility)"

definition simulate_request :: "bool \<Rightarrow> simulate_command \<Rightarrow> io_kind + request_envelope" where
  "simulate_request permitted action =
     (if \<not> permitted then Inl IPermissionDenied
      else Inr (case action of
          SimDiscoveryTimeout \<Rightarrow> simulate_discovery_timeout
        | SimFail share_id \<Rightarrow> simulate_fail share_id
        | SimIncomingFile name declared \<Rightarrow> simulate_incoming_file name declared
        | SimIncomingText text \<Rightarrow> simulate_incoming_text text
        | SimIncomingUrl url \<Rightarrow> simulate_incoming_url url
        | SimPeerAccept share_id \<Rightarrow> simulate_peer_accept share_id
        | SimPeerLost peer_id \<Rightarrow> simulate_peer_lost peer_id
        | SimPeerReject share_id \<Rightarrow> simulate_peer_reject share_id
        | SimPeerSeen peer_id name \<Rightarrow> simulate_peer_seen peer_id name
        | SimComplete share_id \<Rightarrow> simulate_complete share_id
        | SimProgress share_id transferred \<Rightarrow> simulate_progress share_id transferred))"

subsection \<open>The exchange\<close>

record cli_world =
  cw_connect :: "io_kind option"
  cw_write_all :: "bytes \<Rightarrow> bytes \<Rightarrow> (io_kind + unit) \<times> bytes"
  cw_answer :: "bytes \<Rightarrow> bytes"
  cw_encode :: "request_envelope \<Rightarrow> bytes option"
  cw_decode :: "bytes \<Rightarrow> response_envelope option"
  cw_render :: "response_envelope \<Rightarrow> bytes option"
  cw_there :: "rstring \<Rightarrow> bool"
  cw_simulation :: bool
  cw_files :: config_files
  cw_environment :: environment
  cw_parse :: "bytes \<Rightarrow> document option"
  cw_print :: "document \<Rightarrow> bytes"

definition exchange_stream :: "cli_world \<Rightarrow> request_envelope \<Rightarrow> io_kind + response_envelope" where
  "exchange_stream w request =
     (case write_record (cw_encode w) (cw_write_all w) request [] of
        (Inl e, _) \<Rightarrow> Inl e
      | (Inr _, sent) \<Rightarrow>
          (case fst (read_record (cw_decode w) (cw_answer w sent)) of
             Inl e \<Rightarrow> Inl e
           | Inr response \<Rightarrow> if rs_version response \<noteq> PROTOCOL_VERSION then Inl IInvalidData else Inr response))"

definition exchange_request :: "cli_world \<Rightarrow> request_envelope \<Rightarrow> io_kind + response_envelope" where
  "exchange_request w request = (case cw_connect w of Some e \<Rightarrow> Inl e | None \<Rightarrow> exchange_stream w request)"

subsection \<open>Output\<close>

definition line :: "rstring \<Rightarrow> rstring" where "line s = s @ [10]"

definition write_action :: "control_response \<Rightarrow> io_kind + rstring" where
  "write_action response =
     (case response of
        RsApplied \<Rightarrow> Inr (line (ascii ''Action applied.''))
      | RsPreferences p \<Rightarrow>
          (case ps_error p of
             Some _ \<Rightarrow> Inl IOther
           | None \<Rightarrow>
               Inr (line (if ps_pending p then ascii ''Preferences saved; activation pending.''
                          else ascii ''Preferences saved and applied.'')))
      | RsCancelled \<Rightarrow> Inr (line (ascii ''Share cancelled.''))
      | RsNotFound \<Rightarrow> Inl INotFound
      | _ \<Rightarrow> Inl IInvalidData)"

definition bool_text :: "bool \<Rightarrow> rstring" where "bool_text b = (if b then ascii ''true'' else ascii ''false'')"

text \<open>What \<open>{:?}\<close> prints of the enumerations.\<close>

definition discovery_text :: "discovery_state \<Rightarrow> rstring" where
  "discovery_text d = (case d of DiscoveryIdle \<Rightarrow> ascii ''Idle'' | Searching \<Rightarrow> ascii ''Searching'' | DiscoveryTimedOut \<Rightarrow> ascii ''TimedOut'')"

definition visibility_text :: "visibility_state \<Rightarrow> rstring" where
  "visibility_text v = (case v of VClosed \<Rightarrow> ascii ''Closed'' | VOpen \<Rightarrow> ascii ''Open'' | VStarting \<Rightarrow> ascii ''Starting'' | VUnavailable \<Rightarrow> ascii ''Unavailable'')"

definition phase_text :: "phase \<Rightarrow> rstring" where
  "phase_text p =
     (case p of
        AwaitingLocalConsent \<Rightarrow> ascii ''AwaitingLocalConsent'' | AwaitingPeerConsent \<Rightarrow> ascii ''AwaitingPeerConsent''
      | Cancelled \<Rightarrow> ascii ''Cancelled'' | Completed \<Rightarrow> ascii ''Completed'' | Failed \<Rightarrow> ascii ''Failed''
      | Rejected \<Rightarrow> ascii ''Rejected'' | Transferring \<Rightarrow> ascii ''Transferring'' | WaitingForPeer \<Rightarrow> ascii ''WaitingForPeer'')"

definition entry :: "string \<Rightarrow> rstring \<Rightarrow> rstring" where "entry key v = line (ascii key @ [61] @ v)"

definition optional_entry :: "string \<Rightarrow> rstring option \<Rightarrow> rstring" where
  "optional_entry key v = (case v of None \<Rightarrow> [] | Some x \<Rightarrow> entry key x)"

fun comma_separated :: "rstring list \<Rightarrow> rstring" where
  "comma_separated [] = []"
| "comma_separated [m] = m"
| "comma_separated (m # ms) = m @ [44] @ comma_separated ms"

definition write_visibility_status :: "endpoint_snapshot \<Rightarrow> rstring" where
  "write_visibility_status s =
     (let st = visibility_stat s
      in entry ''visibility'' (visibility_text (visibility s)) @
         entry ''discoverable'' (bool_text (discoverable st)) @
         entry ''visibility_requested'' (bool_text (requested st)) @
         entry ''visibility_temporary'' (bool_text (temporary st)) @
         entry ''visibility_remaining_secs'' (case remaining_secs st of None \<Rightarrow> [] | Some n \<Rightarrow> decimal n) @
         entry ''visibility_available_media'' (comma_separated (available_media st)) @
         optional_entry ''visibility_error'' (v_error st))"

definition terminal_guidance :: "phase \<Rightarrow> (rstring \<times> rstring) option" where
  "terminal_guidance p =
     (case p of
        Cancelled \<Rightarrow> Some (ascii ''share cancelled'', ascii ''Submit the content again if you still want to send it.'')
      | Failed \<Rightarrow> Some (ascii ''transfer failed'',
          ascii ''Retry the share. Confirm the peer is nearby and the receive directory is writable.'')
      | Rejected \<Rightarrow> Some (ascii ''share rejected'', ascii ''Choose another peer or ask the receiver to accept.'')
      | _ \<Rightarrow> None)"

definition write_share :: "share_snapshot \<Rightarrow> rstring" where
  "write_share s =
     (let fallback = terminal_guidance (sh_phase s)
      in entry ''share_id'' (decimal (sh_id s)) @
         entry ''direction'' (case sh_direction s of Inbound \<Rightarrow> ascii ''inbound'' | Outbound \<Rightarrow> ascii ''outbound'') @
         entry ''phase'' (phase_text (sh_phase s)) @
         entry ''transferred_bytes'' (decimal (sh_transferred_bytes s)) @
         entry ''total_bytes'' (decimal (sh_total_bytes s)) @
         optional_entry ''verification_code'' (sh_verification_code s) @
         optional_entry ''terminal_reason'' (case sh_terminal_reason s of Some r \<Rightarrow> Some r | None \<Rightarrow> map_option fst fallback) @
         optional_entry ''recovery_guidance'' (case sh_recovery_guidance s of Some r \<Rightarrow> Some r | None \<Rightarrow> map_option snd fallback))"

definition write_snapshot :: "endpoint_snapshot \<Rightarrow> preference_values option \<Rightarrow> rstring" where
  "write_snapshot s now_applied =
     optional_entry ''receive_directory'' (map_option pv_receive_directory now_applied) @
     entry ''discovery'' (discovery_text (discovery s)) @
     write_visibility_status s @
     entry ''pinned_peer''
       (case find p_pinned (peers s) of
          Some peer \<Rightarrow> p_id peer
        | None \<Rightarrow> (case Option.bind now_applied pv_pinned_peer_id of Some p \<Rightarrow> p | None \<Rightarrow> [])) @
     (case active_share s of None \<Rightarrow> [] | Some share \<Rightarrow> write_share share)"

definition write_status :: "control_response \<Rightarrow> io_kind + rstring" where
  "write_status response =
     (case response of
        RsSnapshot p s \<Rightarrow>
          Inr (write_snapshot s (ps_applied p) @ entry ''preferences_pending'' (bool_text (ps_pending p)) @
               optional_entry ''preferences_error'' (ps_error p))
      | _ \<Rightarrow> Inl IInvalidData)"

subsection \<open>Execution\<close>

definition run_config_command :: "config_command \<Rightarrow> cli_world \<Rightarrow> (io_kind + rstring) \<times> cli_world" where
  "run_config_command action w =
     (case action of
        ConfigSet key v \<Rightarrow>
          (case cw_connect w of
             None \<Rightarrow>
               (case exchange_stream w (request_patch_preferences key v) of
                  Inl e \<Rightarrow> (Inl e, w) | Inr response \<Rightarrow> (write_action (rs_response response), w))
           | Some e \<Rightarrow>
               if e = INotFound \<or> e = IConnectionRefused then
                 (case config_patch (cw_parse w) (cw_print w) (cw_environment w) key v (cw_files w) of
                    (Inl e, f) \<Rightarrow> (Inl e, w\<lparr>cw_files := f\<rparr>)
                  | (Inr _, f) \<Rightarrow> (Inr (line (ascii ''Preferences saved; daemon offline, not applied.'')), w\<lparr>cw_files := f\<rparr>))
               else (Inl e, w))
      | ConfigShow \<Rightarrow>
          (case config_load (cw_parse w) (cw_environment w) (cw_files w) of
             (Inl e, f) \<Rightarrow> (Inl e, w\<lparr>cw_files := f\<rparr>)
           | (Inr config, f) \<Rightarrow> (Inr (cw_print w (to_toml config)), w\<lparr>cw_files := f\<rparr>)))"

definition action_command :: "cli_world \<Rightarrow> request_envelope \<Rightarrow> io_kind + rstring" where
  "action_command w request =
     (case exchange_request w request of Inl e \<Rightarrow> Inl e | Inr response \<Rightarrow> write_action (rs_response response))"

definition send_command :: "rstring option \<Rightarrow> bool \<Rightarrow> rstring \<Rightarrow> rstring \<Rightarrow> cli_world \<Rightarrow> io_kind + rstring" where
  "send_command peer clipboard content current_directory w =
     (let directory = (if clipboard then None else Some current_directory);
          request = (case peer of
              Some peer_id \<Rightarrow> send_request_for_peer (cw_there w) content directory peer_id
            | None \<Rightarrow> send_request (cw_there w) content directory)
      in case request of
           Inl e \<Rightarrow> Inl e
         | Inr request \<Rightarrow>
             (case exchange_request w request of
                Inl e \<Rightarrow> Inl e
              | Inr response \<Rightarrow>
                  (case rs_response response of
                     RsQueued share_id \<Rightarrow> Inr (line (ascii ''Share '' @ decimal share_id @ ascii '' queued.''))
                   | RsNotFound \<Rightarrow> write_action (rs_response response)
                   | _ \<Rightarrow> Inl IInvalidData)))"

definition execute_command :: "command \<Rightarrow> rstring \<Rightarrow> cli_world \<Rightarrow> (io_kind + rstring) \<times> cli_world" where
  "execute_command command current_directory w =
     (case command of
        CmdConfig action \<Rightarrow> run_config_command action w
      | CmdDaemon _ _ \<Rightarrow> (Inl IInvalidInput, w)
      | CmdDiscover action \<Rightarrow> (action_command w (discover_request action), w)
      | CmdHealth \<Rightarrow>
          (case exchange_request w request_status of
             Inl e \<Rightarrow> (Inl e, w)
           | Inr response \<Rightarrow>
               (if rs_response response = RsReady then Inr (line (ascii ''available'')) else Inl IInvalidData, w))
      | CmdPeer action \<Rightarrow> (action_command w (peer_request action), w)
      | CmdProtocolVersion \<Rightarrow> (Inr (line (decimal PROTOCOL_VERSION)), w)
      | CmdSend peer clipboard content \<Rightarrow> (send_command peer clipboard content current_directory w, w)
      | CmdShare action \<Rightarrow> (action_command w (share_request action), w)
      | CmdSimulate action \<Rightarrow>
          (case simulate_request (cw_simulation w) action of
             Inl e \<Rightarrow> (Inl e, w) | Inr request \<Rightarrow> (action_command w request, w))
      | CmdStatus json \<Rightarrow>
          (case exchange_request w request_snapshot of
             Inl e \<Rightarrow> (Inl e, w)
           | Inr response \<Rightarrow>
               (if json then (case fst (write_record (cw_render w) keep_all response []) of
                    Inl e \<Rightarrow> Inl e | Inr _ \<Rightarrow> Inr (snd (write_record (cw_render w) keep_all response [])))
                else write_status (rs_response response), w))
      | CmdVisibility action \<Rightarrow> (action_command w (visibility_request action), w))"

subsection \<open>Against the endpoint\<close>

text \<open>What \<open>serve_next\<close> writes to a client that sent the given bytes to an endpoint in the state \<open>d\<close>.\<close>

definition daemon_answer :: "(response_envelope \<Rightarrow> bytes option) \<Rightarrow> nat \<Rightarrow> daemon \<Rightarrow> bytes \<Rightarrow> bytes" where
  "daemon_answer encode a d sent =
     (case fst (read_record (dm_decode d) sent) of
        Inl _ \<Rightarrow> []
      | Inr request \<Rightarrow>
          if rq_version request \<noteq> PROTOCOL_VERSION then []
          else (case response_for a (rq_request request) d of
                  Some (Inr response, _) \<Rightarrow> snd (write_record encode keep_all response [])
                | _ \<Rightarrow> []))"

definition current :: "response_envelope \<Rightarrow> bool" where "current r \<longleftrightarrow> rs_version r = PROTOCOL_VERSION"

lemma response_of_current [simp]: "current (response_of r)"
  by (simp add: current_def response_of_def)

lemmas response_defs = applied_def cancelled_def not_found_def preferences_response_def queued_with_def ready_def snapshot_response_def

lemma endpoint_response_current:
  assumes "endpoint_response rq d = Some (Inr (Some r), d')"
  shows "current r"
  using assms by (cases rq) (auto simp: endpoint_response_def Let_def Option.bind_eq_Some_conv response_defs split: prod.splits sum.splits)

lemma patch_current: "patch_preferences key v d = Some (r, d') \<Longrightarrow> current r"
  by (auto simp: patch_preferences_def Option.bind_eq_Some_conv response_defs)

lemma action_current [simp]: "current (action_response b)"
  by (simp add: action_response_def response_defs)

lemma share_response_current:
  assumes "share_response rq d = Some (Some r, d')"
  shows "current r"
proof (cases rq)
  case (RqCancel i)
  then show ?thesis
    using assms by (auto simp: share_response_def Option.bind_eq_Some_conv response_defs split: prod.splits bool.splits)
next
  case (RqPinPeer p)
  then show ?thesis
    using assms patch_current [of k_pinned p d] by (auto simp: share_response_def response_defs split: if_splits)
next
  case RqUnpinPeer
  then show ?thesis using assms patch_current [of k_pinned "[]" d] by (auto simp: share_response_def)
next
  case (RqAccept i)
  then obtain b where "r = action_response b" using assms by (auto simp: share_response_def Let_def Option.bind_eq_Some_conv)
  then show ?thesis by simp
qed (use assms in \<open>auto simp: share_response_def Let_def Option.bind_eq_Some_conv split: prod.splits\<close>)

lemma submit_current: "submit q p d = (Inr r, d') \<Longrightarrow> current r"
  by (auto simp: submit_def queued_response_def response_defs Let_def split: if_splits prod.splits sum.splits option.splits)

lemma simulation_current: "simulation_response a rq d = Some (r, d') \<Longrightarrow> current r"
  by (auto simp: simulation_response_def response_defs Option.bind_eq_Some_conv split: if_splits)

lemma plain_response_current:
  assumes "plain_response a rq d = Some (Inr r, d')"
  shows "current r"
proof -
  have sim: "current r" if "map_option (\<lambda>(r, d). (Inr r, d)) (simulation_response a rq d) = Some (Inr r, d')"
    using that simulation_current by (auto simp: map_option_case split: option.splits)
  show ?thesis
  proof (cases rq)
    case (RqPatchPreferences key v)
    then show ?thesis using assms patch_current by (auto simp: plain_response_def)
  qed (use assms sim submit_current in \<open>auto simp: plain_response_def response_defs\<close>)
qed

lemma response_for_current:
  assumes "response_for a rq d = Some (Inr r, d')"
  shows "current r"
  using assms
proof (cases rule: response_stages)
  case (endpoint d1 x)
  obtain y where "x = Inr (Some y)" "y = r"
    using assms endpoint by (auto simp: response_for_def split: sum.splits option.splits)
  then show ?thesis using endpoint_response_current endpoint by blast
qed (use share_response_current plain_response_current in auto)

lemma written_record: "encode x = Some bs \<Longrightarrow> write_record encode keep_all x [] = (Inr (), bs @ [10])"
  by (simp add: write_record_def keep_all_def)

lemma read_answer:
  assumes "json_ok encode decode x"
  shows "fst (read_record decode (snd (write_record encode keep_all x []))) = Inr x"
proof -
  obtain bs where bs: "encode x = Some bs" using assms by (auto simp: json_ok_def split: option.splits)
  then show ?thesis using read_written [OF bs assms, of "[]"] written_record [of encode x bs] bs by simp
qed

text \<open>
  This is the answer of \<open>serve_next\<close>: a round that served a client has found its bytes after the events and
  the timeouts, and either ignored them or recorded the reply that is written.
\<close>

lemma daemon_answer_served:
  assumes "serve_next a d = Some (Inr (), d')"
  shows "\<exists>d1 d2 sent cs. apply_network_events d = Some (Inr (), d1) \<and> apply_timeouts d1 = Some (Inr (), d2) \<and>
    dm_clients d2 = Inr sent # cs \<and>
    (daemon_answer encode a (d2\<lparr>dm_clients := cs\<rparr>) sent = [] \<and> d' = d2\<lparr>dm_clients := cs\<rparr> \<or>
     (\<exists>rq response d3. response_for a rq (d2\<lparr>dm_clients := cs\<rparr>) = Some (Inr response, d3) \<and>
        dm_replies d' = dm_replies d3 @ [response] \<and>
        daemon_answer encode a (d2\<lparr>dm_clients := cs\<rparr>) sent = snd (write_record encode keep_all response [])))"
  using assms
proof (cases rule: serve_next_stages)
  case (client d1 d2 c cs)
  then obtain sent where c: "c = Inr sent" by (cases c) (auto simp: serve_client_def)
  let ?d = "d2\<lparr>dm_clients := cs\<rparr>"
  show ?thesis
  proof (cases "fst (read_record (dm_decode ?d) sent)")
    case (Inl e)
    then show ?thesis using client c by (auto simp: serve_client_def daemon_answer_def)
  next
    case (Inr request)
    then have v: "rq_version request = PROTOCOL_VERSION"
      using client(4) c by (auto simp: serve_client_def split: if_splits)
    obtain x d3 where x: "response_for a (rq_request request) ?d = Some (x, d3)"
      using client(4) c Inr v by (auto simp: serve_client_def Option.bind_eq_Some_conv)
    then obtain response where r: "response_for a (rq_request request) ?d = Some (Inr response, d3)"
      using client(4) c Inr v by (cases x) (auto simp: serve_client_def)
    have "dm_replies d' = dm_replies d3 @ [response]"
      using client(4) c Inr v r by (auto simp: serve_client_def Let_def)
    moreover have "daemon_answer encode a ?d sent = snd (write_record encode keep_all response [])"
      using Inr v r by (simp add: daemon_answer_def)
    ultimately show ?thesis using client(1-3) c r by blast
  qed
qed simp_all

lemma exchange_with_daemon:
  assumes "cw_connect w = None" "cw_write_all w = keep_all" "cw_answer w = daemon_answer encode a d"
    and rq: "json_ok (cw_encode w) (dm_decode d) rq" "rq_version rq = PROTOCOL_VERSION"
    and r: "response_for a (rq_request rq) d = Some (Inr r, d')" "json_ok encode (cw_decode w) r"
  shows "exchange_request w rq = Inr r"
proof -
  have sent: "fst (write_record (cw_encode w) keep_all rq []) = Inr ()"
    using rq(1) by (auto simp: json_ok_def written_record split: option.splits)
  let ?sent = "snd (write_record (cw_encode w) keep_all rq [])"
  have "fst (read_record (dm_decode d) ?sent) = Inr rq" using rq(1) by (rule read_answer)
  then have "daemon_answer encode a d ?sent = snd (write_record encode keep_all r [])"
    using rq(2) r(1) by (simp add: daemon_answer_def)
  moreover have "fst (read_record (cw_decode w) (snd (write_record encode keep_all r []))) = Inr r"
    using r(2) by (rule read_answer)
  moreover have "rs_version r = PROTOCOL_VERSION" using response_for_current [OF r(1)] by (simp add: current_def)
  ultimately show ?thesis
    using assms(1-3) sent by (cases "write_record (cw_encode w) keep_all rq []") (simp add: exchange_request_def exchange_stream_def)
qed

lemma classified_version: "classified_request there content dir p = Inr rq \<Longrightarrow> rq_version rq = PROTOCOL_VERSION"
  by (auto simp: classified_request_def file_request_def text_request_def url_request_def submit_file_def submit_file_to_peer_def
      submit_text_def submit_text_to_peer_def submit_url_def submit_url_to_peer_def submit_file_for_def submit_text_for_def
      submit_url_for_def request_of_def split: sum.splits option.splits if_splits)

text \<open>
  C36. \<open>send\<close> prints \<open>Share n queued.\<close> exactly when the endpoint it talks to has queued the classified
  request as share \<open>n\<close>, and fails with \<open>NotFound\<close> exactly when the endpoint refused it: requests and
  answers cross the socket unchanged, whatever JSON encoding keeps a message on a line.
\<close>

theorem send_reports_what_daemon_did:
  assumes "cw_connect w = None" "cw_write_all w = keep_all" "cw_answer w = daemon_answer encode a d"
    and "classified_request (cw_there w) content (if clipboard then None else Some directory) peer = Inr rq"
    and "json_ok (cw_encode w) (dm_decode d) rq"
    and "response_for a (rq_request rq) d = Some (Inr r, d')" "json_ok encode (cw_decode w) r"
  shows "fst (execute_command (CmdSend peer clipboard content) directory w) =
    (case rs_response r of
       RsQueued n \<Rightarrow> Inr (ascii ''Share '' @ decimal n @ ascii '' queued.'' @ [10])
     | RsNotFound \<Rightarrow> Inl INotFound
     | _ \<Rightarrow> Inl IInvalidData)"
proof -
  have "exchange_request w rq = Inr r"
    using exchange_with_daemon [OF assms(1-3,5) classified_version [OF assms(4)] assms(6,7)] .
  then show ?thesis
    using assms(4) by (cases peer) (auto simp: execute_command_def send_command_def send_request_def send_request_for_peer_def
        line_def write_action_def Let_def split: control_response.splits)
qed

definition ex_world :: "daemon \<Rightarrow> cli_world" where
  "ex_world d =
     \<lparr>cw_connect = None, cw_write_all = keep_all, cw_answer = daemon_answer (\<lambda>_. Some [5]) 7 d,
      cw_encode = \<lambda>_. Some [4], cw_decode = \<lambda>_. Some (queued_with 1), cw_render = \<lambda>_. None, cw_there = \<lambda>_. False,
      cw_simulation = False, cw_files = dm_files d, cw_environment = dm_env d, cw_parse = \<lambda>_. None, cw_print = \<lambda>_. []\<rparr>"

theorem send_reports_what_daemon_did_witness:
  "\<exists>d. at_rest [] d \<and> fst (execute_command (CmdSend None True [65]) [] (ex_world d)) = Inr (ascii ''Share 1 queued.'' @ [10])"
proof -
  obtain d where d: "at_rest [] d" using ex_install by blast
  obtain d' where r: "response_for 7 (RqSubmitText None [65]) d = Some (Inr (queued_with 1), d')" using rest_submit [OF d] by blast
  have rq: "classified_request (cw_there (ex_world d)) [65] (if True then None else Some []) None = Inr (submit_text_for [65] None)"
  proof -
    have "file_uri_path [65] = Inr None" by code_simp
    then show ?thesis by (simp add: classified_request_def text_request_def submit_text_def starts_with_def ascii_def)
  qed
  have "dm_decode d = ex_request" using d by (simp add: at_rest_def undisturbed_def)
  then have "json_ok (cw_encode (ex_world d)) (dm_decode d) (submit_text_for [65] None)"
    by (simp add: json_ok_def ex_world_def ex_request_def in_range_def)
  moreover have "json_ok (\<lambda>_. Some [5]) (cw_decode (ex_world d)) (queued_with 1)"
    by (simp add: json_ok_def ex_world_def in_range_def)
  moreover have "response_for 7 (rq_request (submit_text_for [65] None)) d = Some (Inr (queued_with 1), d')"
    using r by (simp add: submit_text_for_def request_of_def)
  ultimately have "fst (execute_command (CmdSend None True [65]) [] (ex_world d)) =
    (case rs_response (queued_with 1) of
       RsQueued n \<Rightarrow> Inr (ascii ''Share '' @ decimal n @ ascii '' queued.'' @ [10])
     | RsNotFound \<Rightarrow> Inl INotFound
     | _ \<Rightarrow> Inl IInvalidData)"
    using send_reports_what_daemon_did [where w = "ex_world d" and encode = "\<lambda>_. Some [5]" and a = 7 and d = d, OF _ _ _ rq]
    by (simp add: ex_world_def)
  then have "fst (execute_command (CmdSend None True [65]) [] (ex_world d)) =
      Inr (ascii ''Share '' @ decimal 1 @ ascii '' queued.'' @ [10])"
    by (simp add: queued_with_def response_of_def)
  moreover have "ascii ''Share '' @ decimal 1 @ ascii '' queued.'' = ascii ''Share 1 queued.''"
    by code_simp
  ultimately show ?thesis using d by auto
qed

end
