(* ===== verification/Worker_Media.thy ===== *)
theory Worker_Media
  imports Daemon_State Conn_Negotiate Sharing_Transfer
begin

text \<open>
  Connections as the network worker opens them (\<open>daemon/media/connection.rs\<close>) and the bandwidth
  upgrade it drives before a transfer (\<open>daemon/media/upgrade.rs\<close>).

  The record \<open>media\<close> is what the worker finds in the system: the random draws of the coming
  connections, whether a Bluetooth adapter and a NetworkManager are present, and the outcomes of the
  coming calls. A call for which no outcome is left fails. Attempts to reach a peer are logged.
\<close>

subsection \<open>The system\<close>

record draw =
  dr_salt :: bytes
  dr_metadata_key :: bytes
  dr_random :: bytes
  dr_secret :: bytes
  dr_signed_data :: bytes
  dr_secret_id_hash :: bytes

text \<open>A Wi-Fi session of NetworkManager is what its candidate says.\<close>

datatype network_medium = NetLan | NetHotspot | NetWifiDirect

record wifi_session =
  wf_medium :: network_medium
  wf_addresses :: "ipv4 list"
  wf_gateway :: "ipv4 option"

text \<open>
  An \<open>accept\<close> on the upgrade listener: a stream (with the result of making it blocking) or an error,
  and the clock at the deadline check that follows.
\<close>

type_synonym accept_turn = "(io_kind + stream \<times> io_kind option) \<times> nat"

record media =
  md_draws :: "nat \<Rightarrow> draw"
  md_drawn :: nat
  md_adapter :: bool
  md_manager :: bool
  md_dials :: "(io_kind + stream) list"
  md_attempts :: "(peer_route \<times> bool) list"
  md_hosted :: "wifi_session option list"
  md_joined :: "wifi_session option list"
  md_peers :: "bool option list"
  md_listeners :: "(io_kind + nat) list"
  md_nonblocking :: "io_kind option list"
  md_accepts :: "accept_turn list"
  md_clock :: nat

definition take_call :: "'a \<Rightarrow> 'a list \<Rightarrow> 'a \<times> 'a list" where
  "take_call failed xs = (case xs of [] \<Rightarrow> (failed, []) | x # xs \<Rightarrow> (x, xs))"

definition next_draw :: "media \<Rightarrow> draw \<times> media" where
  "next_draw M = (md_draws M (md_drawn M), M\<lparr>md_drawn := Suc (md_drawn M)\<rparr>)"

definition dial :: "media \<Rightarrow> (io_kind + stream) \<times> media" where
  "dial M = (case take_call (Inl IConnectionRefused) (md_dials M) of (r, rs) \<Rightarrow> (r, M\<lparr>md_dials := rs\<rparr>))"

subsection \<open>Names\<close>

definition ENDPOINT_ID :: rstring where "ENDPOINT_ID = ascii ''OQSR''"
definition FALLBACK_ENDPOINT_NAME :: rstring where "FALLBACK_ENDPOINT_NAME = ascii ''Omarchy''"
definition LAPTOP_DEVICE_TYPE :: byte where "LAPTOP_DEVICE_TYPE = 3"

definition normalized_endpoint_name :: "rstring option \<Rightarrow> rstring" where
  "normalized_endpoint_name raw =
     (case raw of
        None \<Rightarrow> FALLBACK_ENDPOINT_NAME
      | Some name \<Rightarrow>
          if trim name \<noteq> [] \<and> length (trim name) \<le> 255 then trim name else FALLBACK_ENDPOINT_NAME)"

text \<open>\<open>endpoint_name\<close>, with what reading \<open>/etc/hostname\<close> gave.\<close>

definition endpoint_name :: "rstring option \<Rightarrow> rstring option \<Rightarrow> rstring" where
  "endpoint_name hostname configured =
     (case configured of Some name \<Rightarrow> name | None \<Rightarrow> normalized_endpoint_name hostname)"

subsection \<open>Opening a connection\<close>

definition worker_options :: "draw \<Rightarrow> medium \<Rightarrow> rstring \<Rightarrow> protocol_error + connection_options" where
  "worker_options r m name =
     (case endpoint_info_new 0 LAPTOP_DEVICE_TYPE (dr_salt r) (dr_metadata_key r) (Some name) None [] of
        Inl e \<Rightarrow> Inl e
      | Inr info \<Rightarrow>
          Inr (with_medium m (with_endpoint_info (endpoint_info_encode info)
                 (connection_options_new ENDPOINT_ID name))))"

text \<open>\<open>None\<close> is a panic: of the UKEY2 completion, or for a secret that is no P-256 scalar.\<close>

definition open_connection :: "('sk, 'pk) net \<Rightarrow> stream \<Rightarrow> medium \<Rightarrow> role \<Rightarrow> rstring \<Rightarrow> media \<Rightarrow>
    ((protocol_error + connection) \<times> media) option" where
  "open_connection N s m r name M =
     (case next_draw M of (d, M1) \<Rightarrow>
        (case worker_options d m name of
           Inl e \<Rightarrow> Some (Inl e, M1)
         | Inr options \<Rightarrow>
           (case handshake_new (n_crypto N) r (dr_random d) (dr_secret d) of
              None \<Rightarrow> None
            | Some h \<Rightarrow>
              (case (case r of Initiator \<Rightarrow> connect_io N s h options | Responder \<Rightarrow> accept_io N s h options) of
                 None \<Rightarrow> None
               | Some (Inl e) \<Rightarrow> Some (Inl (PConnection e), M1)
               | Some (Inr c) \<Rightarrow> Some (Inr c, M1)))))"

definition connect_connection :: "('sk, 'pk) net \<Rightarrow> stream \<Rightarrow> medium \<Rightarrow> rstring \<Rightarrow> media \<Rightarrow>
    ((protocol_error + connection) \<times> media) option" where
  "connect_connection N s m name M = open_connection N s m Initiator name M"

definition accept_connection :: "('sk, 'pk) net \<Rightarrow> stream \<Rightarrow> medium \<Rightarrow> rstring \<Rightarrow> media \<Rightarrow>
    ((protocol_error + connection) \<times> media) option" where
  "accept_connection N s m name M = open_connection N s m Responder name M"

definition missing_adapter :: protocol_error where "missing_adapter = PIo INotFound"
definition bluetooth_error :: "io_kind \<Rightarrow> protocol_error" where "bluetooth_error e = PIo IOther"

definition route_attempted :: "peer_route \<Rightarrow> bool \<Rightarrow> media \<Rightarrow> media" where
  "route_attempted route b M = M\<lparr>md_attempts := md_attempts M @ [(route, b)]\<rparr>"

text \<open>\<open>connect_route\<close>. The attempt is logged with whether it gave a connection.\<close>

definition connect_stream :: "peer_route \<Rightarrow> media \<Rightarrow> (protocol_error + stream) \<times> media" where
  "connect_stream route M =
     (case route of
        RouteLan _ \<Rightarrow>
          (case dial M of (Inl e, M) \<Rightarrow> (Inl (PIo e), M) | (Inr s, M) \<Rightarrow> (Inr s, M))
      | _ \<Rightarrow>
          if \<not> md_adapter M then (Inl missing_adapter, M)
          else (case dial M of (Inl e, M) \<Rightarrow> (Inl (bluetooth_error e), M) | (Inr s, M) \<Rightarrow> (Inr s, M)))"

definition connect_route :: "('sk, 'pk) net \<Rightarrow> peer_route \<Rightarrow> rstring \<Rightarrow> media \<Rightarrow>
    ((protocol_error + connection) \<times> media) option" where
  "connect_route N route name M =
     (case connect_stream route M of
        (Inl e, M) \<Rightarrow> Some (Inl e, route_attempted route False M)
      | (Inr s, M) \<Rightarrow>
        (case connect_connection N s (route_medium route) name M of
           None \<Rightarrow> None
         | Some (Inl e, M) \<Rightarrow> Some (Inl e, route_attempted route False M)
         | Some (Inr c, M) \<Rightarrow> Some (Inr c, route_attempted route True M)))"

subsection \<open>Offering a path\<close>

definition UPGRADE_DEADLINE :: nat where "UPGRADE_DEADLINE = 8 * NANOS"

definition media_fail_upgrade :: "('sk, 'pk) net \<Rightarrow> medium \<Rightarrow> connection \<Rightarrow> (protocol_error + unit) \<times> connection" where
  "media_fail_upgrade N m c =
     (case fail_upgrade N m c of (Inl e, c) \<Rightarrow> (Inl (PConnection e), c) | (Inr _, c) \<Rightarrow> (Inr (), c))"

definition complete_or_fail_upgrade :: "('sk, 'pk) net \<Rightarrow> medium \<Rightarrow> protocol_error + stream \<Rightarrow> connection \<Rightarrow>
    (protocol_error + unit) \<times> connection" where
  "complete_or_fail_upgrade N m upgraded c =
     (case upgraded of
        Inr s \<Rightarrow>
          (case complete_upgrade_io N m s c of
             (Inl e, c) \<Rightarrow> media_fail_upgrade N m c
           | (Inr _, c) \<Rightarrow> (Inr (), c))
      | Inl e \<Rightarrow> media_fail_upgrade N m c)"

fun upgrade_medium :: "network_medium \<Rightarrow> medium" where
  "upgrade_medium NetHotspot = WifiHotspot"
| "upgrade_medium NetWifiDirect = WifiDirect"
| "upgrade_medium NetLan = WifiLan"

definition hosted_credentials :: "wifi_session \<Rightarrow> nat \<Rightarrow> rstring \<Rightarrow> upgrade_credentials" where
  "hosted_credentials w port name =
     (let ip_address = (case wf_addresses w of [] \<Rightarrow> None | a # _ \<Rightarrow> Some a)
      in \<lparr>uc_frequency = None, uc_gateway = or_else (wf_gateway w) ip_address, uc_ip_address = ip_address,
          uc_password = Some (ascii ''quickshare''), uc_port = Some port, uc_ssid = Some (ascii ''DIRECT-OQSR''),
          uc_device_name = Some name, uc_pin = None\<rparr>)"

definition offer_hosted_path :: "('sk, 'pk) net \<Rightarrow> wifi_session \<Rightarrow> nat \<Rightarrow> rstring \<Rightarrow> connection \<Rightarrow>
    (protocol_error + unit) \<times> connection" where
  "offer_hosted_path N w port name c =
     (case propose_upgrade_path N (upgrade_medium (wf_medium w)) (hosted_credentials w port name) c of
        (Inl e, c) \<Rightarrow> (Inl (PConnection e), c)
      | (Inr _, c) \<Rightarrow> (Inr (), c))"

text \<open>The poll of the listener. When the observations run out the deadline has passed.\<close>

fun accept_until :: "nat \<Rightarrow> accept_turn list \<Rightarrow> (io_kind + stream) \<times> accept_turn list" where
  "accept_until deadline [] = (Inl ITimedOut, [])"
| "accept_until deadline ((Inr (s, None), now) # ts) = (Inr s, ts)"
| "accept_until deadline ((Inr (s, Some e), now) # ts) = (Inl e, ts)"
| "accept_until deadline ((Inl e, now) # ts) =
     (if e = IWouldBlock then
        (if deadline \<le> now then (Inl ITimedOut, ts) else accept_until deadline ts)
      else (Inl e, ts))"

definition wait_for_upgrade_stream :: "media \<Rightarrow> (io_kind + stream) \<times> media" where
  "wait_for_upgrade_stream M =
     (case take_call None (md_nonblocking M) of
        (Some e, xs) \<Rightarrow> (Inl e, M\<lparr>md_nonblocking := xs\<rparr>)
      | (None, xs) \<Rightarrow>
        (case accept_until (md_clock M + UPGRADE_DEADLINE) (md_accepts M) of
           (r, ts) \<Rightarrow> (r, M\<lparr>md_nonblocking := xs, md_accepts := ts\<rparr>)))"

text \<open>The attempts of \<open>initiate_bandwidth_upgrade\<close> over the media of \<open>attempt_order\<close>.\<close>

fun host_media :: "('sk, 'pk) net \<Rightarrow> rstring \<Rightarrow> nat \<Rightarrow> medium \<Rightarrow> medium list \<Rightarrow> connection \<Rightarrow> media \<Rightarrow>
    (protocol_error + wifi_session option) \<times> connection \<times> media" where
  "host_media N name port present [] c M =
     (case media_fail_upgrade N WifiHotspot c of
        (Inl e, c) \<Rightarrow> (Inl e, c, M)
      | (Inr _, c) \<Rightarrow> (Inr None, c, M))"
| "host_media N name port present (m # ms) c M =
     (if from_media present m \<noteq> Upgrade m \<or> (m \<noteq> WifiHotspot \<and> m \<noteq> WifiDirect)
      then host_media N name port present ms c M
      else
        (case take_call None (md_hosted M) of
           (None, hs) \<Rightarrow> host_media N name port present ms c (M\<lparr>md_hosted := hs\<rparr>)
         | (Some session, hs) \<Rightarrow>
           (case offer_hosted_path N session port name c of
              (Inl e, c) \<Rightarrow> (Inl e, c, M\<lparr>md_hosted := hs\<rparr>)
            | (Inr _, c) \<Rightarrow>
              (case wait_for_upgrade_stream (M\<lparr>md_hosted := hs\<rparr>) of
                 (Inr s, M) \<Rightarrow>
                   (case complete_upgrade_io N m s c of
                      (Inr _, c) \<Rightarrow> (Inr (Some session), c, M)
                    | (Inl _, c) \<Rightarrow>
                        (case media_fail_upgrade N m c of
                           (Inl e, c) \<Rightarrow> (Inl e, c, M)
                         | (Inr _, c) \<Rightarrow> host_media N name port present ms c M))
               | (Inl _, M) \<Rightarrow>
                   (case media_fail_upgrade N m c of
                      (Inl e, c) \<Rightarrow> (Inl e, c, M)
                    | (Inr _, c) \<Rightarrow> host_media N name port present ms c M)))))"

definition initiate_bandwidth_upgrade :: "('sk, 'pk) net \<Rightarrow> rstring \<Rightarrow> connection \<Rightarrow> media \<Rightarrow>
    (protocol_error + wifi_session option) \<times> connection \<times> media" where
  "initiate_bandwidth_upgrade N name c M =
     (if rank (c_medium c) \<ge> rank WifiLan then (Inr None, c, M)
      else if \<not> md_manager M then
        (case media_fail_upgrade N WifiHotspot c of
           (Inl e, c) \<Rightarrow> (Inl e, c, M)
         | (Inr _, c) \<Rightarrow> (Inr None, c, M))
      else
        (case take_call (Inl IAddrNotAvailable) (md_listeners M) of
           (Inl e, ls) \<Rightarrow> (Inl (PIo e), c, M\<lparr>md_listeners := ls\<rparr>)
         | (Inr port, ls) \<Rightarrow>
             host_media N name port (c_medium c) attempt_order c (M\<lparr>md_listeners := ls\<rparr>)))"

subsection \<open>Joining an offered path\<close>

definition upgraded_socket :: "upgrade_credentials \<Rightarrow> (ipv4 \<times> nat) option" where
  "upgraded_socket creds =
     (case or_else (uc_ip_address creds) (uc_gateway creds) of
        None \<Rightarrow> None
      | Some ip \<Rightarrow> map_option (Pair ip) (uc_port creds))"

definition dial_lan :: "wifi_session option \<Rightarrow> media \<Rightarrow> (protocol_error + stream \<times> wifi_session option) \<times> media" where
  "dial_lan session M =
     (case dial M of (Inl e, M) \<Rightarrow> (Inl (PIo e), M) | (Inr s, M) \<Rightarrow> (Inr (s, session), M))"

text \<open>
  The Wi-Fi session of \<open>join_offered_path\<close>: joining the hotspot; or finding the peers, waiting for one
  (it may fail, or find none) and joining it. The credentials only go to NetworkManager.
\<close>

definition join_wifi :: "media \<Rightarrow> (protocol_error + wifi_session) \<times> media" where
  "join_wifi M =
     (case take_call None (md_joined M) of
        (None, js) \<Rightarrow> (Inl (PIo IOther), M\<lparr>md_joined := js\<rparr>)
      | (Some w, js) \<Rightarrow> (Inr w, M\<lparr>md_joined := js\<rparr>))"

definition join_direct :: "media \<Rightarrow> (protocol_error + wifi_session) \<times> media" where
  "join_direct M =
     (case take_call None (md_peers M) of
        (None, ps) \<Rightarrow> (Inl (PIo IOther), M\<lparr>md_peers := ps\<rparr>)
      | (Some False, ps) \<Rightarrow> (Inl (PIo INotFound), M\<lparr>md_peers := ps\<rparr>)
      | (Some True, ps) \<Rightarrow> join_wifi (M\<lparr>md_peers := ps\<rparr>))"

definition join_offered_path :: "medium \<Rightarrow> upgrade_credentials \<Rightarrow> media \<Rightarrow>
    (protocol_error + stream \<times> wifi_session option) \<times> media" where
  "join_offered_path m creds M =
     (case upgraded_socket creds of
        None \<Rightarrow> (Inl (PIo INotFound), M)
      | Some address \<Rightarrow>
          if \<not> md_manager M then dial_lan None M
          else
            (case m of
               WifiHotspot \<Rightarrow>
                 (case join_wifi M of (Inl e, M) \<Rightarrow> (Inl e, M) | (Inr w, M) \<Rightarrow> dial_lan (Some w) M)
             | WifiDirect \<Rightarrow>
                 (case join_direct M of (Inl e, M) \<Rightarrow> (Inl e, M) | (Inr w, M) \<Rightarrow> dial_lan (Some w) M)
             | WifiLan \<Rightarrow> dial_lan None M
             | _ \<Rightarrow> (Inl (PIo IConnectionRefused), M)))"

definition accept_bandwidth_upgrade :: "('sk, 'pk) net \<Rightarrow> upgrade_event \<Rightarrow> connection \<Rightarrow> media \<Rightarrow>
    (protocol_error + wifi_session option) \<times> connection \<times> media" where
  "accept_bandwidth_upgrade N ev c M =
     (case ev of
        PathAvailable m creds \<Rightarrow>
          if from_media (c_medium c) m \<noteq> Upgrade m then
            (case media_fail_upgrade N m c of
               (Inl e, c) \<Rightarrow> (Inl e, c, M)
             | (Inr _, c) \<Rightarrow> (Inr None, c, M))
          else
            (case join_offered_path m creds M of
               (Inr (s, session), M) \<Rightarrow>
                 (case complete_or_fail_upgrade N m (Inr s) c of
                    (Inl e, c) \<Rightarrow> (Inl e, c, M)
                  | (Inr _, c) \<Rightarrow> (Inr session, c, M))
             | (Inl e, M) \<Rightarrow>
                 (case complete_or_fail_upgrade N m (Inl e) c of
                    (Inl e, c) \<Rightarrow> (Inl e, c, M)
                  | (Inr _, c) \<Rightarrow> (Inr None, c, M)))
      | _ \<Rightarrow> (Inr None, c, M))"

subsection \<open>An upgrade only rises\<close>

text \<open>
  What an upgrade may do to a connection: it stays on its path, with nothing taken from its input
  for free, or it moves to a medium of a higher rank.
\<close>

definition no_more_input :: "connection \<Rightarrow> connection \<Rightarrow> bool" where
  "no_more_input c c' \<longleftrightarrow> input_left c' < input_left c \<or>
     input_left c' = input_left c \<and> length (pending_events c') \<le> length (pending_events c)"

definition stays :: "connection \<Rightarrow> connection \<Rightarrow> bool" where
  "stays c c' \<longleftrightarrow> same_path c c' \<and> no_more_input c c'"

definition rises :: "connection \<Rightarrow> connection \<Rightarrow> bool" where
  "rises c c' \<longleftrightarrow> stays c c' \<or> rank (c_medium c) < rank (c_medium c')"

lemma stays_refl [simp]: "stays c c"
  by (simp add: stays_def no_more_input_def)

lemma stays_trans: "stays a b \<Longrightarrow> stays b c \<Longrightarrow> stays a c"
  unfolding stays_def no_more_input_def using same_path_trans [of a b c] by linarith

lemma stays_medium: "stays c c' \<Longrightarrow> c_medium c' = c_medium c"
  by (simp add: stays_def same_path_def)

lemma conn_send_pending: "pending_events (snd (conn_send N f c)) = pending_events c"
  by (auto simp: conn_send_def split: prod.splits sum.splits)

lemma conn_send_stays: "stays c (snd (conn_send N f c))"
  using conn_send_path [of c N f] conn_send_stream [of N f c] conn_send_pending [of N f c]
  by (simp add: stays_def no_more_input_def input_left_def)

lemma conn_recv_pending: "pending_events (snd (conn_recv N c)) = pending_events c"
  by (auto simp: conn_recv_def decode_encrypted_def split: prod.splits sum.splits option.splits)

lemma same_path_input: "same_path c c' \<Longrightarrow> input_left c' \<le> input_left c"
  by (auto simp: same_path_def input_left_def)

lemma conn_recv_stays: "stays c (snd (conn_recv N c))"
  using conn_recv_path [of c N] conn_recv_pending [of N c] same_path_input [OF conn_recv_path [of c N]]
  by (auto simp: stays_def no_more_input_def)

lemma expect_loop_stays: "stays c (snd (expect_current_upgrade_loop N ev n b c))"
proof -
  obtain r c1 where r: "conn_recv N c = (r, c1)" by force
  let ?c = "snd (expect_current_upgrade_loop N ev n b c)"
  show ?thesis
  proof (cases r)
    case (Inl e)
    then have "?c = c1" using r by (subst expect_loop_eq) simp
    then show ?thesis using conn_recv_stays [of c N] r by simp
  next
    case (Inr f)
    have less: "input_left c1 < input_left c" using conn_recv_shorter r Inr by metis
    obtain x c2 where e: "conn_event N f c1 = (x, c2)" by force
    have le: "input_left c2 = input_left c1" using conn_event_input [of N f c1] e by simp
    have path: "input_left (snd (expect_current_upgrade_loop N ev n' b' (queue_event k y c2))) \<le> input_left c1" for n' b' k y
      using same_path_input [OF expect_loop_path [of "queue_event k y c2" N ev n' b']] queue_event_input [of k y c2] le by simp
    have "input_left ?c \<le> input_left c1"
      using path le queue_event_input [of _ _ c2]
      by (subst expect_loop_eq) (simp add: r Inr e split: sum.split)
    then show ?thesis using less expect_loop_path [of c N ev n b] by (simp add: stays_def no_more_input_def)
  qed
qed

lemma and_then_stays:
  assumes "stays c (snd r)" and "\<And>c1. snd r = c1 \<Longrightarrow> stays c1 (snd (k c1))"
  shows "stays c (snd (and_then r k))"
  using assms stays_trans by (auto simp: and_then_def split: prod.splits sum.splits)

lemma handshake_stays:
  "stays c (snd (fst (complete_upgrade_as_host N s c)))"
  "stays c (snd (fst (complete_upgrade_as_client N s c)))"
  by (auto simp: complete_upgrade_as_host_def complete_upgrade_as_client_def expect_current_upgrade_def
      intro!: and_then_stays conn_send_stays expect_loop_stays split: prod.splits sum.splits)

text \<open>Only the stream, the medium and the pending events count.\<close>

lemma stays_cong:
  "c_stream d' = c_stream d \<Longrightarrow> c_medium d' = c_medium d \<Longrightarrow> pending_events d' = pending_events d \<Longrightarrow>
     stays c d' = stays c d \<and> stays d' c = stays d c"
  by (simp add: stays_def no_more_input_def same_path_def input_left_def)

lemma stays_upgrade [simp]:
  "stays c (d\<lparr>c_upgrade := u, upgrade_host := h\<rparr>) = stays c d"
  "stays (d\<lparr>c_upgrade := u\<rparr>) c = stays d c"
  using stays_cong [of "d\<lparr>c_upgrade := u, upgrade_host := h\<rparr>" d c] stays_cong [of "d\<lparr>c_upgrade := u\<rparr>" d c] by simp_all

lemma complete_upgrade_io_effect:
  assumes "complete_upgrade_io N m s c = (r, c')"
  shows "case r of Inl e \<Rightarrow> stays c c' | Inr _ \<Rightarrow> c_medium c' = m"
proof -
  let ?c = "c\<lparr>c_upgrade := UpAccepted m\<rparr>"
  obtain x c2 s' where h: "(if upgrade_host c then complete_upgrade_as_host N s ?c
      else complete_upgrade_as_client N s ?c) = ((x, c2), s')" by (metis surj_pair)
  have "stays ?c c2" using handshake_stays [of ?c N s] h by (auto split: if_splits)
  then show ?thesis
    using assms h by (cases x) (auto simp: complete_upgrade_io_def complete_upgrade_def Let_def)
qed

lemma media_fail_upgrade_stays: "media_fail_upgrade N m c = (r, c') \<Longrightarrow> stays c c'"
  using conn_send_stays [of c N "upgrade_failure (to_wire m)"]
  by (auto simp: media_fail_upgrade_def fail_upgrade_def split: prod.splits sum.splits)

lemma offer_hosted_path_stays: "offer_hosted_path N w port name c = (r, c') \<Longrightarrow> stays c c'"
  using conn_send_stays [of c N "upgrade_path_available (to_wire (upgrade_medium (wf_medium w))) (hosted_credentials w port name)"]
  by (auto simp: offer_hosted_path_def propose_upgrade_path_def split: prod.splits sum.splits)

lemma complete_or_fail_upgrade_effect:
  assumes "complete_or_fail_upgrade N m up c = (r, c')"
  shows "stays c c' \<or> c_medium c' = m \<and> r = Inr ()"
proof (cases up)
  case (Inl e)
  then show ?thesis using assms by (auto simp: complete_or_fail_upgrade_def dest: media_fail_upgrade_stays)
next
  case (Inr s)
  obtain x d where "complete_upgrade_io N m s c = (x, d)" by fastforce
  with complete_upgrade_io_effect [OF this] show ?thesis
    using assms Inr media_fail_upgrade_stays [of N m d r c'] stays_trans [of c d c']
    by (auto simp: complete_or_fail_upgrade_def split: sum.splits)
qed

lemma from_media_Upgrade: "from_media a b = Upgrade m \<longleftrightarrow> m = b \<and> rank a < rank b"
  by (auto simp: from_media_def)

lemma accept_bandwidth_upgrade_rises:
  assumes "accept_bandwidth_upgrade N ev c M = (r, c', M')"
  shows "rises c c'"
proof (cases ev)
  case (PathAvailable m creds)
  show ?thesis
  proof (cases "from_media (c_medium c) m = Upgrade m")
    case False
    then have "fst (snd (accept_bandwidth_upgrade N ev c M)) = snd (media_fail_upgrade N m c)"
      using PathAvailable by (simp add: accept_bandwidth_upgrade_def split: prod.splits sum.splits)
    then show ?thesis
      using assms media_fail_upgrade_stays [of N m c "fst (media_fail_upgrade N m c)" c'] by (simp add: rises_def prod_eq_iff)
  next
    case True
    obtain j M1 where j: "join_offered_path m creds M = (j, M1)" by fastforce
    define up where "up = (case j of Inl e \<Rightarrow> Inl e | Inr (s, w) \<Rightarrow> Inr s)"
    obtain x d where x: "complete_or_fail_upgrade N m up c = (x, d)" by fastforce
    have "c' = d"
      using assms PathAvailable True j x
      by (cases j) (auto simp: accept_bandwidth_upgrade_def up_def split: sum.splits)
    then show ?thesis
      using complete_or_fail_upgrade_effect [OF x] True by (auto simp: rises_def from_media_Upgrade)
  qed
qed (use assms in \<open>auto simp: accept_bandwidth_upgrade_def rises_def\<close>)

text \<open>\<open>accept_negotiated_upgrade\<close>: every turn consumes input, or moves up.\<close>

definition negotiation_order :: "(connection \<times> connection) set" where
  "negotiation_order = inv_image (less_than <*lex*> receive_order) (\<lambda>c. (4 - rank (c_medium c), c))"

lemma wf_negotiation_order [simp]: "wf negotiation_order"
  by (simp add: negotiation_order_def wf_lex_prod)

lemma rank_bound: "rank m \<le> 4"
  by (cases m) simp_all

lemma conn_receive_medium: "conn_receive N c = (r, c') \<Longrightarrow> c_medium c' = c_medium c"
proof (induction "input_left c" arbitrary: c rule: less_induct)
  case less
  show ?case
  proof (cases "pending_events c")
    case (Cons x xs)
    then show ?thesis using less.prems by (subst (asm) conn_receive.simps) auto
  next
    case Nil
    obtain x c1 where x: "conn_recv N c = (x, c1)" by force
    have m1: "c_medium c1 = c_medium c" using conn_recv_path [of c N] x by (simp add: same_path_def)
    show ?thesis
    proof (cases x)
      case (Inl e)
      then show ?thesis using less.prems Nil x m1 by (subst (asm) conn_receive.simps) (auto split: if_splits)
    next
      case (Inr f)
      obtain y c2 where y: "conn_event N f c1 = (y, c2)" by force
      have m2: "c_medium c2 = c_medium c" using conn_event_path [of c1 N f] y m1 by (simp add: same_path_def)
      have "input_left c2 < input_left c" using receive_turn_shorter x Inr y by metis
      then show ?thesis
        using less.prems Nil x Inr y m2 less.hyps [of c2]
        by (subst (asm) conn_receive.simps) (auto split: sum.splits option.splits)
    qed
  qed
qed

lemma negotiation_turn:
  assumes "(Inr ev, c1) = conn_receive N c" "ev \<noteq> EvDisconnected"
  shows "(c1, c) \<in> negotiation_order"
    and "(r, c2, M2) = accept_bandwidth_upgrade N u c1 M \<Longrightarrow> (c2, c) \<in> negotiation_order"
proof -
  have m: "c_medium c1 = c_medium c" using conn_receive_medium assms(1) by metis
  have o: "(c1, c) \<in> receive_order" using receive_consumes assms by metis
  from m o show "(c1, c) \<in> negotiation_order" by (simp add: negotiation_order_def)
  assume "(r, c2, M2) = accept_bandwidth_upgrade N u c1 M"
  then have "rises c1 c2" using accept_bandwidth_upgrade_rises by metis
  then show "(c2, c) \<in> negotiation_order"
    using m o rank_bound [of "c_medium c2"]
    by (auto simp: rises_def stays_def no_more_input_def negotiation_order_def receive_order_def
        dest: stays_medium [unfolded stays_def] simp: same_path_def)
qed

function accept_negotiated_loop :: "('sk, 'pk) net \<Rightarrow> connection \<Rightarrow> media \<Rightarrow>
    (protocol_error + wifi_session option) \<times> connection \<times> media" where
  "accept_negotiated_loop N c M =
     (case conn_receive N c of
        (Inl e, c) \<Rightarrow> (Inl (PConnection e), c, M)
      | (Inr ev, c) \<Rightarrow>
        (case ev of
           EvUpgrade (PathAvailable m creds) \<Rightarrow>
             (case accept_bandwidth_upgrade N (PathAvailable m creds) c M of
                (Inl e, c, M) \<Rightarrow> (Inl e, c, M)
              | (Inr (Some session), c, M) \<Rightarrow> (Inr (Some session), c, M)
              | (Inr None, c, M) \<Rightarrow>
                  if rank (c_medium c) \<ge> rank WifiLan then (Inr None, c, M) else accept_negotiated_loop N c M)
         | EvUpgrade _ \<Rightarrow> accept_negotiated_loop N c M
         | EvKeepAlive _ _ \<Rightarrow> accept_negotiated_loop N c M
         | EvDisconnected \<Rightarrow> (Inl PDisconnected, c, M)
         | _ \<Rightarrow> (Inr None, unread ev c, M)))"
  by pat_completeness auto
termination
  by (relation "inv_image negotiation_order (\<lambda>(N, c, M). c)") (auto dest: negotiation_turn)

declare accept_negotiated_loop.simps [simp del]

definition accept_negotiated_upgrade :: "('sk, 'pk) net \<Rightarrow> connection \<Rightarrow> media \<Rightarrow>
    (protocol_error + wifi_session option) \<times> connection \<times> media" where
  "accept_negotiated_upgrade N c M =
     (if rank (c_medium c) \<ge> rank WifiLan then (Inr None, c, M) else accept_negotiated_loop N c M)"

subsection \<open>What an upgrade does to the connection\<close>

definition moved_up :: "connection \<Rightarrow> connection \<Rightarrow> bool" where
  "moved_up c c' \<longleftrightarrow> same_path c c' \<or> rank (c_medium c) < rank (c_medium c')"

lemma same_path_medium: "same_path c c' \<Longrightarrow> c_medium c' = c_medium c"
  by (simp add: same_path_def)

lemma moved_up_trans: "moved_up a b \<Longrightarrow> moved_up b c \<Longrightarrow> moved_up a c"
  using same_path_trans [of a b c] same_path_medium [of a b] same_path_medium [of b c]
  by (auto simp: moved_up_def)

lemma stays_path: "stays c c' \<Longrightarrow> same_path c c'"
  by (simp add: stays_def)

lemma rises_moved_up: "rises c c' \<Longrightarrow> moved_up c c'"
  by (auto simp: rises_def moved_up_def stays_def)

text \<open>A session handed out by the host is the new path of the connection; otherwise it stays.\<close>

definition host_outcome :: "protocol_error + wifi_session option \<Rightarrow> connection \<Rightarrow> connection \<Rightarrow> bool" where
  "host_outcome r c c' =
     (case r of
        Inr (Some w) \<Rightarrow> rank (c_medium c) < rank (c_medium c') \<and> c_medium c' \<in> {WifiHotspot, WifiDirect}
      | _ \<Rightarrow> same_path c c')"

lemma host_outcome_trans: "same_path c c1 \<Longrightarrow> host_outcome r c1 c' \<Longrightarrow> host_outcome r c c'"
  using same_path_trans [of c c1 c'] same_path_medium [of c c1]
  by (auto simp: host_outcome_def split: sum.splits option.splits)

lemma host_media_outcome:
  "present = c_medium c \<Longrightarrow> host_media N name port present ms c M = (r, c', M') \<Longrightarrow> host_outcome r c c'"
proof (induction ms arbitrary: c M)
  case Nil
  then show ?case
    using media_fail_upgrade_stays [of N WifiHotspot c]
    by (auto simp: host_outcome_def dest!: stays_path split: prod.splits sum.splits)
next
  case (Cons m ms)
  have again: "host_outcome r c c'" if "same_path c d" "host_media N name port present ms d M1 = (r, c', M')" for d M1
    using Cons.IH [of d M1] Cons.prems(1) that host_outcome_trans same_path_medium by metis
  obtain h hs where h: "take_call None (md_hosted M) = (h, hs)" by fastforce
  consider "from_media present m \<noteq> Upgrade m \<or> (m \<noteq> WifiHotspot \<and> m \<noteq> WifiDirect)"
    | "from_media present m = Upgrade m" "m = WifiHotspot \<or> m = WifiDirect" by blast
  then show ?case
  proof cases
    case 1
    then show ?thesis using Cons.prems again [of c M] by simp
  next
    case up: 2
    show ?thesis
    proof (cases h)
      case None
      then show ?thesis using Cons.prems h up again [of c] by auto
    next
      case (Some w)
      obtain x c1 where x: "offer_hosted_path N w port name c = (x, c1)" by fastforce
      note p1 = stays_path [OF offer_hosted_path_stays [OF x]]
      obtain y M1 where y: "wait_for_upgrade_stream (M\<lparr>md_hosted := hs\<rparr>) = (y, M1)" by fastforce
      have failed: "host_outcome r c c'" if "same_path c d" and
        eq: "(case media_fail_upgrade N m d of (Inl e, c) \<Rightarrow> (Inl e, c, M1)
              | (Inr _, c) \<Rightarrow> host_media N name port present ms c M1) = (r, c', M')" for d
      proof -
        obtain f d1 where f: "media_fail_upgrade N m d = (f, d1)" by fastforce
        have "same_path c d1"
          using same_path_trans [OF that(1) stays_path [OF media_fail_upgrade_stays [OF f]]] .
        then show ?thesis using eq f again [of d1 M1] by (cases f) (auto simp: host_outcome_def)
      qed
      consider e where "x = Inl e" | e where "x = Inr ()" "y = Inl e" | s where "x = Inr ()" "y = Inr s"
        by (metis (full_types) old.unit.exhaust sum.exhaust)
      then show ?thesis
      proof cases
        case 1
        then show ?thesis using Cons.prems up h Some x p1 by (auto simp: host_outcome_def)
      next
        case 2
        then show ?thesis using Cons.prems(2) up h Some x y failed [OF p1] by auto
      next
        case 3
        obtain z c2 where z: "complete_upgrade_io N m s c1 = (z, c2)" by fastforce
        note eff = complete_upgrade_io_effect [OF z]
        show ?thesis
        proof (cases z)
          case (Inl e)
          then have "same_path c c2" using eff p1 same_path_trans stays_path by auto
          then show ?thesis using Cons.prems(2) up h Some x y z 3 Inl failed [of c2] by auto
        next
          case (Inr u)
          then show ?thesis
            using Cons.prems up h Some x y z 3 eff by (auto simp: host_outcome_def from_media_Upgrade)
        qed
      qed
    qed
  qed
qed

lemma initiate_upgrade_outcome:
  assumes "initiate_bandwidth_upgrade N name c M = (r, c', M')"
  shows "host_outcome r c c'"
  using assms host_media_outcome [OF refl] media_fail_upgrade_stays [of N WifiHotspot c]
  unfolding initiate_bandwidth_upgrade_def
  by (auto simp: host_outcome_def [of "Inl _"] host_outcome_def [of "Inr None"] dest!: stays_path
      split: if_splits prod.splits sum.splits)

lemma conn_receive_path: "conn_receive N c = (r, c') \<Longrightarrow> same_path c c'"
proof (induction "input_left c" arbitrary: c rule: less_induct)
  case less
  show ?case
  proof (cases "pending_events c")
    case (Cons x xs)
    then show ?thesis using less.prems by (subst (asm) conn_receive.simps) auto
  next
    case Nil
    obtain x c1 where x: "conn_recv N c = (x, c1)" by force
    have p1: "same_path c c1" using conn_recv_path [of c N] x by simp
    show ?thesis
    proof (cases x)
      case (Inl e)
      then show ?thesis using less.prems Nil x p1 by (subst (asm) conn_receive.simps) (auto split: if_splits)
    next
      case (Inr f)
      obtain y c2 where y: "conn_event N f c1 = (y, c2)" by force
      have p2: "same_path c c2" using conn_event_path [of c1 N f] y p1 same_path_trans by force
      have "input_left c2 < input_left c" using receive_turn_shorter x Inr y by metis
      then show ?thesis
        using less.prems Nil x Inr y p2 less.hyps [of c2] same_path_trans [OF p2]
        by (subst (asm) conn_receive.simps) (auto split: sum.splits option.splits)
    qed
  qed
qed

lemma negotiated_loop_moved_up: "accept_negotiated_loop N c M = (r, c', M') \<Longrightarrow> moved_up c c'"
proof (induction c arbitrary: M rule: wf_induct_rule [OF wf_negotiation_order])
  case (1 c)
  obtain x c1 where x: "conn_receive N c = (x, c1)" by fastforce
  have p: "moved_up c c1" using conn_receive_path [OF x] by (simp add: moved_up_def)
  note unfolded = "1.prems" [unfolded accept_negotiated_loop.simps [of N c M] x]
  show ?case
  proof (cases x)
    case (Inl e)
    then show ?thesis using unfolded p by simp
  next
    case (Inr ev)
    have less: "ev \<noteq> EvDisconnected \<Longrightarrow> (c1, c) \<in> negotiation_order"
      and less2: "\<And>u y c2 M2. ev \<noteq> EvDisconnected \<Longrightarrow> accept_bandwidth_upgrade N u c1 M = (y, c2, M2) \<Longrightarrow>
        (c2, c) \<in> negotiation_order"
      using negotiation_turn x Inr by metis+
    have skip: "moved_up c c'" if "ev \<noteq> EvDisconnected" "accept_negotiated_loop N c1 M = (r, c', M')"
      using "1.IH" [OF less] that moved_up_trans [OF p] by blast
    have same: "moved_up c (unread ev c1)" using p by (simp add: moved_up_def unread_def same_path_def)
    show ?thesis
    proof (cases "\<exists>m creds. ev = EvUpgrade (PathAvailable m creds)")
      case False
      then show ?thesis
        using unfolded Inr p same skip by (auto split: event.splits upgrade_event.splits)
    next
      case True
      then obtain m creds where ev: "ev = EvUpgrade (PathAvailable m creds)" by blast
      obtain y c2 M2 where y: "accept_bandwidth_upgrade N (PathAvailable m creds) c1 M = (y, c2, M2)"
        by (metis prod_cases3)
      have p2: "moved_up c c2"
        using moved_up_trans [OF p rises_moved_up [OF accept_bandwidth_upgrade_rises [OF y]]] .
      have "moved_up c c'" if "accept_negotiated_loop N c2 M2 = (r, c', M')"
        using "1.IH" [OF less2 [OF _ y]] ev that moved_up_trans [OF p2] by blast
      then show ?thesis
        using unfolded Inr ev y p2 by (auto split: sum.splits option.splits if_splits)
    qed
  qed
qed

lemma accept_upgrade_moved_up:
  "accept_negotiated_upgrade N c M = (r, c', M') \<Longrightarrow> moved_up c c'"
  using negotiated_loop_moved_up [of N c M r c' M']
  by (auto simp: accept_negotiated_upgrade_def moved_up_def split: if_splits)

text \<open>
  C17. A bandwidth upgrade never makes a connection worse. The side that hosts reports a Wi-Fi session
  exactly when the connection has moved to a hotspot or a direct group, which ranks above its former medium;
  in every other outcome, errors included, the connection still uses its former stream and medium.
  The side that joins either stays on its stream or ends on a medium of a higher rank.
\<close>

theorem bandwidth_upgrade_only_rises:
  "(case initiate_bandwidth_upgrade N name c M of
      (Inr (Some w), c', M') \<Rightarrow> rank (c_medium c) < rank (c_medium c') \<and> c_medium c' \<in> {WifiHotspot, WifiDirect}
    | (r, c', M') \<Rightarrow> same_path c c') \<and>
   (case accept_negotiated_upgrade N c M of
      (r, c', M') \<Rightarrow> same_path c c' \<or> rank (c_medium c) < rank (c_medium c'))"
  using initiate_upgrade_outcome [of N name c M] accept_upgrade_moved_up [of N c M]
  by (auto simp: host_outcome_def moved_up_def split: prod.split sum.splits option.splits)

end
