(* ===== verification/Worker_Outbound.thy ===== *)
theory Worker_Outbound
  imports Worker_Media Sharing_Safety "HOL-Library.Sublist"
begin

text \<open>
  Outbound transfers of the network worker (\<open>daemon/network/transfer.rs\<close>): the routes of the peer
  are tried in order, one encrypted session carries the payload, and the attempt ends in one event for
  the endpoint.

  The record \<open>worker_io\<close> is what a transfer uses: the system, the process-wide counter of control
  identifiers, the channel of events (which of the coming sends find the endpoint alive, and what was
  delivered), the values the coming loads of the cancellation flag observe (no cancellation once they
  are used up), the shares whose cancellation was cleared, and the files.
\<close>

subsection \<open>Channels\<close>

record worker_io =
  wi_media :: media
  wi_next :: int
  wi_sends :: "bool list"
  wi_events :: "network_event list"
  wi_loads :: "nat list"
  wi_finished :: "nat list"
  wi_fs :: fs_world

definition events_send :: "network_event \<Rightarrow> worker_io \<Rightarrow> bool \<times> worker_io" where
  "events_send ev w =
     (case wi_sends w of
        [] \<Rightarrow> (True, w\<lparr>wi_events := wi_events w @ [ev]\<rparr>)
      | b # bs \<Rightarrow> (b, w\<lparr>wi_sends := bs, wi_events := wi_events w @ (if b then [ev] else [])\<rparr>))"

text \<open>A send whose result is ignored.\<close>

definition events_post :: "network_event \<Rightarrow> worker_io \<Rightarrow> worker_io" where
  "events_post ev w = snd (events_send ev w)"

definition emit_progress :: "rstring \<Rightarrow> nat \<Rightarrow> nat \<Rightarrow> worker_io \<Rightarrow> worker_io" where
  "emit_progress medium share_id transferred_bytes = events_post (Progress medium share_id transferred_bytes)"

definition share_cancelled :: "nat \<Rightarrow> worker_io \<Rightarrow> bool \<times> worker_io" where
  "share_cancelled share_id w =
     (case wi_loads w of [] \<Rightarrow> (False, w) | v # vs \<Rightarrow> (v = share_id, w\<lparr>wi_loads := vs\<rparr>))"

definition finish_cancellation :: "nat \<Rightarrow> worker_io \<Rightarrow> worker_io" where
  "finish_cancellation share_id w = w\<lparr>wi_finished := wi_finished w @ [share_id]\<rparr>"

text \<open>
  A session of the worker, and what it leaves behind: the counter, the loads it did not make. The
  callbacks given to a session send an event each time they are called, in the order of the calls.
\<close>

definition begin_session :: "nat \<Rightarrow> connection \<Rightarrow> worker_io \<Rightarrow> sharing_session" where
  "begin_session share_id c w = (session_new c (wi_next w))\<lparr>sh_cancel := map (\<lambda>v. v = share_id) (wi_loads w)\<rparr>"

definition end_session :: "sharing_session \<Rightarrow> worker_io \<Rightarrow> worker_io" where
  "end_session s w =
     w\<lparr>wi_next := sh_next s, wi_loads := drop (length (wi_loads w) - length (sh_cancel s)) (wi_loads w)\<rparr>"

fun report_call :: "nat \<Rightarrow> rstring \<Rightarrow> session_call \<Rightarrow> worker_io \<Rightarrow> worker_io" where
  "report_call share_id medium CallAccepted = events_post (OutboundAccepted share_id)"
| "report_call share_id medium (CallProgress transferred_bytes) = emit_progress medium share_id transferred_bytes"

definition report_session :: "nat \<Rightarrow> rstring \<Rightarrow> sharing_session \<Rightarrow> worker_io \<Rightarrow> worker_io" where
  "report_session share_id medium s w = fold (report_call share_id medium) (sh_calls s) w"

subsection \<open>Payloads\<close>

definition source_read_op :: "(source_reader \<times> fs_world) read_op" where
  "source_read_op n rw = source_read n (fst rw) (snd rw)"

definition send_file :: "('sk, 'pk) sharing_net \<Rightarrow> outbound_source \<Rightarrow> sharing_session \<Rightarrow> fs_world \<Rightarrow>
    (protocol_error + nat) \<times> sharing_session \<times> fs_world" where
  "send_file N source s fs =
     (case from_utf8 (os_name source) of
        None \<Rightarrow> (Inl (PIo IInvalidInput), s, fs)
      | Some name \<Rightarrow>
        (case source_reader_of source fs of
           (Inl e, fs) \<Rightarrow> (Inl (PIo IOther), s, fs)
         | (Inr reader, fs) \<Rightarrow>
           (case send_outgoing_file_from source_read_op N name (os_length source) (reader, fs) s of
              (Inl e, (reader, fs), s) \<Rightarrow> (Inl e, s, fs)
            | (Inr _, (reader, fs), s) \<Rightarrow> (Inr (os_length source), s, fs))))"

definition send_outbound_payload :: "('sk, 'pk) sharing_net \<Rightarrow> outbound_payload \<Rightarrow> sharing_session \<Rightarrow> fs_world \<Rightarrow>
    (protocol_error + nat) \<times> sharing_session \<times> fs_world" where
  "send_outbound_payload N payload s fs =
     (case payload of
        PFile source \<Rightarrow> send_file N source s fs
      | PText val \<Rightarrow>
          (case send_outgoing_text N val s of
             (Inl e, s) \<Rightarrow> (Inl e, s, fs)
           | (Inr _, s) \<Rightarrow> (Inr (length val), s, fs))
      | PUrl val \<Rightarrow>
          (case send_outgoing_url N val s of
             (Inl e, s) \<Rightarrow> (Inl e, s, fs)
           | (Inr _, s) \<Rightarrow> (Inr (length val), s, fs)))"

subsection \<open>One connection\<close>

definition send_on_connection :: "('sk, 'pk) sharing_net \<Rightarrow> outbound_payload \<Rightarrow> connection \<Rightarrow> nat \<Rightarrow> rstring \<Rightarrow>
    worker_io \<Rightarrow> (protocol_error + nat) \<times> worker_io" where
  "send_on_connection N payload c share_id name w =
     (case share_cancelled share_id w of
        (True, w) \<Rightarrow> (Inl PCancelled, w)
      | (False, w) \<Rightarrow>
        (case initiate_bandwidth_upgrade (s_net N) name c (wi_media w) of
           (Inl e, c, M) \<Rightarrow> (Inl e, w\<lparr>wi_media := M\<rparr>)
         | (Inr wifi, c, M) \<Rightarrow>
             let w = w\<lparr>wi_media := M\<rparr>;
                 medium = medium_name (c_medium c)
             in (case events_send (OutboundPairing share_id (c_verification_code c)) w of
                   (False, w) \<Rightarrow> (Inl (PIo IBrokenPipe), w)
                 | (True, w) \<Rightarrow>
                   (case next_draw (wi_media w) of (d, M) \<Rightarrow>
                     let w = w\<lparr>wi_media := M\<rparr> in
                     (case exchange_account_free_pairing N (dr_signed_data d) (dr_secret_id_hash d)
                             (begin_session share_id c w) of
                        (Inl e, s) \<Rightarrow> (Inl (pe_source e), end_session s w)
                      | (Inr _, s) \<Rightarrow>
                        (case send_outbound_payload N payload s (wi_fs w) of
                           (r, s, fs) \<Rightarrow>
                             let w = report_session share_id medium s (w\<lparr>wi_fs := fs\<rparr>) in
                             (case r of
                                Inl e \<Rightarrow> (Inl e, end_session s w)
                              | Inr n \<Rightarrow>
                                (case session_drain N s of
                                   (Inl e, s) \<Rightarrow> (Inl e, end_session s w)
                                 | (Inr _, s) \<Rightarrow> (Inr n, end_session s w)))))))))"

subsection \<open>All routes\<close>

text \<open>The routes in the order of the nested loops.\<close>

definition routes_in_order :: "peer_route list \<Rightarrow> peer_route list" where
  "routes_in_order routes = concat (map (\<lambda>m. filter (\<lambda>r. route_medium r = m) routes) attempt_order)"

fun send_over_routes :: "('sk, 'pk) sharing_net \<Rightarrow> outbound_payload \<Rightarrow> nat \<Rightarrow> rstring \<Rightarrow> protocol_error option \<Rightarrow>
    peer_route list \<Rightarrow> worker_io \<Rightarrow> ((protocol_error + nat) \<times> worker_io) option" where
  "send_over_routes N payload share_id name last_error [] w =
     Some (Inl (case last_error of None \<Rightarrow> PDisconnected | Some e \<Rightarrow> e), w)"
| "send_over_routes N payload share_id name last_error (route # routes) w =
     (case share_cancelled share_id w of
        (True, w) \<Rightarrow> Some (Inl PCancelled, w)
      | (False, w) \<Rightarrow>
        (case connect_route (s_net N) route name (wi_media w) of
           None \<Rightarrow> None
         | Some (Inl e, M) \<Rightarrow>
             send_over_routes N payload share_id name (Some e) routes (w\<lparr>wi_media := M\<rparr>)
         | Some (Inr c, M) \<Rightarrow> Some (send_on_connection N payload c share_id name (w\<lparr>wi_media := M\<rparr>))))"

definition send_payload :: "('sk, 'pk) sharing_net \<Rightarrow> outbound_payload \<Rightarrow> peer_route list \<Rightarrow> nat \<Rightarrow> rstring \<Rightarrow>
    worker_io \<Rightarrow> ((protocol_error + nat) \<times> worker_io) option" where
  "send_payload N payload routes share_id name w =
     send_over_routes N payload share_id name None (routes_in_order routes) w"

fun terminal_event :: "nat \<Rightarrow> protocol_error + nat \<Rightarrow> network_event" where
  "terminal_event share_id (Inr n) = OutboundCompleted n share_id"
| "terminal_event share_id (Inl PCancelled) = OutboundCancelled share_id"
| "terminal_event share_id (Inl PRejected) = OutboundRejected share_id"
| "terminal_event share_id (Inl e) = OutboundFailed (ascii (reason e)) share_id"

definition outbound_event :: "('sk, 'pk) sharing_net \<Rightarrow> nat \<Rightarrow> outbound_transfer \<Rightarrow> rstring \<Rightarrow> worker_io \<Rightarrow>
    (network_event \<times> worker_io) option" where
  "outbound_event N share_id transfer name w =
     (case send_payload N (ot_payload transfer) (ot_routes transfer) share_id name w of
        None \<Rightarrow> None
      | Some (r, w) \<Rightarrow> Some (terminal_event share_id r, finish_cancellation share_id w))"

subsection \<open>What a session reports\<close>

fun payload_length :: "outbound_payload \<Rightarrow> nat" where
  "payload_length (PFile source) = os_length source"
| "payload_length (PText val) = length val"
| "payload_length (PUrl val) = length val"

lemma exchange_calls:
  "exchange_account_free_pairing N a b s = (r, s') \<Longrightarrow> sh_calls s' = sh_calls s"
  by (auto simp: exchange_account_free_pairing_def dest!: send_control_accepted receive_bytes_accepted
      split: prod.splits sum.splits)

lemma source_bounded: "bounded_read source_read_op"
  by (auto simp: bounded_read_def source_read_op_def source_read_def read_at_def split: prod.splits sum.splits option.splits)

lemma send_outbound_payload_course:
  assumes "send_outbound_payload N p s fs = (r, s', fs')"
  shows "\<exists>cs. sh_calls s' = sh_calls s @ cs \<and> call_course (payload_length p) cs \<and>
    (case r of Inl e \<Rightarrow> True | Inr n \<Rightarrow> n = payload_length p \<and> full_course n cs)"
proof -
  have none: ?thesis if "r = Inl e" "s' = s" for e using that by (intro exI [of _ "[]"]) (simp add: call_course_def)
  have sent: ?thesis if "\<exists>cs. sh_calls s1 = sh_calls s @ cs \<and> call_course (payload_length p) cs \<and>
      (x = Inr () \<longrightarrow> full_course (payload_length p) cs)" "s' = s1" "r = map_sum id (\<lambda>_. payload_length p) x" for x s1
    using that by (cases x) auto
  show ?thesis
  proof (cases p)
    case (PFile source)
    show ?thesis
    proof (cases "\<exists>name reader fs1. from_utf8 (os_name source) = Some name \<and> source_reader_of source fs = (Inr reader, fs1)")
      case False
      then have "\<exists>e. r = Inl e \<and> s' = s"
        using assms PFile by (auto simp: send_outbound_payload_def send_file_def split: option.splits prod.splits sum.splits)
      then show ?thesis using none by blast
    next
      case True
      then obtain name reader fs1 where n: "from_utf8 (os_name source) = Some name"
        "source_reader_of source fs = (Inr reader, fs1)" by blast
      obtain x rw s1 where x: "send_outgoing_file_from source_read_op N name (os_length source) (reader, fs1) s = (x, rw, s1)"
        by (metis prod_cases3)
      have "s' = s1" "r = map_sum id (\<lambda>_. payload_length p) x"
        using assms PFile n x by (cases x; cases rw; simp add: send_outbound_payload_def send_file_def)+
      moreover have "\<exists>cs. sh_calls s1 = sh_calls s @ cs \<and> call_course (payload_length p) cs \<and>
          (x = Inr () \<longrightarrow> full_course (payload_length p) cs)"
        using file_calls_course [OF x source_bounded] PFile by simp
      ultimately show ?thesis using sent by blast
    qed
  next
    case (PText val)
    obtain x s1 where x: "send_outgoing_text N val s = (x, s1)" by force
    have "s' = s1" "r = map_sum id (\<lambda>_. payload_length p) x"
      using assms PText x by (cases x; simp add: send_outbound_payload_def)+
    then show ?thesis using sent value_calls_course [of N val TtText s x s1] x PText by (simp add: send_outgoing_text_def)
  next
    case (PUrl val)
    obtain x s1 where x: "send_outgoing_url N val s = (x, s1)" by force
    have "s' = s1" "r = map_sum id (\<lambda>_. payload_length p) x"
      using assms PUrl x by (cases x; simp add: send_outbound_payload_def)+
    then show ?thesis using sent value_calls_course [of N val TtUrl s x s1] x PUrl by (simp add: send_outgoing_url_def)
  qed
qed

lemma events_send_alive: "wi_sends w = [] \<Longrightarrow> events_send ev w = (True, w\<lparr>wi_events := wi_events w @ [ev]\<rparr>)"
  by (simp add: events_send_def)

lemma events_post_alive: "wi_sends w = [] \<Longrightarrow> events_post ev w = w\<lparr>wi_events := wi_events w @ [ev]\<rparr>"
  by (simp add: events_post_def events_send_alive)

text \<open>The event a call sends.\<close>

fun call_event :: "nat \<Rightarrow> rstring \<Rightarrow> session_call \<Rightarrow> network_event" where
  "call_event i m CallAccepted = OutboundAccepted i"
| "call_event i m (CallProgress n) = Progress m i n"

lemma report_call_alive:
  "wi_sends w = [] \<Longrightarrow> report_call i m call w = w\<lparr>wi_events := wi_events w @ [call_event i m call]\<rparr>"
  by (cases call) (simp_all add: emit_progress_def events_post_alive)

lemma report_session_alive:
  assumes "wi_sends w = []"
  shows "report_session i m s w = w\<lparr>wi_events := wi_events w @ map (call_event i m) (sh_calls s)\<rparr>"
proof -
  have "fold (report_call i m) cs v = v\<lparr>wi_events := wi_events v @ map (call_event i m) cs\<rparr>" if "wi_sends v = []" for cs v
    using that by (induction cs arbitrary: v) (simp_all add: report_call_alive)
  then show ?thesis using assms by (simp add: report_session_def)
qed

subsection \<open>The attempts\<close>

lemma dial_attempts: "dial M = (r, M') \<Longrightarrow> md_attempts M' = md_attempts M"
  by (auto simp: dial_def split: prod.splits)

lemma wait_attempts: "wait_for_upgrade_stream M = (r, M') \<Longrightarrow> md_attempts M' = md_attempts M"
  by (auto simp: wait_for_upgrade_stream_def split: prod.splits option.splits)

lemma host_media_attempts:
  "host_media N name port present ms c M = (r, c', M') \<Longrightarrow> md_attempts M' = md_attempts M"
proof (induction ms arbitrary: c M)
  case Nil
  then show ?case by (auto split: prod.splits sum.splits)
next
  case (Cons m ms)
  have IH: "md_attempts M' = md_attempts M1" if "host_media N name port present ms d M1 = (r, c', M')" for d M1
    using Cons.IH that by blast
  show ?case
    using Cons.prems
    by (auto split: prod.splits sum.splits option.splits if_splits dest!: wait_attempts IH)
qed

lemma initiate_attempts:
  "initiate_bandwidth_upgrade N name c M = (r, c', M') \<Longrightarrow> md_attempts M' = md_attempts M"
  by (auto simp: initiate_bandwidth_upgrade_def dest!: host_media_attempts split: if_splits prod.splits sum.splits)

lemma open_connection_attempts:
  "open_connection N s m ro name M = Some (r, M') \<Longrightarrow> md_attempts M' = md_attempts M"
  by (auto simp: open_connection_def next_draw_def split: prod.splits sum.splits option.splits)

lemma connect_stream_attempts: "connect_stream route M = (r, M') \<Longrightarrow> md_attempts M' = md_attempts M"
  by (auto simp: connect_stream_def dest!: dial_attempts split: peer_route.splits prod.splits sum.splits if_splits)

lemma connect_route_attempts:
  assumes "connect_route N route name M = Some (r, M')"
  shows "md_attempts M' = md_attempts M @ [(route, \<not> isl r)]"
  using assms
  by (auto simp: connect_route_def connect_connection_def route_attempted_def
      dest!: connect_stream_attempts open_connection_attempts split: prod.splits sum.splits option.splits)

subsection \<open>The course of an attempt\<close>

text \<open>
  The events of one connection to a payload of \<open>sz\<close> bytes: the code, then at most one acceptance, then
  progress that rises up to \<open>sz\<close>; and the events of a completed one.
\<close>

definition outbound_trace :: "nat \<Rightarrow> nat \<Rightarrow> network_event list \<Rightarrow> bool" where
  "outbound_trace i sz evs \<longleftrightarrow> evs = [] \<or> (\<exists>code. evs = [OutboundPairing i code]) \<or>
     (\<exists>code m ps. evs = OutboundPairing i code # OutboundAccepted i # map (Progress m i) ps \<and> progress_within sz ps)"

definition completed_trace :: "nat \<Rightarrow> nat \<Rightarrow> network_event list \<Rightarrow> bool" where
  "completed_trace i sz evs \<longleftrightarrow> (\<exists>code m ps. evs = OutboundPairing i code # OutboundAccepted i # map (Progress m i) ps \<and>
     ps \<noteq> [] \<and> last ps = sz)"

lemma course_events:
  shows "call_course sz cs \<Longrightarrow> outbound_trace i sz (OutboundPairing i code # map (call_event i m) cs)"
    and "full_course sz cs \<Longrightarrow> completed_trace i sz (OutboundPairing i code # map (call_event i m) cs)"
proof -
  have progress: "map (call_event i m) (map CallProgress ps) = map (Progress m i) ps" for ps by simp
  show "outbound_trace i sz (OutboundPairing i code # map (call_event i m) cs)" if "call_course sz cs"
    using that unfolding call_course_def outbound_trace_def
    by (elim disjE exE conjE) (simp, intro disjI2, simp only: list.map progress call_event.simps, blast)
  show "completed_trace i sz (OutboundPairing i code # map (call_event i m) cs)" if "full_course sz cs"
    using that unfolding full_course_def completed_trace_def
    by (elim exE conjE) (simp only: list.map progress call_event.simps, blast)
qed

lemma share_cancelled_keeps:
  "share_cancelled i w = (b, w') \<Longrightarrow> wi_events w' = wi_events w \<and> wi_sends w' = wi_sends w \<and>
     wi_media w' = wi_media w \<and> wi_finished w' = wi_finished w"
  by (auto simp: share_cancelled_def split: list.splits)

lemma end_session_keeps [simp]:
  "wi_events (end_session s w) = wi_events w" "wi_media (end_session s w) = wi_media w"
  "wi_finished (end_session s w) = wi_finished w"
  by (simp_all add: end_session_def)

lemma send_on_connection_trace:
  assumes "send_on_connection N p c i name w = (r, w')" and alive: "wi_sends w = []"
  shows "\<exists>evs. wi_events w' = wi_events w @ evs \<and> outbound_trace i (payload_length p) evs \<and>
    md_attempts (wi_media w') = md_attempts (wi_media w) \<and> wi_finished w' = wi_finished w \<and>
    (case r of Inl e \<Rightarrow> True | Inr n \<Rightarrow> n = payload_length p \<and> completed_trace i n evs)"
proof -
  obtain b w1 where b: "share_cancelled i w = (b, w1)" by fastforce
  note k1 = share_cancelled_keeps [OF b]
  obtain x c2 M where x: "initiate_bandwidth_upgrade (s_net N) name c (wi_media w1) = (x, c2, M)"
    by (metis prod_cases3)
  note a2 = initiate_attempts [OF x]
  let ?ev = "OutboundPairing i (c_verification_code c2)"
  obtain d M3 where d: "next_draw M = (d, M3)" by fastforce
  define w3 where "w3 = w1\<lparr>wi_events := wi_events w @ [?ev], wi_media := M3\<rparr>"
  have a3: "md_attempts M3 = md_attempts M" using d by (auto simp: next_draw_def)
  obtain y s4 where y: "exchange_account_free_pairing N (dr_signed_data d) (dr_secret_id_hash d)
      (begin_session i c2 w3) = (y, s4)" by fastforce
  have zero: "sh_calls s4 = []"
    using exchange_calls [OF y] by (simp add: begin_session_def session_new_def)
  obtain z s5 fs where z: "send_outbound_payload N p s4 (wi_fs w3) = (z, s5, fs)" by (metis prod_cases3)
  have course: "call_course (payload_length p) (sh_calls s5)"
    "case z of Inl e \<Rightarrow> True | Inr n \<Rightarrow> n = payload_length p \<and> full_course n (sh_calls s5)"
    using send_outbound_payload_course [OF z] zero by auto
  define w5 where "w5 = report_session i (medium_name (c_medium c2)) s5 (w3\<lparr>wi_fs := fs\<rparr>)"
  have w5: "wi_events w5 = wi_events w @ ?ev # map (call_event i (medium_name (c_medium c2))) (sh_calls s5)"
    "wi_media w5 = M3" "wi_finished w5 = wi_finished w"
    using alive k1 by (simp_all add: w5_def w3_def report_session_alive)
  obtain u s6 where u: "session_drain N s5 = (u, s6)" by fastforce
  note eq = assms(1) [unfolded send_on_connection_def b, simplified]
  consider "b" | e where "\<not> b" "x = Inl e" | wifi e where "\<not> b" "x = Inr wifi" "y = Inl e"
    | wifi v where "\<not> b" "x = Inr wifi" "y = Inr v"
    by (metis sum.exhaust)
  then show ?thesis
  proof cases
    case 1
    then have "r = Inl PCancelled" "w' = w1" using eq by simp_all
    then show ?thesis using k1 by (intro exI [of _ "[]"]) (simp add: outbound_trace_def)
  next
    case 2
    then have "r = Inl e" "w' = w1\<lparr>wi_media := M\<rparr>" using eq x by simp_all
    then show ?thesis using k1 a2 by (intro exI [of _ "[]"]) (simp add: outbound_trace_def)
  next
    case 3
    then have "r = Inl (pe_source e)" "w' = end_session s4 w3"
      using eq x y d alive k1 by (simp_all add: events_send_alive w3_def Let_def)
    then show ?thesis
      using k1 a2 a3 by (intro exI [of _ "[?ev]"]) (auto simp: outbound_trace_def w3_def)
  next
    case 4
    have reached: "(r, w') = (case z of
        Inl e \<Rightarrow> (Inl e, end_session s5 w5)
      | Inr n \<Rightarrow> (case u of Inl e \<Rightarrow> (Inl e, end_session s6 w5) | Inr _ \<Rightarrow> (Inr n, end_session s6 w5)))"
      using 4 eq x y z u d alive k1
      by (cases z; cases u) (auto simp: events_send_alive w3_def w5_def Let_def)
    let ?evs = "?ev # map (call_event i (medium_name (c_medium c2))) (sh_calls s5)"
    note trace = course_events(1) [OF course(1)] course_events(2)
    have "outbound_trace i (payload_length p) ?evs" by (rule trace(1))
    moreover have "wi_events w' = wi_events w @ ?evs \<and> wi_media w' = M3 \<and> wi_finished w' = wi_finished w"
      using reached w5 by (auto split: sum.splits)
    moreover have "case r of Inl e \<Rightarrow> True | Inr n \<Rightarrow> n = payload_length p \<and> completed_trace i n ?evs"
      using reached course(2) trace(2) by (auto split: sum.splits)
    ultimately show ?thesis using a2 a3 k1 by (intro exI [of _ ?evs]) simp
  qed
qed

lemma send_over_routes_trace:
  assumes "send_over_routes N p i name le routes w = Some (r, w')" and "wi_sends w = []"
  shows "\<exists>tried evs. md_attempts (wi_media w') = md_attempts (wi_media w) @ tried \<and> prefix (map fst tried) routes \<and>
    list_all (\<lambda>a. \<not> snd a) (butlast tried) \<and> wi_events w' = wi_events w @ evs \<and>
    (evs = [] \<or> tried \<noteq> [] \<and> snd (last tried)) \<and> wi_finished w' = wi_finished w \<and>
    (case r of Inl e \<Rightarrow> True | Inr n \<Rightarrow>
       n = payload_length p \<and> completed_trace i n evs \<and> tried \<noteq> [] \<and> snd (last tried))"
  using assms
proof (induction routes arbitrary: le w)
  case Nil
  then show ?case by (intro exI [of _ "[]"]) (auto simp: outbound_trace_def)
next
  case (Cons route routes)
  obtain b w1 where b: "share_cancelled i w = (b, w1)" by fastforce
  note k1 = share_cancelled_keeps [OF b]
  show ?case
  proof (cases b)
    case True
    then show ?thesis using Cons.prems b k1 by (intro exI [of _ "[]"]) (auto simp: outbound_trace_def)
  next
    case False
    then obtain x M where x: "connect_route (s_net N) route name (wi_media w1) = Some (x, M)"
      using Cons.prems b by (auto split: option.splits)
    note a = connect_route_attempts [OF x]
    show ?thesis
    proof (cases x)
      case (Inl e)
      then have "send_over_routes N p i name (Some e) routes (w1\<lparr>wi_media := M\<rparr>) = Some (r, w')"
        using Cons.prems b x False by simp
      from Cons.IH [OF this] obtain tried evs where t:
        "md_attempts (wi_media w') = md_attempts (wi_media w) @ (route, False) # tried" "prefix (map fst tried) routes"
        "list_all (\<lambda>a. \<not> snd a) (butlast tried)" "wi_events w' = wi_events w @ evs"
        "evs = [] \<or> tried \<noteq> [] \<and> snd (last tried)" "wi_finished w' = wi_finished w"
        "case r of Inl e \<Rightarrow> True | Inr n \<Rightarrow>
           n = payload_length p \<and> completed_trace i n evs \<and> tried \<noteq> [] \<and> snd (last tried)"
        using Cons.prems(2) k1 a Inl by auto
      then show ?thesis
        by (intro exI [of _ "(route, False) # tried"] exI [of _ evs]) (auto split: sum.splits)
    next
      case (Inr c)
      then have "send_on_connection N p c i name (w1\<lparr>wi_media := M\<rparr>) = (r, w')"
        using Cons.prems b x False by simp
      from send_on_connection_trace [OF this] Cons.prems(2) k1 a Inr
      show ?thesis by (intro exI [of _ "[(route, True)]"]) (cases r; auto)
    qed
  qed
qed

text \<open>The nested loops visit the routes in the order the endpoint keeps them in.\<close>

lemma routes_in_order_sorted: "routes_in_order routes = sort_key order_key routes"
proof (rule sym, rule properties_for_sort_key)
  let ?part = "\<lambda>m. filter (\<lambda>r. route_medium r = m) routes"
  have parts: "routes_in_order routes = ?part WifiLan @ ?part Ble @ ?part Bluetooth"
  proof -
    have "?part WifiHotspot = []" "?part WifiDirect = []"
      by (auto simp: filter_empty_conv) (metis medium.distinct route_medium.elims)+
    then show ?thesis by (simp add: routes_in_order_def attempt_order_def)
  qed
  have key: "order_key r = (case r of RouteLan _ \<Rightarrow> 0 | RouteBle _ \<Rightarrow> 3 | RouteClassic _ \<Rightarrow> 4)" for r
    by (cases r) (simp_all add: order_key_def attempt_order_def)
  show "mset (routes_in_order routes) = mset routes"
    unfolding parts
  proof (induction routes)
    case (Cons r rs)
    then show ?case by (cases r) simp_all
  qed simp
  show "filter (\<lambda>x. order_key k = order_key x) (routes_in_order routes) =
      filter (\<lambda>x. order_key k = order_key x) routes" for k
  proof -
    have same: "order_key k = order_key x \<longleftrightarrow> route_medium x = route_medium k" for x
      by (cases k; cases x) (simp_all add: key)
    show ?thesis unfolding parts same by (cases k) (simp_all cong: conj_cong)
  qed
  have const: "map order_key (?part m) = replicate (length (?part m)) (order_key_of m)"
    if "\<And>r. route_medium r = m \<Longrightarrow> order_key r = order_key_of m" for m order_key_of
    using that by (induction routes) auto
  show "sorted (map order_key (routes_in_order routes))"
  proof -
    have "map order_key (?part WifiLan) = replicate (length (?part WifiLan)) 0"
      by (rule const [of WifiLan "\<lambda>_. 0"]) (auto simp: key split: peer_route.splits)
    moreover have "map order_key (?part Ble) = replicate (length (?part Ble)) 3"
      by (rule const [of Ble "\<lambda>_. 3"]) (auto simp: key split: peer_route.splits)
    moreover have "map order_key (?part Bluetooth) = replicate (length (?part Bluetooth)) 4"
      by (rule const [of Bluetooth "\<lambda>_. 4"]) (auto simp: key split: peer_route.splits)
    ultimately show ?thesis unfolding parts by (simp add: sorted_append)
  qed
qed

lemma outbound_attempt_course:
  assumes "outbound_event N share_id transfer name w = Some (ev, w')" and "wi_sends w = []"
  shows "\<exists>tried evs. md_attempts (wi_media w') = md_attempts (wi_media w) @ tried \<and>
    prefix (map fst tried) (sort_key order_key (ot_routes transfer)) \<and>
    list_all (\<lambda>a. \<not> snd a) (butlast tried) \<and>
    wi_events w' = wi_events w @ evs \<and> (evs = [] \<or> tried \<noteq> [] \<and> snd (last tried)) \<and>
    wi_finished w' = wi_finished w @ [share_id] \<and>
    (case ev of
       OutboundCompleted n i \<Rightarrow> i = share_id \<and> n = payload_length (ot_payload transfer) \<and>
         completed_trace share_id n evs \<and> tried \<noteq> [] \<and> snd (last tried)
     | OutboundCancelled i \<Rightarrow> i = share_id
     | OutboundRejected i \<Rightarrow> i = share_id
     | OutboundFailed why i \<Rightarrow> i = share_id
     | _ \<Rightarrow> False)"
proof -
  obtain r w1 where r: "send_over_routes N (ot_payload transfer) share_id name None
      (routes_in_order (ot_routes transfer)) w = Some (r, w1)"
    and ev: "ev = terminal_event share_id r" "w' = finish_cancellation share_id w1"
    using assms(1) by (auto simp: outbound_event_def send_payload_def split: option.splits)
  from send_over_routes_trace [OF r assms(2)] obtain tried evs where
    "md_attempts (wi_media w1) = md_attempts (wi_media w) @ tried"
    "prefix (map fst tried) (routes_in_order (ot_routes transfer))" "list_all (\<lambda>a. \<not> snd a) (butlast tried)"
    "wi_events w1 = wi_events w @ evs" "evs = [] \<or> tried \<noteq> [] \<and> snd (last tried)" "wi_finished w1 = wi_finished w"
    "case r of Inl e \<Rightarrow> True | Inr n \<Rightarrow>
       n = payload_length (ot_payload transfer) \<and> completed_trace share_id n evs \<and> tried \<noteq> [] \<and> snd (last tried)"
    by blast
  moreover have "ev \<in> {OutboundCancelled share_id, OutboundRejected share_id, OutboundFailed (ascii (reason e)) share_id}"
    if "r = Inl e" for e
    using ev that by (cases e) simp_all
  ultimately show ?thesis
    using ev
    by (intro exI [of _ tried] exI [of _ evs], cases r)
      (fastforce simp: finish_cancellation_def routes_in_order_sorted)+
qed


text \<open>
  C16. An outbound attempt ends in exactly one final event. While the endpoint listens: the worker tries the
  peer's routes in the order Wi-Fi, BLE, Bluetooth, going on only after a route failed, so that at most one
  connection is made, and reports nothing unless it was; the event it returns is a final one for this
  share; and \<open>OutboundCompleted\<close> comes only with the length of the payload, on a connection that was made
  and reported the acceptance and the progress up to that length.
\<close>

theorem outbound_attempt:
  assumes "outbound_event N share_id transfer name w = Some (ev, w')" and "wi_sends w = []"
  shows "\<exists>tried evs. md_attempts (wi_media w') = md_attempts (wi_media w) @ tried \<and>
    prefix (map fst tried) (sort_key order_key (ot_routes transfer)) \<and>
    list_all (\<lambda>a. \<not> snd a) (butlast tried) \<and>
    wi_events w' = wi_events w @ evs \<and> (evs = [] \<or> tried \<noteq> [] \<and> snd (last tried)) \<and>
    wi_finished w' = wi_finished w @ [share_id] \<and>
    (case ev of
       OutboundCompleted n i \<Rightarrow> i = share_id \<and> n = payload_length (ot_payload transfer) \<and>
         completed_trace share_id n evs \<and> tried \<noteq> [] \<and> snd (last tried)
     | OutboundCancelled i \<Rightarrow> i = share_id
     | OutboundRejected i \<Rightarrow> i = share_id
     | OutboundFailed why i \<Rightarrow> i = share_id
     | _ \<Rightarrow> False)"
  by (rule outbound_attempt_course [OF assms])

subsection \<open>A text that is sent\<close>

text \<open>
  A peer on the local network that has already sent its half of the pairing and its acceptance, and closes
  the connection once it has the text.
\<close>

definition ex_peer :: connection where
  "ex_peer = ex_connection\<lparr>c_stream := idle_stream\<lparr>s_end := IUnexpectedEof\<rparr>, pending_events :=
     [EvBytes 1 (xe_sharing (account_free_encryption [] [])), EvBytes 2 (xe_sharing account_free_result),
      EvBytes 4 (xe_sharing accept_response)]\<rparr>"

definition ex_draw :: draw where
  "ex_draw = \<lparr>dr_salt = [0, 0], dr_metadata_key = replicate 14 0, dr_random = replicate 32 1, dr_secret = replicate 32 2,
     dr_signed_data = [], dr_secret_id_hash = []\<rparr>"

definition ex_media :: media where
  "ex_media = \<lparr>md_draws = \<lambda>_. ex_draw, md_drawn = 0, md_adapter = False, md_manager = False,
     md_dials = [Inl IConnectionRefused], md_attempts = [], md_hosted = [], md_joined = [], md_peers = [],
     md_listeners = [], md_nonblocking = [], md_accepts = [], md_clock = 0\<rparr>"

definition ex_io :: worker_io where
  "ex_io = \<lparr>wi_media = ex_media, wi_next = 1, wi_sends = [], wi_events = [], wi_loads = [], wi_finished = [],
     wi_fs = (\<lparr>fv_lookup = \<lambda>_. None, fv_data = \<lambda>_. [], fv_fault = None, fv_limit = None\<rparr>, [])\<rparr>"

definition ex_talk :: "nat \<Rightarrow> int \<Rightarrow> event list \<Rightarrow> sharing_session \<Rightarrow> bool" where
  "ex_talk n k evs s \<longleftrightarrow> ex_sender n (sh_conn s) \<and> sh_next s = k \<and> pending_events (sh_conn s) = evs \<and> sh_cancel s = [] \<and>
     s_in (c_stream (sh_conn s)) = [] \<and> s_end (c_stream (sh_conn s)) = IUnexpectedEof"

lemma ex_talk_send:
  assumes "ex_talk n k evs s" "length (xe_sharing f) \<le> 1000" "n < 1000" "0 \<le> k" "k \<le> 1000"
  shows "\<exists>s'. send_control_frame ex_sharing f s = (Inr (), s') \<and> ex_talk (Suc (Suc n)) (next_control_id k) evs s'"
proof -
  obtain c where c: "send_control_frame ex_sharing f s = (Inr (), s\<lparr>sh_next := next_control_id (sh_next s), sh_conn := c\<rparr>)"
    "ex_sender (Suc (Suc n)) c"
    using ex_send_control [OF assms(2), of n s] assms(1,3-5) by (auto simp: ex_talk_def)
  obtain d where d: "send_bytes ex_net (sh_next s) (xe_sharing f) (sh_conn s) = (Inr (), d)" "d = c"
    using send_control_Inr [OF c(1)] by (auto dest: arg_cong [where f = sh_conn])
  note k = same_but_output_fields [OF send_bytes_same [OF d(1)]]
  show ?thesis using c k d(2) assms(1) by (auto simp: ex_talk_def)
qed

lemma pending_event_first:
  "pending_events (sh_conn s) = ev # evs \<Longrightarrow>
     session_receive N s = (Inr ev, s\<lparr>sh_conn := (sh_conn s)\<lparr>pending_events := evs\<rparr>\<rparr>)"
  by (simp add: session_receive_def on_conn_def conn_receive.simps)

lemma ex_talk_receive:
  assumes "ex_talk n k (EvBytes i (xe_sharing f) # evs) s" "is_cancel (dec_sharing ex_sharing) (xe_sharing f) = Inr False"
  shows "\<exists>s'. receive_bytes ex_sharing s = (Inr (xe_sharing f), s') \<and> ex_talk n k evs s'"
proof -
  let ?s = "s\<lparr>sh_conn := (sh_conn s)\<lparr>pending_events := evs\<rparr>\<rparr>"
  have "session_receive ex_sharing s = (Inr (EvBytes i (xe_sharing f)), ?s)"
    using assms(1) by (intro pending_event_first) (simp add: ex_talk_def)
  then have "receive_bytes ex_sharing s = (Inr (xe_sharing f), ?s)"
    using assms(2) by (simp add: receive_bytes_def next_transfer_event.simps)
  moreover have "ex_talk n k evs ?s" using assms(1) by (simp add: ex_talk_def ex_sender_def)
  ultimately show ?thesis by blast
qed

lemma ex_frames:
  "is_cancel (dec_sharing ex_sharing) (xe_sharing (account_free_encryption [] [])) = Inr False"
  "is_cancel (dec_sharing ex_sharing) (xe_sharing account_free_result) = Inr False"
  "is_cancel (dec_sharing ex_sharing) (xe_sharing accept_response) = Inr False"
  "decode_pairing (dec_sharing ex_sharing) (xe_sharing (account_free_encryption [] [])) = Inr Unable"
  "decode_pairing (dec_sharing ex_sharing) (xe_sharing account_free_result) = Inr Unable"
  by (simp_all add: whole_codec [OF codec_sharing] is_cancel_def decode_pairing_def accept_response_def builder_defs)

lemma ex_accept_read: "decode_response (dec_sharing ex_sharing) (xe_sharing accept_response) = Inr StAccept"
  by (simp add: decode_response_def whole_codec [OF codec_sharing] accept_response_def builder_defs
      del: frame_type_number.simps status_number.simps)

lemma ex_pairing:
  assumes "sh_conn s = ex_peer" "sh_next s = 1" "sh_cancel s = []"
  shows "\<exists>s'. exchange_account_free_pairing ex_sharing [] [] s = (Inr Unable, s') \<and>
    ex_talk 4 4 [EvBytes 4 (xe_sharing accept_response)] s'"
proof -
  have 0: "ex_talk 0 1 (pending_events ex_peer) s"
    using assms by (simp add: ex_talk_def ex_peer_def ex_sender_def ex_connection_def ex_channel_def idle_stream_def
        s_healthy_def KEY_LENGTH_def Let_def)
  obtain s1 where 1: "send_control_frame ex_sharing (account_free_encryption [] []) s = (Inr (), s1)"
    "ex_talk 2 2 (pending_events ex_peer) s1"
    using ex_talk_send [OF 0, of "account_free_encryption [] []"]
    by (auto simp: ex_sharing_defs next_control_id_def i64_max_def numeral_2_eq_2)
  obtain s2 where 2: "receive_bytes ex_sharing s1 = (Inr (xe_sharing (account_free_encryption [] [])), s2)"
    "ex_talk 2 2 [EvBytes 2 (xe_sharing account_free_result), EvBytes 4 (xe_sharing accept_response)] s2"
    using ex_talk_receive [of 2 2 1 "account_free_encryption [] []" _ s1] 1(2) ex_frames(1) by (auto simp: ex_peer_def)
  obtain s3 where 3: "send_control_frame ex_sharing account_free_result s2 = (Inr (), s3)"
    "ex_talk 4 4 [EvBytes 2 (xe_sharing account_free_result), EvBytes 4 (xe_sharing accept_response)] s3"
    using ex_talk_send [OF 2(2), of account_free_result]
    by (auto simp: ex_sharing_defs next_control_id_def PAIRING_UNABLE_def eval_nat_numeral)
  obtain s4 where 4: "receive_bytes ex_sharing s3 = (Inr (xe_sharing account_free_result), s4)"
    "ex_talk 4 4 [EvBytes 4 (xe_sharing accept_response)] s4"
    using ex_talk_receive [of 4 4 2 account_free_result _ s3] 3(2) ex_frames(2) by auto
  show ?thesis using 1(1) 2(1) 3(1) 4 ex_frames(4,5) by (simp add: exchange_account_free_pairing_def)
qed

lemma ex_text_sent:
  assumes "ex_talk 4 4 [EvBytes 4 (xe_sharing accept_response)] s"
  shows "\<exists>s'. send_outgoing_text ex_sharing [104, 105] s = (Inr (), s') \<and> ex_talk 8 5 [] s'"
proof -
  have go: "is_cancelled x = (False, x)" "stop_if_cancelled ex_sharing x = (Inr (), x)" if "sh_cancel x = []" for x
    using that by (simp_all add: stop_if_cancelled_def is_cancelled_def)
  let ?f = "text_introduction [104, 105] 2 TtText"
  obtain s1 where 1: "send_control_frame ex_sharing ?f s = (Inr (), s1)" "ex_talk 6 5 [EvBytes 4 (xe_sharing accept_response)] s1"
    using ex_talk_send [OF assms, of ?f] by (auto simp: ex_sharing_defs next_control_id_def i64_max_def eval_nat_numeral)
  obtain s2 where 2: "receive_bytes ex_sharing s1 = (Inr (xe_sharing accept_response), s2)" "ex_talk 6 5 [] s2"
    using ex_talk_receive [OF 1(2) ex_frames(3)] by blast
  have await: "await_consent ex_sharing s1 = (Inr (), s2)" using 2(1) ex_accept_read by (simp add: await_consent_def)
  have t: "sh_cancel s = []" "sh_cancel (on_accepted s2) = []" "sh_conn (on_accepted s2) = sh_conn s2"
    using assms 2(2) by (simp_all add: ex_talk_def on_accepted_def)
  obtain c where c: "send_bytes ex_net TEXT_PAYLOAD_ID [104, 105] (sh_conn s2) = (Inr (), c)" "ex_sender 8 c"
    using ex_sharing_send_bytes [of TEXT_PAYLOAD_ID "[104, 105]" 6 "sh_conn s2"] 2(2)
    by (auto simp: TEXT_PAYLOAD_ID_def ex_talk_def eval_nat_numeral)
  note k = same_but_output_fields [OF send_bytes_same [OF c(1)]]
  let ?s = "on_progress 2 ((on_accepted s2)\<lparr>sh_conn := c\<rparr>)"
  have sent: "on_conn (send_bytes ex_net TEXT_PAYLOAD_ID [104, 105]) (on_accepted s2) = (Inr (), (on_accepted s2)\<lparr>sh_conn := c\<rparr>)"
    using c(1) t(3) by (simp add: on_conn_def)
  have "sh_cancel ?s = []" using t(2) by (simp add: on_progress_def)
  moreover have "i64_of_usize (length [104 :: byte, 105]) = Some 2" by (simp add: i64_of_usize_def i64_max_def)
  ultimately have "send_outgoing_text ex_sharing [104, 105] s = (Inr (), ?s)"
    using 1(1) await sent go t
    by (simp add: send_outgoing_text_def send_outgoing_value_def MAX_TEXT_BYTES_def numeral_2_eq_2)
  moreover have "ex_talk 8 5 [] ?s"
    using c(2) k 2(2) by (simp add: ex_talk_def on_progress_def on_accepted_def)
  ultimately show ?thesis by blast
qed

lemma ex_drain:
  assumes "ex_talk n k [] s"
  shows "\<exists>s'. session_drain ex_sharing s = (Inr (), s')"
  using assms by (simp add: ex_talk_def session_drain_def drain_post_transfer_control_def drain_control_until.simps recv_during_def
      io_read_eq map_cancelled_def peer_closed_def)

lemma ex_text_out: "\<exists>w'. send_on_connection ex_sharing (PText [104, 105]) ex_peer 7 [110] ex_io = (Inr 2, w')"
proof -
  let ?w = "ex_io\<lparr>wi_events := [OutboundPairing 7 (c_verification_code ex_peer)], wi_media := ex_media\<lparr>md_drawn := 1\<rparr>\<rparr>"
  have s: "sh_conn (begin_session 7 ex_peer ?w) = ex_peer" "sh_next (begin_session 7 ex_peer ?w) = 1"
    "sh_cancel (begin_session 7 ex_peer ?w) = []"
    by (simp_all add: begin_session_def session_new_def ex_io_def)
  obtain s1 where 1: "exchange_account_free_pairing ex_sharing [] [] (begin_session 7 ex_peer ?w) = (Inr Unable, s1)"
    "ex_talk 4 4 [EvBytes 4 (xe_sharing accept_response)] s1" using ex_pairing [OF s] by blast
  obtain s2 where 2: "send_outgoing_text ex_sharing [104, 105] s1 = (Inr (), s2)" "ex_talk 8 5 [] s2"
    using ex_text_sent [OF 1(2)] by blast
  obtain s3 where 3: "session_drain ex_sharing s2 = (Inr (), s3)" using ex_drain [OF 2(2)] by blast
  have "share_cancelled 7 ex_io = (False, ex_io)" "wi_media ex_io = ex_media" "wi_events ex_io = []" "wi_sends ex_io = []"
    by (simp_all add: share_cancelled_def ex_io_def)
  moreover have "initiate_bandwidth_upgrade ex_net [110] ex_peer ex_media = (Inr None, ex_peer, ex_media)"
    by (simp add: initiate_bandwidth_upgrade_def ex_peer_def ex_connection_def)
  moreover have "next_draw ex_media = (ex_draw, ex_media\<lparr>md_drawn := 1\<rparr>)" by (simp add: next_draw_def ex_media_def)
  ultimately show ?thesis
    using 1(1) 2(1) 3 by (simp add: send_on_connection_def events_send_alive send_outbound_payload_def Let_def ex_draw_def)
qed


subsection \<open>An attempt that connects\<close>

text \<open>
  A peer with two addresses on the local network, of which the first refuses the connection, and one over
  BLE that is never needed.
\<close>

definition ex_transfer :: outbound_transfer where
  "ex_transfer = \<lparr>ot_payload = PText [104, 105], ot_routes = [RouteBle 5, RouteLan 2, RouteLan 3]\<rparr>"

definition ex_dials :: "stream \<Rightarrow> worker_io" where
  "ex_dials a = ex_io\<lparr>wi_media := ex_media\<lparr>md_dials := [Inl IConnectionRefused, Inr a]\<rparr>\<rparr>"

lemma ex_request_fits:
  assumes "worker_options ex_draw WifiLan [110] = Inr opts"
  shows "length (enc_offline ex_net (request opts)) \<le> MAX_FRAME_LENGTH" "length (enc_offline ex_net response) \<le> MAX_FRAME_LENGTH"
proof -
  have o: "length (co_info opts) \<le> 100" "co_id opts = ENDPOINT_ID" "co_name opts = [110]"
    using assms by (auto simp: worker_options_def endpoint_info_new_def endpoint_info_encode_def ex_draw_def with_medium_def
        with_endpoint_info_def connection_options_new_def split: sum.splits option.splits if_splits)
  note codec = xe_offline_def xe_v1_def xe_cr_def xe_cs_def e_iso_def e_pair_def e_int_def e_nat_def
    decimal.simps offline_def v1_default_def wire_numbers MAX_FRAME_LENGTH_def
  show "length (enc_offline ex_net (request opts)) \<le> MAX_FRAME_LENGTH"
    using length_e_bytes [of "co_info opts"] length_e_bytes [of ENDPOINT_ID] length_e_bytes [of "[110]"] o
    by (simp add: ex_net_def request_def codec ENDPOINT_ID_def ascii_def)
  show "length (enc_offline ex_net response) \<le> MAX_FRAME_LENGTH"
    by (simp add: ex_net_def response_def codec e_bytes_def)
qed

lemma ex_connects:
  "\<exists>a c. s_healthy a \<and> (\<forall>M. md_draws M = (\<lambda>_. ex_draw) \<longrightarrow>
     (\<exists>M'. connect_connection ex_net a WifiLan [110] M = Some (Inr c, M')))"
proof -
  obtain i r m1 m2 m3 CA CB where h: "handshake_new ex_crypto Initiator (replicate 32 1) (replicate 32 2) = Some i"
    and x: "exchange ex_net i r m1 m2 m3 CA CB" using ex_exchange by blast
  obtain opts where o: "worker_options ex_draw WifiLan [110] = Inr opts"
    by (simp add: worker_options_def endpoint_info_new_def u8_of_usize_def LAPTOP_DEVICE_TYPE_def)
  let ?a = "idle_stream\<lparr>s_in := accept_bytes ex_net m2\<rparr>"
  let ?b = "idle_stream\<lparr>s_in := connect_bytes ex_net opts m1 m3\<rparr>"
  have "s_healthy ?a" "s_healthy ?b" by (simp_all add: s_healthy_def idle_stream_def)
  then obtain c where c: "connect_io ex_net ?a i opts = Some (Inr c)"
    using setup_completes [OF ex_net_ok x, of ?a ?b opts] ex_request_fits [OF o] by auto
  have "n_crypto ex_net = ex_crypto" by (simp add: ex_net_def)
  then have "\<exists>M'. connect_connection ex_net ?a WifiLan [110] M = Some (Inr c, M')" if "md_draws M = (\<lambda>_. ex_draw)" for M
    using that o h c by (simp add: connect_connection_def open_connection_def next_draw_def ex_draw_def)
  then show ?thesis using \<open>s_healthy ?a\<close> by blast
qed

lemma ex_attempt:
  "\<exists>a ev w'. outbound_event ex_sharing 7 ex_transfer [110] (ex_dials a) = Some (ev, w') \<and>
     md_attempts (wi_media w') = [(RouteLan 2, False), (RouteLan 3, True)]"
proof -
  obtain a c where c: "\<And>M. md_draws M = (\<lambda>_. ex_draw) \<Longrightarrow> \<exists>M'. connect_connection ex_net a WifiLan [110] M = Some (Inr c, M')"
    using ex_connects by blast
  let ?M1 = "route_attempted (RouteLan 2) False (ex_media\<lparr>md_dials := [Inr a]\<rparr>)"
  obtain M2 where M2: "connect_connection ex_net a WifiLan [110] (?M1\<lparr>md_dials := []\<rparr>) = Some (Inr c, M2)"
    using c [of "?M1\<lparr>md_dials := []\<rparr>"] by (auto simp: route_attempted_def ex_media_def)
  have at: "md_attempts M2 = [(RouteLan 2, False)]"
    using open_connection_attempts M2 unfolding connect_connection_def by (fastforce simp: route_attempted_def ex_media_def)
  let ?w = "ex_io\<lparr>wi_media := route_attempted (RouteLan 3) True M2\<rparr>"
  have live: "share_cancelled 7 w = (False, w)" if "wi_loads w = []" for w using that by (simp add: share_cancelled_def)
  have idle: "wi_loads ex_io = []" "wi_sends ex_io = []" by (simp_all add: ex_io_def)
  obtain r w' where w': "send_on_connection ex_sharing (PText [104, 105]) c 7 [110] ?w = (r, w')" by fastforce
  have first: "connect_route ex_net (RouteLan 2) [110] (ex_media\<lparr>md_dials := [Inl IConnectionRefused, Inr a]\<rparr>) =
      Some (Inl (PIo IConnectionRefused), ?M1)"
    by (simp add: connect_route_def connect_stream_def dial_def take_call_def)
  have second: "connect_route ex_net (RouteLan 3) [110] ?M1 = Some (Inr c, route_attempted (RouteLan 3) True M2)"
    using M2 by (simp add: connect_route_def connect_stream_def dial_def take_call_def route_attempted_def)
  have "outbound_event ex_sharing 7 ex_transfer [110] (ex_dials a) = Some (terminal_event 7 r, finish_cancellation 7 w')"
    using first second w' idle
    by (simp add: outbound_event_def send_payload_def ex_transfer_def routes_in_order_def attempt_order_def ex_dials_def live)
  moreover have "md_attempts (wi_media (finish_cancellation 7 w')) = [(RouteLan 2, False), (RouteLan 3, True)]"
    using send_on_connection_trace [OF w'] idle at by (auto simp: route_attempted_def finish_cancellation_def)
  ultimately show ?thesis by blast
qed

theorem outbound_attempt_witness:
  "\<exists>a ev w' tried. outbound_event ex_sharing 7 ex_transfer [110] (ex_dials a) = Some (ev, w') \<and>
     md_attempts (wi_media w') = tried \<and> tried = [(RouteLan 2, False), (RouteLan 3, True)] \<and>
     prefix (map fst tried) (sort_key order_key (ot_routes ex_transfer)) \<and> wi_finished w' = [7]"
proof -
  obtain a ev w' where w': "outbound_event ex_sharing 7 ex_transfer [110] (ex_dials a) = Some (ev, w')"
    "md_attempts (wi_media w') = [(RouteLan 2, False), (RouteLan 3, True)]" using ex_attempt by blast
  have start: "wi_sends (ex_dials a) = []" "md_attempts (wi_media (ex_dials a)) = []" "wi_finished (ex_dials a) = []"
    by (simp_all add: ex_dials_def ex_io_def ex_media_def)
  obtain tried where "md_attempts (wi_media w') = tried" "prefix (map fst tried) (sort_key order_key (ot_routes ex_transfer))"
    "wi_finished w' = [7]"
    using outbound_attempt [OF w'(1) start(1)] start(2,3) by auto
  then show ?thesis using w' by blast
qed

end
