(* ===== verification/Worker_Commands.thy ===== *)
theory Worker_Commands
  imports Worker_Outbound Daemon_Admission
begin

text \<open>
  The commands of the endpoint to its network worker (\<open>handle_command\<close> of \<open>daemon/network/worker.rs\<close>,
  \<open>worker/activation.rs\<close>) and the peers it announces. The record \<open>worker\<close> is the state of the worker's
  loop; the outcomes of its system calls are scripted. Before every access to the shared visibility the
  coming calls of the endpoint are made. \<open>None\<close> is a panic.
\<close>

subsection \<open>The worker\<close>

record worker =
  wk_io :: worker_io
  wk_config :: config
  wk_hostname :: "rstring option"
  wk_dns_sd :: bool
  wk_core :: core
  wk_boot :: nat
  wk_ticks :: "nat list"
  wk_endpoint :: "other_call list list"
  wk_discovering :: bool
  wk_restart_at :: nat
  wk_browser :: bool
  wk_discovery :: "bool \<times> bool"
  wk_seen :: "rstring list"
  wk_instant :: nat
  wk_mkdir :: "rstring option list"
  wk_addresses :: "(rstring + ipv4 list) list"
  wk_republish :: "rstring option list"
  wk_listeners :: "(rstring + lan_listener) list"
  wk_adapters :: "(nat option \<times> nat option \<times> nat option \<times> nat option) option list"
  wk_scans :: "(bool \<times> bool) list"
  wk_order :: "rstring list \<Rightarrow> rstring list"

text \<open>
  A call of the endpoint on the shared visibility or a consent. The worker alone proposes offers and
  completes activations.
\<close>

fun endpoint_visibility :: "vis_op \<Rightarrow> bool" where
  "endpoint_visibility (Propose _ _ _) = False"
| "endpoint_visibility (CompleteActivation _ _) = False"
| "endpoint_visibility _ = True"

fun endpoint_step :: "other_call \<Rightarrow> core \<Rightarrow> core" where
  "endpoint_step (OnVisibility op now t) core =
     (if endpoint_visibility op then
        (case vis_section op now t core of None \<Rightarrow> core | Some (jobs, st, cs) \<Rightarrow> (release_all jobs st, cs))
      else core)"
| "endpoint_step (OnConsent a op t) core =
     (case snd core a of
        Some c \<Rightarrow> (fst core, (snd core)(a \<mapsto> consent_step op t c))
      | None \<Rightarrow> core)"

definition endpoint_runs :: "worker \<Rightarrow> worker" where
  "endpoint_runs w =
     (case wk_endpoint w of
        [] \<Rightarrow> w
      | calls # rest \<Rightarrow> w\<lparr>wk_endpoint := rest, wk_core := fold endpoint_step calls (wk_core w)\<rparr>)"

definition worker_clock :: "worker \<Rightarrow> nat \<times> worker" where
  "worker_clock w =
     (case wk_ticks w of
        [] \<Rightarrow> (wk_boot w, w)
      | a # ts \<Rightarrow> (wk_boot w + a, w\<lparr>wk_ticks := ts, wk_boot := wk_boot w + a\<rparr>))"

definition worker_vis :: "(nat \<Rightarrow> nat \<Rightarrow> core \<Rightarrow> ('a \<times> jobs \<times> core) option) \<Rightarrow> worker \<Rightarrow> ('a \<times> worker) option" where
  "worker_vis section w =
     (let w = endpoint_runs w;
          (now, w) = worker_clock w;
          (t, w) = worker_clock w
      in do { (x, jobs, st, cs) \<leftarrow> section now t (wk_core w);
              Some (x, w\<lparr>wk_core := (release_all jobs st, cs)\<rparr>) })"

definition worker_consent_call :: "nat \<Rightarrow> (nat \<Rightarrow> pending_consent \<Rightarrow> 'a \<times> pending_consent) \<Rightarrow> worker \<Rightarrow> ('a \<times> worker) option" where
  "worker_consent_call a method w =
     (let w = endpoint_runs w;
          (t, w) = worker_clock w
      in case snd (wk_core w) a of
           None \<Rightarrow> None
         | Some c \<Rightarrow> (case method t c of (x, c) \<Rightarrow>
             Some (x, w\<lparr>wk_core := (fst (wk_core w), (snd (wk_core w))(a \<mapsto> c))\<rparr>)))"

definition worker_send :: "network_event \<Rightarrow> worker \<Rightarrow> bool \<times> worker" where
  "worker_send ev w = (case events_send ev (wk_io w) of (b, i) \<Rightarrow> (b, w\<lparr>wk_io := i\<rparr>))"

definition worker_name :: "worker \<Rightarrow> rstring" where
  "worker_name w = endpoint_name (wk_hostname w) (cf_device_name (wk_config w))"

subsection \<open>Preferences\<close>

text \<open>
  \<open>advertisement\<close>: the local addresses are asked for, and the name has to fit. Errors are their texts.
\<close>

definition INVALID_ADVERTISEMENT :: rstring where "INVALID_ADVERTISEMENT = ascii ''invalid endpoint advertisement''"

definition advertisement_error :: "rstring + ipv4 list \<Rightarrow> rstring \<Rightarrow> rstring option" where
  "advertisement_error addresses name =
     (case addresses of
        Inl e \<Rightarrow> Some e
      | Inr _ \<Rightarrow>
          (case endpoint_info_new 0 3 (replicate 2 0) (replicate 14 0) (Some name) None [] of
             Inl e \<Rightarrow> Some INVALID_ADVERTISEMENT
           | Inr _ \<Rightarrow> None))"

text \<open>The republication runs under the lock and leaves the leases as they are.\<close>

definition republish_error :: "rstring \<Rightarrow> worker \<Rightarrow> resources \<Rightarrow> rstring option" where
  "republish_error name w r =
     (case res_lan r of
        None \<Rightarrow> None
      | Some _ \<Rightarrow>
          (case advertisement_error (fst (take_call (Inr []) (wk_addresses w))) name of
             Some e \<Rightarrow> Some e
           | None \<Rightarrow> fst (take_call None (wk_republish w))))"

definition configure_error :: "config \<Rightarrow> worker \<Rightarrow> (rstring option \<times> worker) option" where
  "configure_error config w =
     (case take_call None (wk_mkdir w) of
        (Some e, ms) \<Rightarrow> Some (Some e, w\<lparr>wk_mkdir := ms\<rparr>)
      | (None, ms) \<Rightarrow>
          let w = w\<lparr>wk_mkdir := ms\<rparr> in
          if cf_device_name config = cf_device_name (wk_config w) then Some (None, w)
          else
            do { (r, w') \<leftarrow> worker_vis (\<lambda>now t. with_resources now (\<lambda>r.
                   (republish_error (endpoint_name (wk_hostname w) (cf_device_name config)) w r, r))) w;
                 Some (case r of None \<Rightarrow> None | Some e \<Rightarrow> e,
                       w'\<lparr>wk_addresses := tl (wk_addresses w'), wk_republish := tl (wk_republish w')\<rparr>) })"

definition handle_configure :: "config \<Rightarrow> worker \<Rightarrow> (bool \<times> worker) option" where
  "handle_configure config w =
     do { (error, w) \<leftarrow> configure_error config w;
          let w = (if error = None then w\<lparr>wk_config := config\<rparr> else w);
          Some (worker_send (PreferencesConfigured config error) w) }"

subsection \<open>Discovery\<close>

definition refresh_adapter :: "worker \<Rightarrow>
    (nat option \<times> nat option \<times> nat option \<times> nat option) option \<times> worker" where
  "refresh_adapter w =
     (case take_call None (wk_adapters w) of
        (a, as) \<Rightarrow> (a, w\<lparr>wk_adapters := as,
          wk_io := (wk_io w)\<lparr>wi_media := (wi_media (wk_io w))\<lparr>md_adapter := a \<noteq> None\<rparr>\<rparr>\<rparr>))"

text \<open>\<open>start_discovery\<close>: which of the BLE scan and the Classic discovery could be started.\<close>

definition start_scans :: "worker \<Rightarrow> worker" where
  "start_scans w =
     (case refresh_adapter w of
        (None, w) \<Rightarrow> w\<lparr>wk_discovery := (False, False)\<rparr>
      | (Some _, w) \<Rightarrow>
          (case take_call (False, False) (wk_scans w) of (d, ds) \<Rightarrow> w\<lparr>wk_discovery := d, wk_scans := ds\<rparr>))"

definition handle_discover :: "worker \<Rightarrow> worker" where
  "handle_discover w =
     (let w = w\<lparr>wk_discovering := True, wk_restart_at := wk_instant w, wk_discovery := (False, False)\<rparr>
      in if wk_dns_sd w then start_scans w else w)"

definition remember_seen :: "network_event \<Rightarrow> rstring list \<Rightarrow> rstring list" where
  "remember_seen ev seen =
     (case ev of PeerSeen name peer_id route \<Rightarrow> List.insert peer_id seen | _ \<Rightarrow> seen)"

text \<open>The order in which the set is drained is not specified: it is a parameter.\<close>

fun send_lost :: "rstring list \<Rightarrow> worker \<Rightarrow> bool \<times> worker" where
  "send_lost [] w = (True, w)"
| "send_lost (p # ps) w = (case worker_send (PeerLost p) w of (False, w) \<Rightarrow> (False, w) | (True, w) \<Rightarrow> send_lost ps w)"

definition emit_peer_lost :: "worker \<Rightarrow> bool \<times> worker" where
  "emit_peer_lost w = send_lost (wk_order w (wk_seen w)) (w\<lparr>wk_seen := []\<rparr>)"

definition handle_stop :: "worker \<Rightarrow> bool \<times> worker" where
  "handle_stop w = emit_peer_lost (w\<lparr>wk_discovering := False, wk_browser := False, wk_discovery := (False, False)\<rparr>)"

subsection \<open>Visibility\<close>

definition DNS_SD_UNAVAILABLE :: rstring where "DNS_SD_UNAVAILABLE = ascii ''DNS-SD unavailable''"

text \<open>\<open>activate\<close>: the LAN listener and the Bluetooth leases; one medium is enough.\<close>

definition worker_activate :: "worker \<Rightarrow> (rstring + resources) \<times> worker" where
  "worker_activate w =
     (if \<not> wk_dns_sd w then (Inl DNS_SD_UNAVAILABLE, w)
      else
        (case take_call (Inl []) (wk_listeners w) of (lan, ls) \<Rightarrow>
          (case refresh_adapter (w\<lparr>wk_listeners := ls\<rparr>) of (adapter, w) \<Rightarrow>
             let bluetooth = fst (open_visibility adapter) in
             (case lan of
                Inr listener \<Rightarrow> (Inr (resources_new (Some listener) bluetooth), w)
              | Inl e \<Rightarrow>
                  if leases_media bluetooth = [] then (Inl e, w)
                  else (Inr (resources_new None bluetooth), w)))))"

definition handle_open :: "nat \<Rightarrow> worker \<Rightarrow> (bool \<times> worker) option" where
  "handle_open generation w =
     do { (wanted, w) \<leftarrow> worker_vis (\<lambda>now t. activation_requested now generation) w;
          if \<not> wanted then Some (True, w)
          else
            do { let (result, w) = worker_activate w;
                 (_, w) \<leftarrow> worker_vis (\<lambda>now t. complete_activation now generation result) w;
                 Some (worker_send VisibilityChanged w) } }"

subsection \<open>Commands\<close>

definition handle_send :: "('sk, 'pk) sharing_net \<Rightarrow> nat \<Rightarrow> outbound_transfer \<Rightarrow> worker \<Rightarrow> (bool \<times> worker) option" where
  "handle_send N share_id transfer w =
     do { (ev, i) \<leftarrow> outbound_event N share_id transfer (worker_name w) (wk_io w);
          Some (worker_send ev (w\<lparr>wk_io := i\<rparr>)) }"

fun handle_command :: "('sk, 'pk) sharing_net \<Rightarrow> network_command \<Rightarrow> worker \<Rightarrow> (bool \<times> worker) option" where
  "handle_command N (Configure config) w = handle_configure config w"
| "handle_command N Discover w = Some (True, handle_discover w)"
| "handle_command N (OpenVisibility generation) w = handle_open generation w"
| "handle_command N (SendShare share_id transfer) w = handle_send N share_id transfer w"
| "handle_command N StopDiscovery w = Some (handle_stop w)"

end
