(* ===== verification/Worker_Inbound.thy ===== *)
theory Worker_Inbound
  imports Worker_Commands Storage_Publication
begin

text \<open>
  One inbound connection of the network worker: \<open>receive_share\<close> of \<open>daemon/network/inbound.rs\<close> and
  \<open>wait_for_consent\<close> of \<open>inbound/consent.rs\<close>. It sets up the session, proposes the offer, serves the
  endpoint's commands while the user decides, and only then stages, accepts, receives and publishes.

  \<open>ib_turns\<close> are the results of waiting for a command; when they run out the endpoint has hung up.
  The address of the proposed consent, the outcomes of opening the receive directory and of \<open>statvfs\<close> are
  scripted too.
\<close>

datatype recv_turn = RecvCommand network_command | RecvTimeout | RecvDisconnected

record inbound =
  ib_worker :: worker
  ib_turns :: "recv_turn list"
  ib_address :: nat
  ib_disk :: disk
  ib_targets :: "(io_kind option \<times> (io_kind + rstring) \<times> (io_kind + bool)) list"
  ib_statvfs :: "(io_kind + nat \<times> nat) list"

type_synonym inbound_error = "rstring \<times> nat option"

definition protocol_reason :: "protocol_error \<Rightarrow> rstring" where
  "protocol_reason e = ascii (reason e)"

subsection \<open>Waiting for consent\<close>

datatype consent = ConsentAccepted nat | ConsentRejected nat | ConsentCancelled | ConsentTimedOut

definition consent_outcome_of :: "nat \<Rightarrow> worker \<Rightarrow> (consent_outcome \<times> worker) option" where
  "consent_outcome_of a w = worker_consent_call a read_outcome w"

definition consent_id_of :: "nat \<Rightarrow> worker \<Rightarrow> (nat option \<times> worker) option" where
  "consent_id_of a w = worker_consent_call a consent_share_id w"

definition consent_do :: "nat \<Rightarrow> (nat \<Rightarrow> pending_consent \<Rightarrow> pending_consent) \<Rightarrow> worker \<Rightarrow> worker option" where
  "consent_do a f w = map_option snd (worker_consent_call a (\<lambda>t c. ((), f t c)) w)"

text \<open>
  The outcome at the head of the loop. An offer that is no longer permitted is withdrawn and the loop
  starts again, so the outcome is read a second time; then it is not \<open>Offered\<close> any more.
\<close>

definition settled_outcome :: "nat \<Rightarrow> nat \<Rightarrow> worker \<Rightarrow> (consent_outcome \<times> worker) option" where
  "settled_outcome a generation w =
     do { (out, w) \<leftarrow> consent_outcome_of a w;
          if out \<noteq> COffered then Some (out, w)
          else
            do { (g, w) \<leftarrow> worker_vis (\<lambda>now t. generation_if_open now) w;
                 if g = Some generation then Some (out, w)
                 else do { w \<leftarrow> consent_do a cancel_unadmitted w; consent_outcome_of a w } } }"

definition failed_with :: "nat \<Rightarrow> rstring \<Rightarrow> worker \<Rightarrow> ((inbound_error + 'a) \<times> worker) option" where
  "failed_with a why w = do { (i, w) \<leftarrow> consent_id_of a w; Some (Inl (why, i), w) }"

definition hang_up :: "nat \<Rightarrow> worker \<Rightarrow> ((inbound_error + 'a) \<times> worker) option" where
  "hang_up a w =
     do { w \<leftarrow> consent_do a (\<lambda>t. consent_fail t (ascii ''disconnected'')) w; failed_with a (ascii ''disconnected'') w }"

text \<open>One turn up to the wait for a command: a result, or nothing yet.\<close>

definition consent_turn :: "('sk, 'pk) sharing_net \<Rightarrow> nat \<Rightarrow> nat \<Rightarrow> sharing_session \<Rightarrow> worker \<Rightarrow>
    ((inbound_error + consent) option \<times> sharing_session \<times> worker) option" where
  "consent_turn N a generation s w =
     do { (out, w) \<leftarrow> settled_outcome a generation w;
          case out of
            CAccepted i \<Rightarrow> Some (Some (Inr (ConsentAccepted i)), s, w)
          | CRejected i \<Rightarrow> Some (Some (Inr (ConsentRejected i)), s, w)
          | CCancelled \<Rightarrow> Some (Some (Inr ConsentCancelled), s, w)
          | CTimedOut \<Rightarrow> Some (Some (Inr ConsentTimedOut), s, w)
          | CFailed why \<Rightarrow> do { (r, w) \<leftarrow> failed_with a why w; Some (Some r, s, w) }
          | _ \<Rightarrow>
              (case poll_pending_consent_control N s of
                 (Inr _, s) \<Rightarrow> Some (None, s, w)
               | (Inl e, s) \<Rightarrow>
                   do { w \<leftarrow> consent_do a (if e = PCancelled then consent_cancel
                                 else (\<lambda>t. consent_fail t (protocol_reason e))) w;
                        (r, w) \<leftarrow> failed_with a (protocol_reason e) w;
                        Some (Some r, s, w) }) }"

fun wait_for_consent :: "('sk, 'pk) sharing_net \<Rightarrow> nat \<Rightarrow> nat \<Rightarrow> recv_turn list \<Rightarrow> sharing_session \<Rightarrow> worker \<Rightarrow>
    ((inbound_error + consent) \<times> recv_turn list \<times> sharing_session \<times> worker) option" where
  "wait_for_consent N a generation turns s w =
     (case consent_turn N a generation s w of
        None \<Rightarrow> None
      | Some (Some r, s, w) \<Rightarrow> Some (r, turns, s, w)
      | Some (None, s, w) \<Rightarrow>
        (case turns of
           [] \<Rightarrow> map_option (\<lambda>(r, w). (r, [], s, w)) (hang_up a w)
         | RecvDisconnected # ts \<Rightarrow> map_option (\<lambda>(r, w). (r, ts, s, w)) (hang_up a w)
         | RecvTimeout # ts \<Rightarrow> wait_for_consent N a generation ts s w
         | RecvCommand command # ts \<Rightarrow>
             (case handle_command N command w of
                None \<Rightarrow> None
              | Some (False, w) \<Rightarrow> map_option (\<lambda>(r, w). (r, ts, s, w)) (hang_up a w)
              | Some (True, w) \<Rightarrow> wait_for_consent N a generation ts s w)))"

declare wait_for_consent.simps [simp del]

subsection \<open>Staging and publication\<close>

text \<open>Leaving a scope drops the files still in it, in order.\<close>

fun drop_files :: "staged_file list \<Rightarrow> disk \<Rightarrow> disk" where
  "drop_files [] d = d"
| "drop_files (f # fs) d = drop_files fs (staged_drop f d)"

fun stage_files :: "incoming_offer \<Rightarrow> nat \<Rightarrow> nat \<Rightarrow> staged_file list \<Rightarrow> disk \<Rightarrow> (rstring + staged_file list) \<times> disk" where
  "stage_files offer index 0 files d = (Inr files, d)"
| "stage_files offer index (Suc n) files d =
     (case offer_file index offer of
        None \<Rightarrow> (Inl (ascii ''invalid_payload''), drop_files files d)
      | Some part \<Rightarrow>
        (case u64_of_i64 (of_size_bytes part) of
           None \<Rightarrow> (Inl (ascii ''invalid_payload''), drop_files files d)
         | Some sz \<Rightarrow>
           (case stage (offer_name part) sz d of
              (Inl e, d) \<Rightarrow> (Inl (storage_reason e), drop_files files d)
            | (Inr f, d) \<Rightarrow> stage_files offer (Suc index) n (files @ [f]) d)))"

fun commit_files :: "staged_file list \<Rightarrow> disk \<Rightarrow> (storage_error + unit) \<times> disk" where
  "commit_files [] d = (Inr (), d)"
| "commit_files (f # fs) d =
     (case staged_commit f d of
        (Inl e, d) \<Rightarrow> (Inl e, drop_files fs d)
      | (Inr _, d) \<Rightarrow> commit_files fs d)"

definition prepare_files :: "incoming_offer \<Rightarrow> nat \<Rightarrow> inbound \<Rightarrow> (rstring + staged_file list) \<times> inbound" where
  "prepare_files offer n ib =
     (if \<not> persists_as_file (of_kind offer) then (Inr [], ib)
      else
        (case take_call (Some IOther, Inl IOther, Inl IOther) (ib_targets ib) of ((create, canonical, is_dir), ts) \<Rightarrow>
          let ib = ib\<lparr>ib_targets := ts\<rparr> in
          (case target_open create canonical is_dir of
             Inl e \<Rightarrow> (Inl (storage_reason e), ib)
           | Inr _ \<Rightarrow>
             (case take_call (Inl IOther) (ib_statvfs ib) of (statvfs, vs) \<Rightarrow>
               let ib = ib\<lparr>ib_statvfs := vs\<rparr> in
               (case target_preflight statvfs n of
                  Inl e \<Rightarrow> (Inl (storage_reason e), ib)
                | Inr _ \<Rightarrow>
                  (case stage_files offer 0 (file_count offer) [] (ib_disk ib) of
                     (r, d) \<Rightarrow> (r, ib\<lparr>ib_disk := d\<rparr>)))))))"

subsection \<open>The payload\<close>

definition staged_write_op :: "(staged_file \<times> disk) write_op" where
  "staged_write_op buf fd = (case staged_write_all buf (fst fd) (snd fd) of (r, f, d) \<Rightarrow> (r, f, d))"

text \<open>
  The files of the offer one after the other; the third component are the progress values reported.
\<close>

fun receive_files :: "('sk, 'pk) sharing_net \<Rightarrow> incoming_offer \<Rightarrow> nat \<Rightarrow> nat \<Rightarrow> staged_file list \<Rightarrow> sharing_session \<Rightarrow>
    disk \<Rightarrow> (protocol_error + nat) \<times> staged_file list \<times> nat list \<times> sharing_session \<times> disk" where
  "receive_files N offer index received [] s d = (Inr received, [], [], s, d)"
| "receive_files N offer index received (f # fs) s d =
     (case offer_file index offer of
        None \<Rightarrow> (Inl PInvalidPayload, f # fs, [], s, d)
      | Some part \<Rightarrow>
        (case receive_incoming_file_to staged_write_op N part (f, d) (s\<lparr>sh_progress := []\<rparr>) of
           (r, (f, d), s) \<Rightarrow>
             let progress = map (\<lambda>n. min (received + n) u64_max) (sh_progress s) in
             (case r of
                Inl e \<Rightarrow> (Inl e, f # fs, progress, s, d)
              | Inr _ \<Rightarrow>
                (case u64_of_i64 (of_size_bytes part) of
                   None \<Rightarrow> (Inl PInvalidPayload, f # fs, progress, s, d)
                 | Some n \<Rightarrow>
                   (case receive_files N offer (Suc index) (min (received + n) u64_max) fs s d of
                      (r, fs, more_progress, s, d) \<Rightarrow> (r, f # fs, progress @ more_progress, s, d))))))"

definition receive_value :: "('sk, 'pk) sharing_net \<Rightarrow> incoming_offer \<Rightarrow> sharing_session \<Rightarrow> rstring result" where
  "receive_value N offer s =
     (case of_kind offer of
        OText \<Rightarrow> receive_incoming_text N offer s
      | OUrl \<Rightarrow> receive_incoming_url N offer s
      | _ \<Rightarrow> (Inl PInvalidPayload, s))"

text \<open>\<open>receive_payload\<close>: the result, the files as they are now, the progress, the session, the disk.\<close>

definition receive_payload :: "('sk, 'pk) sharing_net \<Rightarrow> incoming_offer \<Rightarrow> nat \<Rightarrow> staged_file list \<Rightarrow>
    sharing_session \<Rightarrow> disk \<Rightarrow>
    (protocol_error + network_event) \<times> staged_file list \<times> nat list \<times> sharing_session \<times> disk" where
  "receive_payload N offer share_id fls s d =
     (if persists_as_file (of_kind offer) then
        if length fls \<noteq> file_count offer then (Inl PInvalidPayload, fls, [], s, d)
        else
          (case receive_files N offer 0 0 fls s d of
             (Inl e, fs, ps, s, d) \<Rightarrow> (Inl e, fs, ps, s, d)
           | (Inr n, fs, ps, s, d) \<Rightarrow> (Inr (InboundCompleted n (of_kind offer) share_id None), fs, ps, s, d))
      else
        (case receive_value N offer (s\<lparr>sh_progress := []\<rparr>) of
           (Inl e, s) \<Rightarrow> (Inl e, fls, sh_progress s, s, d)
         | (Inr val, s) \<Rightarrow>
             (Inr (InboundCompleted (length val) (of_kind offer) share_id (Some val)), fls, sh_progress s, s, d)))"

subsection \<open>The share\<close>

definition on_io :: "(worker_io \<Rightarrow> 'a \<times> worker_io) \<Rightarrow> inbound \<Rightarrow> 'a \<times> inbound" where
  "on_io f ib = (case f (wk_io (ib_worker ib)) of (x, i) \<Rightarrow> (x, ib\<lparr>ib_worker := (ib_worker ib)\<lparr>wk_io := i\<rparr>\<rparr>))"

definition post_io :: "(worker_io \<Rightarrow> worker_io) \<Rightarrow> inbound \<Rightarrow> inbound" where
  "post_io f ib = snd (on_io (\<lambda>i. ((), f i)) ib)"

text \<open>A session after other work of the thread: the counter and the flag are process-wide.\<close>

definition resume_session :: "nat \<Rightarrow> sharing_session \<Rightarrow> inbound \<Rightarrow> sharing_session" where
  "resume_session share_id s ib =
     s\<lparr>sh_next := wi_next (wk_io (ib_worker ib)),
       sh_cancel := map (\<lambda>v. v = share_id) (wi_loads (wk_io (ib_worker ib)))\<rparr>"

text \<open>The connection, the pairing and the offer.\<close>

definition open_offer :: "('sk, 'pk) sharing_net \<Rightarrow> stream \<Rightarrow> medium \<Rightarrow> inbound \<Rightarrow>
    ((protocol_error + incoming_offer \<times> sharing_session) \<times> inbound) option" where
  "open_offer N stream medium ib =
     (let w = ib_worker ib in
      case accept_connection (s_net N) stream medium (worker_name w) (wi_media (wk_io w)) of
        None \<Rightarrow> None
      | Some (Inl e, M) \<Rightarrow> Some (Inl e, post_io (\<lambda>i. i\<lparr>wi_media := M\<rparr>) ib)
      | Some (Inr c, M) \<Rightarrow>
        (case accept_negotiated_upgrade (s_net N) c M of
           (Inl e, c, M) \<Rightarrow> Some (Inl e, post_io (\<lambda>i. i\<lparr>wi_media := M\<rparr>) ib)
         | (Inr wifi, c, M) \<Rightarrow>
           (case next_draw M of (d, M) \<Rightarrow>
             let ib = post_io (\<lambda>i. i\<lparr>wi_media := M\<rparr>) ib in
             (case exchange_account_free_pairing N (dr_signed_data d) (dr_secret_id_hash d)
                     (begin_session 0 c (wk_io w)) of
                (Inl e, s) \<Rightarrow> Some (Inl (pe_source e), post_io (\<lambda>i. i\<lparr>wi_next := sh_next s\<rparr>) ib)
              | (Inr _, s) \<Rightarrow>
                (case receive_incoming_offer N s of
                   (Inl e, s) \<Rightarrow> Some (Inl e, post_io (\<lambda>i. i\<lparr>wi_next := sh_next s\<rparr>) ib)
                 | (Inr offer, s) \<Rightarrow> Some (Inr (offer, s), post_io (\<lambda>i. i\<lparr>wi_next := sh_next s\<rparr>) ib))))))"

text \<open>A consent frame after which the share ends: its failure takes precedence.\<close>

definition answer :: "(sharing_session \<Rightarrow> unit result) \<Rightarrow> sharing_session \<Rightarrow> (rstring \<Rightarrow> inbound_error) \<Rightarrow>
    (inbound_error + network_event) \<Rightarrow> inbound \<Rightarrow> (inbound_error + network_event) \<times> inbound" where
  "answer send s failure otherwise ib =
     (case send (s\<lparr>sh_next := wi_next (wk_io (ib_worker ib))\<rparr>) of
        (Inl e, s) \<Rightarrow> (Inl (failure (protocol_reason e)), post_io (\<lambda>i. i\<lparr>wi_next := sh_next s\<rparr>) ib)
      | (Inr _, s) \<Rightarrow> (otherwise, post_io (\<lambda>i. i\<lparr>wi_next := sh_next s\<rparr>) ib))"

text \<open>\<open>announce_offer\<close>: whether the offer went out.\<close>

definition announce_offer :: "incoming_offer \<Rightarrow> rstring \<Rightarrow> nat \<Rightarrow> inbound \<Rightarrow> bool \<times> inbound" where
  "announce_offer offer code a ib =
     (case u64_of_i64 (of_size_bytes offer) of
        None \<Rightarrow> (False, ib)
      | Some n \<Rightarrow> on_io (events_send (InboundOffered a (of_kind offer) (offer_name offer) n code)) ib)"

text \<open>What follows an accepted consent.\<close>

definition store_share :: "('sk, 'pk) sharing_net \<Rightarrow> medium \<Rightarrow> incoming_offer \<Rightarrow> nat \<Rightarrow> sharing_session \<Rightarrow> inbound \<Rightarrow>
    (inbound_error + network_event) \<times> inbound" where
  "store_share N medium offer share_id s ib =
     (case u64_of_i64 (of_size_bytes offer) of
        None \<Rightarrow> (Inl (ascii ''invalid_payload'', Some share_id), ib)
      | Some n \<Rightarrow>
        (case prepare_files offer n ib of
           (Inl why, ib) \<Rightarrow> (Inl (why, Some share_id), ib)
         | (Inr fls, ib) \<Rightarrow>
           (case accept_incoming_offer N (resume_session share_id s ib) of
              (Inl e, s) \<Rightarrow>
                (Inl (protocol_reason e, Some share_id),
                 post_io (end_session s) (ib\<lparr>ib_disk := drop_files fls (ib_disk ib)\<rparr>))
            | (Inr _, s) \<Rightarrow>
              (case receive_payload N offer share_id fls s (ib_disk ib) of
                 (r, fls, progress, s, d) \<Rightarrow>
                   let ib = post_io (\<lambda>i. finish_cancellation share_id
                              (end_session s (fold (emit_progress (medium_name medium) share_id) progress i)))
                              (ib\<lparr>ib_disk := d\<rparr>)
                   in (case r of
                         Inr ev \<Rightarrow>
                           (case commit_files fls (ib_disk ib) of
                              (Inl e, d) \<Rightarrow> (Inl (storage_reason e, Some share_id), ib\<lparr>ib_disk := d\<rparr>)
                            | (Inr _, d) \<Rightarrow> (Inr ev, ib\<lparr>ib_disk := d\<rparr>))
                       | Inl e \<Rightarrow>
                           let ib = ib\<lparr>ib_disk := drop_files fls (ib_disk ib)\<rparr> in
                           (if e = PCancelled then (Inr (InboundCancelled share_id), ib)
                            else (Inl (protocol_reason e, Some share_id), ib)))))))"

text \<open>What follows the decision.\<close>

definition settle_share :: "('sk, 'pk) sharing_net \<Rightarrow> medium \<Rightarrow> incoming_offer \<Rightarrow> nat \<Rightarrow> consent \<Rightarrow> sharing_session \<Rightarrow>
    inbound \<Rightarrow> ((inbound_error + network_event) \<times> inbound) option" where
  "settle_share N medium offer a decided s ib =
     (case decided of
        ConsentAccepted share_id \<Rightarrow> Some (store_share N medium offer share_id s ib)
      | ConsentRejected share_id \<Rightarrow>
          (case answer (reject_incoming_offer N) s (\<lambda>why. (why, Some share_id)) (Inr (InboundRejected share_id)) ib of
             (Inl e, ib) \<Rightarrow> Some (Inl e, ib)
           | (Inr ev, ib) \<Rightarrow> Some (Inr ev, post_io (finish_cancellation share_id) ib))
      | ConsentCancelled \<Rightarrow>
          (case answer (reject_incoming_offer N) s (\<lambda>why. (why, None)) (Inl (ascii ''cancelled'', None)) ib of
             (Inl (why, _), ib) \<Rightarrow>
               do { (i, w) \<leftarrow> consent_id_of a (ib_worker ib); Some (Inl (why, i), ib\<lparr>ib_worker := w\<rparr>) }
           | (Inr ev, ib) \<Rightarrow> Some (Inr ev, ib))
      | ConsentTimedOut \<Rightarrow>
          Some (answer (timeout_incoming_offer N) s (\<lambda>why. (why, None)) (Inl (ascii ''timed_out'', None)) ib))"

text \<open>The offer of a session: the second component is the proposal.\<close>

definition offer_share :: "('sk, 'pk) sharing_net \<Rightarrow> medium \<Rightarrow> nat \<Rightarrow> incoming_offer \<Rightarrow> sharing_session \<Rightarrow> inbound \<Rightarrow>
    ((inbound_error + network_event) \<times> nat option \<times> inbound) option" where
  "offer_share N medium generation offer s ib =
     do { (token, w) \<leftarrow> worker_vis (\<lambda>now t. propose now t generation
            (cf_consent_timeout_secs (wk_config (ib_worker ib)) * NANOS) (ib_address ib)) (ib_worker ib);
          let ib = ib\<lparr>ib_worker := w\<rparr>;
          case token of
            None \<Rightarrow>
              (case answer (reject_incoming_offer N) s (\<lambda>why. (why, None)) (Inl (ascii ''cancelled'', None)) ib of
                 (r, ib) \<Rightarrow> Some (r, None, ib))
          | Some a \<Rightarrow>
              (case announce_offer offer (c_verification_code (sh_conn s)) a ib of
                 (False, ib) \<Rightarrow> Some (Inl (ascii ''disconnected'', None), Some a, ib)
               | (True, ib) \<Rightarrow>
                 (case wait_for_consent N a generation (ib_turns ib) s (ib_worker ib) of
                    None \<Rightarrow> None
                  | Some (r, turns, s, w) \<Rightarrow>
                      let ib = ib\<lparr>ib_turns := turns, ib_worker := w\<rparr> in
                      (case r of
                         Inl e \<Rightarrow> Some (Inl e, Some a, ib)
                       | Inr decided \<Rightarrow>
                         (case settle_share N medium offer a decided s ib of
                            None \<Rightarrow> None
                          | Some (r, ib) \<Rightarrow> Some (r, Some a, ib))))) }"

definition receive_share :: "('sk, 'pk) sharing_net \<Rightarrow> stream \<Rightarrow> medium \<Rightarrow> nat \<Rightarrow> inbound \<Rightarrow>
    (network_event \<times> inbound) option" where
  "receive_share N stream medium generation ib =
     (case open_offer N stream medium ib of
        None \<Rightarrow> None
      | Some (Inl e, ib) \<Rightarrow> Some (InboundFailed (protocol_reason e) None None, ib)
      | Some (Inr (offer, s), ib) \<Rightarrow>
        (case offer_share N medium generation offer s ib of
           None \<Rightarrow> None
         | Some (Inr ev, proposal, ib) \<Rightarrow> Some (ev, ib)
         | Some (Inl (why, Some i), proposal, ib) \<Rightarrow> Some (InboundFailed why (Some i) proposal, ib)
         | Some (Inl (why, None), None, ib) \<Rightarrow> Some (InboundFailed why None None, ib)
         | Some (Inl (why, None), Some a, ib) \<Rightarrow>
             do { (i, w) \<leftarrow> consent_id_of a (ib_worker ib);
                  Some (InboundFailed why i (Some a), ib\<lparr>ib_worker := w\<rparr>) }))"

subsection \<open>The receive directory\<close>

text \<open>What a sink has been given, however the transfer ends: consecutive pieces, up to an error.\<close>

lemma receive_chunks_to_writes:
  "receive_chunks_to wr N i sz received w s = (r, w', s') \<Longrightarrow>
     \<exists>bs x. write_pieces wr bs w = (x, w') \<and> (r = Inr () \<longrightarrow> x = Inr () \<and> received + length (concat bs) = sz)"
proof (induction s arbitrary: received w rule: wf_induct_rule [OF wf_session_order])
  case (1 s)
  note unfolded = "1.prems" [unfolded receive_chunks_to.simps [of wr N i sz received w s]]
  have stop: ?case if "w' = w" "\<exists>e. r = Inl e" using that by (intro exI [of _ "[]"]) auto
  obtain x s1 where x: "stop_if_cancelled N s = (x, s1)" by fastforce
  show ?case
  proof (cases x)
    case (Inl e)
    then show ?thesis using unfolded x stop by auto
  next
    case (Inr u)
    obtain y s2 where y: "next_transfer_event_for N i s1 = (y, s2)" by fastforce
    show ?thesis
    proof (cases y)
      case (Inl e)
      then show ?thesis using unfolded x Inr y stop by auto
    next
      case ev: (Inr ev)
      have less: "ev \<noteq> EvDisconnected \<Longrightarrow> (s2, s) \<in> session_order"
        using transfer_turn [of s1 N s ev s2 i] x Inr y ev by simp
      show ?thesis
      proof (cases ev)
        case (EvBytes j bs)
        then show ?thesis
          using unfolded x Inr y ev stop "1.IH" [OF less] by (auto split: control_action.splits)
      next
        case (EvFileChunk j offset chunk is_last)
        obtain v w1 where v: "wr chunk w = (v, w1)" by fastforce
        have one: "write_pieces wr (chunk # bs) w = (case v of Inl e \<Rightarrow> (Inl e, w1) | Inr _ \<Rightarrow> write_pieces wr bs w1)" for bs
          using v by (simp split: sum.split)
        consider "w' = w" "\<exists>e. r = Inl e"
          | e where "v = Inl e" "w' = w1" "r = Inl (PIo e)"
          | n where "v = Inr ()" "checked_add_u64 received (length chunk) = Some n" "w' = w1" "r = Inr () \<longrightarrow> n = sz"
          | n where "v = Inr ()" "checked_add_u64 received (length chunk) = Some n"
              "receive_chunks_to wr N i sz n w1 (on_progress n s2) = (r, w', s')"
          using unfolded x Inr y ev EvFileChunk v
          by (auto simp: Let_def split: option.splits if_splits sum.splits)
        then show ?thesis
        proof cases
          case 1
          then show ?thesis by (rule stop)
        next
          case (2 e)
          then show ?thesis using one [of "[]"] by (intro exI [of _ "[chunk]"]) simp
        next
          case (3 n)
          then show ?thesis
            using one [of "[]"] checked_add_u64_Some [of received "length chunk" n]
            by (intro exI [of _ "[chunk]"]) simp
        next
          case (4 n)
          then obtain bs z where "write_pieces wr bs w1 = (z, w')"
            "r = Inr () \<longrightarrow> z = Inr () \<and> n + length (concat bs) = sz"
            using "1.IH" [of "on_progress n s2" n w1] less EvFileChunk by auto
          then show ?thesis
            using one [of bs] 4 checked_add_u64_Some [of received "length chunk" n]
            by (intro exI [of _ "chunk # bs"]) auto
        qed
      qed (use unfolded x Inr y ev stop in auto)
    qed
  qed
qed

text \<open>The disk of a share is a run of the store.\<close>

definition reaches :: "store \<Rightarrow> store \<Rightarrow> bool" where
  "reaches st st' \<longleftrightarrow> (\<exists>ops. run store_step ops st = st')"

lemma reaches_refl [simp]: "reaches st st"
  by (auto simp: reaches_def intro!: exI [of _ "[]"])

lemma reaches_step: "store_step op st = st' \<Longrightarrow> reaches st st'"
  by (auto simp: reaches_def intro!: exI [of _ "[op]"])

lemma reaches_trans: "reaches a b \<Longrightarrow> reaches b c \<Longrightarrow> reaches a c"
  by (auto simp: reaches_def) (metis run_append)

lemma drop_files_reaches: "reaches (d, fs) (drop_files fs d, [])"
proof (induction fs arbitrary: d)
  case (Cons f fs)
  have "store_step (ODrop 0) (d, f # fs) = (staged_drop f d, fs)" by (simp add: drop_at_def)
  from reaches_trans [OF reaches_step [OF this] Cons.IH] show ?case by simp
qed simp

lemma commit_files_reaches: "commit_files fs d = (r, d') \<Longrightarrow> reaches (d, fs) (d', [])"
proof (induction fs arbitrary: d)
  case (Cons f fs)
  obtain x d1 where x: "staged_commit f d = (x, d1)" by fastforce
  have "store_step (OCommit 0) (d, f # fs) = (d1, fs)" using x by (simp add: drop_at_def)
  note step = reaches_step [OF this]
  show ?case
  proof (cases x)
    case (Inl e)
    then show ?thesis using Cons.prems x reaches_trans [OF step drop_files_reaches [of d1 fs]] by simp
  next
    case (Inr u)
    then show ?thesis using Cons.prems x reaches_trans [OF step Cons.IH [of d1]] by simp
  qed
qed simp

lemma stage_files_reaches:
  "stage_files offer index n fs d = (r, d') \<Longrightarrow> reaches (d, fs) (d', case r of Inl _ \<Rightarrow> [] | Inr fs' \<Rightarrow> fs')"
proof (induction n arbitrary: index fs d)
  case (Suc n)
  note dropped = drop_files_reaches [of d fs]
  show ?case
  proof (cases "offer_file index offer")
    case None
    then show ?thesis using Suc.prems dropped by auto
  next
    case (Some part)
    show ?thesis
    proof (cases "u64_of_i64 (of_size_bytes part)")
      case None
      then show ?thesis using Suc.prems Some dropped by auto
    next
      case sz: (Some sz)
      obtain x d1 where x: "stage (offer_name part) sz d = (x, d1)" by fastforce
      have step: "reaches (d, fs) (d1, case x of Inl _ \<Rightarrow> fs | Inr f \<Rightarrow> fs @ [f])"
        by (rule reaches_step [of "OStage (offer_name part) sz"]) (simp add: x split: sum.split)
      show ?thesis
      proof (cases x)
        case (Inl e)
        then show ?thesis
          using Suc.prems Some sz x step reaches_trans [OF _ drop_files_reaches [of d1 fs]] by auto
      next
        case (Inr f)
        then have "stage_files offer (Suc index) n (fs @ [f]) d1 = (r, d')" using Suc.prems Some sz x by simp
        from Suc.IH [OF this] show ?thesis using step Inr reaches_trans by auto
      qed
    qed
  qed
qed auto

lemma write_pieces_reaches:
  "write_pieces staged_write_op bs (f, d) = (x, f', d') \<Longrightarrow> reaches (d, pre @ f # post) (d', pre @ f' # post)"
proof (induction bs arbitrary: f d)
  case (Cons b bs)
  obtain y f1 d1 where y: "staged_write_all b f d = (y, f1, d1)" by (metis prod_cases3)
  have step: "reaches (d, pre @ f # post) (d1, pre @ f1 # post)"
    by (rule reaches_step [of "OWriteAll (length pre) b"]) (simp add: y nth_append list_update_append)
  show ?case
    using Cons.prems Cons.IH [of f1 d1] reaches_trans [OF step] step
    by (auto simp: staged_write_op_def y split: sum.splits)
qed simp

lemma receive_incoming_file_to_writes:
  assumes "receive_incoming_file_to wr N part w s = (r, w', s')"
  shows "\<exists>bs x. write_pieces wr bs w = (x, w') \<and> (r = Inr () \<longrightarrow> x = Inr ())"
proof -
  have "w' = w \<and> (\<exists>e. r = Inl e) \<or> (\<exists>i sz s2. receive_chunks_to wr N i sz 0 w s2 = (r, w', s'))"
    using assms by (auto simp: receive_incoming_file_to_def split: prod.splits sum.splits)
  then show ?thesis
  proof
    assume "w' = w \<and> (\<exists>e. r = Inl e)"
    then show ?thesis by (intro exI [of _ "[]"]) auto
  next
    assume "\<exists>i sz s2. receive_chunks_to wr N i sz 0 w s2 = (r, w', s')"
    then obtain i sz s2 where "receive_chunks_to wr N i sz 0 w s2 = (r, w', s')" by blast
    from receive_chunks_to_writes [OF this] show ?thesis by blast
  qed
qed

lemma receive_files_reaches:
  "receive_files N offer index received fs s d = (r, fs', ps, s', d') \<Longrightarrow> reaches (d, pre @ fs) (d', pre @ fs')"
proof (induction fs arbitrary: index received s d pre r fs' ps s' d')
  case (Cons f fs)
  show ?case
  proof (cases "offer_file index offer")
    case None
    then show ?thesis using Cons.prems by simp
  next
    case (Some part)
    obtain x f1 d1 s1 where x: "receive_incoming_file_to staged_write_op N part (f, d) (s\<lparr>sh_progress := []\<rparr>) = (x, (f1, d1), s1)"
      by (metis prod_cases4 surj_pair)
    obtain bs y where "write_pieces staged_write_op bs (f, d) = (y, f1, d1)"
      using receive_incoming_file_to_writes [OF x] by blast
    then have step: "reaches (d, pre @ f # fs) (d1, pre @ f1 # fs)" by (rule write_pieces_reaches)
    obtain z gs qs s2 d2 where z: "receive_files N offer (Suc index)
        (min (received + the (u64_of_i64 (of_size_bytes part))) u64_max) fs s1 d1 = (z, gs, qs, s2, d2)"
      by (metis prod_cases5)
    from Cons.IH [OF this, of "pre @ [f1]"] have rest: "reaches (d, pre @ f # fs) (d2, pre @ f1 # gs)"
      using reaches_trans [OF step] by simp
    have "fs' = f1 # fs \<and> d' = d1 \<or> fs' = f1 # gs \<and> d' = d2"
      using Cons.prems Some x z by (auto simp: Let_def split: sum.splits option.splits)
    then show ?thesis using step rest by auto
  qed
qed simp

lemma receive_payload_reaches:
  "receive_payload N offer i fs s d = (r, fs', ps, s', d') \<Longrightarrow> reaches (d, fs) (d', fs')"
  using receive_files_reaches [of N offer 0 0 fs s d _ _ _ _ _ "[]"]
  by (auto simp: receive_payload_def split: if_splits prod.splits sum.splits)

lemma prepare_files_reaches:
  "prepare_files offer n ib = (r, ib') \<Longrightarrow>
     reaches (ib_disk ib, []) (ib_disk ib', case r of Inl _ \<Rightarrow> [] | Inr fs \<Rightarrow> fs)"
  by (auto simp: prepare_files_def Let_def dest!: stage_files_reaches split: if_splits prod.splits sum.splits)

lemma post_io_disk [simp]: "ib_disk (post_io f ib) = ib_disk ib"
  by (simp add: post_io_def on_io_def split: prod.splits)

lemma store_share_reaches:
  assumes "store_share N m offer i s ib = (r, ib')"
  shows "reaches (ib_disk ib, []) (ib_disk ib', [])"
proof (cases "u64_of_i64 (of_size_bytes offer)")
  case None
  then show ?thesis using assms by (simp add: store_share_def)
next
  case (Some n)
  obtain x ib1 where x: "prepare_files offer n ib = (x, ib1)" by fastforce
  note prep = prepare_files_reaches [OF x]
  show ?thesis
  proof (cases x)
    case (Inl e)
    then show ?thesis using assms Some x prep by (auto simp: store_share_def)
  next
    case (Inr fs)
    obtain y s1 where y: "accept_incoming_offer N (resume_session i s ib1) = (y, s1)" by fastforce
    show ?thesis
    proof (cases y)
      case (Inl e)
      then show ?thesis
        using assms Some x Inr y prep reaches_trans [OF _ drop_files_reaches] by (auto simp: store_share_def)
    next
      case acc: (Inr u)
      obtain z gs ps s2 d2 where z: "receive_payload N offer i fs s1 (ib_disk ib1) = (z, gs, ps, s2, d2)"
        by (metis prod_cases5)
      have got: "reaches (ib_disk ib, []) (d2, gs)"
        using reaches_trans [OF _ receive_payload_reaches [OF z]] prep Inr by simp
      obtain v d3 where v: "commit_files gs d2 = (v, d3)" by fastforce
      have "ib_disk ib' = drop_files gs d2 \<or> ib_disk ib' = d3"
        using assms Some x Inr y acc z v by (auto simp: store_share_def Let_def split: sum.splits if_splits)
      then show ?thesis
        using reaches_trans [OF got drop_files_reaches] reaches_trans [OF got commit_files_reaches [OF v]] by auto
    qed
  qed
qed

subsection \<open>Completed files\<close>

definition file_spec :: "staged_file \<Rightarrow> rstring \<times> int" where
  "file_spec f = (sf_name f, int (sf_declared_size f))"

definition part_spec :: "offered_file \<Rightarrow> rstring \<times> int" where
  "part_spec p = (fi_name p, fi_size_bytes p)"

text \<open>The file holds as many bytes as were counted.\<close>

definition counts :: "disk \<Rightarrow> staged_file \<Rightarrow> bool" where
  "counts d f \<longleftrightarrow> (\<exists>c. dk_data d (sf_inode f) = Some c \<and> length c = sf_written f)"

lemma reaches_inv: "reaches st st' \<Longrightarrow> store_inv st \<Longrightarrow> store_inv st'"
  using store.inv_run_from [of st, OF _ allowed_run_all] by (auto simp: reaches_def)

lemma reaches_undisturbed:
  "reaches st st' \<Longrightarrow> store_inv st \<Longrightarrow> undisturbed n e c st \<Longrightarrow> undisturbed n e c st'"
  using undisturbed_run [of st n e c] by (auto simp: reaches_def)

lemma inode_below: "store_inv (d, fs) \<Longrightarrow> f \<in> set fs \<Longrightarrow> sf_inode f < dk_next d"
  using store_inv_disk [OF _ flight_name [OF store_inv_member]] by blast

lemma inode_apart:
  assumes inv: "store_inv (d, pre @ f # post)" and g: "g \<in> set pre \<union> set post"
  shows "sf_inode g \<noteq> sf_inode f"
proof
  assume same: "sf_inode g = sf_inode f"
  have f: "flight_ok d f" and g': "flight_ok d g" using inv g store_inv_member [OF inv] by auto
  have "sf_staging g = sf_staging f"
    using sole_nameD [OF flight_sole [OF f]] flight_name [OF g'] same by metis
  moreover have "distinct (map sf_staging (pre @ f # post))" using inv by (simp add: store_inv_def)
  ultimately show False using g by (auto simp: image_iff)
qed

lemma stage_files_spec:
  "stage_files offer index n fs d = (Inr fs', d') \<Longrightarrow> store_inv (d, fs) \<Longrightarrow> (\<And>f. f \<in> set fs \<Longrightarrow> counts d f) \<Longrightarrow>
     map file_spec fs' = map file_spec fs @ map part_spec (take n (drop index (of_files offer))) \<and>
     (\<forall>f \<in> set fs'. counts d' f)"
proof (induction n arbitrary: index fs d)
  case (Suc n)
  from Suc.prems(1) obtain part sz f d1 where
    part: "offer_file index offer = Some part" "u64_of_i64 (of_size_bytes part) = Some sz"
      "stage (offer_name part) sz d = (Inr f, d1)" "stage_files offer (Suc index) n (fs @ [f]) d1 = (Inr fs', d')"
    by (auto split: option.splits sum.splits prod.splits)
  let ?p = "of_files offer ! index"
  have index: "index < length (of_files offer)" "of_files part = [?p]" "of_size_bytes part = fi_size_bytes ?p"
    using part(1) by (auto simp: offer_file_def Let_def split: if_splits)
  have eff: "sf_declared_size f = sz" "sf_name f = offer_name part" "sf_inode f = dk_next d" "sf_written f = 0"
    "dk_data d1 = (dk_data d)(dk_next d \<mapsto> [])"
    using stage_effect [OF part(3)] by (simp_all add: created_def)
  have spec: "file_spec f = part_spec ?p"
    using eff part(2) index by (auto simp: file_spec_def part_spec_def offer_name_def u64_of_i64_def split: if_splits)
  have inv: "store_inv (d1, fs @ [f])" using stage_inv(1) [OF Suc.prems(2) part(3)] by simp
  have "counts d1 g" if "g \<in> set (fs @ [f])" for g
  proof (cases "g = f")
    case True
    then show ?thesis using eff by (simp add: counts_def)
  next
    case False
    then have g: "g \<in> set fs" using that by auto
    show ?thesis
      using Suc.prems(3) [OF g] inode_below [OF Suc.prems(2) g] eff(5) by (auto simp: counts_def)
  qed
  from Suc.IH [OF part(4) inv this] show ?case
    using spec index(1) by (simp add: Cons_nth_drop_Suc [symmetric])
qed simp

lemma write_pieces_staged: "write_pieces staged_write_op bs (f, d) = write_chunks bs f d"
  by (induction bs arbitrary: f d) (auto simp: staged_write_op_def split: prod.splits sum.splits)

lemma receive_files_spec:
  "receive_files N offer index received fs s d = (Inr n, fs', ps, s', d') \<Longrightarrow> store_inv (d, pre @ fs) \<Longrightarrow>
     (\<And>f. f \<in> set (pre @ fs) \<Longrightarrow> counts d f) \<Longrightarrow>
     map file_spec fs' = map file_spec fs \<and> (\<forall>f \<in> set (pre @ fs'). counts d' f)"
proof (induction fs arbitrary: index received s d pre fs' ps)
  case (Cons f fs)
  from Cons.prems(1) obtain part f1 d1 s1 k gs qs where
    x: "receive_incoming_file_to staged_write_op N part (f, d) (s\<lparr>sh_progress := []\<rparr>) = (Inr (), (f1, d1), s1)"
    and z: "receive_files N offer (Suc index) k fs s1 d1 = (Inr n, gs, qs, s', d')" and fs': "fs' = f1 # gs"
    by (auto simp: Let_def split: option.splits sum.splits prod.splits)
  obtain bs where bs: "write_pieces staged_write_op bs (f, d) = (Inr (), f1, d1)"
    using receive_incoming_file_to_writes [OF x] by auto
  obtain c where c: "dk_data d (sf_inode f) = Some c" "length c = sf_written f"
    using Cons.prems(3) [of f] by (auto simp: counts_def)
  have w: "appended (sf_inode f) (concat bs) d d1" "f1 = f\<lparr>sf_written := sf_written f + length (concat bs)\<rparr>"
    using write_chunks_effect [OF bs [unfolded write_pieces_staged] c(1)] by simp_all
  have inv: "store_inv (d1, (pre @ [f1]) @ fs)"
    using reaches_inv [OF write_pieces_reaches [OF bs] Cons.prems(2)] by simp
  have "counts d1 g" if "g \<in> set ((pre @ [f1]) @ fs)" for g
  proof (cases "g = f1")
    case True
    then show ?thesis using w c by (simp add: counts_def appended_def)
  next
    case False
    then have g: "g \<in> set pre \<union> set fs" using that by auto
    then show ?thesis
      using Cons.prems(3) [of g] inode_apart [OF Cons.prems(2) g] w(1) by (auto simp: counts_def appended_def)
  qed
  from Cons.IH [OF z inv this] show ?case using w(2) fs' by (auto simp: file_spec_def)
qed simp

definition published :: "disk \<Rightarrow> rstring \<times> int \<Rightarrow> bool" where
  "published d spec \<longleftrightarrow> (\<exists>i c. dk_names d (fst spec) = Some (DFile i) \<and> dk_data d i = Some c \<and> int (length c) = snd spec)"

lemma commit_files_published:
  "commit_files fs d = (Inr (), d') \<Longrightarrow> store_inv (d, fs) \<Longrightarrow> (\<And>f. f \<in> set fs \<Longrightarrow> counts d f) \<Longrightarrow>
     list_all (published d') (map file_spec fs)"
proof (induction fs arbitrary: d)
  case (Cons f fs)
  obtain path d1 where x: "staged_commit f d = (Inr path, d1)" and rest: "commit_files fs d1 = (Inr (), d')"
    using Cons.prems(1) by (auto split: prod.splits sum.splits)
  have ok: "flight_ok d f" using store_inv_member [OF Cons.prems(2)] by simp
  obtain c where c: "dk_data d (sf_inode f) = Some c" "length c = sf_written f"
    using Cons.prems(3) [of f] by (auto simp: counts_def)
  have nc: "\<not> sf_committed f" "sf_destination f = sf_name f" "\<not> is_staging_name (sf_name f)"
    "is_staging_name (sf_staging f)"
    using ok by (simp_all add: flight_ok_def)
  have eff: "dk_data d1 = dk_data d" "sf_written f = sf_declared_size f"
    "dk_names d1 = (dk_names d)(sf_name f := dk_names d (sf_staging f), sf_staging f := None)"
    using staged_commit_effect [OF x nc(1)] nc(2) by auto
  have inv: "store_inv (d1, fs)"
    using reaches_inv [OF reaches_step [of "OCommit 0"] Cons.prems(2), of "(d1, fs)"] x by (simp add: drop_at_def)
  have "sf_name f \<noteq> sf_staging f" using nc(3,4) by metis
  then have entry: "dk_names d1 (sf_name f) = Some (DFile (sf_inode f))" using eff(3) flight_name [OF ok] by simp
  have "sf_name f \<notin> sf_staging ` set fs"
    using nc(3) store_inv_member [OF inv] by (auto simp: flight_ok_def)
  then have "undisturbed (sf_name f) (DFile (sf_inode f)) c (d1, fs)"
    using entry c eff(1) by (simp add: undisturbed_def)
  then have "undisturbed (sf_name f) (DFile (sf_inode f)) c (d', [])"
    by (rule reaches_undisturbed [OF commit_files_reaches [OF rest] inv])
  then have "published d' (file_spec f)"
    using c(2) eff(2) by (auto simp: published_def undisturbed_def file_spec_def)
  moreover have "counts d1 g" if "g \<in> set fs" for g using Cons.prems(3) [of g] that eff(1) by (simp add: counts_def)
  ultimately show ?case using Cons.IH [OF rest inv] by simp
qed simp

text \<open>What the accepted share reports.\<close>

definition share_reported :: "incoming_offer \<Rightarrow> nat \<Rightarrow> disk \<Rightarrow> network_event \<Rightarrow> bool" where
  "share_reported offer i d ev =
     (case ev of
        InboundCompleted n kind j val \<Rightarrow> j = i \<and> kind = of_kind offer \<and>
          (if persists_as_file kind then list_all (published d) (map part_spec (of_files offer))
           else (\<exists>v. val = Some v \<and> n = length v))
      | InboundCancelled j \<Rightarrow> j = i
      | _ \<Rightarrow> False)"

lemma prepare_files_spec:
  assumes "prepare_files offer n ib = (Inr fs, ib')" and "store_inv (ib_disk ib, [])"
  shows "persists_as_file (of_kind offer) \<longrightarrow> map file_spec fs = map part_spec (of_files offer)"
    and "\<forall>f \<in> set fs. counts (ib_disk ib') f"
proof -
  consider "fs = []" "\<not> persists_as_file (of_kind offer)"
    | ib1 where "stage_files offer 0 (file_count offer) [] (ib_disk ib) = (Inr fs, ib_disk ib')"
    using assms(1) by (auto simp: prepare_files_def Let_def split: if_splits prod.splits sum.splits)
  then show "persists_as_file (of_kind offer) \<longrightarrow> map file_spec fs = map part_spec (of_files offer)"
    "\<forall>f \<in> set fs. counts (ib_disk ib') f"
    using stage_files_spec [of offer 0 "file_count offer" "[]" "ib_disk ib" fs "ib_disk ib'"] assms(2)
    by (cases; simp add: file_count_def)+
qed

lemma store_share_reported:
  assumes "store_share N m offer i s ib = (Inr ev, ib')" and inv: "store_inv (ib_disk ib, [])"
  shows "share_reported offer i (ib_disk ib') ev"
proof -
  obtain n where n: "u64_of_i64 (of_size_bytes offer) = Some n"
    using assms(1) by (auto simp: store_share_def split: option.splits)
  obtain fs ib1 where x: "prepare_files offer n ib = (Inr fs, ib1)"
    using assms(1) n by (auto simp: store_share_def split: prod.splits sum.splits)
  obtain s1 where y: "accept_incoming_offer N (resume_session i s ib1) = (Inr (), s1)"
    using assms(1) n x by (auto simp: store_share_def split: prod.splits sum.splits)
  obtain z gs ps s2 d2 where z: "receive_payload N offer i fs s1 (ib_disk ib1) = (z, gs, ps, s2, d2)"
    by (metis prod_cases5)
  have inv1: "store_inv (ib_disk ib1, fs)" using reaches_inv [OF prepare_files_reaches [OF x] inv] by simp
  have inv2: "store_inv (d2, gs)" using reaches_inv [OF receive_payload_reaches [OF z] inv1] .
  consider "ev = InboundCancelled i" | d3 where "z = Inr ev" "commit_files gs d2 = (Inr (), d3)" "ib_disk ib' = d3"
    using assms(1) n x y z by (auto simp: store_share_def Let_def split: sum.splits prod.splits if_splits)
  then show ?thesis
  proof cases
    case 1
    then show ?thesis by (simp add: share_reported_def)
  next
    case (2 d3)
    show ?thesis
    proof (cases "persists_as_file (of_kind offer)")
      case False
      then show ?thesis
        using z 2 by (auto simp: receive_payload_def share_reported_def split: prod.splits sum.splits)
    next
      case True
      then obtain k where k: "receive_files N offer 0 0 fs s1 (ib_disk ib1) = (Inr k, gs, ps, s2, d2)"
        and ev: "ev = InboundCompleted k (of_kind offer) i None"
        using z 2 by (auto simp: receive_payload_def split: prod.splits sum.splits if_splits)
      have "map file_spec gs = map part_spec (of_files offer) \<and> (\<forall>f \<in> set gs. counts d2 f)"
        using receive_files_spec [OF k, of "[]"] inv1 prepare_files_spec [OF x inv] True by simp
      then have "list_all (published d3) (map part_spec (of_files offer))"
        using commit_files_published [OF 2(2) inv2] by metis
      then show ?thesis using ev 2(3) True by (simp add: share_reported_def)
    qed
  qed
qed

lemma store_share_core:
  assumes "store_share N m offer i s ib = (r, ib')"
  shows "wk_core (ib_worker ib') = wk_core (ib_worker ib)" and "\<And>why j. r = Inl (why, j) \<Longrightarrow> j = Some i"
proof -
  have p: "wk_core (ib_worker (post_io f x)) = wk_core (ib_worker x)" for f x
    by (simp add: post_io_def on_io_def split: prod.splits)
  have q: "prepare_files offer n ib = (x, ib1) \<Longrightarrow> ib_worker ib1 = ib_worker ib" for n x ib1
    by (auto simp: prepare_files_def Let_def split: if_splits prod.splits sum.splits)
  show "wk_core (ib_worker ib') = wk_core (ib_worker ib)"
    using assms by (auto simp: store_share_def Let_def p dest!: q split: option.splits prod.splits sum.splits if_splits)
  show "j = Some i" if "r = Inl (why, j)" for why j
    using assms that by (auto simp: store_share_def Let_def split: option.splits prod.splits sum.splits if_splits)
qed

text \<open>The consent the worker was waiting for has been accepted.\<close>

definition accepted_as :: "nat \<Rightarrow> nat \<Rightarrow> inbound \<Rightarrow> bool" where
  "accepted_as a i ib \<longleftrightarrow> (\<exists>c. snd (wk_core (ib_worker ib)) a = Some c \<and> pc_outcome c = CAccepted i)"

lemma outcome_of_accepted:
  "consent_outcome_of a w = Some (CAccepted i, w') \<Longrightarrow>
     \<exists>c. snd (wk_core w') a = Some c \<and> pc_outcome c = CAccepted i"
  by (auto simp: consent_outcome_of_def worker_consent_call_def read_outcome_def Let_def
      split: prod.splits option.splits)

lemma settled_outcome_accepted:
  "settled_outcome a g w = Some (CAccepted i, w') \<Longrightarrow>
     \<exists>c. snd (wk_core w') a = Some c \<and> pc_outcome c = CAccepted i"
  by (auto simp: settled_outcome_def bind_eq_Some_conv split: if_splits dest: outcome_of_accepted)

lemma consent_turn_accepted:
  assumes "consent_turn N a g s w = Some (Some (Inr (ConsentAccepted i)), s', w')"
  shows "\<exists>c. snd (wk_core w') a = Some c \<and> pc_outcome c = CAccepted i"
proof -
  obtain out w1 where out: "settled_outcome a g w = Some (out, w1)"
    using assms by (auto simp: consent_turn_def bind_eq_Some_conv)
  have "out = CAccepted i \<and> w' = w1"
    using assms out
    by (cases out) (auto simp: consent_turn_def failed_with_def bind_eq_Some_conv split: prod.splits sum.splits)
  then show ?thesis using settled_outcome_accepted out by metis
qed

lemma hang_up_not_accepted: "hang_up a w = Some (Inr x, w') \<Longrightarrow> False"
  by (auto simp: hang_up_def failed_with_def bind_eq_Some_conv)

lemma wait_for_consent_accepted:
  "wait_for_consent N a g turns s w = Some (Inr (ConsentAccepted i), turns', s', w') \<Longrightarrow>
     \<exists>c. snd (wk_core w') a = Some c \<and> pc_outcome c = CAccepted i"
proof (induction turns arbitrary: s w)
  case Nil
  then show ?case
    by (subst (asm) wait_for_consent.simps)
      (auto dest: consent_turn_accepted hang_up_not_accepted split: option.splits prod.splits)
next
  case (Cons t ts)
  then show ?case
    by (subst (asm) wait_for_consent.simps)
      (auto dest: consent_turn_accepted hang_up_not_accepted
        split: option.splits prod.splits recv_turn.splits bool.splits)
qed

subsection \<open>The whole share\<close>

lemma on_io_disk: "on_io f ib = (x, ib') \<Longrightarrow> ib_disk ib' = ib_disk ib \<and> ib_address ib' = ib_address ib"
  by (auto simp: on_io_def split: prod.splits)

lemma answer_disk: "answer send s f other ib = (r, ib') \<Longrightarrow> ib_disk ib' = ib_disk ib"
  by (auto simp: answer_def split: prod.splits sum.splits)

lemma announce_disk:
  "announce_offer offer code a ib = (b, ib') \<Longrightarrow> ib_disk ib' = ib_disk ib \<and> ib_address ib' = ib_address ib"
  by (auto simp: announce_offer_def dest!: on_io_disk split: option.splits)

lemma open_offer_disk:
  "open_offer N stream m ib = Some (r, ib') \<Longrightarrow> ib_disk ib' = ib_disk ib \<and> ib_address ib' = ib_address ib"
proof -
  have p: "ib_address (post_io f x) = ib_address x" for f x by (simp add: post_io_def on_io_def split: prod.splits)
  show "open_offer N stream m ib = Some (r, ib') \<Longrightarrow> ib_disk ib' = ib_disk ib \<and> ib_address ib' = ib_address ib"
    by (auto simp: open_offer_def Let_def p split: option.splits prod.splits sum.splits)
qed

text \<open>
  What a share may have done to the directory, and what it may report: nothing was stored, and the
  event is no completion; or the consent was accepted, and the files went through the store.
\<close>

definition no_completion :: "network_event \<Rightarrow> bool" where
  "no_completion ev = (case ev of InboundCompleted _ _ _ _ \<Rightarrow> False | _ \<Rightarrow> True)"

definition stored_only_accepted ::
  "incoming_offer \<Rightarrow> inbound \<Rightarrow> inbound \<Rightarrow> inbound_error + network_event \<Rightarrow> bool" where
  "stored_only_accepted offer ib ib' r \<longleftrightarrow>
     ib_disk ib' = ib_disk ib \<and> (case r of Inl _ \<Rightarrow> True | Inr ev \<Rightarrow> no_completion ev) \<or>
     (\<exists>i. accepted_as (ib_address ib) i ib' \<and> reaches (ib_disk ib, []) (ib_disk ib', []) \<and>
        (case r of Inl (why, j) \<Rightarrow> j = Some i
         | Inr ev \<Rightarrow> store_inv (ib_disk ib, []) \<longrightarrow> share_reported offer i (ib_disk ib') ev))"

lemma answer_no_completion:
  "answer send s f other ib = (Inr ev, ib') \<Longrightarrow> other = Inr ev"
  by (auto simp: answer_def split: prod.splits sum.splits)

lemma settle_share_stored:
  assumes "settle_share N m offer a decided s ib = Some (r, ib')"
    and "\<And>i. decided = ConsentAccepted i \<Longrightarrow> accepted_as (ib_address ib) i ib"
  shows "stored_only_accepted offer ib ib' r"
proof (cases decided)
  case (ConsentAccepted i)
  then have st: "store_share N m offer i s ib = (r, ib')" using assms(1) by (simp add: settle_share_def)
  have "accepted_as (ib_address ib) i ib'"
    using assms(2) [OF ConsentAccepted] store_share_core(1) [OF st] by (simp add: accepted_as_def)
  then show ?thesis
    using store_share_reaches [OF st] store_share_core(2) [OF st] store_share_reported [of N m offer i s ib _ ib'] st
    by (cases r) (auto simp: stored_only_accepted_def)
next
  case (ConsentRejected i)
  obtain y ib1 where y: "answer (reject_incoming_offer N) s (\<lambda>why. (why, Some i)) (Inr (InboundRejected i)) ib = (y, ib1)"
    by fastforce
  have "ib_disk ib' = ib_disk ib \<and> (case r of Inl _ \<Rightarrow> True | Inr ev \<Rightarrow> no_completion ev)"
    using assms(1) ConsentRejected y answer_disk [OF y]
    by (cases y) (auto simp: settle_share_def no_completion_def dest!: answer_no_completion)
  then show ?thesis by (simp add: stored_only_accepted_def)
next
  case ConsentCancelled
  obtain y ib1 where y: "answer (reject_incoming_offer N) s (\<lambda>why. (why, None)) (Inl (ascii ''cancelled'', None)) ib = (y, ib1)"
    by fastforce
  have "ib_disk ib' = ib_disk ib \<and> (case r of Inl _ \<Rightarrow> True | Inr ev \<Rightarrow> no_completion ev)"
    using assms(1) ConsentCancelled y answer_disk [OF y] answer_no_completion [of _ s _ _ ib _ ib1]
    by (cases y) (auto simp: settle_share_def bind_eq_Some_conv)
  then show ?thesis by (simp add: stored_only_accepted_def)
next
  case ConsentTimedOut
  then obtain y where y: "answer (timeout_incoming_offer N) s (\<lambda>why. (why, None)) (Inl (ascii ''timed_out'', None)) ib = (r, ib')"
    using assms(1) by (auto simp: settle_share_def)
  show ?thesis
    using answer_disk [OF y] answer_no_completion [of "timeout_incoming_offer N" s _ _ ib _ ib'] y
    by (cases r) (auto simp: stored_only_accepted_def)
qed

lemma propose_token:
  "worker_vis (\<lambda>now t. propose now t g tm a) w = Some (token, w') \<Longrightarrow> token = None \<or> token = Some a"
  by (auto simp: worker_vis_def propose_def update_def propose_action_def bind_eq_Some_conv Let_def
      split: prod.splits if_splits)

lemma offer_share_stored:
  assumes "offer_share N m g offer s ib = Some (r, proposal, ib')"
  shows "stored_only_accepted offer ib ib' r" and "proposal \<in> {None, Some (ib_address ib)}"
proof -
  obtain token w where t: "worker_vis (\<lambda>now t. propose now t g (cf_consent_timeout_secs (wk_config (ib_worker ib)) * NANOS)
      (ib_address ib)) (ib_worker ib) = Some (token, w)"
    using assms by (auto simp: offer_share_def bind_eq_Some_conv)
  let ?ib = "ib\<lparr>ib_worker := w\<rparr>"
  have "stored_only_accepted offer ib ib' r \<and> proposal \<in> {None, Some (ib_address ib)}"
  proof (cases token)
    case None
    obtain y ib1 where y: "answer (reject_incoming_offer N) s (\<lambda>why. (why, None)) (Inl (ascii ''cancelled'', None)) ?ib = (y, ib1)"
      by fastforce
    then have "r = y" "ib' = ib1" "proposal = None" using assms t None by (auto simp: offer_share_def)
    then show ?thesis
      using answer_disk [OF y] answer_no_completion [of "reject_incoming_offer N" s _ _ ?ib _ ib1] y
      by (cases y) (auto simp: stored_only_accepted_def)
  next
    case (Some a)
    then have a: "a = ib_address ib" using propose_token [OF t] by simp
    obtain b ib1 where b: "announce_offer offer (c_verification_code (sh_conn s)) a ?ib = (b, ib1)" by fastforce
    note keep = announce_disk [OF b]
    show ?thesis
    proof (cases b)
      case False
      then show ?thesis using assms t Some b keep a by (auto simp: offer_share_def stored_only_accepted_def)
    next
      case True
      then obtain x turns s1 w1 where x: "wait_for_consent N a g (ib_turns ib1) s (ib_worker ib1) = Some (x, turns, s1, w1)"
        using assms t Some b by (auto simp: offer_share_def split: option.splits)
      let ?ib2 = "ib1\<lparr>ib_turns := turns, ib_worker := w1\<rparr>"
      show ?thesis
      proof (cases x)
        case (Inl e)
        then show ?thesis using assms t Some b True x keep a by (auto simp: offer_share_def Let_def stored_only_accepted_def)
      next
        case (Inr decided)
        then obtain y ib3 where y: "settle_share N m offer a decided s1 ?ib2 = Some (y, ib3)"
          and out: "r = y" "ib' = ib3" "proposal = Some a"
          using assms t Some b True x by (auto simp: offer_share_def Let_def split: option.splits)
        have "accepted_as (ib_address ?ib2) i ?ib2" if "decided = ConsentAccepted i" for i
          using wait_for_consent_accepted x Inr that keep a by (fastforce simp: accepted_as_def)
        from settle_share_stored [OF y this] show ?thesis
          using out keep a by (cases y) (simp_all add: stored_only_accepted_def)
      qed
    qed
  qed
  then show "stored_only_accepted offer ib ib' r" "proposal \<in> {None, Some (ib_address ib)}" by simp_all
qed

lemma receive_share_cases:
  assumes "receive_share N stream m g ib = Some (ev, ib')"
  shows "ib_disk ib' = ib_disk ib \<and> no_completion ev \<or>
    (\<exists>i offer s ib1. open_offer N stream m ib = Some (Inr (offer, s), ib1) \<and> accepted_as (ib_address ib) i ib' \<and>
       reaches (ib_disk ib, []) (ib_disk ib', []) \<and>
       (no_completion ev \<or> (store_inv (ib_disk ib, []) \<longrightarrow> share_reported offer i (ib_disk ib') ev)))"
proof -
  obtain x ib1 where x: "open_offer N stream m ib = Some (x, ib1)"
    using assms by (auto simp: receive_share_def split: option.splits)
  note keep = open_offer_disk [OF x]
  show ?thesis
  proof (cases x)
    case (Inl e)
    then show ?thesis using assms x keep by (auto simp: receive_share_def no_completion_def)
  next
    case (Inr offer_s)
    obtain offer s where os: "offer_s = (offer, s)" by fastforce
    obtain r proposal ib2 where r: "offer_share N m g offer s ib1 = Some (r, proposal, ib2)"
      using assms x Inr os by (auto simp: receive_share_def split: option.splits)
    note stored = offer_share_stored(1) [OF r, unfolded stored_only_accepted_def]
    show ?thesis
    proof (cases r)
      case (Inr ev1)
      then have "ev = ev1" "ib' = ib2" using assms x \<open>x = Inr offer_s\<close> os r by (auto simp: receive_share_def)
      then show ?thesis using stored keep Inr x \<open>x = Inr offer_s\<close> os by auto
    next
      case (Inl e)
      obtain why j where e: "e = (why, j)" by fastforce
      have disk: "ib_disk ib' = ib_disk ib2 \<and> no_completion ev"
        using assms x \<open>x = Inr offer_s\<close> os r Inl e
        by (auto simp: receive_share_def no_completion_def bind_eq_Some_conv split: option.splits)
      have same: "ib' = ib2" if "j \<noteq> None"
        using assms x \<open>x = Inr offer_s\<close> os r Inl e that by (auto simp: receive_share_def split: option.splits)
      show ?thesis using stored keep Inl e disk same x \<open>x = Inr offer_s\<close> os by auto
    qed
  qed
qed

text \<open>
  C2. Nothing a peer sends reaches the receive directory without the user's consent, and nothing that
  was there is touched. Whatever the peer, the endpoint and the system calls do: after an inbound
  connection the directory is unchanged, or the consent of the offer of this very connection has been
  accepted; the invariant of the store holds again with no name left reserved, though a staging file may
  remain where the system refused to remove it; and every entry that was there before is still there with
  its content.
\<close>

theorem inbound_needs_consent:
  assumes "receive_share N stream m g ib = Some (ev, ib')" and "store_inv (ib_disk ib, [])"
    and "undisturbed n e c (ib_disk ib, [])"
  shows "(ib_disk ib' = ib_disk ib \<or> (\<exists>i. accepted_as (ib_address ib) i ib')) \<and> store_inv (ib_disk ib', []) \<and>
    undisturbed n e c (ib_disk ib', [])"
  using receive_share_cases [OF assms(1)] assms(2,3) reaches_inv reaches_undisturbed by metis

text \<open>
  C3. An inbound share that is reported complete is complete: its consent was accepted under the
  reported share identifier, the kind is that of the offer, every file of the offer is in the receive
  directory under its offered name with exactly its offered length, and a text or address is reported
  with its length.
\<close>

theorem inbound_completed_saved:
  assumes "offer_share N m g offer s ib = Some (Inr (InboundCompleted n kind i val), proposal, ib')"
    and "store_inv (ib_disk ib, [])"
  shows "accepted_as (ib_address ib) i ib' \<and> kind = of_kind offer \<and>
    (if persists_as_file kind then list_all (published (ib_disk ib')) (map part_spec (of_files offer))
     else (\<exists>v. val = Some v \<and> n = length v))"
  using offer_share_stored(1) [OF assms(1)] assms(2)
  by (auto simp: stored_only_accepted_def no_completion_def share_reported_def)

end
