(* ===== verification/Worker_Example.thy ===== *)
theory Worker_Example
  imports Worker_Inbound
begin

text \<open>
  A concrete inbound share: a visible worker, an endpoint whose user accepts the offer of a file of two
  bytes, and a session in which that file has arrived. It is the witness of the inbound worker's properties.
\<close>

subsection \<open>The file on disk\<close>

definition ex_disk :: disk where "ex_disk = fst empty_store"

definition ex_staging :: rstring where "ex_staging = staging_name 0 0"

definition ex_staged :: staged_file where
  "ex_staged = \<lparr>sf_committed = False, sf_declared_size = 2, sf_destination = [97], sf_inode = 0, sf_name = [97],
     sf_staging = ex_staging, sf_written = 0\<rparr>"

definition ex_disk_staged :: disk where
  "ex_disk_staged = ex_disk\<lparr>dk_names := [ex_staging \<mapsto> DFile 0], dk_data := [0 \<mapsto> []], dk_next := 1,
     dk_reserved := [[97]], dk_serial := 1\<rparr>"

definition ex_disk_written :: disk where
  "ex_disk_written = ex_disk_staged\<lparr>dk_data := [0 \<mapsto> [1, 2]]\<rparr>"

lemma ex_safe_name: "safe_file_name [97] = Inr [97]"
  by (simp add: safe_file_name_def path_components_def part_component_def NAME_MAX_def ascii_def is_ascii_control_def
      Let_def)

lemma ex_disk_simps [simp]:
  "dk_faults ex_disk = []" "dk_writes ex_disk = []" "dk_names ex_disk = (\<lambda>_. None)" "dk_reserved ex_disk = []"
  "dk_next ex_disk = 0" "dk_serial ex_disk = 0" "dk_pid ex_disk = 0" "dk_data ex_disk = (\<lambda>_. None)"
  by (simp_all add: ex_disk_def empty_store_def)

lemma ex_stage: "stage [97] 2 ex_disk = (Inr ex_staged, ex_disk_staged)"
proof -
  have serial: "Suc 0 mod (u64_max + 1) = 1" by (simp add: u64_max_def)
  have "create_attempts (Suc 63) (ex_disk\<lparr>dk_reserved := [[97]]\<rparr>) = (Inr (0, ex_staging), ex_disk_staged)"
    by (simp only: create_attempts.simps)
      (simp add: create_new_def syscall_def Let_def ex_disk_staged_def ex_staging_def serial [simplified])
  then have "create_staging_file (ex_disk\<lparr>dk_reserved := [[97]]\<rparr>) = (Inr (0, ex_staging), ex_disk_staged)"
    by (simp add: create_staging_file_def STAGING_ATTEMPTS_def)
  then show ?thesis
    by (simp add: stage_def ex_safe_name reserve_def path_exists_def syscall_def ex_staged_def)
qed

lemma ex_staging_name: "ex_staging \<noteq> [97]"
  by (simp add: ex_staging_def staging_name_def ascii_def)

lemma ex_write:
  "staged_write_op [1, 2] (ex_staged, ex_disk_staged) = (Inr (), ex_staged\<lparr>sf_written := 2\<rparr>, ex_disk_written)"
  by (simp add: staged_write_op_def staged_write_all_def reject_overflow_def add_written_def checked_add_u64_def u64_max_def
      ex_staged_def file_write_all.simps file_write_def file_append_def counted_def ex_disk_staged_def ex_disk_written_def)

lemma ex_commit:
  "\<exists>d. commit_files [ex_staged\<lparr>sf_written := 2\<rparr>] ex_disk_written = (Inr (), d)"
  using ex_staging_name
  by (simp add: staged_commit_def syscall_def ex_disk_written_def ex_disk_staged_def ex_staged_def hard_link_def
      remove_file_def)

subsection \<open>The file on the connection\<close>

definition ex_file_offer :: incoming_offer where "ex_file_offer = offer_new OFile [97] 2 9"

definition ex_file_session :: sharing_session where
  "ex_file_session = ex_session\<lparr>sh_conn := ex_connection\<lparr>pending_events :=
     [EvFileHeader 9 2 (Some [97]), EvFileChunk 9 0 [1, 2] True]\<rparr>\<rparr>"

lemma ex_offer_file: "offer_file 0 ex_file_offer = Some ex_file_offer"
  by (simp add: ex_file_offer_def offer_file_def offer_new_def)

lemma ex_sizes: "u64_of_i64 2 = Some 2" "checked_add_u64 0 (Suc (Suc 0)) = Some 2" "i64_of_u64 0 = Some 0"
  by (simp_all add: u64_of_i64_def checked_add_u64_def u64_max_def i64_of_u64_def i64_max_def)

lemma ex_receive_files:
  assumes "pending_events (sh_conn s) = [EvFileHeader 9 2 (Some [97]), EvFileChunk 9 0 [1, 2] True]" "sh_cancel s = []"
  shows "\<exists>s'. receive_files N ex_file_offer 0 0 [ex_staged] s ex_disk_staged =
    (Inr 2, [ex_staged\<lparr>sf_written := 2\<rparr>], [2], s', ex_disk_written) \<and> sh_cancel s' = []"
proof -
  let ?s1 = "s\<lparr>sh_progress := [], sh_conn := (sh_conn s)\<lparr>pending_events := [EvFileChunk 9 0 [1, 2] True]\<rparr>\<rparr>"
  let ?s2 = "s\<lparr>sh_progress := [], sh_conn := (sh_conn s)\<lparr>pending_events := []\<rparr>\<rparr>"
  have go: "stop_if_cancelled N x = (Inr (), x)" if "sh_cancel x = []" for x
    using that by (simp add: stop_if_cancelled_def is_cancelled_def)
  have "next_transfer_event_for N 9 (s\<lparr>sh_progress := []\<rparr>) = (Inr (EvFileHeader 9 2 (Some [97])), ?s1)"
    using assms by (simp add: next_transfer_event_for.simps pending_event_first)
  then have h: "receive_file_header N ex_file_offer (s\<lparr>sh_progress := []\<rparr>) = (Inr (9, 2), ?s1)"
    by (simp add: receive_file_header.simps ex_file_offer_def offer_payload_id_def offer_name_def ex_sizes)
  have "next_transfer_event_for N 9 ?s1 = (Inr (EvFileChunk 9 0 [1, 2] True), ?s2)"
    by (simp add: next_transfer_event_for.simps pending_event_first)
  then have "receive_chunks_to staged_write_op N 9 2 0 (ex_staged, ex_disk_staged) ?s1 =
      (Inr (), (ex_staged\<lparr>sf_written := 2\<rparr>, ex_disk_written), on_progress 2 ?s2)"
    using assms(2) by (simp add: receive_chunks_to.simps go ex_sizes ex_write)
  then have "receive_incoming_file_to staged_write_op N ex_file_offer (ex_staged, ex_disk_staged) (s\<lparr>sh_progress := []\<rparr>) =
      (Inr (), (ex_staged\<lparr>sf_written := 2\<rparr>, ex_disk_written), on_progress 2 ?s2)"
    using assms(2) h by (simp add: receive_incoming_file_to_def go)
  moreover have "min 2 u64_max = 2" by (simp add: u64_max_def)
  moreover have "of_size_bytes ex_file_offer = 2" by (simp add: ex_file_offer_def)
  ultimately show ?thesis
    using assms(2) by (simp add: ex_offer_file ex_sizes on_progress_def Let_def)
qed

subsection \<open>The decision of the user\<close>

definition ex_worker_config :: config where
  "ex_worker_config = \<lparr>cf_consent_timeout_secs = 60, cf_device_name = None, cf_discoverable = True,
     cf_discovery_timeout_secs = 15, cf_pinned_peer_id = None, cf_read_clipboard_on_select = False,
     cf_receive_directory = [47, 100], cf_transfer_timeout_secs = 60\<rparr>"

definition ex_visibility :: vis_state where
  "ex_visibility = vis_default\<lparr>vs_generation := 2, vs_requested := True, vs_phase := VOpen\<rparr>"

text \<open>The endpoint admits the offer, and its user accepts it.\<close>

definition ex_calls :: "other_call list" where
  "ex_calls = [OnVisibility (Admit 5) 0 0, OnConsent 5 (CBind 3) 0, OnConsent 5 (CAccept 3) 0]"

definition ex_worker :: worker where
  "ex_worker =
     \<lparr>wk_io = ex_io\<lparr>wi_loads := []\<rparr>, wk_config = ex_worker_config, wk_hostname = None, wk_dns_sd = True,
      wk_core = (ex_visibility, \<lambda>_. None), wk_boot = 0, wk_ticks = [],
      wk_endpoint = [[], ex_calls],
      wk_discovering = False, wk_restart_at = 0, wk_browser = False, wk_discovery = (False, False), wk_seen = [],
      wk_instant = 0, wk_mkdir = [], wk_addresses = [], wk_republish = [], wk_listeners = [], wk_adapters = [],
      wk_scans = [], wk_order = id\<rparr>"

definition ex_inbound :: inbound where
  "ex_inbound = \<lparr>ib_worker = ex_worker, ib_turns = [], ib_address = 5, ib_disk = ex_disk,
     ib_targets = [(None, Inr [47, 100], Inr True)], ib_statvfs = [Inr (1, 4096)]\<rparr>"

definition ex_worker_consent :: pending_consent where
  "ex_worker_consent = consent_new 2 0 (60 * NANOS)"

lemma ex_consent_timeless: "0 < pc_deadline ex_worker_consent"
  by (simp add: ex_worker_consent_def consent_new_def duration_saturating_add_def NANOS_def DURATION_MAX_def)

lemma ex_offer_proposed:
  "worker_vis (\<lambda>now t. propose now t 2 (60 * NANOS) 5) ex_worker =
     Some (Some 5, ex_worker\<lparr>wk_endpoint := tl (wk_endpoint ex_worker),
       wk_core := (ex_visibility, [5 \<mapsto> ex_worker_consent])\<rparr>)"
  by (simp add: worker_vis_def endpoint_runs_def worker_clock_def ex_worker_def propose_def update_def propose_action_def
      ex_visibility_def vis_default_def admissible_def released_jobs_def option_list_def ex_worker_consent_def Let_def release_all_def)

lemma ex_decided:
  "fold endpoint_step ex_calls (ex_visibility, [5 \<mapsto> ex_worker_consent]) =
     (ex_visibility\<lparr>vs_pending := Some 5\<rparr>, [5 \<mapsto> ex_worker_consent\<lparr>pc_share_id := Some 3, pc_outcome := CAccepted 3\<rparr>])"
proof -
  have c: "pc_generation ex_worker_consent = 2" "pc_outcome ex_worker_consent = COffered" "pc_share_id ex_worker_consent = None"
    by (simp_all add: ex_worker_consent_def consent_new_def)
  show ?thesis
    using ex_consent_timeless
    by (simp add: ex_calls_def admit_def update_def admit_action_def ex_visibility_def vis_default_def admissible_def upgrade_def c
        consent_admit_def consent_bind_def consent_accept_def decision_def Let_def released_jobs_def option_list_def
        release_all_def)
qed

lemma ex_wait_accepted:
  assumes "wk_endpoint w = tl (wk_endpoint ex_worker)" "wk_core w = (ex_visibility, [5 \<mapsto> ex_worker_consent])"
    "wk_ticks w = []"
  shows "wait_for_consent N 5 g turns s w = Some (Inr (ConsentAccepted 3), turns, s, w\<lparr>wk_endpoint := [],
    wk_core := (ex_visibility\<lparr>vs_pending := Some 5\<rparr>, [5 \<mapsto> ex_worker_consent\<lparr>pc_share_id := Some 3, pc_outcome := CAccepted 3\<rparr>])\<rparr>)"
proof -
  have e: "wk_endpoint w = [ex_calls]"
    using assms(1) by (simp add: ex_worker_def)
  show ?thesis
    by (simp add: wait_for_consent.simps consent_turn_def settled_outcome_def consent_outcome_of_def
        worker_consent_call_def endpoint_runs_def e assms(2,3) ex_decided worker_clock_def read_outcome_def decision_def
        undecided_def Let_def)
qed

subsection \<open>The share\<close>

lemma ex_accept_offer:
  assumes "sh_conn s = ex_connection\<lparr>pending_events := evs\<rparr>" "sh_next s = 1"
  shows "\<exists>s'. accept_incoming_offer ex_sharing s = (Inr (), s') \<and> pending_events (sh_conn s') = evs \<and>
    sh_cancel s' = sh_cancel s"
proof -
  have "ex_sender 0 (sh_conn s)" using ex_connection_sender [of 0] assms(1) by (simp add: ex_sender_def)
  then obtain c where c: "send_control_frame ex_sharing accept_response s =
      (Inr (), s\<lparr>sh_next := next_control_id 1, sh_conn := c\<rparr>)"
    using ex_send_control [OF ex_accept_length, of 0 s] assms(2) by auto
  then have "send_bytes ex_net 1 (xe_sharing accept_response) (sh_conn s) = (Inr (), c)"
    using send_control_Inr [OF c] assms(2) by (auto dest!: arg_cong [where f = sh_conn])
  then have "pending_events c = evs" using same_but_output_fields(1) [OF send_bytes_same] assms(1) by fastforce
  then show ?thesis using c by (simp add: accept_incoming_offer_def send_consent_def)
qed

lemma ex_prepare:
  assumes "ib_targets ib = ib_targets ex_inbound" "ib_statvfs ib = ib_statvfs ex_inbound" "ib_disk ib = ex_disk"
  shows "prepare_files ex_file_offer 2 ib =
    (Inr [ex_staged], ib\<lparr>ib_targets := [], ib_statvfs := [], ib_disk := ex_disk_staged\<rparr>)"
proof -
  have o: "of_kind ex_file_offer = OFile" "file_count ex_file_offer = Suc 0" "of_size_bytes ex_file_offer = 2"
    "offer_name ex_file_offer = [97]"
    by (simp_all add: ex_file_offer_def file_count_def offer_name_def)
  show ?thesis
    using assms
    by (simp add: prepare_files_def persists_as_file_def o ex_inbound_def take_call_def target_open_def target_preflight_def
        quota_preflight_def available_bytes_def available_from_stat_def u64_max_def ex_offer_file ex_sizes ex_stage
        Let_def)
qed

lemma ex_store_share:
  assumes "ib_targets ib = ib_targets ex_inbound" "ib_statvfs ib = ib_statvfs ex_inbound" "ib_disk ib = ex_disk"
    "wi_next (wk_io (ib_worker ib)) = 1" "wi_loads (wk_io (ib_worker ib)) = []"
  shows "\<exists>ib'. store_share ex_sharing m ex_file_offer 3 ex_file_session ib = (Inr (InboundCompleted 2 OFile 3 None), ib')"
proof -
  let ?ib = "ib\<lparr>ib_targets := [], ib_statvfs := [], ib_disk := ex_disk_staged\<rparr>"
  have o: "of_kind ex_file_offer = OFile" "file_count ex_file_offer = Suc 0" "of_size_bytes ex_file_offer = 2"
    by (simp_all add: ex_file_offer_def file_count_def)
  obtain s where s: "accept_incoming_offer ex_sharing (resume_session 3 ex_file_session ?ib) = (Inr (), s)"
    "pending_events (sh_conn s) = [EvFileHeader 9 2 (Some [97]), EvFileChunk 9 0 [1, 2] True]" "sh_cancel s = []"
    using ex_accept_offer [of "resume_session 3 ex_file_session ?ib"] assms(4,5)
    by (auto simp: resume_session_def ex_file_session_def)
  obtain s' where "receive_files ex_sharing ex_file_offer 0 0 [ex_staged] s ex_disk_staged =
      (Inr 2, [ex_staged\<lparr>sf_written := 2\<rparr>], [2], s', ex_disk_written)"
    using ex_receive_files [OF s(2,3)] by blast
  then have r: "receive_payload ex_sharing ex_file_offer 3 [ex_staged] s ex_disk_staged =
      (Inr (InboundCompleted 2 OFile 3 None), [ex_staged\<lparr>sf_written := 2\<rparr>], [2], s', ex_disk_written)"
    by (simp add: receive_payload_def persists_as_file_def o)
  have "ib_disk (post_io f x) = ib_disk x" for f x by (simp add: post_io_def on_io_def split: prod.split)
  then show ?thesis
    using ex_commit by (auto simp: store_share_def o ex_sizes ex_prepare [OF assms(1-3)] s(1) r Let_def)
qed

lemma ex_offer_share:
  "\<exists>ib'. offer_share ex_sharing WifiLan 2 ex_file_offer ex_file_session ex_inbound =
     Some (Inr (InboundCompleted 2 OFile 3 None), Some 5, ib')"
proof -
  let ?w = "ex_worker\<lparr>wk_endpoint := tl (wk_endpoint ex_worker), wk_core := (ex_visibility, [5 \<mapsto> ex_worker_consent])\<rparr>"
  let ?code = "c_verification_code (sh_conn ex_file_session)"
  let ?io = "ex_io\<lparr>wi_loads := [], wi_events := [InboundOffered 5 OFile [97] 2 ?code]\<rparr>"
  have a: "announce_offer ex_file_offer ?code 5 (ex_inbound\<lparr>ib_worker := ?w\<rparr>) =
      (True, ex_inbound\<lparr>ib_worker := ?w\<lparr>wk_io := ?io\<rparr>\<rparr>)"
    by (simp add: announce_offer_def ex_file_offer_def ex_sizes on_io_def events_send_def ex_worker_def ex_io_def
        offer_name_def)
  let ?w' = "?w\<lparr>wk_io := ?io, wk_endpoint := [], wk_core := (ex_visibility\<lparr>vs_pending := Some 5\<rparr>,
      [5 \<mapsto> ex_worker_consent\<lparr>pc_share_id := Some 3, pc_outcome := CAccepted 3\<rparr>])\<rparr>"
  have w: "wait_for_consent ex_sharing 5 2 [] ex_file_session (?w\<lparr>wk_io := ?io\<rparr>) =
      Some (Inr (ConsentAccepted 3), [], ex_file_session, ?w')"
    by (rule ex_wait_accepted) (simp_all add: ex_worker_def)
  obtain ib' where b: "store_share ex_sharing WifiLan ex_file_offer 3 ex_file_session
      (ex_inbound\<lparr>ib_turns := [], ib_worker := ?w'\<rparr>) = (Inr (InboundCompleted 2 OFile 3 None), ib')"
    using ex_store_share [of "ex_inbound\<lparr>ib_turns := [], ib_worker := ?w'\<rparr>"]
    by (auto simp: ex_inbound_def ex_io_def)
  have f: "ib_worker ex_inbound = ex_worker" "ib_address ex_inbound = 5" "ib_turns ex_inbound = []"
    "cf_consent_timeout_secs (wk_config ex_worker) = 60"
    by (simp_all add: ex_inbound_def ex_worker_def ex_worker_config_def)
  show ?thesis
    using b by (simp add: offer_share_def f ex_offer_proposed a w settle_share_def Let_def)
qed

theorem inbound_completed_saved_witness:
  "\<exists>ib'. offer_share ex_sharing WifiLan 2 ex_file_offer ex_file_session ex_inbound =
     Some (Inr (InboundCompleted 2 OFile 3 None), Some 5, ib') \<and>
     accepted_as 5 3 ib' \<and> published (ib_disk ib') ([97], 2)"
proof -
  have inv: "store_inv (ib_disk ex_inbound, [])"
    by (simp add: ex_inbound_def ex_disk_def empty_store_def store_inv_def disk_ok_def)
  obtain ib' where r: "offer_share ex_sharing WifiLan 2 ex_file_offer ex_file_session ex_inbound =
     Some (Inr (InboundCompleted 2 OFile 3 None), Some 5, ib')" using ex_offer_share by blast
  from inbound_completed_saved [OF r inv] r show ?thesis
    by (simp add: persists_as_file_def ex_file_offer_def part_spec_def ex_inbound_def)
qed

text \<open>A peer that connects and says nothing, and a directory with a subdirectory.\<close>

definition ex_silent :: inbound where
  "ex_silent = ex_inbound\<lparr>ib_disk := ex_disk\<lparr>dk_names := [[100] \<mapsto> DDirectory]\<rparr>\<rparr>"

lemma ex_receive_silent:
  "\<exists>ib'. receive_share ex_sharing idle_stream WifiLan 2 ex_silent = Some (InboundFailed (ascii ''connection_io'') None None, ib')"
proof -
  obtain h where h: "handshake_new (n_crypto ex_net) Responder (replicate 32 1) (replicate 32 2) = Some h"
    by (auto simp: handshake_new_def ex_net_def ex_crypto_def)
  have s: "accept_io ex_net idle_stream h opts = Some (Inl (EIo ITimedOut))" for opts
    by (simp add: accept_io_def receive_plain_def io_read_def idle_stream_def stream_read_exact_def)
  have n: "worker_name ex_worker = FALLBACK_ENDPOINT_NAME"
    by (simp add: worker_name_def ex_worker_def ex_worker_config_def endpoint_name_def normalized_endpoint_name_def)
  obtain opts where o: "worker_options ex_draw WifiLan FALLBACK_ENDPOINT_NAME = Inr opts"
    by (auto simp: worker_options_def ex_draw_def endpoint_info_new_def LAPTOP_DEVICE_TYPE_def FALLBACK_ENDPOINT_NAME_def
        ascii_def u8_of_usize_def)
  have "\<exists>ib'. open_offer ex_sharing idle_stream WifiLan ex_silent = Some (Inl (PConnection (EIo ITimedOut)), ib')"
    using h s o n
    by (simp add: open_offer_def ex_silent_def ex_inbound_def accept_connection_def open_connection_def next_draw_def Let_def
      ex_worker_def ex_io_def ex_media_def ex_draw_def)
  then show ?thesis by (auto simp: receive_share_def protocol_reason_def)
qed

theorem inbound_needs_consent_witness:
  "\<exists>ib'. receive_share ex_sharing idle_stream WifiLan 2 ex_silent = Some (InboundFailed (ascii ''connection_io'') None None, ib') \<and>
     undisturbed [100] DDirectory [] (ib_disk ib', [])"
proof -
  have "store_inv (ib_disk ex_silent, [])" "undisturbed [100] DDirectory [] (ib_disk ex_silent, [])"
    by (simp_all add: ex_silent_def ex_inbound_def store_inv_def disk_ok_def undisturbed_def)
  then show ?thesis using ex_receive_silent inbound_needs_consent by blast
qed

end
