(* ===== verification/Spec2Isabelle.thy ===== *)
theory Spec2Isabelle
  imports Storage_Publication Storage_Source Daemon_Config Sharing_Coordinator Conn_Negotiate Sharing_Safety Bluez_Io Daemon_Admission Control_Messages Daemon_Guarantees Cli_Dispatch Worker_Example
begin

text \<open>
  A verification development of omarchy-quickshare, an implementation of Quick Share (Nearby Share) for
  a Linux desktop. All paths below are under \<open>src/crates\<close>.

  \<^bold>\<open>The program.\<close> A daemon (\<open>app\<close>) owns the shares of one user. Clients talk to it over a local socket
  (\<open>core/control\<close>); its state machine for shares is the coordinator (\<open>core/sharing\<close>). A network worker
  finds peers, connects to them over a Wi-Fi or Bluetooth stream (\<open>platform\<close>), runs the UKEY2 key exchange
  (\<open>core/crypto\<close>), sets up an encrypted Nearby Connections session (\<open>core/connections\<close>) and speaks the
  Nearby Sharing protocol over it (\<open>core/sharing/src/protocol\<close>): introductions, consent, files, texts and
  addresses. Received files are staged and published by \<open>platform/storage\<close>.

  \<^bold>\<open>Theories, bottom up.\<close>
  \<^item> \<open>QS_Prelude\<close>: bytes, Rust strings (their UTF-8 bytes), checked and saturating integers, runs of
    operations, the locales \<open>step_invariant\<close> and \<open>transition_invariant\<close>.
  \<^item> \<open>Wire_Framing\<close>: \<open>wire/src/framing.rs\<close>. Locale \<open>bounded_codec\<close>, interpreted by the codec.
  \<^item> \<open>Sharing_State\<close>, \<open>Sharing_Coordinator\<close>: \<open>sharing/src/{attachment,peer,snapshot,coordinator}.rs\<close>. Every
    method is a definition; \<open>coord_op\<close> and \<open>coord_step\<close> make them data. Invariant, refinement of an abstract
    lifecycle, consent before transfer, final phases. Interpretations \<open>coord\<close> and \<open>coord_bytes\<close>.
  \<^item> \<open>Crypto_Primitives\<close>, \<open>Secure_Channel\<close>, \<open>Ukey2_Handshake\<close>: \<open>crypto/src\<close>. Delivery and replay protection of
    the channel (locale \<open>ordered_channel\<close>, interpretation \<open>d2d\<close>), agreement of the key exchange and the
    commitment check (interpretation \<open>responder\<close>).
  \<^item> \<open>Conn_Stream\<close>, \<open>Conn_Deadline\<close>, \<open>Conn_Messages\<close>, \<open>Conn_Upgrade\<close>, \<open>Conn_Frames\<close>, \<open>Conn_Session\<close>,
    \<open>Conn_Transfer\<close>, \<open>Conn_File_Events\<close>, \<open>Conn_Control\<close>, \<open>Conn_Link\<close>, \<open>Conn_Negotiate\<close>, \<open>Conn_Handshake\<close>:
    \<open>connections/src/session\<close>. Stream framing and its equality with the stand-alone codec, deadlines, reassembly
    bounds and exactness (interpretation \<open>reassembly\<close>), the order of file events, polling and draining, the
    move to another medium and its fall-back, the connection setup of both sides.
  \<^item> \<open>Sharing_Types\<close>, \<open>Sharing_Advertisement\<close>, \<open>Sharing_Messages\<close>, \<open>Sharing_Offer\<close>, \<open>Sharing_Frames\<close>,
    \<open>Control_Ids\<close>, \<open>Sharing_Session\<close>, \<open>Sharing_Transfer\<close>, \<open>Sharing_Delivery\<close>, \<open>Sharing_File_Delivery\<close>,
    \<open>Sharing_Safety\<close>: \<open>sharing/src/protocol\<close>. Offers that pass are safe, identifiers are unique in every
    interleaving of threads, texts and files arrive unchanged, no peer exceeds the declared size, no payload
    without consent, a cancellation reaches the peer.
  \<^item> \<open>Bluez_Weave\<close>, \<open>Bluez_Io\<close>: \<open>platform/bluez/src/{weave,io}.rs\<close>, \<open>bus/pipe.rs\<close>. Framing over GATT, exactly-once
    writes under timeouts (locale \<open>pdu_writer\<close>, interpretations \<open>socket\<close> and \<open>weave_out\<close>).
  \<^item> \<open>Storage_Staging\<close>, \<open>Storage_Publication\<close>, \<open>Storage_Source\<close>: \<open>platform/storage/src\<close>. Nothing in the receive
    directory is ever replaced, whichever system calls fail (interpretation \<open>store\<close>), a published file is complete, sources are read whole.
  \<^item> \<open>Daemon_Visibility\<close>, \<open>Daemon_Admission\<close>: \<open>app/src/daemon/visibility\<close>. Permission, consent and leases under
    every interleaving of threads (interpretations \<open>visibility\<close> and \<open>leases\<close>).
  \<^item> \<open>Daemon_Config\<close>: \<open>app/src/config.rs\<close>. A change of a setting is atomic, changes that setting only and gives way
    to an edit made while it runs.
  \<^item> \<open>Control_Messages\<close>: \<open>core/control/src\<close>. Requests, responses and the line codec.
  \<^item> \<open>Daemon_State\<close>, \<open>Daemon_Endpoint\<close>: \<open>app/src/daemon.rs\<close> and \<open>daemon/{lifecycle,outbound,preferences,production,
    observations,network}.rs\<close>, \<open>visibility/control.rs\<close>. The endpoint's state and every handler of a request, an
    event, a timeout or a change of settings, up to the serving loop \<open>serve_until\<close> and \<open>run_daemon\<close>.
  \<^item> \<open>Daemon_Service\<close>, \<open>Daemon_Safety\<close>, \<open>Daemon_Example\<close>, \<open>Daemon_Guarantees\<close>: every handler stays within each
    relation that obeys the laws of a few kinds of steps (locale \<open>endpoint_steps\<close>). For the sequences of the steps
    \<open>micro\<close> (interpretation \<open>ev\<close>) it follows that along every run a share is transferred only with its accepted
    consent (interpretation \<open>endpoint\<close>) and that the coordinator sees a run of its own operations; for the
    relation \<open>keeps_share\<close> (interpretation \<open>ids\<close>) that no handler displaces a live share. Overdue transfers end.
  \<^item> \<open>Cli_Classify\<close>, \<open>Cli_Dispatch\<close>: \<open>app/src/cli\<close>. What \<open>send\<close> makes of its argument, the exchange with the
    endpoint and what each command prints and returns: a success is reported only for a share the daemon took.
  \<^item> \<open>Sharing_Streams\<close>: the file transfers of \<open>sharing/src/protocol/session/transfer\<close> for any reader and writer, equal to
    those of \<open>Sharing_Transfer\<close> for the scripted ones; the worker uses them on sources and staged files.
  \<^item> \<open>Worker_Media\<close>, \<open>Worker_Outbound\<close>: \<open>app/src/daemon/media\<close>, \<open>daemon/network/transfer.rs\<close>. Opening connections, the
    bandwidth upgrade of both sides (only to a better medium), the order of what a connection reports, and an
    outbound attempt from its routes to its final event.
  \<^item> \<open>Worker_Commands\<close>, \<open>Worker_Inbound\<close>: \<open>daemon/network/{worker,inbound}.rs\<close>, \<open>worker/activation.rs\<close>,
    \<open>inbound/consent.rs\<close>. The commands of the endpoint, and a whole inbound connection: nothing reaches the receive
    directory without the accepted consent of that connection, and a completed share is on disk in full.
  \<^item> \<open>Example_Codec\<close>, \<open>Example_Net\<close>, \<open>Example_Sharing\<close>, \<open>Daemon_Example\<close>, \<open>Worker_Example\<close>: instances of the parameters, a
    run of the daemon and an inbound share, for the witnesses.

  \<^bold>\<open>State and effects.\<close> A method that mutates \<open>self\<close> takes the state and returns it with its result, also when
  it fails; \<open>?\<close> is a case on a sum or option. An option result \<open>None\<close> of a daemon definition is a panic. Integers
  of fixed width are words, or naturals with the checks and saturations of the source written out. A path is the
  bytes of its name; making text of one (\<open>to_string_lossy\<close>, \<open>display\<close>) is the identity, as for valid UTF-8. The operating
  system, clocks, peers and clients are scripts in the state: the outcomes of the coming calls. Threads interleave
  either as a step relation (\<open>Control_Ids\<close>, \<open>Daemon_Visibility\<close>) or, for the endpoint, as the calls that the worker
  makes on the shared permission before each call of the endpoint (\<open>other_step\<close>, \<open>interfere\<close>).

  \<^bold>\<open>Parameters.\<close> Third-party code is an argument: the cryptographic functions (laws \<open>sym_ok\<close>, \<open>ukey2_ok\<close>), the
  protobuf codecs and randomness (\<open>net_ok\<close>, \<open>sharing_net_ok\<close>), base64 (\<open>base64_ok\<close>), JSON (\<open>json_ok\<close>), TOML parsing
  and printing. The example theories instantiate them.

  \<^bold>\<open>Termination.\<close> No definition uses fuel. Loops over a stream end because each round shortens the input, retry
  loops because each round takes an observation off the script, the serving loop runs for the rounds it is given
  (its result is \<open>None\<close> while it is still serving).

  \<^bold>\<open>Not modelled.\<close>
  \<^item> The loop \<open>run_worker\<close> of the worker thread, which polls mDNS, BlueZ and the listeners in turn, and the opening of the
    LAN listener; what it does with a connection or a command is modelled. For the endpoint the effect of the
    worker is arbitrary: any events and any of the calls it makes on permission and consents.
  \<^item> D-Bus and mDNS access: \<open>platform/network\<close> and \<open>platform/bluez\<close> beyond the streams; they only call the system.
  \<^item> The control socket and the inotify watch (binding, permissions, stale sockets), notifications, tracing.
  \<^item> The argument parser of the command line (clap) and failures of standard output.
  \<^item> \<open>archive.rs\<close>: writes a ZIP container through a third-party crate; the endpoint takes its result as a script.
  \<^item> Generated protobuf code beyond the fields the program uses; tests, code generators and packaging.
\<close>

end
